(* ===== verification/Prelude.thy ===== *)
theory Prelude
  imports "HOL-Library.Sublist" "HOL-Library.Word"
begin

text \<open>
  Shared vocabulary of the development: results of fallible operations, the
  collections of simplification rules, and generic facts on lists and sets
  that several components use.

  A fallible Go function (value, error) is a function into
  \<^verbatim>\<open>'e + 'a\<close>: \<^verbatim>\<open>Inl\<close> is a returned error, \<^verbatim>\<open>Inr\<close> the value with a nil error.
\<close>

named_theorems const_defs "definitions of the string constants of the program"
named_theorems op_defs "definitions of the operations that proofs of one component unfold"

subsection \<open>Results\<close>

definition bind_res :: "'e + 'a \<Rightarrow> ('a \<Rightarrow> 'e + 'b) \<Rightarrow> 'e + 'b" where
  "bind_res r f = (case r of Inl e \<Rightarrow> Inl e | Inr x \<Rightarrow> f x)"

definition guard_res :: "bool \<Rightarrow> 'e \<Rightarrow> 'e + 'a \<Rightarrow> 'e + 'a" where
  "guard_res ok e k = (if ok then k else Inl e)"

lemma bind_res_simps [simp]:
  "bind_res (Inl e) f = Inl e"
  "bind_res (Inr x) f = f x"
  by (simp_all add: bind_res_def)

lemma bind_res_Inr [simp]:
  "bind_res r f = Inr y \<longleftrightarrow> (\<exists>x. r = Inr x \<and> f x = Inr y)"
  by (cases r) auto

lemma guard_res_simps [simp]:
  "guard_res True e k = k"
  "guard_res False e k = Inl e"
  by (simp_all add: guard_res_def)

lemma guard_res_Inr [simp]:
  "guard_res ok e k = Inr y \<longleftrightarrow> ok \<and> k = Inr y"
  by (simp add: guard_res_def)

primrec is_ok :: "'e + 'a \<Rightarrow> bool" where
  "is_ok (Inl e) = False"
| "is_ok (Inr x) = True"

lemma is_ok_iff: "is_ok r \<longleftrightarrow> (\<exists>x. r = Inr x)"
  by (cases r) auto

text \<open>A Go loop over a slice that returns at the first error.\<close>

fun fold_res :: "('a \<Rightarrow> 's \<Rightarrow> 'e + 's) \<Rightarrow> 'a list \<Rightarrow> 's \<Rightarrow> 'e + 's" where
  "fold_res f [] s = Inr s"
| "fold_res f (x # xs) s = bind_res (f x s) (fold_res f xs)"

lemma fold_res_invariant:
  assumes "\<And>x s s'. x \<in> set xs \<Longrightarrow> P s \<Longrightarrow> f x s = Inr s' \<Longrightarrow> P s'"
    and "P s" and "fold_res f xs s = Inr s'"
  shows "P s'"
  using assms
proof (induction xs arbitrary: s)
  case (Cons x xs)
  obtain t where t: "f x s = Inr t" "fold_res f xs t = Inr s'"
    using Cons.prems(3) by auto
  have "P t" using Cons.prems(1)[of x s t] Cons.prems(2) t(1) by simp
  show ?case
    by (rule Cons.IH[OF _ \<open>P t\<close> t(2)]) (rule Cons.prems(1), auto)
qed simp

subsection \<open>Lists\<close>

lemma card_filter_le: "length (filter P xs) \<le> length xs"
  by simp

lemma map_if_id:
  "(\<And>x. x \<in> set xs \<Longrightarrow> P x \<Longrightarrow> f x = x) \<Longrightarrow> map (\<lambda>x. if P x then f x else x) xs = xs"
  by (induction xs) auto

lemma bex_map: "(\<exists>y\<in>set (map f xs). P y) \<longleftrightarrow> (\<exists>x\<in>set xs. P (f x))"
  unfolding set_map bex_simps ..

lemma fixed_in_map: "f x = x \<Longrightarrow> x \<in> set xs \<Longrightarrow> x \<in> set (map f xs)"
  by (induction xs) auto

lemma filter_Nil_iff: "filter P xs = [] \<longleftrightarrow> (\<forall>x\<in>set xs. \<not> P x)"
  by (induction xs) auto

lemma takeWhile_append_stop:
  "\<forall>x\<in>set xs. P x \<Longrightarrow> \<not> P y \<Longrightarrow> takeWhile P (xs @ y # ys) = xs"
  by (induction xs) auto

lemma dropWhile_append_stop:
  "\<forall>x\<in>set xs. P x \<Longrightarrow> \<not> P y \<Longrightarrow> dropWhile P (xs @ y # ys) = y # ys"
  by (induction xs) auto

lemma distinct_map_filter:
  "distinct (map f xs) \<Longrightarrow> distinct (map f (filter P xs))"
  by (induction xs) auto

lemma distinct_key_eq:
  "distinct (map f xs) \<Longrightarrow> x \<in> set xs \<Longrightarrow> y \<in> set xs \<Longrightarrow> f x = f y \<Longrightarrow> x = y"
  by (metis distinct_map inj_onD)

text \<open>Go's \<^verbatim>\<open>seen := map[string]bool\<close> idiom: keep the first occurrence of each element.\<close>

fun dedup_from :: "'a list \<Rightarrow> 'a list \<Rightarrow> 'a list" where
  "dedup_from seen [] = []"
| "dedup_from seen (x # xs) =
     (if x \<in> set seen then dedup_from seen xs else x # dedup_from (x # seen) xs)"

lemma set_dedup_from [simp]: "set (dedup_from seen xs) = set xs - set seen"
  by (induction seen xs rule: dedup_from.induct) auto

lemma distinct_dedup_from [simp]: "distinct (dedup_from seen xs)"
  by (induction seen xs rule: dedup_from.induct) auto

lemma subseq_dedup_from: "subseq (dedup_from seen xs) xs"
  by (induction seen xs rule: dedup_from.induct) auto

lemma dedup_from_cong: "set a = set b \<Longrightarrow> dedup_from a xs = dedup_from b xs"
proof (induction xs arbitrary: a b)
  case (Cons x xs)
  have "set (x # a) = set (x # b)" using Cons.prems by simp
  then show ?case using Cons.IH[OF Cons.prems] Cons.IH[of "x # a" "x # b"] Cons.prems by simp
qed simp

lemma dedup_from_append:
  "dedup_from a (xs @ ys) = dedup_from a xs @ dedup_from (dedup_from a xs @ a) ys"
proof (induction a xs rule: dedup_from.induct)
  case (2 a x xs)
  show ?case
  proof (cases "x \<in> set a")
    case False
    have "dedup_from (dedup_from (x # a) xs @ x # a) ys = dedup_from (x # dedup_from (x # a) xs @ a) ys"
      by (rule dedup_from_cong) auto
    then show ?thesis using 2(2)[OF False] False by simp
  qed (use 2(1) in simp)
qed simp

text \<open>Splitting a slice into consecutive batches, \<^verbatim>\<open>for start := 0; start < len; start += n\<close>.\<close>

function chunks :: "nat \<Rightarrow> 'a list \<Rightarrow> 'a list list" where
  "chunks n xs = (if xs = [] \<or> n = 0 then [] else take n xs # chunks n (drop n xs))"
  by pat_completeness auto
termination by (relation "measure (length \<circ> snd)") auto

declare chunks.simps [simp del]

lemma concat_chunks: "0 < n \<Longrightarrow> concat (chunks n xs) = xs"
proof (induction n xs rule: chunks.induct)
  case (1 n xs)
  then show ?case by (subst chunks.simps) auto
qed

lemma chunks_length: "c \<in> set (chunks n xs) \<Longrightarrow> c \<noteq> [] \<and> length c \<le> n"
proof (induction n xs rule: chunks.induct)
  case (1 n xs)
  then show ?case by (subst (asm) (2) chunks.simps) (auto split: if_splits)
qed

subsection \<open>Sets\<close>

lemma card_Diff_less:
  "finite U \<Longrightarrow> x \<in> U \<Longrightarrow> x \<notin> S \<Longrightarrow> card (U - insert x S) < card (U - S)"
  by (rule psubset_card_mono) auto

end
