(* ===== verification/IdGen.thy ===== *)
theory IdGen
  imports GoStrings
begin

text \<open>
  Identifier generation: base-36 encoding of hash bytes and hash based issue
  ids (\<^verbatim>\<open>internal/idgen/hash.go\<close>), and hierarchical child ids
  (\<^verbatim>\<open>internal/types/id_generator.go\<close>).  SHA-256 is the argument \<^verbatim>\<open>sha256\<close>, a function
  from the bytes hashed to the digest.
\<close>

subsection \<open>Base 36\<close>

text \<open>\<^verbatim>\<open>big.Int.SetBytes\<close>: big-endian value of the bytes.\<close>

definition SetBytes :: "8 word list \<Rightarrow> nat" where
  "SetBytes bs = foldl (\<lambda>a b. a * 256 + unat b) 0 bs"

text \<open>The DivMod loop; it appends the least significant digit first.\<close>

fun base36_loop :: "nat \<Rightarrow> string" where
  "base36_loop num =
     (if num > 0 then digit_char (num mod 36) # base36_loop (num div 36) else [])"

declare base36_loop.simps [simp del]

definition EncodeBase36 :: "8 word list \<Rightarrow> nat \<Rightarrow> string" where
  "EncodeBase36 bytes len =
     (let chars = base36_loop (SetBytes bytes);
          result = rev chars;
          str = (if length result < len then replicate (len - length result) (CHR ''0'') @ result
                 else result)
      in if length str > len then drop (length str - len) str else str)"

definition decode36 :: "string \<Rightarrow> nat" where
  "decode36 s = foldl (\<lambda>a c. a * 36 + char_digit c) 0 s"

lemma foldl_base_shift:
  "foldl (\<lambda>a c. a * (b::nat) + f c) x s = x * b ^ length s + foldl (\<lambda>a c. a * b + f c) 0 s"
proof (induction s arbitrary: x)
  case (Cons c s)
  show ?case
    using Cons[of "x * b + f c"] Cons[of "f c"] by (simp add: algebra_simps)
qed simp

lemma decode36_append:
  "decode36 (s @ t) = decode36 s * 36 ^ length t + decode36 t"
  unfolding decode36_def by (simp add: foldl_base_shift[of 36 char_digit "foldl _ 0 s"])

lemma decode36_single [simp]: "decode36 [c] = char_digit c" "decode36 [] = 0"
  by (simp_all add: decode36_def)

lemma base36_loop_chars: "set (base36_loop n) \<subseteq> set base36Alphabet"
proof (induction n rule: base36_loop.induct)
  case (1 n)
  then show ?case
    by (subst base36_loop.simps) (auto intro: digit_char_in_alphabet)
qed

lemma decode_base36_loop: "decode36 (rev (base36_loop n)) = n"
proof (induction n rule: base36_loop.induct)
  case (1 n)
  then show ?case by (subst base36_loop.simps) (auto simp: decode36_append)
qed

lemma alphabet_digit: "c \<in> set base36Alphabet \<Longrightarrow> char_digit c < 36"
proof -
  assume c: "c \<in> set base36Alphabet"
  have "\<forall>c \<in> set base36Alphabet. char_digit c < 36"
    by code_simp
  with c show ?thesis by blast
qed

lemma decode36_bound: "set s \<subseteq> set base36Alphabet \<Longrightarrow> decode36 s < 36 ^ length s"
proof (induction s rule: rev_induct)
  case (snoc c s)
  then have "decode36 s < 36 ^ length s" "char_digit c < 36"
    using alphabet_digit by auto
  then have "decode36 s * 36 + char_digit c < (decode36 s + 1) * 36"
    by simp
  also have "\<dots> \<le> 36 ^ length s * 36"
    using \<open>decode36 s < 36 ^ length s\<close> by (intro mult_right_mono) auto
  finally show ?case by (simp add: decode36_append)
qed simp

lemma decode36_zeros: "decode36 (replicate n (CHR ''0'') @ s) = decode36 s"
proof -
  have "decode36 (replicate n (CHR ''0'')) = 0"
    by (induction n) (simp_all add: decode36_append[of "[_]", simplified] char_digit_def)
  then show ?thesis by (simp add: decode36_append)
qed

lemma zero_in_alphabet: "CHR ''0'' \<in> set base36Alphabet"
  by (simp add: base36Alphabet_def)

lemma length_EncodeBase36: "length (EncodeBase36 bs len) = len"
  by (simp add: EncodeBase36_def Let_def)

lemma set_EncodeBase36: "set (EncodeBase36 bs len) \<subseteq> set base36Alphabet"
  using base36_loop_chars[of "SetBytes bs"] zero_in_alphabet
  by (auto simp: EncodeBase36_def Let_def dest!: in_set_dropD in_set_replicate[THEN iffD1])

text \<open>The code keeps the least significant digits, so the value is the number modulo \<^verbatim>\<open>36^len\<close>.\<close>

lemma decode_EncodeBase36: "decode36 (EncodeBase36 bs len) = SetBytes bs mod 36 ^ len"
proof -
  define s where "s = rev (base36_loop (SetBytes bs))"
  have v: "decode36 s = SetBytes bs" by (simp add: s_def decode_base36_loop)
  have al: "set s \<subseteq> set base36Alphabet" using base36_loop_chars by (simp add: s_def)
  show ?thesis
  proof (cases "length s > len")
    case True
    let ?t = "drop (length s - len) s"
    have "decode36 s = decode36 (take (length s - len) s) * 36 ^ len + decode36 ?t"
      using True decode36_append[of "take (length s - len) s" ?t] by simp
    moreover have "decode36 ?t < 36 ^ len"
      using decode36_bound[of ?t] al True by (auto dest!: in_set_dropD)
    ultimately have "decode36 ?t = SetBytes bs mod 36 ^ len"
      using v by (metis mod_less mod_mult_self3)
    with True show ?thesis by (simp add: EncodeBase36_def Let_def s_def)
  next
    case False
    then have "SetBytes bs < 36 ^ len"
      using decode36_bound[OF al] v power_increasing[of "length s" len "36::nat"] by linarith
    with False v show ?thesis
      by (simp add: EncodeBase36_def Let_def s_def[symmetric] decode36_zeros)
  qed
qed

lemma SetBytes_bound: "SetBytes bs < 256 ^ length bs"
proof (induction bs rule: rev_induct)
  case (snoc b bs)
  have "unat b < 256" using unsigned_less[of b] by simp
  then have "SetBytes bs * 256 + unat b < (SetBytes bs + 1) * 256" by simp
  also have "\<dots> \<le> 256 ^ length bs * 256" using snoc by (intro mult_right_mono) auto
  finally show ?case by (simp add: SetBytes_def)
qed (simp add: SetBytes_def)

lemma digit256_unique:
  assumes "a * 256 + b = c * 256 + (d::nat)" "b < 256" "d < 256"
  shows "a = c" "b = d"
proof -
  have "a = (a * 256 + b) div 256" "c = (c * 256 + d) div 256" using assms by simp_all
  with assms(1) show "a = c" by simp
  with assms(1) show "b = d" by simp
qed

lemma SetBytes_inject:
  "length bs = length cs \<Longrightarrow> SetBytes bs = SetBytes cs \<Longrightarrow> bs = cs"
proof (induction bs cs rule: rev_induct2)
  case (4 b bs c cs)
  have b: "unat b < 256" "unat c < 256" using unsigned_less[of b] unsigned_less[of c] by auto
  have "SetBytes bs * 256 + unat b = SetBytes cs * 256 + unat c"
    using 4 by (simp add: SetBytes_def)
  then have e: "SetBytes bs = SetBytes cs" "unat b = unat c" using digit256_unique b by blast+
  have "bs = cs" using 4 e(1) by simp
  moreover have "b = c" using e(2) by (rule unsigned_word_eqI)
  ultimately show ?case by simp
qed simp_all

subsection \<open>Hash ids\<close>

definition hash_num_bytes :: "nat \<Rightarrow> nat" where
  "hash_num_bytes len =
     (if len = 3 then 2 else if len = 4 then 3 else if len = 5 then 4 else if len = 6 then 4
      else if len = 7 then 5 else if len = 8 then 5 else 3)"

definition GenerateHashID ::
  "(string \<Rightarrow> 8 word list) \<Rightarrow> string \<Rightarrow> string \<Rightarrow> string \<Rightarrow> string \<Rightarrow> int \<Rightarrow> nat \<Rightarrow> int \<Rightarrow> string" where
  "GenerateHashID sha256 pre title description creator unixNano len nonce =
     (let content = title @ ''|'' @ description @ ''|'' @ creator @ ''|'' @ show_int unixNano
                      @ ''|'' @ show_int nonce;
          hash = sha256 content;
          shortHash = EncodeBase36 (take (hash_num_bytes len) hash) len
      in pre @ ''-'' @ shortHash)"

subsection \<open>Hierarchical ids\<close>

definition GenerateChildID :: "string \<Rightarrow> int \<Rightarrow> string" where
  "GenerateChildID parentID childNumber = parentID @ ''.'' @ show_int childNumber"

definition dot_count :: "string \<Rightarrow> nat" where
  "dot_count s = length (filter (\<lambda>c. c = CHR ''.'') s)"

text \<open>\<^verbatim>\<open>id[:lastDot]\<close> for an id with a dot.\<close>

definition before_last_dot :: "string \<Rightarrow> string" where
  "before_last_dot s = rev (tl (dropWhile (\<lambda>c. c \<noteq> CHR ''.'') (rev s)))"

definition ParseHierarchicalID :: "string \<Rightarrow> string \<times> string \<times> nat" where
  "ParseHierarchicalID s =
     (let depth = dot_count s in
      if depth = 0 then (s, [], 0)
      else (takeWhile (\<lambda>c. c \<noteq> CHR ''.'') s, before_last_dot s, depth))"

definition ExtractPrefix :: "string \<Rightarrow> string" where
  "ExtractPrefix s =
     (if CHR ''-'' \<in> set s then takeWhile (\<lambda>c. c \<noteq> CHR ''-'') s @ ''-'' else [])"

definition MaxHierarchyDepth :: int where
  "MaxHierarchyDepth = 3"

text \<open>True when the check returns nil.\<close>

definition CheckHierarchyDepth :: "string \<Rightarrow> int \<Rightarrow> bool" where
  "CheckHierarchyDepth parentID maxDepth =
     (let m = (if maxDepth < 1 then MaxHierarchyDepth else maxDepth)
      in \<not> int (dot_count parentID) \<ge> m)"

lemma dot_count_append [simp]: "dot_count (s @ t) = dot_count s + dot_count t"
  by (simp add: dot_count_def)

lemma dot_count_zero: "dot_count s = 0 \<longleftrightarrow> CHR ''.'' \<notin> set s"
  by (auto simp: dot_count_def filter_empty_conv)

lemma dot_count_show_int [simp]: "dot_count (show_int n) = 0"
  using show_int_no_dot dot_count_zero by blast

lemma dot_count_child: "dot_count (GenerateChildID p n) = dot_count p + 1"
  using dot_count_show_int[of n] by (simp add: GenerateChildID_def dot_count_def)

lemma before_last_dot_child: "before_last_dot (GenerateChildID p n) = p"
proof -
  have "dropWhile (\<lambda>c. c \<noteq> CHR ''.'') (rev (show_int n) @ CHR ''.'' # rev p) = CHR ''.'' # rev p"
    by (rule dropWhile_append_stop) (use show_int_no_dot in auto)
  then show ?thesis by (simp add: before_last_dot_def GenerateChildID_def)
qed

lemma takeWhile_dot_append:
  "takeWhile (\<lambda>c. c \<noteq> d) (s @ d # t) = takeWhile (\<lambda>c. c \<noteq> d) s"
  by (induction s) auto

lemma GenerateChildID_inject [simp]:
  "GenerateChildID p m = GenerateChildID q n \<longleftrightarrow> p = q \<and> m = n"
proof
  assume e: "GenerateChildID p m = GenerateChildID q n"
  then have "p = q" using before_last_dot_child by metis
  with e show "p = q \<and> m = n" by (simp add: GenerateChildID_def)
qed simp

end
