(* ===== verification/Types.thy ===== *)
theory Types
  imports GoStrings
begin

text \<open>
  The data model of \<^verbatim>\<open>internal/types/types.go\<close>: the Issue structure, statuses,
  status categories, issue types, dependency types and their predicates, the
  validation of an issue, the canonical bytes of the content hash and the
  parser of the \<^verbatim>\<open>status.custom\<close> configuration.

  A Go string type with named constants (Status, IssueType, DependencyType)
  stays a string, because custom values are allowed; \<^verbatim>\<open>*T\<close> is an option;
  \<^verbatim>\<open>time.Time\<close> and \<^verbatim>\<open>time.Duration\<close> are integers (nanoseconds).
\<close>

type_synonym time = int
type_synonym status = string
type_synonym issue_type = string
type_synonym dep_type = string

record bond_ref =
  SourceID :: string
  BondType :: string
  BondPoint :: string

record dependency =
  IssueID :: string
  DependsOnID :: string
  DepType :: dep_type
  DepCreatedAt :: time
  DepCreatedBy :: string
  DepMetadata :: string
  ThreadID :: string

record comment =
  CommentID :: string
  CommentIssueID :: string
  Author :: string
  CommentText :: string
  CommentCreatedAt :: time

record issue =
  ID :: string
  ContentHash :: string
  Title :: string
  Description :: string
  Design :: string
  AcceptanceCriteria :: string
  Notes :: string
  SpecID :: string
  Status :: status
  Priority :: int
  IssueType :: issue_type
  Assignee :: string
  Owner :: string
  EstimatedMinutes :: "int option"
  CreatedAt :: time
  CreatedBy :: string
  UpdatedAt :: time
  StartedAt :: "time option"
  ClosedAt :: "time option"
  CloseReason :: string
  ClosedBySession :: string
  LeaseExpiresAt :: "time option"
  HeartbeatAt :: "time option"
  DueAt :: "time option"
  DeferUntil :: "time option"
  ExternalRef :: "string option"
  SourceSystem :: string
  Metadata :: string
  CompactionLevel :: int
  CompactedAt :: "time option"
  CompactedAtCommit :: "string option"
  OriginalSize :: int
  SourceRepo :: string
  IDPrefix :: string
  PrefixOverride :: string
  Labels :: "string list"
  Dependencies :: "dependency list"
  Comments :: "comment list"
  Sender :: string
  Ephemeral :: bool
  NoHistory :: bool
  WispType :: string
  Pinned :: bool
  IsTemplate :: bool
  BondedFrom :: "bond_ref list"
  AwaitType :: string
  AwaitID :: string
  Timeout :: int
  Waiters :: "string list"
  SourceFormula :: string
  SourceLocation :: string
  MolType :: string
  WorkType :: string
  EventKind :: string
  Actor :: string
  Target :: string
  Payload :: string

subsection \<open>Statuses and categories\<close>

definition StatusOpen :: status where [const_defs]: "StatusOpen = ''open''"
definition StatusInProgress :: status where [const_defs]: "StatusInProgress = ''in_progress''"
definition StatusBlocked :: status where [const_defs]: "StatusBlocked = ''blocked''"
definition StatusDeferred :: status where [const_defs]: "StatusDeferred = ''deferred''"
definition StatusClosed :: status where [const_defs]: "StatusClosed = ''closed''"
definition StatusPinned :: status where [const_defs]: "StatusPinned = ''pinned''"
definition StatusHooked :: status where [const_defs]: "StatusHooked = ''hooked''"

definition builtin_statuses :: "status list" where
  "builtin_statuses = [StatusOpen, StatusInProgress, StatusBlocked, StatusDeferred,
     StatusClosed, StatusPinned, StatusHooked]"

lemma status_distinct [simp]:
  "StatusOpen \<noteq> StatusClosed" "StatusClosed \<noteq> StatusOpen"
  "StatusInProgress \<noteq> StatusClosed" "StatusClosed \<noteq> StatusInProgress"
  "StatusOpen \<noteq> StatusInProgress" "StatusInProgress \<noteq> StatusOpen"
  "StatusOpen \<noteq> StatusPinned" "StatusPinned \<noteq> StatusOpen"
  "StatusClosed \<noteq> StatusPinned" "StatusPinned \<noteq> StatusClosed"
  "StatusInProgress \<noteq> StatusPinned" "StatusPinned \<noteq> StatusInProgress"
  "StatusOpen \<noteq> ''''" "StatusClosed \<noteq> ''''" "StatusInProgress \<noteq> ''''"
  by (simp_all add: const_defs)

definition status_IsValid :: "status \<Rightarrow> bool" where
  "status_IsValid s = (s \<in> set builtin_statuses)"

definition status_IsValidWithCustom :: "status \<Rightarrow> string list \<Rightarrow> bool" where
  "status_IsValidWithCustom s custom = (status_IsValid s \<or> s \<in> set custom)"

type_synonym category = string

definition CategoryActive :: category where [const_defs]: "CategoryActive = ''active''"
definition CategoryWIP :: category where [const_defs]: "CategoryWIP = ''wip''"
definition CategoryDone :: category where [const_defs]: "CategoryDone = ''done''"
definition CategoryFrozen :: category where [const_defs]: "CategoryFrozen = ''frozen''"
definition CategoryUnspecified :: category where [const_defs]: "CategoryUnspecified = ''unspecified''"

definition validCategories :: "category list" where
  "validCategories = [CategoryActive, CategoryWIP, CategoryDone, CategoryFrozen]"

record custom_status =
  Name :: string
  Category :: category

definition status_IsValidWithCustomStatuses :: "status \<Rightarrow> custom_status list \<Rightarrow> bool" where
  "status_IsValidWithCustomStatuses s cs = (status_IsValid s \<or> (\<exists>c\<in>set cs. s = Name c))"

definition CustomStatusNames :: "custom_status list \<Rightarrow> string list" where
  "CustomStatusNames cs = map Name cs"

definition CustomStatusesByCategory :: "custom_status list \<Rightarrow> category \<Rightarrow> custom_status list" where
  "CustomStatusesByCategory cs cat = filter (\<lambda>s. Category s = cat) cs"

definition BuiltInStatusCategory :: "status \<Rightarrow> category" where
  "BuiltInStatusCategory s =
     (if s = StatusOpen then CategoryActive
      else if s \<in> {StatusInProgress, StatusBlocked, StatusHooked} then CategoryWIP
      else if s = StatusClosed then CategoryDone
      else if s \<in> {StatusDeferred, StatusPinned} then CategoryFrozen
      else CategoryUnspecified)"

lemma BuiltInStatusCategory_unspecified:
  "BuiltInStatusCategory s = CategoryUnspecified \<longleftrightarrow> \<not> status_IsValid s"
  by (auto simp: BuiltInStatusCategory_def status_IsValid_def builtin_statuses_def const_defs)

subsection \<open>Issue types\<close>

definition TypeBug :: issue_type where [const_defs]: "TypeBug = ''bug''"
definition TypeFeature :: issue_type where [const_defs]: "TypeFeature = ''feature''"
definition TypeTask :: issue_type where [const_defs]: "TypeTask = ''task''"
definition TypeEpic :: issue_type where [const_defs]: "TypeEpic = ''epic''"
definition TypeChore :: issue_type where [const_defs]: "TypeChore = ''chore''"
definition TypeDecision :: issue_type where [const_defs]: "TypeDecision = ''decision''"
definition TypeMessage :: issue_type where [const_defs]: "TypeMessage = ''message''"
definition TypeMolecule :: issue_type where [const_defs]: "TypeMolecule = ''molecule''"
definition TypeGate :: issue_type where [const_defs]: "TypeGate = ''gate''"
definition TypeSpike :: issue_type where [const_defs]: "TypeSpike = ''spike''"
definition TypeStory :: issue_type where [const_defs]: "TypeStory = ''story''"
definition TypeMilestone :: issue_type where [const_defs]: "TypeMilestone = ''milestone''"
definition TypeEvent :: issue_type where [const_defs]: "TypeEvent = ''event''"

definition builtin_types :: "issue_type list" where
  "builtin_types = [TypeBug, TypeFeature, TypeTask, TypeEpic, TypeChore, TypeDecision,
     TypeMessage, TypeMolecule, TypeGate, TypeSpike, TypeStory, TypeMilestone]"

definition type_IsValid :: "issue_type \<Rightarrow> bool" where
  "type_IsValid t = (t \<in> set builtin_types)"

definition type_IsBuiltIn :: "issue_type \<Rightarrow> bool" where
  "type_IsBuiltIn t = (type_IsValid t \<or> t = TypeEvent)"

definition type_IsValidWithCustom :: "issue_type \<Rightarrow> string list \<Rightarrow> bool" where
  "type_IsValidWithCustom t custom = (type_IsBuiltIn t \<or> t \<in> set custom)"

definition type_Normalize :: "issue_type \<Rightarrow> issue_type" where
  "type_Normalize t = (let l = to_lower t in
     if l \<in> {''enhancement'', ''feat''} then TypeFeature
     else if l \<in> {''dec'', ''adr''} then TypeDecision
     else if l \<in> {''investigation'', ''timebox''} then TypeSpike
     else if l \<in> {''user-story'', ''user_story''} then TypeStory
     else if l = ''ms'' then TypeMilestone
     else t)"

record required_section =
  Heading :: string
  Hint :: string

definition RequiredSections :: "issue_type \<Rightarrow> required_section list" where
  "RequiredSections t =
     (if t = TypeBug then
        [\<lparr>Heading = ''## Steps to Reproduce'', Hint = ''Describe how to reproduce the bug''\<rparr>,
         \<lparr>Heading = ''## Acceptance Criteria'', Hint = ''Define criteria to verify the fix''\<rparr>]
      else if t \<in> {TypeTask, TypeFeature, TypeStory} then
        [\<lparr>Heading = ''## Acceptance Criteria'', Hint = ''Define criteria to verify completion''\<rparr>]
      else if t = TypeEpic then
        [\<lparr>Heading = ''## Success Criteria'', Hint = ''Define high-level success criteria''\<rparr>]
      else if t = TypeDecision then
        [\<lparr>Heading = ''## Decision'', Hint = ''Summarize what was decided''\<rparr>,
         \<lparr>Heading = ''## Rationale'', Hint = ''Explain why this option was chosen''\<rparr>,
         \<lparr>Heading = ''## Alternatives Considered'', Hint = ''List alternatives and why they were rejected''\<rparr>]
      else if t = TypeSpike then
        [\<lparr>Heading = ''## Goal'', Hint = ''What question does this spike answer?''\<rparr>,
         \<lparr>Heading = ''## Findings'', Hint = ''What was learned? (fill in when complete)''\<rparr>]
      else [])"

definition MolType_IsValid :: "string \<Rightarrow> bool" where
  "MolType_IsValid m = (m \<in> {''swarm'', ''patrol'', ''work'', ''''})"

definition WispType_IsValid :: "string \<Rightarrow> bool" where
  "WispType_IsValid w = (w \<in> {''heartbeat'', ''ping'', ''patrol'', ''gc_report'',
     ''recovery'', ''error'', ''escalation'', ''''})"

definition WorkType_IsValid :: "string \<Rightarrow> bool" where
  "WorkType_IsValid w = (w \<in> {''mutex'', ''open_competition'', ''''})"

subsection \<open>Dependency types\<close>

definition DepBlocks :: dep_type where [const_defs]: "DepBlocks = ''blocks''"
definition DepParentChild :: dep_type where [const_defs]: "DepParentChild = ''parent-child''"
definition DepConditionalBlocks :: dep_type where [const_defs]: "DepConditionalBlocks = ''conditional-blocks''"
definition DepWaitsFor :: dep_type where [const_defs]: "DepWaitsFor = ''waits-for''"
definition DepRelated :: dep_type where [const_defs]: "DepRelated = ''related''"
definition DepDiscoveredFrom :: dep_type where [const_defs]: "DepDiscoveredFrom = ''discovered-from''"

lemma dep_type_distinct [simp]:
  "DepBlocks \<noteq> DepParentChild" "DepParentChild \<noteq> DepBlocks"
  "DepBlocks \<noteq> DepConditionalBlocks" "DepConditionalBlocks \<noteq> DepBlocks"
  "DepBlocks \<noteq> DepWaitsFor" "DepWaitsFor \<noteq> DepBlocks"
  "DepParentChild \<noteq> DepConditionalBlocks" "DepConditionalBlocks \<noteq> DepParentChild"
  "DepParentChild \<noteq> DepWaitsFor" "DepWaitsFor \<noteq> DepParentChild"
  "DepConditionalBlocks \<noteq> DepWaitsFor" "DepWaitsFor \<noteq> DepConditionalBlocks"
  by (simp_all add: const_defs)

definition dep_IsValid :: "dep_type \<Rightarrow> bool" where
  "dep_IsValid d = (0 < length d \<and> length d \<le> 50)"

definition WellKnownDependencyTypes :: "dep_type list" where
  "WellKnownDependencyTypes =
     [DepBlocks, DepParentChild, DepConditionalBlocks, DepWaitsFor, DepRelated, DepDiscoveredFrom,
      ''replies-to'', ''relates-to'', ''duplicates'', ''supersedes'',
      ''authored-by'', ''assigned-to'', ''approved-by'', ''attests'', ''tracks'',
      ''until'', ''caused-by'', ''validates'', ''delegated-from'']"

definition dep_IsWellKnown :: "dep_type \<Rightarrow> bool" where
  "dep_IsWellKnown d = (d \<in> set WellKnownDependencyTypes)"

definition AffectsReadyWork :: "dep_type \<Rightarrow> bool" where
  "AffectsReadyWork d = (d = DepBlocks \<or> d = DepParentChild \<or> d = DepConditionalBlocks \<or> d = DepWaitsFor)"

definition IsBlockingEdge :: "dep_type \<Rightarrow> bool" where
  "IsBlockingEdge d = (d = DepBlocks \<or> d = DepConditionalBlocks \<or> d = DepWaitsFor)"

lemma well_known_valid: "dep_IsWellKnown d \<Longrightarrow> dep_IsValid d"
  by (auto simp: dep_IsWellKnown_def WellKnownDependencyTypes_def dep_IsValid_def const_defs)

definition WaitsForAllChildren :: string where [const_defs]: "WaitsForAllChildren = ''all-children''"
definition WaitsForAnyChildren :: string where [const_defs]: "WaitsForAnyChildren = ''any-children''"

text \<open>
  \<^verbatim>\<open>json.Unmarshal\<close> into \<^verbatim>\<open>WaitsForMeta\<close> is the parameter \<^verbatim>\<open>unmarshal_gate\<close>: the gate
  field of the decoded structure, or \<^verbatim>\<open>None\<close> when the text does not decode.
\<close>

definition ParseWaitsForGateMetadata :: "(string \<Rightarrow> string option) \<Rightarrow> string \<Rightarrow> string" where
  "ParseWaitsForGateMetadata unmarshal_gate metadata =
     (if trim_space metadata = '''' then WaitsForAllChildren
      else case unmarshal_gate metadata of
        None \<Rightarrow> WaitsForAllChildren
      | Some gate \<Rightarrow> (if gate = WaitsForAnyChildren then WaitsForAnyChildren else WaitsForAllChildren))"

definition FailureCloseKeywords :: "string list" where
  "FailureCloseKeywords = [''failed'', ''rejected'', ''wontfix'', ''won'' @ [CHR 0x27] @ ''t fix'',
     ''canceled'', ''cancelled'', ''abandoned'', ''blocked'', ''error'', ''timeout'', ''aborted'']"

definition IsFailureClose :: "string \<Rightarrow> bool" where
  "IsFailureClose closeReason = (if closeReason = '''' then False
     else let lower = to_lower closeReason in
       \<exists>keyword\<in>set FailureCloseKeywords. str_contains lower keyword)"

end
