(* ===== verification/StatusConfig.thy ===== *)
theory StatusConfig
  imports Types
begin

text \<open>
  \<^verbatim>\<open>ParseCustomStatusConfig\<close> of \<^verbatim>\<open>internal/types/types.go\<close>: the parser of the
  comma separated \<^verbatim>\<open>status.custom\<close> value, with its five error returns.
\<close>

datatype status_config_error =
    TrailingColon string
  | InvalidCategory string string
  | InvalidStatusName string
  | CollidesWithBuiltIn string
  | DuplicateName string
  | TooManyStatuses nat

text \<open>The regular expression \<^verbatim>\<open>^[a-z][a-z0-9_-]*$\<close>.\<close>

definition name_char :: "char \<Rightarrow> bool" where
  "name_char c = (is_lower c \<or> is_digit c \<or> c = CHR ''_'' \<or> c = CHR ''-'')"

definition statusNameRegexp :: "string \<Rightarrow> bool" where
  "statusNameRegexp s = (case s of [] \<Rightarrow> False | c # cs \<Rightarrow> is_lower c \<and> list_all name_char cs)"

definition builtInStatusNames :: "string list" where
  "builtInStatusNames = [''open'', ''in_progress'', ''blocked'', ''deferred'', ''closed'',
     ''pinned'', ''hooked'']"

definition maxCustomStatuses :: nat where
  "maxCustomStatuses = 50"

text \<open>One part after the split on commas, already trimmed and not empty.\<close>

definition split_part :: "string \<Rightarrow> status_config_error + (string \<times> category)" where
  "split_part part =
    (if CHR '':'' \<in> set part then
       (let name = takeWhile (\<lambda>c. c \<noteq> CHR '':'') part;
            catStr = tl (dropWhile (\<lambda>c. c \<noteq> CHR '':'') part)
        in if catStr = [] then Inl (TrailingColon part)
           else if catStr \<notin> set validCategories then Inl (InvalidCategory catStr name)
           else Inr (name, catStr))
     else Inr (part, CategoryUnspecified))"

fun parse_parts :: "string list \<Rightarrow> string list \<Rightarrow> status_config_error + custom_status list" where
  "parse_parts seen [] = Inr []"
| "parse_parts seen (raw # parts) =
    (let part = trim_space raw in
     if part = [] then parse_parts seen parts
     else bind_res (split_part part) (\<lambda>(name, category).
       if \<not> statusNameRegexp name then Inl (InvalidStatusName name)
       else if to_lower name \<in> set builtInStatusNames then Inl (CollidesWithBuiltIn name)
       else if name \<in> set seen then Inl (DuplicateName name)
       else bind_res (parse_parts (name # seen) parts)
              (\<lambda>rest. Inr (\<lparr>Name = name, Category = category\<rparr> # rest))))"

definition ParseCustomStatusConfig :: "string \<Rightarrow> status_config_error + custom_status list" where
  "ParseCustomStatusConfig value =
    (let v = trim_space value in
     if v = [] then Inr []
     else bind_res (parse_parts [] (split_on (CHR '','') v)) (\<lambda>result.
       if length result > maxCustomStatuses then Inl (TooManyStatuses (length result))
       else Inr result))"

text \<open>What the parser promises of an accepted configuration.\<close>

definition good_status :: "custom_status \<Rightarrow> bool" where
  "good_status s = (statusNameRegexp (Name s) \<and> \<not> status_IsValid (Name s) \<and>
     (Category s \<in> set validCategories \<or> Category s = CategoryUnspecified))"

text \<open>The printer a configuration value corresponds to.\<close>

definition render_status :: "custom_status \<Rightarrow> string" where
  "render_status s = (if Category s = CategoryUnspecified then Name s
     else Name s @ '':'' @ Category s)"

definition render_config :: "custom_status list \<Rightarrow> string" where
  "render_config ss = join_with '','' (map render_status ss)"

lemma name_char_not_upper:
  "name_char c \<Longrightarrow> \<not> (65 \<le> (of_char c :: nat) \<and> (of_char c :: nat) \<le> 90)"
  by (auto simp: name_char_def is_lower_def is_digit_def)

lemma regexp_chars: "statusNameRegexp s \<Longrightarrow> c \<in> set s \<Longrightarrow> name_char c"
  by (auto simp: statusNameRegexp_def name_char_def list_all_iff split: list.splits)

lemma regexp_lower: "statusNameRegexp s \<Longrightarrow> to_lower s = s"
  by (rule to_lower_id) (use name_char_not_upper regexp_chars in blast)

lemma builtin_names: "set builtInStatusNames = set builtin_statuses"
  by (auto simp: builtInStatusNames_def builtin_statuses_def const_defs)

lemma name_char_safe:
  "name_char c \<Longrightarrow> c \<noteq> CHR '','' \<and> c \<noteq> CHR '':'' \<and> \<not> is_space c"
  by (auto simp: name_char_def is_lower_def is_digit_def is_space_def)

lemma split_part_category:
  "split_part part = Inr (n, c) \<Longrightarrow> c \<in> set validCategories \<or> c = CategoryUnspecified"
  by (auto simp: split_part_def Let_def split: if_splits)

lemma parse_parts_good:
  "parse_parts seen parts = Inr ss \<Longrightarrow>
     list_all good_status ss \<and> distinct (map Name ss) \<and> set (map Name ss) \<inter> set seen = {}"
proof (induction seen parts arbitrary: ss rule: parse_parts.induct)
  case (2 seen raw parts)
  show ?case
  proof (cases "trim_space raw = []")
    case True
    with 2 show ?thesis by simp
  next
    case False
    from "2.prems" False obtain n c rest where
      sp: "split_part (trim_space raw) = Inr (n, c)" and re: "statusNameRegexp n"
      and nb: "to_lower n \<notin> set builtInStatusNames" and ns: "n \<notin> set seen"
      and rest: "parse_parts (n # seen) parts = Inr rest"
      and ss: "ss = \<lparr>Name = n, Category = c\<rparr> # rest"
      by (auto simp: Let_def split: if_splits prod.splits)
    have "list_all good_status rest \<and> distinct (map Name rest) \<and> set (map Name rest) \<inter> set (n # seen) = {}"
      by (rule "2.IH"(2)[OF refl False _ nb ns rest]) (simp add: re)
    moreover have "good_status \<lparr>Name = n, Category = c\<rparr>"
      using re nb split_part_category[OF sp] regexp_lower[OF re]
      by (auto simp: good_status_def status_IsValid_def builtin_names)
    ultimately show ?thesis using ns ss by auto
  qed
qed simp

lemma category_chars:
  "cat \<in> set validCategories \<Longrightarrow> c \<in> set cat \<Longrightarrow> c \<noteq> CHR '','' \<and> \<not> is_space c"
proof -
  have "\<forall>cat\<in>set validCategories. \<forall>c\<in>set cat. c \<noteq> CHR '','' \<and> \<not> is_space c"
    by code_simp
  then show "cat \<in> set validCategories \<Longrightarrow> c \<in> set cat \<Longrightarrow> c \<noteq> CHR '','' \<and> \<not> is_space c"
    by blast
qed

lemma colon_char: "CHR '':'' \<noteq> CHR '','' \<and> \<not> is_space (CHR '':'')"
  by code_simp

lemma set_render_status:
  "set (render_status s) \<subseteq> set (Name s) \<union> {CHR '':''} \<union> (if Category s = CategoryUnspecified then {} else set (Category s))"
  by (auto simp: render_status_def)

lemma good_render_chars:
  assumes "good_status s" and c: "c \<in> set (render_status s)"
  shows "c \<noteq> CHR '','' \<and> \<not> is_space c"
proof -
  consider "c \<in> set (Name s)" | "c = CHR '':''"
    | "Category s \<noteq> CategoryUnspecified" "c \<in> set (Category s)"
    using set_render_status[of s] c by (auto split: if_splits)
  then show ?thesis
  proof cases
    case 1
    then show ?thesis
      using assms(1) regexp_chars name_char_safe unfolding good_status_def by blast
  next
    case 2
    then show ?thesis using colon_char by blast
  next
    case 3
    then show ?thesis using assms(1) category_chars unfolding good_status_def by blast
  qed
qed

lemma no_empty_category: "CategoryUnspecified \<notin> set validCategories" "[] \<notin> set validCategories"
  by (simp_all add: validCategories_def const_defs)

lemma split_part_render:
  assumes "good_status s"
  shows "split_part (render_status s) = Inr (Name s, Category s)"
proof -
  have nm: "\<forall>c\<in>set (Name s). c \<noteq> CHR '':''"
    using assms regexp_chars name_char_safe unfolding good_status_def by blast
  show ?thesis
  proof (cases "Category s = CategoryUnspecified")
    case True
    with nm show ?thesis by (auto simp add: split_part_def render_status_def)
  next
    case False
    then have cat: "Category s \<in> set validCategories"
      using assms unfolding good_status_def by blast
    then have "Category s \<noteq> []" using no_empty_category by metis
    have "takeWhile (\<lambda>c. c \<noteq> CHR '':'') (Name s @ CHR '':'' # Category s) = Name s"
      "dropWhile (\<lambda>c. c \<noteq> CHR '':'') (Name s @ CHR '':'' # Category s) = CHR '':'' # Category s"
      using nm by (simp_all only: takeWhile_append_stop dropWhile_append_stop not_not)
    with False cat \<open>Category s \<noteq> []\<close> show ?thesis by (simp add: split_part_def render_status_def Let_def)
  qed
qed

lemma render_nonempty: "good_status s \<Longrightarrow> render_status s \<noteq> []"
  by (auto simp: good_status_def render_status_def statusNameRegexp_def)

lemma parse_parts_render:
  assumes "list_all good_status ss" "distinct (map Name ss)" "set (map Name ss) \<inter> set seen = {}"
  shows "parse_parts seen (map render_status ss) = Inr ss"
  using assms
proof (induction ss arbitrary: seen)
  case (Cons s ss)
  have g: "good_status s" using Cons.prems by simp
  have t: "trim_space (render_status s) = render_status s"
    using good_render_chars[OF g] by (intro trim_space_id) blast
  have "parse_parts (Name s # seen) (map render_status ss) = Inr ss"
    using Cons.prems by (intro Cons.IH) auto
  moreover have "to_lower (Name s) \<notin> set builtInStatusNames" "statusNameRegexp (Name s)"
    using g regexp_lower by (auto simp: good_status_def status_IsValid_def builtin_names)
  ultimately show ?case
    using Cons.prems t render_nonempty[OF g] split_part_render[OF g] by (simp add: Let_def)
qed simp

lemma comma_not_space: "\<not> is_space (CHR '','')"
  by code_simp

lemma join_no_space:
  "\<forall>w\<in>set ws. \<forall>c\<in>set w. \<not> is_space c \<Longrightarrow> \<forall>c\<in>set (join_with '','' ws). \<not> is_space c"
proof (induction ws)
  case (Cons w ws)
  then show ?case using comma_not_space by (cases ws) auto
qed simp

lemma good_no_space: "good_status x \<Longrightarrow> c \<in> set (render_status x) \<Longrightarrow> \<not> is_space c"
  using good_render_chars by blast

lemma split_render_config:
  assumes "list_all good_status ss" "ss \<noteq> []"
  shows "split_on (CHR '','') (render_config ss) = map render_status ss"
proof -
  have g: "good_status x" if "x \<in> set ss" for x using assms(1) that by (simp add: list_all_iff)
  show ?thesis
    unfolding render_config_def by (rule split_on_join) (use assms(2) g good_render_chars in force)+
qed

lemma render_config_nonempty:
  assumes "list_all good_status ss" "ss \<noteq> []"
  shows "render_config ss \<noteq> []"
proof
  assume "render_config ss = []"
  with split_render_config[OF assms] have "map render_status ss = [[]]" by simp
  with assms show False using render_nonempty by (cases ss) auto
qed

lemma parse_render_config:
  assumes "list_all good_status ss" "distinct (CustomStatusNames ss)" "length ss \<le> 50"
  shows "ParseCustomStatusConfig (render_config ss) = Inr ss"
proof (cases "ss = []")
  case True
  then show ?thesis by (simp add: ParseCustomStatusConfig_def render_config_def)
next
  case False
  have g: "good_status x" if "x \<in> set ss" for x using assms(1) that by (simp add: list_all_iff)
  have "\<forall>c\<in>set (render_config ss). \<not> is_space c"
    unfolding render_config_def by (rule join_no_space) (use g good_render_chars in force)
  then have t: "trim_space (render_config ss) = render_config ss" by (rule trim_space_id)
  note sp = split_render_config[OF assms(1) False]
  have "render_config ss \<noteq> []" by (rule render_config_nonempty[OF assms(1) False])
  with t sp show ?thesis
    using assms parse_parts_render[of ss "[]"]
    by (simp add: ParseCustomStatusConfig_def maxCustomStatuses_def CustomStatusNames_def Let_def)
qed

end
