(* ===== verification/ContentHash.thy ===== *)
theory ContentHash
  imports Types
begin

text \<open>
  \<^verbatim>\<open>Issue.ComputeContentHash\<close> and its \<^verbatim>\<open>hashFieldWriter\<close>: the byte string that is
  fed to SHA-256, field by field, each followed by a NUL byte.  SHA-256 itself
  is the argument \<^verbatim>\<open>sha256\<close>.
\<close>

definition NUL :: char where
  "NUL = CHR 0x00"

definition write_str :: "string \<Rightarrow> string" where
  "write_str s = s @ [NUL]"

definition write_int :: "int \<Rightarrow> string" where
  "write_int n = show_int n @ [NUL]"

definition write_strPtr :: "string option \<Rightarrow> string" where
  "write_strPtr p = (case p of None \<Rightarrow> [] | Some s \<Rightarrow> s) @ [NUL]"

definition write_duration :: "int \<Rightarrow> string" where
  "write_duration d = show_int d @ [NUL]"

definition write_flag :: "bool \<Rightarrow> string \<Rightarrow> string" where
  "write_flag b lab = (if b then lab else []) @ [NUL]"

definition canonical_bytes :: "'a issue_scheme \<Rightarrow> string" where
  "canonical_bytes i =
     write_str (Title i) @ write_str (Description i) @ write_str (Design i) @
     write_str (AcceptanceCriteria i) @ write_str (Notes i) @ write_str (SpecID i) @
     write_str (Status i) @ write_int (Priority i) @ write_str (IssueType i) @
     write_str (Assignee i) @ write_str (Owner i) @ write_str (CreatedBy i) @
     write_strPtr (ExternalRef i) @ write_str (SourceSystem i) @
     write_flag (Pinned i) ''pinned'' @ write_str (Metadata i) @
     write_flag (IsTemplate i) ''template'' @
     concat (map (\<lambda>br. write_str (SourceID br) @ write_str (BondType br) @ write_str (BondPoint br))
               (BondedFrom i)) @
     write_str (AwaitType i) @ write_str (AwaitID i) @ write_duration (Timeout i) @
     concat (map write_str (Waiters i)) @
     write_str (MolType i) @ write_str (WorkType i) @
     write_str (EventKind i) @ write_str (Actor i) @ write_str (Target i) @ write_str (Payload i)"

text \<open>\<^verbatim>\<open>fmt.Sprintf("%x")\<close> of a byte slice.\<close>

definition hex_bytes :: "8 word list \<Rightarrow> string" where
  "hex_bytes bs = concat (map (\<lambda>b. [digit_char (unat b div 16), digit_char (unat b mod 16)]) bs)"

definition ComputeContentHash :: "(string \<Rightarrow> 8 word list) \<Rightarrow> 'a issue_scheme \<Rightarrow> string" where
  "ComputeContentHash sha256 i = hex_bytes (sha256 (canonical_bytes i))"

subsection \<open>The written fields\<close>

definition ptr_str :: "string option \<Rightarrow> string" where
  "ptr_str p = (case p of None \<Rightarrow> [] | Some s \<Rightarrow> s)"

definition core_fields :: "'a issue_scheme \<Rightarrow> string list" where
  "core_fields i =
     [Title i, Description i, Design i, AcceptanceCriteria i, Notes i, SpecID i, Status i,
      show_int (Priority i), IssueType i, Assignee i, Owner i, CreatedBy i,
      ptr_str (ExternalRef i), SourceSystem i, (if Pinned i then ''pinned'' else []), Metadata i,
      (if IsTemplate i then ''template'' else [])]"

definition bond_fields :: "'a issue_scheme \<Rightarrow> string list" where
  "bond_fields i = concat (map (\<lambda>b. [SourceID b, BondType b, BondPoint b]) (BondedFrom i))"

definition tail_fields :: "'a issue_scheme \<Rightarrow> string list" where
  "tail_fields i = [AwaitType i, AwaitID i, show_int (Timeout i)] @ Waiters i @
     [MolType i, WorkType i, EventKind i, Actor i, Target i, Payload i]"

definition hashed_fields :: "'a issue_scheme \<Rightarrow> string list" where
  "hashed_fields i = core_fields i @ bond_fields i @ tail_fields i"

definition nul_free :: "'a issue_scheme \<Rightarrow> bool" where
  "nul_free i = (\<forall>f\<in>set (hashed_fields i). NUL \<notin> set f)"

lemma canonical_bytes_fields:
  "canonical_bytes i = concat (map write_str (hashed_fields i))"
proof -
  have b: "concat (map (\<lambda>br. write_str (SourceID br) @ write_str (BondType br) @ write_str (BondPoint br)) bs)
     = concat (map write_str (concat (map (\<lambda>b. [SourceID b, BondType b, BondPoint b]) bs)))" for bs
    by (induction bs) simp_all
  have w: "write_int n = write_str (show_int n)" "write_duration n = write_str (show_int n)"
    "write_strPtr p = write_str (ptr_str p)" "write_flag c l = write_str (if c then l else [])" for n p c l
    by (simp_all add: write_int_def write_duration_def write_strPtr_def write_flag_def write_str_def ptr_str_def)
  show ?thesis
    by (simp add: canonical_bytes_def hashed_fields_def core_fields_def bond_fields_def
        tail_fields_def b w del: if_split)
qed

lemma write_fields_inject:
  assumes "\<forall>f\<in>set fs. NUL \<notin> set f" "\<forall>g\<in>set gs. NUL \<notin> set g"
    and "concat (map write_str fs) = concat (map write_str gs)"
  shows "fs = gs"
  using assms
proof (induction fs arbitrary: gs)
  case Nil
  then show ?case by (cases gs) (auto simp: write_str_def)
next
  case (Cons f fs)
  obtain g gs' where gs: "gs = g # gs'"
    using Cons.prems(3) by (cases gs) (auto simp: write_str_def)
  have e: "f @ NUL # concat (map write_str fs) = g @ NUL # concat (map write_str gs')"
    using Cons.prems(3) gs by (simp add: write_str_def[of f] write_str_def[of g])
  have tw: "takeWhile (\<lambda>c. c \<noteq> NUL) (h @ NUL # t) = h" if "NUL \<notin> set h" for h t
    by (rule takeWhile_append_stop) (use that in auto)
  have nf: "NUL \<notin> set f" and ng: "NUL \<notin> set g" using Cons.prems(1,2) unfolding gs by simp_all
  have fg: "f = g"
    using arg_cong[OF e, of "takeWhile (\<lambda>c. c \<noteq> NUL)"] unfolding tw[OF nf] tw[OF ng] .
  then have "concat (map write_str fs) = concat (map write_str gs')"
    using e by simp
  then have "fs = gs'"
    using Cons.prems(1,2) unfolding gs by (intro Cons.IH) simp_all
  with fg gs show ?case by simp
qed

lemma canonical_bytes_inject:
  assumes "nul_free i" "nul_free j" "canonical_bytes i = canonical_bytes j"
  shows "hashed_fields i = hashed_fields j"
  using assms unfolding nul_free_def canonical_bytes_fields by (rule write_fields_inject)

lemma length_core_fields: "length (core_fields i) = 17"
  by (simp add: core_fields_def)

lemma length_bond_fields: "length (bond_fields i) = 3 * length (BondedFrom i)"
proof -
  have "length (concat (map (\<lambda>b. [SourceID b, BondType b, BondPoint b]) bs)) = 3 * length bs" for bs
    by (induction bs) simp_all
  then show ?thesis by (simp add: bond_fields_def)
qed

lemma hashed_fields_split:
  assumes "hashed_fields i = hashed_fields j"
  shows "core_fields i = core_fields j"
    and "length (BondedFrom i) = length (BondedFrom j) \<Longrightarrow>
           bond_fields i = bond_fields j \<and> tail_fields i = tail_fields j"
  using assms by (auto simp: hashed_fields_def length_core_fields length_bond_fields)

lemma bond_fields_inject:
  "concat (map (\<lambda>b. [SourceID b, BondType b, BondPoint b]) bs) =
   concat (map (\<lambda>b. [SourceID b, BondType b, BondPoint b]) cs) \<Longrightarrow> bs = (cs :: bond_ref list)"
proof (induction bs arbitrary: cs)
  case (Cons b bs)
  then show ?case by (cases cs) auto
qed (auto simp: concat_eq_Nil_conv split: list.splits)

lemma tail_fields_inject:
  assumes "tail_fields i = tail_fields j"
  shows "AwaitType i = AwaitType j" "AwaitID i = AwaitID j" "Timeout i = Timeout j"
    "Waiters i = Waiters j" "MolType i = MolType j" "WorkType i = WorkType j"
    "EventKind i = EventKind j" "Actor i = Actor j" "Target i = Target j" "Payload i = Payload j"
proof -
  have e: "Waiters i @ [MolType i, WorkType i, EventKind i, Actor i, Target i, Payload i] =
    Waiters j @ [MolType j, WorkType j, EventKind j, Actor j, Target j, Payload j]"
    using assms by (simp add: tail_fields_def)
  then have l: "length (Waiters i) = length (Waiters j)"
    by (metis (no_types, lifting) add_right_cancel length_append list.size(3,4))
  show "Waiters i = Waiters j" "MolType i = MolType j" "WorkType i = WorkType j"
    "EventKind i = EventKind j" "Actor i = Actor j" "Target i = Target j" "Payload i = Payload j"
    using e l by simp_all
  show "AwaitType i = AwaitType j" "AwaitID i = AwaitID j" "Timeout i = Timeout j"
    using assms by (simp_all add: tail_fields_def)
qed

text \<open>Fields the hash does not read.\<close>

lemma canonical_bytes_ignores:
  "canonical_bytes (i\<lparr>ID := a, CreatedAt := b, UpdatedAt := c, StartedAt := d, ClosedAt := e,
     CloseReason := f, LeaseExpiresAt := g, HeartbeatAt := h, CompactionLevel := k,
     CompactedAt := l, CompactedAtCommit := m, OriginalSize := n, Labels := ls\<rparr>) = canonical_bytes i"
  by (simp add: canonical_bytes_def)

end
