(* ===== verification/Validate.thy ===== *)
theory Validate
  imports Types
begin

text \<open>
  Validation and defaulting of an issue (\<^verbatim>\<open>ValidateWithCustom\<close>, \<^verbatim>\<open>ValidateForImport\<close>
  and \<^verbatim>\<open>SetDefaults\<close> of \<^verbatim>\<open>internal/types/types.go\<close>).  The JSON checker
  \<^verbatim>\<open>json.Valid\<close> is the argument \<^verbatim>\<open>json_valid\<close>.
\<close>

datatype validation_error =
    TitleRequired
  | TitleTooLong nat
  | PriorityOutOfRange int
  | InvalidStatus status
  | InvalidIssueType issue_type
  | NegativeEstimate
  | ClosedWithoutClosedAt
  | OpenWithClosedAt
  | MetadataNotJSON
  | EphemeralAndNoHistory

definition ValidateWithCustom ::
  "(string \<Rightarrow> bool) \<Rightarrow> string list \<Rightarrow> string list \<Rightarrow> 'a issue_scheme \<Rightarrow> validation_error + unit" where
  "ValidateWithCustom json_valid customStatuses customTypes i =
    (if length (Title i) = 0 then Inl TitleRequired
     else if length (Title i) > 500 then Inl (TitleTooLong (length (Title i)))
     else if Priority i < 0 \<or> Priority i > 4 then Inl (PriorityOutOfRange (Priority i))
     else if \<not> status_IsValidWithCustom (Status i) customStatuses then Inl (InvalidStatus (Status i))
     else if \<not> type_IsValidWithCustom (IssueType i) customTypes then Inl (InvalidIssueType (IssueType i))
     else if (\<exists>m\<in>set_option (EstimatedMinutes i). m < 0) then Inl NegativeEstimate
     else if Status i = StatusClosed \<and> ClosedAt i = None then Inl ClosedWithoutClosedAt
     else if Status i \<noteq> StatusClosed \<and> ClosedAt i \<noteq> None then Inl OpenWithClosedAt
     else if length (Metadata i) > 0 \<and> \<not> json_valid (Metadata i) then Inl MetadataNotJSON
     else if Ephemeral i \<and> NoHistory i then Inl EphemeralAndNoHistory
     else Inr ())"

definition ValidateForImport ::
  "(string \<Rightarrow> bool) \<Rightarrow> string list \<Rightarrow> 'a issue_scheme \<Rightarrow> validation_error + unit" where
  "ValidateForImport json_valid customStatuses i =
    (if length (Title i) = 0 then Inl TitleRequired
     else if length (Title i) > 500 then Inl (TitleTooLong (length (Title i)))
     else if Priority i < 0 \<or> Priority i > 4 then Inl (PriorityOutOfRange (Priority i))
     else if \<not> status_IsValidWithCustom (Status i) customStatuses then Inl (InvalidStatus (Status i))
     else if (\<exists>m\<in>set_option (EstimatedMinutes i). m < 0) then Inl NegativeEstimate
     else if Status i = StatusClosed \<and> ClosedAt i = None then Inl ClosedWithoutClosedAt
     else if Status i \<noteq> StatusClosed \<and> ClosedAt i \<noteq> None then Inl OpenWithClosedAt
     else if length (Metadata i) > 0 \<and> \<not> json_valid (Metadata i) then Inl MetadataNotJSON
     else Inr ())"

definition SetDefaults :: "'a issue_scheme \<Rightarrow> 'a issue_scheme" where
  "SetDefaults i =
    (let i1 = (if Status i = '''' then i\<lparr>Status := StatusOpen\<rparr> else i) in
     if IssueType i1 = '''' then i1\<lparr>IssueType := TypeTask\<rparr> else i1)"

text \<open>What an accepted issue satisfies.\<close>

definition closed_at_invariant :: "'a issue_scheme \<Rightarrow> bool" where
  "closed_at_invariant i = (Status i = StatusClosed \<longleftrightarrow> ClosedAt i \<noteq> None)"

definition well_formed_fields :: "(string \<Rightarrow> bool) \<Rightarrow> string list \<Rightarrow> 'a issue_scheme \<Rightarrow> bool" where
  "well_formed_fields json_valid customStatuses i =
    (Title i \<noteq> '''' \<and> length (Title i) \<le> 500 \<and> Priority i \<in> {0..4} \<and>
     (status_IsValid (Status i) \<or> Status i \<in> set customStatuses) \<and>
     (\<forall>m\<in>set_option (EstimatedMinutes i). 0 \<le> m) \<and>
     closed_at_invariant i \<and> (Metadata i = '''' \<or> json_valid (Metadata i)))"

lemma not_ge_0_4: "\<not> (p < 0 \<or> (p :: int) > 4) \<longleftrightarrow> p \<in> {0..4}"
  by auto

lemma ValidateForImport_ok_iff:
  "ValidateForImport json_valid cs i = Inr () \<longleftrightarrow> well_formed_fields json_valid cs i"
  unfolding ValidateForImport_def well_formed_fields_def closed_at_invariant_def
    status_IsValidWithCustom_def
  by (auto simp: not_le not_less split: if_splits)

lemma ValidateWithCustom_ok_iff:
  "ValidateWithCustom json_valid cs ct i = Inr () \<longleftrightarrow>
     well_formed_fields json_valid cs i \<and> type_IsValidWithCustom (IssueType i) ct \<and>
     \<not> (Ephemeral i \<and> NoHistory i)"
  unfolding ValidateWithCustom_def well_formed_fields_def closed_at_invariant_def
    status_IsValidWithCustom_def
  by (auto simp: not_le not_less split: if_splits)

lemma SetDefaults_idem: "SetDefaults (SetDefaults i) = SetDefaults i"
  by (simp add: SetDefaults_def Let_def const_defs)

end
