(* ===== verification/PropsCore.thy ===== *)
theory PropsCore
  imports IdGen StatusConfig ContentHash Validate
begin

text \<open>
  Properties of the pure core: identifiers, the status configuration, the
  content hash and validation.
\<close>

text \<open>
  \<^verbatim>\<open>EncodeBase36\<close> always returns exactly the requested number of base-36
  digits, and they are the least significant digits of the big-endian number
  the bytes spell.
\<close>

theorem EncodeBase36_digits:
  "length (EncodeBase36 bs len) = len \<and> set (EncodeBase36 bs len) \<subseteq> set base36Alphabet \<and>
   decode36 (EncodeBase36 bs len) = SetBytes bs mod 36 ^ len"
  by (simp add: length_EncodeBase36 set_EncodeBase36 decode_EncodeBase36)

text \<open>
  With the widest setting (8 digits from 5 bytes) nothing is truncated:
  two different 5-byte hash prefixes give different id suffixes.
\<close>

theorem EncodeBase36_injective:
  assumes "length bs = 5" "length cs = 5" and "EncodeBase36 bs 8 = EncodeBase36 cs 8"
  shows "bs = cs"
proof (rule SetBytes_inject)
  have "SetBytes bs < 36 ^ 8" "SetBytes cs < 36 ^ 8"
    using SetBytes_bound[of bs] SetBytes_bound[of cs] assms(1,2) by simp_all
  then show "SetBytes bs = SetBytes cs"
    using assms(3) decode_EncodeBase36[of bs 8] decode_EncodeBase36[of cs 8] by simp
qed (use assms in simp)

theorem EncodeBase36_injective_witness:
  "[1, 2, 3, 4, 5] = ([1, 2, 3, 4, 5] :: 8 word list)"
  by (rule EncodeBase36_injective) simp_all

text \<open>
  Parsing a generated child id gives back the root, the parent and a depth
  one more than the parent's, and no two children of any parents share an id.
\<close>

theorem child_id_roundtrip:
  "ParseHierarchicalID (GenerateChildID p n) =
     (fst (ParseHierarchicalID p), p, Suc (snd (snd (ParseHierarchicalID p)))) \<and>
   (GenerateChildID p n = GenerateChildID q m \<longleftrightarrow> p = q \<and> n = m)"
proof -
  have "takeWhile (\<lambda>c. c \<noteq> CHR ''.'') (GenerateChildID p n) = fst (ParseHierarchicalID p)"
  proof (cases "dot_count p = 0")
    case True
    then have "takeWhile (\<lambda>c. c \<noteq> CHR ''.'') p = p"
      by (intro takeWhile_eq_all_conv[THEN iffD2]) (auto simp: dot_count_zero)
    then show ?thesis
      using True by (simp add: ParseHierarchicalID_def GenerateChildID_def takeWhile_dot_append)
  next
    case False
    then show ?thesis
      by (simp add: ParseHierarchicalID_def GenerateChildID_def takeWhile_dot_append Let_def)
  qed
  then show ?thesis
    by (simp add: ParseHierarchicalID_def[of "GenerateChildID p n"] dot_count_child
        before_last_dot_child) (simp add: ParseHierarchicalID_def Let_def)
qed

text \<open>
  The depth check accepts a parent exactly when its child stays within the
  limit (3 when the limit given is below 1).
\<close>

theorem hierarchy_depth_check:
  "CheckHierarchyDepth p m \<longleftrightarrow>
     int (snd (snd (ParseHierarchicalID (GenerateChildID p n)))) \<le> (if m < 1 then 3 else m)"
  by (auto simp: CheckHierarchyDepth_def MaxHierarchyDepth_def ParseHierarchicalID_def dot_count_child Let_def)

text \<open>
  An accepted status configuration holds at most 50 statuses with distinct,
  well-formed names that are not built-in, each with a known category.
\<close>

theorem status_config_sound:
  assumes "ParseCustomStatusConfig v = Inr ss"
  shows "list_all good_status ss \<and> distinct (CustomStatusNames ss) \<and> length ss \<le> 50"
proof (cases "trim_space v = []")
  case True
  with assms show ?thesis by (simp add: ParseCustomStatusConfig_def CustomStatusNames_def)
next
  case False
  with assms have "parse_parts [] (split_on (CHR '','') (trim_space v)) = Inr ss" "length ss \<le> 50"
    by (auto simp: ParseCustomStatusConfig_def Let_def maxCustomStatuses_def split: if_splits)
  with parse_parts_good show ?thesis by (auto simp: CustomStatusNames_def)
qed

theorem status_config_sound_witness:
  "\<exists>ss. ParseCustomStatusConfig '' review:active , qa:wip,later'' = Inr ss \<and> length ss = 3 \<and>
     list_all good_status ss \<and> distinct (CustomStatusNames ss)"
proof -
  have "ParseCustomStatusConfig '' review:active , qa:wip,later'' =
     Inr [\<lparr>Name = ''review'', Category = ''active''\<rparr>, \<lparr>Name = ''qa'', Category = ''wip''\<rparr>,
          \<lparr>Name = ''later'', Category = ''unspecified''\<rparr>]"
    by code_simp
  from status_config_sound[OF this] this show ?thesis by fastforce
qed

text \<open>
  The parser is complete: any list of at most 50 well-formed, distinct custom
  statuses is what it returns on its printed form.
\<close>

theorem status_config_roundtrip:
  assumes "list_all good_status ss" "distinct (CustomStatusNames ss)" "length ss \<le> 50"
  shows "ParseCustomStatusConfig (render_config ss) = Inr ss"
  by (rule parse_render_config[OF assms])

theorem status_config_roundtrip_witness:
  "ParseCustomStatusConfig (render_config [\<lparr>Name = ''qa'', Category = ''wip''\<rparr>]) =
     Inr [\<lparr>Name = ''qa'', Category = ''wip''\<rparr>]"
  by (rule status_config_roundtrip) code_simp+

text \<open>The letters, and the characters of a name, listed.\<close>

lemma lower_letters: "is_lower c \<longleftrightarrow> c \<in> set ''abcdefghijklmnopqrstuvwxyz''"
proof -
  have "\<forall>c. is_lower c = (c \<in> set ''abcdefghijklmnopqrstuvwxyz'')" by code_simp
  then show ?thesis by blast
qed

lemma name_letters: "name_char c \<longleftrightarrow> c \<in> set ''abcdefghijklmnopqrstuvwxyz0123456789_-''"
proof -
  have "\<forall>c. name_char c = (c \<in> set ''abcdefghijklmnopqrstuvwxyz0123456789_-'')" by code_simp
  then show ?thesis by blast
qed

lemma statusNameRegexp_letters:
  "statusNameRegexp t \<longleftrightarrow> t \<noteq> '''' \<and> hd t \<in> set ''abcdefghijklmnopqrstuvwxyz'' \<and>
     set t \<subseteq> set ''abcdefghijklmnopqrstuvwxyz0123456789_-''"
proof (cases t)
  case (Cons c cs)
  have "is_lower c \<Longrightarrow> name_char c" by (simp add: name_char_def)
  moreover have "list_all name_char cs \<longleftrightarrow> set cs \<subseteq> set ''abcdefghijklmnopqrstuvwxyz0123456789_-''"
    unfolding list_all_iff using name_letters by blast
  moreover have "set t \<subseteq> X \<longleftrightarrow> c \<in> X \<and> set cs \<subseteq> X" for X using Cons by simp
  ultimately show ?thesis
    using lower_letters[of c] name_letters[of c] Cons by (simp only: statusNameRegexp_def list.case list.sel) blast
qed (simp add: statusNameRegexp_def)

text \<open>
  (C39) The values of \<^verbatim>\<open>status.custom\<close> that are accepted denote exactly the lists of at most 50
  statuses with distinct names, each a lower-case letter followed by lower-case letters,
  digits, underscores and dashes and none of the seven built-in ones, and each with one of
  the five categories: a value is accepted only with such a result, every such list is the
  result of some value, and its printed form is one.
\<close>

theorem status_config_exact:
  "((\<exists>v. ParseCustomStatusConfig v = Inr ss) \<longleftrightarrow>
     distinct (map Name ss) \<and> length ss \<le> 50 \<and>
     list_all (\<lambda>s. Name s \<noteq> '''' \<and> hd (Name s) \<in> set ''abcdefghijklmnopqrstuvwxyz'' \<and>
       set (Name s) \<subseteq> set ''abcdefghijklmnopqrstuvwxyz0123456789_-'' \<and>
       Name s \<notin> {''open'', ''in_progress'', ''blocked'', ''deferred'', ''closed'', ''pinned'', ''hooked''} \<and>
       Category s \<in> {''active'', ''wip'', ''done'', ''frozen'', ''unspecified''}) ss) \<and>
   (ParseCustomStatusConfig (render_config ss) = Inr ss \<longleftrightarrow> (\<exists>v. ParseCustomStatusConfig v = Inr ss))"
proof -
  let ?C = "{''active'', ''wip'', ''done'', ''frozen'', ''unspecified''}"
  let ?B = "{''open'', ''in_progress'', ''blocked'', ''deferred'', ''closed'', ''pinned'', ''hooked''}"
  have c: "Category s \<in> set validCategories \<or> Category s = CategoryUnspecified \<longleftrightarrow> Category s \<in> ?C" for s
    unfolding validCategories_def const_defs by auto
  have b: "status_IsValid n \<longleftrightarrow> n \<in> ?B" for n
    unfolding status_IsValid_def builtin_statuses_def const_defs by auto
  have good: "good_status = (\<lambda>s. Name s \<noteq> '''' \<and> hd (Name s) \<in> set ''abcdefghijklmnopqrstuvwxyz'' \<and>
       set (Name s) \<subseteq> set ''abcdefghijklmnopqrstuvwxyz0123456789_-'' \<and> Name s \<notin> ?B \<and> Category s \<in> ?C)"
    unfolding good_status_def statusNameRegexp_letters c b by (intro ext) (simp only: conj_assoc)
  have "(\<exists>v. ParseCustomStatusConfig v = Inr ss) \<longleftrightarrow>
      distinct (map Name ss) \<and> length ss \<le> 50 \<and> list_all good_status ss"
    using status_config_sound status_config_roundtrip unfolding CustomStatusNames_def by blast
  moreover have "ParseCustomStatusConfig (render_config ss) = Inr ss \<longleftrightarrow> (\<exists>v. ParseCustomStatusConfig v = Inr ss)"
    using status_config_sound status_config_roundtrip by blast
  ultimately show ?thesis unfolding good by blast
qed

text \<open>
  Two issues without NUL bytes that feed the same bytes to the content hash
  agree on every core field, up to an absent and an empty external reference;
  if they bond the same number of molecules they agree on all hashed fields.
\<close>

theorem content_hash_injective:
  assumes "nul_free i" "nul_free j" and "canonical_bytes i = canonical_bytes j"
  shows "Title i = Title j \<and> Description i = Description j \<and> Status i = Status j \<and>
     Priority i = Priority j \<and> IssueType i = IssueType j \<and> Assignee i = Assignee j \<and>
     ptr_str (ExternalRef i) = ptr_str (ExternalRef j) \<and> Metadata i = Metadata j \<and>
     Pinned i = Pinned j \<and> IsTemplate i = IsTemplate j \<and>
     (length (BondedFrom i) = length (BondedFrom j) \<longrightarrow>
        BondedFrom i = BondedFrom j \<and> Waiters i = Waiters j \<and> Timeout i = Timeout j \<and>
        Payload i = Payload j)"
proof -
  have h: "hashed_fields i = hashed_fields j" using canonical_bytes_inject[OF assms] .
  note s = hashed_fields_split[OF h]
  have "length (BondedFrom i) = length (BondedFrom j) \<Longrightarrow> BondedFrom i = BondedFrom j"
    by (rule bond_fields_inject) (use s(2) in \<open>simp add: bond_fields_def\<close>)
  moreover have "length (BondedFrom i) = length (BondedFrom j) \<Longrightarrow>
      Waiters i = Waiters j \<and> Timeout i = Timeout j \<and> Payload i = Payload j"
    using s(2) tail_fields_inject[of i j] by blast
  ultimately show ?thesis using s(1) by (auto simp: core_fields_def split: if_splits)
qed

definition blank_issue :: issue where
  "blank_issue = \<lparr>ID = '''', ContentHash = '''', Title = ''t'', Description = '''', Design = '''',
     AcceptanceCriteria = '''', Notes = '''', SpecID = '''', Status = ''open'', Priority = 2,
     IssueType = ''task'', Assignee = '''', Owner = '''', EstimatedMinutes = None, CreatedAt = 0,
     CreatedBy = '''', UpdatedAt = 0, StartedAt = None, ClosedAt = None, CloseReason = '''',
     ClosedBySession = '''', LeaseExpiresAt = None, HeartbeatAt = None, DueAt = None,
     DeferUntil = None, ExternalRef = None, SourceSystem = '''', Metadata = '''', CompactionLevel = 0,
     CompactedAt = None, CompactedAtCommit = None, OriginalSize = 0, SourceRepo = '''', IDPrefix = '''',
     PrefixOverride = '''', Labels = [], Dependencies = [], Comments = [], Sender = '''',
     Ephemeral = False, NoHistory = False, WispType = '''', Pinned = False, IsTemplate = False,
     BondedFrom = [], AwaitType = '''', AwaitID = '''', Timeout = 0, Waiters = [], SourceFormula = '''',
     SourceLocation = '''', MolType = '''', WorkType = '''', EventKind = '''', Actor = '''', Target = '''',
     Payload = ''''\<rparr>"

theorem content_hash_injective_witness:
  "Title blank_issue = Title (blank_issue\<lparr>ID := ''bd-1''\<rparr>)"
proof -
  have n: "nul_free blank_issue" "nul_free (blank_issue\<lparr>ID := ''bd-1''\<rparr>)" by code_simp+
  have c: "canonical_bytes blank_issue = canonical_bytes (blank_issue\<lparr>ID := ''bd-1''\<rparr>)"
    by (simp add: canonical_bytes_def)
  show ?thesis using content_hash_injective[OF n c] by blast
qed

definition bonded_issue :: issue where
  "bonded_issue = blank_issue\<lparr>BondedFrom := [\<lparr>SourceID = ''x'', BondType = ''y'', BondPoint = ''5''\<rparr>],
     AwaitType := ''t'', AwaitID := ''a'', Timeout := 7\<rparr>"

definition waiting_issue :: issue where
  "waiting_issue = blank_issue\<lparr>AwaitType := ''x'', AwaitID := ''y'', Timeout := 5,
     Waiters := [''t'', ''a'', ''7'']\<rparr>"

text \<open>
  The bonded molecules and the waiters are written without a count, so two
  issues with different bonds, gates and waiters feed the same bytes to the hash
  and have the same content hash, whatever the hash function.
\<close>

theorem content_hash_collision:
  "ComputeContentHash sha256 bonded_issue = ComputeContentHash sha256 waiting_issue \<and>
   BondedFrom bonded_issue \<noteq> BondedFrom waiting_issue \<and> AwaitType bonded_issue \<noteq> AwaitType waiting_issue"
proof -
  have "canonical_bytes bonded_issue = canonical_bytes waiting_issue" by code_simp
  then show ?thesis
    by (simp add: ComputeContentHash_def bonded_issue_def waiting_issue_def blank_issue_def)
qed

end
