(* ===== verification/Store.thy ===== *)
theory Store
  imports Validate "HOL-Library.AList"
begin

text \<open>
  The database: one list of rows per table, and the statements the operations
  are made of.  A SELECT is a \<^verbatim>\<open>filter\<close>, an UPDATE maps the rows that satisfy
  its WHERE clause, RowsAffected is their number.  Permanent issues live in
  \<^verbatim>\<open>issues\<close>, ephemeral ones (wisps) in \<^verbatim>\<open>wisps\<close>; labels, events, comments and
  dependencies have one table for each kind, chosen by \<^verbatim>\<open>WispTableRouting\<close>.
  The primary keys of the schema are the invariant \<^verbatim>\<open>wf_db\<close>.

  A text column that may be NULL is read as the empty string, the way
  \<^verbatim>\<open>ScanIssueFrom\<close> does; \<^verbatim>\<open>AssigneeNull\<close> remembers a NULL assignee, which a
  comparison in SQL can see.  Driver failures and missing tables are not
  modelled: every statement is executed.
\<close>

record issue_row = issue +
  IsBlocked :: bool
  RowLock :: "64 word"
  AssigneeNull :: bool

record dep_row =
  dep_id :: string
  issue_id :: string
  depends_on_issue_id :: "string option"
  depends_on_wisp_id :: "string option"
  depends_on_external :: "string option"
  dtype :: dep_type
  created_at :: time
  created_by :: string
  dmetadata :: string
  thread_id :: string

record event =
  ev_issue :: string
  ev_type :: string
  ev_actor :: string
  ev_old :: string
  ev_new :: string
  ev_comment :: string

record db =
  t_issues :: "issue_row list"
  t_wisps :: "issue_row list"
  t_deps :: "dep_row list"
  t_wisp_deps :: "dep_row list"
  t_labels :: "(string \<times> string) list"
  t_wisp_labels :: "(string \<times> string) list"
  t_events :: "event list"
  t_wisp_events :: "event list"
  t_comments :: "comment list"
  t_wisp_comments :: "comment list"
  t_child_counters :: "(string \<times> int) list"
  t_wisp_child_counters :: "(string \<times> int) list"
  t_counters :: "(string \<times> int) list"
  t_config :: "(string \<times> string) list"
  t_metadata :: "(string \<times> string) list"
  t_local_metadata :: "(string \<times> string) list"
  t_custom_types :: "string list"
  t_custom_statuses :: "custom_status list"

text \<open>
  The values of a Go \<^verbatim>\<open>map[string]interface{}\<close> of field updates: a type switch on
  the dynamic type sees \<^verbatim>\<open>string\<close>, \<^verbatim>\<open>types.Status\<close> and \<^verbatim>\<open>types.IssueType\<close> apart, although
  the driver stores all three as text.
\<close>

datatype update_value =
    UString string
  | UStatus status
  | UType issue_type
  | UInt int
  | UBool bool
  | UTime time
  | UStrings "string list"
  | UBytes string
  | UNil

text \<open>
  What the operations take from outside the program's own code: the clock, the
  lease duration carried by the context, the operating system's random bytes,
  the row ids computed by \<^verbatim>\<open>depid.New\<close>, the JSON functions of the database
  and of Go, the settings read from \<^verbatim>\<open>config.yaml\<close>, SHA-256 and the
  floating-point test of a hash length.
\<close>

record env =
  now :: time
  ctx_ttl :: "int option"
  rand_read :: "string \<Rightarrow> (64 word) option"
  unix_nano :: "64 word"
  depid_New :: "string \<Rightarrow> string \<Rightarrow> string"
  json_gate :: "string \<Rightarrow> string option"
  marshal_issue :: "issue_row \<Rightarrow> string"
  marshal_map :: "(string \<times> string) list \<Rightarrow> string"
  json_ok :: "string \<Rightarrow> bool"
  marshal_value :: "update_value \<Rightarrow> string"
  marshal_updates :: "(string \<times> update_value) list \<Rightarrow> string"
  unmarshal_strs :: "string \<Rightarrow> string list option"
  unmarshal_left :: "string \<Rightarrow> string list"
  yaml_statuses :: "string list"
  yaml_types :: "string list"
  yaml_infra :: "string list"
  metadata_violation :: "string \<Rightarrow> bool"
  sha256_Sum :: "string \<Rightarrow> 8 word list"
  new_uuid :: "string \<Rightarrow> string"
  float_ok :: "string \<Rightarrow> bool"
  collision_ok :: "string option \<Rightarrow> int \<Rightarrow> int \<Rightarrow> bool"

datatype store_error =
    NotFound string
  | AlreadyClaimed string
  | NotClaimable string status
  | SelfDependency string
  | DependencyCycle
  | EpicBlocksTask
  | TaskBlocksEpic
  | DependencyExists string string dep_type
  | TargetCollision string
  | InvalidField string
  | BadIssueType issue_type
  | InvalidMetadata
  | Validation validation_error
  | PrefixMismatch string string
  | NotInitialized
  | MissingParent string
  | OpFailed string

subsection \<open>Routing\<close>

definition IsActiveWisp :: "db \<Rightarrow> string \<Rightarrow> bool" where
  "IsActiveWisp s x = (\<exists>r\<in>set (t_wisps s). ID r = x)"

text \<open>\<^verbatim>\<open>WispTableRouting\<close>: the issue, label, event and dependency table of a kind.\<close>

definition issue_table :: "bool \<Rightarrow> db \<Rightarrow> issue_row list" where
  "issue_table isWisp s = (if isWisp then t_wisps s else t_issues s)"

definition set_issue_table :: "bool \<Rightarrow> issue_row list \<Rightarrow> db \<Rightarrow> db" where
  "set_issue_table isWisp rows s =
     (if isWisp then s\<lparr>t_wisps := rows\<rparr> else s\<lparr>t_issues := rows\<rparr>)"

definition dep_table :: "bool \<Rightarrow> db \<Rightarrow> dep_row list" where
  "dep_table isWisp s = (if isWisp then t_wisp_deps s else t_deps s)"

definition set_dep_table :: "bool \<Rightarrow> dep_row list \<Rightarrow> db \<Rightarrow> db" where
  "set_dep_table isWisp rows s =
     (if isWisp then s\<lparr>t_wisp_deps := rows\<rparr> else s\<lparr>t_deps := rows\<rparr>)"

definition event_table :: "bool \<Rightarrow> db \<Rightarrow> event list" where
  "event_table isWisp s = (if isWisp then t_wisp_events s else t_events s)"

definition set_event_table :: "bool \<Rightarrow> event list \<Rightarrow> db \<Rightarrow> db" where
  "set_event_table isWisp evs s =
     (if isWisp then s\<lparr>t_wisp_events := evs\<rparr> else s\<lparr>t_events := evs\<rparr>)"

definition label_table :: "bool \<Rightarrow> db \<Rightarrow> (string \<times> string) list" where
  "label_table isWisp s = (if isWisp then t_wisp_labels s else t_labels s)"

definition set_label_table :: "bool \<Rightarrow> (string \<times> string) list \<Rightarrow> db \<Rightarrow> db" where
  "set_label_table isWisp ls s =
     (if isWisp then s\<lparr>t_wisp_labels := ls\<rparr> else s\<lparr>t_labels := ls\<rparr>)"

lemmas table_defs = issue_table_def set_issue_table_def dep_table_def set_dep_table_def
  event_table_def set_event_table_def label_table_def set_label_table_def

lemma table_simps [simp]:
  "issue_table w (set_issue_table w rows s) = rows"
  "w \<noteq> v \<Longrightarrow> issue_table w (set_issue_table v rows s) = issue_table w s"
  "dep_table w (set_issue_table v rows s) = dep_table w s"
  "dep_table w (set_dep_table w ds s) = ds"
  "w \<noteq> v \<Longrightarrow> dep_table w (set_dep_table v ds s) = dep_table w s"
  "issue_table w (set_dep_table v ds s) = issue_table w s"
  "issue_table w (set_event_table v evs s) = issue_table w s"
  "dep_table w (set_event_table v evs s) = dep_table w s"
  "event_table w (set_issue_table v rows s) = event_table w s"
  "event_table w (set_event_table w evs s) = evs"
  by (simp_all add: table_defs)

lemma IsActiveWisp_table: "IsActiveWisp s x \<longleftrightarrow> x \<in> ID ` set (issue_table True s)"
  by (auto simp: IsActiveWisp_def issue_table_def)

subsection \<open>Statements on issue rows\<close>

text \<open>\<^verbatim>\<open>SELECT ... FROM t WHERE id = ?\<close>: the row, or no rows.\<close>

definition select_row :: "string \<Rightarrow> issue_row list \<Rightarrow> issue_row option" where
  "select_row x rows = find (\<lambda>r. ID r = x) rows"

text \<open>\<^verbatim>\<open>UPDATE t SET f WHERE p\<close>, with the number of rows affected.\<close>

definition update_where ::
  "(issue_row \<Rightarrow> bool) \<Rightarrow> (issue_row \<Rightarrow> issue_row) \<Rightarrow> issue_row list \<Rightarrow> issue_row list \<times> nat" where
  "update_where p f rows =
     (map (\<lambda>r. if p r then f r else r) rows, length (filter p rows))"

definition keeps_id :: "(issue_row \<Rightarrow> issue_row) \<Rightarrow> bool" where
  "keeps_id f = (\<forall>r. ID (f r) = ID r)"

lemma keeps_idI [intro]: "(\<And>r. ID (f r) = ID r) \<Longrightarrow> keeps_id f"
  by (simp add: keeps_id_def)

lemma update_where_ids: "keeps_id f \<Longrightarrow> map ID (fst (update_where p f rows)) = map ID rows"
  by (auto simp: update_where_def keeps_id_def)

lemma select_row_Some: "select_row x rows = Some r \<Longrightarrow> r \<in> set rows \<and> ID r = x"
  by (auto simp: select_row_def find_Some_iff)

lemma select_row_None: "select_row x rows = None \<longleftrightarrow> x \<notin> ID ` set rows"
  by (auto simp: select_row_def find_None_iff)

lemma select_row_distinct:
  "distinct (map ID rows) \<Longrightarrow> r \<in> set rows \<Longrightarrow> select_row (ID r) rows = Some r"
proof (induction rows)
  case (Cons a rows)
  then show ?case by (auto simp: select_row_def)
qed simp

lemma select_update_where:
  assumes "keeps_id f"
  shows "select_row x (fst (update_where p f rows)) =
    (case select_row x rows of None \<Rightarrow> None | Some r \<Rightarrow> Some (if p r then f r else r))"
  using assms
  by (induction rows) (auto simp: select_row_def update_where_def keeps_id_def)

lemma update_where_zero:
  "snd (update_where p f rows) = 0 \<Longrightarrow> fst (update_where p f rows) = rows"
  by (auto simp: update_where_def filter_empty_conv intro: map_idI)

text \<open>\<^verbatim>\<open>GetIssueInTx\<close>: the issues table first, then wisps.\<close>

definition GetIssue :: "db \<Rightarrow> string \<Rightarrow> store_error + issue_row" where
  "GetIssue s x =
    (case select_row x (t_issues s) of
       Some r \<Rightarrow> Inr r
     | None \<Rightarrow> (case select_row x (t_wisps s) of
         Some r \<Rightarrow> Inr r
       | None \<Rightarrow> Inl (NotFound x)))"

lemma GetIssue_ok: "GetIssue s x = Inr r \<Longrightarrow> ID r = x"
  by (auto simp: GetIssue_def dest: select_row_Some split: option.splits)

subsection \<open>Events\<close>

text \<open>
  \<^verbatim>\<open>INSERT INTO events\<close>; the event id is a fresh UUID of the uuid library and is
  left out, as nothing reads it.
\<close>

definition RecordFullEvent ::
  "bool \<Rightarrow> string \<Rightarrow> string \<Rightarrow> string \<Rightarrow> string \<Rightarrow> string \<Rightarrow> db \<Rightarrow> db" where
  "RecordFullEvent isWisp issueID eventType actor oldValue newValue s =
     set_event_table isWisp (event_table isWisp s @
       [\<lparr>ev_issue = issueID, ev_type = eventType, ev_actor = actor, ev_old = oldValue,
         ev_new = newValue, ev_comment = ''''\<rparr>]) s"

definition AddCommentEvent :: "string \<Rightarrow> string \<Rightarrow> string \<Rightarrow> db \<Rightarrow> db" where
  "AddCommentEvent issueID actor com s =
     (let isWisp = IsActiveWisp s issueID in
      set_event_table isWisp (event_table isWisp s @
       [\<lparr>ev_issue = issueID, ev_type = ''commented'', ev_actor = actor, ev_old = '''',
         ev_new = '''', ev_comment = com\<rparr>]) s)"

lemma event_frame [simp]:
  "issue_table w (RecordFullEvent v x t a b c s) = issue_table w s"
  "dep_table w (RecordFullEvent v x t a b c s) = dep_table w s"
  "issue_table w (AddCommentEvent x a c s) = issue_table w s"
  "dep_table w (AddCommentEvent x a c s) = dep_table w s"
  by (simp_all add: RecordFullEvent_def AddCommentEvent_def Let_def)

subsection \<open>The invariant of the schema\<close>

definition dep_target :: "dep_row \<Rightarrow> string option" where
  "dep_target d = (case depends_on_issue_id d of Some x \<Rightarrow> Some x
     | None \<Rightarrow> (case depends_on_wisp_id d of Some x \<Rightarrow> Some x | None \<Rightarrow> depends_on_external d))"

text \<open>Primary keys of issues and wisps.\<close>

definition wf_db :: "db \<Rightarrow> bool" where
  "wf_db s = (\<forall>w. distinct (map ID (issue_table w s)))"

lemma wf_db_table [dest]: "wf_db s \<Longrightarrow> distinct (map ID (issue_table w s))"
  by (simp add: wf_db_def)

lemma wf_db_frame:
  "(\<And>w. map ID (issue_table w s') = map ID (issue_table w s)) \<Longrightarrow> wf_db s' = wf_db s"
  by (simp add: wf_db_def)

end
