(* ===== verification/Blocked.thy ===== *)
theory Blocked
  imports Store
begin

text \<open>
  The derived column \<^verbatim>\<open>is_blocked\<close> (\<^verbatim>\<open>internal/storage/issueops/blocked_state.go\<close>):
  the reasons a row is blocked for, the four UPDATE templates that mark and
  unmark rows, the batching of the ids, and the two loops that repeat the passes
  until nothing changes.  Loops that need not end are partial functions with
  result \<^verbatim>\<open>None\<close>.

  A WHERE clause is evaluated on the state before its statement.  SQL conditions
  over a NULL gate are three-valued: \<^verbatim>\<open>None\<close> is UNKNOWN, and a row is selected
  only when its condition is \<^verbatim>\<open>Some True\<close>.

  The statements exist in two variants with the same conditions, for a MySQL server and,
  rewritten by \<^verbatim>\<open>sqliteBlockedTemplate\<close>, for SQLite.  The models here describe an engine that
  accepts the variant it is given.  The doltlite store runs on SQLite and asks for that
  variant everywhere but in its two batch deletions, whose model has the syntax error
  (theory \<^verbatim>\<open>Delete\<close>).  \<^verbatim>\<open>ReopenIssueInTx\<close>, \<^verbatim>\<open>CreateIssuesInTx\<close>, the recompute after a merge and the
  full repair know the MySQL variant only; the store does not call them.
\<close>

subsection \<open>Three-valued conditions\<close>

type_synonym sql_bool = "bool option"

definition sql_eq :: "string option \<Rightarrow> string \<Rightarrow> sql_bool" where
  "sql_eq v s = (case v of None \<Rightarrow> None | Some t \<Rightarrow> Some (t = s))"

definition sql_and :: "sql_bool \<Rightarrow> sql_bool \<Rightarrow> sql_bool" where
  "sql_and p q = (if p = Some False \<or> q = Some False then Some False
     else if p = Some True \<and> q = Some True then Some True else None)"

definition sql_not :: "sql_bool \<Rightarrow> sql_bool" where
  "sql_not p = map_option Not p"

definition holds :: "sql_bool \<Rightarrow> bool" where
  "holds p = (p = Some True)"

subsection \<open>Reasons\<close>

definition active_status :: "status \<Rightarrow> bool" where
  "active_status st = (st \<noteq> StatusClosed \<and> st \<noteq> StatusPinned)"

text \<open>A dependency row names the row \<^verbatim>\<open>x\<close> of the table of kind \<^verbatim>\<open>w\<close> as its target.\<close>

definition targets :: "dep_row \<Rightarrow> bool \<Rightarrow> string \<Rightarrow> bool" where
  "targets d w x = ((if w then depends_on_wisp_id d else depends_on_issue_id d) = Some x)"

definition joined_target :: "db \<Rightarrow> dep_row \<Rightarrow> (issue_row \<Rightarrow> bool) \<Rightarrow> bool" where
  "joined_target s d p =
     ((\<exists>t\<in>set (t_issues s). targets d False (ID t) \<and> p t) \<or>
      (\<exists>t\<in>set (t_wisps s). targets d True (ID t) \<and> p t))"

definition hard_blocked :: "db \<Rightarrow> dep_row list \<Rightarrow> string \<Rightarrow> bool" where
  "hard_blocked s deps x =
     (\<exists>d\<in>set deps. issue_id d = x \<and> (dtype d = DepBlocks \<or> dtype d = DepConditionalBlocks) \<and>
        joined_target s d (\<lambda>t. active_status (Status t)))"

definition parent_blocked :: "db \<Rightarrow> dep_row list \<Rightarrow> string \<Rightarrow> bool" where
  "parent_blocked s deps x =
     (\<exists>d\<in>set deps. issue_id d = x \<and> dtype d = DepParentChild \<and> joined_target s d IsBlocked)"

text \<open>
  \<^verbatim>\<open>cd\<close> is a parent-child row whose parent is the spawner that the waits-for row
  \<^verbatim>\<open>d\<close> names, compared column by column.
\<close>

definition same_target :: "dep_row \<Rightarrow> dep_row \<Rightarrow> bool" where
  "same_target d cd =
     (depends_on_issue_id d \<noteq> None \<and> depends_on_issue_id cd = depends_on_issue_id d \<or>
      depends_on_wisp_id d \<noteq> None \<and> depends_on_wisp_id cd = depends_on_wisp_id d)"

definition spawned_child :: "db \<Rightarrow> dep_row \<Rightarrow> (status \<Rightarrow> bool) \<Rightarrow> bool" where
  "spawned_child s d p =
     ((\<exists>cd\<in>set (t_deps s). dtype cd = DepParentChild \<and> same_target d cd \<and>
         (\<exists>child\<in>set (t_issues s). ID child = issue_id cd \<and> p (Status child))) \<or>
      (\<exists>cd\<in>set (t_wisp_deps s). dtype cd = DepParentChild \<and> same_target d cd \<and>
         (\<exists>child\<in>set (t_wisps s). ID child = issue_id cd \<and> p (Status child))))"

definition waitsForGateBlocked :: "env \<Rightarrow> db \<Rightarrow> dep_row \<Rightarrow> sql_bool" where
  "waitsForGateBlocked e s d =
     sql_and (Some (spawned_child s d active_status))
       (sql_not (sql_and (sql_eq (json_gate e (dmetadata d)) WaitsForAnyChildren)
                         (Some (spawned_child s d (\<lambda>st. st = StatusClosed)))))"

definition waits_blocked :: "env \<Rightarrow> db \<Rightarrow> dep_row list \<Rightarrow> string \<Rightarrow> bool" where
  "waits_blocked e s deps x =
     (\<exists>d\<in>set deps. issue_id d = x \<and> dtype d = DepWaitsFor \<and> holds (waitsForGateBlocked e s d))"

text \<open>\<^verbatim>\<open>shouldBeBlockedDisjunction\<close> of \<^verbatim>\<open>blocked_consistency.go\<close>.\<close>

definition shouldBeBlocked :: "env \<Rightarrow> db \<Rightarrow> bool \<Rightarrow> string \<Rightarrow> bool" where
  "shouldBeBlocked e s isWisp x =
     (hard_blocked s (dep_table isWisp s) x \<or> parent_blocked s (dep_table isWisp s) x \<or>
      waits_blocked e s (dep_table isWisp s) x)"

subsection \<open>The UPDATE templates\<close>

definition markBlockedForIssues :: "env \<Rightarrow> string list \<Rightarrow> db \<Rightarrow> db \<times> nat" where
  "markBlockedForIssues e ids s =
    (let (rows, n) = update_where
       (\<lambda>i. ID i \<in> set ids \<and> \<not> IsBlocked i \<and> Status i \<noteq> StatusClosed \<and> Status i \<noteq> StatusPinned \<and>
            (hard_blocked s (t_deps s) (ID i) \<or> parent_blocked s (t_deps s) (ID i) \<or>
             waits_blocked e s (t_deps s) (ID i)))
       (\<lambda>i. i\<lparr>IsBlocked := True, UpdatedAt := UpdatedAt i\<rparr>) (t_issues s)
     in (s\<lparr>t_issues := rows\<rparr>, n))"

definition unmarkBlockedForIssues :: "env \<Rightarrow> string list \<Rightarrow> db \<Rightarrow> db \<times> nat" where
  "unmarkBlockedForIssues e ids s =
    (let (rows, n) = update_where
       (\<lambda>i. ID i \<in> set ids \<and> IsBlocked i \<and>
            (Status i = StatusClosed \<or> Status i = StatusPinned \<or>
             (\<not> hard_blocked s (t_deps s) (ID i) \<and> \<not> parent_blocked s (t_deps s) (ID i) \<and>
              \<not> waits_blocked e s (t_deps s) (ID i))))
       (\<lambda>i. i\<lparr>IsBlocked := False, UpdatedAt := UpdatedAt i\<rparr>) (t_issues s)
     in (s\<lparr>t_issues := rows\<rparr>, n))"

definition markBlockedForWisps :: "env \<Rightarrow> string list \<Rightarrow> db \<Rightarrow> db \<times> nat" where
  "markBlockedForWisps e ids s =
    (let (rows, n) = update_where
       (\<lambda>i. ID i \<in> set ids \<and> \<not> IsBlocked i \<and> Status i \<noteq> StatusClosed \<and> Status i \<noteq> StatusPinned \<and>
            (hard_blocked s (t_wisp_deps s) (ID i) \<or> parent_blocked s (t_wisp_deps s) (ID i) \<or>
             waits_blocked e s (t_wisp_deps s) (ID i)))
       (\<lambda>i. i\<lparr>IsBlocked := True, UpdatedAt := UpdatedAt i\<rparr>) (t_wisps s)
     in (s\<lparr>t_wisps := rows\<rparr>, n))"

definition unmarkBlockedForWisps :: "env \<Rightarrow> string list \<Rightarrow> db \<Rightarrow> db \<times> nat" where
  "unmarkBlockedForWisps e ids s =
    (let (rows, n) = update_where
       (\<lambda>i. ID i \<in> set ids \<and> IsBlocked i \<and>
            (Status i = StatusClosed \<or> Status i = StatusPinned \<or>
             (\<not> hard_blocked s (t_wisp_deps s) (ID i) \<and> \<not> parent_blocked s (t_wisp_deps s) (ID i) \<and>
              \<not> waits_blocked e s (t_wisp_deps s) (ID i))))
       (\<lambda>i. i\<lparr>IsBlocked := False, UpdatedAt := UpdatedAt i\<rparr>) (t_wisps s)
     in (s\<lparr>t_wisps := rows\<rparr>, n))"

subsection \<open>Batches and passes\<close>

definition queryBatchSize :: nat where
  "queryBatchSize = 200"

text \<open>The bodies of the two batching loops, over the batches of the ids.\<close>

fun mark_unmark_batches ::
  "(string list \<Rightarrow> 's \<Rightarrow> 's \<times> nat) \<Rightarrow> (string list \<Rightarrow> 's \<Rightarrow> 's \<times> nat) \<Rightarrow>
   string list list \<Rightarrow> 's \<Rightarrow> 's \<times> nat" where
  "mark_unmark_batches markTmpl unmarkTmpl [] s = (s, 0)"
| "mark_unmark_batches markTmpl unmarkTmpl (batch # bs) s =
    (let (s1, n1) = markTmpl batch s;
         (s2, n2) = unmarkTmpl batch s1;
         (s3, n3) = mark_unmark_batches markTmpl unmarkTmpl bs s2
     in (s3, n1 + n2 + n3))"

fun mark_batches ::
  "(string list \<Rightarrow> 's \<Rightarrow> 's \<times> nat) \<Rightarrow> string list list \<Rightarrow> 's \<Rightarrow> 's \<times> nat" where
  "mark_batches markTmpl [] s = (s, 0)"
| "mark_batches markTmpl (batch # bs) s =
    (let (s1, n1) = markTmpl batch s;
         (s2, n2) = mark_batches markTmpl bs s1
     in (s2, n1 + n2))"

definition runMarkUnmarkBatched ::
  "(string list \<Rightarrow> 's \<Rightarrow> 's \<times> nat) \<Rightarrow> (string list \<Rightarrow> 's \<Rightarrow> 's \<times> nat) \<Rightarrow>
   string list \<Rightarrow> 's \<Rightarrow> 's \<times> nat" where
  "runMarkUnmarkBatched markTmpl unmarkTmpl ids s =
     mark_unmark_batches markTmpl unmarkTmpl (chunks queryBatchSize ids) s"

definition runMarkBatched ::
  "(string list \<Rightarrow> 's \<Rightarrow> 's \<times> nat) \<Rightarrow> string list \<Rightarrow> 's \<Rightarrow> 's \<times> nat" where
  "runMarkBatched markTmpl ids s = mark_batches markTmpl (chunks queryBatchSize ids) s"

definition recomputePassForIssues :: "env \<Rightarrow> string list \<Rightarrow> db \<Rightarrow> db \<times> nat" where
  "recomputePassForIssues e ids s = (if ids = [] then (s, 0)
     else runMarkUnmarkBatched (markBlockedForIssues e) (unmarkBlockedForIssues e) ids s)"

definition recomputePassForWisps :: "env \<Rightarrow> string list \<Rightarrow> db \<Rightarrow> db \<times> nat" where
  "recomputePassForWisps e ids s = (if ids = [] then (s, 0)
     else runMarkUnmarkBatched (markBlockedForWisps e) (unmarkBlockedForWisps e) ids s)"

definition markPassForIssues :: "env \<Rightarrow> string list \<Rightarrow> db \<Rightarrow> db \<times> nat" where
  "markPassForIssues e ids s = (if ids = [] then (s, 0)
     else runMarkBatched (markBlockedForIssues e) ids s)"

definition markPassForWisps :: "env \<Rightarrow> string list \<Rightarrow> db \<Rightarrow> db \<times> nat" where
  "markPassForWisps e ids s = (if ids = [] then (s, 0)
     else runMarkBatched (markBlockedForWisps e) ids s)"

text \<open>One iteration of each loop: a pass over the issues, then one over the wisps.\<close>

definition recompute_pass :: "env \<Rightarrow> string list \<Rightarrow> string list \<Rightarrow> db \<Rightarrow> db \<times> nat" where
  "recompute_pass e issueIDs wispIDs s =
    (let (s1, n1) = recomputePassForIssues e issueIDs s;
         (s2, n2) = recomputePassForWisps e wispIDs s1
     in (s2, n1 + n2))"

definition mark_pass :: "env \<Rightarrow> string list \<Rightarrow> string list \<Rightarrow> db \<Rightarrow> db \<times> nat" where
  "mark_pass e issueIDs wispIDs s =
    (let (s1, n1) = markPassForIssues e issueIDs s;
         (s2, n2) = markPassForWisps e wispIDs s1
     in (s2, n1 + n2))"

text \<open>\<^verbatim>\<open>for { ... if changed == 0 { return } }\<close>, summing the changes of all iterations.\<close>

partial_function (option) repeat_until_stable :: "('s \<Rightarrow> 's \<times> nat) \<Rightarrow> nat \<Rightarrow> 's \<Rightarrow> ('s \<times> nat) option" where
  "repeat_until_stable pass acc s =
    (let (s1, changed) = pass s in
     if changed = 0 then Some (s1, acc + changed)
     else repeat_until_stable pass (acc + changed) s1)"

definition recomputeIsBlocked :: "env \<Rightarrow> string list \<Rightarrow> string list \<Rightarrow> db \<Rightarrow> db option" where
  "recomputeIsBlocked e issueIDs wispIDs s =
    (if issueIDs = [] \<and> wispIDs = [] then Some s
     else map_option fst (repeat_until_stable (recompute_pass e issueIDs wispIDs) 0 s))"

definition markIsBlocked :: "env \<Rightarrow> string list \<Rightarrow> string list \<Rightarrow> db \<Rightarrow> db option" where
  "markIsBlocked e issueIDs wispIDs s =
    (if issueIDs = [] \<and> wispIDs = [] then Some s
     else map_option fst (repeat_until_stable (mark_pass e issueIDs wispIDs) 0 s))"

subsection \<open>Full repair and the consistency check\<close>

definition recomputeIsBlockedCounting ::
  "env \<Rightarrow> string list \<Rightarrow> string list \<Rightarrow> db \<Rightarrow> (db \<times> nat) option" where
  "recomputeIsBlockedCounting e issueIDs wispIDs s =
    (if issueIDs = [] \<and> wispIDs = [] then Some (s, 0)
     else repeat_until_stable (recompute_pass e issueIDs wispIDs) 0 s)"

definition RecomputeAllIsBlocked :: "env \<Rightarrow> db \<Rightarrow> (db \<times> nat) option" where
  "RecomputeAllIsBlocked e s =
     recomputeIsBlockedCounting e (map ID (t_issues s)) (map ID (t_wisps s)) s"

definition countStaleIsBlocked :: "env \<Rightarrow> bool \<Rightarrow> db \<Rightarrow> nat" where
  "countStaleIsBlocked e isWisp s = length (filter
     (\<lambda>i. (\<not> IsBlocked i \<and> Status i \<noteq> StatusClosed \<and> Status i \<noteq> StatusPinned \<and>
            shouldBeBlocked e s isWisp (ID i)) \<or>
          (IsBlocked i \<and> (Status i = StatusClosed \<or> Status i = StatusPinned \<or>
            \<not> shouldBeBlocked e s isWisp (ID i))))
     (issue_table isWisp s))"

definition CountIsBlockedInconsistencies :: "env \<Rightarrow> db \<Rightarrow> nat" where
  "CountIsBlockedInconsistencies e s = countStaleIsBlocked e False s + countStaleIsBlocked e True s"

end
