(* ===== verification/FlagEngine.thy ===== *)
theory FlagEngine
  imports Blocked
begin

text \<open>
  The contract between the recompute loops and the UPDATE statements they run.
  The provider promises that a mark statement sets the flag of the listed rows
  that want it, that an unmark statement clears the flag of the listed rows that
  do not, and that what a row wants depends only on the flags of its parents.
  From that alone the loops are shown to end and to leave a consistent table.
\<close>

locale flag_engine =
  fixes node :: "'k \<Rightarrow> string \<Rightarrow> 'n"
    and flags :: "'s \<Rightarrow> 'n set"
    and rows :: "'s \<Rightarrow> 'n set"
    and wants :: "'s \<Rightarrow> 'n set \<Rightarrow> 'n \<Rightarrow> bool"
    and par :: "'s \<Rightarrow> 'n \<Rightarrow> 'n set"
    and ok :: "'s \<Rightarrow> bool"
    and mark :: "'k \<Rightarrow> string list \<Rightarrow> 's \<Rightarrow> 's \<times> nat"
    and unmark :: "'k \<Rightarrow> string list \<Rightarrow> 's \<Rightarrow> 's \<times> nat"
  assumes finite_rows: "finite (rows s)"
    and flags_rows: "flags s \<subseteq> rows s"
    and wants_local: "wants s F n \<Longrightarrow> F \<inter> par s n \<subseteq> G \<Longrightarrow> wants s G n"
    and mark_ok: "ok s \<Longrightarrow> mark w ids s = (s', c) \<Longrightarrow>
          ok s' \<and> rows s' = rows s \<and> wants s' = wants s \<and> par s' = par s"
    and mark_flags: "ok s \<Longrightarrow> mark w ids s = (s', c) \<Longrightarrow>
          flags s' = flags s \<union> {n \<in> node w ` set ids. n \<in> rows s \<and> wants s (flags s) n}"
    and mark_count: "ok s \<Longrightarrow> mark w ids s = (s', c) \<Longrightarrow> c = 0 \<longleftrightarrow> flags s' = flags s"
    and unmark_ok: "ok s \<Longrightarrow> unmark w ids s = (s', c) \<Longrightarrow>
          ok s' \<and> rows s' = rows s \<and> wants s' = wants s \<and> par s' = par s"
    and unmark_flags: "ok s \<Longrightarrow> unmark w ids s = (s', c) \<Longrightarrow>
          flags s' = flags s - {n \<in> node w ` set ids. \<not> wants s (flags s) n}"
    and unmark_count: "ok s \<Longrightarrow> unmark w ids s = (s', c) \<Longrightarrow> c = 0 \<longleftrightarrow> flags s' = flags s"
begin

definition frame :: "'s \<Rightarrow> 's \<Rightarrow> bool" where
  "frame s s' \<longleftrightarrow> ok s' \<and> rows s' = rows s \<and> wants s' = wants s \<and> par s' = par s"

definition consistent_on :: "'n set \<Rightarrow> 's \<Rightarrow> bool" where
  "consistent_on S s \<longleftrightarrow> (\<forall>n\<in>S \<inter> rows s. n \<in> flags s \<longleftrightarrow> wants s (flags s) n)"

definition batch_nodes :: "'k \<Rightarrow> string list \<Rightarrow> 'n set" where
  "batch_nodes w ids = node w ` set ids"

lemma consistent_on_Un [simp]:
  "consistent_on (S \<union> T) s \<longleftrightarrow> consistent_on S s \<and> consistent_on T s"
  unfolding consistent_on_def by blast

lemma frame_trans: "frame s t \<Longrightarrow> frame t u \<Longrightarrow> frame s u"
  by (simp add: frame_def)

lemma wants_cong: "F \<inter> par s n = G \<inter> par s n \<Longrightarrow> wants s F n = wants s G n"
  using wants_local[of s F n G] wants_local[of s G n F] by auto

lemma wants_mono: "wants s F n \<Longrightarrow> F \<subseteq> G \<Longrightarrow> wants s G n"
  using wants_local by blast

lemma mark_frame: "ok s \<Longrightarrow> mark w ids s = (s', c) \<Longrightarrow> frame s s'"
  unfolding frame_def by (rule mark_ok)

lemma unmark_frame: "ok s \<Longrightarrow> unmark w ids s = (s', c) \<Longrightarrow> frame s s'"
  unfolding frame_def by (rule unmark_ok)

subsection \<open>One batch\<close>

text \<open>
  A target set \<^verbatim>\<open>G\<close> of flags: a fixed point on \<^verbatim>\<open>S\<close>, the current flags outside.
\<close>

definition target_set :: "'n set \<Rightarrow> 's \<Rightarrow> 'n set \<Rightarrow> bool" where
  "target_set S s G \<longleftrightarrow> G \<subseteq> rows s \<and> (\<forall>n. n \<notin> S \<longrightarrow> (n \<in> G \<longleftrightarrow> n \<in> flags s)) \<and>
     (\<forall>n\<in>S \<inter> rows s. n \<in> G \<longleftrightarrow> wants s G n)"

lemma target_set_exists: "\<exists>G. target_set S s G"
proof -
  define f where "f X = (flags s - S) \<union> {n \<in> S \<inter> rows s. wants s X n}" for X
  have m: "mono f" unfolding f_def by (rule monoI) (use wants_mono in blast)
  have e: "lfp f = (flags s - S) \<union> {n \<in> S \<inter> rows s. wants s (lfp f) n}"
    using lfp_unfold[OF m] by (simp add: f_def)
  have "target_set S s (lfp f)"
    unfolding target_set_def using e flags_rows[of s] by blast
  then show ?thesis ..
qed

definition ranked :: "'n set \<Rightarrow> 's \<Rightarrow> ('n \<Rightarrow> nat) \<Rightarrow> bool" where
  "ranked S s rank \<longleftrightarrow>
     (\<forall>n\<in>S \<inter> rows s. \<forall>p\<in>par s n \<inter> S \<inter> rows s. rank p < rank n)"

definition agree :: "'n set \<Rightarrow> 'n set \<Rightarrow> ('n \<Rightarrow> nat) \<Rightarrow> nat \<Rightarrow> 's \<Rightarrow> bool" where
  "agree S G rank k s \<longleftrightarrow>
     (\<forall>n. n \<notin> S \<or> n \<notin> rows s \<or> rank n < k \<longrightarrow> (n \<in> flags s \<longleftrightarrow> n \<in> G))"

lemma agree_wants:
  assumes "ranked S s rank" "agree S G rank k s" "\<forall>n\<in>S \<inter> rows s. n \<in> G \<longleftrightarrow> wants s G n"
    and n: "n \<in> S \<inter> rows s" "rank n \<le> k"
  shows "wants s (flags s) n \<longleftrightarrow> n \<in> G"
proof -
  have "p \<in> flags s \<longleftrightarrow> p \<in> G" if "p \<in> par s n" for p
  proof (cases "p \<in> S \<inter> rows s")
    case True
    then have "rank p < rank n" using assms(1) n(1) that unfolding ranked_def by blast
    with assms(2) n(2) show ?thesis unfolding agree_def by auto
  next
    case False
    with assms(2) show ?thesis unfolding agree_def by blast
  qed
  then have "flags s \<inter> par s n = G \<inter> par s n" by blast
  with wants_cong[of "flags s" s n G] assms(3) n(1) show ?thesis by blast
qed

lemma batch_agree:
  assumes ok: "ok s" and m: "mark w ids s = (s1, c1)" and u: "unmark w ids s1 = (s2, c2)"
    and r: "ranked S s rank" and a: "agree S G rank k s"
    and G: "\<forall>n\<in>S \<inter> rows s. n \<in> G \<longleftrightarrow> wants s G n"
    and sub: "batch_nodes w ids \<subseteq> S"
  shows "frame s s2" "agree S G rank k s2"
    "n \<in> batch_nodes w ids \<Longrightarrow> rank n \<le> k \<Longrightarrow> n \<in> flags s2 \<longleftrightarrow> n \<in> G"
    "n \<notin> batch_nodes w ids \<Longrightarrow> n \<in> flags s2 \<longleftrightarrow> n \<in> flags s"
proof -
  have f1: "frame s s1" using mark_frame[OF ok m] .
  then have ok1: "ok s1" by (simp add: frame_def)
  have f2: "frame s1 s2" using unmark_frame[OF ok1 u] .
  show fr: "frame s s2" using frame_trans[OF f1 f2] .
  have fl1: "flags s1 = flags s \<union> {n \<in> batch_nodes w ids. n \<in> rows s \<and> wants s (flags s) n}"
    using mark_flags[OF ok m] unfolding batch_nodes_def .
  have fl2: "flags s2 = flags s1 - {n \<in> batch_nodes w ids. \<not> wants s (flags s1) n}"
    using unmark_flags[OF ok1 u] f1 unfolding batch_nodes_def frame_def by simp
  have a1: "agree S G rank k s1"
    unfolding agree_def
  proof (intro allI impI)
    fix n assume n: "n \<notin> S \<or> n \<notin> rows s1 \<or> rank n < k"
    then have "n \<in> flags s \<longleftrightarrow> n \<in> G" using a f1 unfolding agree_def frame_def by auto
    moreover have "n \<in> G" if "n \<in> batch_nodes w ids" "n \<in> rows s" "wants s (flags s) n"
    proof -
      have "n \<in> S" using sub that by blast
      then have "rank n < k" using n f1 that(2) by (auto simp: frame_def)
      with agree_wants[OF r a G, of n] \<open>n \<in> S\<close> that show ?thesis by auto
    qed
    ultimately show "n \<in> flags s1 \<longleftrightarrow> n \<in> G" using fl1 by blast
  qed
  have w1: "wants s (flags s1) n \<longleftrightarrow> n \<in> G" if "n \<in> S \<inter> rows s" "rank n \<le> k" for n
    using agree_wants[of S s1 rank G k n] a1 r G f1 that
    by (auto simp: frame_def ranked_def)
  have key: "n \<in> flags s2 \<longleftrightarrow> n \<in> G" if nb: "n \<in> batch_nodes w ids" and nk: "rank n \<le> k" for n
  proof (cases "n \<in> rows s")
    case True
    have nS: "n \<in> S \<inter> rows s" using True sub nb by blast
    have "n \<in> flags s1 \<longleftrightarrow> n \<in> flags s \<or> n \<in> G"
      using fl1 nb True agree_wants[OF r a G nS nk] by blast
    moreover have "n \<in> flags s2 \<longleftrightarrow> n \<in> flags s1 \<and> n \<in> G"
      using fl2 nb w1[OF nS nk] by blast
    ultimately show ?thesis by blast
  next
    case False
    then have "n \<notin> flags s2" using flags_rows[of s2] fr by (auto simp: frame_def)
    moreover have "n \<notin> G" using False a flags_rows[of s] unfolding agree_def by blast
    ultimately show ?thesis by blast
  qed
  show "n \<in> batch_nodes w ids \<Longrightarrow> rank n \<le> k \<Longrightarrow> n \<in> flags s2 \<longleftrightarrow> n \<in> G" by (rule key)
  show un: "n \<notin> batch_nodes w ids \<Longrightarrow> n \<in> flags s2 \<longleftrightarrow> n \<in> flags s" for n
    using fl1 fl2 by blast
  show "agree S G rank k s2"
    unfolding agree_def
  proof (intro allI impI)
    fix n assume n: "n \<notin> S \<or> n \<notin> rows s2 \<or> rank n < k"
    show "n \<in> flags s2 \<longleftrightarrow> n \<in> G"
    proof (cases "n \<in> batch_nodes w ids \<and> rank n \<le> k")
      case True
      then show ?thesis using key by blast
    next
      case False
      have na: "n \<in> flags s \<longleftrightarrow> n \<in> G"
        using n a fr unfolding agree_def frame_def by auto
      show ?thesis
      proof (cases "n \<in> batch_nodes w ids")
        case True
        then have "n \<notin> rows s" using n False sub fr by (auto simp: frame_def)
        then have "n \<notin> flags s" "n \<notin> flags s2"
          using flags_rows[of s] flags_rows[of s2] fr by (auto simp: frame_def)
        with na show ?thesis by blast
      next
        case False
        with un na show ?thesis by blast
      qed
    qed
  qed
qed

end

subsection \<open>The batches of a pass\<close>

context flag_engine
begin

definition run :: "'k \<Rightarrow> string list list \<Rightarrow> 's \<Rightarrow> 's \<times> nat" where
  "run w bs s = mark_unmark_batches (mark w) (unmark w) bs s"

definition nodes_of :: "'k \<Rightarrow> string list list \<Rightarrow> 'n set" where
  "nodes_of w bs = (\<Union>b\<in>set bs. batch_nodes w b)"

lemma run_Cons:
  "run w (b # bs) s = (s', c) \<longleftrightarrow> (\<exists>s1 c1 s2 c2 c3. mark w b s = (s1, c1) \<and>
     unmark w b s1 = (s2, c2) \<and> run w bs s2 = (s', c3) \<and> c = c1 + c2 + c3)"
  by (auto simp: run_def Let_def split: prod.splits)

lemma run_agree:
  assumes "ok s" "run w bs s = (s', c)" "ranked S s rank" "agree S G rank k s"
    and "\<forall>n\<in>S \<inter> rows s. n \<in> G \<longleftrightarrow> wants s G n" and "nodes_of w bs \<subseteq> S"
  shows "frame s s' \<and> agree S G rank k s' \<and>
    (\<forall>n\<in>nodes_of w bs. rank n \<le> k \<longrightarrow> (n \<in> flags s' \<longleftrightarrow> n \<in> G)) \<and>
    (\<forall>n. n \<notin> nodes_of w bs \<longrightarrow> (n \<in> flags s' \<longleftrightarrow> n \<in> flags s))"
  using assms
proof (induction bs arbitrary: s c)
  case Nil
  then show ?case by (simp add: run_def nodes_of_def frame_def)
next
  case (Cons b bs)
  obtain s1 c1 s2 c2 c3 where st: "mark w b s = (s1, c1)" "unmark w b s1 = (s2, c2)"
    "run w bs s2 = (s', c3)" using Cons.prems(2) by (auto simp: run_Cons)
  have sub: "batch_nodes w b \<subseteq> S" "nodes_of w bs \<subseteq> S"
    using Cons.prems(6) by (auto simp: nodes_of_def)
  note b = batch_agree[OF Cons.prems(1) st(1,2) Cons.prems(3,4,5) sub(1)]
  have fr: "ok s2" "rows s2 = rows s" "wants s2 = wants s" "par s2 = par s"
    using b(1) by (simp_all add: frame_def)
  have IH: "frame s2 s' \<and> agree S G rank k s' \<and>
    (\<forall>n\<in>nodes_of w bs. rank n \<le> k \<longrightarrow> (n \<in> flags s' \<longleftrightarrow> n \<in> G)) \<and>
    (\<forall>n. n \<notin> nodes_of w bs \<longrightarrow> (n \<in> flags s' \<longleftrightarrow> n \<in> flags s2))"
    by (rule Cons.IH[OF fr(1) st(3) _ b(2) _ sub(2)])
      (use Cons.prems(3,5) fr in \<open>simp_all add: ranked_def\<close>)
  have nc: "nodes_of w (b # bs) = batch_nodes w b \<union> nodes_of w bs"
    by (simp add: nodes_of_def)
  show ?case
    unfolding nc using IH b(3,4) frame_trans[OF b(1)] by blast
qed

lemma run_zero:
  assumes "ok s" "run w bs s = (s', 0)"
  shows "frame s s' \<and> flags s' = flags s \<and> consistent_on (nodes_of w bs) s"
  using assms
proof (induction bs arbitrary: s)
  case Nil
  then show ?case by (simp add: run_def nodes_of_def frame_def consistent_on_def)
next
  case (Cons b bs)
  obtain s1 s2 where st: "mark w b s = (s1, 0)" "unmark w b s1 = (s2, 0)"
    "run w bs s2 = (s', 0)" using Cons.prems(2) by (auto simp: run_Cons)
  have f1: "frame s s1" using mark_frame[OF Cons.prems(1) st(1)] .
  then have ok1: "ok s1" by (simp add: frame_def)
  have f2: "frame s1 s2" using unmark_frame[OF ok1 st(2)] .
  then have ok2: "ok s2" by (simp add: frame_def)
  have e1: "flags s1 = flags s" using mark_count[OF Cons.prems(1) st(1)] by simp
  have e2: "flags s2 = flags s1" using unmark_count[OF ok1 st(2)] by simp
  have "consistent_on (batch_nodes w b) s"
    using mark_flags[OF Cons.prems(1) st(1)] unmark_flags[OF ok1 st(2)] e1 e2 f1
    unfolding consistent_on_def batch_nodes_def frame_def by auto
  moreover have IH: "frame s2 s' \<and> flags s' = flags s2 \<and> consistent_on (nodes_of w bs) s2"
    using Cons.IH[OF ok2 st(3)] .
  moreover have f02: "frame s s2" "flags s2 = flags s"
    using frame_trans[OF f1 f2] e1 e2 by simp_all
  moreover have "consistent_on (nodes_of w bs) s"
    using IH f02 by (simp add: consistent_on_def frame_def)
  moreover have "nodes_of w (b # bs) = batch_nodes w b \<union> nodes_of w bs"
    by (simp add: nodes_of_def)
  ultimately show ?case
    using frame_trans[of s s2 s'] by (simp add: consistent_on_Un)
qed

lemma run_consistent_zero:
  assumes "ok s" "consistent_on (nodes_of w bs) s" "run w bs s = (s', c)"
  shows "c = 0"
  using assms
proof (induction bs arbitrary: s c)
  case (Cons b bs)
  obtain s1 c1 s2 c2 c3 where st: "mark w b s = (s1, c1)" "unmark w b s1 = (s2, c2)"
    "run w bs s2 = (s', c3)" "c = c1 + c2 + c3" using Cons.prems(3) by (auto simp: run_Cons)
  have cb: "consistent_on (batch_nodes w b) s" "consistent_on (nodes_of w bs) s"
    using Cons.prems(2) by (auto simp: consistent_on_def nodes_of_def)
  have f1: "frame s s1" using mark_frame[OF Cons.prems(1) st(1)] .
  then have ok1: "ok s1" by (simp add: frame_def)
  have f2: "frame s1 s2" using unmark_frame[OF ok1 st(2)] .
  then have ok2: "ok s2" by (simp add: frame_def)
  have e1: "flags s1 = flags s"
    using mark_flags[OF Cons.prems(1) st(1)] cb(1)
    unfolding consistent_on_def batch_nodes_def by auto
  have e2: "flags s2 = flags s1"
    using unmark_flags[OF ok1 st(2)] cb(1) e1 f1 flags_rows[of s]
    unfolding consistent_on_def batch_nodes_def frame_def by auto
  have "c1 = 0" "c2 = 0"
    using mark_count[OF Cons.prems(1) st(1)] unmark_count[OF ok1 st(2)] e1 e2 by simp_all
  moreover have "c3 = 0"
  proof (rule Cons.IH[OF ok2 _ st(3)])
    show "consistent_on (nodes_of w bs) s2"
      using cb(2) e1 e2 f1 f2 by (simp add: consistent_on_def frame_def)
  qed
  ultimately show ?case using st(4) by simp
qed (simp add: run_def)

subsection \<open>The loop\<close>

definition pass :: "'k \<Rightarrow> 'k \<Rightarrow> string list list \<Rightarrow> string list list \<Rightarrow> 's \<Rightarrow> 's \<times> nat" where
  "pass v w bs cs s = (let (s1, n1) = run v bs s; (s2, n2) = run w cs s1 in (s2, n1 + n2))"

lemma pass_split:
  "pass v w bs cs s = (s', c) \<longleftrightarrow>
     (\<exists>s1 n1 n2. run v bs s = (s1, n1) \<and> run w cs s1 = (s', n2) \<and> c = n1 + n2)"
  by (auto simp: pass_def Let_def split: prod.splits)

definition scope :: "'k \<Rightarrow> 'k \<Rightarrow> string list list \<Rightarrow> string list list \<Rightarrow> 'n set" where
  "scope v w bs cs = nodes_of v bs \<union> nodes_of w cs"

lemma pass_agree:
  assumes "ok s" "pass v w bs cs s = (s', c)" "ranked (scope v w bs cs) s rank"
    and "agree (scope v w bs cs) G rank k s"
    and "\<forall>n\<in>scope v w bs cs \<inter> rows s. n \<in> G \<longleftrightarrow> wants s G n"
  shows "frame s s' \<and> agree (scope v w bs cs) G rank (Suc k) s'"
proof -
  let ?S = "scope v w bs cs"
  obtain s1 n1 n2 where st: "run v bs s = (s1, n1)" "run w cs s1 = (s', n2)"
    using assms(2) by (auto simp: pass_split)
  have sub: "nodes_of v bs \<subseteq> ?S" "nodes_of w cs \<subseteq> ?S" by (auto simp: scope_def)
  note r1 = run_agree[OF assms(1) st(1) assms(3,4,5) sub(1)]
  then have fr: "ok s1" "rows s1 = rows s" "wants s1 = wants s" "par s1 = par s"
    by (simp_all add: frame_def)
  have r2: "frame s1 s' \<and> agree ?S G rank k s' \<and>
    (\<forall>n\<in>nodes_of w cs. rank n \<le> k \<longrightarrow> (n \<in> flags s' \<longleftrightarrow> n \<in> G)) \<and>
    (\<forall>n. n \<notin> nodes_of w cs \<longrightarrow> (n \<in> flags s' \<longleftrightarrow> n \<in> flags s1))"
    by (rule run_agree[OF fr(1) st(2) _ _ _ sub(2)])
      (use r1 assms(3,5) fr in \<open>simp_all add: ranked_def\<close>)
  have "n \<in> flags s' \<longleftrightarrow> n \<in> G" if "n \<in> ?S" "rank n \<le> k" for n
    using that r1 r2 unfolding scope_def by blast
  moreover have "frame s s'" using r1 r2 frame_trans by blast
  ultimately show ?thesis using r2 unfolding agree_def by (auto simp: less_Suc_eq_le)
qed

lemma pass_zero:
  assumes "ok s" "pass v w bs cs s = (s', 0)"
  shows "frame s s' \<and> flags s' = flags s \<and> consistent_on (scope v w bs cs) s'"
proof -
  obtain s1 where st: "run v bs s = (s1, 0)" "run w cs s1 = (s', 0)"
    using assms(2) by (auto simp: pass_split)
  note r1 = run_zero[OF assms(1) st(1)]
  then have "ok s1" by (simp add: frame_def)
  note r2 = run_zero[OF this st(2)]
  have fr: "frame s s'" using r1 r2 frame_trans by blast
  have "consistent_on (nodes_of v bs) s'" "consistent_on (nodes_of w cs) s'"
    using r1 r2 fr by (simp_all add: consistent_on_def frame_def)
  with r1 r2 fr show ?thesis by (simp add: scope_def consistent_on_Un)
qed

lemma pass_consistent_zero:
  assumes "ok s" "consistent_on (scope v w bs cs) s" "pass v w bs cs s = (s', c)"
  shows "c = 0"
proof -
  obtain s1 n1 n2 where st: "run v bs s = (s1, n1)" "run w cs s1 = (s', n2)" "c = n1 + n2"
    using assms(3) by (auto simp: pass_split)
  have cs: "consistent_on (nodes_of v bs) s" "consistent_on (nodes_of w cs) s"
    using assms(2) by (auto simp: consistent_on_def scope_def)
  have z: "n1 = 0" using run_consistent_zero[OF assms(1) cs(1) st(1)] .
  with run_zero[OF assms(1)] st(1) have r: "frame s s1" "flags s1 = flags s" by auto
  then have "consistent_on (nodes_of w cs) s1"
    using cs(2) by (simp add: consistent_on_def frame_def)
  with r have "n2 = 0" using run_consistent_zero[OF _ _ st(2)] by (simp add: frame_def)
  with z st(3) show ?thesis by simp
qed

lemma agree_all_consistent:
  assumes "ranked S s rank" "agree S G rank K s" "\<forall>n\<in>S \<inter> rows s. n \<in> G \<longleftrightarrow> wants s G n"
    and "\<forall>n\<in>S \<inter> rows s. rank n < K"
  shows "flags s = G" "consistent_on S s"
proof -
  show e: "flags s = G" using assms(2,4) unfolding agree_def by blast
  show "consistent_on S s" using assms(3) unfolding consistent_on_def e .
qed

theorem loop_converges:
  assumes "ok s" "ranked (scope v w bs cs) s rank" "agree (scope v w bs cs) G rank k s"
    and "\<forall>n\<in>scope v w bs cs \<inter> rows s. n \<in> G \<longleftrightarrow> wants s G n"
    and "\<forall>n\<in>scope v w bs cs \<inter> rows s. rank n < K"
  shows "\<exists>r c. repeat_until_stable (pass v w bs cs) acc s = Some (r, c) \<and> frame s r \<and>
           flags r = G"
  using assms
proof (induction "K - k" arbitrary: s k acc rule: less_induct)
  case less
  let ?S = "scope v w bs cs"
  obtain s1 c where p: "pass v w bs cs s = (s1, c)" by fastforce
  have pa: "frame s s1 \<and> agree ?S G rank (Suc k) s1"
    using pass_agree[OF less.prems(1) p less.prems(2,3,4)] .
  have fr: "ok s1" "rows s1 = rows s" "wants s1 = wants s" "par s1 = par s"
    using pa by (simp_all add: frame_def)
  have rk: "ranked ?S s1 rank" using less.prems(2) fr by (simp add: ranked_def)
  show ?case
  proof (cases "c = 0")
    case True
    with p have pz: "frame s s1" "flags s1 = flags s" "consistent_on ?S s1"
      using pass_zero[OF less.prems(1)] by blast+
    have gs1: "\<forall>n. n \<in> ?S \<inter> rows s \<longrightarrow> (n \<in> flags s1 \<longleftrightarrow> wants s (flags s1) n)"
      using pz(3) fr by (simp add: consistent_on_def)
    have "n \<in> flags s1 \<longleftrightarrow> n \<in> G" for n
    proof (induction "rank n" arbitrary: n rule: less_induct)
      case (less m)
      show ?case
      proof (cases "m \<in> ?S \<inter> rows s")
        case True
        have "p \<in> flags s1 \<longleftrightarrow> p \<in> G" if "p \<in> par s m" for p
        proof (cases "p \<in> ?S \<inter> rows s")
          case True
          then have "rank p < rank m"
            using \<open>ranked ?S s rank\<close> \<open>m \<in> ?S \<inter> rows s\<close> that unfolding ranked_def by blast
          then show ?thesis by (rule less)
        next
          case False
          then show ?thesis using pa fr unfolding agree_def by auto
        qed
        then have "flags s1 \<inter> par s m = G \<inter> par s m" by blast
        then show ?thesis
          using wants_cong[of "flags s1" s m G] gs1 True \<open>\<forall>n\<in>?S \<inter> rows s. n \<in> G \<longleftrightarrow> wants s G n\<close>
          by blast
      next
        case False
        then show ?thesis using pa fr unfolding agree_def by auto
      qed
    qed
    then have "flags s1 = G" by blast
    then show ?thesis
      using True p pz(1) by (subst repeat_until_stable.simps) (simp add: Let_def)
  next
    case False
    have "k < K"
    proof (rule ccontr)
      assume "\<not> k < K"
      then have "\<forall>n\<in>?S \<inter> rows s. rank n < k"
        using less.prems(5) by (meson le_trans not_less less_le_trans)
      then have "consistent_on ?S s"
        by (rule agree_all_consistent(2)[OF less.prems(2,3,4)])
      then show False using pass_consistent_zero[OF less.prems(1) _ p] False by blast
    qed
    then have "K - Suc k < K - k" by simp
    then have "\<exists>r c'. repeat_until_stable (pass v w bs cs) (acc + c) s1 = Some (r, c') \<and>
        frame s1 r \<and> flags r = G"
      by (rule less.hyps) (use less.prems pa rk fr in \<open>simp_all add: frame_def\<close>)
    moreover have "repeat_until_stable (pass v w bs cs) acc s =
        repeat_until_stable (pass v w bs cs) (acc + c) s1"
      using p False by (subst repeat_until_stable.simps) (simp add: Let_def)
    ultimately show ?thesis using pa frame_trans[of s s1] by auto
  qed
qed

end

subsection \<open>What the loops achieve\<close>

context flag_engine
begin

lemma rank_bounded: "\<exists>K. \<forall>n\<in>S \<inter> rows s. (rank n :: nat) < K"
proof -
  have "finite (rank ` (S \<inter> rows s))" using finite_rows by simp
  then show ?thesis unfolding finite_nat_set_iff_bounded by auto
qed

definition child_closed :: "'n set \<Rightarrow> 's \<Rightarrow> bool" where
  "child_closed S s \<longleftrightarrow>
     (\<forall>n\<in>rows s. par s n \<inter> S \<inter> rows s \<noteq> {} \<longrightarrow> n \<in> S)"

lemma outside_unchanged:
  assumes "child_closed S s" "frame s r" "\<And>n. n \<notin> S \<Longrightarrow> n \<in> flags r \<longleftrightarrow> n \<in> flags s"
    and "n \<in> rows s" "n \<notin> S"
  shows "wants r (flags r) n \<longleftrightarrow> wants s (flags s) n"
proof -
  have "p \<in> flags r \<longleftrightarrow> p \<in> flags s" if "p \<in> par s n" for p
  proof (cases "p \<in> rows s")
    case True
    then have "p \<notin> S" using assms(1,4,5) that unfolding child_closed_def by blast
    then show ?thesis by (rule assms(3))
  next
    case False
    then show ?thesis using flags_rows[of s] flags_rows[of r] assms(2) by (auto simp: frame_def)
  qed
  then have "flags r \<inter> par s n = flags s \<inter> par s n" by blast
  with wants_cong[of "flags r" s n "flags s"] assms(2) show ?thesis by (simp add: frame_def)
qed

theorem loop_settles:
  assumes ok: "ok s" and rk: "ranked (scope v w bs cs) s rank"
  shows "\<exists>r c. repeat_until_stable (pass v w bs cs) acc s = Some (r, c) \<and> frame s r \<and>
     consistent_on (scope v w bs cs) r \<and> (\<forall>n. n \<notin> scope v w bs cs \<longrightarrow> (n \<in> flags r \<longleftrightarrow> n \<in> flags s))"
proof -
  let ?S = "scope v w bs cs"
  obtain G where G: "target_set ?S s G" using target_set_exists by blast
  obtain K where K: "\<forall>n\<in>?S \<inter> rows s. rank n < K" using rank_bounded by blast
  have ag: "agree ?S G rank 0 s"
    using G flags_rows[of s] unfolding agree_def target_set_def by blast
  have Gw: "\<forall>n\<in>?S \<inter> rows s. n \<in> G \<longleftrightarrow> wants s G n" using G by (simp add: target_set_def)
  obtain r c where r: "repeat_until_stable (pass v w bs cs) acc s = Some (r, c)" "frame s r" "flags r = G"
    using loop_converges[OF ok rk ag Gw K] by blast
  have "n \<in> flags r \<longleftrightarrow> n \<in> flags s" if "n \<notin> ?S" for n
    using G r(3) that by (simp add: target_set_def)
  moreover have "consistent_on ?S r" using Gw r(2,3) by (simp add: consistent_on_def frame_def)
  ultimately show ?thesis using r(1,2) by blast
qed

theorem loop_repairs:
  assumes ok: "ok s" and rk: "ranked (scope v w bs cs) s rank"
    and cl: "child_closed (scope v w bs cs) s" and co: "consistent_on (- scope v w bs cs) s"
  shows "\<exists>r c. repeat_until_stable (pass v w bs cs) acc s = Some (r, c) \<and> frame s r \<and>
           consistent_on UNIV r \<and> (\<forall>n. n \<notin> scope v w bs cs \<longrightarrow> (n \<in> flags r \<longleftrightarrow> n \<in> flags s))"
proof -
  let ?S = "scope v w bs cs"
  obtain r c where r: "repeat_until_stable (pass v w bs cs) acc s = Some (r, c)" "frame s r" "consistent_on ?S r"
    and out: "\<And>n. n \<notin> ?S \<Longrightarrow> n \<in> flags r \<longleftrightarrow> n \<in> flags s"
    using loop_settles[OF ok rk] by blast
  have "consistent_on (- ?S) r"
    using outside_unchanged[OF cl r(2) out] co out r(2)
    unfolding consistent_on_def frame_def by auto
  then have "consistent_on UNIV r" using r(3)
    unfolding consistent_on_def by blast
  with r out show ?thesis by blast
qed

text \<open>Under an acyclic parent relation the fixed point is unique.\<close>

theorem fixed_point_unique:
  assumes "ranked UNIV s rank" "consistent_on UNIV s"
    and "T \<subseteq> rows s" "\<forall>n\<in>rows s. n \<in> T \<longleftrightarrow> wants s T n"
  shows "flags s = T"
proof -
  have "n \<in> flags s \<longleftrightarrow> n \<in> T" for n
  proof (induction "rank n" arbitrary: n rule: less_induct)
    case (less m)
    show ?case
    proof (cases "m \<in> rows s")
      case True
      have "p \<in> flags s \<longleftrightarrow> p \<in> T" if "p \<in> par s m" for p
      proof (cases "p \<in> rows s")
        case pr: True
        then have "rank p < rank m" using assms(1) True that unfolding ranked_def by blast
        then show ?thesis by (rule less)
      next
        case False
        then show ?thesis using flags_rows assms(3) by blast
      qed
      then have "flags s \<inter> par s m = T \<inter> par s m" by blast
      then have "wants s (flags s) m = wants s T m" by (rule wants_cong)
      then show ?thesis using True assms(2,4) unfolding consistent_on_def by blast
    next
      case False
      then show ?thesis using flags_rows assms(3) by blast
    qed
  qed
  then show ?thesis by blast
qed

text \<open>Every consistent table contains the least fixed point.\<close>

lemma least_below:
  assumes "consistent_on UNIV s"
  shows "lfp (\<lambda>X. {n \<in> rows s. wants s X n}) \<subseteq> flags s"
  by (rule lfp_lowerbound) (use assms in \<open>auto simp: consistent_on_def\<close>)

end

subsection \<open>The mark-only loop\<close>

context flag_engine
begin

definition supported :: "'s \<Rightarrow> bool" where
  "supported s \<longleftrightarrow> (\<forall>n\<in>flags s. wants s (flags s) n)"

definition marked_on :: "'n set \<Rightarrow> 's \<Rightarrow> bool" where
  "marked_on S s \<longleftrightarrow> (\<forall>n\<in>S \<inter> rows s. wants s (flags s) n \<longrightarrow> n \<in> flags s)"

definition mark_run :: "'k \<Rightarrow> string list list \<Rightarrow> 's \<Rightarrow> 's \<times> nat" where
  "mark_run w bs s = mark_batches (mark w) bs s"

lemma mark_run_Cons:
  "mark_run w (b # bs) s = (s', c) \<longleftrightarrow> (\<exists>s1 c1 c2. mark w b s = (s1, c1) \<and>
     mark_run w bs s1 = (s', c2) \<and> c = c1 + c2)"
  by (auto simp: mark_run_def Let_def split: prod.splits)

lemma mark_supported:
  assumes "ok s" "mark w b s = (s1, c)" "supported s"
  shows "supported s1"
proof -
  have fl: "flags s1 = flags s \<union> {n \<in> batch_nodes w b. n \<in> rows s \<and> wants s (flags s) n}"
    using mark_flags[OF assms(1,2)] by (simp add: batch_nodes_def)
  have "wants s (flags s1) n" if "n \<in> flags s1" for n
  proof -
    have "wants s (flags s) n" using that fl assms(3) unfolding supported_def by blast
    then show ?thesis by (rule wants_mono) (use fl in blast)
  qed
  then show ?thesis using mark_ok[OF assms(1,2)] by (simp add: supported_def)
qed

lemma mark_run_step:
  assumes "ok s" "mark_run w bs s = (s', c)"
  shows "frame s s' \<and> flags s \<subseteq> flags s' \<and> flags s' \<subseteq> flags s \<union> nodes_of w bs \<and>
     (supported s \<longrightarrow> supported s') \<and> (c = 0 \<longleftrightarrow> flags s' = flags s) \<and>
     (c = 0 \<longrightarrow> marked_on (nodes_of w bs) s)"
  using assms
proof (induction bs arbitrary: s c)
  case Nil
  then show ?case by (simp add: mark_run_def nodes_of_def frame_def marked_on_def)
next
  case (Cons b bs)
  obtain s1 c1 c2 where st: "mark w b s = (s1, c1)" "mark_run w bs s1 = (s', c2)" "c = c1 + c2"
    using Cons.prems(2) by (auto simp: mark_run_Cons)
  have f1: "frame s s1" using mark_frame[OF Cons.prems(1) st(1)] .
  then have ok1: "ok s1" by (simp add: frame_def)
  note IH = Cons.IH[OF ok1 st(2)]
  have fl: "flags s1 = flags s \<union> {n \<in> batch_nodes w b. n \<in> rows s \<and> wants s (flags s) n}"
    using mark_flags[OF Cons.prems(1) st(1)] by (simp add: batch_nodes_def)
  have cn: "c1 = 0 \<longleftrightarrow> flags s1 = flags s" using mark_count[OF Cons.prems(1) st(1)] .
  have nc: "nodes_of w (b # bs) = batch_nodes w b \<union> nodes_of w bs"
    by (simp add: nodes_of_def)
  have fr: "frame s s'" using frame_trans[OF f1] IH by blast
  have sub: "flags s \<subseteq> flags s'" "flags s' \<subseteq> flags s \<union> nodes_of w (b # bs)"
    using fl IH unfolding nc by blast+
  have sup: "supported s \<longrightarrow> supported s'"
    using mark_supported[OF Cons.prems(1) st(1)] IH by blast
  have cz: "c = 0 \<longleftrightarrow> flags s' = flags s"
    using st(3) cn IH fl by auto
  have "marked_on (nodes_of w (b # bs)) s" if "c = 0"
  proof -
    have z: "flags s1 = flags s" "marked_on (nodes_of w bs) s1" using that st(3) cn IH by auto
    then have "marked_on (nodes_of w bs) s" using f1 by (simp add: marked_on_def frame_def)
    then show ?thesis using z(1) fl unfolding nc marked_on_def by blast
  qed
  with fr sub sup cz show ?case by blast
qed

definition mark_pass2 :: "'k \<Rightarrow> 'k \<Rightarrow> string list list \<Rightarrow> string list list \<Rightarrow> 's \<Rightarrow> 's \<times> nat" where
  "mark_pass2 v w bs cs s = (let (s1, n1) = mark_run v bs s; (s2, n2) = mark_run w cs s1 in (s2, n1 + n2))"

lemma mark_pass2_step:
  assumes "ok s" "mark_pass2 v w bs cs s = (s', c)"
  shows "frame s s' \<and> flags s \<subseteq> flags s' \<and> flags s' \<subseteq> flags s \<union> scope v w bs cs \<and>
     (supported s \<longrightarrow> supported s') \<and> (c = 0 \<longleftrightarrow> flags s' = flags s) \<and>
     (c = 0 \<longrightarrow> marked_on (scope v w bs cs) s)"
proof -
  obtain s1 n1 n2 where st: "mark_run v bs s = (s1, n1)" "mark_run w cs s1 = (s', n2)" "c = n1 + n2"
    using assms(2) by (auto simp: mark_pass2_def Let_def split: prod.splits)
  note r1 = mark_run_step[OF assms(1) st(1)]
  then have ok1: "ok s1" by (simp add: frame_def)
  note r2 = mark_run_step[OF ok1 st(2)]
  have fr: "frame s s'" using r1 r2 frame_trans by blast
  have cz: "c = 0 \<longleftrightarrow> flags s' = flags s" using r1 r2 st(3) by auto
  have "marked_on (scope v w bs cs) s" if "c = 0"
  proof -
    have "marked_on (nodes_of v bs) s" "marked_on (nodes_of w cs) s1" "flags s1 = flags s" "frame s s1"
      using that st(3) r1 r2 by auto
    then show ?thesis unfolding marked_on_def scope_def frame_def by auto
  qed
  with r1 r2 fr cz show ?thesis unfolding scope_def by blast
qed

theorem mark_loop_ends:
  assumes "ok s"
  shows "\<exists>r c. repeat_until_stable (mark_pass2 v w bs cs) acc s = Some (r, c) \<and> frame s r \<and>
     flags s \<subseteq> flags r \<and> flags r \<subseteq> flags s \<union> scope v w bs cs \<and>
     (supported s \<longrightarrow> supported r) \<and> marked_on (scope v w bs cs) r"
  using assms
proof (induction "card (rows s - flags s)" arbitrary: s acc rule: less_induct)
  case less
  obtain s1 c where p: "mark_pass2 v w bs cs s = (s1, c)" by fastforce
  note st = mark_pass2_step[OF less.prems p]
  show ?case
  proof (cases "c = 0")
    case True
    then have "marked_on (scope v w bs cs) s1"
      using st by (simp add: marked_on_def frame_def)
    with True p st show ?thesis
      by (subst repeat_until_stable.simps) (simp add: Let_def)
  next
    case False
    have e: "repeat_until_stable (mark_pass2 v w bs cs) acc s =
        repeat_until_stable (mark_pass2 v w bs cs) (acc + c) s1"
      using p False by (subst repeat_until_stable.simps) (simp add: Let_def)
    have ok1: "ok s1" and rows1: "rows s1 = rows s" using st by (simp_all add: frame_def)
    have "flags s \<subset> flags s1" using st False by blast
    then have "rows s1 - flags s1 \<subset> rows s - flags s"
      using flags_rows[of s1] rows1 by auto
    then have "card (rows s1 - flags s1) < card (rows s - flags s)"
      using finite_rows by (intro psubset_card_mono) auto
    from less.hyps[OF this ok1, of "acc + c"] obtain r c' where
      r: "repeat_until_stable (mark_pass2 v w bs cs) (acc + c) s1 = Some (r, c')" "frame s1 r"
        "flags s1 \<subseteq> flags r" "flags r \<subseteq> flags s1 \<union> scope v w bs cs"
        "supported s1 \<longrightarrow> supported r" "marked_on (scope v w bs cs) r" by blast
    have "frame s r" using frame_trans st r(2) by blast
    moreover have "flags s \<subseteq> flags r" "flags r \<subseteq> flags s \<union> scope v w bs cs" using r st by blast+
    ultimately show ?thesis using e r st by auto
  qed
qed

text \<open>
  A set the mark loop may be run on: a row outside is flagged already, or can
  never want the flag, or has no parent inside.
\<close>

definition mark_scope :: "'n set \<Rightarrow> 's \<Rightarrow> bool" where
  "mark_scope S s \<longleftrightarrow> (\<forall>n\<in>rows s - S. n \<in> flags s \<or> (\<forall>F. \<not> wants s F n) \<or>
     par s n \<inter> S \<inter> rows s = {})"

lemma child_closed_mark_scope: "child_closed S s \<Longrightarrow> mark_scope S s"
  unfolding child_closed_def mark_scope_def by blast

theorem mark_loop_repairs:
  assumes ok: "ok s" and sup: "supported s" and cl: "mark_scope (scope v w bs cs) s"
    and mo: "marked_on (- scope v w bs cs) s"
  shows "\<exists>r c. repeat_until_stable (mark_pass2 v w bs cs) acc s = Some (r, c) \<and> frame s r \<and>
     consistent_on UNIV r \<and> (\<forall>n. n \<notin> scope v w bs cs \<longrightarrow> (n \<in> flags r \<longleftrightarrow> n \<in> flags s))"
proof -
  let ?S = "scope v w bs cs"
  obtain r c where r: "repeat_until_stable (mark_pass2 v w bs cs) acc s = Some (r, c)" "frame s r"
    "flags s \<subseteq> flags r" "flags r \<subseteq> flags s \<union> ?S" "supported r" "marked_on ?S r"
    using mark_loop_ends[OF ok] sup by blast
  have out: "n \<in> flags r \<longleftrightarrow> n \<in> flags s" if "n \<notin> ?S" for n using r(3,4) that by blast
  have fr: "rows r = rows s" "wants r = wants s" "par r = par s" using r(2) by (simp_all add: frame_def)
  have "n \<in> flags r" if n: "n \<in> rows s" "n \<notin> ?S" and w: "wants s (flags r) n" for n
  proof (cases "n \<in> flags s")
    case True
    then show ?thesis using r(3) by blast
  next
    case False
    then have np: "par s n \<inter> ?S \<inter> rows s = {}" using cl n w unfolding mark_scope_def by blast
    have "flags r \<inter> par s n = flags s \<inter> par s n"
      using np out flags_rows[of r] flags_rows[of s] fr by blast
    then have "wants s (flags s) n" using w wants_cong by blast
    then show ?thesis using mo n out unfolding marked_on_def by blast
  qed
  then have "consistent_on UNIV r"
    using r(5,6) fr unfolding consistent_on_def supported_def marked_on_def
    by (metis Int_iff UNIV_I)
  with r out show ?thesis by blast
qed

lemma mark_run_consistent:
  assumes "ok s" "marked_on UNIV s" "mark_run w bs s = (s', c)"
  shows "c = 0"
  using assms
proof (induction bs arbitrary: s c)
  case (Cons b bs)
  obtain s1 c1 c2 where st: "mark w b s = (s1, c1)" "mark_run w bs s1 = (s', c2)" "c = c1 + c2"
    using Cons.prems(3) by (auto simp: mark_run_Cons)
  have f1: "frame s s1" using mark_frame[OF Cons.prems(1) st(1)] .
  then have fr: "ok s1" "rows s1 = rows s" "wants s1 = wants s" by (simp_all add: frame_def)
  have e1: "flags s1 = flags s"
    using mark_flags[OF Cons.prems(1) st(1)] Cons.prems(2) unfolding marked_on_def by auto
  then have "c1 = 0" using mark_count[OF Cons.prems(1) st(1)] by simp
  moreover have "c2 = 0"
    by (rule Cons.IH[OF fr(1) _ st(2)]) (use Cons.prems(2) e1 fr in \<open>simp add: marked_on_def\<close>)
  ultimately show ?case using st(3) by simp
qed (simp add: mark_run_def)

lemma mark_loop_consistent:
  assumes ok: "ok s" and co: "consistent_on UNIV s"
  shows "\<exists>r c. repeat_until_stable (mark_pass2 v w bs cs) acc s = Some (r, c) \<and> frame s r \<and>
     consistent_on UNIV r"
proof -
  have mo: "marked_on UNIV s" using co by (simp add: consistent_on_def marked_on_def)
  obtain s1 n1 s2 n2 where st: "mark_run v bs s = (s1, n1)" "mark_run w cs s1 = (s2, n2)" by fastforce
  note r1 = mark_run_step[OF ok st(1)]
  have z1: "n1 = 0" using mark_run_consistent[OF ok mo st(1)] .
  then have e1: "flags s1 = flags s" "frame s s1" using r1 by auto
  then have ok1: "ok s1" and mo1: "marked_on UNIV s1"
    using mo by (simp_all add: frame_def marked_on_def)
  have z2: "n2 = 0" using mark_run_consistent[OF ok1 mo1 st(2)] .
  note r2 = mark_run_step[OF ok1 st(2)]
  have e2: "flags s2 = flags s" "frame s s2" using r2 z2 e1 frame_trans by auto
  have "mark_pass2 v w bs cs s = (s2, 0)" using st z1 z2 by (simp add: mark_pass2_def)
  then have "repeat_until_stable (mark_pass2 v w bs cs) acc s = Some (s2, acc + 0)"
    by (subst repeat_until_stable.simps) simp
  moreover have "consistent_on UNIV s2" using co e2 by (simp add: consistent_on_def frame_def)
  ultimately show ?thesis using e2(2) by blast
qed

end

end
