(* ===== verification/BlockedSpec.thy ===== *)
theory BlockedSpec
  imports FlagEngine
begin

text \<open>
  What \<^verbatim>\<open>is_blocked\<close> means and that the recompute loops establish it: the view of
  a database as a set of flagged nodes (kind, id), the interpretation of the
  flag-engine contract by the UPDATE templates, the inductive specification of
  blocked work, and consistency of the stored column.
\<close>

type_synonym node = "bool \<times> string"

definition nodes :: "db \<Rightarrow> node set" where
  "nodes s = {(w, x). x \<in> ID ` set (issue_table w s)}"

definition flagged :: "db \<Rightarrow> node set" where
  "flagged s = {(w, x). \<exists>r\<in>set (issue_table w s). ID r = x \<and> IsBlocked r}"

definition active_node :: "db \<Rightarrow> node \<Rightarrow> bool" where
  "active_node s n = (\<exists>r\<in>set (issue_table (fst n) s). ID r = snd n \<and> active_status (Status r))"

definition parents :: "db \<Rightarrow> node \<Rightarrow> node set" where
  "parents s n = {(v, p). \<exists>d\<in>set (dep_table (fst n) s).
     issue_id d = snd n \<and> dtype d = DepParentChild \<and> targets d v p}"

definition own_reason :: "env \<Rightarrow> db \<Rightarrow> node \<Rightarrow> bool" where
  "own_reason e s n = (hard_blocked s (dep_table (fst n) s) (snd n) \<or>
     waits_blocked e s (dep_table (fst n) s) (snd n))"

definition wants :: "env \<Rightarrow> db \<Rightarrow> node set \<Rightarrow> node \<Rightarrow> bool" where
  "wants e s F n = (active_node s n \<and> (own_reason e s n \<or> F \<inter> parents s n \<noteq> {}))"

text \<open>The specification: a row is blocked by its own reasons or by a blocked parent.\<close>

inductive must_block :: "env \<Rightarrow> db \<Rightarrow> node \<Rightarrow> bool" for e s where
  own: "active_node s n \<Longrightarrow> own_reason e s n \<Longrightarrow> must_block e s n"
| inherited: "active_node s n \<Longrightarrow> p \<in> parents s n \<Longrightarrow> must_block e s p \<Longrightarrow> must_block e s n"

inductive_cases must_blockE [elim]: "must_block e s n"

text \<open>Consistency of the stored column, row by row.\<close>

definition blocked_consistent :: "env \<Rightarrow> db \<Rightarrow> bool" where
  "blocked_consistent e s = (\<forall>w. \<forall>r\<in>set (issue_table w s).
     IsBlocked r \<longleftrightarrow> active_status (Status r) \<and> shouldBeBlocked e s w (ID r))"

text \<open>A database with its flags erased: all that a recompute may not touch.\<close>

definition erase_rows :: "issue_row list \<Rightarrow> issue_row list" where
  "erase_rows rows = map (\<lambda>r. r\<lparr>IsBlocked := False\<rparr>) rows"

definition erase :: "db \<Rightarrow> db" where
  "erase s = s\<lparr>t_issues := erase_rows (t_issues s), t_wisps := erase_rows (t_wisps s)\<rparr>"

definition same_but_flags :: "db \<Rightarrow> db \<Rightarrow> bool" where
  "same_but_flags s s' = (erase s' = erase s)"

lemma same_but_flags_refl [simp]: "same_but_flags s s"
  by (simp add: same_but_flags_def)

lemma same_but_flags_trans:
  "same_but_flags s t \<Longrightarrow> same_but_flags t u \<Longrightarrow> same_but_flags s u"
  by (simp add: same_but_flags_def)

lemma issue_table_erase: "issue_table w (erase s) = erase_rows (issue_table w s)"
  by (simp add: issue_table_def erase_def)

lemma dep_table_erase: "dep_table w (erase s) = dep_table w s"
  by (simp add: dep_table_def erase_def)

lemma bex_erase_rows:
  "(\<exists>r\<in>set (erase_rows rows). P r) \<longleftrightarrow> (\<exists>r\<in>set rows. P (r\<lparr>IsBlocked := False\<rparr>))"
  by (simp add: erase_rows_def)

lemma ids_erase_rows: "map ID (erase_rows rows) = map ID rows"
  by (simp add: erase_rows_def)

lemma erase_views:
  "nodes (erase s) = nodes s" "active_node (erase s) = active_node s"
  "parents (erase s) = parents s" "wf_db (erase s) = wf_db s"
proof -
  have "set (map ID (issue_table w (erase s))) = set (map ID (issue_table w s))" for w
    by (simp only: issue_table_erase ids_erase_rows)
  then show "nodes (erase s) = nodes s" by (simp add: nodes_def)
  show "active_node (erase s) = active_node s"
    by (rule ext) (simp add: active_node_def issue_table_erase bex_erase_rows)
  show "parents (erase s) = parents s"
    by (rule ext) (simp add: parents_def dep_table_erase)
  show "wf_db (erase s) = wf_db s"
    by (simp add: wf_db_def issue_table_erase ids_erase_rows)
qed

lemma erase_tables:
  "t_issues (erase s) = erase_rows (t_issues s)" "t_wisps (erase s) = erase_rows (t_wisps s)"
  "t_deps (erase s) = t_deps s" "t_wisp_deps (erase s) = t_wisp_deps s"
  by (simp_all add: erase_def)

lemma erase_reasons:
  "hard_blocked (erase s) = hard_blocked s" "waits_blocked e (erase s) = waits_blocked e s"
  "own_reason e (erase s) = own_reason e s"
proof -
  have h: "hard_blocked (erase s) deps x = hard_blocked s deps x" for deps x
    by (simp add: hard_blocked_def joined_target_def erase_tables bex_erase_rows)
  have sc: "spawned_child (erase s) d p = spawned_child s d p" for d p
    by (simp add: spawned_child_def erase_tables bex_erase_rows)
  have w: "waits_blocked e (erase s) deps x = waits_blocked e s deps x" for deps x
    by (simp add: waits_blocked_def waitsForGateBlocked_def sc)
  show "hard_blocked (erase s) = hard_blocked s" "waits_blocked e (erase s) = waits_blocked e s"
    by (intro ext h w)+
  then show "own_reason e (erase s) = own_reason e s"
    by (intro ext) (simp add: own_reason_def dep_table_erase)
qed

lemma same_but_flags_views:
  assumes "same_but_flags s s'"
  shows "nodes s' = nodes s" "wants e s' = wants e s" "parents s' = parents s"
    "wf_db s' = wf_db s" "dep_table w s' = dep_table w s" "active_node s' = active_node s"
    "own_reason e s' = own_reason e s"
proof -
  have e: "erase s' = erase s" using assms by (simp add: same_but_flags_def)
  show n: "nodes s' = nodes s" "parents s' = parents s" "wf_db s' = wf_db s"
    "active_node s' = active_node s" "own_reason e s' = own_reason e s"
    using erase_views[of s] erase_views[of s'] erase_reasons(3)[of e s] erase_reasons(3)[of e s'] e
    by simp_all
  show "dep_table w s' = dep_table w s" using dep_table_erase e by metis
  show "wants e s' = wants e s" using n by (intro ext) (simp add: wants_def)
qed

subsection \<open>Rows and nodes\<close>

lemma row_active:
  assumes "wf_db s" "r \<in> set (issue_table w s)"
  shows "active_node s (w, ID r) \<longleftrightarrow> active_status (Status r)"
  using assms distinct_key_eq[OF wf_db_table[OF assms(1)]] by (auto simp: active_node_def)

lemma row_flagged:
  assumes "wf_db s" "r \<in> set (issue_table w s)"
  shows "(w, ID r) \<in> flagged s \<longleftrightarrow> IsBlocked r"
  using assms distinct_key_eq[OF wf_db_table[OF assms(1)]] by (auto simp: flagged_def)

lemma parent_blocked_flagged:
  "parent_blocked s (dep_table w s) x \<longleftrightarrow> flagged s \<inter> parents s (w, x) \<noteq> {}"
proof -
  have "joined_target s d IsBlocked \<longleftrightarrow> (\<exists>v p. targets d v p \<and> (v, p) \<in> flagged s)" for d
    by (auto simp: joined_target_def flagged_def issue_table_def targets_def split: if_splits)
  then show ?thesis
    unfolding parent_blocked_def parents_def by fastforce
qed

lemma shouldBeBlocked_wants:
  assumes "wf_db s" "r \<in> set (issue_table w s)"
  shows "wants e s (flagged s) (w, ID r) \<longleftrightarrow>
     active_status (Status r) \<and> shouldBeBlocked e s w (ID r)"
  using row_active[OF assms] parent_blocked_flagged[of s w "ID r"]
  by (auto simp: wants_def shouldBeBlocked_def own_reason_def)

lemma nodes_iff: "(w, x) \<in> nodes s \<longleftrightarrow> (\<exists>r\<in>set (issue_table w s). ID r = x)"
  by (auto simp: nodes_def)

lemma wants_node: "wants e s F n \<Longrightarrow> n \<in> nodes s"
  by (cases n) (auto simp: wants_def active_node_def nodes_def)

subsection \<open>The templates keep the contract\<close>

definition mark_kind :: "env \<Rightarrow> bool \<Rightarrow> string list \<Rightarrow> db \<Rightarrow> db \<times> nat" where
  "mark_kind e w = (if w then markBlockedForWisps e else markBlockedForIssues e)"

definition unmark_kind :: "env \<Rightarrow> bool \<Rightarrow> string list \<Rightarrow> db \<Rightarrow> db \<times> nat" where
  "unmark_kind e w = (if w then unmarkBlockedForWisps e else unmarkBlockedForIssues e)"

definition set_flags :: "bool \<Rightarrow> (issue_row \<Rightarrow> bool) \<Rightarrow> bool \<Rightarrow> db \<Rightarrow> db \<times> nat" where
  "set_flags b p w s =
    (let (rows, n) = update_where p (\<lambda>i. i\<lparr>IsBlocked := b\<rparr>) (issue_table w s)
     in (set_issue_table w rows s, n))"

lemma mark_kind_eq:
  "mark_kind e w ids s = set_flags True (\<lambda>i. ID i \<in> set ids \<and> \<not> IsBlocked i \<and>
     active_status (Status i) \<and> shouldBeBlocked e s w (ID i)) w s"
proof -
  have u: "(\<lambda>i. i\<lparr>IsBlocked := True, UpdatedAt := UpdatedAt i\<rparr>) = (\<lambda>i :: issue_row. i\<lparr>IsBlocked := True\<rparr>)"
    by (rule ext) simp
  show ?thesis
    by (cases w) (simp_all add: mark_kind_def markBlockedForWisps_def markBlockedForIssues_def
        set_flags_def shouldBeBlocked_def active_status_def issue_table_def set_issue_table_def
        dep_table_def u conj_assoc)
qed

lemma unmark_kind_eq:
  "unmark_kind e w ids s = set_flags False (\<lambda>i. ID i \<in> set ids \<and> IsBlocked i \<and>
     \<not> (active_status (Status i) \<and> shouldBeBlocked e s w (ID i))) w s"
proof -
  have u: "(\<lambda>i. i\<lparr>IsBlocked := False, UpdatedAt := UpdatedAt i\<rparr>) = (\<lambda>i :: issue_row. i\<lparr>IsBlocked := False\<rparr>)"
    by (rule ext) simp
  have p: "(\<lambda>i. ID i \<in> set ids \<and> IsBlocked i \<and>
            (Status i = StatusClosed \<or> Status i = StatusPinned \<or>
             (\<not> hard_blocked s deps (ID i) \<and> \<not> parent_blocked s deps (ID i) \<and>
              \<not> waits_blocked e s deps (ID i)))) =
        (\<lambda>i. ID i \<in> set ids \<and> IsBlocked i \<and> \<not> (active_status (Status i) \<and>
          (hard_blocked s deps (ID i) \<or> parent_blocked s deps (ID i) \<or> waits_blocked e s deps (ID i))))" for deps
    by (rule ext) (auto simp: active_status_def)
  show ?thesis
    by (cases w) (simp_all add: unmark_kind_def unmarkBlockedForWisps_def unmarkBlockedForIssues_def
        set_flags_def shouldBeBlocked_def issue_table_def set_issue_table_def dep_table_def u p)
qed

lemma erase_set_issue_table:
  "erase_rows rows = erase_rows (issue_table w s) \<Longrightarrow> erase (set_issue_table w rows s) = erase s"
  by (cases w) (simp_all add: erase_def set_issue_table_def issue_table_def)

lemma set_flags_same: "set_flags b p w s = (s', c) \<Longrightarrow> same_but_flags s s'"
proof -
  assume a: "set_flags b p w s = (s', c)"
  have "erase_rows (fst (update_where p (\<lambda>i. i\<lparr>IsBlocked := b\<rparr>) rows)) = erase_rows rows" for rows
    by (simp add: update_where_def erase_rows_def)
  with a show ?thesis
    unfolding set_flags_def same_but_flags_def Let_def
    by (auto split: prod.splits intro!: erase_set_issue_table) (metis fst_conv)
qed

lemma set_flags_tables:
  assumes "set_flags b p w s = (s', c)"
  shows "issue_table w s' = map (\<lambda>r. if p r then r\<lparr>IsBlocked := b\<rparr> else r) (issue_table w s)"
    "v \<noteq> w \<Longrightarrow> issue_table v s' = issue_table v s"
    "c = length (filter p (issue_table w s))"
  using assms by (auto simp: set_flags_def Let_def update_where_def)

lemma set_flags_flagged:
  assumes "set_flags b p w s = (s', c)"
  shows "(v, x) \<in> flagged s' \<longleftrightarrow>
     (if v = w then \<exists>r\<in>set (issue_table w s). ID r = x \<and> (if p r then b else IsBlocked r)
      else (v, x) \<in> flagged s)"
proof (cases "v = w")
  case True
  have "(\<exists>r\<in>set (map (\<lambda>r. if p r then r\<lparr>IsBlocked := b\<rparr> else r) rows). ID r = x \<and> IsBlocked r) \<longleftrightarrow>
        (\<exists>r\<in>set rows. ID r = x \<and> (if p r then b else IsBlocked r))" for rows
    by (induction rows) auto
  then show ?thesis
    using True set_flags_tables(1)[OF assms] unfolding flagged_def by (simp del: set_map)
next
  case False
  then show ?thesis using set_flags_tables(2)[OF assms False] by (simp add: flagged_def)
qed

lemma set_flags_row:
  assumes "set_flags b p w s = (s', c)" "wf_db s" "r \<in> set (issue_table w s)"
  shows "(w, ID r) \<in> flagged s' \<longleftrightarrow> (if p r then b else IsBlocked r)"
proof -
  have "(\<exists>r'\<in>set (issue_table w s). ID r' = ID r \<and> Q r') \<longleftrightarrow> Q r" for Q
    using assms(3) distinct_key_eq[OF wf_db_table[OF assms(2)]] by blast
  then show ?thesis using set_flags_flagged[OF assms(1), of w "ID r"] by simp
qed

lemma set_flags_count:
  assumes "set_flags b p w s = (s', c)" "wf_db s"
    and "\<And>r. r \<in> set (issue_table w s) \<Longrightarrow> p r \<Longrightarrow> IsBlocked r \<noteq> b"
  shows "c = 0 \<longleftrightarrow> flagged s' = flagged s"
proof
  assume "c = 0"
  then have np: "\<forall>r\<in>set (issue_table w s). \<not> p r"
    using set_flags_tables(3)[OF assms(1)] by (simp add: filter_empty_conv)
  have "n \<in> flagged s' \<longleftrightarrow> n \<in> flagged s" for n
  proof (cases n)
    case (Pair v x)
    then show ?thesis
      using set_flags_flagged[OF assms(1), of v x] np by (auto simp: flagged_def)
  qed
  then show "flagged s' = flagged s" by blast
next
  assume e: "flagged s' = flagged s"
  have "\<not> p r" if r: "r \<in> set (issue_table w s)" for r
  proof
    assume pr: "p r"
    have "(w, ID r) \<in> flagged s \<longleftrightarrow> IsBlocked r" using row_flagged[OF assms(2) r] .
    moreover have "(w, ID r) \<in> flagged s' \<longleftrightarrow> b"
      using set_flags_flagged[OF assms(1), of w "ID r"] r pr
        distinct_key_eq[OF wf_db_table[OF assms(2)], of _ w r] by auto
    ultimately show False using assms(3)[OF r pr] e by simp
  qed
  then show "c = 0"
    using set_flags_tables(3)[OF assms(1)] by (simp add: filter_empty_conv)
qed

lemma mark_kind_flagged:
  assumes "wf_db s" "mark_kind e w ids s = (s', c)"
  shows "flagged s' = flagged s \<union> {n \<in> Pair w ` set ids. n \<in> nodes s \<and> wants e s (flagged s) n}"
    and "c = 0 \<longleftrightarrow> flagged s' = flagged s"
proof -
  let ?p = "\<lambda>i. ID i \<in> set ids \<and> \<not> IsBlocked i \<and> active_status (Status i) \<and> shouldBeBlocked e s w (ID i)"
  have m: "set_flags True ?p w s = (s', c)" using assms(2) by (simp add: mark_kind_eq)
  show "c = 0 \<longleftrightarrow> flagged s' = flagged s"
    by (rule set_flags_count[OF m assms(1)]) simp
  have "(v, x) \<in> flagged s' \<longleftrightarrow> (v, x) \<in> flagged s \<or>
      v = w \<and> x \<in> set ids \<and> (v, x) \<in> nodes s \<and> wants e s (flagged s) (v, x)" for v x
  proof (cases "v = w \<and> (\<exists>r\<in>set (issue_table w s). ID r = x)")
    case True
    then obtain r where r: "v = w" "r \<in> set (issue_table w s)" "ID r = x" by blast
    have "(v, x) \<in> nodes s" using r by (auto simp: nodes_iff)
    then show ?thesis
      using set_flags_row[OF m assms(1) r(2)] shouldBeBlocked_wants[OF assms(1) r(2), of e]
        row_flagged[OF assms(1) r(2)] r(1,3) by auto
  next
    case False
    then show ?thesis
      using set_flags_flagged[OF m, of v x] by (auto simp: nodes_iff flagged_def)
  qed
  then show "flagged s' = flagged s \<union> {n \<in> Pair w ` set ids. n \<in> nodes s \<and> wants e s (flagged s) n}"
    by auto
qed

lemma unmark_kind_flagged:
  assumes "wf_db s" "unmark_kind e w ids s = (s', c)"
  shows "flagged s' = flagged s - {n \<in> Pair w ` set ids. \<not> wants e s (flagged s) n}"
    and "c = 0 \<longleftrightarrow> flagged s' = flagged s"
proof -
  let ?p = "\<lambda>i. ID i \<in> set ids \<and> IsBlocked i \<and> \<not> (active_status (Status i) \<and> shouldBeBlocked e s w (ID i))"
  have m: "set_flags False ?p w s = (s', c)" using assms(2) by (simp add: unmark_kind_eq)
  show "c = 0 \<longleftrightarrow> flagged s' = flagged s"
    by (rule set_flags_count[OF m assms(1)]) simp
  have "(v, x) \<in> flagged s' \<longleftrightarrow> (v, x) \<in> flagged s \<and>
      \<not> (v = w \<and> x \<in> set ids \<and> \<not> wants e s (flagged s) (v, x))" for v x
  proof (cases "v = w \<and> (\<exists>r\<in>set (issue_table w s). ID r = x)")
    case True
    then obtain r where r: "v = w" "r \<in> set (issue_table w s)" "ID r = x" by blast
    have "(v, x) \<in> nodes s" using r by (auto simp: nodes_iff)
    then show ?thesis
      using set_flags_row[OF m assms(1) r(2)] shouldBeBlocked_wants[OF assms(1) r(2), of e]
        row_flagged[OF assms(1) r(2)] r(1,3) by auto
  next
    case False
    then show ?thesis
      using set_flags_flagged[OF m, of v x] by (auto simp: flagged_def)
  qed
  then show "flagged s' = flagged s - {n \<in> Pair w ` set ids. \<not> wants e s (flagged s) n}"
    by auto
qed

lemma kind_same:
  "mark_kind e w ids s = (s', c) \<Longrightarrow> same_but_flags s s'"
  "unmark_kind e w ids s = (s', c) \<Longrightarrow> same_but_flags s s'"
  unfolding mark_kind_eq unmark_kind_eq by (rule set_flags_same, assumption)+

lemma finite_nodes: "finite (nodes s)"
proof -
  have "nodes s = (\<Union>w\<in>{True, False}. Pair w ` (ID ` set (issue_table w s)))"
    by (auto simp: nodes_def image_iff) (metis (full_types))+
  then show ?thesis by simp
qed

definition started_from :: "db \<Rightarrow> db \<Rightarrow> bool" where
  "started_from s0 s = (wf_db s \<and> same_but_flags s0 s)"

interpretation be: flag_engine Pair flagged nodes "wants e" parents "started_from s0"
  "mark_kind e" "unmark_kind e" for e s0
proof
  fix s show "finite (nodes s)" by (rule finite_nodes)
next
  fix s show "flagged s \<subseteq> nodes s" by (auto simp: flagged_def nodes_def)
next
  fix s F n G assume "wants e s F n" "F \<inter> parents s n \<subseteq> G"
  then show "wants e s G n" unfolding wants_def by blast
next
  fix s w ids s' c assume a: "started_from s0 s" "mark_kind e w ids s = (s', c)"
  show "started_from s0 s' \<and> nodes s' = nodes s \<and> wants e s' = wants e s \<and> parents s' = parents s"
    using a same_but_flags_views[OF kind_same(1)[OF a(2)]] kind_same(1)[OF a(2)]
      same_but_flags_trans by (simp add: started_from_def) blast
  show "flagged s' = flagged s \<union> {n \<in> Pair w ` set ids. n \<in> nodes s \<and> wants e s (flagged s) n}"
    using mark_kind_flagged(1) a by (simp add: started_from_def)
  show "c = 0 \<longleftrightarrow> flagged s' = flagged s"
    using mark_kind_flagged(2) a by (simp add: started_from_def)
next
  fix s w ids s' c assume a: "started_from s0 s" "unmark_kind e w ids s = (s', c)"
  show "started_from s0 s' \<and> nodes s' = nodes s \<and> wants e s' = wants e s \<and> parents s' = parents s"
    using a same_but_flags_views[OF kind_same(2)[OF a(2)]] kind_same(2)[OF a(2)]
      same_but_flags_trans by (simp add: started_from_def) blast
  show "flagged s' = flagged s - {n \<in> Pair w ` set ids. \<not> wants e s (flagged s) n}"
    using unmark_kind_flagged(1) a by (simp add: started_from_def)
  show "c = 0 \<longleftrightarrow> flagged s' = flagged s"
    using unmark_kind_flagged(2) a by (simp add: started_from_def)
qed

subsection \<open>The loops of the model are those of the engine\<close>

lemma scope_chunks:
  "be.scope False True (chunks queryBatchSize is) (chunks queryBatchSize ws) =
     Pair False ` set is \<union> Pair True ` set ws"
proof -
  have "(\<Union>b\<in>set (chunks queryBatchSize xs). Pair w ` set b) = Pair w ` set xs"
    for w :: bool and xs :: "string list"
    using arg_cong[OF concat_chunks[of queryBatchSize xs], of set]
    by (auto simp: queryBatchSize_def)
  then show ?thesis by (simp add: be.scope_def be.nodes_of_def be.batch_nodes_def)
qed

lemma chunks_Nil [simp]: "chunks n [] = []"
  by (simp add: chunks.simps)

lemma recompute_pass_engine:
  "recompute_pass e is ws = be.pass e False True (chunks queryBatchSize is) (chunks queryBatchSize ws)"
proof
  fix s
  have i: "recomputePassForIssues e is s = be.run e False (chunks queryBatchSize is) s" for s
    by (auto simp: recomputePassForIssues_def runMarkUnmarkBatched_def be.run_def mark_kind_def unmark_kind_def)
  have w: "recomputePassForWisps e ws s = be.run e True (chunks queryBatchSize ws) s" for s
    by (auto simp: recomputePassForWisps_def runMarkUnmarkBatched_def be.run_def mark_kind_def unmark_kind_def)
  show "recompute_pass e is ws s = be.pass e False True (chunks queryBatchSize is) (chunks queryBatchSize ws) s"
    unfolding recompute_pass_def be.pass_def i w ..
qed

lemma mark_pass_engine:
  "mark_pass e is ws = be.mark_pass2 e False True (chunks queryBatchSize is) (chunks queryBatchSize ws)"
proof
  fix s
  have i: "markPassForIssues e is s = be.mark_run e False (chunks queryBatchSize is) s" for s
    by (auto simp: markPassForIssues_def runMarkBatched_def be.mark_run_def mark_kind_def)
  have w: "markPassForWisps e ws s = be.mark_run e True (chunks queryBatchSize ws) s" for s
    by (auto simp: markPassForWisps_def runMarkBatched_def be.mark_run_def mark_kind_def)
  show "mark_pass e is ws s = be.mark_pass2 e False True (chunks queryBatchSize is) (chunks queryBatchSize ws) s"
    unfolding mark_pass_def be.mark_pass2_def i w ..
qed

lemma blocked_consistent_engine:
  "wf_db s \<Longrightarrow> blocked_consistent e s \<longleftrightarrow> be.consistent_on e UNIV s"
proof -
  assume wf: "wf_db s"
  have "be.consistent_on e UNIV s \<longleftrightarrow>
     (\<forall>w. \<forall>r\<in>set (issue_table w s). (w, ID r) \<in> flagged s \<longleftrightarrow> wants e s (flagged s) (w, ID r))"
    unfolding be.consistent_on_def by (auto simp: nodes_def)
  then show ?thesis
    unfolding blocked_consistent_def using row_flagged[OF wf] shouldBeBlocked_wants[OF wf] by simp
qed

subsection \<open>Acyclic parents\<close>

definition parent_edges :: "db \<Rightarrow> (node \<times> node) set" where
  "parent_edges s = {(p, n). n \<in> nodes s \<and> p \<in> nodes s \<and> p \<in> parents s n}"

definition acyclic_parents :: "db \<Rightarrow> bool" where
  "acyclic_parents s = acyclic (parent_edges s)"

lemma acyclic_rank:
  assumes "finite R" "acyclic R"
  obtains rank :: "'a \<Rightarrow> nat" where "\<And>p n. (p, n) \<in> R \<Longrightarrow> rank p < rank n"
proof
  fix p n assume e: "(p, n) \<in> R"
  have f: "finite {a. (a, n) \<in> R\<^sup>+}"
    using finite_subset[of "{a. (a, n) \<in> R\<^sup>+}" "fst ` (R\<^sup>+)"] assms(1) by force
  have "{a. (a, p) \<in> R\<^sup>+} \<subset> {a. (a, n) \<in> R\<^sup>+}"
    using e assms(2) by (auto simp: acyclic_def intro: trancl_into_trancl)
  then show "card {a. (a, p) \<in> R\<^sup>+} < card {a. (a, n) \<in> R\<^sup>+}"
    using f by (rule psubset_card_mono[rotated])
qed

lemma acyclic_parents_ranked:
  assumes "acyclic_parents s"
  obtains rank where "\<And>S. be.ranked S s rank"
proof -
  have "parent_edges s \<subseteq> nodes s \<times> nodes s" by (auto simp: parent_edges_def)
  then have "finite (parent_edges s)" using finite_nodes finite_subset by blast
  then obtain rank :: "node \<Rightarrow> nat" where r: "\<And>p n. (p, n) \<in> parent_edges s \<Longrightarrow> rank p < rank n"
    using acyclic_rank assms unfolding acyclic_parents_def by blast
  have "be.ranked S s rank" for S
    unfolding be.ranked_def using r by (auto simp: parent_edges_def)
  then show ?thesis using that by blast
qed

lemma acyclic_within_ranked:
  assumes "acyclic (parent_edges s \<inter> S \<times> S)"
  obtains rank where "be.ranked S s rank"
proof -
  have "parent_edges s \<inter> S \<times> S \<subseteq> nodes s \<times> nodes s" by (auto simp: parent_edges_def)
  then have "finite (parent_edges s \<inter> S \<times> S)" using finite_nodes finite_subset by blast
  then obtain rank :: "node \<Rightarrow> nat" where r: "\<And>p n. (p, n) \<in> parent_edges s \<inter> S \<times> S \<Longrightarrow> rank p < rank n"
    using acyclic_rank assms by blast
  have "be.ranked S s rank"
    unfolding be.ranked_def using r by (auto simp: parent_edges_def)
  then show ?thesis using that by blast
qed

lemma acyclic_by_rank:
  "(\<And>p n. (p, n) \<in> R \<Longrightarrow> (rank p :: nat) < rank n) \<Longrightarrow> acyclic R"
proof -
  assume a: "\<And>p n. (p, n) \<in> R \<Longrightarrow> rank p < rank n"
  have "(p, n) \<in> R\<^sup>+ \<Longrightarrow> rank p < rank n" for p n
    by (induction rule: trancl_induct) (use a less_trans in blast)+
  then show ?thesis unfolding acyclic_def by blast
qed

end
