(* ===== verification/BlockedThms.thy ===== *)
theory BlockedThms
  imports BlockedSpec
begin

text \<open>
  The results on the recompute and mark loops that the operations use, the
  agreement of the stored column with its inductive specification, and what
  happens on a cyclic parent relation.
\<close>

lemma wf_started: "wf_db s \<Longrightarrow> started_from s s"
  by (simp add: started_from_def)

lemma frame_started:
  "be.frame e s0 s r \<Longrightarrow> wf_db r \<and> same_but_flags s0 r"
  by (simp add: be.frame_def started_from_def)

definition scope_of :: "string list \<Rightarrow> string list \<Rightarrow> node set" where
  "scope_of is ws = Pair False ` set is \<union> Pair True ` set ws"

text \<open>
  The interface the operations use: when the listed rows are closed under
  children and every other row is right, a recompute repairs the table.
\<close>

theorem recompute_repairs:
  assumes wf: "wf_db s" and ac: "acyclic_parents s"
    and cl: "be.child_closed (scope_of is ws) s" and co: "be.consistent_on e (- scope_of is ws) s"
  shows "\<exists>r. recomputeIsBlocked e is ws s = Some r \<and> wf_db r \<and> same_but_flags s r \<and>
           blocked_consistent e r"
proof (cases "is = [] \<and> ws = []")
  case True
  then have "be.consistent_on e UNIV s" using co by (simp add: scope_of_def)
  with True show ?thesis
    using wf blocked_consistent_engine[OF wf, of e] by (simp add: recomputeIsBlocked_def)
next
  case False
  let ?bs = "chunks queryBatchSize is" and ?cs = "chunks queryBatchSize ws"
  have sc: "be.scope False True ?bs ?cs = scope_of is ws"
    by (simp add: scope_chunks scope_of_def)
  obtain rank where rk: "\<And>S. be.ranked S s rank" using acyclic_parents_ranked[OF ac] by blast
  obtain r c where r: "repeat_until_stable (be.pass e False True ?bs ?cs) 0 s = Some (r, c)"
    "be.frame e s s r" "be.consistent_on e UNIV r"
    using be.loop_repairs[OF wf_started[OF wf] rk, of False True ?bs ?cs e 0] cl co unfolding sc by blast
  have "wf_db r" "same_but_flags s r" using frame_started[OF r(2)] by auto
  moreover have "recomputeIsBlocked e is ws s = Some r"
    using False r(1) by (auto simp: recomputeIsBlocked_def recompute_pass_engine)
  ultimately show ?thesis using blocked_consistent_engine r(3) by blast
qed

text \<open>
  The recompute of any rows whose parents within the list form no cycle returns, and
  every listed row then agrees with its reasons; nothing else changes.
\<close>

lemma recompute_settles:
  assumes wf: "wf_db s" and ac: "acyclic (parent_edges s \<inter> scope_of is ws \<times> scope_of is ws)"
  shows "\<exists>r. recomputeIsBlocked e is ws s = Some r \<and> wf_db r \<and> same_but_flags s r \<and>
     be.consistent_on e (scope_of is ws) r \<and> (\<forall>n. n \<notin> scope_of is ws \<longrightarrow> (n \<in> flagged r \<longleftrightarrow> n \<in> flagged s))"
proof (cases "is = [] \<and> ws = []")
  case True
  then show ?thesis using wf by (simp add: recomputeIsBlocked_def scope_of_def be.consistent_on_def)
next
  case False
  let ?bs = "chunks queryBatchSize is" and ?cs = "chunks queryBatchSize ws"
  have sc: "be.scope False True ?bs ?cs = scope_of is ws"
    by (simp add: scope_chunks scope_of_def)
  obtain rank where rk: "be.ranked (scope_of is ws) s rank" using acyclic_within_ranked[OF ac] by blast
  obtain r c where r: "repeat_until_stable (be.pass e False True ?bs ?cs) 0 s = Some (r, c)"
    "be.frame e s s r" "be.consistent_on e (scope_of is ws) r"
    "\<And>n. n \<notin> scope_of is ws \<Longrightarrow> n \<in> flagged r \<longleftrightarrow> n \<in> flagged s"
    using be.loop_settles[OF wf_started[OF wf], of False True ?bs ?cs rank e 0] rk unfolding sc by blast
  have "wf_db r" "same_but_flags s r" using frame_started[OF r(2)] by auto
  moreover have "recomputeIsBlocked e is ws s = Some r"
    using False r(1) by (auto simp: recomputeIsBlocked_def recompute_pass_engine)
  ultimately show ?thesis using r(3,4) by blast
qed

theorem mark_repairs:
  assumes wf: "wf_db s" and sup: "be.supported e s"
    and cl: "be.mark_scope e (scope_of is ws) s" and mo: "be.marked_on e (- scope_of is ws) s"
  shows "\<exists>r. markIsBlocked e is ws s = Some r \<and> wf_db r \<and> same_but_flags s r \<and>
           blocked_consistent e r"
proof (cases "is = [] \<and> ws = []")
  case True
  then have "be.consistent_on e UNIV s"
    using mo sup unfolding be.consistent_on_def be.marked_on_def be.supported_def
    by (auto simp: scope_of_def)
  with True show ?thesis
    using wf blocked_consistent_engine[OF wf, of e] by (simp add: markIsBlocked_def)
next
  case False
  let ?bs = "chunks queryBatchSize is" and ?cs = "chunks queryBatchSize ws"
  have sc: "be.scope False True ?bs ?cs = scope_of is ws"
    by (simp add: scope_chunks scope_of_def)
  obtain r c where r: "repeat_until_stable (be.mark_pass2 e False True ?bs ?cs) 0 s = Some (r, c)"
    "be.frame e s s r" "be.consistent_on e UNIV r"
    using be.mark_loop_repairs[OF wf_started[OF wf] sup, of False True ?bs ?cs 0] cl mo unfolding sc by blast
  have "wf_db r" "same_but_flags s r" using frame_started[OF r(2)] by auto
  moreover have "markIsBlocked e is ws s = Some r"
    using False r(1) by (auto simp: markIsBlocked_def mark_pass_engine)
  ultimately show ?thesis using blocked_consistent_engine r(3) by blast
qed

lemma mark_consistent:
  assumes wf: "wf_db s" and co: "blocked_consistent e s"
  shows "\<exists>r. markIsBlocked e is ws s = Some r \<and> wf_db r \<and> same_but_flags s r \<and>
           blocked_consistent e r"
proof (cases "is = [] \<and> ws = []")
  case True
  with assms show ?thesis by (simp add: markIsBlocked_def)
next
  case False
  have "be.consistent_on e UNIV s" using blocked_consistent_engine wf co by blast
  then obtain r c where r: "repeat_until_stable (be.mark_pass2 e False True
      (chunks queryBatchSize is) (chunks queryBatchSize ws)) 0 s = Some (r, c)"
    "be.frame e s s r" "be.consistent_on e UNIV r"
    using be.mark_loop_consistent[OF wf_started[OF wf]] by blast
  have "wf_db r" "same_but_flags s r" using frame_started[OF r(2)] by auto
  moreover have "markIsBlocked e is ws s = Some r"
    using False r(1) by (auto simp: markIsBlocked_def mark_pass_engine)
  ultimately show ?thesis using blocked_consistent_engine r(3) by blast
qed

lemma mark_loop_total:
  assumes wf: "wf_db s"
  shows "\<exists>r. markIsBlocked e is ws s = Some r \<and> wf_db r \<and> same_but_flags s r \<and> flagged s \<subseteq> flagged r \<and>
     flagged r \<subseteq> flagged s \<union> scope_of is ws \<and>
     (\<forall>n\<in>scope_of is ws. wants e r (flagged r) n \<longrightarrow> n \<in> flagged r)"
proof (cases "is = [] \<and> ws = []")
  case True
  then show ?thesis using wf by (simp add: markIsBlocked_def scope_of_def)
next
  case False
  let ?bs = "chunks queryBatchSize is" and ?cs = "chunks queryBatchSize ws"
  have sc: "be.scope False True ?bs ?cs = scope_of is ws"
    by (simp add: scope_chunks scope_of_def)
  obtain r c where r: "repeat_until_stable (be.mark_pass2 e False True ?bs ?cs) 0 s = Some (r, c)"
    "be.frame e s s r" "flagged s \<subseteq> flagged r" "flagged r \<subseteq> flagged s \<union> scope_of is ws"
    "be.marked_on e (scope_of is ws) r"
    using be.mark_loop_ends[OF wf_started[OF wf], of e False True ?bs ?cs 0] unfolding sc by blast
  have "wf_db r" "same_but_flags s r" using frame_started[OF r(2)] by auto
  moreover have "markIsBlocked e is ws s = Some r"
    using False r(1) by (auto simp: markIsBlocked_def mark_pass_engine)
  moreover have "\<forall>n\<in>scope_of is ws. wants e r (flagged r) n \<longrightarrow> n \<in> flagged r"
    using r(5) wants_node unfolding be.marked_on_def by blast
  ultimately show ?thesis using r(3,4) by blast
qed

subsection \<open>The specification\<close>

lemma must_block_fixed:
  "n \<in> {n. must_block e s n} \<longleftrightarrow> wants e s {n. must_block e s n} n"
  unfolding wants_def by (auto intro: must_block.intros)

lemma must_block_node: "must_block e s n \<Longrightarrow> n \<in> nodes s"
proof -
  assume "must_block e s n"
  then have "active_node s n" by (auto elim: must_block.cases)
  then show "n \<in> nodes s" by (cases n) (auto simp: active_node_def nodes_def)
qed

lemma must_block_flagged:
  assumes wf: "wf_db s" and co: "blocked_consistent e s" and mb: "must_block e s n"
  shows "n \<in> flagged s"
proof -
  have c: "be.consistent_on e UNIV s" using blocked_consistent_engine wf co by blast
  have "n \<in> nodes s \<Longrightarrow> wants e s (flagged s) n \<Longrightarrow> n \<in> flagged s" for n
    using c by (auto simp: be.consistent_on_def)
  then have key: "wants e s (flagged s) n \<Longrightarrow> n \<in> flagged s" for n
    using wants_node by blast
  show ?thesis using mb
    by (induction rule: must_block.induct) (rule key, auto simp: wants_def)+
qed

lemma flagged_must_block:
  assumes wf: "wf_db s" and ac: "acyclic_parents s" and co: "blocked_consistent e s"
  shows "flagged s = {n. must_block e s n}"
proof -
  obtain rank where rk: "\<And>S. be.ranked S s rank" using acyclic_parents_ranked[OF ac] by blast
  show ?thesis
  proof (rule be.fixed_point_unique)
    show "be.ranked UNIV s rank" by (rule rk)
    show "be.consistent_on e UNIV s" using blocked_consistent_engine wf co by blast
  qed (use must_block_node must_block_fixed in blast)+
qed

lemma must_block_same:
  assumes "same_but_flags s s'"
  shows "must_block e s' = must_block e s"
proof -
  note v = same_but_flags_views[OF assms]
  have "must_block e s' n \<Longrightarrow> must_block e s n" for n
    by (induction rule: must_block.induct) (auto simp: v intro: must_block.intros)
  moreover have "must_block e s n \<Longrightarrow> must_block e s' n" for n
    by (induction rule: must_block.induct) (auto simp: v intro: must_block.intros)
  ultimately show ?thesis by blast
qed

subsection \<open>Full repair and the count\<close>

lemma count_stale_zero:
  "countStaleIsBlocked e w s = 0 \<longleftrightarrow> (\<forall>r\<in>set (issue_table w s).
     IsBlocked r \<longleftrightarrow> active_status (Status r) \<and> shouldBeBlocked e s w (ID r))"
  unfolding countStaleIsBlocked_def active_status_def
  by (auto simp: filter_empty_conv)

lemma count_zero_consistent:
  "CountIsBlockedInconsistencies e s = 0 \<longleftrightarrow> blocked_consistent e s"
proof -
  have "(\<forall>w. P w) \<longleftrightarrow> P False \<and> P True" for P
    by (metis (full_types))
  then show ?thesis
    by (simp add: CountIsBlockedInconsistencies_def count_stale_zero blocked_consistent_def)
qed

lemma set_flags_zero: "set_flags b p w s = (s', 0) \<Longrightarrow> s' = s"
proof -
  assume "set_flags b p w s = (s', 0)"
  then have "s' = set_issue_table w (issue_table w s) s"
    using update_where_zero[of p "\<lambda>i. i\<lparr>IsBlocked := b\<rparr>" "issue_table w s"]
    by (auto simp: set_flags_def Let_def split: prod.splits)
  then show "s' = s" by (simp add: set_issue_table_def issue_table_def)
qed

lemma run_zero_same:
  "be.run e w bs s = (s', 0) \<Longrightarrow> s' = s"
proof (induction bs arbitrary: s)
  case (Cons b bs)
  then obtain s1 s2 where st: "mark_kind e w b s = (s1, 0)" "unmark_kind e w b s1 = (s2, 0)"
    "be.run e w bs s2 = (s', 0)" by (auto simp: be.run_Cons)
  then have "s1 = s" "s2 = s1"
    using set_flags_zero unfolding mark_kind_eq unmark_kind_eq by blast+
  with Cons.IH st(3) show ?case by blast
qed (simp add: be.run_def)

lemma recompute_pass_zero_same: "recompute_pass e is ws s = (s', 0) \<Longrightarrow> s' = s"
  unfolding recompute_pass_engine by (auto simp: be.pass_split dest!: run_zero_same)

lemma RecomputeAll_unfold:
  "RecomputeAllIsBlocked e s = repeat_until_stable
     (recompute_pass e (map ID (t_issues s)) (map ID (t_wisps s))) 0 s"
proof (cases "t_issues s = [] \<and> t_wisps s = []")
  case True
  then show ?thesis
    by (subst repeat_until_stable.simps)
      (simp add: RecomputeAllIsBlocked_def recomputeIsBlockedCounting_def recompute_pass_def
        recomputePassForIssues_def recomputePassForWisps_def)
qed (auto simp: RecomputeAllIsBlocked_def recomputeIsBlockedCounting_def)

lemma scope_all: "scope_of (map ID (t_issues s)) (map ID (t_wisps s)) = nodes s"
proof -
  have "n \<in> scope_of (map ID (t_issues s)) (map ID (t_wisps s)) \<longleftrightarrow> n \<in> nodes s" for n
    by (cases n; cases "fst n") (auto simp: scope_of_def nodes_def issue_table_def)
  then show ?thesis by blast
qed

lemma recompute_all:
  assumes wf: "wf_db s" and ac: "acyclic_parents s"
  shows "\<exists>r c. RecomputeAllIsBlocked e s = Some (r, c) \<and> wf_db r \<and> same_but_flags s r \<and>
     blocked_consistent e r"
proof -
  let ?is = "map ID (t_issues s)" and ?ws = "map ID (t_wisps s)"
  let ?bs = "chunks queryBatchSize ?is" and ?cs = "chunks queryBatchSize ?ws"
  have sc: "be.scope False True ?bs ?cs = nodes s"
    using scope_all[of s] unfolding scope_chunks scope_of_def .
  obtain rank where rk: "\<And>S. be.ranked S s rank" using acyclic_parents_ranked[OF ac] by blast
  have "be.child_closed (nodes s) s" "be.consistent_on e (- nodes s) s"
    by (simp_all add: be.child_closed_def be.consistent_on_def)
  then obtain r c where r: "repeat_until_stable (be.pass e False True ?bs ?cs) 0 s = Some (r, c)"
    "be.frame e s s r" "be.consistent_on e UNIV r"
    using be.loop_repairs[OF wf_started[OF wf] rk, of False True ?bs ?cs e 0] unfolding sc by blast
  have "wf_db r" "same_but_flags s r" using frame_started[OF r(2)] by auto
  then show ?thesis
    using r blocked_consistent_engine unfolding RecomputeAll_unfold recompute_pass_engine by blast
qed

lemma recompute_all_consistent:
  assumes wf: "wf_db s" and co: "blocked_consistent e s"
  shows "RecomputeAllIsBlocked e s = Some (s, 0)"
proof -
  let ?is = "map ID (t_issues s)" and ?ws = "map ID (t_wisps s)"
  obtain s1 c where p: "recompute_pass e ?is ?ws s = (s1, c)" by fastforce
  have "be.consistent_on e UNIV s" using blocked_consistent_engine[OF wf] co by blast
  then have "c = 0"
    using be.pass_consistent_zero[OF wf_started[OF wf] _ p[unfolded recompute_pass_engine]]
    by (auto simp: be.consistent_on_def)
  with p recompute_pass_zero_same have "s1 = s" "c = 0" by auto
  with p show ?thesis
    unfolding RecomputeAll_unfold by (subst repeat_until_stable.simps) simp
qed

subsection \<open>Loops that do not end\<close>

lemma loop_diverges:
  assumes "\<And>s. s \<in> C \<Longrightarrow> \<exists>s' c. pass s = (s', Suc c) \<and> s' \<in> C" and "s \<in> C"
  shows "repeat_until_stable pass acc s = None"
proof (rule ccontr)
  assume "repeat_until_stable pass acc s \<noteq> None"
  then obtain r where r: "repeat_until_stable pass acc s = Some r" by auto
  have "pass = pass \<longrightarrow> s \<notin> C"
  proof (rule repeat_until_stable.raw_induct[OF _ r, where P = "\<lambda>p a s r. p = pass \<longrightarrow> s \<notin> C"])
    fix f and p :: "'a \<Rightarrow> 'a \<times> nat" and acc s y
    assume IH: "\<And>p a s y. f p a s = Some y \<Longrightarrow> p = pass \<longrightarrow> s \<notin> C"
      and e: "(let (s1, changed) = p s in if changed = 0 then Some (s1, acc + changed)
               else f p (acc + changed) s1) = Some y"
    show "p = pass \<longrightarrow> s \<notin> C"
    proof (intro impI notI)
      assume "p = pass" "s \<in> C"
      with assms(1) obtain s' c where "pass s = (s', Suc c)" "s' \<in> C" by blast
      with e \<open>p = pass\<close> have "f pass (acc + Suc c) s' = Some y" by simp
      with IH \<open>s' \<in> C\<close> show False by blast
    qed
  qed
  with assms(2) show False by blast
qed

end
