(* ===== verification/Affected.thy ===== *)
theory Affected
  imports BlockedThms
begin

text \<open>
  Which rows a change can affect (second half of
  \<^verbatim>\<open>internal/storage/issueops/blocked_state.go\<close>): the seeds, that is the hard
  blocked dependers and the waiters on a spawner, and their expansion by
  parent-child descendants with two queues.  Index \<^verbatim>\<open>False\<close> of a pair of Go
  variables is the issue one (\<^verbatim>\<open>issueSeed\<close>, \<^verbatim>\<open>issueSeen\<close>), \<^verbatim>\<open>True\<close> the wisp one.
\<close>

record seeds =
  seed :: "bool \<Rightarrow> string list"
  seen :: "bool \<Rightarrow> string set"

text \<open>\<^verbatim>\<open>if !seen[id] { seen[id] = true; seed = append(seed, id) }\<close>\<close>

definition add_id :: "bool \<Rightarrow> string \<Rightarrow> seeds \<Rightarrow> seeds" where
  "add_id w x sd = (if x \<in> seen sd w then sd
     else \<lparr>seed = (seed sd)(w := seed sd w @ [x]), seen = (seen sd)(w := insert x (seen sd w))\<rparr>)"

definition add_ids :: "bool \<Rightarrow> string list \<Rightarrow> seeds \<Rightarrow> seeds" where
  "add_ids w xs sd = fold (add_id w) xs sd"

text \<open>\<^verbatim>\<open>SELECT issue_id FROM <table w> WHERE <column v> = x AND p(type)\<close>\<close>

definition select_sources :: "db \<Rightarrow> bool \<Rightarrow> bool \<Rightarrow> (dep_type \<Rightarrow> bool) \<Rightarrow> string \<Rightarrow> string list" where
  "select_sources s w v p x =
     map issue_id (filter (\<lambda>d. targets d v x \<and> p (dtype d)) (dep_table w s))"

definition loadBlockingDependersForIDs :: "db \<Rightarrow> bool \<Rightarrow> string list \<Rightarrow> seeds \<Rightarrow> seeds" where
  "loadBlockingDependersForIDs s v ids sd =
     fold (\<lambda>x sd. add_ids True (select_sources s True v (\<lambda>t. t = DepBlocks \<or> t = DepConditionalBlocks) x)
                  (add_ids False (select_sources s False v (\<lambda>t. t = DepBlocks \<or> t = DepConditionalBlocks) x) sd))
          ids sd"

definition loadWaitersOnSpawnerIDsByCol :: "db \<Rightarrow> bool \<Rightarrow> string list \<Rightarrow> seeds \<Rightarrow> seeds" where
  "loadWaitersOnSpawnerIDsByCol s v ids sd =
     fold (\<lambda>x sd. add_ids True (select_sources s True v (\<lambda>t. t = DepWaitsFor) x)
                  (add_ids False (select_sources s False v (\<lambda>t. t = DepWaitsFor) x) sd))
          ids sd"

definition loadWaitersOnSpawnerIDs :: "db \<Rightarrow> string list \<Rightarrow> seeds \<Rightarrow> seeds" where
  "loadWaitersOnSpawnerIDs s ids sd =
     loadWaitersOnSpawnerIDsByCol s True ids (loadWaitersOnSpawnerIDsByCol s False ids sd)"

definition the_list :: "'a option \<Rightarrow> 'a list" where
  "the_list x = (case x of None \<Rightarrow> [] | Some y \<Rightarrow> [y])"

definition loadWaitersWhoseSpawnerIsParentOf :: "db \<Rightarrow> string \<Rightarrow> bool \<Rightarrow> seeds \<Rightarrow> seeds" where
  "loadWaitersWhoseSpawnerIsParentOf s childID childIsWisp sd =
    (let rows = filter (\<lambda>d. issue_id d = childID \<and> dtype d = DepParentChild) (dep_table childIsWisp s);
         issueParentIDs = concat (map (\<lambda>d. the_list (depends_on_issue_id d)) rows);
         wispParentIDs = concat (map (\<lambda>d. the_list (depends_on_wisp_id d)) rows)
     in loadWaitersOnSpawnerIDsByCol s True wispParentIDs
          (loadWaitersOnSpawnerIDsByCol s False issueParentIDs sd))"

definition appendChildren :: "db \<Rightarrow> bool \<Rightarrow> bool \<Rightarrow> string list \<Rightarrow> seeds \<Rightarrow> seeds" where
  "appendChildren s w v parentIDs sd =
     fold (\<lambda>p sd. add_ids w (select_sources s w v (\<lambda>t. t = DepParentChild) p) sd) parentIDs sd"

text \<open>One branch of the loop body: the next batch of the queue \<^verbatim>\<open>v\<close> from \<^verbatim>\<open>head\<close> on.\<close>

definition expand_batch :: "db \<Rightarrow> bool \<Rightarrow> nat \<Rightarrow> seeds \<Rightarrow> nat \<times> seeds" where
  "expand_batch s v head sd =
    (if head < length (seed sd v) then
       (let end = (if head + queryBatchSize > length (seed sd v) then length (seed sd v)
                   else head + queryBatchSize);
            batch = drop head (take end (seed sd v))
        in (end, appendChildren s True v batch (appendChildren s False v batch sd)))
     else (head, sd))"

subsection \<open>Facts about the seeds\<close>

definition sources :: "db \<Rightarrow> string set" where
  "sources s = issue_id ` (set (t_deps s) \<union> set (t_wisp_deps s))"

text \<open>\<^verbatim>\<open>grows U sd sd'\<close>: only new ids of \<^verbatim>\<open>U\<close> were appended, and all were noted as seen.\<close>

definition weight :: "string set \<Rightarrow> seeds \<Rightarrow> bool \<Rightarrow> nat" where
  "weight U sd w = card (U - seen sd w) + length (seed sd w)"

definition grows :: "string set \<Rightarrow> seeds \<Rightarrow> seeds \<Rightarrow> bool" where
  "grows U sd sd' = (\<forall>w. (\<exists>xs. seed sd' w = seed sd w @ xs \<and> seen sd' w = seen sd w \<union> set xs \<and>
     set xs \<subseteq> U) \<and> weight U sd' w = weight U sd w)"

lemma grows_refl [simp]: "grows U sd sd"
  by (simp add: grows_def)

lemma grows_trans: "grows U a b \<Longrightarrow> grows U b c \<Longrightarrow> grows U a c"
  unfolding grows_def
proof (intro allI conjI)
  fix w
  assume ab: "\<forall>w. (\<exists>xs. seed b w = seed a w @ xs \<and> seen b w = seen a w \<union> set xs \<and> set xs \<subseteq> U) \<and>
      weight U b w = weight U a w"
    and bc: "\<forall>w. (\<exists>xs. seed c w = seed b w @ xs \<and> seen c w = seen b w \<union> set xs \<and> set xs \<subseteq> U) \<and>
      weight U c w = weight U b w"
  obtain xs ys where "seed b w = seed a w @ xs" "seen b w = seen a w \<union> set xs" "set xs \<subseteq> U"
    "seed c w = seed b w @ ys" "seen c w = seen b w \<union> set ys" "set ys \<subseteq> U"
    using ab bc by metis
  then have "seed c w = seed a w @ (xs @ ys) \<and> seen c w = seen a w \<union> set (xs @ ys) \<and> set (xs @ ys) \<subseteq> U"
    by auto
  then show "\<exists>xs. seed c w = seed a w @ xs \<and> seen c w = seen a w \<union> set xs \<and> set xs \<subseteq> U" ..
  show "weight U c w = weight U a w" using ab bc by metis
qed

lemma grows_add_id:
  assumes "finite U" "x \<in> U"
  shows "grows U sd (add_id w x sd)"
proof (cases "x \<in> seen sd w")
  case False
  have "card (U - seen sd w) = Suc (card (U - insert x (seen sd w)))"
  proof -
    have "U - seen sd w = insert x (U - insert x (seen sd w))" using False assms(2) by blast
    then show ?thesis using assms(1) by (metis DiffD2 card_insert_disjoint finite_Diff insertCI)
  qed
  then show ?thesis
    using False assms(2) by (auto simp: grows_def add_id_def weight_def)
qed (simp add: add_id_def)

lemma grows_fold:
  assumes "\<And>x sd. x \<in> set xs \<Longrightarrow> grows U sd (f x sd)"
  shows "grows U sd (fold f xs sd)"
  using assms
proof (induction xs arbitrary: sd)
  case (Cons x xs)
  have "grows U sd (f x sd)" using Cons.prems by simp
  moreover have "grows U (f x sd) (fold f xs (f x sd))" using Cons by simp
  ultimately show ?case using grows_trans by simp
qed simp

lemma finite_sources [simp]: "finite (sources s)"
  by (simp add: sources_def)

lemma select_sources_sub: "set (select_sources s w v p x) \<subseteq> sources s"
  by (auto simp: select_sources_def sources_def dep_table_def split: if_splits)

lemma grows_add_ids: "set xs \<subseteq> sources s \<Longrightarrow> grows (sources s) sd (add_ids w xs sd)"
  unfolding add_ids_def by (rule grows_fold) (auto intro!: grows_add_id)

lemma grows_pair:
  "set xs \<subseteq> sources s \<Longrightarrow> set ys \<subseteq> sources s \<Longrightarrow> grows (sources s) sd (add_ids v xs (add_ids w ys sd))"
  by (rule grows_trans) (rule grows_add_ids, assumption)+

lemma grows_load:
  "grows (sources s) sd (appendChildren s w v ids sd)"
  "grows (sources s) sd (loadBlockingDependersForIDs s v ids sd)"
  "grows (sources s) sd (loadWaitersOnSpawnerIDsByCol s v ids sd)"
  unfolding appendChildren_def loadBlockingDependersForIDs_def loadWaitersOnSpawnerIDsByCol_def
  by (rule grows_fold, intro grows_pair grows_add_ids select_sources_sub)+

lemma grows_loads:
  "grows (sources s) sd (loadWaitersOnSpawnerIDs s ids sd)"
  "grows (sources s) sd (loadWaitersWhoseSpawnerIsParentOf s x w sd)"
  unfolding loadWaitersOnSpawnerIDs_def loadWaitersWhoseSpawnerIsParentOf_def Let_def
  by (rule grows_trans; rule grows_load)+

lemma grows_seen: "grows U sd sd' \<Longrightarrow> x \<in> seen sd w \<Longrightarrow> x \<in> seen sd' w"
  unfolding grows_def by blast

lemma grows_seed: "grows U sd sd' \<Longrightarrow> x \<in> set (seed sd w) \<Longrightarrow> x \<in> set (seed sd' w)"
  unfolding grows_def by (metis Un_iff set_append)

lemma grows_prefix: "grows U sd sd' \<Longrightarrow> h \<le> length (seed sd w) \<Longrightarrow> take h (seed sd' w) = take h (seed sd w)"
  unfolding grows_def by (metis (no_types, lifting) append_Nil2 diff_is_0_eq' take0 take_append)

lemma grows_weight: "grows U sd sd' \<Longrightarrow> weight U sd' w = weight U sd w"
  by (simp add: grows_def)

lemma grows_length: "grows U sd sd' \<Longrightarrow> length (seed sd w) \<le> length (seed sd' w)"
  unfolding grows_def by (metis length_append le_add1)

lemma expand_batch_grows: "expand_batch s v h sd = (h', sd') \<Longrightarrow> grows (sources s) sd sd'"
  unfolding expand_batch_def Let_def
  by (auto split: if_splits intro: grows_trans grows_load)

lemma expand_batch_head:
  "expand_batch s v h sd = (h', sd') \<Longrightarrow>
     h \<le> h' \<and> (h < length (seed sd v) \<longrightarrow> h < h' \<and> h' \<le> length (seed sd v)) \<and>
     (\<not> h < length (seed sd v) \<longrightarrow> h' = h \<and> sd' = sd)"
  by (auto simp: expand_batch_def Let_def queryBatchSize_def split: if_splits)

subsection \<open>The expansion loop\<close>

function expandByParentChildDescendants :: "db \<Rightarrow> nat \<Rightarrow> nat \<Rightarrow> seeds \<Rightarrow> seeds" where
  "expandByParentChildDescendants s issueHead wispHead sd =
    (if issueHead < length (seed sd False) \<or> wispHead < length (seed sd True) then
       (let (ih, sd1) = expand_batch s False issueHead sd;
            (wh, sd2) = expand_batch s True wispHead sd1
        in expandByParentChildDescendants s ih wh sd2)
     else sd)"
  by pat_completeness auto
termination
proof (relation "measure (\<lambda>(s, ih, wh, sd). (weight (sources s) sd False - ih) + (weight (sources s) sd True - wh))",
    goal_cases)
  case (2 s issueHead wispHead sd x ih sd1 y wh sd2)
  have e1: "expand_batch s False issueHead sd = (ih, sd1)" using 2(2,3) by simp
  have e2: "expand_batch s True wispHead sd1 = (wh, sd2)" using 2(4,5) by simp
  note g1 = expand_batch_grows[OF e1] and g2 = expand_batch_grows[OF e2]
  have w: "weight (sources s) sd2 v = weight (sources s) sd v" for v
    using grows_weight[OF g1] grows_weight[OF g2] by simp
  have le: "length (seed sd v) \<le> weight (sources s) sd v" "length (seed sd1 v) \<le> weight (sources s) sd v" for v
    using grows_weight[OF g1, of v] by (simp_all add: weight_def)
  have "(weight (sources s) sd False - ih) + (weight (sources s) sd True - wh) <
        (weight (sources s) sd False - issueHead) + (weight (sources s) sd True - wispHead)"
    using 2(1) expand_batch_head[OF e1] expand_batch_head[OF e2] le[of False] le[of True]
      grows_length[OF g1, of True] by linarith
  then show ?case by (simp add: w)
qed simp

declare expandByParentChildDescendants.simps [simp del]

text \<open>The result: the two queues.\<close>

definition queues :: "seeds \<Rightarrow> string list \<times> string list" where
  "queues sd = (seed sd False, seed sd True)"

definition no_seeds :: seeds where
  "no_seeds = \<lparr>seed = (\<lambda>w. []), seen = (\<lambda>w. {})\<rparr>"

definition AffectedByStatusChange :: "db \<Rightarrow> string \<Rightarrow> string list \<times> string list" where
  "AffectedByStatusChange s x =
    (let sd0 = add_id False x no_seeds;
         sd1 = loadBlockingDependersForIDs s False [x] sd0;
         sd2 = loadWaitersWhoseSpawnerIsParentOf s x False sd1
     in queues (expandByParentChildDescendants s 0 0 sd2))"

definition AffectedByStatusChangeForWisp :: "db \<Rightarrow> string \<Rightarrow> string list \<times> string list" where
  "AffectedByStatusChangeForWisp s x =
    (let sd0 = add_id True x no_seeds;
         sd1 = loadBlockingDependersForIDs s True [x] sd0;
         sd2 = loadWaitersWhoseSpawnerIsParentOf s x True sd1
     in queues (expandByParentChildDescendants s 0 0 sd2))"

definition AffectedByDepChange :: "db \<Rightarrow> string \<Rightarrow> string \<Rightarrow> dep_type \<Rightarrow> string list \<times> string list" where
  "AffectedByDepChange s source target depType =
    (if depType \<in> {DepBlocks, DepConditionalBlocks, DepWaitsFor, DepParentChild} then
       (let sd0 = add_id False source no_seeds;
            sd1 = (if depType = DepParentChild \<and> target \<noteq> '''' then loadWaitersOnSpawnerIDs s [target] sd0
                   else sd0)
        in queues (expandByParentChildDescendants s 0 0 sd1))
     else ([], []))"

definition AffectedByDepChangeForWisp :: "db \<Rightarrow> string \<Rightarrow> string \<Rightarrow> dep_type \<Rightarrow> string list \<times> string list" where
  "AffectedByDepChangeForWisp s source target depType =
    (if depType \<in> {DepBlocks, DepConditionalBlocks, DepWaitsFor, DepParentChild} then
       (let sd0 = add_id True source no_seeds;
            sd1 = (if depType = DepParentChild \<and> target \<noteq> '''' then loadWaitersOnSpawnerIDs s [target] sd0
                   else sd0)
        in queues (expandByParentChildDescendants s 0 0 sd1))
     else ([], []))"

definition AffectedByDeletion :: "db \<Rightarrow> string list \<Rightarrow> string list \<Rightarrow> string list \<times> string list" where
  "AffectedByDeletion s deletedIssues deletedWisps =
    (if deletedIssues = [] \<and> deletedWisps = [] then ([], [])
     else
      (let sd0 = \<lparr>seed = (\<lambda>w. []), seen = (\<lambda>w. if w then set deletedWisps else set deletedIssues)\<rparr>;
           sd1 = loadBlockingDependersForIDs s False deletedIssues sd0;
           sd2 = loadBlockingDependersForIDs s True deletedWisps sd1;
           sd3 = loadWaitersOnSpawnerIDsByCol s False deletedIssues sd2;
           sd4 = loadWaitersOnSpawnerIDsByCol s True deletedWisps sd3;
           sd5 = fold (\<lambda>x. loadWaitersWhoseSpawnerIsParentOf s x False) deletedIssues sd4;
           sd6 = fold (\<lambda>x. loadWaitersWhoseSpawnerIsParentOf s x True) deletedWisps sd5;
           sd7 = appendChildren s False False deletedIssues sd6;
           sd8 = appendChildren s True False deletedIssues sd7;
           sd9 = appendChildren s False True deletedWisps sd8;
           sd10 = appendChildren s True True deletedWisps sd9
       in queues (expandByParentChildDescendants s 0 0 sd10)))"

end
