(* ===== verification/AffectedThms.thy ===== *)
theory AffectedThms
  imports Affected
begin

text \<open>
  The affected sets are sufficient: they are closed under children, and outside
  them a status change or a dependency change leaves every reason as it was.
\<close>

lemma seen_add_ids: "seen (add_ids w xs sd) v = seen sd v \<union> (if v = w then set xs else {})"
proof (induction xs arbitrary: sd)
  case (Cons x xs)
  have "seen (add_id w x sd) v = seen sd v \<union> (if v = w then {x} else {})"
    by (auto simp: add_id_def)
  with Cons[of "add_id w x sd"] show ?case by (auto simp: add_ids_def)
qed (simp add: add_ids_def)

lemma seen_fold_pair:
  "seen (fold (\<lambda>x sd. add_ids True (f True x) (add_ids False (f False x) sd)) ids sd) w =
     seen sd w \<union> (\<Union>x\<in>set ids. set (f w x))"
  by (induction ids arbitrary: sd) (auto simp: seen_add_ids)

lemma seen_loadBlocking:
  "seen (loadBlockingDependersForIDs s v ids sd) w = seen sd w \<union>
     (\<Union>x\<in>set ids. set (select_sources s w v (\<lambda>t. t = DepBlocks \<or> t = DepConditionalBlocks) x))"
  unfolding loadBlockingDependersForIDs_def
  by (rule seen_fold_pair[of "\<lambda>w x. select_sources s w v (\<lambda>t. t = DepBlocks \<or> t = DepConditionalBlocks) x"])

lemma seen_loadWaiters:
  "seen (loadWaitersOnSpawnerIDsByCol s v ids sd) w = seen sd w \<union>
     (\<Union>x\<in>set ids. set (select_sources s w v (\<lambda>t. t = DepWaitsFor) x))"
  unfolding loadWaitersOnSpawnerIDsByCol_def
  by (rule seen_fold_pair[of "\<lambda>w x. select_sources s w v (\<lambda>t. t = DepWaitsFor) x"])

lemma seen_appendChildren:
  "seen (appendChildren s u v ids sd) w = seen sd w \<union>
     (if w = u then (\<Union>x\<in>set ids. set (select_sources s u v (\<lambda>t. t = DepParentChild) x)) else {})"
  unfolding appendChildren_def by (induction ids arbitrary: sd) (auto simp: seen_add_ids)

lemma set_the_list [simp]: "set (the_list x) = set_option x"
  by (cases x) (auto simp: the_list_def)

lemma in_select_sources:
  "y \<in> set (select_sources s w v p x) \<longleftrightarrow>
     (\<exists>d\<in>set (dep_table w s). issue_id d = y \<and> targets d v x \<and> p (dtype d))"
  by (auto simp: select_sources_def)

text \<open>The waiters whose spawner is a parent of \<^verbatim>\<open>(w, x)\<close>.\<close>

lemma seen_loadWaitersParent:
  assumes "d \<in> set (dep_table u s)" "dtype d = DepWaitsFor"
    and "cd \<in> set (dep_table w s)" "issue_id cd = x" "dtype cd = DepParentChild" "same_target d cd"
  shows "issue_id d \<in> seen (loadWaitersWhoseSpawnerIsParentOf s x w sd) u"
proof -
  consider p where "depends_on_issue_id d = Some p" "depends_on_issue_id cd = Some p"
    | p where "depends_on_wisp_id d = Some p" "depends_on_wisp_id cd = Some p"
    using assms(6) unfolding same_target_def by fastforce
  then show ?thesis
  proof cases
    case 1
    then have "issue_id d \<in> set (select_sources s u False (\<lambda>t. t = DepWaitsFor) p)"
      using assms(1,2) by (auto simp: in_select_sources targets_def)
    then show ?thesis
      using 1 assms(3,4,5)
      by (force simp: loadWaitersWhoseSpawnerIsParentOf_def Let_def seen_loadWaiters)
  next
    case 2
    then have "issue_id d \<in> set (select_sources s u True (\<lambda>t. t = DepWaitsFor) p)"
      using assms(1,2) by (auto simp: in_select_sources targets_def)
    then show ?thesis
      using 2 assms(3,4,5)
      by (force simp: loadWaitersWhoseSpawnerIsParentOf_def Let_def seen_loadWaiters)
  qed
qed

subsection \<open>The expansion is closed under children\<close>

definition kids :: "db \<Rightarrow> bool \<Rightarrow> bool \<Rightarrow> string \<Rightarrow> string set" where
  "kids s w v p = set (select_sources s w v (\<lambda>t. t = DepParentChild) p)"

definition done_upto :: "db \<Rightarrow> (bool \<Rightarrow> nat) \<Rightarrow> seeds \<Rightarrow> bool" where
  "done_upto s h sd = (\<forall>v. \<forall>p\<in>set (take (h v) (seed sd v)). \<forall>w. kids s w v p \<subseteq> seen sd w)"

lemma done_upto_grows:
  assumes "grows U sd sd'" "done_upto s h sd" "\<And>v. h v \<le> length (seed sd v)"
  shows "done_upto s h sd'"
  using assms grows_prefix[OF assms(1) assms(3)] grows_seen[OF assms(1)]
  unfolding done_upto_def by (metis subset_eq)

lemma expand_batch_done:
  assumes e: "expand_batch s v (h v) sd = (h', sd')" and d: "done_upto s h sd"
    and l: "\<And>v. h v \<le> length (seed sd v)"
  shows "done_upto s (h(v := h')) sd'" "\<And>u. (h(v := h')) u \<le> length (seed sd' u)"
proof -
  note g = expand_batch_grows[OF e]
  have d': "done_upto s h sd'" by (rule done_upto_grows[OF g d l])
  have hb: "h' \<le> length (seed sd v)" using expand_batch_head[OF e] l[of v] by auto
  show "(h(v := h')) u \<le> length (seed sd' u)" for u
    using l[of u] hb grows_length[OF g, of u] by auto
  have new: "kids s w v p \<subseteq> seen sd' w" if p: "p \<in> set (drop (h v) (take h' (seed sd v)))" for p w
  proof -
    have "h v < length (seed sd v)" using p expand_batch_head[OF e] by (cases "h v < length (seed sd v)") auto
    then show ?thesis
      using e p by (auto simp: expand_batch_def Let_def kids_def seen_appendChildren split: if_splits)
  qed
  have tk: "take h' (seed sd' v) = take h' (seed sd v)" by (rule grows_prefix[OF g hb])
  have "h v \<le> h'" using expand_batch_head[OF e] by blast
  then have "take (h v) (take h' (seed sd v)) = take (h v) (seed sd v)" by (simp add: min_absorb1)
  then have "take h' (seed sd v) = take (h v) (seed sd v) @ drop (h v) (take h' (seed sd v))"
    using append_take_drop_id[of "h v" "take h' (seed sd v)"] by simp
  then have sp: "p \<in> set (take h' (seed sd v)) \<longleftrightarrow>
      p \<in> set (take (h v) (seed sd v)) \<or> p \<in> set (drop (h v) (take h' (seed sd v)))" for p
    by (metis Un_iff set_append)
  have "take (h v) (seed sd' v) = take (h v) (seed sd v)" by (rule grows_prefix[OF g l])
  then have old: "kids s w v p \<subseteq> seen sd' w" if "p \<in> set (take (h v) (seed sd v))" for p w
    using d' that unfolding done_upto_def by auto
  have "kids s w v p \<subseteq> seen sd' w" if "p \<in> set (take h' (seed sd' v))" for p w
    using that new old unfolding tk sp by blast
  then show "done_upto s (h(v := h')) sd'"
    using d' unfolding done_upto_def by simp
qed

lemma expand_closed:
  assumes "done_upto s (\<lambda>v. if v then wh else ih) sd"
    and "ih \<le> length (seed sd False)" "wh \<le> length (seed sd True)"
  shows "grows (sources s) sd (expandByParentChildDescendants s ih wh sd) \<and>
     (\<forall>v. \<forall>p\<in>set (seed (expandByParentChildDescendants s ih wh sd) v). \<forall>w.
        kids s w v p \<subseteq> seen (expandByParentChildDescendants s ih wh sd) w)"
  using assms
proof (induction s ih wh sd rule: expandByParentChildDescendants.induct)
  case (1 s ih wh sd)
  let ?h = "\<lambda>v. if v then wh else ih"
  have l: "?h v \<le> length (seed sd v)" for v using 1(3,4) by simp
  show ?case
  proof (cases "ih < length (seed sd False) \<or> wh < length (seed sd True)")
    case True
    obtain ih' sd1 where e1: "expand_batch s False ih sd = (ih', sd1)" by fastforce
    obtain wh' sd2 where e2: "expand_batch s True wh sd1 = (wh', sd2)" by fastforce
    have f1: "(?h(False := ih')) = (\<lambda>v. if v then wh else ih')" by (rule ext) simp
    have f2: "(\<lambda>v. if v then wh else ih')(True := wh') = (\<lambda>v. if v then wh' else ih')" by (rule ext) simp
    have d1: "done_upto s (\<lambda>v. if v then wh else ih') sd1"
      "\<And>u. (if u then wh else ih') \<le> length (seed sd1 u)"
      using expand_batch_done[of s False ?h sd ih' sd1] e1 1(2) l unfolding f1 by auto
    have d2: "done_upto s (\<lambda>v. if v then wh' else ih') sd2"
      "\<And>u. (if u then wh' else ih') \<le> length (seed sd2 u)"
      using expand_batch_done[of s True "\<lambda>v. if v then wh else ih'" sd1 wh' sd2] e2 d1 unfolding f2 by auto
    have g: "grows (sources s) sd sd2"
      using expand_batch_grows[OF e1] expand_batch_grows[OF e2] grows_trans by blast
    have u: "expandByParentChildDescendants s ih wh sd = expandByParentChildDescendants s ih' wh' sd2"
      using True e1 e2 by (subst expandByParentChildDescendants.simps) simp
    have "grows (sources s) sd2 (expandByParentChildDescendants s ih' wh' sd2) \<and>
     (\<forall>v. \<forall>p\<in>set (seed (expandByParentChildDescendants s ih' wh' sd2) v). \<forall>w.
        kids s w v p \<subseteq> seen (expandByParentChildDescendants s ih' wh' sd2) w)"
      by (rule "1.IH"[OF True e1[symmetric] refl e2[symmetric] refl d2(1)]) (use d2(2)[of False] d2(2)[of True] in simp_all)
    then show ?thesis using g grows_trans unfolding u by blast
  next
    case False
    then have "ih = length (seed sd False)" "wh = length (seed sd True)" using 1(3,4) by auto
    then have "\<forall>p\<in>set (seed sd v). \<forall>w. kids s w v p \<subseteq> seen sd w" for v
      using 1(2) unfolding done_upto_def by (cases v) (metis (full_types) order_refl take_all)+
    then show ?thesis
      using False by (subst (1 2 3) expandByParentChildDescendants.simps) simp
  qed
qed

definition tight :: "seeds \<Rightarrow> bool" where
  "tight sd = (\<forall>w. seen sd w = set (seed sd w))"

lemma tight_grows: "grows U sd sd' \<Longrightarrow> tight sd \<Longrightarrow> tight sd'"
  unfolding grows_def tight_def by (metis set_append)

definition span :: "string list \<times> string list \<Rightarrow> node set" where
  "span q = scope_of (fst q) (snd q)"

lemma span_queues: "span (queues sd) = {(w, x). x \<in> set (seed sd w)}"
proof -
  have "(w, x) \<in> span (queues sd) \<longleftrightarrow> x \<in> set (seed sd w)" for w x
    by (cases w) (auto simp: span_def queues_def scope_of_def)
  then show ?thesis by blast
qed

lemma parents_kids: "(v, p) \<in> parents s (w, x) \<longleftrightarrow> x \<in> kids s w v p"
  by (auto simp: parents_def kids_def in_select_sources)

text \<open>The expansion of tight seeds: closed under children and containing the seeds.\<close>

lemma expansion_span:
  assumes "tight sd"
  shows "(w, x) \<in> span (queues (expandByParentChildDescendants s 0 0 sd)) \<longleftrightarrow>
           x \<in> seen (expandByParentChildDescendants s 0 0 sd) w"
    and "x \<in> seen sd w \<Longrightarrow> (w, x) \<in> span (queues (expandByParentChildDescendants s 0 0 sd))"
    and "\<forall>w. dep_table w s' = dep_table w s \<Longrightarrow>
           be.child_closed (span (queues (expandByParentChildDescendants s 0 0 sd))) s'"
proof -
  let ?r = "expandByParentChildDescendants s 0 0 sd"
  have g: "grows (sources s) sd ?r"
    and cl: "\<And>v p w. p \<in> set (seed ?r v) \<Longrightarrow> kids s w v p \<subseteq> seen ?r w"
    using expand_closed[of s 0 0 sd] by (auto simp: done_upto_def)
  have t: "tight ?r" using tight_grows[OF g assms] .
  show sp: "(w, x) \<in> span (queues ?r) \<longleftrightarrow> x \<in> seen ?r w" for w x
    using t by (simp add: span_queues tight_def)
  show "x \<in> seen sd w \<Longrightarrow> (w, x) \<in> span (queues ?r)"
    using sp grows_seen[OF g] by blast
  assume d: "\<forall>w. dep_table w s' = dep_table w s"
  have pk: "(v, p) \<in> parents s' (w, x) \<longleftrightarrow> x \<in> kids s w v p" for v p w x
    using d by (simp add: parents_kids kids_def in_select_sources)
  have "(w, x) \<in> span (queues ?r)" if "(v, p) \<in> parents s' (w, x)" "(v, p) \<in> span (queues ?r)" for w x v p
    using that cl[of p v w] sp pk by (auto simp: span_queues)
  then show "be.child_closed (span (queues ?r)) s'"
    unfolding be.child_closed_def by (metis Int_iff all_not_in_conv surj_pair)
qed

end
