(* ===== verification/RepairThms.thy ===== *)
theory RepairThms
  imports AffectedThms
begin

text \<open>
  Local changes followed by a recompute of the affected rows keep the whole
  column consistent: a change of the columns of one row, and a change of the
  dependency rows of one source.
\<close>

lemma tight_add_id: "tight sd \<Longrightarrow> tight (add_id w x sd)"
  by (auto simp: tight_def add_id_def)

lemma tight_no_seeds: "tight no_seeds"
  by (simp add: tight_def no_seeds_def)

definition affected_status :: "bool \<Rightarrow> db \<Rightarrow> string \<Rightarrow> string list \<times> string list" where
  "affected_status w s x =
     (if w then AffectedByStatusChangeForWisp s x else AffectedByStatusChange s x)"

definition affected_dep :: "bool \<Rightarrow> db \<Rightarrow> string \<Rightarrow> string \<Rightarrow> dep_type \<Rightarrow> string list \<times> string list" where
  "affected_dep w s x target t =
     (if w then AffectedByDepChangeForWisp s x target t else AffectedByDepChange s x target t)"

lemma affected_status_eq:
  "affected_status w s x = queues (expandByParentChildDescendants s 0 0
     (loadWaitersWhoseSpawnerIsParentOf s x w (loadBlockingDependersForIDs s w [x] (add_id w x no_seeds))))"
  by (simp add: affected_status_def AffectedByStatusChangeForWisp_def AffectedByStatusChange_def Let_def)

lemma affected_dep_eq:
  "affected_dep w s x target t =
    (if t \<in> {DepBlocks, DepConditionalBlocks, DepWaitsFor, DepParentChild} then
       queues (expandByParentChildDescendants s 0 0
         (if t = DepParentChild \<and> target \<noteq> '''' then loadWaitersOnSpawnerIDs s [target] (add_id w x no_seeds)
          else add_id w x no_seeds))
     else ([], []))"
  by (simp add: affected_dep_def AffectedByDepChangeForWisp_def AffectedByDepChange_def Let_def)

lemma affected_status_span:
  defines "R s w x \<equiv> span (affected_status w s x)"
  shows "(w, x) \<in> R s w x"
    and "d \<in> set (dep_table u s) \<Longrightarrow> dtype d = DepBlocks \<or> dtype d = DepConditionalBlocks \<Longrightarrow>
           targets d w x \<Longrightarrow> (u, issue_id d) \<in> R s w x"
    and "d \<in> set (dep_table u s) \<Longrightarrow> dtype d = DepWaitsFor \<Longrightarrow> cd \<in> set (dep_table w s) \<Longrightarrow>
           issue_id cd = x \<Longrightarrow> dtype cd = DepParentChild \<Longrightarrow> same_target d cd \<Longrightarrow> (u, issue_id d) \<in> R s w x"
    and "\<forall>w. dep_table w s' = dep_table w s \<Longrightarrow> be.child_closed (R s w x) s'"
proof -
  let ?s0 = "add_id w x no_seeds"
  let ?s1 = "loadBlockingDependersForIDs s w [x] ?s0"
  let ?s2 = "loadWaitersWhoseSpawnerIsParentOf s x w ?s1"
  have g1: "grows (sources s) ?s0 ?s1" by (rule grows_load)
  have g2: "grows (sources s) ?s1 ?s2" by (rule grows_loads)
  have t: "tight ?s2"
    using tight_grows[OF g2 tight_grows[OF g1 tight_add_id[OF tight_no_seeds]]] .
  note ex = expansion_span[OF t, where s = s, folded affected_status_eq]
  have s0: "x \<in> seen ?s0 w" by (simp add: add_id_def no_seeds_def)
  show "(w, x) \<in> R s w x"
    unfolding R_def by (rule ex(2)) (rule grows_seen[OF g2 grows_seen[OF g1 s0]])
  show "(u, issue_id d) \<in> R s w x" if "d \<in> set (dep_table u s)"
    "dtype d = DepBlocks \<or> dtype d = DepConditionalBlocks" "targets d w x"
  proof -
    have "issue_id d \<in> seen ?s1 u"
      using that by (auto simp: seen_loadBlocking in_select_sources)
    then show ?thesis unfolding R_def by (intro ex(2) grows_seen[OF g2])
  qed
  show "(u, issue_id d) \<in> R s w x" if "d \<in> set (dep_table u s)" "dtype d = DepWaitsFor"
    "cd \<in> set (dep_table w s)" "issue_id cd = x" "dtype cd = DepParentChild" "same_target d cd"
    unfolding R_def by (rule ex(2)) (rule seen_loadWaitersParent[OF that])
  show "be.child_closed (R s w x) s'" if "\<forall>w. dep_table w s' = dep_table w s"
    unfolding R_def by (rule ex(3)[OF that])
qed

subsection \<open>One row changes\<close>

text \<open>
  \<^verbatim>\<open>row_change w x f s s'\<close>: of the issue tables only the rows with id \<^verbatim>\<open>x\<close> of kind \<^verbatim>\<open>w\<close>
  changed, by \<^verbatim>\<open>f\<close>, which keeps id and flag; the dependency tables are as before.
\<close>

definition row_change :: "bool \<Rightarrow> string \<Rightarrow> (issue_row \<Rightarrow> issue_row) \<Rightarrow> db \<Rightarrow> db \<Rightarrow> bool" where
  "row_change w x f s s' = ((\<forall>r. ID (f r) = ID r \<and> IsBlocked (f r) = IsBlocked r) \<and>
     (\<forall>v. issue_table v s' = map (\<lambda>r. if v = w \<and> ID r = x then f r else r) (issue_table v s)) \<and>
     (\<forall>v. dep_table v s' = dep_table v s))"

lemma row_change_bex:
  assumes "row_change w x f s s'"
  shows "(\<exists>r\<in>set (issue_table v s'). P r) \<longleftrightarrow>
     (\<exists>r\<in>set (issue_table v s). P (if v = w \<and> ID r = x then f r else r))"
proof -
  have "issue_table v s' = map (\<lambda>r. if v = w \<and> ID r = x then f r else r) (issue_table v s)"
    using assms by (simp add: row_change_def)
  then show ?thesis by (simp only: bex_map)
qed

lemma row_change_views:
  assumes "row_change w x f s s'"
  shows "wf_db s' = wf_db s" "nodes s' = nodes s" "flagged s' = flagged s" "parents s' = parents s"
    "acyclic_parents s' = acyclic_parents s" "dep_table v s' = dep_table v s"
    "n \<noteq> (w, x) \<Longrightarrow> active_node s' n = active_node s n"
proof -
  have f: "ID (f r) = ID r" "IsBlocked (f r) = IsBlocked r" for r
    using assms by (simp_all add: row_change_def)
  have it: "issue_table v s' = map (\<lambda>r. if v = w \<and> ID r = x then f r else r) (issue_table v s)" for v
    using assms by (simp add: row_change_def)
  have ids: "map ID (issue_table v s') = map ID (issue_table v s)" for v
    by (simp add: it f cong: map_cong)
  show "wf_db s' = wf_db s" by (rule wf_db_frame) (rule ids)
  have "ID ` set (issue_table v s') = ID ` set (issue_table v s)" for v
    using arg_cong[OF ids[of v], of set] by simp
  then show n: "nodes s' = nodes s" by (simp add: nodes_def)
  have bex: "(\<exists>r\<in>set (issue_table v s'). P r) \<longleftrightarrow>
      (\<exists>r\<in>set (issue_table v s). P (if v = w \<and> ID r = x then f r else r))" for P v
    unfolding it set_map by blast
  have "(v, y) \<in> flagged s' \<longleftrightarrow> (v, y) \<in> flagged s" for v y
    unfolding flagged_def mem_Collect_eq prod.case bex by (rule bex_cong[OF refl]) (simp add: f)
  then show "flagged s' = flagged s" by auto
  show d: "dep_table v s' = dep_table v s" for v using assms by (simp add: row_change_def)
  show p: "parents s' = parents s" by (rule ext) (simp add: parents_def d)
  show "acyclic_parents s' = acyclic_parents s"
    by (simp add: acyclic_parents_def parent_edges_def n p)
  show "active_node s' n = active_node s n" if "n \<noteq> (w, x)"
    unfolding active_node_def bex
    by (rule bex_cong[OF refl]) (use that f in \<open>cases n; auto\<close>)
qed

lemma joined_target_table:
  "joined_target s d p \<longleftrightarrow> (\<exists>v. \<exists>t\<in>set (issue_table v s). targets d v (ID t) \<and> p t)"
  unfolding joined_target_def issue_table_def ex_bool_eq by auto

lemma spawned_child_table:
  "spawned_child s d p \<longleftrightarrow> (\<exists>v. \<exists>cd\<in>set (dep_table v s). dtype cd = DepParentChild \<and> same_target d cd \<and>
     (\<exists>c\<in>set (issue_table v s). ID c = issue_id cd \<and> p (Status c)))"
  unfolding spawned_child_def issue_table_def dep_table_def ex_bool_eq by auto

lemma row_change_hard:
  assumes c: "row_change w x f s s'"
    and no: "\<And>d. d \<in> set deps \<Longrightarrow> issue_id d = y \<Longrightarrow> dtype d = DepBlocks \<or> dtype d = DepConditionalBlocks \<Longrightarrow>
       \<not> targets d w x"
  shows "hard_blocked s' deps y = hard_blocked s deps y"
proof -
  have jt: "joined_target s' d p = joined_target s d p" if "\<not> targets d w x" for d p
    unfolding joined_target_table row_change_bex[OF c]
  proof (intro ex_cong1 bex_cong[OF refl])
    fix v t
    show "(targets d v (ID (if v = w \<and> ID t = x then f t else t)) \<and>
        p (if v = w \<and> ID t = x then f t else t)) = (targets d v (ID t) \<and> p t)"
      using that c by (auto simp: row_change_def)
  qed
  show ?thesis unfolding hard_blocked_def by (rule bex_cong[OF refl]) (use no jt in blast)
qed

lemma row_change_waits:
  assumes c: "row_change w x f s s'"
    and no: "\<And>d cd. d \<in> set deps \<Longrightarrow> issue_id d = y \<Longrightarrow> dtype d = DepWaitsFor \<Longrightarrow> cd \<in> set (dep_table w s) \<Longrightarrow>
       issue_id cd = x \<Longrightarrow> dtype cd = DepParentChild \<Longrightarrow> \<not> same_target d cd"
  shows "waits_blocked e s' deps y = waits_blocked e s deps y"
proof -
  have "spawned_child s' d p = spawned_child s d p"
    if d: "d \<in> set deps" "issue_id d = y" "dtype d = DepWaitsFor" for d p
  proof -
    have "(\<exists>c\<in>set (issue_table v s'). ID c = issue_id cd \<and> p (Status c)) \<longleftrightarrow>
          (\<exists>c\<in>set (issue_table v s). ID c = issue_id cd \<and> p (Status c))"
      if "cd \<in> set (dep_table v s)" "dtype cd = DepParentChild" "same_target d cd" for v cd
    proof -
      have "\<not> (v = w \<and> issue_id cd = x)" using no[OF d] that by blast
      then show ?thesis
        unfolding row_change_bex[OF c]
        by (intro bex_cong[OF refl]) (use c in \<open>auto simp: row_change_def\<close>)
    qed
    then show ?thesis
      unfolding spawned_child_table row_change_views(6)[OF c] by blast
  qed
  then have "d \<in> set deps \<Longrightarrow> issue_id d = y \<and> dtype d = DepWaitsFor \<Longrightarrow>
      waitsForGateBlocked e s' d = waitsForGateBlocked e s d" for d
    by (simp add: waitsForGateBlocked_def)
  then show ?thesis unfolding waits_blocked_def by (intro bex_cong[OF refl]) auto
qed

theorem status_change_repairs:
  assumes wf: "wf_db s" and ac: "acyclic_parents s" and co: "blocked_consistent e s"
    and c: "row_change w x f s s'" and q: "affected_status w s x = (is, ws)"
  shows "\<exists>r. recomputeIsBlocked e is ws s' = Some r \<and> wf_db r \<and> same_but_flags s' r \<and>
     blocked_consistent e r"
proof -
  note v = row_change_views[OF c]
  have R: "scope_of is ws = span (affected_status w s x)" by (simp add: q span_def)
  note A = affected_status_span[where w = w and x = x and s = s, folded R]
  have cl: "be.child_closed (scope_of is ws) s'"
    unfolding R by (rule affected_status_span(4)) (simp add: v(6))
  have same: "wants e s' F n = wants e s F n" if n: "n \<notin> scope_of is ws" for F n
  proof (cases n)
    case (Pair u y)
    have "n \<noteq> (w, x)" using n A(1) by blast
    moreover have "hard_blocked s' (dep_table u s) y = hard_blocked s (dep_table u s) y"
      by (rule row_change_hard[OF c]) (use A(2)[of _ u] n Pair in blast)
    moreover have "waits_blocked e s' (dep_table u s) y = waits_blocked e s (dep_table u s) y"
      by (rule row_change_waits[OF c]) (use A(3)[of _ u] n Pair in blast)
    ultimately show ?thesis using v(4,6,7) Pair by (simp add: wants_def own_reason_def)
  qed
  have "be.consistent_on e UNIV s" using blocked_consistent_engine[OF wf] co by blast
  then have "be.consistent_on e (- scope_of is ws) s'"
    unfolding be.consistent_on_def using same v(2,3) by auto
  then show ?thesis using recompute_repairs[OF _ _ cl] wf ac v(1,5) by blast
qed

text \<open>A change that leaves the status alone needs no recompute.\<close>

lemma row_change_consistent:
  assumes wf: "wf_db s" and co: "blocked_consistent e s" and c: "row_change w x f s s'"
    and st: "\<And>r. r \<in> set (issue_table w s) \<Longrightarrow> ID r = x \<Longrightarrow>
       active_status (Status (f r)) = active_status (Status r) \<and>
       (Status (f r) = StatusClosed) = (Status r = StatusClosed)"
  shows "blocked_consistent e s'"
proof -
  have f: "ID (f r) = ID r" "IsBlocked (f r) = IsBlocked r" for r
    using c by (simp_all add: row_change_def)
  have d: "dep_table v s' = dep_table v s" for v using row_change_views(6)[OF c] .
  define g where "g v r = (if v = w \<and> ID r = x then f r else r)" for v r
  have bex: "(\<exists>r\<in>set (issue_table v s'). P r) \<longleftrightarrow> (\<exists>r\<in>set (issue_table v s). P (g v r))" for v P
    unfolding g_def by (rule row_change_bex[OF c])
  have g: "ID (g v r) = ID r" "IsBlocked (g v r) = IsBlocked r" for v r
    using f by (simp_all add: g_def)
  have gs: "active_status (Status (g v r)) = active_status (Status r)"
    "(Status (g v r) = StatusClosed) = (Status r = StatusClosed)"
    if "r \<in> set (issue_table v s)" for v r
    using st[of r] that by (auto simp: g_def)
  have jt: "joined_target s' d (\<lambda>t. active_status (Status t)) = joined_target s d (\<lambda>t. active_status (Status t))" for d
    unfolding joined_target_table bex by (intro ex_cong1 bex_cong[OF refl]) (simp add: g gs)
  have jb: "joined_target s' d IsBlocked = joined_target s d IsBlocked" for d
    unfolding joined_target_table bex by (intro ex_cong1 bex_cong[OF refl]) (simp add: g)
  have sc: "spawned_child s' d active_status = spawned_child s d active_status"
    "spawned_child s' d (\<lambda>st. st = StatusClosed) = spawned_child s d (\<lambda>st. st = StatusClosed)" for d
    unfolding spawned_child_table bex \<open>\<And>v. dep_table v s' = dep_table v s\<close>
    by (intro ex_cong1 bex_cong[OF refl] conj_cong refl; simp add: g gs)+
  have sb: "shouldBeBlocked e s' v y = shouldBeBlocked e s v y" for v y
    unfolding shouldBeBlocked_def hard_blocked_def parent_blocked_def waits_blocked_def
      waitsForGateBlocked_def d jt jb sc ..
  have "IsBlocked (g v r) \<longleftrightarrow> active_status (Status (g v r)) \<and> shouldBeBlocked e s' v (ID (g v r))"
    if "r \<in> set (issue_table v s)" for v r
    using co that unfolding blocked_consistent_def by (simp add: g gs sb)
  then have "\<not> (\<exists>r\<in>set (issue_table v s'). \<not> (IsBlocked r \<longleftrightarrow>
      active_status (Status r) \<and> shouldBeBlocked e s' v (ID r)))" for v
    unfolding bex by blast
  then show ?thesis unfolding blocked_consistent_def by blast
qed


subsection \<open>The dependency rows of one source change\<close>

text \<open>
  \<^verbatim>\<open>dep_change w x tgt t s s'\<close>: the dependency rows added or removed belong to
  the source \<^verbatim>\<open>(w, x)\<close>, have type \<^verbatim>\<open>t\<close> and name no target but \<^verbatim>\<open>tgt\<close>.
\<close>

definition dep_change :: "bool \<Rightarrow> string \<Rightarrow> string \<Rightarrow> dep_type \<Rightarrow> db \<Rightarrow> db \<Rightarrow> bool" where
  "dep_change w x tgt t s s' = ((\<forall>v. issue_table v s' = issue_table v s) \<and>
     (\<forall>v. v \<noteq> w \<longrightarrow> dep_table v s' = dep_table v s) \<and>
     (\<forall>d. (d \<in> set (dep_table w s)) \<noteq> (d \<in> set (dep_table w s')) \<longrightarrow>
        issue_id d = x \<and> dtype d = t \<and> (\<forall>v p. targets d v p \<longrightarrow> p = tgt)))"

lemma dep_change_tables:
  assumes "dep_change w x tgt t s s'"
  shows "nodes s' = nodes s" "flagged s' = flagged s" "wf_db s' = wf_db s"
    "active_node s' n = active_node s n" "joined_target s' d p = joined_target s d p"
  using assms
  by (simp_all add: dep_change_def nodes_def flagged_def wf_db_def active_node_def joined_target_table)

lemma dep_change_row:
  assumes "dep_change w x tgt t s s'" "\<not> (v = w \<and> issue_id d = x \<and> dtype d = t)"
  shows "d \<in> set (dep_table v s') \<longleftrightarrow> d \<in> set (dep_table v s)"
  using assms unfolding dep_change_def by (cases "v = w") (blast, simp)

lemma dep_change_diff:
  assumes c: "dep_change w x tgt t s s'"
    and ne: "(d \<in> set (dep_table v s')) \<noteq> (d \<in> set (dep_table v s))"
  shows "v = w" "issue_id d = x" "dtype d = t" "targets d u p \<Longrightarrow> p = tgt"
proof -
  show v: "v = w"
  proof (rule ccontr)
    assume "v \<noteq> w"
    then have "dep_table v s' = dep_table v s" using c by (simp add: dep_change_def)
    with ne show False by simp
  qed
  have "(d \<in> set (dep_table w s)) \<noteq> (d \<in> set (dep_table w s'))" using ne v by simp
  then have "issue_id d = x \<and> dtype d = t \<and> (\<forall>v p. targets d v p \<longrightarrow> p = tgt)"
    using c by (simp add: dep_change_def)
  then show "issue_id d = x" "dtype d = t" "targets d u p \<Longrightarrow> p = tgt" by simp_all
qed

lemma dep_change_spawned:
  assumes c: "dep_change w x tgt t s s'"
    and no: "t = DepParentChild \<Longrightarrow> \<not> targets d False tgt \<and> \<not> targets d True tgt"
  shows "spawned_child s' d p = spawned_child s d p"
proof -
  have it: "issue_table v s' = issue_table v s" for v using c by (simp add: dep_change_def)
  have "cd \<in> set (dep_table v s') \<longleftrightarrow> cd \<in> set (dep_table v s)"
    if cd: "dtype cd = DepParentChild" "same_target d cd" for cd v
  proof (rule ccontr)
    assume ne: "(cd \<in> set (dep_table v s')) \<noteq> (cd \<in> set (dep_table v s))"
    note r = dep_change_diff(3,4)[OF c ne]
    have "targets d False tgt \<or> targets d True tgt"
      using cd(2) r(2)[of False] r(2)[of True] unfolding same_target_def targets_def by auto
    with no r(1) cd(1) show False by blast
  qed
  then show ?thesis unfolding spawned_child_table it by blast
qed

lemma affected_dep_span:
  defines "R s w x tgt t \<equiv> span (affected_dep w s x tgt t)"
  assumes t: "t \<in> {DepBlocks, DepConditionalBlocks, DepWaitsFor, DepParentChild}"
  shows "(w, x) \<in> R s w x tgt t"
    and "t = DepParentChild \<Longrightarrow> tgt \<noteq> '''' \<Longrightarrow> d \<in> set (dep_table u s) \<Longrightarrow> dtype d = DepWaitsFor \<Longrightarrow>
           targets d v tgt \<Longrightarrow> (u, issue_id d) \<in> R s w x tgt t"
    and "\<forall>w. dep_table w s' = dep_table w s \<Longrightarrow> be.child_closed (R s w x tgt t) s'"
proof -
  let ?s0 = "add_id w x no_seeds"
  let ?s1 = "if t = DepParentChild \<and> tgt \<noteq> '''' then loadWaitersOnSpawnerIDs s [tgt] ?s0 else ?s0"
  have g1: "grows (sources s) ?s0 ?s1" using grows_loads(1) grows_refl by simp
  have tt: "tight ?s1" using tight_grows[OF g1 tight_add_id[OF tight_no_seeds]] .
  have Re: "R s w x tgt t = span (queues (expandByParentChildDescendants s 0 0 ?s1))"
    using t unfolding R_def affected_dep_eq by simp
  note ex = expansion_span[OF tt, where s = s]
  have s0: "x \<in> seen ?s0 w" by (simp add: add_id_def no_seeds_def)
  show "(w, x) \<in> R s w x tgt t"
    unfolding Re by (rule ex(2)) (rule grows_seen[OF g1 s0])
  show "(u, issue_id d) \<in> R s w x tgt t" if "t = DepParentChild" "tgt \<noteq> ''''"
    "d \<in> set (dep_table u s)" "dtype d = DepWaitsFor" "targets d v tgt"
  proof -
    have "issue_id d \<in> set (select_sources s u v (\<lambda>t. t = DepWaitsFor) tgt)"
      using that by (auto simp: in_select_sources)
    then have "issue_id d \<in> seen ?s1 u"
      using that(1,2) by (cases v) (simp_all add: loadWaitersOnSpawnerIDs_def seen_loadWaiters)
    then show ?thesis unfolding Re by (rule ex(2))
  qed
  show "be.child_closed (R s w x tgt t) s'" if "\<forall>w. dep_table w s' = dep_table w s"
    unfolding Re by (rule ex(3)[OF that])
qed

lemma dep_change_wants:
  assumes c: "dep_change w x tgt t s s'" and n: "n \<notin> span (affected_dep w s' x tgt t)"
    and ne: "t = DepParentChild \<Longrightarrow> tgt \<noteq> ''''"
  shows "wants e s' F n = wants e s F n"
proof (cases n)
  case (Pair u y)
  have rows: "d \<in> set (dep_table u s') \<longleftrightarrow> d \<in> set (dep_table u s)"
    if "issue_id d = y" "dtype d \<in> {DepBlocks, DepConditionalBlocks, DepWaitsFor, DepParentChild}" for d
  proof (rule dep_change_row[OF c], rule notI)
    assume a: "u = w \<and> issue_id d = x \<and> dtype d = t"
    then have "(w, x) \<in> span (affected_dep w s' x tgt t)" using affected_dep_span(1) that(2) by blast
    with a that(1) n Pair show False by simp
  qed
  have h: "hard_blocked s' (dep_table u s') y = hard_blocked s (dep_table u s) y"
    using rows dep_change_tables(5)[OF c] unfolding hard_blocked_def by blast
  have sp: "spawned_child s' d p = spawned_child s d p"
    if "d \<in> set (dep_table u s')" "issue_id d = y" "dtype d = DepWaitsFor" for d p
  proof (rule dep_change_spawned[OF c], rule ccontr)
    assume t: "t = DepParentChild" and "\<not> (\<not> targets d False tgt \<and> \<not> targets d True tgt)"
    then obtain v where "targets d v tgt" by blast
    then have "(u, issue_id d) \<in> span (affected_dep w s' x tgt t)"
      using affected_dep_span(2)[OF _ t ne[OF t] that(1,3)] t by blast
    with that(2) n Pair show False by simp
  qed
  have wr: "d \<in> set (dep_table u s') \<longleftrightarrow> d \<in> set (dep_table u s)" if "issue_id d = y" "dtype d = DepWaitsFor" for d
    using rows that by simp
  have wg: "waitsForGateBlocked e s' d = waitsForGateBlocked e s d"
    if "d \<in> set (dep_table u s')" "issue_id d = y" "dtype d = DepWaitsFor" for d
    using sp[OF that] by (simp add: waitsForGateBlocked_def)
  have w: "waits_blocked e s' (dep_table u s') y = waits_blocked e s (dep_table u s) y"
    unfolding waits_blocked_def using wr wg by metis
  have p: "parents s' n = parents s n"
    unfolding parents_def Pair fst_conv snd_conv using rows by blast
  show ?thesis using h w p dep_change_tables(4)[OF c] Pair by (simp add: wants_def own_reason_def)
qed

theorem dep_change_repairs:
  assumes wf: "wf_db s" and ac: "acyclic_parents s'" and co: "blocked_consistent e s"
    and c: "dep_change w x tgt t s s'" and ne: "t = DepParentChild \<Longrightarrow> tgt \<noteq> ''''"
    and q: "affected_dep w s' x tgt t = (is, ws)"
  shows "\<exists>r. recomputeIsBlocked e is ws s' = Some r \<and> wf_db r \<and> same_but_flags s' r \<and>
     blocked_consistent e r"
proof -
  note v = dep_change_tables[OF c]
  have R: "scope_of is ws = span (affected_dep w s' x tgt t)" by (simp add: q span_def)
  have cl: "be.child_closed (scope_of is ws) s'"
  proof (cases "t \<in> {DepBlocks, DepConditionalBlocks, DepWaitsFor, DepParentChild}")
    case True
    then show ?thesis unfolding R by (rule affected_dep_span(3)) simp
  next
    case False
    then have "is = [] \<and> ws = []" using q by (auto simp: affected_dep_eq split: if_splits)
    then show ?thesis by (simp add: be.child_closed_def scope_of_def)
  qed
  have "be.consistent_on e UNIV s" using blocked_consistent_engine[OF wf] co by blast
  then have "be.consistent_on e (- scope_of is ws) s'"
    unfolding be.consistent_on_def R using dep_change_wants[OF c _ ne] v(1,2) by auto
  then show ?thesis using recompute_repairs[OF _ ac cl] wf v(3) by blast
qed

end
