(* ===== verification/Lifecycle.thy ===== *)
theory Lifecycle
  imports RepairThms
begin

text \<open>
  The life of a work item: claim with a lease, heartbeat, reclaim of expired
  leases, close and reopen (\<^verbatim>\<open>claim.go\<close>, \<^verbatim>\<open>lease.go\<close>, \<^verbatim>\<open>close.go\<close>, \<^verbatim>\<open>reopen.go\<close> of
  \<^verbatim>\<open>internal/storage/issueops\<close>).  An operation returns an error or its result
  with the new database; an error rolls the transaction back, so it carries no
  database.  Close and reopen run the recompute loop and are partial.
\<close>

subsection \<open>Leases\<close>

definition DefaultLeaseTTL :: int where
  "DefaultLeaseTTL = 5 * 60 * 1000000000"

definition leaseTTL :: "env \<Rightarrow> int" where
  "leaseTTL e = (case ctx_ttl e of Some ttl \<Rightarrow> (if ttl > 0 then ttl else DefaultLeaseTTL)
     | None \<Rightarrow> DefaultLeaseTTL)"

text \<open>\<^verbatim>\<open>rand_read\<close> gives the eight random bytes as a word, or \<^verbatim>\<open>None\<close> when the read fails.\<close>

definition freshRowLock :: "env \<Rightarrow> string \<Rightarrow> 64 word" where
  "freshRowLock e x = (case rand_read e x of
       None \<Rightarrow> or (unix_nano e) 1
     | Some v \<Rightarrow> (if v = 0 then 1 else v))"

definition leaseSetClause :: "env \<Rightarrow> string \<Rightarrow> issue_row \<Rightarrow> issue_row" where
  "leaseSetClause e x r =
     r\<lparr>LeaseExpiresAt := Some (now e + leaseTTL e), HeartbeatAt := Some (now e),
       RowLock := freshRowLock e x\<rparr>"

lemma freshRowLock_nonzero: "freshRowLock e x \<noteq> 0"
proof -
  have "or v (1 :: 64 word) \<noteq> 0" for v
    by (metis bit_0 bit_or_iff bit_1_iff zero_neq_one one_neq_zero bit_0_eq bot_apply bot_bool_def)
  then show ?thesis by (simp add: freshRowLock_def split: option.splits)
qed

lemma leaseTTL_pos: "leaseTTL e > 0"
  by (simp add: leaseTTL_def DefaultLeaseTTL_def split: option.splits)

subsection \<open>Claim\<close>

record claim_result =
  OldIssue :: issue_row
  IsWispResult :: bool

definition claimable :: "string \<Rightarrow> string \<Rightarrow> issue_row \<Rightarrow> bool" where
  "claimable x actor r = (ID r = x \<and> Status r = StatusOpen \<and>
     (Assignee r = '''' \<or> AssigneeNull r \<or> Assignee r = actor))"

definition claim_set :: "env \<Rightarrow> string \<Rightarrow> bool \<Rightarrow> string \<Rightarrow> issue_row \<Rightarrow> issue_row" where
  "claim_set e actor setStarted x r =
    (let r1 = r\<lparr>Assignee := actor, AssigneeNull := False, Status := StatusInProgress, UpdatedAt := now e\<rparr>;
         r2 = (if setStarted then r1\<lparr>StartedAt := Some (now e)\<rparr> else r1)
     in leaseSetClause e x r2)"

definition ClaimIssue :: "env \<Rightarrow> string \<Rightarrow> string \<Rightarrow> db \<Rightarrow> store_error + (claim_result \<times> db)" where
  "ClaimIssue e x actor s =
    (let isWisp = IsActiveWisp s x in
     bind_res (GetIssue s x) (\<lambda>oldIssue.
       let (rows, rowsAffected) =
             update_where (claimable x actor) (claim_set e actor (StartedAt oldIssue = None) x) (issue_table isWisp s);
           result = \<lparr>OldIssue = oldIssue, IsWispResult = isWisp\<rparr>
       in if rowsAffected = 0 then
            (case select_row x (issue_table isWisp s) of
               None \<Rightarrow> Inl (OpFailed ''failed to get current claim state'')
             | Some cur \<Rightarrow>
                 let assignee = Assignee cur in
                 if assignee = actor \<and> Status cur = StatusInProgress then Inr (result, s)
                 else if assignee \<noteq> '''' \<and> assignee \<noteq> actor then Inl (AlreadyClaimed assignee)
                 else Inl (NotClaimable x (Status cur)))
          else Inr (result, RecordFullEvent isWisp x ''claimed'' actor (marshal_issue e oldIssue)
                              (marshal_map e [(''assignee'', actor), (''status'', ''in_progress'')])
                              (set_issue_table isWisp rows s))))"

subsection \<open>Heartbeat\<close>

definition HeartbeatIssue :: "env \<Rightarrow> string \<Rightarrow> string \<Rightarrow> db \<Rightarrow> store_error + db" where
  "HeartbeatIssue e x actor s =
    (let isWisp = IsActiveWisp s x;
         (rows, n) = update_where
            (\<lambda>r. ID r = x \<and> Status r = StatusInProgress \<and> \<not> AssigneeNull r \<and> Assignee r = actor)
            (leaseSetClause e x) (issue_table isWisp s)
     in if n = 0 then
          (case select_row x (issue_table isWisp s) of
             None \<Rightarrow> Inl (NotClaimable x '''')
           | Some r \<Rightarrow>
               if Assignee r \<noteq> '''' \<and> Assignee r \<noteq> actor then Inl (AlreadyClaimed (Assignee r))
               else Inl (NotClaimable x (Status r)))
        else Inr (set_issue_table isWisp rows s))"

subsection \<open>Reclaim\<close>

definition stale_lease :: "time \<Rightarrow> issue_row \<Rightarrow> bool" where
  "stale_lease cutoff r = (Status r = StatusInProgress \<and>
     (case LeaseExpiresAt r of None \<Rightarrow> False | Some t \<Rightarrow> t < cutoff))"

definition reclaim_set :: "env \<Rightarrow> string \<Rightarrow> issue_row \<Rightarrow> issue_row" where
  "reclaim_set e x r = r\<lparr>Status := StatusOpen, Assignee := '''', AssigneeNull := True, StartedAt := None,
     LeaseExpiresAt := None, HeartbeatAt := None, UpdatedAt := now e, RowLock := freshRowLock e x\<rparr>"

text \<open>One stale lease of the snapshot: the UPDATE repeats the predicate.\<close>

definition reclaim_one ::
  "env \<Rightarrow> time \<Rightarrow> string \<Rightarrow> string \<times> string \<Rightarrow> db \<times> (string \<times> string) list \<Rightarrow> db \<times> (string \<times> string) list" where
  "reclaim_one e cutoff actor r st =
    (let (s, reclaimed) = st;
         (rows, n) = update_where (\<lambda>i. ID i = fst r \<and> stale_lease cutoff i) (reclaim_set e (fst r)) (t_issues s)
     in if n = 0 then (s, reclaimed)
        else (RecordFullEvent False (fst r) ''lease_reclaimed'' actor (snd r) '''' (s\<lparr>t_issues := rows\<rparr>),
              reclaimed @ [r]))"

definition ReclaimExpiredLeases :: "env \<Rightarrow> time \<Rightarrow> string \<Rightarrow> db \<Rightarrow> db \<times> (string \<times> string) list" where
  "ReclaimExpiredLeases e cutoff actor s =
    (let stale = map (\<lambda>i. (ID i, Assignee i)) (filter (stale_lease cutoff) (t_issues s))
     in if stale = [] then (s, []) else fold (reclaim_one e cutoff actor) stale (s, []))"

subsection \<open>Close and reopen\<close>

record close_result =
  ClosedWisp :: bool
  AlreadyClosed :: bool

definition close_set :: "env \<Rightarrow> string \<Rightarrow> string \<Rightarrow> string \<Rightarrow> issue_row \<Rightarrow> issue_row" where
  "close_set e x reason session r =
     r\<lparr>Status := StatusClosed, ClosedAt := Some (now e), UpdatedAt := now e, CloseReason := reason,
       ClosedBySession := session, LeaseExpiresAt := None, HeartbeatAt := None, RowLock := freshRowLock e x\<rparr>"

definition closeIssue ::
  "env \<Rightarrow> string \<Rightarrow> string \<Rightarrow> string \<Rightarrow> string \<Rightarrow> bool \<Rightarrow> db \<Rightarrow> (store_error + (close_result \<times> db)) option" where
  "closeIssue e x reason actor session recordEvent s =
    (let isWisp = IsActiveWisp s x;
         (affectedIssues, affectedWisps) =
            (if isWisp then AffectedByStatusChangeForWisp s x else AffectedByStatusChange s x);
         (rows, n) = update_where (\<lambda>r. ID r = x \<and> Status r \<noteq> StatusClosed) (close_set e x reason session)
                       (issue_table isWisp s)
     in if n = 0 then
          (case select_row x (issue_table isWisp s) of
             None \<Rightarrow> Some (Inl (NotFound x))
           | Some r \<Rightarrow>
               if Status r = StatusClosed
               then Some (Inr (\<lparr>ClosedWisp = isWisp, AlreadyClosed = True\<rparr>, s))
               else Some (Inl (OpFailed ''failed to close issue'')))
        else
          (let s1 = set_issue_table isWisp rows s;
               s2 = (if recordEvent then RecordFullEvent isWisp x ''closed'' actor '''' reason s1 else s1)
           in map_option (\<lambda>s3. Inr (\<lparr>ClosedWisp = isWisp, AlreadyClosed = False\<rparr>, s3))
                (recomputeIsBlocked e affectedIssues affectedWisps s2)))"

definition CloseIssue ::
  "env \<Rightarrow> string \<Rightarrow> string \<Rightarrow> string \<Rightarrow> string \<Rightarrow> db \<Rightarrow> (store_error + (close_result \<times> db)) option" where
  "CloseIssue e x reason actor session s = closeIssue e x reason actor session True s"

record reopen_result =
  ReopenedWisp :: bool
  AlreadyOpen :: bool

definition reopen_set :: "env \<Rightarrow> issue_row \<Rightarrow> issue_row" where
  "reopen_set e r = r\<lparr>Status := StatusOpen, ClosedAt := None, CloseReason := '''', ClosedBySession := '''',
     DeferUntil := None, UpdatedAt := now e\<rparr>"

definition ReopenIssue ::
  "env \<Rightarrow> string \<Rightarrow> string \<Rightarrow> string \<Rightarrow> db \<Rightarrow> (store_error + (reopen_result \<times> db)) option" where
  "ReopenIssue e x reason actor s =
    (let isWisp = IsActiveWisp s x;
         (affectedIssues, affectedWisps) =
            (if isWisp then AffectedByStatusChangeForWisp s x else AffectedByStatusChange s x);
         (rows, n) = update_where (\<lambda>r. ID r = x \<and> Status r = StatusClosed) (reopen_set e) (issue_table isWisp s)
     in if n = 0 then
          (case select_row x (issue_table isWisp s) of
             None \<Rightarrow> Some (Inl (NotFound x))
           | Some r \<Rightarrow>
               if Status r \<noteq> StatusClosed
               then Some (Inr (\<lparr>ReopenedWisp = isWisp, AlreadyOpen = True\<rparr>, s))
               else Some (Inl (OpFailed ''failed to reopen issue'')))
        else
          (let s1 = RecordFullEvent isWisp x ''reopened'' actor '''' reason (set_issue_table isWisp rows s);
               s2 = (if reason \<noteq> '''' then AddCommentEvent x actor reason s1 else s1)
           in map_option (\<lambda>s3. Inr (\<lparr>ReopenedWisp = isWisp, AlreadyOpen = False\<rparr>, s3))
                (recomputeIsBlocked e affectedIssues affectedWisps s2)))"

end
