(* ===== verification/LifecycleThms.thy ===== *)
theory LifecycleThms
  imports Lifecycle
begin

text \<open>
  Lemmas on the lifecycle operations: the row they change, that the blocked
  column stays consistent, and the invariant all of them keep.
\<close>

lemma set_table_update:
  assumes "update_where p f (issue_table w s) = (rows, n)"
    and p: "\<And>r. p r \<Longrightarrow> ID r = x"
    and f: "\<And>r. ID (f r) = ID r \<and> IsBlocked (f r) = IsBlocked r"
  shows "row_change w x (\<lambda>r. if p r then f r else r) s (set_issue_table w rows s)"
proof -
  have rows: "rows = map (\<lambda>r. if p r then f r else r) (issue_table w s)"
    using assms(1) by (simp add: update_where_def)
  have eq: "map (\<lambda>r. if p r then f r else r) rs = map (\<lambda>r. if ID r = x then (if p r then f r else r) else r) rs" for rs
    by (rule map_cong[OF refl]) (use p in auto)
  have "issue_table v (set_issue_table w rows s) =
      map (\<lambda>r. if v = w \<and> ID r = x then (if p r then f r else r) else r) (issue_table v s)" for v
  proof (cases "v = w")
    case True
    then show ?thesis using eq[of "issue_table w s"] by (simp add: rows)
  next
    case False
    then show ?thesis by simp
  qed
  then show ?thesis
    using f unfolding row_change_def by simp
qed

lemma row_change_events:
  assumes "row_change w x f s s'" and "\<And>v. issue_table v s'' = issue_table v s'" "\<And>v. dep_table v s'' = dep_table v s'"
  shows "row_change w x f s s''"
  using assms by (simp add: row_change_def)

lemma row_change_select:
  assumes "row_change w x f s s'"
  shows "select_row y (issue_table v s') =
    (if v = w \<and> y = x then map_option f (select_row y (issue_table v s)) else select_row y (issue_table v s))"
proof -
  have it: "issue_table v s' = map (\<lambda>r. if v = w \<and> ID r = x then f r else r) (issue_table v s)"
    and f: "\<And>r. ID (f r) = ID r" using assms by (simp_all add: row_change_def)
  have "find (\<lambda>r. ID r = y) (map (\<lambda>r. if v = w \<and> ID r = x then f r else r) rs) =
    (if v = w \<and> y = x then map_option f (find (\<lambda>r. ID r = y) rs) else find (\<lambda>r. ID r = y) rs)" for rs
    by (induction rs) (auto simp: f)
  then show ?thesis unfolding select_row_def it .
qed

lemma update_count:
  assumes "update_where p f rows = (rows', n)" "distinct (map ID rows)" "\<And>r. p r \<Longrightarrow> ID r = x"
  shows "n = (case select_row x rows of Some r \<Rightarrow> (if p r then 1 else 0) | None \<Rightarrow> 0)"
proof -
  have "length (filter p rows) = (case select_row x rows of Some r \<Rightarrow> (if p r then 1 else 0) | None \<Rightarrow> 0)"
    using assms(2)
  proof (induction rows)
    case (Cons a rows)
    show ?case
    proof (cases "ID a = x")
      case True
      then have "x \<notin> ID ` set rows" using Cons.prems by auto
      then have "\<forall>r\<in>set rows. \<not> p r" using assms(3) by blast
      then have "filter p rows = []" by (simp add: filter_empty_conv)
      then show ?thesis using True by (simp add: select_row_def)
    next
      case False
      then have "\<not> p a" using assms(3) by blast
      then show ?thesis using False Cons by (simp add: select_row_def)
    qed
  qed (simp add: select_row_def)
  then show ?thesis using assms(1) by (simp add: update_where_def)
qed

lemma same_but_flags_select:
  assumes "same_but_flags s s'"
  shows "map_option (\<lambda>r. r\<lparr>IsBlocked := False\<rparr>) (select_row x (issue_table w s')) =
         map_option (\<lambda>r. r\<lparr>IsBlocked := False\<rparr>) (select_row x (issue_table w s))"
proof -
  have "select_row x (erase_rows rs) = map_option (\<lambda>r. r\<lparr>IsBlocked := False\<rparr>) (select_row x rs)" for rs
    by (induction rs) (auto simp: select_row_def erase_rows_def)
  moreover have "erase_rows (issue_table w s') = erase_rows (issue_table w s)"
    using assms by (simp add: same_but_flags_def flip: issue_table_erase)
  ultimately show ?thesis by metis
qed

lemma IsActiveWisp_ids:
  "(\<And>w. map ID (issue_table w s') = map ID (issue_table w s)) \<Longrightarrow> IsActiveWisp s' = IsActiveWisp s"
  by (rule ext) (metis IsActiveWisp_table image_set)

lemma row_change_ids: "row_change w x f s s' \<Longrightarrow> map ID (issue_table v s') = map ID (issue_table v s)"
  by (auto simp: row_change_def)

subsection \<open>The invariant\<close>

text \<open>Keys, consistent flags, an acyclic parent relation, and \<^verbatim>\<open>closed_at\<close> set exactly on closed rows.\<close>

definition rows_closed_at :: "db \<Rightarrow> bool" where
  "rows_closed_at s = (\<forall>w. \<forall>r\<in>set (issue_table w s). closed_at_invariant r)"

definition good_db :: "env \<Rightarrow> db \<Rightarrow> bool" where
  "good_db e s = (wf_db s \<and> acyclic_parents s \<and> blocked_consistent e s \<and> rows_closed_at s)"

lemma rows_closed_at_change:
  assumes "row_change w x f s s'" "rows_closed_at s"
    and "\<And>r. closed_at_invariant r \<Longrightarrow> closed_at_invariant (f r)"
  shows "rows_closed_at s'"
proof -
  have "issue_table v s' = map (\<lambda>r. if v = w \<and> ID r = x then f r else r) (issue_table v s)" for v
    using assms(1) by (simp add: row_change_def)
  then show ?thesis using assms(2,3) by (auto simp: rows_closed_at_def)
qed

lemma rows_closed_at_same:
  assumes "same_but_flags s s'"
  shows "rows_closed_at s' = rows_closed_at s"
proof -
  have k: "closed_at_invariant (r\<lparr>IsBlocked := False\<rparr>) = closed_at_invariant r" for r
    by (simp add: closed_at_invariant_def)
  have "rows_closed_at t = (\<forall>w. \<not> (\<exists>r\<in>set (erase_rows (issue_table w t)). \<not> closed_at_invariant r))" for t
    unfolding rows_closed_at_def bex_erase_rows k by blast
  moreover have "erase_rows (issue_table w s') = erase_rows (issue_table w s)" for w
    using assms by (simp add: same_but_flags_def flip: issue_table_erase)
  ultimately show ?thesis by simp
qed

lemma acyclic_parents_same: "same_but_flags s s' \<Longrightarrow> acyclic_parents s' = acyclic_parents s"
  using same_but_flags_views[of s s'] by (simp add: acyclic_parents_def parent_edges_def)

text \<open>A change of one row that keeps its activity keeps the invariant.\<close>

lemma good_db_change:
  assumes g: "good_db e s" and c: "row_change w x f s s'"
    and ac: "\<And>r. r \<in> set (issue_table w s) \<Longrightarrow> ID r = x \<Longrightarrow> active_status (Status (f r)) = active_status (Status r) \<and>
       (Status (f r) = StatusClosed) = (Status r = StatusClosed)"
    and ca: "\<And>r. closed_at_invariant r \<Longrightarrow> closed_at_invariant (f r)"
  shows "good_db e s'"
proof -
  have g': "wf_db s" "acyclic_parents s" "blocked_consistent e s" "rows_closed_at s"
    using g by (simp_all add: good_db_def)
  have "blocked_consistent e s'" by (rule row_change_consistent[OF g'(1,3) c ac])
  moreover have "rows_closed_at s'" by (rule rows_closed_at_change[OF c g'(4) ca])
  ultimately show ?thesis using g'(1,2) row_change_views(1,5)[OF c] by (simp add: good_db_def)
qed

text \<open>A change of status followed by the recompute of the affected rows keeps it.\<close>

lemma good_db_status:
  assumes g: "good_db e s" and c: "row_change w x f s s'" and q: "affected_status w s x = (is, ws)"
    and ca: "\<And>r. closed_at_invariant r \<Longrightarrow> closed_at_invariant (f r)"
  shows "\<exists>r. recomputeIsBlocked e is ws s' = Some r \<and> good_db e r \<and> same_but_flags s' r"
proof -
  obtain r where r: "recomputeIsBlocked e is ws s' = Some r" "wf_db r" "same_but_flags s' r" "blocked_consistent e r"
    using status_change_repairs[OF _ _ _ c q, of e] g unfolding good_db_def by blast
  have "acyclic_parents r" using acyclic_parents_same[OF r(3)] row_change_views(5)[OF c] g by (simp add: good_db_def)
  moreover have "rows_closed_at r"
    using rows_closed_at_same[OF r(3)] rows_closed_at_change[OF c _ ca] g by (simp add: good_db_def)
  ultimately show ?thesis using r by (auto simp: good_db_def)
qed

lemma good_db_tables:
  assumes "\<And>v. issue_table v s' = issue_table v s" "\<And>v. dep_table v s' = dep_table v s"
  shows "good_db e s' = good_db e s"
proof -
  have t: "t_issues s' = t_issues s" "t_wisps s' = t_wisps s" "t_deps s' = t_deps s" "t_wisp_deps s' = t_wisp_deps s"
    using assms(1)[of False] assms(1)[of True] assms(2)[of False] assms(2)[of True]
    by (simp_all add: table_defs)
  have "shouldBeBlocked e s' w x = shouldBeBlocked e s w x" for w x
    by (simp add: shouldBeBlocked_def hard_blocked_def parent_blocked_def waits_blocked_def joined_target_def
        waitsForGateBlocked_def spawned_child_def t assms(2))
  moreover have "parent_edges s' = parent_edges s"
    by (simp add: parent_edges_def nodes_def parents_def assms)
  ultimately show ?thesis
    by (simp add: good_db_def wf_db_def acyclic_parents_def blocked_consistent_def rows_closed_at_def assms)
qed

end
