(* ===== verification/LifecycleOps.thy ===== *)
theory LifecycleOps
  imports LifecycleThms
begin

text \<open>
  The specification of each lifecycle operation on a database that satisfies the
  invariant: which row it changes and how, on every branch, and that the
  invariant is kept.
\<close>

subsection \<open>Claim and heartbeat\<close>

lemma claimable_id: "claimable x a r \<Longrightarrow> ID r = x"
  by (simp add: claimable_def)

lemma claim_set_keeps: "ID (claim_set e a b x r) = ID r \<and> IsBlocked (claim_set e a b x r) = IsBlocked r"
  by (simp add: claim_set_def leaseSetClause_def Let_def)

lemma ClaimIssue_cases:
  assumes "ClaimIssue e x a s = Inr (res, s')" "wf_db s"
  obtains (again) r where "s' = s" "select_row x (issue_table (IsActiveWisp s x) s) = Some r"
      "Status r = StatusInProgress" "Assignee r = a"
  | (fresh) r b where "select_row x (issue_table (IsActiveWisp s x) s) = Some r" "claimable x a r"
      "row_change (IsActiveWisp s x) x (\<lambda>r. if claimable x a r then claim_set e a b x r else r) s s'"
proof -
  let ?w = "IsActiveWisp s x"
  obtain old where old: "GetIssue s x = Inr old"
    using assms(1) unfolding ClaimIssue_def Let_def bind_res_Inr by blast
  obtain rows n where u: "update_where (claimable x a) (claim_set e a (StartedAt old = None) x) (issue_table ?w s) = (rows, n)"
    by fastforce
  have n: "n = (case select_row x (issue_table ?w s) of Some r \<Rightarrow> (if claimable x a r then 1 else 0) | None \<Rightarrow> 0)"
    by (rule update_count[OF u]) (use assms(2) claimable_id in auto)
  show ?thesis
  proof (cases "n = 0")
    case True
    then show ?thesis
      using assms(1) old u again by (auto simp: ClaimIssue_def Let_def split: option.splits if_splits)
  next
    case False
    then obtain r where r: "select_row x (issue_table ?w s) = Some r" "claimable x a r"
      using n by (auto split: option.splits if_splits)
    have "row_change ?w x (\<lambda>r. if claimable x a r then claim_set e a (StartedAt old = None) x r else r) s
        (set_issue_table ?w rows s)"
      by (rule set_table_update[OF u]) (use claimable_id claim_set_keeps in auto)
    moreover have "s' = RecordFullEvent ?w x ''claimed'' a (marshal_issue e old)
        (marshal_map e [(''assignee'', a), (''status'', ''in_progress'')]) (set_issue_table ?w rows s)"
      using assms(1) old u False by (auto simp: ClaimIssue_def Let_def)
    ultimately have "row_change ?w x (\<lambda>r. if claimable x a r then claim_set e a (StartedAt old = None) x r else r) s s'"
      by (auto intro: row_change_events)
    with r fresh show ?thesis by blast
  qed
qed

lemma ClaimIssue_good:
  assumes g: "good_db e s" and c: "ClaimIssue e' x a s = Inr (res, s')"
  shows "good_db e s'"
proof -
  have wf: "wf_db s" using g by (simp add: good_db_def)
  show ?thesis
    using c wf
  proof (cases rule: ClaimIssue_cases)
    case again
    with g show ?thesis by simp
  next
    case (fresh r b)
    show ?thesis
      by (rule good_db_change[OF g fresh(3)])
        (auto simp: claimable_def claim_set_def leaseSetClause_def active_status_def closed_at_invariant_def Let_def)
  qed
qed

lemma claim_post:
  assumes wf: "wf_db s" and c: "ClaimIssue e x a s = Inr (res, s')"
  shows "\<exists>r. select_row x (issue_table (IsActiveWisp s x) s') = Some r \<and> Status r = StatusInProgress \<and>
     Assignee r = a \<and> (s' = s \<or> LeaseExpiresAt r = Some (now e + leaseTTL e) \<and> HeartbeatAt r = Some (now e) \<and>
       RowLock r \<noteq> 0) \<and> IsActiveWisp s' = IsActiveWisp s \<and> wf_db s'"
  using c wf
proof (cases rule: ClaimIssue_cases)
  case again
  with wf show ?thesis by blast
next
  case (fresh r b)
  have i: "IsActiveWisp s' = IsActiveWisp s" by (rule IsActiveWisp_ids) (rule row_change_ids[OF fresh(3)])
  have "wf_db s'" using row_change_views(1)[OF fresh(3)] wf by simp
  moreover have "select_row x (issue_table (IsActiveWisp s x) s') = Some (claim_set e a b x r)"
    using row_change_select[OF fresh(3)] fresh(1,2) by simp
  ultimately show ?thesis
    using i freshRowLock_nonzero by (simp add: claim_set_def leaseSetClause_def Let_def)
qed

lemma GetIssue_active:
  assumes "select_row x (issue_table (IsActiveWisp s x) s) = Some r"
  shows "\<exists>q. GetIssue s x = Inr q"
  using assms by (auto simp: GetIssue_def issue_table_def split: if_splits option.splits)

lemma HeartbeatIssue_cases:
  assumes "HeartbeatIssue e x a s = Inr s'" "wf_db s"
  defines "p \<equiv> \<lambda>r. ID r = x \<and> Status r = StatusInProgress \<and> \<not> AssigneeNull r \<and> Assignee r = a"
  obtains r where "select_row x (issue_table (IsActiveWisp s x) s) = Some r" "p r"
    "row_change (IsActiveWisp s x) x (\<lambda>r. if p r then leaseSetClause e x r else r) s s'"
proof -
  let ?w = "IsActiveWisp s x"
  obtain rows n where u: "update_where p (leaseSetClause e x) (issue_table ?w s) = (rows, n)" by fastforce
  have n: "n = (case select_row x (issue_table ?w s) of Some r \<Rightarrow> (if p r then 1 else 0) | None \<Rightarrow> 0)"
    by (rule update_count[OF u]) (use assms(2) in \<open>auto simp: p_def\<close>)
  have "n \<noteq> 0 \<and> s' = set_issue_table ?w rows s"
    using assms(1) u unfolding p_def
    by (auto simp: HeartbeatIssue_def Let_def split: option.splits if_splits)
  moreover have "row_change ?w x (\<lambda>r. if p r then leaseSetClause e x r else r) s (set_issue_table ?w rows s)"
    by (rule set_table_update[OF u]) (auto simp: p_def leaseSetClause_def)
  ultimately show ?thesis using n that by (auto split: option.splits if_splits)
qed

lemma HeartbeatIssue_good:
  assumes g: "good_db e s" and c: "HeartbeatIssue e' x a s = Inr s'"
  shows "good_db e s'"
proof -
  have wf: "wf_db s" using g by (simp add: good_db_def)
  obtain r where "row_change (IsActiveWisp s x) x (\<lambda>r. if ID r = x \<and> Status r = StatusInProgress \<and>
      \<not> AssigneeNull r \<and> Assignee r = a then leaseSetClause e' x r else r) s s'"
    using HeartbeatIssue_cases[OF c wf] by blast
  then show ?thesis
    by (rule good_db_change[OF g]) (auto simp: leaseSetClause_def closed_at_invariant_def)
qed

subsection \<open>Reclaim\<close>

lemma reclaim_set_keeps [simp]:
  "ID (reclaim_set e x r) = ID r" "IsBlocked (reclaim_set e x r) = IsBlocked r"
  "\<not> stale_lease c (reclaim_set e x r)"
  by (simp_all add: reclaim_set_def stale_lease_def)

lemma reclaim_one_step:
  assumes "reclaim_one e c a q (s, acc) = (s', acc')"
  shows "row_change False (fst q) (\<lambda>r. if ID r = fst q \<and> stale_lease c r then reclaim_set e (fst q) r else r) s s'"
    and "acc' = (if \<exists>r\<in>set (t_issues s). ID r = fst q \<and> stale_lease c r then acc @ [q] else acc)"
proof -
  let ?p = "\<lambda>r. ID r = fst q \<and> stale_lease c r"
  obtain rows n where u: "update_where ?p (reclaim_set e (fst q)) (t_issues s) = (rows, n)" by fastforce
  have u': "update_where ?p (reclaim_set e (fst q)) (issue_table False s) = (rows, n)"
    using u by (simp add: issue_table_def)
  have rc: "row_change False (fst q) (\<lambda>r. if ?p r then reclaim_set e (fst q) r else r) s (set_issue_table False rows s)"
    by (rule set_table_update[OF u']) auto
  have n: "n = 0 \<longleftrightarrow> \<not> (\<exists>r\<in>set (t_issues s). ?p r)"
    using u by (auto simp: update_where_def filter_empty_conv)
  have z: "n = 0 \<Longrightarrow> rows = t_issues s"
    using update_where_zero[of ?p "reclaim_set e (fst q)" "t_issues s"] u by simp
  show "row_change False (fst q) (\<lambda>r. if ?p r then reclaim_set e (fst q) r else r) s s'"
    using assms u rc z
    by (cases "n = 0")
      (auto simp: reclaim_one_def Let_def set_issue_table_def intro: row_change_events)
  show "acc' = (if \<exists>r\<in>set (t_issues s). ?p r then acc @ [q] else acc)"
    using assms u n by (auto simp: reclaim_one_def Let_def split: if_splits)
qed

lemma reclaim_one_good:
  assumes "good_db e s" "reclaim_one e' c a q (s, acc) = (s', acc')"
  shows "good_db e s'"
  by (rule good_db_change[OF assms(1) reclaim_one_step(1)[OF assms(2)]])
    (auto simp: reclaim_set_def stale_lease_def active_status_def closed_at_invariant_def)

lemma reclaim_fold_good:
  "good_db e s \<Longrightarrow> fold (reclaim_one e' c a) qs (s, acc) = (s', acc') \<Longrightarrow> good_db e s'"
proof (induction qs arbitrary: s acc)
  case (Cons q qs)
  obtain s1 acc1 where q: "reclaim_one e' c a q (s, acc) = (s1, acc1)" by fastforce
  show ?case
    by (rule Cons.IH[OF reclaim_one_good[OF Cons.prems(1) q]]) (use Cons.prems(2) q in simp)
qed simp

lemma ReclaimExpiredLeases_good:
  assumes "good_db e s" "ReclaimExpiredLeases e' c a s = (s', rs)"
  shows "good_db e s'"
  using assms reclaim_fold_good[OF assms(1)]
  by (auto simp: ReclaimExpiredLeases_def Let_def split: if_splits)

lemma reclaim_fold_rows:
  assumes "distinct (map fst qs)" "\<forall>q\<in>set qs. \<exists>r\<in>set (t_issues s). ID r = fst q \<and> stale_lease c r"
    and "fold (reclaim_one e c a) qs (s, acc) = (s', acc')"
  shows "t_issues s' = map (\<lambda>r. if ID r \<in> fst ` set qs \<and> stale_lease c r then reclaim_set e (ID r) r else r) (t_issues s) \<and>
     t_wisps s' = t_wisps s \<and> acc' = acc @ qs"
  using assms
proof (induction qs arbitrary: s acc)
  case (Cons q qs)
  let ?g = "\<lambda>r. if ID r = fst q \<and> stale_lease c r then reclaim_set e (ID r) r else r"
  obtain s1 acc1 where q: "reclaim_one e c a q (s, acc) = (s1, acc1)" by fastforce
  note st = reclaim_one_step[OF q]
  have acc1: "acc1 = acc @ [q]" using st(2) Cons.prems(2) by simp
  have "issue_table False s1 = map ?g (issue_table False s)"
    using st(1) by (auto simp: row_change_def)
  then have t1: "t_issues s1 = map ?g (t_issues s)" by (simp add: issue_table_def)
  have "issue_table True s1 = issue_table True s" using st(1) by (simp add: row_change_def)
  then have w1: "t_wisps s1 = t_wisps s" by (simp add: issue_table_def)
  have "\<exists>r\<in>set (t_issues s1). ID r = fst q' \<and> stale_lease c r" if "q' \<in> set qs" for q'
  proof -
    obtain r where r: "r \<in> set (t_issues s)" "ID r = fst q'" "stale_lease c r" using Cons.prems(2) \<open>q' \<in> set qs\<close> by auto
    have "fst q \<notin> fst ` set qs" using Cons.prems(1) by auto
    then have "fst q' \<noteq> fst q" using \<open>q' \<in> set qs\<close> by (metis imageI)
    then have "?g r = r" using r by simp
    then have "r \<in> set (t_issues s1)" unfolding t1 using r(1) by (rule fixed_in_map)
    then show ?thesis using r by blast
  qed
  then have IH: "t_issues s' = map (\<lambda>r. if ID r \<in> fst ` set qs \<and> stale_lease c r then reclaim_set e (ID r) r else r) (t_issues s1) \<and>
     t_wisps s' = t_wisps s1 \<and> acc' = acc1 @ qs"
    using Cons.IH[of s1 acc1] Cons.prems(1,3) q by simp
  have "(\<lambda>r. if ID r \<in> fst ` set qs \<and> stale_lease c r then reclaim_set e (ID r) r else r) (?g r) =
     (if ID r \<in> fst ` set (q # qs) \<and> stale_lease c r then reclaim_set e (ID r) r else r)" for r
    by auto
  then have "t_issues s' = map (\<lambda>r. if ID r \<in> fst ` set (q # qs) \<and> stale_lease c r then reclaim_set e (ID r) r else r) (t_issues s)"
    using IH t1 by (simp add: comp_def)
  with IH w1 acc1 show ?case by simp
qed simp

lemma reclaim_rows:
  assumes wf: "wf_db s" and "ReclaimExpiredLeases e c a s = (s', rs)"
  shows "t_issues s' = map (\<lambda>r. if stale_lease c r then reclaim_set e (ID r) r else r) (t_issues s) \<and>
     t_wisps s' = t_wisps s \<and> rs = map (\<lambda>r. (ID r, Assignee r)) (filter (stale_lease c) (t_issues s))"
proof -
  let ?qs = "map (\<lambda>r. (ID r, Assignee r)) (filter (stale_lease c) (t_issues s))"
  have d: "distinct (map fst ?qs)"
    using distinct_map_filter[OF wf_db_table[OF wf, of False], of "stale_lease c"]
    by (simp add: issue_table_def comp_def)
  have f: "fold (reclaim_one e c a) ?qs (s, []) = (s', rs)"
    using assms(2) by (auto simp: ReclaimExpiredLeases_def Let_def split: if_splits)
  have "t_issues s' = map (\<lambda>r. if ID r \<in> fst ` set ?qs \<and> stale_lease c r then reclaim_set e (ID r) r else r) (t_issues s) \<and>
     t_wisps s' = t_wisps s \<and> rs = [] @ ?qs"
    by (rule reclaim_fold_rows[OF d _ f]) auto
  moreover have "map (\<lambda>r. if ID r \<in> fst ` set ?qs \<and> stale_lease c r then reclaim_set e (ID r) r else r) (t_issues s) =
      map (\<lambda>r. if stale_lease c r then reclaim_set e (ID r) r else r) (t_issues s)"
    by (rule map_cong[OF refl]) (auto simp: image_iff)
  ultimately show ?thesis by simp
qed

subsection \<open>Close and reopen\<close>

lemma affected_routing:
  "(if w then AffectedByStatusChangeForWisp s x else AffectedByStatusChange s x) = affected_status w s x"
  by (simp add: affected_status_def)

lemma closeIssue_spec:
  assumes g: "good_db e s"
  shows "case select_row x (issue_table (IsActiveWisp s x) s) of
      None \<Rightarrow> closeIssue e x reason a sess ev s = Some (Inl (NotFound x))
    | Some r0 \<Rightarrow>
        if Status r0 = StatusClosed
        then closeIssue e x reason a sess ev s = Some (Inr (\<lparr>ClosedWisp = IsActiveWisp s x, AlreadyClosed = True\<rparr>, s))
        else \<exists>s1 s'. closeIssue e x reason a sess ev s = Some (Inr (\<lparr>ClosedWisp = IsActiveWisp s x, AlreadyClosed = False\<rparr>, s')) \<and>
          good_db e s' \<and> same_but_flags s1 s' \<and>
          row_change (IsActiveWisp s x) x (\<lambda>r. if ID r = x \<and> Status r \<noteq> StatusClosed then close_set e x reason sess r else r) s s1"
proof -
  let ?w = "IsActiveWisp s x" let ?p = "\<lambda>r. ID r = x \<and> Status r \<noteq> StatusClosed"
  have wf: "wf_db s" using g by (simp add: good_db_def)
  obtain js ws where q: "affected_status ?w s x = (js, ws)" by fastforce
  obtain rows n where u: "update_where ?p (close_set e x reason sess) (issue_table ?w s) = (rows, n)" by fastforce
  have n: "n = (case select_row x (issue_table ?w s) of Some r \<Rightarrow> (if ?p r then 1 else 0) | None \<Rightarrow> 0)"
    by (rule update_count[OF u]) (use wf in auto)
  show ?thesis
  proof (cases "select_row x (issue_table ?w s)")
    case None
    then show ?thesis using n u q by (simp add: closeIssue_def affected_routing Let_def)
  next
    case (Some r0)
    have id: "ID r0 = x" using select_row_Some[OF Some] by simp
    show ?thesis
    proof (cases "Status r0 = StatusClosed")
      case True
      then show ?thesis using Some n u q by (simp add: closeIssue_def affected_routing Let_def)
    next
      case False
      let ?f = "\<lambda>r. if ?p r then close_set e x reason sess r else r"
      let ?s1 = "set_issue_table ?w rows s"
      let ?s2 = "if ev then RecordFullEvent ?w x ''closed'' a '''' reason ?s1 else ?s1"
      have "row_change ?w x ?f s ?s1"
        by (rule set_table_update[OF u]) (auto simp: close_set_def)
      moreover have ca: "closed_at_invariant (?f r)" if "closed_at_invariant r" for r
        using that by (simp add: closed_at_invariant_def close_set_def)
      ultimately have rc: "row_change ?w x ?f s ?s2" by (auto intro: row_change_events)
      obtain r where r: "recomputeIsBlocked e js ws ?s2 = Some r" "good_db e r" "same_but_flags ?s2 r"
        using good_db_status[OF g rc q ca] by blast
      have "closeIssue e x reason a sess ev s = Some (Inr (\<lparr>ClosedWisp = ?w, AlreadyClosed = False\<rparr>, r))"
        using n u q Some False id r(1) unfolding closeIssue_def affected_routing Let_def by simp
      with Some False r(2,3) rc show ?thesis by auto
    qed
  qed
qed

lemma ReopenIssue_spec:
  assumes g: "good_db e s"
  shows "case select_row x (issue_table (IsActiveWisp s x) s) of
      None \<Rightarrow> ReopenIssue e x reason a s = Some (Inl (NotFound x))
    | Some r0 \<Rightarrow>
        if Status r0 \<noteq> StatusClosed
        then ReopenIssue e x reason a s = Some (Inr (\<lparr>ReopenedWisp = IsActiveWisp s x, AlreadyOpen = True\<rparr>, s))
        else \<exists>s1 s'. ReopenIssue e x reason a s = Some (Inr (\<lparr>ReopenedWisp = IsActiveWisp s x, AlreadyOpen = False\<rparr>, s')) \<and>
          good_db e s' \<and> same_but_flags s1 s' \<and>
          row_change (IsActiveWisp s x) x (\<lambda>r. if ID r = x \<and> Status r = StatusClosed then reopen_set e r else r) s s1"
proof -
  let ?w = "IsActiveWisp s x" let ?p = "\<lambda>r. ID r = x \<and> Status r = StatusClosed"
  have wf: "wf_db s" using g by (simp add: good_db_def)
  obtain js ws where q: "affected_status ?w s x = (js, ws)" by fastforce
  obtain rows n where u: "update_where ?p (reopen_set e) (issue_table ?w s) = (rows, n)" by fastforce
  have n: "n = (case select_row x (issue_table ?w s) of Some r \<Rightarrow> (if ?p r then 1 else 0) | None \<Rightarrow> 0)"
    by (rule update_count[OF u]) (use wf in auto)
  show ?thesis
  proof (cases "select_row x (issue_table ?w s)")
    case None
    then show ?thesis using n u q by (simp add: ReopenIssue_def affected_routing Let_def)
  next
    case (Some r0)
    have id: "ID r0 = x" using select_row_Some[OF Some] by simp
    show ?thesis
    proof (cases "Status r0 = StatusClosed")
      case False
      then show ?thesis using Some n u q by (simp add: ReopenIssue_def affected_routing Let_def)
    next
      case True
      let ?f = "\<lambda>r. if ?p r then reopen_set e r else r"
      let ?s1 = "RecordFullEvent ?w x ''reopened'' a '''' reason (set_issue_table ?w rows s)"
      let ?s2 = "if reason \<noteq> '''' then AddCommentEvent x a reason ?s1 else ?s1"
      have "row_change ?w x ?f s (set_issue_table ?w rows s)"
        by (rule set_table_update[OF u]) (auto simp: reopen_set_def)
      moreover have ca: "closed_at_invariant (?f r)" if "closed_at_invariant r" for r
        using that by (simp add: closed_at_invariant_def reopen_set_def)
      ultimately have rc: "row_change ?w x ?f s ?s2" by (auto intro: row_change_events)
      obtain r where r: "recomputeIsBlocked e js ws ?s2 = Some r" "good_db e r" "same_but_flags ?s2 r"
        using good_db_status[OF g rc q ca] by blast
      have "ReopenIssue e x reason a s = Some (Inr (\<lparr>ReopenedWisp = ?w, AlreadyOpen = False\<rparr>, r))"
        using n u q Some True id r(1) unfolding ReopenIssue_def affected_routing Let_def by simp
      with Some True r(2,3) rc show ?thesis by auto
    qed
  qed
qed

end
