(* ===== verification/Examples.thy ===== *)
theory Examples
  imports LifecycleOps PropsCore
begin

text \<open>Small concrete environments and databases on which the witnesses evaluate the properties.\<close>

declare repeat_until_stable.simps [code]

definition ex_env :: env where
  "ex_env = \<lparr>now = 100, ctx_ttl = None, rand_read = (\<lambda>x. Some 7), unix_nano = 1,
     depid_New = (\<lambda>a b. a @ '':'' @ b),
     json_gate = (\<lambda>m. if m = ''all'' then Some ''all-children''
                      else if m = ''any'' then Some ''any-children'' else None),
     marshal_issue = (\<lambda>r. ''''), marshal_map = (\<lambda>m. ''''), json_ok = (\<lambda>m. True),
     marshal_value = (\<lambda>v. ''''), marshal_updates = (\<lambda>m. ''''), unmarshal_strs = (\<lambda>t. None), unmarshal_left = (\<lambda>t. []),
     yaml_statuses = [], yaml_types = [], yaml_infra = [], metadata_violation = (\<lambda>m. False),
     sha256_Sum = (\<lambda>t. replicate 32 (of_nat (length t))), new_uuid = (\<lambda>t. ''u'' @ t),
     float_ok = (\<lambda>t. False), collision_ok = (\<lambda>p n k. True)\<rparr>"

definition ex_row :: "string \<Rightarrow> status \<Rightarrow> bool \<Rightarrow> issue_row" where
  "ex_row x st b = issue.extend (blank_issue\<lparr>ID := x, Status := st,
       ClosedAt := (if st = ''closed'' then Some 1 else None)\<rparr>)
     \<lparr>IsBlocked = b, RowLock = 0, AssigneeNull = True\<rparr>"

definition ex_dep :: "string \<Rightarrow> string \<Rightarrow> dep_type \<Rightarrow> string \<Rightarrow> dep_row" where
  "ex_dep x y t meta = \<lparr>dep_id = x @ '':'' @ y, issue_id = x, depends_on_issue_id = Some y,
     depends_on_wisp_id = None, depends_on_external = None, dtype = t, created_at = 0,
     created_by = '''', dmetadata = meta, thread_id = ''''\<rparr>"

definition ex_new_dep :: "string \<Rightarrow> string \<Rightarrow> dep_type \<Rightarrow> string \<Rightarrow> dependency" where
  "ex_new_dep x y t m = \<lparr>IssueID = x, DependsOnID = y, DepType = t, DepCreatedAt = 0, DepCreatedBy = '''',
     DepMetadata = m, ThreadID = ''''\<rparr>"

definition ex_db :: "issue_row list \<Rightarrow> dep_row list \<Rightarrow> db" where
  "ex_db rows deps = \<lparr>t_issues = rows, t_wisps = [], t_deps = deps, t_wisp_deps = [], t_labels = [],
     t_wisp_labels = [], t_events = [], t_wisp_events = [], t_comments = [], t_wisp_comments = [],
     t_child_counters = [], t_wisp_child_counters = [], t_counters = [], t_config = [], t_metadata = [],
     t_local_metadata = [], t_custom_types = [], t_custom_statuses = []\<rparr>"

text \<open>A partial operation returns a result that satisfies \<^verbatim>\<open>P\<close>, for evaluation.\<close>

definition returns :: "('e + 'a) option \<Rightarrow> ('a \<Rightarrow> bool) \<Rightarrow> bool" where
  "returns r P = (case r of Some (Inr x) \<Rightarrow> P x | _ \<Rightarrow> False)"

lemma returnsD: "returns r P \<Longrightarrow> \<exists>x. r = Some (Inr x) \<and> P x"
  by (auto simp: returns_def split: option.splits sum.splits)

lemma ex_row_simps [simp]:
  "ID (ex_row x st b) = x" "Status (ex_row x st b) = st" "IsBlocked (ex_row x st b) = b"
  by (simp_all add: ex_row_def issue.defs)

lemma ex_db_simps [simp]:
  "issue_table False (ex_db rows deps) = rows" "issue_table True (ex_db rows deps) = []"
  "dep_table False (ex_db rows deps) = deps" "dep_table True (ex_db rows deps) = []"
  "t_issues (ex_db rows deps) = rows" "t_wisps (ex_db rows deps) = []"
  "t_child_counters (ex_db rows deps) = []" "t_config (ex_db rows deps) = []"
  "\<not> IsActiveWisp (ex_db rows deps) x"
  by (simp_all add: ex_db_def issue_table_def dep_table_def IsActiveWisp_def)

text \<open>\<^verbatim>\<open>bd-2\<close> is blocked by \<^verbatim>\<open>bd-1\<close>, and \<^verbatim>\<open>bd-3\<close> is a child of \<^verbatim>\<open>bd-2\<close>.\<close>

definition chain :: "bool \<Rightarrow> db" where
  "chain b = ex_db [ex_row ''bd-1'' ''open'' False, ex_row ''bd-2'' ''open'' b, ex_row ''bd-3'' ''open'' b]
     [ex_dep ''bd-2'' ''bd-1'' ''blocks'' '''', ex_dep ''bd-3'' ''bd-2'' ''parent-child'' '''']"

definition chain_rank :: "node \<Rightarrow> nat" where
  "chain_rank n = (if snd n = ''bd-3'' then 1 else 0)"

lemma chain_wf: "wf_db (chain b)"
  unfolding wf_db_def all_bool_eq
  by (simp add: chain_def ex_db_def issue_table_def ex_row_def issue.defs)

lemma chain_acyclic: "acyclic_parents (chain b)"
  unfolding acyclic_parents_def
  by (rule acyclic_by_rank[where rank = chain_rank])
    (auto simp: parent_edges_def parents_def dep_table_def chain_def ex_db_def ex_dep_def targets_def
      chain_rank_def const_defs split: if_splits)

lemma chain_consistent: "blocked_consistent ex_env (chain True)"
  by code_simp

lemma chain_good: "good_db ex_env (chain True)"
  unfolding good_db_def
proof (intro conjI)
  show "rows_closed_at (chain True)" by code_simp
qed (rule chain_wf chain_acyclic chain_consistent)+

end
