(* ===== verification/PropsBlocked.thy ===== *)
theory PropsBlocked
  imports Examples
begin

text \<open>Properties of the derived column \<^verbatim>\<open>is_blocked\<close> and of its repair.\<close>

text \<open>
  (C1) On a database whose parent relation is acyclic the full repair returns: its
  result agrees row by row with the reasons, flags exactly the rows that must be
  blocked by the inductive specification, and differs from the input in nothing
  but the flags.
\<close>

theorem recompute_all_correct:
  assumes "wf_db s" "acyclic_parents s"
  shows "\<exists>s' n. RecomputeAllIsBlocked e s = Some (s', n) \<and> blocked_consistent e s' \<and>
     flagged s' = {m. must_block e s m} \<and> erase s' = erase s"
proof -
  obtain r c where r: "RecomputeAllIsBlocked e s = Some (r, c)" "wf_db r" "same_but_flags s r"
    "blocked_consistent e r" using recompute_all[OF assms] by blast
  have "flagged r = {m. must_block e s m}"
    using flagged_must_block[OF r(2) _ r(4)] acyclic_parents_same[OF r(3)] assms(2) must_block_same[OF r(3)]
    by simp
  with r show ?thesis by (auto simp: same_but_flags_def)
qed

theorem recompute_all_correct_witness:
  "\<exists>s' n. RecomputeAllIsBlocked ex_env (chain False) = Some (s', n) \<and> blocked_consistent ex_env s' \<and>
     flagged s' = {m. must_block ex_env (chain False) m} \<and> erase s' = erase (chain False)"
  by (rule recompute_all_correct[OF chain_wf chain_acyclic])

text \<open>
  (C38) The loop that every operation runs after its change returns for any list of rows
  whose parent-child rows form no cycle within the list, however wrong the flags are and
  whatever is flagged outside: afterwards a listed row is flagged exactly when it is active
  and has a reason of its own or a flagged parent, the flags of all other rows are as
  before, and nothing but flags has changed.
\<close>

theorem recompute_terminates:
  assumes "wf_db s" "acyclic (parent_edges s \<inter> scope_of js ws \<times> scope_of js ws)"
  shows "\<exists>s'. recomputeIsBlocked e js ws s = Some s' \<and> erase s' = erase s \<and>
    (\<forall>n. n \<notin> scope_of js ws \<longrightarrow> (n \<in> flagged s' \<longleftrightarrow> n \<in> flagged s)) \<and>
    (\<forall>n\<in>scope_of js ws \<inter> nodes s. n \<in> flagged s' \<longleftrightarrow>
       active_node s n \<and> (own_reason e s n \<or> (\<exists>p\<in>parents s n. p \<in> flagged s')))"
proof -
  obtain r where r: "recomputeIsBlocked e js ws s = Some r" "same_but_flags s r"
    "be.consistent_on e (scope_of js ws) r" "\<forall>n. n \<notin> scope_of js ws \<longrightarrow> (n \<in> flagged r \<longleftrightarrow> n \<in> flagged s)"
    using recompute_settles[OF assms] by blast
  have "n \<in> flagged r \<longleftrightarrow> active_node s n \<and> (own_reason e s n \<or> (\<exists>p\<in>parents s n. p \<in> flagged r))"
    if "n \<in> scope_of js ws \<inter> nodes s" for n
    using r(3) that same_but_flags_views[OF r(2)] by (auto simp: be.consistent_on_def wants_def)
  with r show ?thesis by (auto simp: same_but_flags_def)
qed

theorem recompute_terminates_witness:
  "\<exists>s'. recomputeIsBlocked ex_env [''bd-3''] [] (chain False) = Some s' \<and>
     ((False, ''bd-3'') \<in> flagged s' \<longleftrightarrow> own_reason ex_env (chain False) (False, ''bd-3'') \<or>
        (\<exists>p\<in>parents (chain False) (False, ''bd-3''). p \<in> flagged s')) \<and>
     ((False, ''bd-2'') \<in> flagged s' \<longleftrightarrow> (False, ''bd-2'') \<in> flagged (chain False))"
proof -
  have ac: "acyclic (parent_edges (chain False) \<inter> scope_of [''bd-3''] [] \<times> scope_of [''bd-3''] [])"
    using chain_acyclic[of False] unfolding acyclic_parents_def by (rule acyclic_subset) blast
  have "(False, ''bd-3'') \<in> nodes (chain False)" by (simp add: nodes_def chain_def)
  moreover have "active_node (chain False) (False, ''bd-3'')" by code_simp
  ultimately show ?thesis
    using recompute_terminates[OF chain_wf ac, of ex_env] by (auto simp: scope_of_def)
qed

text \<open>
  The doctor's count of stale flags is zero exactly when the column agrees
  with the reasons on every row, and then the full repair changes nothing and
  reports no correction.
\<close>

theorem count_and_repair_agree:
  "(CountIsBlockedInconsistencies e s = 0 \<longleftrightarrow> blocked_consistent e s) \<and>
   (wf_db s \<and> CountIsBlockedInconsistencies e s = 0 \<longrightarrow> RecomputeAllIsBlocked e s = Some (s, 0))"
  using count_zero_consistent recompute_all_consistent by blast

theorem count_and_repair_agree_witness:
  "RecomputeAllIsBlocked ex_env (chain True) = Some (chain True, 0) \<and>
   CountIsBlockedInconsistencies ex_env (chain True) = 0"
  using count_and_repair_agree[of ex_env "chain True"] chain_wf chain_consistent by blast

text \<open>
  The mark-only loop returns on every database, cyclic or not: flags are only
  added, only to listed rows, and at the end no listed row that should be blocked
  is unflagged.
\<close>

theorem mark_loop_returns:
  assumes "wf_db s"
  shows "\<exists>s'. markIsBlocked e js ws s = Some s' \<and> erase s' = erase s \<and> flagged s \<subseteq> flagged s' \<and>
     flagged s' \<subseteq> flagged s \<union> scope_of js ws \<and>
     (\<forall>n\<in>scope_of js ws. wants e s' (flagged s') n \<longrightarrow> n \<in> flagged s')"
  using mark_loop_total[OF assms, of e js ws] by (auto simp: same_but_flags_def)

theorem mark_loop_returns_witness:
  "\<exists>s'. markIsBlocked ex_env [''bd-2'', ''bd-3''] [] (chain False) = Some s' \<and>
     erase s' = erase (chain False) \<and> flagged (chain False) \<subseteq> flagged s' \<and>
     flagged s' \<subseteq> flagged (chain False) \<union> scope_of [''bd-2'', ''bd-3''] [] \<and>
     (\<forall>n\<in>scope_of [''bd-2'', ''bd-3''] []. wants ex_env s' (flagged s') n \<longrightarrow> n \<in> flagged s')"
  by (rule mark_loop_returns[OF chain_wf])

text \<open>
  (C34) Every consistent column flags at least the rows that must be blocked; with
  acyclic parents it flags exactly those.
\<close>

theorem consistent_means_specification:
  assumes "wf_db s" "blocked_consistent e s"
  shows "{n. must_block e s n} \<subseteq> flagged s \<and> (acyclic_parents s \<longrightarrow> flagged s = {n. must_block e s n})"
  using must_block_flagged[OF assms] flagged_must_block[OF assms(1) _ assms(2)] by blast

theorem consistent_means_specification_witness:
  "flagged (chain True) = {n. must_block ex_env (chain True) n}"
  using consistent_means_specification[OF chain_wf chain_consistent] chain_acyclic by blast

text \<open>
  Parents that form a cycle can hold each other blocked for ever: two open
  issues that are each other's parent, with no blocker at all, are flagged, the
  inconsistency count is zero and the full repair leaves them flagged, although
  nothing must block them.
\<close>

definition parent_pair :: db where
  "parent_pair = ex_db [ex_row ''bd-1'' ''open'' True, ex_row ''bd-2'' ''open'' True]
     [ex_dep ''bd-1'' ''bd-2'' ''parent-child'' '''', ex_dep ''bd-2'' ''bd-1'' ''parent-child'' '''']"

lemma parent_pair_wf: "wf_db parent_pair"
  unfolding wf_db_def all_bool_eq
  by (simp add: parent_pair_def ex_db_def issue_table_def ex_row_def issue.defs)

lemma parent_pair_no_reason: "\<not> own_reason ex_env parent_pair n"
proof -
  have "dtype d = DepParentChild" if "d \<in> set (dep_table w parent_pair)" for d w
    using that by (auto simp: parent_pair_def ex_db_def ex_dep_def dep_table_def const_defs split: if_splits)
  then show ?thesis by (auto simp: own_reason_def hard_blocked_def waits_blocked_def)
qed

theorem parent_cycle_stuck:
  "CountIsBlockedInconsistencies ex_env parent_pair = 0 \<and>
   RecomputeAllIsBlocked ex_env parent_pair = Some (parent_pair, 0) \<and>
   (False, ''bd-1'') \<in> flagged parent_pair \<and> \<not> must_block ex_env parent_pair n"
proof -
  have c: "blocked_consistent ex_env parent_pair" by code_simp
  have "(False, ''bd-1'') \<in> flagged parent_pair"
    by (simp add: flagged_def issue_table_def parent_pair_def ex_db_def ex_row_def issue.defs)
  moreover have "\<not> must_block ex_env parent_pair n"
  proof
    assume "must_block ex_env parent_pair n"
    then show False by (induction rule: must_block.induct) (simp_all add: parent_pair_no_reason)
  qed
  ultimately show ?thesis
    using count_zero_consistent c recompute_all_consistent[OF parent_pair_wf c] by blast
qed

definition parent_ring :: "string \<Rightarrow> db" where
  "parent_ring x = ex_db (map (\<lambda>y. ex_row y ''open'' (y = x)) [''bd-1'', ''bd-2'', ''bd-3''])
     [ex_dep ''bd-1'' ''bd-3'' ''parent-child'' '''', ex_dep ''bd-2'' ''bd-1'' ''parent-child'' '''',
      ex_dep ''bd-3'' ''bd-2'' ''parent-child'' '''']"

lemma parent_ring_pass:
  "recompute_pass ex_env [''bd-1'', ''bd-2'', ''bd-3''] [] (parent_ring ''bd-1'') = (parent_ring ''bd-2'', 2)"
  "recompute_pass ex_env [''bd-1'', ''bd-2'', ''bd-3''] [] (parent_ring ''bd-2'') = (parent_ring ''bd-3'', 2)"
  "recompute_pass ex_env [''bd-1'', ''bd-2'', ''bd-3''] [] (parent_ring ''bd-3'') = (parent_ring ''bd-1'', 2)"
  by code_simp+

text \<open>
  On three issues whose parents form a cycle, with one of them flagged, the
  full repair never returns: every pass moves the flag to the next issue.
\<close>

theorem parent_ring_diverges:
  "RecomputeAllIsBlocked ex_env (parent_ring ''bd-1'') = None"
proof -
  have ids: "map ID (t_issues (parent_ring ''bd-1'')) = [''bd-1'', ''bd-2'', ''bd-3'']"
    "map ID (t_wisps (parent_ring ''bd-1'')) = []"
    by (simp_all add: parent_ring_def ex_db_def ex_row_def issue.defs)
  show ?thesis
    unfolding RecomputeAll_unfold ids
    by (rule loop_diverges[where C = "{parent_ring ''bd-1'', parent_ring ''bd-2'', parent_ring ''bd-3''}"])
      (auto simp: parent_ring_pass numeral_2_eq_2)
qed

text \<open>
  How the gate of a waits-for dependency is evaluated: blocked while a spawned
  child is active, except that one closed child opens the gate when the gate is
  \<^verbatim>\<open>any-children\<close> - or when the metadata names no gate at all, because the SQL
  condition is then NULL.
\<close>

theorem waits_for_gate_meaning:
  "holds (waitsForGateBlocked e s d) \<longleftrightarrow> spawned_child s d active_status \<and>
     (case json_gate e (dmetadata d) of
        None \<Rightarrow> \<not> spawned_child s d (\<lambda>st. st = StatusClosed)
      | Some g \<Rightarrow> (if g = WaitsForAnyChildren then \<not> spawned_child s d (\<lambda>st. st = StatusClosed) else True))"
  by (auto simp: waitsForGateBlocked_def holds_def sql_and_def sql_not_def sql_eq_def split: option.splits)

definition gate_db :: "string \<Rightarrow> db" where
  "gate_db meta = ex_db [ex_row ''bd-1'' ''open'' False, ex_row ''bd-2'' ''closed'' False,
      ex_row ''bd-3'' ''open'' False, ex_row ''bd-9'' ''open'' False]
     [ex_dep ''bd-2'' ''bd-1'' ''parent-child'' '''', ex_dep ''bd-3'' ''bd-1'' ''parent-child'' '''',
      ex_dep ''bd-9'' ''bd-1'' ''waits-for'' meta]"

text \<open>
  Without a gate in its metadata a waiter is released by its first closed
  child, where the documented default is to wait for all children: the same
  database with the gate spelled \<^verbatim>\<open>all-children\<close> keeps the waiter blocked.
\<close>

theorem missing_gate_opens_early:
  "\<not> shouldBeBlocked ex_env (gate_db ''{}'') False ''bd-9'' \<and>
   shouldBeBlocked ex_env (gate_db ''all'') False ''bd-9'' \<and>
   ParseWaitsForGateMetadata (\<lambda>m. Some '''') ''{}'' = WaitsForAllChildren"
  by code_simp

end
