(* ===== verification/PropsLifecycle.thy ===== *)
theory PropsLifecycle
  imports Examples
begin

text \<open>Properties of claims, leases, close and reopen.\<close>

text \<open>
  (C21) A claim that succeeds leaves the issue in progress and assigned to the
  claimer; unless it was the claimer's own repeated claim, which changes nothing,
  the row carries a fresh lease, heartbeat and non-zero row lock. A later claim by
  anyone else fails with the holder's name.
\<close>

theorem claim_exclusive:
  assumes "wf_db s" "ClaimIssue e x a s = Inr (res, s')" and "a \<noteq> ''''" "b \<noteq> a"
  shows "(\<exists>r. select_row x (issue_table (IsActiveWisp s x) s') = Some r \<and> Status r = StatusInProgress \<and>
       Assignee r = a \<and> (s' = s \<or> LeaseExpiresAt r = Some (now e + leaseTTL e) \<and>
         HeartbeatAt r = Some (now e) \<and> RowLock r \<noteq> 0)) \<and>
     ClaimIssue e' x b s' = Inl (AlreadyClaimed a)"
proof -
  let ?w = "IsActiveWisp s x"
  obtain r where r: "select_row x (issue_table ?w s') = Some r" "Status r = StatusInProgress" "Assignee r = a"
    "s' = s \<or> LeaseExpiresAt r = Some (now e + leaseTTL e) \<and> HeartbeatAt r = Some (now e) \<and> RowLock r \<noteq> 0"
    and i: "IsActiveWisp s' = IsActiveWisp s" and wf: "wf_db s'"
    using claim_post[OF assms(1,2)] by blast
  have r': "select_row x (issue_table (IsActiveWisp s' x) s') = Some r" using r(1) i by simp
  obtain old where old: "GetIssue s' x = Inr old" using GetIssue_active[OF r'] by blast
  obtain rows n where u: "update_where (claimable x b) (claim_set e' b (StartedAt old = None) x)
      (issue_table (IsActiveWisp s' x) s') = (rows, n)" by fastforce
  have "n = (case select_row x (issue_table (IsActiveWisp s' x) s') of Some r \<Rightarrow> (if claimable x b r then 1 else 0) | None \<Rightarrow> 0)"
    by (rule update_count[OF u]) (use wf claimable_id in auto)
  moreover have "\<not> claimable x b r" by (simp add: claimable_def r(2) const_defs)
  ultimately have "n = 0" by (simp add: r')
  then have "ClaimIssue e' x b s' = Inl (AlreadyClaimed a)"
    using old u r' r(2,3) assms(3,4) by (simp add: ClaimIssue_def Let_def)
  with r show ?thesis by blast
qed

theorem claim_exclusive_witness:
  "\<exists>res s'. ClaimIssue ex_env ''bd-1'' ''alice'' (chain True) = Inr (res, s') \<and>
     ClaimIssue ex_env ''bd-1'' ''bob'' s' = Inl (AlreadyClaimed ''alice'')"
proof -
  have "is_ok (ClaimIssue ex_env ''bd-1'' ''alice'' (chain True))" by code_simp
  then obtain res s' where c: "ClaimIssue ex_env ''bd-1'' ''alice'' (chain True) = Inr (res, s')"
    by (auto simp: is_ok_iff)
  show ?thesis using claim_exclusive[OF chain_wf c, of "''bob''" ex_env] c by simp
qed

text \<open>
  (C24) Reclaim reverts exactly the issues in progress whose lease expired before
  the cutoff, reports each with its previous owner, leaves every other row and
  all wisps as they are, and a reverted issue can be claimed again.
\<close>

theorem reclaim_exact:
  assumes "wf_db s" "ReclaimExpiredLeases e cutoff actor s = (s', rs)"
  shows "t_issues s' = map (\<lambda>r. if stale_lease cutoff r then reclaim_set e (ID r) r else r) (t_issues s) \<and>
     t_wisps s' = t_wisps s \<and> rs = map (\<lambda>r. (ID r, Assignee r)) (filter (stale_lease cutoff) (t_issues s)) \<and>
     claimable x a (reclaim_set e x (r\<lparr>ID := x\<rparr>))"
  using reclaim_rows[OF assms] by (simp add: reclaim_set_def claimable_def)

theorem reclaim_exact_witness:
  "snd (ReclaimExpiredLeases ex_env 50 ''sup''
     (ex_db [(ex_row ''bd-1'' ''in_progress'' False)\<lparr>Assignee := ''bob'', LeaseExpiresAt := Some 9\<rparr>,
             (ex_row ''bd-2'' ''in_progress'' False)\<lparr>Assignee := ''eve'', LeaseExpiresAt := Some 99\<rparr>] [])) =
   [(''bd-1'', ''bob'')]"
proof -
  let ?s = "ex_db [(ex_row ''bd-1'' ''in_progress'' False)\<lparr>Assignee := ''bob'', LeaseExpiresAt := Some 9\<rparr>,
             (ex_row ''bd-2'' ''in_progress'' False)\<lparr>Assignee := ''eve'', LeaseExpiresAt := Some 99\<rparr>] []"
  have wf: "wf_db ?s"
    unfolding wf_db_def all_bool_eq by (simp add: ex_db_def issue_table_def ex_row_def issue.defs)
  obtain s' rs where r: "ReclaimExpiredLeases ex_env 50 ''sup'' ?s = (s', rs)" by fastforce
  have "rs = map (\<lambda>r. (ID r, Assignee r)) (filter (stale_lease 50) (t_issues ?s))"
    using reclaim_exact[OF wf r] by blast
  moreover have "\<dots> = [(''bd-1'', ''bob'')]" by code_simp
  ultimately show ?thesis using r by simp
qed

text \<open>
  (C25) A heartbeat succeeds only for the owner of an issue in progress, and a
  reclaim whose cutoff is not past the new expiry leaves that issue with its
  owner.
\<close>

theorem heartbeat_rescues:
  assumes "wf_db s" "HeartbeatIssue e x a s = Inr s1" "\<not> IsActiveWisp s x"
    and "ReclaimExpiredLeases e' cutoff actor s1 = (s2, rs)" "cutoff \<le> now e + leaseTTL e"
  shows "\<exists>r. select_row x (t_issues s2) = Some r \<and> Status r = StatusInProgress \<and> Assignee r = a \<and>
     LeaseExpiresAt r = Some (now e + leaseTTL e)"
proof -
  obtain r0 where r0: "select_row x (issue_table False s) = Some r0" "Status r0 = StatusInProgress" "Assignee r0 = a"
    "\<not> AssigneeNull r0" "ID r0 = x"
    and rc: "row_change False x (\<lambda>r. if ID r = x \<and> Status r = StatusInProgress \<and> \<not> AssigneeNull r \<and>
        Assignee r = a then leaseSetClause e x r else r) s s1"
    using HeartbeatIssue_cases[OF assms(2,1)] assms(3) by auto
  have wf1: "wf_db s1" using row_change_views(1)[OF rc] assms(1) by simp
  let ?r1 = "leaseSetClause e x r0"
  have "select_row x (issue_table False s1) = Some ?r1"
    using row_change_select[OF rc, of x False] r0 by simp
  then have s1: "select_row x (t_issues s1) = Some ?r1" by (simp add: issue_table_def)
  have ns: "\<not> stale_lease cutoff ?r1"
    using assms(5) by (simp add: stale_lease_def leaseSetClause_def)
  have t2: "t_issues s2 = map (\<lambda>r. if stale_lease cutoff r then reclaim_set e' (ID r) r else r) (t_issues s1)"
    using reclaim_rows[OF wf1 assms(4)] by blast
  have "t_issues s2 = fst (update_where (stale_lease cutoff) (\<lambda>r. reclaim_set e' (ID r) r) (t_issues s1))"
    by (simp add: t2 update_where_def)
  moreover have "keeps_id (\<lambda>r. reclaim_set e' (ID r) r)" by (rule keeps_idI) simp
  ultimately have "select_row x (t_issues s2) = Some ?r1"
    using s1 ns by (simp add: select_update_where)
  then show ?thesis using r0 by (simp add: leaseSetClause_def)
qed

theorem heartbeat_rescues_witness:
  "\<exists>s1 s2 rs r. HeartbeatIssue ex_env ''bd-1'' ''bob''
       (ex_db [(ex_row ''bd-1'' ''in_progress'' False)\<lparr>Assignee := ''bob'', AssigneeNull := False\<rparr>] []) = Inr s1 \<and>
     ReclaimExpiredLeases ex_env 90 ''sup'' s1 = (s2, rs) \<and> select_row ''bd-1'' (t_issues s2) = Some r \<and>
     Status r = StatusInProgress \<and> Assignee r = ''bob''"
proof -
  let ?s = "ex_db [(ex_row ''bd-1'' ''in_progress'' False)\<lparr>Assignee := ''bob'', AssigneeNull := False\<rparr>] []"
  have wf: "wf_db ?s"
    unfolding wf_db_def all_bool_eq by (simp add: ex_db_def issue_table_def ex_row_def issue.defs)
  have "is_ok (HeartbeatIssue ex_env ''bd-1'' ''bob'' ?s)" by code_simp
  then obtain s1 where h: "HeartbeatIssue ex_env ''bd-1'' ''bob'' ?s = Inr s1" by (auto simp: is_ok_iff)
  obtain s2 rs where r: "ReclaimExpiredLeases ex_env 90 ''sup'' s1 = (s2, rs)" by fastforce
  have nw: "\<not> IsActiveWisp ?s ''bd-1''" by (simp add: IsActiveWisp_def ex_db_def)
  have "(90 :: int) \<le> now ex_env + leaseTTL ex_env"
    by (simp add: ex_env_def leaseTTL_def DefaultLeaseTTL_def)
  then show ?thesis using heartbeat_rescues[OF wf h nw r] h r by blast
qed

text \<open>
  (C2) Closing on a good database always returns. An unknown id is an error; a
  closed issue is reported as such and nothing changes; otherwise the row is
  closed with its reason, \<^verbatim>\<open>closed_at\<close> and no lease, and the invariant - consistent
  flags everywhere included - holds again.
\<close>

theorem close_complete:
  assumes "good_db e s"
  shows "case select_row x (issue_table (IsActiveWisp s x) s) of
      None \<Rightarrow> CloseIssue e x reason a sess s = Some (Inl (NotFound x))
    | Some r0 \<Rightarrow>
        if Status r0 = StatusClosed
        then CloseIssue e x reason a sess s = Some (Inr (\<lparr>ClosedWisp = IsActiveWisp s x, AlreadyClosed = True\<rparr>, s))
        else \<exists>s' r. CloseIssue e x reason a sess s = Some (Inr (\<lparr>ClosedWisp = IsActiveWisp s x, AlreadyClosed = False\<rparr>, s')) \<and>
          good_db e s' \<and> select_row x (issue_table (IsActiveWisp s x) s') = Some r \<and>
          r\<lparr>IsBlocked := IsBlocked r0\<rparr> = close_set e x reason sess r0"
proof (cases "select_row x (issue_table (IsActiveWisp s x) s)")
  case None
  then show ?thesis using closeIssue_spec[OF assms, of x reason a sess True] by (simp add: CloseIssue_def)
next
  case (Some r0)
  let ?w = "IsActiveWisp s x"
  show ?thesis
  proof (cases "Status r0 = StatusClosed")
    case True
    then show ?thesis
      using Some closeIssue_spec[OF assms, of x reason a sess True] by (simp add: CloseIssue_def)
  next
    case False
    obtain s1 s' where c: "closeIssue e x reason a sess True s = Some (Inr (\<lparr>ClosedWisp = ?w, AlreadyClosed = False\<rparr>, s'))"
      "good_db e s'" "same_but_flags s1 s'"
      and rc: "row_change ?w x (\<lambda>r. if ID r = x \<and> Status r \<noteq> StatusClosed then close_set e x reason sess r else r) s s1"
      using closeIssue_spec[OF assms, of x reason a sess True] Some False by auto
    have "select_row x (issue_table ?w s1) = Some (close_set e x reason sess r0)"
      using row_change_select[OF rc] Some False select_row_Some[OF Some] by simp
    then have "map_option (\<lambda>r. r\<lparr>IsBlocked := False\<rparr>) (select_row x (issue_table ?w s')) =
        Some ((close_set e x reason sess r0)\<lparr>IsBlocked := False\<rparr>)"
      using same_but_flags_select[OF c(3)] by simp
    then obtain r where r: "select_row x (issue_table ?w s') = Some r"
      "r\<lparr>IsBlocked := False\<rparr> = (close_set e x reason sess r0)\<lparr>IsBlocked := False\<rparr>" by auto
    have "r\<lparr>IsBlocked := IsBlocked r0\<rparr> = r\<lparr>IsBlocked := False\<rparr>\<lparr>IsBlocked := IsBlocked r0\<rparr>" by simp
    also have "\<dots> = close_set e x reason sess r0" unfolding r(2) by (simp add: close_set_def)
    finally show ?thesis using Some False c(1,2) r(1) by (auto simp: CloseIssue_def)
  qed
qed

theorem close_complete_witness:
  "\<exists>s'. CloseIssue ex_env ''bd-1'' ''done'' ''alice'' '''' (chain True) =
       Some (Inr (\<lparr>ClosedWisp = False, AlreadyClosed = False\<rparr>, s')) \<and> good_db ex_env s'"
proof -
  have "\<not> IsActiveWisp (chain True) ''bd-1''" by (simp add: IsActiveWisp_def chain_def ex_db_def)
  moreover have "select_row ''bd-1'' (issue_table False (chain True)) = Some (ex_row ''bd-1'' ''open'' False)"
    by (simp add: select_row_def issue_table_def chain_def ex_db_def ex_row_def issue.defs)
  moreover have "Status (ex_row ''bd-1'' ''open'' False) \<noteq> StatusClosed"
    by (simp add: ex_row_def issue.defs const_defs)
  ultimately show ?thesis
    using close_complete[OF chain_good, of "''bd-1''" "''done''" "''alice''" "''''"] by auto
qed

text \<open>
  (C3) Reopening on a good database always returns. Only a closed issue is
  reopened, with \<^verbatim>\<open>closed_at\<close>, the close reason and the deferral cleared, and the
  invariant holds again.
\<close>

theorem reopen_complete:
  assumes "good_db e s"
  shows "case select_row x (issue_table (IsActiveWisp s x) s) of
      None \<Rightarrow> ReopenIssue e x reason a s = Some (Inl (NotFound x))
    | Some r0 \<Rightarrow>
        if Status r0 \<noteq> StatusClosed
        then ReopenIssue e x reason a s = Some (Inr (\<lparr>ReopenedWisp = IsActiveWisp s x, AlreadyOpen = True\<rparr>, s))
        else \<exists>s' r. ReopenIssue e x reason a s = Some (Inr (\<lparr>ReopenedWisp = IsActiveWisp s x, AlreadyOpen = False\<rparr>, s')) \<and>
          good_db e s' \<and> select_row x (issue_table (IsActiveWisp s x) s') = Some r \<and>
          r\<lparr>IsBlocked := IsBlocked r0\<rparr> = reopen_set e r0"
proof (cases "select_row x (issue_table (IsActiveWisp s x) s)")
  case None
  then show ?thesis using ReopenIssue_spec[OF assms, of x reason a] by simp
next
  case (Some r0)
  let ?w = "IsActiveWisp s x"
  show ?thesis
  proof (cases "Status r0 = StatusClosed")
    case False
    then show ?thesis using Some ReopenIssue_spec[OF assms, of x reason a] by simp
  next
    case True
    obtain s1 s' where c: "ReopenIssue e x reason a s = Some (Inr (\<lparr>ReopenedWisp = ?w, AlreadyOpen = False\<rparr>, s'))"
      "good_db e s'" "same_but_flags s1 s'"
      and rc: "row_change ?w x (\<lambda>r. if ID r = x \<and> Status r = StatusClosed then reopen_set e r else r) s s1"
      using ReopenIssue_spec[OF assms, of x reason a] Some True by auto
    have "select_row x (issue_table ?w s1) = Some (reopen_set e r0)"
      using row_change_select[OF rc] Some True select_row_Some[OF Some] by simp
    then have "map_option (\<lambda>r. r\<lparr>IsBlocked := False\<rparr>) (select_row x (issue_table ?w s')) =
        Some ((reopen_set e r0)\<lparr>IsBlocked := False\<rparr>)"
      using same_but_flags_select[OF c(3)] by simp
    then obtain r where r: "select_row x (issue_table ?w s') = Some r"
      "r\<lparr>IsBlocked := False\<rparr> = (reopen_set e r0)\<lparr>IsBlocked := False\<rparr>" by auto
    have "r\<lparr>IsBlocked := IsBlocked r0\<rparr> = r\<lparr>IsBlocked := False\<rparr>\<lparr>IsBlocked := IsBlocked r0\<rparr>" by simp
    also have "\<dots> = reopen_set e r0" unfolding r(2) by (simp add: reopen_set_def)
    finally show ?thesis using Some True c(1,2) r(1) by auto
  qed
qed

theorem reopen_complete_witness:
  "ReopenIssue ex_env ''bd-1'' ''again'' ''alice'' (chain True) =
     Some (Inr (\<lparr>ReopenedWisp = False, AlreadyOpen = True\<rparr>, chain True))"
proof -
  have "\<not> IsActiveWisp (chain True) ''bd-1''" by (simp add: IsActiveWisp_def chain_def ex_db_def)
  moreover have "select_row ''bd-1'' (issue_table False (chain True)) = Some (ex_row ''bd-1'' ''open'' False)"
    by (simp add: select_row_def issue_table_def chain_def ex_db_def ex_row_def issue.defs)
  moreover have "Status (ex_row ''bd-1'' ''open'' False) \<noteq> StatusClosed"
    by (simp add: ex_row_def issue.defs const_defs)
  ultimately show ?thesis
    using reopen_complete[OF chain_good, of "''bd-1''" "''again''" "''alice''"] by simp
qed

end
