(* ===== verification/Cycles.thy ===== *)
theory Cycles
  imports Store GoStrings
begin

text \<open>
  The dependency graph and its cycles (\<^verbatim>\<open>cycles.go\<close> and the reachability query of
  \<^verbatim>\<open>dependencies.go\<close>).  A Go map from a node to its neighbours is an association
  list, so that its nodes are finite and every search terminates.
\<close>

type_synonym graph = "(string \<times> string list) list"

definition adj :: "graph \<Rightarrow> string \<Rightarrow> string list" where
  "adj g x = (case map_of g x of None \<Rightarrow> [] | Some ys \<Rightarrow> ys)"

definition add_edge :: "string \<Rightarrow> string \<Rightarrow> graph \<Rightarrow> graph" where
  "add_edge x y g = AList.update x (adj g x @ [y]) g"

definition edges :: "graph \<Rightarrow> (string \<times> string) set" where
  "edges g = {(x, y). y \<in> set (adj g x)}"

definition graph_nodes :: "graph \<Rightarrow> string set" where
  "graph_nodes g = fst ` set g \<union> (\<Union>p\<in>set g. set (snd p))"

lemma finite_graph_nodes [simp]: "finite (graph_nodes g)"
  by (simp add: graph_nodes_def)

lemma adj_pair: "y \<in> set (adj g x) \<Longrightarrow> \<exists>ys. (x, ys) \<in> set g \<and> y \<in> set ys"
  by (cases "map_of g x") (auto simp: adj_def dest: map_of_SomeD)

lemma adj_nodes: "y \<in> set (adj g x) \<Longrightarrow> y \<in> graph_nodes g"
  using adj_pair by (fastforce simp: graph_nodes_def)

lemma adj_source: "y \<in> set (adj g x) \<Longrightarrow> x \<in> fst ` set g"
  using adj_pair by (force simp: image_iff)

lemma adj_add_edge: "adj (add_edge x y g) z = (if z = x then adj g x @ [y] else adj g z)"
  by (simp add: adj_def add_edge_def update_conv')

lemma edges_add_edge [simp]: "edges (add_edge x y g) = insert (x, y) (edges g)"
  by (auto simp: edges_def adj_add_edge split: if_splits)

definition is_blocking :: "dep_type \<Rightarrow> bool" where
  "is_blocking t = (t = DepBlocks \<or> t = DepConditionalBlocks)"

definition target_id :: "dep_row \<Rightarrow> string" where
  "target_id d = (case dep_target d of Some x \<Rightarrow> x | None \<Rightarrow> '''')"

text \<open>\<^verbatim>\<open>AppendBlockingGraphInTx\<close>, over the tables it is given.\<close>

definition append_rows :: "dep_row list \<Rightarrow> graph \<Rightarrow> graph" where
  "append_rows rows g = fold (\<lambda>d g. if is_blocking (dtype d) then add_edge (issue_id d) (target_id d) g else g) rows g"

definition AppendBlockingGraph :: "db \<Rightarrow> bool list \<Rightarrow> graph \<Rightarrow> graph" where
  "AppendBlockingGraph s depTables g = fold (\<lambda>w. append_rows (dep_table w s)) depTables g"

definition blocking_edges :: "db \<Rightarrow> (string \<times> string) set" where
  "blocking_edges s = {(issue_id d, target_id d) |d. \<exists>w. d \<in> set (dep_table w s) \<and> is_blocking (dtype d)}"

lemma edges_append_rows:
  "edges (append_rows rows g) = edges g \<union> {(issue_id d, target_id d) |d. d \<in> set rows \<and> is_blocking (dtype d)}"
proof (induction rows arbitrary: g)
  case (Cons d rows)
  have "append_rows (d # rows) g =
      append_rows rows (if is_blocking (dtype d) then add_edge (issue_id d) (target_id d) g else g)"
    by (simp add: append_rows_def)
  then show ?case by (auto simp: Cons.IH)
qed (simp add: append_rows_def)

lemma edges_AppendBlockingGraph:
  "edges (AppendBlockingGraph s [False, True] []) = blocking_edges s"
proof -
  have "edges [] = {}" by (simp add: edges_def adj_def)
  then show ?thesis by (auto simp: AppendBlockingGraph_def edges_append_rows blocking_edges_def ex_bool_eq)
qed

subsection \<open>Breadth-first search\<close>

text \<open>
  The parent map is an association list with the latest entry first.  The inner
  loop over the neighbours of a node extends it and the queue, and stops at the
  goal.
\<close>

type_synonym parents_map = "(string \<times> string) list"

definition in_map :: "parents_map \<Rightarrow> string \<Rightarrow> bool" where
  "in_map ps x = (map_of ps x \<noteq> None)"

definition pkeys :: "parents_map \<Rightarrow> string set" where
  "pkeys ps = fst ` set ps"

lemma pkeys_simps [simp]: "pkeys [] = {}" "pkeys (p # ps) = insert (fst p) (pkeys ps)"
  by (simp_all add: pkeys_def)

lemma in_map_iff: "in_map ps x \<longleftrightarrow> x \<in> pkeys ps"
  by (simp add: in_map_def map_of_eq_None_iff pkeys_def)

fun visit_next ::
  "string \<Rightarrow> string \<Rightarrow> string list \<Rightarrow> parents_map \<Rightarrow> string list \<Rightarrow> parents_map \<times> string list \<times> bool" where
  "visit_next goal node [] ps queue = (ps, queue, False)"
| "visit_next goal node (n # ns) ps queue =
    (if in_map ps n then visit_next goal node ns ps queue
     else if n = goal then ((n, node) # ps, queue, True)
     else visit_next goal node ns ((n, node) # ps) (queue @ [n]))"

text \<open>\<^verbatim>\<open>for at := node; at != ""; at = parent[at]\<close>; the map has one entry per step at most.\<close>

fun walk_parents :: "nat \<Rightarrow> parents_map \<Rightarrow> string \<Rightarrow> string list" where
  "walk_parents 0 ps at = []"
| "walk_parents (Suc k) ps at =
    (if at = '''' then []
     else at # walk_parents k ps (case map_of ps at of None \<Rightarrow> '''' | Some p \<Rightarrow> p))"

definition unseen :: "graph \<Rightarrow> parents_map \<Rightarrow> nat" where
  "unseen g ps = card (graph_nodes g - pkeys ps)"

lemma visit_next_grows:
  assumes "visit_next goal node ns ps queue = (ps', queue', b)" "set ns \<subseteq> graph_nodes g"
  shows "unseen g ps' + length queue' \<le> unseen g ps + length queue"
  using assms
proof (induction goal node ns ps queue rule: visit_next.induct)
  case (2 goal node n ns ps queue)
  have less: "unseen g ((n, node) # ps) < unseen g ps" if "\<not> in_map ps n"
    using 2(4) that card_Diff_less[of "graph_nodes g" n "pkeys ps"]
    by (simp add: unseen_def in_map_iff)
  show ?case
    using 2 less by (auto split: if_splits)
qed simp

function bfs :: "graph \<Rightarrow> string \<Rightarrow> string list \<Rightarrow> parents_map \<Rightarrow> string list option" where
  "bfs g goal [] ps = None"
| "bfs g goal (node # queue) ps =
    (case visit_next goal node (adj g node) ps queue of
       (ps', queue', found) \<Rightarrow>
         if found then Some (rev (goal # walk_parents (length ps') ps' node))
         else bfs g goal queue' ps')"
  by pat_completeness auto
termination
proof (relation "measure (\<lambda>(g, goal, queue, ps). unseen g ps + length queue)", goal_cases)
  case (2 g goal node queue ps ps' z queue' found)
  have v: "visit_next goal node (adj g node) ps queue = (ps', queue', found)" using 2 by simp
  have "set (adj g node) \<subseteq> graph_nodes g" using adj_nodes by blast
  from visit_next_grows[OF v this] show ?case by simp
qed simp

definition reachPath :: "graph \<Rightarrow> string \<Rightarrow> string \<Rightarrow> string list option" where
  "reachPath g start goal =
    (if start = goal then Some [start] else bfs g goal [start] [(start, '''')])"

text \<open>The arrow of the rendered cycle, in the bytes of its UTF-8 encoding.\<close>

definition arrow :: string where
  "arrow = [CHR '' '', CHR 0xE2, CHR 0x86, CHR 0x92, CHR '' '']"

fun CycleThroughEdgesInGraph :: "graph \<Rightarrow> (string \<times> string) list \<Rightarrow> string" where
  "CycleThroughEdgesInGraph g [] = ''''"
| "CycleThroughEdgesInGraph g ((source, target) # es) =
    (if source = '''' \<or> target = '''' then CycleThroughEdgesInGraph g es
     else if source = target then source @ arrow @ source
     else (case reachPath g target source of
             None \<Rightarrow> CycleThroughEdgesInGraph g es
           | Some path \<Rightarrow> join_with arrow (source # path)))"

subsection \<open>The recursive query\<close>

text \<open>
  \<^verbatim>\<open>WITH RECURSIVE reachable\<close> with \<^verbatim>\<open>UNION\<close>: the rows found so far, without
  duplicates, and the ones whose successors are still to be joined.
\<close>

function recursive_union :: "(string \<times> string) list \<Rightarrow> string list \<Rightarrow> string list \<Rightarrow> string list" where
  "recursive_union es [] found = found"
| "recursive_union es (x # work) found =
    (let new = dedup_from found (map snd (filter (\<lambda>p. fst p = x) es))
     in recursive_union es (work @ new) (found @ new))"
  by pat_completeness auto
termination
proof (relation "measure (\<lambda>(es, work, found). card (snd ` set es - set found) + length work)", goal_cases)
  case (2 es x work found new)
  let ?U = "snd ` set es"
  have sub: "set new \<subseteq> ?U - set found" and d: "distinct new" using 2 by auto
  have "?U - set (found @ new) = (?U - set found) - set new" by auto
  then have "card (?U - set (found @ new)) = card (?U - set found) - length new"
    using card_Diff_subset[OF _ sub] distinct_card[OF d] by simp
  moreover have "length new \<le> card (?U - set found)"
    using card_mono[OF _ sub] distinct_card[OF d] by simp
  ultimately have "card (?U - set (found @ new)) + length new = card (?U - set found)" by simp
  then show ?case by simp
qed simp

end
