(* ===== verification/CyclesThms.thy ===== *)
theory CyclesThms
  imports Cycles
begin

text \<open>Correctness of the graph searches: what the query and the path search return.\<close>

lemma rtrancl_closed:
  "(x, y) \<in> r\<^sup>* \<Longrightarrow> x \<in> S \<Longrightarrow> (\<And>u v. u \<in> S \<Longrightarrow> (u, v) \<in> r \<Longrightarrow> v \<in> S) \<Longrightarrow> y \<in> S"
  by (induction rule: rtrancl_induct) auto

subsection \<open>The recursive query\<close>

lemma recursive_union_set:
  assumes "set work \<subseteq> set found"
    and "\<forall>x\<in>set found - set work. \<forall>y. (x, y) \<in> set es \<longrightarrow> y \<in> set found"
  shows "set (recursive_union es work found) = (set es)\<^sup>* `` set found"
  using assms
proof (induction es work found rule: recursive_union.induct)
  case (1 es found)
  have "(x, y) \<in> (set es)\<^sup>* \<Longrightarrow> x \<in> set found \<Longrightarrow> y \<in> set found" for x y
    by (erule rtrancl_closed) (use 1 in auto)
  then show ?case by auto
next
  case (2 es x work found)
  define new where "new = dedup_from found (map snd (filter (\<lambda>p. fst p = x) es))"
  have new: "set new = {y. (x, y) \<in> set es} - set found" by (force simp: new_def)
  have IH: "set (recursive_union es (work @ new) (found @ new)) = (set es)\<^sup>* `` set (found @ new)"
  proof (rule 2(1)[OF new_def])
    show "set (work @ new) \<subseteq> set (found @ new)" using 2(2) by auto
    show "\<forall>z\<in>set (found @ new) - set (work @ new). \<forall>y. (z, y) \<in> set es \<longrightarrow> y \<in> set (found @ new)"
    proof (intro ballI allI impI)
      fix z y assume z: "z \<in> set (found @ new) - set (work @ new)" "(z, y) \<in> set es"
      show "y \<in> set (found @ new)"
      proof (cases "z = x")
        case True
        then show ?thesis using z(2) new by auto
      next
        case False
        then have "z \<in> set found - set (x # work)" using z(1) by auto
        then show ?thesis using 2(3) z(2) unfolding set_append by blast
      qed
    qed
  qed
  have x: "x \<in> set found" using 2(2) by simp
  have "(set es)\<^sup>* `` set (found @ new) = (set es)\<^sup>* `` set found"
  proof
    have "(x, y) \<in> (set es)\<^sup>*" if "y \<in> set new" for y using that new by auto
    then show "(set es)\<^sup>* `` set (found @ new) \<subseteq> (set es)\<^sup>* `` set found"
      using x by (auto intro: rtrancl_trans)
  qed auto
  with IH show ?case unfolding recursive_union.simps Let_def new_def[symmetric] by simp
qed

lemma recursive_union_start: "set (recursive_union es [x] [x]) = (set es)\<^sup>* `` {x}"
  using recursive_union_set[of "[x]" "[x]" es] by simp

subsection \<open>Breadth-first search\<close>

text \<open>
  The parent map of a search from \<^verbatim>\<open>start\<close>: its oldest entry is the start, every
  other entry is a new node reached by an edge from an older one.
\<close>

fun search_tree :: "graph \<Rightarrow> string \<Rightarrow> parents_map \<Rightarrow> bool" where
  "search_tree g start [] = False"
| "search_tree g start [(n, p)] = (n = start \<and> p = '''')"
| "search_tree g start ((n, p) # q # ps) =
     (n \<notin> pkeys (q # ps) \<and> p \<in> pkeys (q # ps) \<and> n \<in> set (adj g p) \<and> search_tree g start (q # ps))"

lemma search_tree_add:
  "search_tree g start ps \<Longrightarrow> n \<notin> pkeys ps \<Longrightarrow> p \<in> pkeys ps \<Longrightarrow> n \<in> set (adj g p) \<Longrightarrow>
   search_tree g start ((n, p) # ps)"
  by (cases ps) auto

lemma search_tree_reach:
  "search_tree g start ps \<Longrightarrow> x \<in> pkeys ps \<Longrightarrow> (start, x) \<in> (edges g)\<^sup>*"
proof (induction g start ps arbitrary: x rule: search_tree.induct)
  case (3 g start n p q ps)
  then have "(start, p) \<in> (edges g)\<^sup>*" "(p, n) \<in> edges g" by (auto simp: edges_def)
  then have "(start, n) \<in> (edges g)\<^sup>*" by auto
  with 3 show ?case by auto
qed auto

text \<open>What one run of the inner loop does to the map and the queue.\<close>

lemma visit_next_inv:
  assumes "visit_next goal node ns ps queue = (ps', queue', found)"
    and "search_tree g start ps" "node \<in> pkeys ps" "set ns \<subseteq> set (adj g node)"
    and "goal \<notin> pkeys ps" "set queue \<subseteq> pkeys ps"
  shows "search_tree g start ps' \<and> pkeys ps \<subseteq> pkeys ps' \<and>
    (if found then (\<exists>qs. ps' = (goal, node) # qs)
     else goal \<notin> pkeys ps' \<and> set ns \<subseteq> pkeys ps' \<and>
       set queue' = set queue \<union> (pkeys ps' - pkeys ps))"
  using assms
proof (induction goal node ns ps queue rule: visit_next.induct)
  case (2 goal node n ns ps queue)
  show ?case
  proof (cases "in_map ps n")
    case True
    with 2 show ?thesis by (auto simp: in_map_iff)
  next
    case False
    then have n: "n \<notin> pkeys ps" by (simp add: in_map_iff)
    have t: "search_tree g start ((n, node) # ps)"
      by (rule search_tree_add) (use 2 n in auto)
    show ?thesis
    proof (cases "n = goal")
      case True
      with 2 n t show ?thesis by (auto simp: in_map_iff)
    next
      case g: False
      have "visit_next goal node ns ((n, node) # ps) (queue @ [n]) = (ps', queue', found)"
        using 2(3) False g by simp
      moreover have "set (queue @ [n]) \<subseteq> pkeys ((n, node) # ps)" "goal \<notin> pkeys ((n, node) # ps)"
        "node \<in> pkeys ((n, node) # ps)" "set ns \<subseteq> set (adj g node)" using 2 g by auto
      ultimately have "search_tree g start ps' \<and> pkeys ((n, node) # ps) \<subseteq> pkeys ps' \<and>
        (if found then (\<exists>qs. ps' = (goal, node) # qs)
         else goal \<notin> pkeys ps' \<and> set ns \<subseteq> pkeys ps' \<and>
           set queue' = set (queue @ [n]) \<union> (pkeys ps' - pkeys ((n, node) # ps)))"
        by (intro 2(2)[OF False g _ t])
      then show ?thesis using n by (cases found) auto
    qed
  qed
qed auto

lemma bfs_none:
  assumes "bfs g goal queue ps = None" "search_tree g start ps" "goal \<notin> pkeys ps"
    and "set queue \<subseteq> pkeys ps"
    and "\<forall>x\<in>pkeys ps - set queue. set (adj g x) \<subseteq> pkeys ps"
  shows "(start, goal) \<notin> (edges g)\<^sup>*"
  using assms
proof (induction g goal queue ps rule: bfs.induct)
  case (1 g goal ps)
  have "start \<in> pkeys ps" using 1(2) by (induction g start ps rule: search_tree.induct) auto
  moreover have "(x, y) \<in> (edges g)\<^sup>* \<Longrightarrow> x \<in> pkeys ps \<Longrightarrow> y \<in> pkeys ps" for x y
    by (erule rtrancl_closed) (use 1(5) in \<open>auto simp: edges_def\<close>)
  ultimately show ?case using 1(3) by blast
next
  case (2 g goal node queue ps)
  obtain ps' queue' found where v: "visit_next goal node (adj g node) ps queue = (ps', queue', found)"
    by (cases "visit_next goal node (adj g node) ps queue") auto
  have nf: "\<not> found" using 2(2) v by auto
  have inv: "search_tree g start ps' \<and> pkeys ps \<subseteq> pkeys ps' \<and> goal \<notin> pkeys ps' \<and>
      set (adj g node) \<subseteq> pkeys ps' \<and> set queue' = set queue \<union> (pkeys ps' - pkeys ps)"
    using visit_next_inv[OF v 2(3) _ subset_refl 2(4)] 2(5) nf by auto
  have b: "bfs g goal queue' ps' = None" using 2(2) v nf by simp
  show ?case
  proof (rule 2(1)[OF v[symmetric] refl nf b])
    show "\<forall>x\<in>pkeys ps' - set queue'. set (adj g x) \<subseteq> pkeys ps'"
    proof
      fix x assume x: "x \<in> pkeys ps' - set queue'"
      then have "x \<in> pkeys ps" "x \<notin> set queue" using inv by auto
      then show "set (adj g x) \<subseteq> pkeys ps'"
        using 2(6) inv by (cases "x = node") auto
    qed
  qed (use inv 2(5) in auto)
qed

lemma bfs_some:
  assumes "bfs g goal queue ps = Some path" "search_tree g start ps" "goal \<notin> pkeys ps" "set queue \<subseteq> pkeys ps"
  shows "\<exists>node qs. search_tree g start ((goal, node) # qs) \<and>
     path = rev (goal # walk_parents (length ((goal, node) # qs)) ((goal, node) # qs) node)"
  using assms
proof (induction g goal queue ps rule: bfs.induct)
  case (2 g goal node queue ps)
  obtain ps' queue' found where v: "visit_next goal node (adj g node) ps queue = (ps', queue', found)"
    by (cases "visit_next goal node (adj g node) ps queue") auto
  have inv: "search_tree g start ps' \<and> pkeys ps \<subseteq> pkeys ps' \<and>
     (if found then (\<exists>qs. ps' = (goal, node) # qs)
      else goal \<notin> pkeys ps' \<and> set queue' = set queue \<union> (pkeys ps' - pkeys ps))"
    using visit_next_inv[OF v 2(3) _ subset_refl 2(4)] 2(5) by auto
  show ?case
  proof (cases found)
    case True
    then obtain qs where "ps' = (goal, node) # qs" using inv by auto
    then have "path = rev (goal # walk_parents (length ((goal, node) # qs)) ((goal, node) # qs) node)"
      using 2(2) v True by simp
    then show ?thesis using inv \<open>ps' = (goal, node) # qs\<close> by blast
  next
    case False
    show ?thesis
      by (rule 2(1)[OF v[symmetric] refl False]) (use 2(2,5) v False inv in auto)
  qed
qed simp

text \<open>Walking up a search tree that names no node \<^verbatim>\<open>""\<close> gives a path from its start.\<close>

fun is_path :: "graph \<Rightarrow> string list \<Rightarrow> bool" where
  "is_path g (x # y # xs) = ((x, y) \<in> edges g \<and> is_path g (y # xs))"
| "is_path g xs = True"

lemma is_path_snoc:
  "is_path g (xs @ [y]) \<Longrightarrow> (y, z) \<in> edges g \<Longrightarrow> is_path g (xs @ [y, z])"
  by (induction g xs rule: is_path.induct) auto

lemma walk_stop [simp]: "walk_parents k qs '''' = []"
  by (cases k) auto

lemma walk_path:
  assumes "search_tree g start ps" "at \<in> pkeys ps" "'''' \<notin> pkeys ps"
    and "\<forall>x\<in>pkeys ps. map_of qs x = map_of ps x" "length ps \<le> k"
  shows "\<exists>path. walk_parents k qs at = rev (path @ [at]) \<and> hd (path @ [at]) = start \<and> is_path g (path @ [at])"
  using assms
proof (induction g start ps arbitrary: at k rule: search_tree.induct)
  case (2 g start m q)
  then obtain j where "k = Suc j" by (cases k) auto
  with 2 show ?case by auto
next
  case (3 g start m q r ps)
  obtain j where k: "k = Suc j" "length (r # ps) \<le> j" using 3(6) by (cases k) auto
  have tr: "search_tree g start (r # ps)" "q \<in> pkeys (r # ps)" "m \<notin> pkeys (r # ps)" "m \<in> set (adj g q)"
    using 3(2) by auto
  have ne: "'''' \<notin> pkeys (r # ps)" using 3(4) by auto
  have ag: "\<forall>x\<in>pkeys (r # ps). map_of qs x = map_of (r # ps) x"
  proof
    fix x assume x: "x \<in> pkeys (r # ps)"
    then have "x \<noteq> m" using tr(3) by blast
    then show "map_of qs x = map_of (r # ps) x" using 3(5) x by auto
  qed
  note IH = 3(1)[OF tr(1) _ ne ag]
  show ?case
  proof (cases "at = m")
    case True
    obtain path where p: "walk_parents j qs q = rev (path @ [q])" "hd (path @ [q]) = start" "is_path g (path @ [q])"
      using IH[OF tr(2) k(2)] by blast
    have "map_of qs m = Some q" using 3(5) by simp
    moreover have "m \<noteq> ''''" using 3(4) by auto
    ultimately have "walk_parents k qs m = rev ((path @ [q]) @ [m])" using p k by simp
    moreover have "is_path g ((path @ [q]) @ [m])"
      using is_path_snoc[OF p(3), of m] tr(4) by (simp add: edges_def)
    moreover have "hd ((path @ [q]) @ [m]) = start" using p(2) by (cases path) auto
    ultimately show ?thesis using True by blast
  next
    case False
    then have "at \<in> pkeys (r # ps)" using 3(3) by simp
    then show ?thesis using IH[of at k] k by simp
  qed
qed simp

lemma search_tree_nodes:
  "search_tree g start ps \<Longrightarrow> x \<in> pkeys ps \<Longrightarrow> x = start \<or> x \<in> graph_nodes g"
  by (induction g start ps rule: search_tree.induct) (auto intro: adj_nodes)

text \<open>The path search is exact, and its result is a path when no node has the empty name.\<close>

theorem reachPath_exact:
  "reachPath g start goal = None \<longleftrightarrow> (start, goal) \<notin> (edges g)\<^sup>*"
proof (cases "start = goal")
  case False
  have t: "search_tree g start [(start, '''')]" "goal \<notin> pkeys [(start, '''')]"
    "set [start] \<subseteq> pkeys [(start, '''')]" using False by auto
  show ?thesis
  proof (cases "bfs g goal [start] [(start, '''')]")
    case None
    then show ?thesis using bfs_none[OF None t] False by (simp add: reachPath_def)
  next
    case (Some path)
    obtain node qs where q: "search_tree g start ((goal, node) # qs)" using bfs_some[OF Some t] by blast
    have "(start, goal) \<in> (edges g)\<^sup>*" by (rule search_tree_reach[OF q]) simp
    then show ?thesis using False Some by (simp add: reachPath_def)
  qed
qed (simp add: reachPath_def)

theorem reachPath_path:
  assumes "reachPath g start goal = Some path" "start \<noteq> ''''" "'''' \<notin> graph_nodes g"
  shows "is_path g path \<and> path \<noteq> [] \<and> hd path = start \<and> last path = goal"
proof (cases "start = goal")
  case False
  have t: "search_tree g start [(start, '''')]" "goal \<notin> pkeys [(start, '''')]"
    "set [start] \<subseteq> pkeys [(start, '''')]" using False by auto
  have b: "bfs g goal [start] [(start, '''')] = Some path" using assms(1) False by (simp add: reachPath_def)
  obtain node qs where q: "search_tree g start ((goal, node) # qs)"
    "path = rev (goal # walk_parents (length ((goal, node) # qs)) ((goal, node) # qs) node)"
    using bfs_some[OF b t] by blast
  obtain r rs where qs: "qs = r # rs" using q(1) False by (cases qs) auto
  have tr: "search_tree g start qs" "node \<in> pkeys qs" "goal \<notin> pkeys qs" "goal \<in> set (adj g node)"
    using q(1) by (auto simp: qs)
  have ne: "'''' \<notin> pkeys qs" using search_tree_nodes[OF tr(1), of "''''"] assms(2,3) by auto
  have ag: "\<forall>x\<in>pkeys qs. map_of ((goal, node) # qs) x = map_of qs x" using tr(3) by auto
  obtain p where p: "walk_parents (length ((goal, node) # qs)) ((goal, node) # qs) node = rev (p @ [node])"
    "hd (p @ [node]) = start" "is_path g (p @ [node])"
    using walk_path[OF tr(1,2) ne ag, of "length ((goal, node) # qs)"] by auto
  have "path = p @ [node, goal]" using q(2) p(1) by simp
  moreover have "is_path g (p @ [node, goal])"
    using is_path_snoc[OF p(3)] tr(4) by (simp add: edges_def)
  moreover have "hd (p @ [node, goal]) = start" using p(2) by (cases p) auto
  ultimately show ?thesis by simp
next
  case True
  then have "path = [start]" using assms(1) by (simp add: reachPath_def)
  with True show ?thesis by simp
qed

lemma join_ne: "x \<noteq> '''' \<Longrightarrow> join_with a (x # xs) \<noteq> ''''"
  by (cases xs) auto

lemma CycleThroughEdges_iff:
  "CycleThroughEdgesInGraph g es = '''' \<longleftrightarrow>
     (\<forall>(u, v)\<in>set es. u \<noteq> '''' \<and> v \<noteq> '''' \<longrightarrow> u \<noteq> v \<and> (v, u) \<notin> (edges g)\<^sup>*)"
proof (induction g es rule: CycleThroughEdgesInGraph.induct)
  case (2 g source target es)
  show ?case
  proof (cases "source = '''' \<or> target = '''' \<or> source = target")
    case True
    then show ?thesis using 2(1) by (auto simp: arrow_def)
  next
    case False
    show ?thesis
    proof (cases "reachPath g target source")
      case None
      have "(target, source) \<notin> (edges g)\<^sup>*" using reachPath_exact None by blast
      moreover have "CycleThroughEdgesInGraph g es = '''' \<longleftrightarrow>
         (\<forall>(u, v)\<in>set es. u \<noteq> '''' \<and> v \<noteq> '''' \<longrightarrow> u \<noteq> v \<and> (v, u) \<notin> (edges g)\<^sup>*)"
        using 2(2) False None by blast
      ultimately show ?thesis using None False by simp
    next
      case (Some p)
      then have "(target, source) \<in> (edges g)\<^sup>*" using reachPath_exact[of g target source] by auto
      then show ?thesis using Some False join_ne[of source arrow p] by auto
    qed
  qed
qed simp

end
