(* ===== verification/Deps.thy ===== *)
theory Deps
  imports CyclesThms LifecycleThms IdGen
begin

text \<open>
  Adding and removing dependencies (\<^verbatim>\<open>AddDependencyInTx\<close>, \<^verbatim>\<open>removeDependencyInTx\<close>,
  \<^verbatim>\<open>CheckDependencyCycleInTx\<close> and their helpers in \<^verbatim>\<open>dependencies.go\<close>, and
  \<^verbatim>\<open>AddDependency\<close> of the doltlite store).  Tables are named by the kind of their
  rows: \<^verbatim>\<open>True\<close> for wisps.  The recompute statements are those the doltlite store
  asks for (\<^verbatim>\<open>sqlite = true\<close>).  The variants for a MySQL server run the same
  conditions, but the store's own engine rejects their syntax; where the store
  reaches one of them the model has the error (\<^verbatim>\<open>RecomputeIsBlocked\<close> in \<^verbatim>\<open>Delete\<close>).
\<close>

datatype DepTargetKind = DepTargetIssue | DepTargetWisp | DepTargetExternal

definition is_external :: "string \<Rightarrow> bool" where
  "is_external x = has_prefix x ''external:''"

definition ClassifyDepTarget :: "db \<Rightarrow> dependency \<Rightarrow> bool \<Rightarrow> DepTargetKind" where
  "ClassifyDepTarget s dep isCrossPrefix =
    (if isCrossPrefix \<or> is_external (DependsOnID dep) then DepTargetExternal
     else if IsActiveWisp s (DependsOnID dep) then DepTargetWisp
     else DepTargetIssue)"

text \<open>Only the column of the kind is set; the other two are NULL.\<close>

definition new_dep_row :: "env \<Rightarrow> dependency \<Rightarrow> DepTargetKind \<Rightarrow> string \<Rightarrow> string \<Rightarrow> dep_row" where
  "new_dep_row e dep kind actor metadata =
     \<lparr>dep_id = depid_New e (IssueID dep) (DependsOnID dep), issue_id = IssueID dep,
      depends_on_issue_id = (if kind = DepTargetIssue then Some (DependsOnID dep) else None),
      depends_on_wisp_id = (if kind = DepTargetWisp then Some (DependsOnID dep) else None),
      depends_on_external = (if kind = DepTargetExternal then Some (DependsOnID dep) else None),
      dtype = DepType dep, created_at = now e, created_by = actor, dmetadata = metadata,
      thread_id = ThreadID dep\<rparr>"

record add_dep_opts =
  SourceTable :: "bool option"
  TargetTable :: "bool option"
  WriteTable :: "bool option"
  DepTables :: "bool list"
  IsCrossPrefix :: bool
  SkipCycleCheck :: bool
  SkipBlockedRecompute :: bool
  TargetKind :: "DepTargetKind option"

definition default_opts :: add_dep_opts where
  "default_opts = \<lparr>SourceTable = None, TargetTable = None, WriteTable = None, DepTables = [],
     IsCrossPrefix = False, SkipCycleCheck = False, SkipBlockedRecompute = False, TargetKind = None\<rparr>"

definition cycleDetectionTables :: "bool list" where
  "cycleDetectionTables = [False, True]"

text \<open>The join of \<^verbatim>\<open>cycleReachabilityQuery\<close>: the blocking rows of the tables.\<close>

definition blocking_pairs :: "db \<Rightarrow> bool list \<Rightarrow> (string \<times> string) list" where
  "blocking_pairs s depTables = concat (map (\<lambda>w.
     map (\<lambda>d. (issue_id d, target_id d)) (filter (\<lambda>d. is_blocking (dtype d)) (dep_table w s))) depTables)"

definition cycleReachability :: "db \<Rightarrow> bool list \<Rightarrow> string \<Rightarrow> string \<Rightarrow> nat" where
  "cycleReachability s depTables start node =
     length (filter (\<lambda>x. x = node) (recursive_union (blocking_pairs s depTables) [start] [start]))"

definition CheckDependencyCycle :: "db \<Rightarrow> dependency \<Rightarrow> bool list \<Rightarrow> store_error + unit" where
  "CheckDependencyCycle s dep depTables =
    (if IssueID dep = DependsOnID dep then Inl (SelfDependency (IssueID dep))
     else if DepType dep \<noteq> DepBlocks \<and> DepType dep \<noteq> DepConditionalBlocks then Inr ()
     else if cycleReachability s (if depTables = [] then cycleDetectionTables else depTables)
               (DependsOnID dep) (IssueID dep) > 0
     then Inl DependencyCycle else Inr ())"

definition removeID :: "string list \<Rightarrow> string \<Rightarrow> string list" where
  "removeID ids remove = filter (\<lambda>x. x \<noteq> remove) ids"

definition RemoveSourceFromAffected ::
  "string \<Rightarrow> bool \<Rightarrow> string list \<times> string list \<Rightarrow> string list \<times> string list" where
  "RemoveSourceFromAffected source srcIsWisp ids =
    (if srcIsWisp then (fst ids, removeID (snd ids) source) else (removeID (fst ids) source, snd ids))"

definition markDirectBlockingDependencySource ::
  "string \<Rightarrow> bool \<Rightarrow> string \<Rightarrow> DepTargetKind \<Rightarrow> db \<Rightarrow> db" where
  "markDirectBlockingDependencySource source srcIsWisp target targetKind s =
    (case targetKind of
       DepTargetExternal \<Rightarrow> s
     | _ \<Rightarrow>
       set_issue_table srcIsWisp (fst (update_where
         (\<lambda>r. ID r = source \<and> \<not> IsBlocked r \<and> Status r \<noteq> StatusClosed \<and> Status r \<noteq> StatusPinned \<and>
              (\<exists>t\<in>set (issue_table (targetKind = DepTargetWisp) s).
                 ID t = target \<and> Status t \<noteq> StatusClosed \<and> Status t \<noteq> StatusPinned))
         (\<lambda>r. r\<lparr>IsBlocked := True, UpdatedAt := UpdatedAt r\<rparr>) (issue_table srcIsWisp s))) s)"

definition select_type :: "db \<Rightarrow> bool \<Rightarrow> string \<Rightarrow> store_error + issue_type" where
  "select_type s w x = (case select_row x (issue_table w s) of
      None \<Rightarrow> Inl (NotFound x) | Some r \<Rightarrow> Inr (IssueType r))"

definition dep_match :: "string \<Rightarrow> string \<Rightarrow> dep_row \<Rightarrow> bool" where
  "dep_match x y d = (issue_id d = x \<and> dep_target d = Some y)"

text \<open>GH#1495: epics only block epics, tasks only tasks; \<^verbatim>\<open>targetType\<close> is empty for external targets.\<close>

definition cross_type_check :: "dependency \<Rightarrow> issue_type \<Rightarrow> issue_type \<Rightarrow> store_error + unit" where
  "cross_type_check dep sourceType targetType =
    (if DepType dep = DepBlocks \<and> targetType \<noteq> '''' \<and> (sourceType = TypeEpic) \<noteq> (targetType = TypeEpic)
     then (if sourceType = TypeEpic then Inl EpicBlocksTask else Inl TaskBlocksEpic)
     else Inr ())"

text \<open>The tail of \<^verbatim>\<open>AddDependencyInTx\<close> after the insert: derived state.\<close>

definition after_add_dependency ::
  "env \<Rightarrow> dependency \<Rightarrow> bool \<Rightarrow> DepTargetKind \<Rightarrow> db \<Rightarrow> db option" where
  "after_add_dependency e dep srcIsWisp kind s =
    (let affected = (if srcIsWisp then AffectedByDepChangeForWisp s (IssueID dep) (DependsOnID dep) (DepType dep)
                     else AffectedByDepChange s (IssueID dep) (DependsOnID dep) (DepType dep));
         (s1, affected1) =
           (if DepType dep = DepBlocks \<or> DepType dep = DepConditionalBlocks
            then (markDirectBlockingDependencySource (IssueID dep) srcIsWisp (DependsOnID dep) kind s,
                  RemoveSourceFromAffected (IssueID dep) srcIsWisp affected)
            else (s, affected))
     in if DepType dep = DepParentChild then recomputeIsBlocked e (fst affected1) (snd affected1) s1
        else markIsBlocked e (fst affected1) (snd affected1) s1)"

definition AddDependency ::
  "env \<Rightarrow> dependency \<Rightarrow> string \<Rightarrow> add_dep_opts \<Rightarrow> db \<Rightarrow> (store_error + db) option" where
  "AddDependency e dep actor opts s =
    (let src = IssueID dep; tgt = DependsOnID dep;
         sourceTable = (case SourceTable opts of Some w \<Rightarrow> w | None \<Rightarrow> IsActiveWisp s src);
         writeTable = (case WriteTable opts of Some w \<Rightarrow> w | None \<Rightarrow> IsActiveWisp s src);
         targetTable = (case TargetTable opts of Some w \<Rightarrow> w
           | None \<Rightarrow> (if is_external tgt \<or> IsCrossPrefix opts then False else IsActiveWisp s tgt));
         depTables = (if DepTables opts = [] then cycleDetectionTables else DepTables opts);
         metadata = (if DepMetadata dep = '''' then ''{}'' else DepMetadata dep);
         checks =
           bind_res (select_type s sourceTable src) (\<lambda>sourceType.
           bind_res (if is_external tgt \<or> IsCrossPrefix opts then Inr '''' else select_type s targetTable tgt) (\<lambda>targetType.
           bind_res (cross_type_check dep sourceType targetType) (\<lambda>u.
             if SkipCycleCheck opts then Inr () else CheckDependencyCycle s dep depTables)));
         kind = (case TargetKind opts of Some k \<Rightarrow> k | None \<Rightarrow> ClassifyDepTarget s dep (IsCrossPrefix opts))
     in case checks of
       Inl er \<Rightarrow> Some (Inl er)
     | Inr u \<Rightarrow>
       (case find (dep_match src tgt) (dep_table writeTable s) of
          Some existing \<Rightarrow>
            if dtype existing = DepType dep then
              Some (Inr (set_dep_table writeTable
                 (map (\<lambda>d. if dep_match src tgt d then d\<lparr>dmetadata := metadata\<rparr> else d) (dep_table writeTable s)) s))
            else Some (Inl (DependencyExists src tgt (dtype existing)))
        | None \<Rightarrow>
            let row = new_dep_row e dep kind actor metadata in
            if \<exists>d\<in>set (dep_table writeTable s). dep_id d = dep_id row
            then Some (Inl (OpFailed ''failed to add dependency''))
            else (let s1 = set_dep_table writeTable (dep_table writeTable s @ [row]) s
                  in if SkipBlockedRecompute opts then Some (Inr s1)
                     else map_option Inr (after_add_dependency e dep writeTable kind s1))))"

definition StoreAddDependency :: "env \<Rightarrow> dependency \<Rightarrow> string \<Rightarrow> db \<Rightarrow> (store_error + db) option" where
  "StoreAddDependency e dep actor s =
     AddDependency e dep actor
       (default_opts\<lparr>IsCrossPrefix := (ExtractPrefix (IssueID dep) \<noteq> ExtractPrefix (DependsOnID dep))\<rparr>) s"

definition removeDependency :: "env \<Rightarrow> string \<Rightarrow> string \<Rightarrow> db \<Rightarrow> db option" where
  "removeDependency e issueID dependsOnID s =
    (let isWisp = IsActiveWisp s issueID in
     case find (dep_match issueID dependsOnID) (dep_table isWisp s) of
       None \<Rightarrow> Some s
     | Some row \<Rightarrow>
       (let s1 = set_dep_table isWisp
                   (filter (\<lambda>d. \<not> dep_match issueID dependsOnID d) (dep_table isWisp s)) s;
            affected = (if isWisp then AffectedByDepChangeForWisp s1 issueID dependsOnID (dtype row)
                        else AffectedByDepChange s1 issueID dependsOnID (dtype row))
        in recomputeIsBlocked e (fst affected) (snd affected) s1))"

end
