(* ===== verification/DepsThms.thy ===== *)
theory DepsThms
  imports Deps
begin

text \<open>
  Lemmas on adding and removing dependencies: the cycle check is exact, the
  blocking graph stays acyclic, and the derived column stays consistent.
\<close>

subsection \<open>The cycle check\<close>

lemma set_blocking_pairs:
  "set (blocking_pairs s ws) =
     {(issue_id d, target_id d) |d. \<exists>w\<in>set ws. d \<in> set (dep_table w s) \<and> is_blocking (dtype d)}"
  by (auto simp: blocking_pairs_def)

lemma all_blocking_pairs: "set (blocking_pairs s cycleDetectionTables) = blocking_edges s"
  by (auto simp: set_blocking_pairs cycleDetectionTables_def blocking_edges_def ex_bool_eq)

lemma cycleReachability_pos:
  "cycleReachability s ws x y > 0 \<longleftrightarrow> (x, y) \<in> (set (blocking_pairs s ws))\<^sup>*"
proof -
  have "cycleReachability s ws x y > 0 \<longleftrightarrow> y \<in> set (recursive_union (blocking_pairs s ws) [x] [x])"
    by (auto simp: cycleReachability_def filter_empty_conv)
  then show ?thesis unfolding recursive_union_start by auto
qed

lemma CheckDependencyCycle_iff:
  "CheckDependencyCycle s dep [] = Inr () \<longleftrightarrow> IssueID dep \<noteq> DependsOnID dep \<and>
     (is_blocking (DepType dep) \<longrightarrow> (DependsOnID dep, IssueID dep) \<notin> (blocking_edges s)\<^sup>*)"
  using cycleReachability_pos[of s cycleDetectionTables "DependsOnID dep" "IssueID dep"]
  by (auto simp: CheckDependencyCycle_def is_blocking_def all_blocking_pairs)

lemma CheckDependencyCycle_tables:
  "CheckDependencyCycle s dep cycleDetectionTables = CheckDependencyCycle s dep []"
  by (simp add: CheckDependencyCycle_def cycleDetectionTables_def)

subsection \<open>The new row\<close>

lemma new_dep_row_simps [simp]:
  "issue_id (new_dep_row e dep k a m) = IssueID dep" "dtype (new_dep_row e dep k a m) = DepType dep"
  "dmetadata (new_dep_row e dep k a m) = m"
  by (simp_all add: new_dep_row_def)

lemma new_dep_row_target [simp]: "dep_target (new_dep_row e dep k a m) = Some (DependsOnID dep)"
  by (cases k) (simp_all add: new_dep_row_def dep_target_def)

lemma new_dep_row_targets:
  "targets (new_dep_row e dep k a m) v p \<longleftrightarrow>
     p = DependsOnID dep \<and> k \<noteq> DepTargetExternal \<and> v = (k = DepTargetWisp)"
  by (cases k; cases v) (auto simp: new_dep_row_def targets_def)

lemma set_dep_table_views [simp]:
  "nodes (set_dep_table w ds s) = nodes s" "flagged (set_dep_table w ds s) = flagged s"
  "wf_db (set_dep_table w ds s) = wf_db s" "active_node (set_dep_table w ds s) = active_node s"
  "rows_closed_at (set_dep_table w ds s) = rows_closed_at s"
  by (simp_all add: nodes_def flagged_def wf_db_def active_node_def rows_closed_at_def fun_eq_iff)

lemma append_dep_change:
  "dep_change w (IssueID dep) (DependsOnID dep) (DepType dep) s
     (set_dep_table w (dep_table w s @ [new_dep_row e dep k a m]) s)"
  by (auto simp: dep_change_def new_dep_row_targets)

lemma blocking_edges_append:
  "blocking_edges (set_dep_table w (dep_table w s @ [d]) s) =
     (if is_blocking (dtype d) then insert (issue_id d, target_id d) (blocking_edges s) else blocking_edges s)"
proof -
  have "d' \<in> set (dep_table v (set_dep_table w (dep_table w s @ [d]) s)) \<longleftrightarrow>
      d' \<in> set (dep_table v s) \<or> v = w \<and> d' = d" for d' v
    by (cases "v = w") auto
  then show ?thesis by (auto simp: blocking_edges_def)
qed

lemma blocking_edges_same: "same_but_flags s s' \<Longrightarrow> blocking_edges s' = blocking_edges s"
  using same_but_flags_views(5)[of s s'] by (simp add: blocking_edges_def)

text \<open>A change of the rows of one source that leaves the children alone is seen by that source only.\<close>

lemma dep_change_others:
  assumes c: "dep_change w x tgt t s s'" and t: "t \<noteq> DepParentChild" and n: "n \<noteq> (w, x)"
  shows "wants e s' F n = wants e s F n"
proof -
  obtain u y where un: "n = (u, y)" by fastforce
  have sp: "spawned_child s' d p = spawned_child s d p" for d p
    by (rule dep_change_spawned[OF c]) (use t in simp)
  have rows: "d \<in> set (dep_table u s') \<longleftrightarrow> d \<in> set (dep_table u s)" if "issue_id d = y" for d
    by (rule dep_change_row[OF c]) (use n un that in auto)
  have "hard_blocked s' (dep_table u s') y = hard_blocked s (dep_table u s) y"
    using rows dep_change_tables(5)[OF c] unfolding hard_blocked_def by blast
  moreover have "waits_blocked e s' (dep_table u s') y = waits_blocked e s (dep_table u s) y"
    unfolding waits_blocked_def waitsForGateBlocked_def sp using rows by blast
  moreover have "parents s' n = parents s n"
    unfolding parents_def un using rows by auto
  ultimately show ?thesis
    using dep_change_tables(4)[OF c] by (simp add: wants_def own_reason_def un)
qed

lemma dep_add_wants_mono:
  assumes c: "dep_change w x tgt t s s'" and t: "t \<noteq> DepParentChild"
    and sub: "\<And>v. set (dep_table v s) \<subseteq> set (dep_table v s')" and wn: "wants e s F n"
  shows "wants e s' F n"
proof -
  have sp: "spawned_child s' d p = spawned_child s d p" for d p
    by (rule dep_change_spawned[OF c]) (use t in simp)
  have "hard_blocked s (dep_table (fst n) s) (snd n) \<Longrightarrow> hard_blocked s' (dep_table (fst n) s') (snd n)"
    using sub[of "fst n"] dep_change_tables(5)[OF c] unfolding hard_blocked_def by blast
  moreover have "waits_blocked e s (dep_table (fst n) s) (snd n) \<Longrightarrow> waits_blocked e s' (dep_table (fst n) s') (snd n)"
    using sub[of "fst n"] unfolding waits_blocked_def waitsForGateBlocked_def sp by blast
  moreover have "parents s n \<subseteq> parents s' n"
    unfolding parents_def using sub by blast
  ultimately show ?thesis
    using wn dep_change_tables(4)[OF c] unfolding wants_def own_reason_def by blast
qed

subsection \<open>The direct mark\<close>

definition direct_cond :: "string \<Rightarrow> string \<Rightarrow> DepTargetKind \<Rightarrow> db \<Rightarrow> issue_row \<Rightarrow> bool" where
  "direct_cond source target kind s r = (ID r = source \<and> \<not> IsBlocked r \<and> active_status (Status r) \<and>
     kind \<noteq> DepTargetExternal \<and>
     (\<exists>t\<in>set (issue_table (kind = DepTargetWisp) s). ID t = target \<and> active_status (Status t)))"

lemma set_issue_table_same: "set_issue_table w (issue_table w s) s = s"
  by (simp add: set_issue_table_def issue_table_def)

lemma markDirect_set_flags:
  "markDirectBlockingDependencySource source w target kind s =
     fst (set_flags True (direct_cond source target kind s) w s)"
proof -
  have "update_where (\<lambda>r. False) f rows = (rows, 0)" for f rows
    by (simp add: update_where_def)
  then show ?thesis
    by (cases kind)
      (simp_all add: markDirectBlockingDependencySource_def set_flags_def direct_cond_def[abs_def] active_status_def
        Let_def case_prod_beta set_issue_table_same conj_assoc)
qed

lemma direct_flagged:
  fixes s :: db and x tgt :: string and w :: bool and kind :: DepTargetKind
  assumes wf: "wf_db s"
  defines "s2 \<equiv> markDirectBlockingDependencySource x w tgt kind s"
  shows "same_but_flags s s2" "wf_db s2"
    and "flagged s2 = flagged s \<union> {n. n = (w, x) \<and> active_node s n \<and> kind \<noteq> DepTargetExternal \<and>
       (\<exists>t\<in>set (issue_table (kind = DepTargetWisp) s). ID t = tgt \<and> active_status (Status t))}"
proof -
  let ?p = "direct_cond x tgt kind s"
  obtain c where sf: "set_flags True ?p w s = (s2, c)"
    using markDirect_set_flags by (metis prod.collapse s2_def)
  show same: "same_but_flags s s2" by (rule set_flags_same[OF sf])
  show "wf_db s2" using same_but_flags_views(4)[OF same] wf by simp
  show "flagged s2 = flagged s \<union> {n. n = (w, x) \<and> active_node s n \<and> kind \<noteq> DepTargetExternal \<and>
       (\<exists>t\<in>set (issue_table (kind = DepTargetWisp) s). ID t = tgt \<and> active_status (Status t))}"
    (is "_ = _ \<union> ?N")
  proof (rule set_eqI)
    fix n :: node
    obtain v y where n: "n = (v, y)" by fastforce
    show "n \<in> flagged s2 \<longleftrightarrow> n \<in> flagged s \<union> ?N"
    proof (cases "v = w")
      case True
      then show ?thesis
        unfolding n set_flags_flagged[OF sf] by (auto simp: direct_cond_def flagged_def active_node_def)
    next
      case False
      then show ?thesis unfolding n set_flags_flagged[OF sf] by simp
    qed
  qed
qed

subsection \<open>Derived state after an insert\<close>

lemma affected_dep_routing:
  "(if w then AffectedByDepChangeForWisp s x tgt t else AffectedByDepChange s x tgt t) = affected_dep w s x tgt t"
  by (simp add: affected_dep_def)

lemma affected_closed:
  "be.child_closed (span (affected_dep w s x tgt t)) s"
proof (cases "t \<in> {DepBlocks, DepConditionalBlocks, DepWaitsFor, DepParentChild}")
  case True
  then show ?thesis by (rule affected_dep_span(3)) simp
next
  case False
  then show ?thesis by (auto simp: affected_dep_eq be.child_closed_def span_def scope_of_def)
qed

lemma scope_removed:
  "scope_of (fst (RemoveSourceFromAffected x w q)) (snd (RemoveSourceFromAffected x w q)) = span q - {(w, x)}"
  by (cases w) (auto simp: RemoveSourceFromAffected_def removeID_def scope_of_def span_def)

lemma scope_span: "scope_of (fst q) (snd q) = span q"
  by (simp add: scope_of_def span_def)

lemma consistent_iff:
  "wf_db s \<Longrightarrow> blocked_consistent e s \<longleftrightarrow> (\<forall>n. n \<in> flagged s \<longleftrightarrow> wants e s (flagged s) n)"
proof -
  assume wf: "wf_db s"
  have "flagged s \<subseteq> nodes s" by (auto simp: flagged_def nodes_def)
  then show ?thesis
    using blocked_consistent_engine[OF wf, of e] wants_node[of e s "flagged s"]
    unfolding be.consistent_on_def by blast
qed

lemma after_add_repairs:
  assumes wf: "wf_db s" and co: "blocked_consistent e s"
    and s1: "s1 = set_dep_table w (dep_table w s @ [new_dep_row e dep kind a m]) s"
    and pc: "DepType dep = DepParentChild \<Longrightarrow> acyclic_parents s1 \<and> DependsOnID dep \<noteq> ''''"
  shows "\<exists>r. after_add_dependency e dep w kind s1 = Some r \<and> wf_db r \<and> same_but_flags s1 r \<and> blocked_consistent e r"
proof -
  let ?x = "IssueID dep" and ?tgt = "DependsOnID dep" and ?t = "DepType dep"
  let ?row = "new_dep_row e dep kind a m" let ?q = "affected_dep w s1 ?x ?tgt ?t"
  have c: "dep_change w ?x ?tgt ?t s s1" unfolding s1 by (rule append_dep_change)
  have wf1: "wf_db s1" and f1: "flagged s1 = flagged s" and n1: "nodes s1 = nodes s" using wf by (simp_all add: s1)
  have ok: "n \<in> flagged s \<longleftrightarrow> wants e s (flagged s) n" for n using consistent_iff[OF wf] co by blast
  obtain js ws where q: "?q = (js, ws)" by fastforce
  show ?thesis
  proof (cases "?t = DepParentChild")
    case True
    then have "after_add_dependency e dep w kind s1 = recomputeIsBlocked e js ws s1"
      using q by (simp add: after_add_dependency_def affected_dep_routing Let_def const_defs)
    then show ?thesis using dep_change_repairs[OF wf _ co c _ q] pc True by simp
  next
    case npc: False
    have sub: "set (dep_table v s) \<subseteq> set (dep_table v s1)" for v by (cases "v = w") (auto simp: s1)
    have mono: "wants e s F n \<Longrightarrow> wants e s1 F n" for F n by (rule dep_add_wants_mono[OF c npc sub])
    have other: "n \<noteq> (w, ?x) \<Longrightarrow> wants e s1 F n = wants e s F n" for F n by (rule dep_change_others[OF c npc])
    show ?thesis
    proof (cases "is_blocking ?t")
      case False
      have "after_add_dependency e dep w kind s1 = markIsBlocked e js ws s1"
        using q npc False by (simp add: after_add_dependency_def affected_dep_routing Let_def is_blocking_def)
      moreover have "be.supported e s1" using ok mono f1 by (simp add: be.supported_def)
      moreover have "be.mark_scope e (scope_of js ws) s1"
        using be.child_closed_mark_scope affected_closed q by (metis scope_span fst_conv snd_conv)
      moreover have "be.marked_on e (- scope_of js ws) s1"
        using dep_change_wants[OF c, of _ e "flagged s"] npc ok f1 q scope_span[of ?q]
        by (auto simp: be.marked_on_def)
      ultimately show ?thesis using mark_repairs[OF wf1] by simp
    next
      case bl: True
      let ?s2 = "markDirectBlockingDependencySource ?x w ?tgt kind s1"
      let ?q2 = "RemoveSourceFromAffected ?x w ?q"
      note dm = direct_flagged[OF wf1, where x = ?x and w = w and tgt = ?tgt and kind = kind]
      have op: "after_add_dependency e dep w kind s1 = markIsBlocked e (fst ?q2) (snd ?q2) ?s2"
        using npc bl unfolding after_add_dependency_def affected_dep_routing Let_def is_blocking_def by simp
      have v2: "wants e ?s2 = wants e s1" "nodes ?s2 = nodes s1" "parents ?s2 = parents s1"
        using same_but_flags_views[OF dm(1)] by simp_all
      let ?hit = "kind \<noteq> DepTargetExternal \<and>
         (\<exists>t\<in>set (issue_table (kind = DepTargetWisp) s1). ID t = ?tgt \<and> active_status (Status t))"
      have row: "?row \<in> set (dep_table w s1)" by (simp add: s1)
      have jt: "joined_target s1 ?row (\<lambda>t. active_status (Status t)) \<longleftrightarrow> ?hit"
        unfolding joined_target_table new_dep_row_targets by auto
      have hit: "wants e s1 F (w, ?x)" if "?hit" "active_node s1 (w, ?x)" for F
      proof -
        have "hard_blocked s1 (dep_table w s1) ?x"
          unfolding hard_blocked_def
          by (rule bexI[OF _ row]) (use jt that(1) bl in \<open>simp add: is_blocking_def\<close>)
        then show ?thesis using that(2) by (simp add: wants_def own_reason_def)
      qed
      have miss: "wants e s1 F (w, ?x) = wants e s F (w, ?x)" if "\<not> ?hit" for F
      proof -
        have bx: "(\<exists>d\<in>set (dep_table w s1). P d) \<longleftrightarrow> P ?row \<or> (\<exists>d\<in>set (dep_table w s). P d)" for P
          by (auto simp: s1)
        have sp: "spawned_child s1 d p = spawned_child s d p" for d p
          by (rule dep_change_spawned[OF c]) (use npc in simp)
        have "hard_blocked s1 (dep_table w s1) ?x = hard_blocked s (dep_table w s) ?x"
          using jt that dep_change_tables(5)[OF c] unfolding hard_blocked_def bx by auto
        moreover have "waits_blocked e s1 (dep_table w s1) ?x = waits_blocked e s (dep_table w s) ?x"
          using bl unfolding waits_blocked_def waitsForGateBlocked_def sp bx
          by (auto simp: is_blocking_def const_defs)
        moreover have "parents s1 (w, ?x) = parents s (w, ?x)"
          using npc unfolding parents_def fst_conv snd_conv bx by auto
        ultimately show ?thesis
          using dep_change_tables(4)[OF c] by (simp add: wants_def own_reason_def)
      qed
      show ?thesis
      proof (cases "(w, ?x) \<in> flagged ?s2")
        case True
        have fl: "flagged s1 \<subseteq> flagged ?s2" "flagged ?s2 \<subseteq> insert (w, ?x) (flagged s1)" using dm(3) by auto
        have "be.supported e ?s2"
          unfolding be.supported_def v2
        proof
          fix n assume n: "n \<in> flagged ?s2"
          show "wants e s1 (flagged ?s2) n"
          proof (cases "n \<in> flagged s1")
            case True
            then have "wants e s1 (flagged s) n" using ok f1 mono by blast
            then show ?thesis using be.wants_mono fl(1) f1 by metis
          next
            case False
            then show ?thesis using n dm(3) hit by auto
          qed
        qed
        moreover have "be.mark_scope e (scope_of (fst ?q2) (snd ?q2)) ?s2"
          using affected_closed[of w s1 ?x ?tgt ?t] True
          unfolding be.mark_scope_def be.child_closed_def scope_removed v2 by blast
        moreover have "be.marked_on e (- scope_of (fst ?q2) (snd ?q2)) ?s2"
          unfolding be.marked_on_def scope_removed v2
        proof (intro ballI impI)
          fix n assume n: "n \<in> - (span ?q - {(w, ?x)}) \<inter> nodes s1" and wn: "wants e s1 (flagged ?s2) n"
          show "n \<in> flagged ?s2"
          proof (cases "n = (w, ?x)")
            case False
            then have out: "n \<notin> span ?q" using n by blast
            have x: "(w, ?x) \<in> span ?q"
              using affected_dep_span(1)[of ?t w ?x s1 ?tgt] bl by (auto simp: is_blocking_def)
            have "(w, ?x) \<notin> parents s1 n \<inter> nodes s1"
              using affected_closed[of w s1 ?x ?tgt ?t] out n x unfolding be.child_closed_def by blast
            moreover have "(w, ?x) \<in> nodes s1" using True v2(2) be.flags_rows by blast
            ultimately have "flagged ?s2 \<inter> parents s1 n = flagged s1 \<inter> parents s1 n" using fl by blast
            then have "wants e s1 (flagged s) n" using wn be.wants_cong f1 by metis
            then show ?thesis using other[OF False] ok fl(1) f1 by blast
          qed (use True in simp)
        qed
        ultimately show ?thesis
          using mark_repairs[OF dm(2)] op same_but_flags_trans[OF dm(1)] by metis
      next
        case False
        then have f2: "flagged ?s2 = flagged s" using dm(3) f1 by blast
        have "wants e s1 F (w, ?x) = wants e s F (w, ?x)" for F
        proof (cases ?hit)
          case True
          then have "\<not> active_node s1 (w, ?x)" using False dm(3) by blast
          then show ?thesis using dep_change_tables(4)[OF c] by (simp add: wants_def)
        qed (rule miss)
        then have "wants e s1 F n = wants e s F n" for F n using other by (cases "n = (w, ?x)") auto
        then have "blocked_consistent e ?s2"
          using consistent_iff[OF dm(2)] ok f2 v2(1) by simp
        then show ?thesis
          using mark_consistent[OF dm(2)] op same_but_flags_trans[OF dm(1)] by metis
      qed
    qed
  qed
qed

subsection \<open>The keys of the dependency tables\<close>

text \<open>
  The constraints of the schema: one row for a source and target, and exactly
  one of the three target columns is set.
\<close>

definition one_target :: "dep_row \<Rightarrow> bool" where
  "one_target d = (length (filter (\<lambda>c. c \<noteq> None)
     [depends_on_issue_id d, depends_on_wisp_id d, depends_on_external d]) = 1)"

definition dep_keys :: "db \<Rightarrow> bool" where
  "dep_keys s = (\<forall>w. distinct (map (\<lambda>d. (issue_id d, dep_target d)) (dep_table w s)) \<and>
     (\<forall>d\<in>set (dep_table w s). one_target d))"

lemma one_target_targets: "one_target d \<Longrightarrow> dep_target d = Some y \<Longrightarrow> targets d v p \<Longrightarrow> p = y"
  by (auto simp: one_target_def dep_target_def targets_def split: option.splits if_splits)

lemma one_target_new [simp]: "one_target (new_dep_row e dep k a m)"
  by (cases k) (simp_all add: one_target_def new_dep_row_def)

lemma dep_keys_same: "same_but_flags s s' \<Longrightarrow> dep_keys s' = dep_keys s"
  using same_but_flags_views(5)[of s s'] by (simp add: dep_keys_def)

lemma dep_keys_match:
  assumes "dep_keys s" "d \<in> set (dep_table w s)" "d' \<in> set (dep_table w s)" "dep_match x y d" "dep_match x y d'"
  shows "d = d'"
  using distinct_key_eq[of "\<lambda>d. (issue_id d, dep_target d)" "dep_table w s" d d'] assms
  by (simp add: dep_keys_def dep_match_def)

lemma find_match:
  "find (dep_match x y) ds = None \<longleftrightarrow> (\<forall>d\<in>set ds. \<not> dep_match x y d)"
  "find (dep_match x y) ds = Some d \<Longrightarrow> d \<in> set ds \<and> dep_match x y d"
  by (auto simp: find_None_iff find_Some_iff)

lemma dep_keys_append:
  assumes k: "dep_keys s" and no: "find (dep_match (IssueID dep) (DependsOnID dep)) (dep_table w s) = None"
  shows "dep_keys (set_dep_table w (dep_table w s @ [new_dep_row e dep kind a m]) s)" (is "dep_keys ?s1")
  unfolding dep_keys_def
proof
  fix v
  have "\<forall>d\<in>set (dep_table w s). \<not> dep_match (IssueID dep) (DependsOnID dep) d" using no by (simp add: find_match)
  then show "distinct (map (\<lambda>d. (issue_id d, dep_target d)) (dep_table v ?s1)) \<and>
      (\<forall>d\<in>set (dep_table v ?s1). one_target d)"
    using k by (cases "v = w") (auto simp: dep_keys_def dep_match_def)
qed

subsection \<open>A change of metadata\<close>

lemma metadata_update:
  fixes s :: db and x y m :: string and w :: bool
  defines "s' \<equiv> set_dep_table w (map (\<lambda>d. if dep_match x y d then d\<lparr>dmetadata := m\<rparr> else d) (dep_table w s)) s"
  shows "dep_keys s' = dep_keys s" "blocking_edges s' = blocking_edges s"
    and "\<forall>d\<in>set (dep_table w s). dep_match x y d \<longrightarrow> dtype d \<noteq> DepWaitsFor \<Longrightarrow> good_db e s' = good_db e s"
proof -
  define g where "g v d = (if v = w \<and> dep_match x y d then d\<lparr>dmetadata := m\<rparr> else d)" for v d
  have dt: "dep_table v s' = map (g v) (dep_table v s)" for v
  proof (cases "v = w")
    case True
    then show ?thesis by (simp add: s'_def g_def)
  next
    case False
    then have "map (g v) ds = ds" for ds by (intro map_idI) (simp add: g_def)
    then show ?thesis using False by (simp add: s'_def)
  qed
  have it: "issue_table v s' = issue_table v s" for v by (simp add: s'_def)
  have f: "issue_id (g v d) = issue_id d" "dtype (g v d) = dtype d" "dep_target (g v d) = dep_target d"
    "one_target (g v d) = one_target d" "target_id (g v d) = target_id d" "targets (g v d) u p = targets d u p"
    "same_target (g v d) c = same_target d c" "same_target c (g v d) = same_target c d" for v u d p c
    by (auto simp: g_def dep_target_def one_target_def target_id_def targets_def same_target_def split: option.split)
  show "dep_keys s' = dep_keys s"
    unfolding dep_keys_def dt map_map comp_def set_map ball_simps f ..
  show "blocking_edges s' = blocking_edges s"
  proof -
    have "blocking_edges s = {p. \<exists>v. \<exists>d\<in>set (dep_table v s). p = (issue_id d, target_id d) \<and> is_blocking (dtype d)}" for s
      by (auto simp: blocking_edges_def)
    then show ?thesis by (simp only: dt bex_map f)
  qed
  have bx: "(\<exists>d\<in>set (dep_table v s'). P d) = (\<exists>d\<in>set (dep_table v s). P (g v d))" for P v
    unfolding dt bex_map ..
  assume nw: "\<forall>d\<in>set (dep_table w s). dep_match x y d \<longrightarrow> dtype d \<noteq> DepWaitsFor"
  have jt: "joined_target s' (g v d) p = joined_target s d p" for v d p
    by (simp add: joined_target_table it f)
  have sp: "spawned_child s' d p = spawned_child s d p" for d p
    unfolding spawned_child_table bx it f ..
  have sb: "shouldBeBlocked e s' v z = shouldBeBlocked e s v z" for v z
  proof -
    have "hard_blocked s' (dep_table v s') z = hard_blocked s (dep_table v s) z"
      unfolding hard_blocked_def bx f jt ..
    moreover have "parent_blocked s' (dep_table v s') z = parent_blocked s (dep_table v s) z"
      unfolding parent_blocked_def bx f jt ..
    moreover have "waits_blocked e s' (dep_table v s') z = waits_blocked e s (dep_table v s) z"
    proof -
      have "g v d = d" if "d \<in> set (dep_table v s)" "dtype d = DepWaitsFor" for d using nw that by (auto simp: g_def)
      then show ?thesis unfolding waits_blocked_def bx f waitsForGateBlocked_def sp by (metis (no_types, lifting))
    qed
    ultimately show ?thesis by (simp add: shouldBeBlocked_def)
  qed
  have "parents s' = parents s"
    unfolding parents_def bx f by (rule refl)
  then have "parent_edges s' = parent_edges s" by (simp add: parent_edges_def nodes_def it)
  then show "good_db e s' = good_db e s"
    by (simp add: good_db_def wf_db_def acyclic_parents_def blocked_consistent_def rows_closed_at_def it sb)
qed

subsection \<open>The operations\<close>

definition add_checks :: "dependency \<Rightarrow> bool \<Rightarrow> db \<Rightarrow> store_error + unit" where
  "add_checks dep cross s =
     bind_res (select_type s (IsActiveWisp s (IssueID dep)) (IssueID dep)) (\<lambda>st.
     bind_res (if is_external (DependsOnID dep) \<or> cross then Inr ''''
               else select_type s (IsActiveWisp s (DependsOnID dep)) (DependsOnID dep)) (\<lambda>tt.
     bind_res (cross_type_check dep st tt) (\<lambda>u. CheckDependencyCycle s dep [])))"

lemma AddDependency_default:
  "AddDependency e dep a (default_opts\<lparr>IsCrossPrefix := cross\<rparr>) s =
    (let w = IsActiveWisp s (IssueID dep);
         m = (if DepMetadata dep = '''' then ''{}'' else DepMetadata dep);
         row = new_dep_row e dep (ClassifyDepTarget s dep cross) a m;
         s1 = set_dep_table w (dep_table w s @ [row]) s
     in case add_checks dep cross s of
       Inl er \<Rightarrow> Some (Inl er)
     | Inr u \<Rightarrow>
       (case find (dep_match (IssueID dep) (DependsOnID dep)) (dep_table w s) of
          Some d \<Rightarrow>
            if dtype d = DepType dep then
              Some (Inr (set_dep_table w (map (\<lambda>d. if dep_match (IssueID dep) (DependsOnID dep) d
                 then d\<lparr>dmetadata := m\<rparr> else d) (dep_table w s)) s))
            else Some (Inl (DependencyExists (IssueID dep) (DependsOnID dep) (dtype d)))
        | None \<Rightarrow>
            if \<exists>d\<in>set (dep_table w s). dep_id d = depid_New e (IssueID dep) (DependsOnID dep)
            then Some (Inl (OpFailed ''failed to add dependency''))
            else map_option Inr (after_add_dependency e dep w (ClassifyDepTarget s dep cross) s1)))"
proof -
  have id: "dep_id (new_dep_row e dep k a m) = depid_New e (IssueID dep) (DependsOnID dep)" for k m
    by (simp add: new_dep_row_def)
  have c: "add_checks dep cross s =
     bind_res (select_type s (IsActiveWisp s (IssueID dep)) (IssueID dep)) (\<lambda>st.
     bind_res (if is_external (DependsOnID dep) \<or> cross then Inr ''''
               else select_type s (if is_external (DependsOnID dep) \<or> cross then False
                 else IsActiveWisp s (DependsOnID dep)) (DependsOnID dep)) (\<lambda>tt.
     bind_res (cross_type_check dep st tt) (\<lambda>u. CheckDependencyCycle s dep cycleDetectionTables)))"
    unfolding add_checks_def CheckDependencyCycle_tables by simp
  have opts: "SourceTable (default_opts\<lparr>IsCrossPrefix := cross\<rparr>) = None"
    "WriteTable (default_opts\<lparr>IsCrossPrefix := cross\<rparr>) = None"
    "TargetTable (default_opts\<lparr>IsCrossPrefix := cross\<rparr>) = None"
    "DepTables (default_opts\<lparr>IsCrossPrefix := cross\<rparr>) = []"
    "TargetKind (default_opts\<lparr>IsCrossPrefix := cross\<rparr>) = None"
    "SkipCycleCheck (default_opts\<lparr>IsCrossPrefix := cross\<rparr>) = False"
    "SkipBlockedRecompute (default_opts\<lparr>IsCrossPrefix := cross\<rparr>) = False"
    "IsCrossPrefix (default_opts\<lparr>IsCrossPrefix := cross\<rparr>) = cross"
    by (simp_all add: default_opts_def)
  show ?thesis
    by (simp only: AddDependency_def Let_def opts option.case id c if_True if_False refl)
qed

lemma add_checks_ok:
  assumes "add_checks dep cross s = Inr u"
  shows "IssueID dep \<noteq> DependsOnID dep"
    "is_blocking (DepType dep) \<Longrightarrow> (DependsOnID dep, IssueID dep) \<notin> (blocking_edges s)\<^sup>*"
  using assms CheckDependencyCycle_iff[of s dep] by (auto simp: add_checks_def)

text \<open>The two ways in which adding succeeds.\<close>

lemma AddDependency_cases:
  fixes s :: db and dep :: dependency and a :: string and cross :: bool and e :: env
  defines "w \<equiv> IsActiveWisp s (IssueID dep)"
    and "m \<equiv> if DepMetadata dep = '''' then ''{}'' else DepMetadata dep"
  assumes "AddDependency e dep a (default_opts\<lparr>IsCrossPrefix := cross\<rparr>) s = Some (Inr s')"
  obtains (update) d where "add_checks dep cross s = Inr ()"
      "find (dep_match (IssueID dep) (DependsOnID dep)) (dep_table w s) = Some d" "dtype d = DepType dep"
      "s' = set_dep_table w (map (\<lambda>d. if dep_match (IssueID dep) (DependsOnID dep) d
         then d\<lparr>dmetadata := m\<rparr> else d) (dep_table w s)) s"
  | (insert) kind s1 where "add_checks dep cross s = Inr ()"
      "find (dep_match (IssueID dep) (DependsOnID dep)) (dep_table w s) = None"
      "s1 = set_dep_table w (dep_table w s @ [new_dep_row e dep kind a m]) s"
      "after_add_dependency e dep w kind s1 = Some s'"
  using assms(3) unfolding AddDependency_default Let_def w_def[symmetric] m_def[symmetric]
  by (auto split: sum.splits option.splits if_splits)

text \<open>The loops change nothing but flags, on every database.\<close>

lemma repeat_invariant:
  assumes r: "repeat_until_stable pass acc s = Some r" and p: "P s" and st: "\<And>t. P t \<Longrightarrow> P (fst (pass t))"
  shows "P (fst r)"
proof -
  have "pass = pass \<longrightarrow> P s \<longrightarrow> P (fst r)"
  proof (rule repeat_until_stable.raw_induct[OF _ r, where P = "\<lambda>p a s r. p = pass \<longrightarrow> P s \<longrightarrow> P (fst r)"])
    fix f and p :: "'a \<Rightarrow> 'a \<times> nat" and acc s y
    assume IH: "\<And>p a s y. f p a s = Some y \<Longrightarrow> p = pass \<longrightarrow> P s \<longrightarrow> P (fst y)"
      and e: "(let (s1, changed) = p s in if changed = 0 then Some (s1, acc + changed)
               else f p (acc + changed) s1) = Some y"
    show "p = pass \<longrightarrow> P s \<longrightarrow> P (fst y)"
    proof (intro impI)
      assume ps: "p = pass" "P s"
      obtain s1 c where s1: "pass s = (s1, c)" by fastforce
      then have "P s1" using st[OF ps(2)] by simp
      then show "P (fst y)" using e ps(1) s1 IH[of p] by (auto split: if_splits)
    qed
  qed
  with p show ?thesis by blast
qed

context flag_engine
begin

lemma run_frame: "ok s \<Longrightarrow> run w bs s = (s', c) \<Longrightarrow> frame s s'"
proof (induction bs arbitrary: s c)
  case (Cons b bs)
  obtain s1 c1 s2 c2 c3 where st: "mark w b s = (s1, c1)" "unmark w b s1 = (s2, c2)" "run w bs s2 = (s', c3)"
    using Cons.prems(2) by (auto simp: run_Cons)
  have f1: "frame s s1" using mark_frame[OF Cons.prems(1) st(1)] .
  then have ok1: "ok s1" by (simp add: frame_def)
  have f2: "frame s1 s2" unfolding frame_def using unmark_ok[OF ok1 st(2)] by simp
  then have "ok s2" by (simp add: frame_def)
  from Cons.IH[OF this st(3)] f1 f2 show ?case using frame_trans by blast
qed (simp add: run_def frame_def)

lemma pass_frame: "ok s \<Longrightarrow> pass v w bs cs s = (s', c) \<Longrightarrow> frame s s'"
proof -
  assume ok: "ok s" and "pass v w bs cs s = (s', c)"
  then obtain s1 n1 n2 where st: "run v bs s = (s1, n1)" "run w cs s1 = (s', n2)" by (auto simp: pass_split)
  have f: "frame s s1" using run_frame[OF ok st(1)] .
  then have "ok s1" by (simp add: frame_def)
  then show ?thesis using run_frame[OF _ st(2)] frame_trans f by blast
qed

end

lemma loops_same:
  assumes "wf_db s"
  shows "recomputeIsBlocked e is ws s = Some r \<Longrightarrow> same_but_flags s r"
    and "markIsBlocked e is ws s = Some r \<Longrightarrow> same_but_flags s r"
proof -
  have s: "started_from s s" using assms by (rule wf_started)
  have p1: "started_from s (fst (recompute_pass e is ws t))" if t: "started_from s t" for t
  proof -
    obtain t' c where p: "recompute_pass e is ws t = (t', c)" by fastforce
    then show ?thesis
      using be.pass_frame[OF t p[unfolded recompute_pass_engine]] by (simp add: be.frame_def)
  qed
  show "same_but_flags s r" if r: "recomputeIsBlocked e is ws s = Some r"
  proof (cases "is = [] \<and> ws = []")
    case False
    then obtain n where "repeat_until_stable (recompute_pass e is ws) 0 s = Some (r, n)"
      using r by (auto simp: recomputeIsBlocked_def)
    from repeat_invariant[OF this s p1] show ?thesis by (simp add: started_from_def)
  qed (use r in \<open>simp add: recomputeIsBlocked_def\<close>)
  show "same_but_flags s r" if r: "markIsBlocked e is ws s = Some r"
    using mark_loop_total[OF assms, of e "is" ws] r by simp
qed

lemma after_add_same:
  assumes "wf_db s" "after_add_dependency e dep w kind s = Some r"
  shows "same_but_flags s r"
proof -
  let ?s2 = "markDirectBlockingDependencySource (IssueID dep) w (DependsOnID dep) kind s"
  note dm = direct_flagged[OF assms(1), where x = "IssueID dep" and w = w and tgt = "DependsOnID dep" and kind = kind]
  show ?thesis
    using assms loops_same[OF assms(1)] loops_same[OF dm(2)] same_but_flags_trans[OF dm(1)]
    by (auto simp: after_add_dependency_def Let_def split: if_splits)
qed

text \<open>Adding keeps the keys and an acyclic blocking graph.\<close>

lemma AddDependency_graph:
  assumes wf: "wf_db s" and ac: "acyclic (blocking_edges s)" and k: "dep_keys s"
    and r: "AddDependency e dep a (default_opts\<lparr>IsCrossPrefix := cross\<rparr>) s = Some (Inr s')"
  shows "acyclic (blocking_edges s') \<and> dep_keys s' \<and> wf_db s'"
  using r
proof (cases rule: AddDependency_cases)
  case (update d)
  then show ?thesis using metadata_update(1,2) ac k wf by simp
next
  case (insert kind s1)
  note same = after_add_same[OF _ insert(4)]
  have wf1: "wf_db s1" using wf insert(3) by simp
  have "target_id (new_dep_row e dep kind a m) = DependsOnID dep" for m by (simp add: target_id_def)
  then have "acyclic (blocking_edges s1)"
    using ac add_checks_ok(2)[OF insert(1)] by (simp add: insert(3) blocking_edges_append)
  moreover have "dep_keys s1" unfolding insert(3) by (rule dep_keys_append[OF k insert(2)])
  ultimately show ?thesis
    using same[OF wf1] wf1 blocking_edges_same dep_keys_same same_but_flags_views(4) by metis
qed

text \<open>The edges a parent-child row can add to the parent relation.\<close>

definition with_parent :: "db \<Rightarrow> dependency \<Rightarrow> (node \<times> node) set" where
  "with_parent s dep = parent_edges s \<union>
     {((v, DependsOnID dep), (IsActiveWisp s (IssueID dep), IssueID dep)) |v. DepType dep = DepParentChild}"

lemma parent_edges_append:
  "parent_edges (set_dep_table (IsActiveWisp s (IssueID dep))
     (dep_table (IsActiveWisp s (IssueID dep)) s @ [new_dep_row e dep kind a m]) s) \<subseteq> with_parent s dep"
proof -
  let ?w = "IsActiveWisp s (IssueID dep)"
  let ?s1 = "set_dep_table ?w (dep_table ?w s @ [new_dep_row e dep kind a m]) s"
  have "d \<in> set (dep_table v ?s1) \<longleftrightarrow> d \<in> set (dep_table v s) \<or> v = ?w \<and> d = new_dep_row e dep kind a m" for d v
    by (cases "v = ?w") auto
  then show ?thesis
    by (auto simp: parent_edges_def parents_def with_parent_def new_dep_row_targets)
qed

lemma AddDependency_good:
  assumes g: "good_db e s" and ac: "acyclic (with_parent s dep)" and ne: "DependsOnID dep \<noteq> ''''"
  defines "w \<equiv> IsActiveWisp s (IssueID dep)"
  shows "\<exists>res. AddDependency e dep a (default_opts\<lparr>IsCrossPrefix := cross\<rparr>) s = Some res \<and>
     (\<forall>s'. res = Inr s' \<longrightarrow>
        (\<forall>v. erase_rows (issue_table v s') = erase_rows (issue_table v s)) \<and>
        (\<exists>d\<in>set (dep_table w s'). dep_match (IssueID dep) (DependsOnID dep) d \<and> dtype d = DepType dep \<and>
           dmetadata d = (if DepMetadata dep = '''' then ''{}'' else DepMetadata dep)) \<and>
        ((\<forall>d\<in>set (dep_table w s). dep_match (IssueID dep) (DependsOnID dep) d \<longrightarrow> dtype d \<noteq> DepWaitsFor) \<longrightarrow>
           good_db e s'))"
proof -
  let ?m = "if DepMetadata dep = '''' then ''{}'' else DepMetadata dep"
  have g': "wf_db s" "blocked_consistent e s" "rows_closed_at s" using g by (simp_all add: good_db_def)
  have after: "\<exists>r. after_add_dependency e dep w kind s1 = Some r \<and> good_db e r \<and> same_but_flags s1 r"
    if s1: "s1 = set_dep_table w (dep_table w s @ [new_dep_row e dep kind a ?m]) s" for kind s1
  proof -
    have ap: "acyclic_parents s1"
      unfolding acyclic_parents_def s1 w_def by (rule acyclic_subset[OF ac parent_edges_append])
    obtain r where r: "after_add_dependency e dep w kind s1 = Some r" "wf_db r" "same_but_flags s1 r" "blocked_consistent e r"
      using after_add_repairs[OF g'(1,2) s1] ap ne by blast
    have "good_db e r"
      using r ap acyclic_parents_same[OF r(3)] rows_closed_at_same[OF r(3)] g'(3) by (simp add: good_db_def s1)
    with r show ?thesis by blast
  qed
  define m where "m = ?m"
  define kind where "kind = ClassifyDepTarget s dep cross"
  obtain r0 where r0: "after_add_dependency e dep w kind
      (set_dep_table w (dep_table w s @ [new_dep_row e dep kind a m]) s) = Some r0"
    using after[OF refl] unfolding m_def by blast
  have "AddDependency e dep a (default_opts\<lparr>IsCrossPrefix := cross\<rparr>) s \<noteq> None"
    unfolding AddDependency_default Let_def w_def[symmetric] m_def[symmetric] kind_def[symmetric] r0
    by (simp split: sum.split option.split)
  then obtain res where res: "AddDependency e dep a (default_opts\<lparr>IsCrossPrefix := cross\<rparr>) s = Some res" by blast
  have "(\<forall>v. erase_rows (issue_table v s') = erase_rows (issue_table v s)) \<and>
        (\<exists>d\<in>set (dep_table w s'). dep_match (IssueID dep) (DependsOnID dep) d \<and> dtype d = DepType dep \<and> dmetadata d = ?m) \<and>
        ((\<forall>d\<in>set (dep_table w s). dep_match (IssueID dep) (DependsOnID dep) d \<longrightarrow> dtype d \<noteq> DepWaitsFor) \<longrightarrow>
           good_db e s')" if "res = Inr s'" for s'
    using res[unfolded that]
  proof (cases rule: AddDependency_cases)
    case (update d)
    note dm = find_match(2)[OF update(2)]
    have in_map: "h d \<in> set (map h ds)" if "d \<in> set ds" for h :: "dep_row \<Rightarrow> dep_row" and ds using that by simp
    have "d\<lparr>dmetadata := ?m\<rparr> \<in> set (dep_table w s')"
      using in_map[OF conjunct1[OF dm], of "\<lambda>d. if dep_match (IssueID dep) (DependsOnID dep) d then d\<lparr>dmetadata := ?m\<rparr> else d"]
        conjunct2[OF dm] unfolding update(4) w_def m_def[symmetric] by (simp only: table_simps if_True)
    moreover have "dep_match (IssueID dep) (DependsOnID dep) (d\<lparr>dmetadata := ?m\<rparr>)"
      using dm by (simp add: dep_match_def dep_target_def split: option.splits)
    moreover have "dtype (d\<lparr>dmetadata := ?m\<rparr>) = DepType dep" "dmetadata (d\<lparr>dmetadata := ?m\<rparr>) = ?m"
      using update(3) by simp_all
    ultimately have "\<exists>d\<in>set (dep_table w s'). dep_match (IssueID dep) (DependsOnID dep) d \<and>
        dtype d = DepType dep \<and> dmetadata d = ?m" by blast
    moreover have "(\<forall>d\<in>set (dep_table w s). dep_match (IssueID dep) (DependsOnID dep) d \<longrightarrow> dtype d \<noteq> DepWaitsFor) \<Longrightarrow>
        good_db e s'"
      using metadata_update(3) g unfolding update(4) w_def m_def[symmetric] by blast
    moreover have "erase_rows (issue_table v s') = erase_rows (issue_table v s)" for v
      unfolding update(4) by simp
    ultimately show ?thesis by blast
  next
    case (insert kind s1)
    obtain r where r: "after_add_dependency e dep w kind s1 = Some r" "good_db e r" "same_but_flags s1 r"
      using after insert(3) unfolding w_def by blast
    have s': "s' = r" using r(1) insert(4) by (simp add: w_def)
    have "dep_table w r = dep_table w s @ [new_dep_row e dep kind a ?m]"
      using same_but_flags_views(5)[OF r(3)] insert(3) by (simp add: w_def)
    moreover have "erase_rows (issue_table v r) = erase_rows (issue_table v s)" for v
      using r(3) insert(3) by (simp add: same_but_flags_def flip: issue_table_erase)
        (simp add: issue_table_erase)
    ultimately show ?thesis using r(2) s' by (simp add: dep_match_def)
  qed
  with res show ?thesis by blast
qed

lemma same_but_flags_rows:
  "same_but_flags s r \<Longrightarrow> erase_rows (issue_table v r) = erase_rows (issue_table v s)"
  by (simp only: same_but_flags_def issue_table_erase[symmetric])

lemma removeDependency_good:
  fixes s :: db and x y :: string
  assumes g: "good_db e s" and k: "dep_keys s" and ne: "y \<noteq> ''''"
  defines "w \<equiv> IsActiveWisp s x"
  shows "\<exists>s'. removeDependency e x y s = Some s' \<and> good_db e s' \<and> dep_keys s' \<and>
     dep_table w s' = filter (\<lambda>d. \<not> dep_match x y d) (dep_table w s) \<and>
     dep_table (\<not> w) s' = dep_table (\<not> w) s \<and> (\<forall>v. erase_rows (issue_table v s') = erase_rows (issue_table v s))"
proof (cases "find (dep_match x y) (dep_table w s)")
  case None
  then have "filter (\<lambda>d. \<not> dep_match x y d) (dep_table w s) = dep_table w s" by (simp add: find_match filter_id_conv)
  then show ?thesis using None g k by (simp add: removeDependency_def w_def Let_def)
next
  case (Some d0)
  note d0 = find_match(2)[OF Some]
  let ?s1 = "set_dep_table w (filter (\<lambda>d. \<not> dep_match x y d) (dep_table w s)) s"
  have g': "wf_db s" "blocked_consistent e s" "acyclic_parents s" "rows_closed_at s" using g by (simp_all add: good_db_def)
  have c: "dep_change w x y (dtype d0) s ?s1"
    unfolding dep_change_def
  proof (intro conjI allI impI)
    fix d assume "(d \<in> set (dep_table w s)) \<noteq> (d \<in> set (dep_table w ?s1))"
    then have d: "d \<in> set (dep_table w s)" "dep_match x y d" by auto
    then have "d = d0" using dep_keys_match[OF k] d0 by blast
    then show "issue_id d = x" "dtype d = dtype d0" using d by (simp_all add: dep_match_def)
    fix v p assume "targets d v p"
    then show "p = y"
      using d k one_target_targets[of d y v p] by (simp add: dep_match_def dep_keys_def)
  qed simp_all
  have sub: "set (dep_table v ?s1) \<subseteq> set (dep_table v s)" for v by (cases "v = w") auto
  have "parent_edges ?s1 \<subseteq> parent_edges s"
    using sub unfolding parent_edges_def parents_def set_dep_table_views by blast
  then have ac: "acyclic_parents ?s1" using g'(3) acyclic_subset by (auto simp: acyclic_parents_def)
  obtain js ws where q: "affected_dep w ?s1 x y (dtype d0) = (js, ws)" by fastforce
  obtain r where r: "recomputeIsBlocked e js ws ?s1 = Some r" "wf_db r" "same_but_flags ?s1 r" "blocked_consistent e r"
    using dep_change_repairs[OF g'(1) ac g'(2) c ne q] by blast
  have "removeDependency e x y s = Some r"
    using Some r(1) q unfolding removeDependency_def Let_def w_def[symmetric] affected_dep_routing by simp
  moreover have "good_db e r"
    using r ac acyclic_parents_same[OF r(3)] rows_closed_at_same[OF r(3)] g'(4) by (simp add: good_db_def)
  moreover have "dep_keys ?s1"
    unfolding dep_keys_def
  proof
    fix v show "distinct (map (\<lambda>d. (issue_id d, dep_target d)) (dep_table v ?s1)) \<and> (\<forall>d\<in>set (dep_table v ?s1). one_target d)"
      using k distinct_map_filter[of "\<lambda>d. (issue_id d, dep_target d)" "dep_table w s" "\<lambda>d. \<not> dep_match x y d"]
      by (cases "v = w") (auto simp: dep_keys_def)
  qed
  moreover have "erase_rows (issue_table v r) = erase_rows (issue_table v s)" for v
    using same_but_flags_rows[OF r(3)] by simp
  ultimately show ?thesis
    using dep_keys_same[OF r(3)] same_but_flags_views(5)[OF r(3)] by simp
qed

end
