(* ===== verification/CycleScan.thy ===== *)
theory CycleScan
  imports CyclesThms
begin

text \<open>
  \<^verbatim>\<open>DetectCyclesInTx\<close>: a depth-first search that reports the cycle of every edge
  back to the recursion stack.  The inner function of the code never returns
  true, so the early return on a true result is not reached and is left out.  A Go
  map is iterated in no fixed order: the order of the start nodes is an argument.
  The fuel of the search is one more than the nodes that can still be entered.
\<close>

record scan_state =
  visited :: "string set"
  recStack :: "string set"
  path :: "string list"
  cycles :: "issue_row list list"

definition report_cycle :: "(string \<Rightarrow> issue_row option) \<Rightarrow> string \<Rightarrow> scan_state \<Rightarrow> scan_state" where
  "report_cycle get neighbor st =
    (if neighbor \<in> set (path st) then
       (let cyclePath = dropWhile (\<lambda>n. n \<noteq> neighbor) (path st);
            cycleIssues = List.map_filter get cyclePath
        in if cycleIssues \<noteq> [] then st\<lparr>cycles := cycles st @ [cycleIssues]\<rparr> else st)
     else st)"

fun dfs :: "nat \<Rightarrow> graph \<Rightarrow> (string \<Rightarrow> issue_row option) \<Rightarrow> string \<Rightarrow> scan_state \<Rightarrow> scan_state" where
  "dfs 0 g get node st = st"
| "dfs (Suc k) g get node st =
    (let st1 = st\<lparr>visited := insert node (visited st), recStack := insert node (recStack st), path := path st @ [node]\<rparr>;
         st2 = fold (\<lambda>neighbor st.
                 if neighbor \<notin> visited st then dfs k g get neighbor st
                 else if neighbor \<in> recStack st then report_cycle get neighbor st
                 else st) (adj g node) st1
     in st2\<lparr>path := butlast (path st2), recStack := recStack st2 - {node}\<rparr>)"

definition scan_fuel :: "graph \<Rightarrow> nat" where
  "scan_fuel g = Suc (card (graph_nodes g))"

definition scan_start :: scan_state where
  "scan_start = \<lparr>visited = {}, recStack = {}, path = [], cycles = []\<rparr>"

definition scan :: "graph \<Rightarrow> (string \<Rightarrow> issue_row option) \<Rightarrow> string list \<Rightarrow> scan_state" where
  "scan g get order = fold (\<lambda>node st. if node \<notin> visited st then dfs (scan_fuel g) g get node st else st) order scan_start"

definition lookup_issue :: "db \<Rightarrow> string \<Rightarrow> issue_row option" where
  "lookup_issue s x = (case GetIssue s x of Inl er \<Rightarrow> None | Inr r \<Rightarrow> Some r)"

definition DetectCycles :: "db \<Rightarrow> string list \<Rightarrow> issue_row list list" where
  "DetectCycles s order = cycles (scan (AppendBlockingGraph s [False, True] []) (lookup_issue s) order)"

subsection \<open>Correctness\<close>

text \<open>A reported cycle: the known issues of a path of the graph whose last node leads back to its first.\<close>

definition is_cycle :: "graph \<Rightarrow> string list \<Rightarrow> bool" where
  "is_cycle g p = (p \<noteq> [] \<and> is_path g p \<and> (last p, hd p) \<in> edges g)"

lemma path_trancl: "is_path g p \<Longrightarrow> p \<noteq> [] \<Longrightarrow> (hd p, last p) \<in> (edges g)\<^sup>*"
  by (induction g p rule: is_path.induct) auto

lemma cycle_not_acyclic: "is_cycle g p \<Longrightarrow> \<not> acyclic (edges g)"
  using path_trancl[of g p] unfolding is_cycle_def acyclic_def by (meson r_into_trancl rtrancl_into_trancl1 rtrancl_trancl_trancl)

lemma is_path_suffix: "is_path g (xs @ ys) \<Longrightarrow> is_path g ys"
proof (induction xs)
  case (Cons x xs)
  then show ?case by (cases "xs @ ys") auto
qed simp

lemma is_path_extend: "is_path g p \<Longrightarrow> (p = [] \<or> (last p, x) \<in> edges g) \<Longrightarrow> is_path g (p @ [x])"
  by (induction g p rule: is_path.induct) auto

definition all_known :: "graph \<Rightarrow> (string \<Rightarrow> issue_row option) \<Rightarrow> bool" where
  "all_known g get = (\<forall>x\<in>graph_nodes g. get x \<noteq> None)"

definition fin :: "scan_state \<Rightarrow> string set" where
  "fin st = visited st - recStack st"

text \<open>
  The invariant: the path is a path of the graph and its nodes are the recursion
  stack; every report is a cycle; as long as nothing was reported, the finished
  nodes are closed under edges and carry no cycle.
\<close>

definition scan_inv :: "graph \<Rightarrow> (string \<Rightarrow> issue_row option) \<Rightarrow> scan_state \<Rightarrow> bool" where
  "scan_inv g get st = (is_path g (path st) \<and> distinct (path st) \<and> recStack st = set (path st) \<and>
     recStack st \<subseteq> visited st \<and>
     (\<forall>c\<in>set (cycles st). \<exists>p. is_cycle g p \<and> c = List.map_filter get p) \<and>
     (all_known g get \<and> cycles st = [] \<longrightarrow>
        edges g `` fin st \<subseteq> fin st \<and> acyclic (edges g \<inter> fin st \<times> UNIV)))"

definition grows_scan :: "scan_state \<Rightarrow> scan_state \<Rightarrow> bool" where
  "grows_scan st st' = (path st' = path st \<and> visited st \<subseteq> visited st' \<and> recStack st' = recStack st \<and>
     (cycles st' = [] \<longrightarrow> cycles st = []))"

lemma grows_scan_trans: "grows_scan a b \<Longrightarrow> grows_scan b c \<Longrightarrow> grows_scan a c"
  by (auto simp: grows_scan_def)

lemma grows_scan_refl [simp]: "grows_scan a a"
  by (simp add: grows_scan_def)

lemma report_cycle_step:
  assumes "scan_inv g get st" "(last (path st), n) \<in> edges g" "n \<in> recStack st"
  shows "scan_inv g get (report_cycle get n st) \<and> grows_scan st (report_cycle get n st) \<and>
     (all_known g get \<longrightarrow> cycles (report_cycle get n st) \<noteq> [])"
proof -
  let ?p = "dropWhile (\<lambda>m. m \<noteq> n) (path st)"
  have n: "n \<in> set (path st)" using assms(1,3) by (simp add: scan_inv_def)
  then have ne: "?p \<noteq> []" by (simp add: dropWhile_eq_Nil_conv)
  have pp: "path st = takeWhile (\<lambda>m. m \<noteq> n) (path st) @ ?p" by simp
  have hd: "hd ?p = n" using hd_dropWhile[OF ne] by simp
  have "is_path g ?p" using assms(1) pp is_path_suffix by (metis scan_inv_def)
  moreover have "last ?p = last (path st)" using pp ne by (metis last_appendR)
  ultimately have c: "is_cycle g ?p" using ne hd assms(2) by (simp add: is_cycle_def)
  have "n \<in> graph_nodes g" using assms(2) adj_nodes by (auto simp: edges_def)
  moreover have "n \<in> set ?p" using ne hd by (metis list.set_sel(1))
  ultimately have "List.map_filter get ?p \<noteq> []" if "all_known g get"
    using that unfolding all_known_def by (force simp: map_filter_def filter_empty_conv)
  then show ?thesis
    using assms(1) n c by (auto simp: report_cycle_def Let_def scan_inv_def grows_scan_def fin_def)
qed

lemma acyclic_source:
  assumes "acyclic r" "\<And>x. (x, n) \<notin> r" "n \<notin> S"
  shows "acyclic (r \<union> {n} \<times> S)"
proof -
  have no: "(x, n) \<notin> r \<union> {n} \<times> S" for x using assms(2,3) by auto
  have keep: "(a, b) \<in> (r \<union> {n} \<times> S)\<^sup>+ \<Longrightarrow> a \<noteq> n \<Longrightarrow> (a, b) \<in> r\<^sup>+" for a b
  proof (induction rule: trancl_induct)
    case (step b c)
    then have "b \<noteq> n" using no by (metis tranclE)
    then show ?case using step by (auto intro: trancl_into_trancl)
  qed auto
  have "(a, a) \<notin> (r \<union> {n} \<times> S)\<^sup>+" for a
  proof
    assume a: "(a, a) \<in> (r \<union> {n} \<times> S)\<^sup>+"
    then have "a \<noteq> n" using no by (metis tranclE)
    then show False using keep[OF a] assms(1) by (simp add: acyclic_def)
  qed
  then show ?thesis by (simp add: acyclic_def)
qed

lemma is_path_prefix: "is_path g (xs @ ys) \<Longrightarrow> is_path g xs"
proof (induction g xs rule: is_path.induct)
  case (1 g x y xs)
  then show ?case by simp
qed auto

lemma fin_mono: "grows_scan st st' \<Longrightarrow> fin st \<subseteq> fin st'"
  by (auto simp: grows_scan_def fin_def)

lemma scan_loop:
  fixes g :: graph and get k node
  defines "body \<equiv> \<lambda>neighbor st. if neighbor \<notin> visited st then dfs k g get neighbor st
     else if neighbor \<in> recStack st then report_cycle get neighbor st else st"
  assumes IH: "\<And>n st. scan_inv g get st \<Longrightarrow> n \<notin> visited st \<Longrightarrow> n \<in> graph_nodes g \<Longrightarrow>
      path st = [] \<or> (last (path st), n) \<in> edges g \<Longrightarrow> card (graph_nodes g - visited st) < k \<Longrightarrow>
      scan_inv g get (dfs k g get n st) \<and> grows_scan st (dfs k g get n st) \<and> n \<in> visited (dfs k g get n st)"
    and inv: "scan_inv g get st" and p: "path st \<noteq> []" "last (path st) = node" "set ns \<subseteq> set (adj g node)"
    and k: "card (graph_nodes g - visited st) < k"
  shows "scan_inv g get (fold body ns st) \<and> grows_scan st (fold body ns st) \<and>
     (all_known g get \<and> cycles (fold body ns st) = [] \<longrightarrow> set ns \<subseteq> fin (fold body ns st))"
  using inv p k
proof (induction ns arbitrary: st)
  case (Cons n ns)
  let ?st = "body n st"
  have e: "(last (path st), n) \<in> edges g" using Cons.prems by (simp add: edges_def)
  have ng: "n \<in> graph_nodes g" using Cons.prems adj_nodes by auto
  have st: "scan_inv g get ?st \<and> grows_scan st ?st \<and> (all_known g get \<and> cycles ?st = [] \<longrightarrow> n \<in> fin ?st)"
  proof (cases "n \<in> visited st")
    case False
    then have "n \<notin> recStack st" using Cons.prems(1) by (auto simp: scan_inv_def)
    then show ?thesis
      using IH[OF Cons.prems(1) False ng _ Cons.prems(5)] e False
      by (auto simp: body_def fin_def grows_scan_def)
  next
    case True
    then show ?thesis
      using report_cycle_step[OF Cons.prems(1) e] Cons.prems(1) by (auto simp: body_def fin_def)
  qed
  have "card (graph_nodes g - visited ?st) \<le> card (graph_nodes g - visited st)"
    using st by (intro card_mono) (auto simp: grows_scan_def)
  then have "scan_inv g get (fold body ns ?st) \<and> grows_scan ?st (fold body ns ?st) \<and>
     (all_known g get \<and> cycles (fold body ns ?st) = [] \<longrightarrow> set ns \<subseteq> fin (fold body ns ?st))"
    using st Cons.prems by (intro Cons.IH) (auto simp: grows_scan_def)
  then have l: "scan_inv g get (fold body ns ?st)" "grows_scan ?st (fold body ns ?st)"
     "all_known g get \<and> cycles (fold body ns ?st) = [] \<longrightarrow> set ns \<subseteq> fin (fold body ns ?st)" by simp_all
  have "n \<in> fin (fold body ns ?st)" if "all_known g get" "cycles (fold body ns ?st) = []"
  proof -
    have "cycles ?st = []" using l(2) that(2) by (simp add: grows_scan_def)
    then show ?thesis using st that(1) fin_mono[OF l(2)] by blast
  qed
  moreover have "grows_scan st (fold body ns ?st)" using st l(2) grows_scan_trans by blast
  ultimately show ?case using l(1,3) by simp
qed simp

lemma scan_enter:
  assumes "scan_inv g get st" "n \<notin> visited st" "path st = [] \<or> (last (path st), n) \<in> edges g"
  shows "scan_inv g get (st\<lparr>visited := insert n (visited st), recStack := insert n (recStack st), path := path st @ [n]\<rparr>)"
proof -
  let ?st = "st\<lparr>visited := insert n (visited st), recStack := insert n (recStack st), path := path st @ [n]\<rparr>"
  have "fin ?st = fin st" using assms(2) by (auto simp: fin_def)
  moreover have "n \<notin> set (path st)" using assms(1,2) by (auto simp: scan_inv_def)
  ultimately show ?thesis
    using assms(1) is_path_extend[OF _ assms(3)] by (auto simp: scan_inv_def)
qed

lemma scan_leave:
  assumes inv: "scan_inv g get st" and p: "path st = ps @ [n]"
    and dn: "all_known g get \<and> cycles st = [] \<longrightarrow> set (adj g n) \<subseteq> fin st"
  shows "scan_inv g get (st\<lparr>path := butlast (path st), recStack := recStack st - {n}\<rparr>)" (is "scan_inv g get ?st")
proof -
  have d: "n \<notin> set ps" "distinct ps" "recStack st = insert n (set ps)" "recStack st \<subseteq> visited st"
    using inv p by (auto simp: scan_inv_def)
  have ip: "is_path g ps" using is_path_prefix[of g ps "[n]"] inv p by (simp add: scan_inv_def)
  have fin: "fin ?st = insert n (fin st)" using d by (auto simp: fin_def)
  have nf: "n \<notin> fin st" using d by (simp add: fin_def)
  have "edges g `` fin ?st \<subseteq> fin ?st \<and> acyclic (edges g \<inter> fin ?st \<times> UNIV)"
    if a: "all_known g get" "cycles st = []"
  proof -
    have c: "edges g `` fin st \<subseteq> fin st" "acyclic (edges g \<inter> fin st \<times> UNIV)"
      using inv a by (simp_all add: scan_inv_def)
    have ns: "set (adj g n) \<subseteq> fin st" using dn a by simp
    have "edges g \<inter> fin ?st \<times> UNIV = (edges g \<inter> fin st \<times> UNIV) \<union> {n} \<times> set (adj g n)"
      unfolding fin using nf by (auto simp: edges_def)
    moreover have "acyclic ((edges g \<inter> fin st \<times> UNIV) \<union> {n} \<times> set (adj g n))"
      using c nf ns by (intro acyclic_source) auto
    moreover have "edges g `` fin ?st \<subseteq> fin ?st" unfolding fin using c(1) ns by (auto simp: edges_def)
    ultimately show ?thesis by simp
  qed
  then show ?thesis
    using inv p d ip by (auto simp: scan_inv_def)
qed

lemma dfs_spec:
  assumes "scan_inv g get st" "n \<notin> visited st" "n \<in> graph_nodes g"
    and "path st = [] \<or> (last (path st), n) \<in> edges g" "card (graph_nodes g - visited st) < k"
  shows "scan_inv g get (dfs k g get n st) \<and> grows_scan st (dfs k g get n st) \<and> n \<in> visited (dfs k g get n st)"
  using assms
proof (induction k arbitrary: n st)
  case (Suc k)
  let ?st1 = "st\<lparr>visited := insert n (visited st), recStack := insert n (recStack st), path := path st @ [n]\<rparr>"
  define st2 where "st2 = fold (\<lambda>neighbor st. if neighbor \<notin> visited st then dfs k g get neighbor st
     else if neighbor \<in> recStack st then report_cycle get neighbor st else st) (adj g n) ?st1"
  have "card (graph_nodes g - visited ?st1) < card (graph_nodes g - visited st)"
    using Suc.prems(2,3) card_Diff_less[of "graph_nodes g" n "visited st"] by simp
  then have l: "scan_inv g get st2 \<and> grows_scan ?st1 st2 \<and> (all_known g get \<and> cycles st2 = [] \<longrightarrow> set (adj g n) \<subseteq> fin st2)"
    unfolding st2_def
    by (intro scan_loop[where node = n] Suc.IH scan_enter Suc.prems) (use Suc.prems(5) in auto)
  have p: "path st2 = path st @ [n]" using l by (simp add: grows_scan_def)
  have inv: "scan_inv g get (st2\<lparr>path := butlast (path st2), recStack := recStack st2 - {n}\<rparr>)"
    using scan_leave[OF _ p] l by blast
  have "n \<notin> recStack st" using Suc.prems(1,2) by (auto simp: scan_inv_def)
  then have "grows_scan st (st2\<lparr>path := butlast (path st2), recStack := recStack st2 - {n}\<rparr>)"
    using l p by (auto simp: grows_scan_def)
  moreover have "n \<in> visited st2" using l by (auto simp: grows_scan_def)
  ultimately show ?case using inv by (simp add: st2_def[symmetric] Let_def)
qed simp

text \<open>The scan of all start nodes.\<close>

lemma scan_spec:
  assumes "set order \<subseteq> fst ` set g"
  shows "scan_inv g get (scan g get order) \<and> path (scan g get order) = [] \<and> set order \<subseteq> visited (scan g get order)"
proof -
  have base: "scan_inv g get scan_start" "path scan_start = []"
    by (simp_all add: scan_inv_def scan_start_def fin_def acyclic_def)
  let ?body = "\<lambda>node st. if node \<notin> visited st then dfs (scan_fuel g) g get node st else st"
  have "scan_inv g get st \<Longrightarrow> path st = [] \<Longrightarrow> set xs \<subseteq> fst ` set g \<Longrightarrow>
     scan_inv g get (fold ?body xs st) \<and> grows_scan st (fold ?body xs st) \<and> set xs \<subseteq> visited (fold ?body xs st)" for xs st
  proof (induction xs arbitrary: st)
    case (Cons x xs)
    have x: "x \<in> graph_nodes g" using Cons.prems(3) by (auto simp: graph_nodes_def)
    have f: "card (graph_nodes g - visited st) < scan_fuel g"
      unfolding scan_fuel_def less_Suc_eq_le by (rule card_mono) auto
    have st: "scan_inv g get (?body x st) \<and> grows_scan st (?body x st) \<and> x \<in> visited (?body x st)"
      using dfs_spec[OF Cons.prems(1) _ x _ f] Cons.prems by auto
    then have "path (?body x st) = []" using Cons.prems(2) by (simp add: grows_scan_def)
    then have IH: "scan_inv g get (fold ?body xs (?body x st)) \<and> grows_scan (?body x st) (fold ?body xs (?body x st)) \<and>
        set xs \<subseteq> visited (fold ?body xs (?body x st))"
      using Cons.IH[of "?body x st"] st Cons.prems(3) by simp
    then have "visited (?body x st) \<subseteq> visited (fold ?body xs (?body x st))" by (simp only: grows_scan_def)
    then have "x \<in> visited (fold ?body xs (?body x st))" using st by blast
    moreover have "grows_scan st (fold ?body xs (?body x st))" using IH st grows_scan_trans by blast
    ultimately show ?case using IH unfolding fold_simps list.set insert_subset by blast
  qed simp
  from this[OF base assms] show ?thesis
    using base(2) by (auto simp: scan_def grows_scan_def)
qed

theorem scan_exact:
  assumes "set order = fst ` set g"
  shows "(\<forall>c\<in>set (cycles (scan g get order)). \<exists>p. is_cycle g p \<and> c = List.map_filter get p) \<and>
    (all_known g get \<longrightarrow> (cycles (scan g get order) = [] \<longleftrightarrow> acyclic (edges g)))"
proof -
  let ?st = "scan g get order"
  have s: "scan_inv g get ?st" "path ?st = []" "set order \<subseteq> visited ?st"
    using scan_spec[of order g get] assms by auto
  have "cycles ?st \<noteq> [] \<Longrightarrow> \<not> acyclic (edges g)"
    using s(1) cycle_not_acyclic unfolding scan_inv_def by (metis list.set_intros(1) neq_Nil_conv)
  moreover have "acyclic (edges g)" if "all_known g get" "cycles ?st = []"
  proof -
    have "fin ?st = visited ?st" using s by (simp add: fin_def scan_inv_def)
    then have "edges g \<inter> fin ?st \<times> UNIV = edges g"
      using s(3) assms adj_source by (force simp: edges_def)
    moreover have "acyclic (edges g \<inter> fin ?st \<times> UNIV)" using s(1) that by (simp add: scan_inv_def)
    ultimately show ?thesis by simp
  qed
  ultimately show ?thesis using s(1) by (auto simp: scan_inv_def)
qed

end
