(* ===== verification/PropsDeps.thy ===== *)
theory PropsDeps
  imports DepsThms CycleScan Examples
begin

text \<open>Properties of dependencies: cycle checks, adding, removing, and what they leave behind.\<close>

text \<open>
  (C26) The check before an insert accepts a dependency exactly when it is no
  self-dependency and, for a blocking type, its source is not reachable from its
  target along the blocking rows of both tables.
\<close>

theorem cycle_check_exact:
  "CheckDependencyCycle s dep [] = Inr () \<longleftrightarrow> IssueID dep \<noteq> DependsOnID dep \<and>
     (DepType dep = DepBlocks \<or> DepType dep = DepConditionalBlocks \<longrightarrow>
        (DependsOnID dep, IssueID dep) \<notin> (blocking_edges s)\<^sup>*)"
  using CheckDependencyCycle_iff[of s dep] by (simp add: is_blocking_def)

theorem cycle_check_exact_witness:
  "(''bd-2'', ''bd-1'') \<in> (blocking_edges (chain True))\<^sup>* \<and>
   (''bd-1'', ''bd-2'') \<notin> (blocking_edges (chain True))\<^sup>*"
proof -
  have "CheckDependencyCycle (chain True) (ex_new_dep ''bd-1'' ''bd-2'' ''blocks'' '''') [] \<noteq> Inr ()"
    "CheckDependencyCycle (chain True) (ex_new_dep ''bd-2'' ''bd-1'' ''blocks'' '''') [] = Inr ()"
    by code_simp+
  then show ?thesis
    using cycle_check_exact[of "chain True" "ex_new_dep ''bd-1'' ''bd-2'' ''blocks'' ''''"]
      cycle_check_exact[of "chain True" "ex_new_dep ''bd-2'' ''bd-1'' ''blocks'' ''''"]
    by (simp add: ex_new_dep_def const_defs)
qed

text \<open>
  (C33) Adding dependencies through the store never closes a cycle of blocking
  rows and keeps the key constraints of the dependency tables, whatever the kinds
  of the two ends and whichever table holds the rows in between.
\<close>

theorem add_dependency_keeps_order:
  assumes "wf_db s" "acyclic (blocking_edges s)" "dep_keys s" "StoreAddDependency e dep a s = Some (Inr s')"
  shows "acyclic (blocking_edges s') \<and> dep_keys s' \<and> wf_db s'"
  using AddDependency_graph[OF assms(1-3)] assms(4) by (simp add: StoreAddDependency_def)

text \<open>
  (C8) On a good database adding a dependency returns. When it succeeds the row is
  there with the requested type and metadata, no issue row has changed apart from
  its flag, and - unless the metadata of an existing waits-for row was replaced -
  the flags are consistent with the new graph. A parent-child row is assumed to
  close no parent cycle.
\<close>

theorem add_dependency_complete:
  assumes "good_db e s" "acyclic (with_parent s dep)" "DependsOnID dep \<noteq> ''''"
  shows "\<exists>res. StoreAddDependency e dep a s = Some res \<and>
     (\<forall>s'. res = Inr s' \<longrightarrow>
        (\<forall>v. erase_rows (issue_table v s') = erase_rows (issue_table v s)) \<and>
        (\<exists>d\<in>set (dep_table (IsActiveWisp s (IssueID dep)) s'). dep_match (IssueID dep) (DependsOnID dep) d \<and>
           dtype d = DepType dep \<and> dmetadata d = (if DepMetadata dep = '''' then ''{}'' else DepMetadata dep)) \<and>
        ((\<forall>d\<in>set (dep_table (IsActiveWisp s (IssueID dep)) s).
            dep_match (IssueID dep) (DependsOnID dep) d \<longrightarrow> dtype d \<noteq> DepWaitsFor) \<longrightarrow> good_db e s'))"
  unfolding StoreAddDependency_def by (rule AddDependency_good[OF assms])

text \<open>
  (C9) Removing a dependency on a good database returns: exactly the row of the
  pair is gone, and flags and keys are right again. Removing a row that does not
  exist changes nothing.
\<close>

theorem remove_dependency_complete:
  assumes "good_db e s" "dep_keys s" "y \<noteq> ''''"
  shows "\<exists>s'. removeDependency e x y s = Some s' \<and> good_db e s' \<and> dep_keys s' \<and>
     dep_table (IsActiveWisp s x) s' = filter (\<lambda>d. \<not> dep_match x y d) (dep_table (IsActiveWisp s x) s) \<and>
     dep_table (\<not> IsActiveWisp s x) s' = dep_table (\<not> IsActiveWisp s x) s \<and>
     (\<forall>v. erase_rows (issue_table v s') = erase_rows (issue_table v s))"
  by (rule removeDependency_good[OF assms])

lemma chain_keys: "dep_keys (chain True)"
  unfolding dep_keys_def all_bool_eq
  by (simp add: chain_def ex_db_def ex_dep_def dep_table_def one_target_def dep_target_def)

lemma chain_blocking: "blocking_edges (chain True) = {(''bd-2'', ''bd-1'')}"
proof -
  have "set (blocking_pairs (chain True) cycleDetectionTables) = {(''bd-2'', ''bd-1'')}" by code_simp
  then show ?thesis by (simp add: all_blocking_pairs)
qed

theorem remove_dependency_complete_witness:
  "\<exists>s'. removeDependency ex_env ''bd-2'' ''bd-1'' (chain True) = Some s' \<and> good_db ex_env s' \<and>
     length (dep_table False s') = 1"
proof -
  have w: "IsActiveWisp (chain True) ''bd-2'' = False" by (simp add: IsActiveWisp_def chain_def ex_db_def)
  have l: "length (filter (\<lambda>d. \<not> dep_match ''bd-2'' ''bd-1'' d) (dep_table False (chain True))) = 1" by code_simp
  show ?thesis
    using remove_dependency_complete[OF chain_good chain_keys, of "''bd-1''" "''bd-2''"] l unfolding w by force
qed

definition three_open :: db where
  "three_open = ex_db [ex_row ''bd-1'' ''open'' False, ex_row ''bd-2'' ''open'' False, ex_row ''bd-3'' ''open'' False] []"

definition then_add :: "dependency \<Rightarrow> (store_error + db) option \<Rightarrow> (store_error + db) option" where
  "then_add dep r = (case r of Some (Inr s) \<Rightarrow> StoreAddDependency ex_env dep ''alice'' s | _ \<Rightarrow> r)"

definition cycle_run :: "(store_error + (close_result \<times> db)) option" where
  "cycle_run =
    (case then_add (ex_new_dep ''bd-1'' ''bd-3'' ''blocks'' '''')
       (then_add (ex_new_dep ''bd-2'' ''bd-1'' ''parent-child'' '''')
         (StoreAddDependency ex_env (ex_new_dep ''bd-1'' ''bd-2'' ''parent-child'' '''') ''alice'' three_open)) of
       Some (Inr s) \<Rightarrow> CloseIssue ex_env ''bd-3'' ''done'' ''alice'' '''' s
     | _ \<Rightarrow> None)"

text \<open>
  Nothing stops a parent cycle: on two open issues without dependencies,
  making each the parent of the other succeeds both times. Once the first is also
  blocked by a third issue, closing that blocker leaves both flagged although no
  open blocker is left.
\<close>

theorem parent_cycle_accepted:
  "\<exists>res s. cycle_run = Some (Inr (res, s)) \<and> map IsBlocked (t_issues s) = [True, True, False] \<and>
     map Status (t_issues s) = [''open'', ''open'', ''closed''] \<and> CountIsBlockedInconsistencies ex_env s = 0"
proof -
  have "case cycle_run of Some (Inr (res, s)) \<Rightarrow> map IsBlocked (t_issues s) = [True, True, False] \<and>
     map Status (t_issues s) = [''open'', ''open'', ''closed''] \<and> CountIsBlockedInconsistencies ex_env s = 0
     | _ \<Rightarrow> False"
    by code_simp
  then obtain res s where "cycle_run = Some (Inr (res, s))" "map IsBlocked (t_issues s) = [True, True, False]"
    "map Status (t_issues s) = [''open'', ''open'', ''closed'']" "CountIsBlockedInconsistencies ex_env s = 0"
    by (auto simp del: list.map split: option.splits sum.splits prod.splits)
  then show ?thesis by (intro exI conjI)
qed

text \<open>
  Adding a waits-for dependency a second time only replaces its metadata: when
  the new metadata names another gate the flag of the waiter is left as it was, and
  the doctor's count is no longer zero.
\<close>

definition waiting :: db where
  "waiting = ex_db [ex_row ''bd-1'' ''open'' False, ex_row ''bd-2'' ''open'' False, ex_row ''bd-3'' ''closed'' False,
      ex_row ''bd-4'' ''open'' True]
     [ex_dep ''bd-2'' ''bd-1'' ''parent-child'' '''', ex_dep ''bd-3'' ''bd-1'' ''parent-child'' '''',
      ex_dep ''bd-4'' ''bd-1'' ''waits-for'' ''all'']"

theorem gate_update_stale:
  "\<exists>s. StoreAddDependency ex_env (ex_new_dep ''bd-4'' ''bd-1'' ''waits-for'' ''any'') ''alice'' waiting = Some (Inr s) \<and>
     CountIsBlockedInconsistencies ex_env waiting = 0 \<and> CountIsBlockedInconsistencies ex_env s = 1"
proof -
  have "case StoreAddDependency ex_env (ex_new_dep ''bd-4'' ''bd-1'' ''waits-for'' ''any'') ''alice'' waiting of
     Some (Inr s) \<Rightarrow> CountIsBlockedInconsistencies ex_env waiting = 0 \<and> CountIsBlockedInconsistencies ex_env s = 1
     | _ \<Rightarrow> False"
    by code_simp
  then show ?thesis by (auto split: option.splits sum.splits)
qed

lemma add_ok:
  "case StoreAddDependency ex_env (ex_new_dep ''bd-3'' ''bd-1'' ''blocks'' '''') ''alice'' (chain True) of
     Some (Inr s) \<Rightarrow> True | _ \<Rightarrow> False"
  by code_simp

theorem add_dependency_keeps_order_witness:
  "\<exists>s. StoreAddDependency ex_env (ex_new_dep ''bd-3'' ''bd-1'' ''blocks'' '''') ''alice'' (chain True) = Some (Inr s) \<and>
     acyclic (blocking_edges s) \<and> dep_keys s"
proof -
  obtain s where s: "StoreAddDependency ex_env (ex_new_dep ''bd-3'' ''bd-1'' ''blocks'' '''') ''alice'' (chain True) = Some (Inr s)"
    using add_ok by (auto split: option.splits sum.splits)
  have "acyclic (blocking_edges (chain True))"
    unfolding chain_blocking by (rule acyclic_by_rank[where rank = "\<lambda>x. if x = ''bd-1'' then 1 else 0"]) auto
  then show ?thesis using add_dependency_keeps_order[OF chain_wf _ chain_keys s] s by blast
qed

theorem add_dependency_complete_witness:
  "\<exists>s. StoreAddDependency ex_env (ex_new_dep ''bd-3'' ''bd-1'' ''blocks'' '''') ''alice'' (chain True) = Some (Inr s) \<and>
     good_db ex_env s"
proof -
  let ?d = "ex_new_dep ''bd-3'' ''bd-1'' ''blocks'' ''''"
  obtain s where s: "StoreAddDependency ex_env ?d ''alice'' (chain True) = Some (Inr s)"
    using add_ok by (auto split: option.splits sum.splits)
  have "with_parent (chain True) ?d = parent_edges (chain True)"
    by (simp add: with_parent_def ex_new_dep_def const_defs)
  then have "acyclic (with_parent (chain True) ?d)" using chain_acyclic by (simp add: acyclic_parents_def)
  moreover have "DependsOnID ?d \<noteq> ''''" by (simp add: ex_new_dep_def)
  moreover have "\<forall>d\<in>set (dep_table (IsActiveWisp (chain True) (IssueID ?d)) (chain True)). dtype d \<noteq> DepWaitsFor"
    by code_simp
  ultimately show ?thesis using add_dependency_complete[OF chain_good, of ?d "''alice''"] s by auto
qed

text \<open>
  (C37) The cycle detector, whatever the order in which the map of nodes is
  iterated: everything it reports is a cycle of blocking rows, and when every node
  is an issue or wisp it reports nothing exactly on acyclic graphs.
\<close>

theorem detect_cycles_exact:
  assumes "set order = fst ` set (AppendBlockingGraph s [False, True] [])"
  shows "(\<forall>c\<in>set (DetectCycles s order). \<exists>p. is_cycle (AppendBlockingGraph s [False, True] []) p \<and>
       c = List.map_filter (lookup_issue s) p) \<and>
     (all_known (AppendBlockingGraph s [False, True] []) (lookup_issue s) \<longrightarrow>
       (DetectCycles s order = [] \<longleftrightarrow> acyclic (blocking_edges s)))"
  using scan_exact[OF assms, of "lookup_issue s"] by (simp add: DetectCycles_def edges_AppendBlockingGraph)

theorem detect_cycles_exact_witness:
  "DetectCycles (chain True) [''bd-2''] = [] \<and> acyclic (blocking_edges (chain True))"
proof -
  have g: "AppendBlockingGraph (chain True) [False, True] [] = [(''bd-2'', [''bd-1''])]" by code_simp
  then have o: "set [''bd-2''] = fst ` set (AppendBlockingGraph (chain True) [False, True] [])" by simp
  have k: "all_known (AppendBlockingGraph (chain True) [False, True] []) (lookup_issue (chain True))"
    unfolding g all_known_def graph_nodes_def by code_simp
  have "acyclic (blocking_edges (chain True))"
    unfolding chain_blocking by (rule acyclic_by_rank[where rank = "\<lambda>x. if x = ''bd-1'' then 1 else 0"]) auto
  then show ?thesis using detect_cycles_exact[OF o] k by blast
qed

text \<open>
  The bulk check of new edges reports a cycle exactly when one of the edges,
  with non-empty ends, is a self-loop or has its source reachable from its target;
  the path search below it returns a path whenever there is one.
\<close>

theorem cycle_through_edges_exact:
  "(CycleThroughEdgesInGraph g es = '''' \<longleftrightarrow>
     (\<forall>(u, v)\<in>set es. u \<noteq> '''' \<and> v \<noteq> '''' \<longrightarrow> u \<noteq> v \<and> (v, u) \<notin> (edges g)\<^sup>*)) \<and>
   (start \<noteq> '''' \<and> '''' \<notin> graph_nodes g \<longrightarrow>
     (case reachPath g start goal of None \<Rightarrow> (start, goal) \<notin> (edges g)\<^sup>*
      | Some p \<Rightarrow> is_path g p \<and> p \<noteq> [] \<and> hd p = start \<and> last p = goal))"
  using CycleThroughEdges_iff[of g es] reachPath_exact[of g start goal] reachPath_path[of g start goal]
  by (auto split: option.split)

theorem cycle_through_edges_exact_witness:
  "CycleThroughEdgesInGraph [(''a'', [''b'']), (''b'', [''c''])] [(''a'', ''b'')] = '''' \<and>
   (''b'', ''a'') \<notin> (edges [(''a'', [''b'']), (''b'', [''c''])])\<^sup>*"
proof -
  let ?g = "[(''a'', [''b'']), (''b'', [''c''])] :: graph"
  have "CycleThroughEdgesInGraph ?g [(''a'', ''b'')] = ''''" by code_simp
  then show ?thesis using cycle_through_edges_exact[of ?g "[(''a'', ''b'')]" "''a''" "''c''"] by auto
qed

end
