(* ===== verification/Config.thy ===== *)
theory Config
  imports Store StatusConfig "HOL-Library.List_Lexorder" "HOL-Library.Char_ord"
begin

text \<open>
  The configuration the operations read: the \<^verbatim>\<open>config\<close> table and the normalized
  tables \<^verbatim>\<open>custom_statuses\<close> and \<^verbatim>\<open>custom_types\<close> of
  \<^verbatim>\<open>internal/storage/issueops/config_metadata.go\<close> and \<^verbatim>\<open>config_helpers.go\<close>, the
  readers of \<^verbatim>\<open>helpers.go\<close>, and the store's \<^verbatim>\<open>SetConfig\<close>, \<^verbatim>\<open>DeleteConfig\<close> and
  getters.  The settings of \<^verbatim>\<open>config.yaml\<close> and the JSON decoder are in \<^verbatim>\<open>env\<close>.

  The decoder of a JSON string array is \<^verbatim>\<open>unmarshal_strs\<close>; when it fails, the
  slice holds \<^verbatim>\<open>unmarshal_left\<close>, which one of the readers appends to.
\<close>

subsection \<open>Key-value tables\<close>

text \<open>\<^verbatim>\<open>REPLACE INTO t (key, value)\<close> and \<^verbatim>\<open>SELECT value FROM t WHERE key = ?\<close>, the empty string for no row.\<close>

definition kv_replace :: "string \<Rightarrow> string \<Rightarrow> (string \<times> string) list \<Rightarrow> (string \<times> string) list" where
  "kv_replace k v t = filter (\<lambda>p. fst p \<noteq> k) t @ [(k, v)]"

definition kv_get :: "string \<Rightarrow> (string \<times> string) list \<Rightarrow> string" where
  "kv_get k t = (case map_of t k of None \<Rightarrow> '''' | Some v \<Rightarrow> v)"

lemma kv_get_replace [simp]: "kv_get k (kv_replace k' v t) = (if k = k' then v else kv_get k t)"
proof -
  have "map_of (filter (\<lambda>p. fst p \<noteq> k') t @ [(k', v)]) k = (if k = k' then Some v else map_of t k)"
    by (induction t) auto
  then show ?thesis by (simp add: kv_get_def kv_replace_def)
qed

lemma kv_replace_distinct: "distinct (map fst t) \<Longrightarrow> distinct (map fst (kv_replace k v t))"
  by (auto simp: kv_replace_def distinct_map_filter)

text \<open>\<^verbatim>\<open>strings.TrimSuffix(value, "-")\<close>\<close>

definition trim_dash :: "string \<Rightarrow> string" where
  "trim_dash s = (if s \<noteq> '''' \<and> last s = CHR ''-'' then butlast s else s)"

definition SetConfigInTx :: "string \<Rightarrow> string \<Rightarrow> db \<Rightarrow> db" where
  "SetConfigInTx key value s =
    (let value = (if key = ''issue_prefix'' then trim_dash value else value)
     in s\<lparr>t_config := kv_replace key value (t_config s)\<rparr>)"

definition GetConfig :: "db \<Rightarrow> string \<Rightarrow> string" where
  "GetConfig s key = kv_get key (t_config s)"

definition GetAllConfig :: "db \<Rightarrow> string \<rightharpoonup> string" where
  "GetAllConfig s = map_of (rev (t_config s))"

definition DeleteConfig :: "string \<Rightarrow> db \<Rightarrow> db" where
  "DeleteConfig key s = s\<lparr>t_config := filter (\<lambda>p. fst p \<noteq> key) (t_config s)\<rparr>"

definition SetMetadata :: "string \<Rightarrow> string \<Rightarrow> db \<Rightarrow> db" where
  "SetMetadata key value s = s\<lparr>t_metadata := kv_replace key value (t_metadata s)\<rparr>"

definition GetMetadata :: "db \<Rightarrow> string \<Rightarrow> string" where
  "GetMetadata s key = kv_get key (t_metadata s)"

definition SetLocalMetadata :: "string \<Rightarrow> string \<Rightarrow> db \<Rightarrow> db" where
  "SetLocalMetadata key value s = s\<lparr>t_local_metadata := kv_replace key value (t_local_metadata s)\<rparr>"

definition GetLocalMetadata :: "db \<Rightarrow> string \<Rightarrow> string" where
  "GetLocalMetadata s key = kv_get key (t_local_metadata s)"

subsection \<open>Lists in configuration values\<close>

definition clean :: "string list \<Rightarrow> string list" where
  "clean xs = filter (\<lambda>t. t \<noteq> '''') (map trim_space xs)"

definition ParseCommaSeparatedList :: "string \<Rightarrow> string list" where
  "ParseCommaSeparatedList value = (if value = '''' then [] else clean (split_on (CHR '','') value))"

definition ParseStatusFallback :: "string list \<Rightarrow> custom_status list" where
  "ParseStatusFallback names =
    (case ParseCustomStatusConfig (join_with '','' names) of
       Inr parsed \<Rightarrow> parsed
     | Inl e \<Rightarrow> map (\<lambda>n. \<lparr>Name = n, Category = CategoryUnspecified\<rparr>) (clean names))"

definition parseTypesValue :: "env \<Rightarrow> string \<Rightarrow> string list" where
  "parseTypesValue e value =
    (let value = trim_space value in
     if value = '''' then []
     else case unmarshal_strs e value of
       Some jsonTypes \<Rightarrow> jsonTypes
     | None \<Rightarrow> ParseCommaSeparatedList value)"

definition ParseJSONStringArray :: "env \<Rightarrow> string \<Rightarrow> string list" where
  "ParseJSONStringArray e t = (if t = '''' then [] else
     (case unmarshal_strs e t of None \<Rightarrow> [] | Some xs \<Rightarrow> xs))"

definition dedupePreservingOrder :: "string list \<Rightarrow> string list" where
  "dedupePreservingOrder xs = dedup_from [] (clean xs)"

text \<open>The getter of the YAML list is its value, or \<^verbatim>\<open>None\<close> for a nil getter.\<close>

definition mergeWithYAMLCustomTypes :: "string list \<Rightarrow> string list option \<Rightarrow> string list" where
  "mergeWithYAMLCustomTypes dbTypes yamlGetter =
    (case yamlGetter of
       None \<Rightarrow> dbTypes
     | Some yamlTypes \<Rightarrow>
         if yamlTypes = [] then dbTypes
         else if dbTypes = [] then dedupePreservingOrder yamlTypes
         else (let out = dedup_from [] (clean dbTypes)
               in out @ dedup_from out (clean yamlTypes)))"

definition customTypesYAMLFallback :: "string list option \<Rightarrow> 'e \<Rightarrow> 'e + string list" where
  "customTypesYAMLFallback yamlGetter dbErr =
    (let merged = mergeWithYAMLCustomTypes [] yamlGetter
     in if merged \<noteq> [] then Inr merged else Inl dbErr)"

subsection \<open>Resolution\<close>

definition ResolveCustomStatusesDetailed :: "env \<Rightarrow> db \<Rightarrow> custom_status list" where
  "ResolveCustomStatusesDetailed e s =
    (let result = sort_key Name (t_custom_statuses s) in
     if result \<noteq> [] then result
     else let value = GetConfig s ''status.custom'' in
       if value \<noteq> '''' then
         (case ParseCustomStatusConfig value of Inl err \<Rightarrow> [] | Inr parsed \<Rightarrow> parsed)
       else if yaml_statuses e \<noteq> [] then ParseStatusFallback (yaml_statuses e)
       else [])"

definition ResolveCustomTypes :: "env \<Rightarrow> db \<Rightarrow> string list" where
  "ResolveCustomTypes e s =
    (let fromTable = sort (t_custom_types s);
         value = GetConfig s ''types.custom'';
         fromDB = (if fromTable \<noteq> [] then fromTable
                   else if value \<noteq> '''' then
                     (case unmarshal_strs e value of
                        Some jsonTypes \<Rightarrow> jsonTypes
                      | None \<Rightarrow> ParseCommaSeparatedList value)
                   else [])
     in mergeWithYAMLCustomTypes fromDB (Some (yaml_types e)))"

definition resolveCustomStatusesFromTable :: "db \<Rightarrow> custom_status list \<times> bool" where
  "resolveCustomStatusesFromTable s =
    (let result = sort_key Name (t_custom_statuses s) in (result, 0 < length result))"

definition resolveCustomTypesFromTable :: "db \<Rightarrow> string list \<times> bool" where
  "resolveCustomTypesFromTable s =
    (let result = sort (t_custom_types s) in (result, 0 < length result))"

definition getConfigKeys :: "db \<Rightarrow> string list \<Rightarrow> string \<rightharpoonup> string" where
  "getConfigKeys s keys =
    (if keys = [] then Map.empty
     else map_of (rev (filter (\<lambda>p. fst p \<in> set keys) (t_config s))))"

definition ResolveCustomConfig :: "env \<Rightarrow> db \<Rightarrow> custom_status list \<times> string list" where
  "ResolveCustomConfig e s =
    (let (statuses, statusesFromTable) = resolveCustomStatusesFromTable s;
         (customTypes, typesFromTable) = resolveCustomTypesFromTable s
     in if statusesFromTable \<and> typesFromTable then (statuses, customTypes)
        else let cfg = getConfigKeys s [''status.custom'', ''types.custom''];
               statuses' =
                 (if statusesFromTable then statuses
                  else case cfg ''status.custom'' of
                    Some (c # v) \<Rightarrow> (case ParseCustomStatusConfig (c # v) of Inr parsed \<Rightarrow> parsed | Inl _ \<Rightarrow> statuses)
                  | _ \<Rightarrow> (if yaml_statuses e \<noteq> [] then ParseStatusFallback (yaml_statuses e) else statuses));
               types' =
                 (if typesFromTable then customTypes
                  else case cfg ''types.custom'' of
                    Some (c # v) \<Rightarrow> (case unmarshal_strs e (c # v) of
                        Some jsonTypes \<Rightarrow> jsonTypes
                      | None \<Rightarrow> ParseCommaSeparatedList (c # v))
                  | _ \<Rightarrow> (if yaml_types e \<noteq> [] then yaml_types e else customTypes))
             in (statuses', types'))"

text \<open>The readers of \<^verbatim>\<open>helpers.go\<close>: they look at the raw configuration value only.\<close>

definition raw_list :: "env \<Rightarrow> string \<Rightarrow> string list" where
  "raw_list e raw =
    (case unmarshal_strs e raw of
       Some xs \<Rightarrow> xs
     | None \<Rightarrow> unmarshal_left e raw @ clean (split_on (CHR '','') raw))"

definition GetCustomStatuses :: "env \<Rightarrow> db \<Rightarrow> string list" where
  "GetCustomStatuses e s =
    (let raw = GetConfig s ''status.custom'' in if raw = '''' then [] else raw_list e raw)"

definition GetCustomTypes :: "env \<Rightarrow> db \<Rightarrow> string list" where
  "GetCustomTypes e s =
    (let raw = GetConfig s ''types.custom'' in if raw = '''' then [] else raw_list e raw)"

definition ReadConfigPrefix :: "db \<Rightarrow> store_error + string" where
  "ReadConfigPrefix s =
    (let configPrefix = GetConfig s ''issue_prefix''
     in if configPrefix = '''' then Inl NotInitialized else Inr (trim_dash configPrefix))"

definition IsCounterMode :: "db \<Rightarrow> bool" where
  "IsCounterMode s = (GetConfig s ''issue_id_mode'' = ''counter'')"

definition DefaultInfraTypes :: "string list" where
  "DefaultInfraTypes = [''agent'', ''role'', ''message'']"

definition IsInfraType :: "issue_type \<Rightarrow> bool" where
  "IsInfraType t = (t \<in> set DefaultInfraTypes)"

text \<open>The map is its set of keys.\<close>

definition ResolveInfraTypes :: "env \<Rightarrow> db \<Rightarrow> string set" where
  "ResolveInfraTypes e s =
    (let value = GetConfig s ''types.infra'';
         list1 = (if value \<noteq> '''' then ParseCommaSeparatedList value else []);
         list2 = (if list1 = [] \<and> yaml_infra e \<noteq> [] then yaml_infra e else list1);
         list3 = (if list2 = [] then DefaultInfraTypes else list2)
     in set list3)"

definition IsInfraTypeCtx :: "env \<Rightarrow> db \<Rightarrow> issue_type \<Rightarrow> bool" where
  "IsInfraTypeCtx e s t = (t \<in> ResolveInfraTypes e s)"

subsection \<open>Updates of the normalized tables\<close>

text \<open>An INSERT fails when the primary key \<^verbatim>\<open>name\<close> exists.\<close>

definition insert_type :: "string \<Rightarrow> db \<Rightarrow> store_error + db" where
  "insert_type name s =
    (if name \<in> set (t_custom_types s) then Inl (OpFailed ''insert custom_types'')
     else Inr (s\<lparr>t_custom_types := t_custom_types s @ [name]\<rparr>))"

definition insert_status :: "custom_status \<Rightarrow> db \<Rightarrow> store_error + db" where
  "insert_status c s =
    (if Name c \<in> Name ` set (t_custom_statuses s) then Inl (OpFailed ''insert custom_statuses'')
     else Inr (s\<lparr>t_custom_statuses := t_custom_statuses s @ [c]\<rparr>))"

definition SyncCustomTypesTable :: "env \<Rightarrow> string \<Rightarrow> db \<Rightarrow> store_error + db" where
  "SyncCustomTypesTable e value s =
    (let s1 = s\<lparr>t_custom_types := []\<rparr>
     in if value = '''' then Inr s1 else fold_res insert_type (parseTypesValue e value) s1)"

definition SyncCustomStatusesTable :: "string \<Rightarrow> db \<Rightarrow> store_error + db" where
  "SyncCustomStatusesTable value s =
    (let s1 = s\<lparr>t_custom_statuses := []\<rparr>
     in if value = '''' then Inr s1
        else (case ParseCustomStatusConfig value of
            Inl err \<Rightarrow> Inl (OpFailed ''invalid status.custom value'')
          | Inr parsed \<Rightarrow> fold_res insert_status parsed s1))"

definition EnsureCustomType :: "env \<Rightarrow> string \<Rightarrow> db \<Rightarrow> store_error + db" where
  "EnsureCustomType e name s =
    (if type_IsValid name then Inr s
     else if name \<in> set (ResolveCustomTypes e s) then Inr s
     else insert_type name s)"

text \<open>\<^verbatim>\<open>DoltliteStore.SetConfig\<close>: one transaction, rolled back on an error.\<close>

definition SetConfig :: "env \<Rightarrow> string \<Rightarrow> string \<Rightarrow> db \<Rightarrow> store_error + db" where
  "SetConfig e key value s =
    (let s1 = SetConfigInTx key value s
     in if key = ''status.custom'' then SyncCustomStatusesTable value s1
        else if key = ''types.custom'' then SyncCustomTypesTable e value s1
        else Inr s1)"

end
