(* ===== verification/PropsConfig.thy ===== *)
theory PropsConfig
  imports Config Examples
begin

text \<open>The properties of the configuration tables and of the type and status overlays.\<close>

subsection \<open>Lists\<close>

lemma set_clean: "t \<in> set (clean xs) \<longleftrightarrow> t \<noteq> '''' \<and> (\<exists>x\<in>set xs. t = trim_space x)"
  by (auto simp: clean_def)

lemma merge_dedup:
  assumes "yamlTypes \<noteq> []" "dbTypes \<noteq> []"
  shows "mergeWithYAMLCustomTypes dbTypes (Some yamlTypes) = dedupePreservingOrder (dbTypes @ yamlTypes)"
  using assms by (simp add: mergeWithYAMLCustomTypes_def dedupePreservingOrder_def clean_def dedup_from_append Let_def)

lemma merge_set:
  assumes "yamlTypes \<noteq> []"
  shows "set (mergeWithYAMLCustomTypes dbTypes (Some yamlTypes)) = set (clean dbTypes) \<union> set (clean yamlTypes)"
proof (cases "dbTypes = []")
  case True
  then show ?thesis using assms by (simp add: mergeWithYAMLCustomTypes_def dedupePreservingOrder_def clean_def)
next
  case False
  then show ?thesis using merge_dedup[OF assms] by (simp add: dedupePreservingOrder_def clean_def image_Un)
qed

lemma merge_distinct:
  assumes "yamlTypes \<noteq> []"
  shows "distinct (mergeWithYAMLCustomTypes dbTypes (Some yamlTypes))"
proof (cases "dbTypes = []")
  case True
  then show ?thesis using assms by (simp add: mergeWithYAMLCustomTypes_def dedupePreservingOrder_def)
next
  case False
  then show ?thesis using merge_dedup[OF assms] by (simp add: dedupePreservingOrder_def)
qed

subsection \<open>The normalized tables\<close>

lemma insert_types:
  "is_ok (fold_res insert_type xs s) = (distinct xs \<and> set xs \<inter> set (t_custom_types s) = {})"
proof (induction xs arbitrary: s)
  case (Cons x xs)
  show ?case
  proof (cases "x \<in> set (t_custom_types s)")
    case True
    then show ?thesis by (auto simp: insert_type_def)
  next
    case False
    then show ?thesis using Cons[of "s\<lparr>t_custom_types := t_custom_types s @ [x]\<rparr>"]
      by (auto simp: insert_type_def)
  qed
qed simp

lemma insert_types_result:
  "fold_res insert_type xs s = Inr s' \<Longrightarrow> s' = s\<lparr>t_custom_types := t_custom_types s @ xs\<rparr>"
proof (induction xs arbitrary: s)
  case (Cons x xs)
  have x: "insert_type x s = Inr (s\<lparr>t_custom_types := t_custom_types s @ [x]\<rparr>)"
    using Cons.prems by (auto simp: insert_type_def split: if_splits)
  have "fold_res insert_type xs (s\<lparr>t_custom_types := t_custom_types s @ [x]\<rparr>) = Inr s'"
    using Cons.prems by (simp add: x)
  from Cons.IH[OF this] show ?case by simp
qed simp

lemma insert_statuses:
  "distinct (map Name xs) \<Longrightarrow> Name ` set xs \<inter> Name ` set (t_custom_statuses s) = {} \<Longrightarrow>
   fold_res insert_status xs s = Inr (s\<lparr>t_custom_statuses := t_custom_statuses s @ xs\<rparr>)"
proof (induction xs arbitrary: s)
  case (Cons x xs)
  let ?s = "s\<lparr>t_custom_statuses := t_custom_statuses s @ [x]\<rparr>"
  have "Name x \<notin> Name ` set (t_custom_statuses s)" using Cons.prems by auto
  moreover have "fold_res insert_status xs ?s = Inr (?s\<lparr>t_custom_statuses := t_custom_statuses ?s @ xs\<rparr>)"
    by (rule Cons.IH) (use Cons.prems in auto)
  moreover have "insert_status x s = (if Name x \<in> Name ` set (t_custom_statuses s)
      then Inl (OpFailed ''insert custom_statuses'') else Inr ?s)"
    by (rule insert_status_def)
  ultimately show ?case by simp
qed simp

lemma set_status_config:
  assumes "list_all good_status ss" "distinct (CustomStatusNames ss)" "length ss \<le> 50" "ss \<noteq> []"
  shows "SetConfig e ''status.custom'' (render_config ss) s =
    Inr (s\<lparr>t_config := kv_replace ''status.custom'' (render_config ss) (t_config s), t_custom_statuses := ss\<rparr>)"
  using assms render_config_nonempty[OF assms(1,4)] parse_render_config[OF assms(1-3)]
  by (simp add: SetConfig_def SetConfigInTx_def SyncCustomStatusesTable_def insert_statuses CustomStatusNames_def Let_def)

lemma raw_statuses:
  assumes "list_all good_status ss" "ss \<noteq> []"
    and "unmarshal_strs e (render_config ss) = None" "unmarshal_left e (render_config ss) = []"
    and "GetConfig s ''status.custom'' = render_config ss"
  shows "GetCustomStatuses e s = map render_status ss"
proof -
  have g: "good_status x" if "x \<in> set ss" for x using assms(1) that by (simp add: list_all_iff)
  have "map trim_space (map render_status ss) = map render_status ss"
    unfolding map_map by (rule map_cong[OF refl]) (auto intro!: trim_space_id dest: g good_no_space)
  then have "clean (map render_status ss) = map render_status ss"
    unfolding clean_def using g render_nonempty by (auto simp: filter_id_conv)
  then show ?thesis
    using assms render_config_nonempty[OF assms(1,2)]
    by (simp add: GetCustomStatuses_def raw_list_def split_render_config Let_def)
qed

lemma good_name_no_colon: "good_status c \<Longrightarrow> CHR '':'' \<notin> set (Name c)"
  unfolding good_status_def using regexp_chars name_char_safe by blast

lemma category_status_hidden:
  assumes "list_all good_status ss" "distinct (map Name ss)" "c \<in> set ss" "Category c \<noteq> CategoryUnspecified"
  shows "Name c \<notin> set (map render_status ss)"
proof
  assume "Name c \<in> set (map render_status ss)"
  then obtain d where d: "d \<in> set ss" "Name c = render_status d" by auto
  have "good_status c" "good_status d" using assms(1,3) d(1) by (simp_all add: list_all_iff)
  then have "Category d = CategoryUnspecified"
    using d(2) good_name_no_colon[of c] by (auto simp: render_status_def split: if_splits)
  then have "Name c = Name d" using d(2) by (simp add: render_status_def)
  then have "c = d" using distinct_key_eq[OF assms(2,3) d(1)] by simp
  with \<open>Category d = CategoryUnspecified\<close> assms(4) show False by simp
qed

subsection \<open>Properties\<close>

text \<open>
  Setting \<^verbatim>\<open>status.custom\<close> to a well-formed list stores the value and
  replaces the normalized table, so that the resolved custom statuses are exactly
  that list in the order of the names; deleting the configuration key afterwards
  leaves them in force, because the table is not cleared.
\<close>

theorem set_config_statuses:
  assumes "list_all good_status ss" "distinct (CustomStatusNames ss)" "length ss \<le> 50" "ss \<noteq> []"
  shows "\<exists>s'. SetConfig e ''status.custom'' (render_config ss) s = Inr s' \<and>
     GetConfig s' ''status.custom'' = render_config ss \<and>
     ResolveCustomStatusesDetailed e s' = sort_key Name ss \<and>
     fst (ResolveCustomConfig e s') = sort_key Name ss \<and>
     GetConfig (DeleteConfig ''status.custom'' s') ''status.custom'' = '''' \<and>
     ResolveCustomStatusesDetailed e (DeleteConfig ''status.custom'' s') = sort_key Name ss"
proof -
  have ne: "sort_key Name ss \<noteq> []" using assms(4) by (metis set_empty set_sort)
  have "map_of (filter (\<lambda>p. fst p \<noteq> k) t) k = None" for k :: string and t :: "(string \<times> string) list"
    by (induction t) auto
  then have "kv_get k (filter (\<lambda>p. fst p \<noteq> k) t) = ''''" for k t
    by (simp add: kv_get_def)
  then show ?thesis
    using ne assms(4)
    by (simp add: set_status_config[OF assms] GetConfig_def ResolveCustomStatusesDetailed_def
        ResolveCustomConfig_def resolveCustomStatusesFromTable_def resolveCustomTypesFromTable_def
        DeleteConfig_def Let_def)
qed

theorem set_config_statuses_witness:
  "\<forall>e s. \<exists>s'. SetConfig e ''status.custom''
       (render_config [\<lparr>Name = ''review'', Category = ''wip''\<rparr>, \<lparr>Name = ''qa'', Category = ''active''\<rparr>]) s = Inr s' \<and>
     ResolveCustomStatusesDetailed e s' =
       [\<lparr>Name = ''qa'', Category = ''active''\<rparr>, \<lparr>Name = ''review'', Category = ''wip''\<rparr>]"
proof (intro allI)
  fix e :: env and s :: db
  let ?ss = "[\<lparr>Name = ''review'', Category = ''wip''\<rparr>, \<lparr>Name = ''qa'', Category = ''active''\<rparr>]"
  have "sort_key Name ?ss = [\<lparr>Name = ''qa'', Category = ''active''\<rparr>, \<lparr>Name = ''review'', Category = ''wip''\<rparr>]"
    by code_simp
  moreover have "list_all good_status ?ss" by code_simp
  ultimately show "\<exists>s'. SetConfig e ''status.custom'' (render_config ?ss) s = Inr s' \<and>
     ResolveCustomStatusesDetailed e s' = [\<lparr>Name = ''qa'', Category = ''active''\<rparr>, \<lparr>Name = ''review'', Category = ''wip''\<rparr>]"
    using set_config_statuses[of ?ss e s] by (auto simp: CustomStatusNames_def)
qed

text \<open>
  Setting \<^verbatim>\<open>types.custom\<close> fails exactly when the value lists a type twice;
  when it succeeds, a type is accepted exactly when it is built in, listed in
  the value, or, after trimming, declared in \<^verbatim>\<open>config.yaml\<close>: the overlay of the
  YAML types never removes a type of the database.
\<close>

theorem set_config_types:
  assumes "v \<noteq> ''''" "parseTypesValue e v \<noteq> []" "clean (parseTypesValue e v) = parseTypesValue e v"
  shows "is_ok (SetConfig e ''types.custom'' v s) = distinct (parseTypesValue e v) \<and>
    (\<forall>s'. SetConfig e ''types.custom'' v s = Inr s' \<longrightarrow>
      GetConfig s' ''types.custom'' = v \<and>
      (\<forall>t. type_IsValidWithCustom t (ResolveCustomTypes e s') =
        (type_IsBuiltIn t \<or> t \<in> set (parseTypesValue e v) \<or> t \<in> set (clean (yaml_types e)))))"
proof -
  let ?s1 = "SetConfigInTx ''types.custom'' v s\<lparr>t_custom_types := []\<rparr>"
  have sc: "SetConfig e ''types.custom'' v s = fold_res insert_type (parseTypesValue e v) ?s1"
    using assms(1) by (simp add: SetConfig_def SyncCustomTypesTable_def Let_def)
  have ok: "is_ok (SetConfig e ''types.custom'' v s) = distinct (parseTypesValue e v)"
    by (simp add: sc insert_types)
  have "set (ResolveCustomTypes e s') = set (parseTypesValue e v) \<union> set (clean (yaml_types e))"
    and "GetConfig s' ''types.custom'' = v"
    if "SetConfig e ''types.custom'' v s = Inr s'" for s'
  proof -
    have s': "s' = ?s1\<lparr>t_custom_types := parseTypesValue e v\<rparr>"
      using that insert_types_result[of "parseTypesValue e v" ?s1 s'] by (simp add: sc)
    then show "GetConfig s' ''types.custom'' = v" by (simp add: GetConfig_def SetConfigInTx_def)
    have ne: "sort (parseTypesValue e v) \<noteq> []" using assms(2) by (metis set_empty set_sort)
    have "set (clean (sort (parseTypesValue e v))) = set (clean (parseTypesValue e v))"
      by (simp add: clean_def)
    then have c: "set (clean (sort (parseTypesValue e v))) = set (parseTypesValue e v)"
      by (simp only: assms(3))
    have r: "ResolveCustomTypes e s' = mergeWithYAMLCustomTypes (sort (parseTypesValue e v)) (Some (yaml_types e))"
      using ne by (simp add: ResolveCustomTypes_def s' Let_def)
    show "set (ResolveCustomTypes e s') = set (parseTypesValue e v) \<union> set (clean (yaml_types e))"
    proof (cases "yaml_types e = []")
      case True
      with r show ?thesis by (simp add: mergeWithYAMLCustomTypes_def clean_def)
    next
      case False
      with r c show ?thesis using merge_set[OF False] by simp
    qed
  qed
  with ok show ?thesis by (auto simp: type_IsValidWithCustom_def)
qed

theorem set_config_types_witness:
  "is_ok (SetConfig ex_env ''types.custom'' ''gate, convoy'' (ex_db [] []))"
proof -
  have "parseTypesValue ex_env ''gate, convoy'' = [''gate'', ''convoy'']" by code_simp
  moreover have "clean [''gate'', ''convoy''] = [''gate'', ''convoy'']" by code_simp
  ultimately show ?thesis using set_config_types[of "''gate, convoy''" ex_env "ex_db [] []"] by simp
qed

end
