(* ===== verification/Update.thy ===== *)
theory Update
  imports LifecycleThms Config
begin

text \<open>
  The generic update of an issue (\<^verbatim>\<open>internal/storage/issueops/update.go\<close>): the
  allow-list of fields, the derived columns, the UPDATE statement, the event and
  the recompute of \<^verbatim>\<open>is_blocked\<close>.

  The Go map of updates is the list of its entries in the order the \<^verbatim>\<open>range\<close>
  loop visits them, with distinct keys; the results hold for every order.  The
  UPDATE assigns its columns from left to right.  A column receives the value a
  caller passes for it: a text column a string, Status or IssueType, a date
  column a time, a nullable column also NULL.  A value of another Go type, which
  SQLite would store by its type affinity, is out of the model and fails the
  statement, as do a NULL in a NOT NULL column and a name that is no column.
\<close>

definition IsAllowedUpdateField :: "string \<Rightarrow> bool" where
  "IsAllowedUpdateField key = (key \<in> {
     ''status'', ''priority'', ''title'', ''assignee'',
     ''description'', ''design'', ''acceptance_criteria'', ''notes'',
     ''issue_type'', ''estimated_minutes'', ''external_ref'', ''spec_id'',
     ''started_at'', ''closed_at'', ''close_reason'', ''closed_by_session'',
     ''source_repo'', ''sender'', ''wisp'', ''wisp_type'', ''no_history'', ''pinned'',
     ''mol_type'', ''event_category'', ''event_actor'', ''event_target'', ''event_payload'',
     ''due_at'', ''defer_until'', ''await_id'', ''waiters'', ''metadata''})"

type_synonym updates = "(string \<times> update_value) list"

text \<open>The type switch \<^verbatim>\<open>string\<close> or \<^verbatim>\<open>types.Status\<close> on a status value; \<^verbatim>\<open>None\<close> is its default case.\<close>

fun status_text :: "update_value \<Rightarrow> string option" where
  "status_text (UString v) = Some v"
| "status_text (UStatus v) = Some v"
| "status_text v = None"

definition ManageClosedAt :: "env \<Rightarrow> issue_row \<Rightarrow> updates \<Rightarrow> updates \<Rightarrow> updates" where
  "ManageClosedAt e oldIssue updates setClauses =
    (if map_of updates ''closed_at'' \<noteq> None then setClauses
     else case map_of updates ''status'' of
       None \<Rightarrow> setClauses
     | Some statusVal \<Rightarrow> (case status_text statusVal of
         None \<Rightarrow> setClauses
       | Some newStatus \<Rightarrow>
           if newStatus = StatusClosed then setClauses @ [(''closed_at'', UTime (now e))]
           else if Status oldIssue = StatusClosed
           then setClauses @ [(''closed_at'', UNil), (''close_reason'', UString '''')]
           else setClauses))"

definition ManageStartedAt :: "env \<Rightarrow> issue_row \<Rightarrow> updates \<Rightarrow> updates \<Rightarrow> updates" where
  "ManageStartedAt e oldIssue updates setClauses =
    (if map_of updates ''started_at'' \<noteq> None then setClauses
     else case map_of updates ''status'' of
       None \<Rightarrow> setClauses
     | Some statusVal \<Rightarrow> (case status_text statusVal of
         None \<Rightarrow> setClauses
       | Some newStatus \<Rightarrow>
           if newStatus = StatusInProgress \<and> StartedAt oldIssue = None
           then setClauses @ [(''started_at'', UTime (now e))] else setClauses))"

definition DetermineEventType :: "issue_row \<Rightarrow> updates \<Rightarrow> string" where
  "DetermineEventType oldIssue updates =
    (case map_of updates ''status'' of
       None \<Rightarrow> ''updated''
     | Some statusVal \<Rightarrow> (case status_text statusVal of
         None \<Rightarrow> ''updated''
       | Some newStatus \<Rightarrow>
           if newStatus = StatusClosed then ''closed''
           else if Status oldIssue = StatusClosed then ''reopened''
           else ''status_changed''))"

definition NormalizeMetadataValue :: "env \<Rightarrow> update_value \<Rightarrow> string option" where
  "NormalizeMetadataValue e value =
    (case value of
       UString v \<Rightarrow> (if json_ok e v then Some v else None)
     | UBytes v \<Rightarrow> (if json_ok e v then Some v else None)
     | _ \<Rightarrow> None)"

text \<open>The loop over the map: column names and arguments, or the first error.\<close>

fun field_clauses :: "env \<Rightarrow> updates \<Rightarrow> store_error + updates" where
  "field_clauses e [] = Inr []"
| "field_clauses e ((key, value) # rest) =
    guard_res (IsAllowedUpdateField key) (InvalidField key)
      (let columnName = (if key = ''wisp'' then ''ephemeral'' else key) in
       bind_res (if key = ''waiters'' then Inr (UString (marshal_value e value))
                 else if key = ''metadata'' then
                   (case NormalizeMetadataValue e value of
                      None \<Rightarrow> Inl InvalidMetadata | Some m \<Rightarrow> Inr (UString m))
                 else Inr value)
         (\<lambda>arg. bind_res (field_clauses e rest) (\<lambda>cs. Inr ((columnName, arg) # cs))))"

definition pinned_clause :: "issue_row \<Rightarrow> updates \<Rightarrow> updates" where
  "pinned_clause oldIssue updates =
    (case map_of updates ''status'' of
       None \<Rightarrow> []
     | Some rawStatus \<Rightarrow>
         let statusStr = (case status_text rawStatus of None \<Rightarrow> '''' | Some v \<Rightarrow> v) in
         if Pinned oldIssue \<and> statusStr \<noteq> StatusPinned \<and> map_of updates ''pinned'' = None
         then [(''pinned'', UBool False)] else [])"

subsection \<open>The UPDATE statement\<close>

fun text_of :: "update_value \<Rightarrow> string option" where
  "text_of (UString v) = Some v"
| "text_of (UStatus v) = Some v"
| "text_of (UType v) = Some v"
| "text_of v = None"

definition set_text :: "(string \<Rightarrow> issue_row \<Rightarrow> issue_row) \<Rightarrow> update_value \<Rightarrow> (issue_row \<Rightarrow> issue_row) option" where
  "set_text f v = map_option f (text_of v)"

definition set_null_text :: "(string \<Rightarrow> issue_row \<Rightarrow> issue_row) \<Rightarrow> update_value \<Rightarrow> (issue_row \<Rightarrow> issue_row) option" where
  "set_null_text f v = (if v = UNil then Some (f '''') else set_text f v)"

definition set_bool :: "(bool \<Rightarrow> issue_row \<Rightarrow> issue_row) \<Rightarrow> update_value \<Rightarrow> (issue_row \<Rightarrow> issue_row) option" where
  "set_bool f v = (case v of UBool b \<Rightarrow> Some (f b) | UNil \<Rightarrow> Some (f False) | _ \<Rightarrow> None)"

definition set_time :: "(time option \<Rightarrow> issue_row \<Rightarrow> issue_row) \<Rightarrow> update_value \<Rightarrow> (issue_row \<Rightarrow> issue_row) option" where
  "set_time f v = (case v of UTime t \<Rightarrow> Some (f (Some t)) | UNil \<Rightarrow> Some (f None) | _ \<Rightarrow> None)"

definition set_int :: "(int option \<Rightarrow> issue_row \<Rightarrow> issue_row) \<Rightarrow> update_value \<Rightarrow> (issue_row \<Rightarrow> issue_row) option" where
  "set_int f v = (case v of UInt n \<Rightarrow> Some (f (Some n)) | UNil \<Rightarrow> Some (f None) | _ \<Rightarrow> None)"

text \<open>The waiters column holds JSON text, read back by \<^verbatim>\<open>ParseJSONStringArray\<close>.\<close>

definition column_setter :: "env \<Rightarrow> string \<Rightarrow> update_value \<Rightarrow> (issue_row \<Rightarrow> issue_row) option" where
  "column_setter e col v =
    (if col = ''status'' then set_text (\<lambda>t r. r\<lparr>Status := t\<rparr>) v
     else if col = ''closed_at'' then set_time (\<lambda>t r. r\<lparr>ClosedAt := t\<rparr>) v
     else if col = ''title'' then set_text (\<lambda>t r. r\<lparr>Title := t\<rparr>) v
     else if col = ''description'' then set_text (\<lambda>t r. r\<lparr>Description := t\<rparr>) v
     else if col = ''design'' then set_text (\<lambda>t r. r\<lparr>Design := t\<rparr>) v
     else if col = ''acceptance_criteria'' then set_text (\<lambda>t r. r\<lparr>AcceptanceCriteria := t\<rparr>) v
     else if col = ''notes'' then set_text (\<lambda>t r. r\<lparr>Notes := t\<rparr>) v
     else if col = ''issue_type'' then set_text (\<lambda>t r. r\<lparr>IssueType := t\<rparr>) v
     else if col = ''priority'' then (case v of UInt n \<Rightarrow> Some (\<lambda>r. r\<lparr>Priority := n\<rparr>) | _ \<Rightarrow> None)
     else if col = ''assignee'' then
       (if v = UNil then Some (\<lambda>r. r\<lparr>Assignee := '''', AssigneeNull := True\<rparr>)
        else set_text (\<lambda>t r. r\<lparr>Assignee := t, AssigneeNull := False\<rparr>) v)
     else if col = ''estimated_minutes'' then set_int (\<lambda>n r. r\<lparr>EstimatedMinutes := n\<rparr>) v
     else if col = ''external_ref'' then
       (if v = UNil then Some (\<lambda>r. r\<lparr>ExternalRef := None\<rparr>)
        else set_text (\<lambda>t r. r\<lparr>ExternalRef := Some t\<rparr>) v)
     else if col = ''spec_id'' then set_null_text (\<lambda>t r. r\<lparr>SpecID := t\<rparr>) v
     else if col = ''started_at'' then set_time (\<lambda>t r. r\<lparr>StartedAt := t\<rparr>) v
     else if col = ''close_reason'' then set_null_text (\<lambda>t r. r\<lparr>CloseReason := t\<rparr>) v
     else if col = ''closed_by_session'' then set_null_text (\<lambda>t r. r\<lparr>ClosedBySession := t\<rparr>) v
     else if col = ''source_repo'' then set_null_text (\<lambda>t r. r\<lparr>SourceRepo := t\<rparr>) v
     else if col = ''sender'' then set_null_text (\<lambda>t r. r\<lparr>Sender := t\<rparr>) v
     else if col = ''ephemeral'' then set_bool (\<lambda>b r. r\<lparr>Ephemeral := b\<rparr>) v
     else if col = ''wisp_type'' then set_null_text (\<lambda>t r. r\<lparr>WispType := t\<rparr>) v
     else if col = ''no_history'' then set_bool (\<lambda>b r. r\<lparr>NoHistory := b\<rparr>) v
     else if col = ''pinned'' then set_bool (\<lambda>b r. r\<lparr>Pinned := b\<rparr>) v
     else if col = ''mol_type'' then set_null_text (\<lambda>t r. r\<lparr>MolType := t\<rparr>) v
     else if col = ''due_at'' then set_time (\<lambda>t r. r\<lparr>DueAt := t\<rparr>) v
     else if col = ''defer_until'' then set_time (\<lambda>t r. r\<lparr>DeferUntil := t\<rparr>) v
     else if col = ''await_id'' then set_null_text (\<lambda>t r. r\<lparr>AwaitID := t\<rparr>) v
     else if col = ''waiters'' then set_null_text (\<lambda>t r. r\<lparr>Waiters := ParseJSONStringArray e t\<rparr>) v
     else if col = ''metadata'' then
       set_null_text (\<lambda>t r. r\<lparr>Metadata := (if t = ''{}'' then '''' else t)\<rparr>) v
     else if col = ''updated_at'' then (case v of UTime t \<Rightarrow> Some (\<lambda>r. r\<lparr>UpdatedAt := t\<rparr>) | _ \<Rightarrow> None)
     else None)"

text \<open>\<^verbatim>\<open>SET c1 = v1, ..., cn = vn\<close> on one row; \<^verbatim>\<open>None\<close> when the statement fails.\<close>

definition set_columns :: "env \<Rightarrow> updates \<Rightarrow> (issue_row \<Rightarrow> issue_row) option" where
  "set_columns e clauses =
     map_option (\<lambda>fs r. fold (\<lambda>f. f) fs r) (those (map (\<lambda>(c, v). column_setter e c v) clauses))"

record update_result =
  UpdOldIssue :: issue_row
  UpdIsWisp :: bool

definition type_error :: "env \<Rightarrow> updates \<Rightarrow> db \<Rightarrow> store_error option" where
  "type_error e updates s =
    (case map_of updates ''issue_type'' of
       Some (UString issueType) \<Rightarrow>
         (if type_IsValidWithCustom issueType (ResolveCustomTypes e s) then None
          else Some (BadIssueType issueType))
     | _ \<Rightarrow> None)"

text \<open>The recompute after a change of status, or the database as it is.\<close>

definition after_update :: "env \<Rightarrow> bool \<Rightarrow> string \<Rightarrow> issue_row \<Rightarrow> updates \<Rightarrow> db \<Rightarrow> db option" where
  "after_update e isWisp x oldIssue updates s =
    (case map_of updates ''status'' of
       None \<Rightarrow> Some s
     | Some rawStatus \<Rightarrow>
         let newStatus = (case status_text rawStatus of None \<Rightarrow> '''' | Some v \<Rightarrow> v);
             oldActive = active_status (Status oldIssue);
             newActive = active_status newStatus
         in if oldActive \<noteq> newActive then
              (let (affectedIssues, affectedWisps) =
                 (if isWisp then AffectedByStatusChangeForWisp s x else AffectedByStatusChange s x)
               in recomputeIsBlocked e affectedIssues affectedWisps s)
            else Some s)"

definition updateIssue ::
  "env \<Rightarrow> string \<Rightarrow> updates \<Rightarrow> string \<Rightarrow> bool \<Rightarrow> db \<Rightarrow> (store_error + (update_result \<times> db)) option" where
  "updateIssue e x updates actor recordEvent s =
    (let isWisp = IsActiveWisp s x in
     case GetIssue s x of
       Inl err \<Rightarrow> Some (Inl err)
     | Inr oldIssue \<Rightarrow>
    (case type_error e updates s of
       Some err \<Rightarrow> Some (Inl err)
     | None \<Rightarrow>
    (case field_clauses e updates of
       Inl err \<Rightarrow> Some (Inl err)
     | Inr sets \<Rightarrow>
         let setClauses = [(''updated_at'', UTime (now e))] @ sets @ pinned_clause oldIssue updates;
             setClauses = ManageClosedAt e oldIssue updates setClauses;
             setClauses = ManageStartedAt e oldIssue updates setClauses
         in (case set_columns e setClauses of
               None \<Rightarrow> Some (Inl (OpFailed ''failed to update issue''))
             | Some f \<Rightarrow>
                 let (rows, n) = update_where (\<lambda>r. ID r = x) (\<lambda>r. (f r)\<lparr>RowLock := freshRowLock e x\<rparr>)
                                   (issue_table isWisp s);
                     s1 = set_issue_table isWisp rows s;
                     s2 = (if recordEvent
                           then RecordFullEvent isWisp x (DetermineEventType oldIssue updates) actor
                                  (marshal_issue e oldIssue) (marshal_updates e updates) s1
                           else s1)
                 in map_option (\<lambda>s3. Inr (\<lparr>UpdOldIssue = oldIssue, UpdIsWisp = isWisp\<rparr>, s3))
                      (after_update e isWisp x oldIssue updates s2)))))"

definition UpdateIssue ::
  "env \<Rightarrow> string \<Rightarrow> updates \<Rightarrow> string \<Rightarrow> db \<Rightarrow> (store_error + (update_result \<times> db)) option" where
  "UpdateIssue e x updates actor s = updateIssue e x updates actor True s"

definition UpdateIssueWithoutEvent ::
  "env \<Rightarrow> string \<Rightarrow> updates \<Rightarrow> string \<Rightarrow> db \<Rightarrow> (store_error + (update_result \<times> db)) option" where
  "UpdateIssueWithoutEvent e x updates actor s = updateIssue e x updates actor False s"

end
