(* ===== verification/UpdateThms.thy ===== *)
theory UpdateThms
  imports Update LifecycleOps
begin

text \<open>What the column assignments of an update do to a row, and that an update keeps the invariant.\<close>

subsection \<open>Assignments\<close>

lemmas setter_defs = set_text_def set_null_text_def set_bool_def set_time_def set_int_def

definition status_of :: "update_value \<Rightarrow> string" where
  "status_of v = (case text_of v of None \<Rightarrow> '''' | Some t \<Rightarrow> t)"

definition time_of :: "update_value \<Rightarrow> time option" where
  "time_of v = (case v of UTime t \<Rightarrow> Some t | _ \<Rightarrow> None)"

lemma column_setter_frame:
  assumes "column_setter e c v = Some f"
  shows "ID (f r) = ID r \<and> IsBlocked (f r) = IsBlocked r \<and>
    LeaseExpiresAt (f r) = LeaseExpiresAt r \<and> HeartbeatAt (f r) = HeartbeatAt r \<and>
    Status (f r) = (if c = ''status'' then status_of v else Status r) \<and>
    ClosedAt (f r) = (if c = ''closed_at'' then time_of v else ClosedAt r)"
  using assms unfolding column_setter_def setter_defs
  by (auto simp: status_of_def time_of_def split: if_splits update_value.splits)

lemma set_columns_Nil: "set_columns e [] = Some (\<lambda>r. r)"
  by (simp add: set_columns_def id_def)

lemma set_columns_Cons:
  "set_columns e ((c, v) # cs) = Some f \<longleftrightarrow>
    (\<exists>g h. column_setter e c v = Some g \<and> set_columns e cs = Some h \<and> f = (\<lambda>r. h (g r)))"
  by (auto simp: set_columns_def comp_def split: option.splits)

text \<open>The last assignment to a column wins.\<close>

definition last_value :: "updates \<Rightarrow> string \<Rightarrow> update_value option" where
  "last_value cs c = map_of (rev cs) c"

lemma last_value_simps [simp]:
  "last_value [] c = None"
  "last_value ((k, v) # cs) c = (case last_value cs c of None \<Rightarrow> (if k = c then Some v else None) | Some w \<Rightarrow> Some w)"
  "last_value (cs @ ds) c = (case last_value ds c of None \<Rightarrow> last_value cs c | Some w \<Rightarrow> Some w)"
  by (auto simp: last_value_def map_add_def split: option.splits)

lemma set_columns_frame:
  assumes "set_columns e cs = Some f"
  shows "ID (f r) = ID r \<and> IsBlocked (f r) = IsBlocked r \<and>
    LeaseExpiresAt (f r) = LeaseExpiresAt r \<and> HeartbeatAt (f r) = HeartbeatAt r \<and>
    Status (f r) = (case last_value cs ''status'' of None \<Rightarrow> Status r | Some v \<Rightarrow> status_of v) \<and>
    ClosedAt (f r) = (case last_value cs ''closed_at'' of None \<Rightarrow> ClosedAt r | Some v \<Rightarrow> time_of v)"
  using assms
proof (induction cs arbitrary: f r)
  case Nil
  then have "f = (\<lambda>r. r)" by (simp add: set_columns_Nil)
  then show ?case by simp
next
  case (Cons p cs)
  obtain c v where p: "p = (c, v)" by fastforce
  obtain g h where g: "column_setter e c v = Some g" and h: "set_columns e cs = Some h" and f: "f = (\<lambda>r. h (g r))"
    using Cons.prems unfolding p set_columns_Cons by blast
  show ?case
    using Cons.IH[OF h, of "g r"] column_setter_frame[OF g, of r]
    unfolding f p by (auto split: option.splits)
qed

subsection \<open>The clauses\<close>

lemma last_value_map_of: "distinct (map fst u) \<Longrightarrow> last_value u c = map_of u c"
proof (induction u)
  case (Cons p u)
  have "map_of u (fst p) = None" using Cons.prems by (simp add: map_of_eq_None_iff)
  with Cons show ?case by (cases p) (auto split: option.splits)
qed simp

lemma field_clauses_value:
  assumes "field_clauses e u = Inr cs" "c \<notin> {''wisp'', ''ephemeral'', ''waiters'', ''metadata''}"
  shows "last_value cs c = last_value u c"
  using assms
proof (induction u arbitrary: cs)
  case (Cons p u)
  obtain k v where p: "p = (k, v)" by fastforce
  obtain a ds where ds: "field_clauses e u = Inr ds" "cs = ((if k = ''wisp'' then ''ephemeral'' else k), a) # ds"
    and a: "k \<notin> {''waiters'', ''metadata''} \<longrightarrow> a = v"
    using Cons.prems(1) unfolding p by (auto simp: Let_def split: if_splits)
  show ?case
    using Cons.IH[OF ds(1) Cons.prems(2)] Cons.prems(2) a unfolding p ds(2) by (auto split: option.splits)
qed simp

lemma field_clauses_allowed:
  "field_clauses e u = Inr cs \<Longrightarrow> \<forall>p\<in>set u. IsAllowedUpdateField (fst p)"
proof (induction u arbitrary: cs)
  case (Cons p u)
  then show ?case by (cases p) (auto simp: Let_def split: if_splits)
qed simp

definition clauses :: "env \<Rightarrow> issue_row \<Rightarrow> updates \<Rightarrow> updates \<Rightarrow> updates" where
  "clauses e old u cs = ManageStartedAt e old u (ManageClosedAt e old u
     ([(''updated_at'', UTime (now e))] @ cs @ pinned_clause old u))"

lemma managed_values:
  "last_value (ManageStartedAt e old u cs) ''status'' = last_value cs ''status''"
  "last_value (ManageClosedAt e old u cs) ''status'' = last_value cs ''status''"
  "last_value (ManageStartedAt e old u cs) ''closed_at'' = last_value cs ''closed_at''"
  "last_value (pinned_clause old u) ''status'' = None"
  "last_value (pinned_clause old u) ''closed_at'' = None"
  by (auto simp: ManageStartedAt_def ManageClosedAt_def pinned_clause_def Let_def split: option.splits)

lemma closed_at_value:
  assumes "map_of u ''closed_at'' = None"
  shows "last_value (ManageClosedAt e old u cs) ''closed_at'' =
    (case map_of u ''status'' of None \<Rightarrow> last_value cs ''closed_at''
     | Some v \<Rightarrow> (case status_text v of None \<Rightarrow> last_value cs ''closed_at''
       | Some st \<Rightarrow> (if st = StatusClosed then Some (UTime (now e))
           else if Status old = StatusClosed then Some UNil else last_value cs ''closed_at'')))"
  using assms by (auto simp: ManageClosedAt_def split: option.splits)

lemma clauses_values:
  assumes fc: "field_clauses e u = Inr cs" and d: "distinct (map fst u)"
  shows "last_value (clauses e old u cs) ''status'' = map_of u ''status''"
    and "map_of u ''closed_at'' = None \<Longrightarrow> last_value (clauses e old u cs) ''closed_at'' =
      (case map_of u ''status'' of None \<Rightarrow> None
       | Some v \<Rightarrow> (case status_text v of None \<Rightarrow> None
         | Some st \<Rightarrow> (if st = StatusClosed then Some (UTime (now e))
             else if Status old = StatusClosed then Some UNil else None)))"
proof -
  have "last_value cs ''status'' = map_of u ''status''" "last_value cs ''closed_at'' = map_of u ''closed_at''"
    using field_clauses_value[OF fc] last_value_map_of[OF d] by simp_all
  then show "last_value (clauses e old u cs) ''status'' = map_of u ''status''"
    and "map_of u ''closed_at'' = None \<Longrightarrow> last_value (clauses e old u cs) ''closed_at'' =
      (case map_of u ''status'' of None \<Rightarrow> None
       | Some v \<Rightarrow> (case status_text v of None \<Rightarrow> None
         | Some st \<Rightarrow> (if st = StatusClosed then Some (UTime (now e))
             else if Status old = StatusClosed then Some UNil else None)))"
    by (simp_all add: clauses_def managed_values closed_at_value split: option.splits)
qed

subsection \<open>The whole update\<close>

definition new_status :: "issue_row \<Rightarrow> updates \<Rightarrow> status" where
  "new_status old u = (case map_of u ''status'' of None \<Rightarrow> Status old | Some v \<Rightarrow> status_of v)"

lemma status_text_of: "status_text v = Some t \<Longrightarrow> status_of v = t"
  by (cases v) (auto simp: status_of_def)

lemma update_row_set:
  assumes fc: "field_clauses e u = Inr cs" and d: "distinct (map fst u)"
    and sc: "set_columns e (clauses e old u cs) = Some f"
    and nc: "map_of u ''closed_at'' = None"
    and ty: "\<And>v. map_of u ''status'' = Some v \<Longrightarrow> status_text v \<noteq> None"
  shows "ID (f r) = ID r" "IsBlocked (f r) = IsBlocked r" "LeaseExpiresAt (f r) = LeaseExpiresAt r"
    "HeartbeatAt (f r) = HeartbeatAt r"
    "Status (f old) = new_status old u"
    "closed_at_invariant old \<Longrightarrow> closed_at_invariant (f old)"
proof -
  note fr = set_columns_frame[OF sc]
  show "ID (f r) = ID r" "IsBlocked (f r) = IsBlocked r" "LeaseExpiresAt (f r) = LeaseExpiresAt r"
    "HeartbeatAt (f r) = HeartbeatAt r" using fr[of r] by simp_all
  show st: "Status (f old) = new_status old u"
    using fr[of old] clauses_values(1)[OF fc d, of old] by (simp add: new_status_def split: option.splits)
  assume ca: "closed_at_invariant old"
  have cl: "ClosedAt (f old) = (case map_of u ''status'' of None \<Rightarrow> ClosedAt old
     | Some v \<Rightarrow> (if status_of v = StatusClosed then Some (now e)
         else if Status old = StatusClosed then None else ClosedAt old))"
  proof (cases "map_of u ''status''")
    case None
    then show ?thesis using fr[of old] clauses_values(2)[OF fc d nc, of old] by (simp split: option.splits)
  next
    case (Some v)
    obtain t where t: "status_text v = Some t" using ty[OF Some] by auto
    then show ?thesis
      using fr[of old] clauses_values(2)[OF fc d nc, of old] Some status_text_of[OF t]
      by (simp add: time_of_def split: option.splits if_splits)
  qed
  show "closed_at_invariant (f old)"
    using ca cl st by (auto simp: closed_at_invariant_def new_status_def split: option.splits if_splits)
qed

lemma update_cases:
  assumes "GetIssue s x = Inr old"
  obtains (type_err) err where "type_error e u s = Some err" "updateIssue e x u a ev s = Some (Inl err)"
  | (field_err) err where "type_error e u s = None" "field_clauses e u = Inl err" "updateIssue e x u a ev s = Some (Inl err)"
  | (sql_err) cs where "type_error e u s = None" "field_clauses e u = Inr cs"
      "set_columns e (clauses e old u cs) = None"
      "updateIssue e x u a ev s = Some (Inl (OpFailed ''failed to update issue''))"
  | (ok) cs f rows n s2 where "type_error e u s = None" "field_clauses e u = Inr cs"
      "set_columns e (clauses e old u cs) = Some f"
      "update_where (\<lambda>r. ID r = x) (\<lambda>r. (f r)\<lparr>RowLock := freshRowLock e x\<rparr>) (issue_table (IsActiveWisp s x) s) = (rows, n)"
      "s2 = (if ev then RecordFullEvent (IsActiveWisp s x) x (DetermineEventType old u) a (marshal_issue e old)
              (marshal_updates e u) (set_issue_table (IsActiveWisp s x) rows s)
             else set_issue_table (IsActiveWisp s x) rows s)"
      "updateIssue e x u a ev s = map_option (\<lambda>s3. Inr (\<lparr>UpdOldIssue = old, UpdIsWisp = IsActiveWisp s x\<rparr>, s3))
         (after_update e (IsActiveWisp s x) x old u s2)"
proof (cases "type_error e u s")
  case (Some err)
  then show ?thesis using type_err assms by (simp add: updateIssue_def Let_def)
next
  case te: None
  show ?thesis
  proof (cases "field_clauses e u")
    case (Inl err)
    then show ?thesis using field_err te assms by (simp add: updateIssue_def Let_def)
  next
    case (Inr cs)
    show ?thesis
    proof (cases "set_columns e (clauses e old u cs)")
      case None
      then show ?thesis using sql_err[OF te Inr None] te Inr assms
        by (simp add: updateIssue_def clauses_def Let_def)
    next
      case (Some f)
      obtain rows n where w: "update_where (\<lambda>r. ID r = x) (\<lambda>r. (f r)\<lparr>RowLock := freshRowLock e x\<rparr>)
          (issue_table (IsActiveWisp s x) s) = (rows, n)" by fastforce
      show ?thesis
        by (rule ok[OF te Inr Some w refl]) (use te Inr assms Some w in \<open>simp add: updateIssue_def clauses_def Let_def\<close>)
    qed
  qed
qed

lemma expand_frame:
  "expand_batch s' = expand_batch s \<Longrightarrow>
   expandByParentChildDescendants s' i j sd = expandByParentChildDescendants s i j sd"
proof (induction s i j sd rule: expandByParentChildDescendants.induct)
  case (1 s i j sd)
  show ?case
    by (subst (1 2) expandByParentChildDescendants.simps)
      (use 1 in \<open>auto simp: Let_def split: prod.splits\<close>)
qed

lemma affected_status_frame:
  assumes "\<And>v. dep_table v s' = dep_table v s"
  shows "affected_status w s' x = affected_status w s x"
proof -
  have sel: "select_sources s' = select_sources s"
    by (intro ext) (simp add: select_sources_def assms)
  have ap: "appendChildren s' = appendChildren s"
    by (intro ext) (simp add: appendChildren_def sel)
  have eb: "expand_batch s' = expand_batch s"
    by (intro ext) (simp only: expand_batch_def ap)
  have "loadWaitersWhoseSpawnerIsParentOf s' = loadWaitersWhoseSpawnerIsParentOf s"
    "loadBlockingDependersForIDs s' = loadBlockingDependersForIDs s"
    by (intro ext, simp add: loadWaitersWhoseSpawnerIsParentOf_def loadWaitersOnSpawnerIDsByCol_def
        loadBlockingDependersForIDs_def sel assms)+
  then show ?thesis
    unfolding affected_status_eq by (simp add: expand_frame[OF eb])
qed

text \<open>
  The statuses between which an update does not recompute although the closed
  children change: \<^verbatim>\<open>closed\<close> and \<^verbatim>\<open>pinned\<close> are both inactive.
\<close>

definition silent_change :: "issue_row \<Rightarrow> updates \<Rightarrow> bool" where
  "silent_change old u = (active_status (Status old) = active_status (new_status old u) \<and>
     (Status old = StatusClosed) \<noteq> (new_status old u = StatusClosed))"

lemma update_spec:
  assumes g: "good_db e s" and old: "GetIssue s x = Inr old"
    "select_row x (issue_table (IsActiveWisp s x) s) = Some old"
    and d: "distinct (map fst u)" and nc: "map_of u ''closed_at'' = None"
    and ty: "\<And>v. map_of u ''status'' = Some v \<Longrightarrow> status_text v \<noteq> None"
    and ns: "\<not> silent_change old u"
  shows "(\<exists>err. updateIssue e x u a ev s = Some (Inl err)) \<or>
    (\<exists>s1 s' cs f. updateIssue e x u a ev s = Some (Inr (\<lparr>UpdOldIssue = old, UpdIsWisp = IsActiveWisp s x\<rparr>, s')) \<and>
       good_db e s' \<and> same_but_flags s1 s' \<and> field_clauses e u = Inr cs \<and>
       set_columns e (clauses e old u cs) = Some f \<and>
       row_change (IsActiveWisp s x) x (\<lambda>r. if r = old then (f r)\<lparr>RowLock := freshRowLock e x\<rparr> else r) s s1)"
  using old(1)
proof (cases rule: update_cases[of s x old e u a ev])
  case (ok cs f rows n s2)
  let ?w = "IsActiveWisp s x"
  have wf: "wf_db s" using g by (simp add: good_db_def)
  have only: "r = old" if "r \<in> set (issue_table ?w s)" "ID r = x" for r
    using select_row_Some[OF old(2)] that wf_db_table[OF wf] distinct_key_eq[of ID] by metis
  define h where "h r = (if r = old then (f r)\<lparr>RowLock := freshRowLock e x\<rparr> else r)" for r
  note us = update_row_set[OF ok(2) d ok(3) nc ty]
  have "row_change ?w x (\<lambda>r. if ID r = x then (f r)\<lparr>RowLock := freshRowLock e x\<rparr> else r) s (set_issue_table ?w rows s)"
    by (rule set_table_update[OF ok(4)]) (use us(1,2) in auto)
  then have it: "issue_table v s2 = map (\<lambda>r. if v = ?w \<and> ID r = x then (f r)\<lparr>RowLock := freshRowLock e x\<rparr> else r) (issue_table v s)"
    and dt: "dep_table v s2 = dep_table v s" for v
    unfolding ok(5) by (simp_all add: row_change_def cong: if_cong map_cong)
  have "map (\<lambda>r. if v = ?w \<and> ID r = x then (f r)\<lparr>RowLock := freshRowLock e x\<rparr> else r) (issue_table v s) =
      map (\<lambda>r. if v = ?w \<and> ID r = x then h r else r) (issue_table v s)" for v
    by (rule map_cong[OF refl]) (use only in \<open>auto simp: h_def\<close>)
  then have rc: "row_change ?w x h s s2"
    using it dt us(1,2) by (simp add: row_change_def h_def)
  have ca: "closed_at_invariant (h r)" if "closed_at_invariant r" for r
    using us(6) that by (cases "r = old") (simp_all add: h_def closed_at_invariant_def)
  have st: "Status (h old) = new_status old u" using us(5) by (simp add: h_def)
  have "\<exists>s'. after_update e ?w x old u s2 = Some s' \<and> good_db e s' \<and> same_but_flags s2 s'"
  proof (cases "active_status (Status old) = active_status (new_status old u)")
    case True
    have "good_db e s2"
      by (rule good_db_change[OF g rc _ ca]) (use only ns True st in \<open>auto simp: silent_change_def\<close>)
    moreover have "after_update e ?w x old u s2 = Some s2"
      using True status_text_of ty
      by (force simp: after_update_def new_status_def split: option.splits)
    ultimately show ?thesis using same_but_flags_refl by blast
  next
    case False
    then obtain v where v: "map_of u ''status'' = Some v" by (auto simp: new_status_def split: option.splits)
    obtain t where t: "status_text v = Some t" using ty[OF v] by auto
    obtain js ws where q: "affected_status ?w s x = (js, ws)" by fastforce
    have "affected_status ?w s2 x = (js, ws)" using affected_status_frame[OF dt] q by simp
    then have "after_update e ?w x old u s2 = recomputeIsBlocked e js ws s2"
      using False v t status_text_of[OF t]
      by (simp add: after_update_def new_status_def affected_routing Let_def)
    then show ?thesis using good_db_status[OF g rc q ca] by auto
  qed
  then obtain s' where "after_update e ?w x old u s2 = Some s'" "good_db e s'" "same_but_flags s2 s'" by blast
  with ok rc show ?thesis unfolding h_def by auto
qed auto

subsection \<open>Fields that are no columns\<close>

lemma set_columns_all: "set_columns e cs = Some f \<Longrightarrow> (c, v) \<in> set cs \<Longrightarrow> column_setter e c v \<noteq> None"
proof (induction cs arbitrary: f)
  case (Cons p cs)
  obtain c' v' where p: "p = (c', v')" by fastforce
  obtain g h where g: "column_setter e c' v' = Some g" "set_columns e cs = Some h"
    using Cons.prems(1) unfolding p set_columns_Cons by blast
  show ?case using Cons.IH[OF g(2)] Cons.prems(2) g(1) p by auto
qed simp

lemma field_clauses_keys:
  "field_clauses e u = Inr cs \<Longrightarrow> (k, v) \<in> set u \<Longrightarrow>
   \<exists>arg. (if k = ''wisp'' then ''ephemeral'' else k, arg) \<in> set cs"
proof (induction u arbitrary: cs)
  case (Cons p u)
  obtain k' v' where p: "p = (k', v')" by fastforce
  obtain a ds where ds: "field_clauses e u = Inr ds" "cs = ((if k' = ''wisp'' then ''ephemeral'' else k'), a) # ds"
    using Cons.prems(1) unfolding p by (auto simp: Let_def split: if_splits)
  show ?case
    using Cons.IH[OF ds(1)] Cons.prems(2) unfolding p ds(2) by auto
qed simp

lemma clauses_include: "set cs \<subseteq> set (clauses e old u cs)"
  by (auto simp: clauses_def ManageStartedAt_def ManageClosedAt_def split: option.splits)

end
