(* ===== verification/UpdateSpec.thy ===== *)
theory UpdateSpec
  imports UpdateThms
begin

text \<open>
  What an update of an issue promises, stated without its SET clauses: the type
  of every field a caller may pass, the values a field of that type takes, what
  a column of the row holds, and the value every column has afterwards.  The
  lemmas show that the assignments of the UPDATE statement produce these values.
\<close>

subsection \<open>Fields and their types\<close>

datatype field_type = Required_text | Optional_text | Nullable_text | Nullable_time | Flag | Count | Nullable_count
  | String_list | Json_text

definition field_types :: "(string \<times> field_type) list" where
  "field_types =
    [(''status'', Required_text), (''title'', Required_text), (''description'', Required_text),
     (''design'', Required_text), (''acceptance_criteria'', Required_text), (''notes'', Required_text),
     (''issue_type'', Required_text), (''priority'', Count), (''assignee'', Nullable_text),
     (''estimated_minutes'', Nullable_count), (''external_ref'', Nullable_text), (''spec_id'', Optional_text),
     (''started_at'', Nullable_time), (''closed_at'', Nullable_time), (''close_reason'', Optional_text),
     (''closed_by_session'', Optional_text), (''source_repo'', Optional_text), (''sender'', Optional_text),
     (''wisp'', Flag), (''wisp_type'', Optional_text), (''no_history'', Flag), (''pinned'', Flag),
     (''mol_type'', Optional_text), (''due_at'', Nullable_time), (''defer_until'', Nullable_time),
     (''await_id'', Optional_text), (''waiters'', String_list), (''metadata'', Json_text)]"

text \<open>What a field of a type holds after a value was written to it; \<^verbatim>\<open>None\<close>: the value is refused.\<close>

fun store_as :: "env \<Rightarrow> field_type \<Rightarrow> update_value \<Rightarrow> update_value option" where
  "store_as e Required_text v = map_option UString (text_of v)"
| "store_as e Optional_text v = (if v = UNil then Some (UString '''') else map_option UString (text_of v))"
| "store_as e Nullable_text v = (if v = UNil then Some UNil else map_option UString (text_of v))"
| "store_as e Nullable_time v = (case v of UTime t \<Rightarrow> Some v | UNil \<Rightarrow> Some v | _ \<Rightarrow> None)"
| "store_as e Flag v = (case v of UBool b \<Rightarrow> Some v | UNil \<Rightarrow> Some (UBool False) | _ \<Rightarrow> None)"
| "store_as e Count v = (case v of UInt n \<Rightarrow> Some v | _ \<Rightarrow> None)"
| "store_as e Nullable_count v = (case v of UInt n \<Rightarrow> Some v | UNil \<Rightarrow> Some v | _ \<Rightarrow> None)"
| "store_as e String_list v = Some (UStrings (ParseJSONStringArray e (marshal_value e v)))"
| "store_as e Json_text v = map_option (\<lambda>t. UString (if t = ''{}'' then '''' else t))
     (case v of UString t \<Rightarrow> (if json_ok e t then Some t else None)
      | UBytes t \<Rightarrow> (if json_ok e t then Some t else None) | _ \<Rightarrow> None)"

definition stored_value :: "env \<Rightarrow> string \<Rightarrow> update_value \<Rightarrow> update_value option" where
  "stored_value e k v = (case map_of field_types k of None \<Rightarrow> None | Some ty \<Rightarrow> store_as e ty v)"

text \<open>An update the store can carry out: known fields, values of their types, a known issue type.\<close>

definition acceptable :: "env \<Rightarrow> updates \<Rightarrow> db \<Rightarrow> bool" where
  "acceptable e u s = ((\<forall>(k, v)\<in>set u. stored_value e k v \<noteq> None) \<and>
     (case map_of u ''issue_type'' of
        Some (UString t) \<Rightarrow> type_IsValidWithCustom t (ResolveCustomTypes e s) | _ \<Rightarrow> True))"

subsection \<open>Columns of a row\<close>

definition time_cell :: "time option \<Rightarrow> update_value" where
  "time_cell t = (case t of None \<Rightarrow> UNil | Some t \<Rightarrow> UTime t)"

definition row_fields :: "issue_row \<Rightarrow> (string \<times> update_value) list" where
  "row_fields r =
    [(''status'', UString (Status r)), (''title'', UString (Title r)), (''description'', UString (Description r)),
     (''design'', UString (Design r)), (''acceptance_criteria'', UString (AcceptanceCriteria r)),
     (''notes'', UString (Notes r)), (''issue_type'', UString (IssueType r)), (''priority'', UInt (Priority r)),
     (''assignee'', if AssigneeNull r then UNil else UString (Assignee r)),
     (''estimated_minutes'', case EstimatedMinutes r of None \<Rightarrow> UNil | Some n \<Rightarrow> UInt n),
     (''external_ref'', case ExternalRef r of None \<Rightarrow> UNil | Some t \<Rightarrow> UString t), (''spec_id'', UString (SpecID r)),
     (''started_at'', time_cell (StartedAt r)), (''closed_at'', time_cell (ClosedAt r)),
     (''close_reason'', UString (CloseReason r)), (''closed_by_session'', UString (ClosedBySession r)),
     (''source_repo'', UString (SourceRepo r)), (''sender'', UString (Sender r)), (''wisp'', UBool (Ephemeral r)),
     (''wisp_type'', UString (WispType r)), (''no_history'', UBool (NoHistory r)), (''pinned'', UBool (Pinned r)),
     (''mol_type'', UString (MolType r)), (''due_at'', time_cell (DueAt r)), (''defer_until'', time_cell (DeferUntil r)),
     (''await_id'', UString (AwaitID r)), (''waiters'', UStrings (Waiters r)), (''metadata'', UString (Metadata r)),
     (''updated_at'', UTime (UpdatedAt r))]"

definition field_value :: "string \<Rightarrow> issue_row \<Rightarrow> update_value" where
  "field_value k r = the (map_of (row_fields r) k)"

lemma row_fields_frame [simp]:
  "row_fields (r\<lparr>IsBlocked := b\<rparr>) = row_fields r" "row_fields (r\<lparr>RowLock := l\<rparr>) = row_fields r"
  by (simp_all add: row_fields_def cong: if_cong)

text \<open>The row without the columns an update may write.\<close>

definition unwritten :: "issue_row \<Rightarrow> issue_row" where
  "unwritten r = r\<lparr>Status := '''', Title := '''', Description := '''', Design := '''', AcceptanceCriteria := '''',
     Notes := '''', IssueType := '''', Priority := 0, Assignee := '''', AssigneeNull := True,
     EstimatedMinutes := None, ExternalRef := None, SpecID := '''', StartedAt := None, ClosedAt := None,
     CloseReason := '''', ClosedBySession := '''', SourceRepo := '''', Sender := '''', Ephemeral := False,
     WispType := '''', NoHistory := False, Pinned := False, MolType := '''', DueAt := None, DeferUntil := None,
     AwaitID := '''', Waiters := [], Metadata := '''', UpdatedAt := 0, RowLock := 0, IsBlocked := False\<rparr>"

subsection \<open>The values after an update\<close>

definition given_status :: "updates \<Rightarrow> status option" where
  "given_status u = (case map_of u ''status'' of None \<Rightarrow> None | Some v \<Rightarrow> status_text v)"

text \<open>The columns the update manages itself; they apply when the caller does not give \<^verbatim>\<open>closed_at\<close>.\<close>

definition managed_value :: "env \<Rightarrow> issue_row \<Rightarrow> updates \<Rightarrow> string \<Rightarrow> update_value option" where
  "managed_value e old u k =
    (if k = ''updated_at'' then Some (UTime (now e))
     else case given_status u of None \<Rightarrow> None
     | Some st \<Rightarrow>
         if k = ''closed_at'' \<and> st = StatusClosed then Some (UTime (now e))
         else if k = ''closed_at'' \<and> Status old = StatusClosed then Some UNil
         else if k = ''close_reason'' \<and> st \<noteq> StatusClosed \<and> Status old = StatusClosed then Some (UString '''')
         else if k = ''started_at'' \<and> map_of u k = None \<and> st = StatusInProgress \<and> StartedAt old = None
         then Some (UTime (now e))
         else if k = ''pinned'' \<and> map_of u k = None \<and> Pinned old \<and> st \<noteq> StatusPinned then Some (UBool False)
         else None)"

definition updated_value :: "env \<Rightarrow> issue_row \<Rightarrow> updates \<Rightarrow> string \<Rightarrow> update_value" where
  "updated_value e old u k =
    (case managed_value e old u k of Some v \<Rightarrow> v
     | None \<Rightarrow> (case map_of u k of Some v \<Rightarrow> the (stored_value e k v) | None \<Rightarrow> field_value k old))"

subsection \<open>One assignment\<close>

definition field_column :: "string \<Rightarrow> string" where
  "field_column k = (if k = ''wisp'' then ''ephemeral'' else k)"

definition field_arg :: "env \<Rightarrow> string \<Rightarrow> update_value \<Rightarrow> store_error + update_value" where
  "field_arg e k v =
    (if k = ''waiters'' then Inr (UString (marshal_value e v))
     else if k = ''metadata'' then
       (case NormalizeMetadataValue e v of None \<Rightarrow> Inl InvalidMetadata | Some m \<Rightarrow> Inr (UString m))
     else Inr v)"

lemma field_clauses_Cons:
  "field_clauses e ((k, v) # u) = guard_res (IsAllowedUpdateField k) (InvalidField k)
     (bind_res (field_arg e k v) (\<lambda>a. bind_res (field_clauses e u) (\<lambda>cs. Inr ((field_column k, a) # cs))))"
  by (simp add: field_arg_def field_column_def Let_def)

definition assigns :: "(issue_row \<Rightarrow> issue_row) \<Rightarrow> string \<Rightarrow> update_value \<Rightarrow> bool" where
  "assigns f k w = ((\<forall>r. row_fields (f r) = map (\<lambda>(k', x). (k', if k' = k then w else x)) (row_fields r)) \<and>
     (\<forall>r. unwritten (f r) = unwritten r))"

lemma map_of_replace:
  "map_of (map (\<lambda>(k', x). (k', if k' = k then w else x)) xs) =
   (\<lambda>k'. if k' = k then map_option (\<lambda>_. w) (map_of xs k') else map_of xs k')"
  by (induction xs) auto

definition field_names :: "string list" where
  "field_names = map fst field_types @ [''updated_at'']"

lemma row_fields_names: "set (map fst (row_fields r)) = set field_names"
  by (simp add: row_fields_def field_names_def field_types_def insert_commute)

lemma assigns_value:
  assumes "assigns f k w" "k \<in> set field_names"
  shows "field_value k' (f r) = (if k' = k then w else field_value k' r)"
proof -
  have "map_of (row_fields r) k \<noteq> None"
    using assms(2) row_fields_names[of r] by (simp add: map_of_eq_None_iff)
  then obtain x where "map_of (row_fields r) k = Some x" by blast
  then show ?thesis using assms(1) by (simp add: assigns_def field_value_def map_of_replace)
qed

lemma assigns_texts:
  "assigns (\<lambda>r. r\<lparr>Status := t\<rparr>) ''status'' (UString t)"
  "assigns (\<lambda>r. r\<lparr>Title := t\<rparr>) ''title'' (UString t)"
  "assigns (\<lambda>r. r\<lparr>Description := t\<rparr>) ''description'' (UString t)"
  "assigns (\<lambda>r. r\<lparr>Design := t\<rparr>) ''design'' (UString t)"
  "assigns (\<lambda>r. r\<lparr>AcceptanceCriteria := t\<rparr>) ''acceptance_criteria'' (UString t)"
  "assigns (\<lambda>r. r\<lparr>Notes := t\<rparr>) ''notes'' (UString t)"
  "assigns (\<lambda>r. r\<lparr>IssueType := t\<rparr>) ''issue_type'' (UString t)"
  "assigns (\<lambda>r. r\<lparr>SpecID := t\<rparr>) ''spec_id'' (UString t)"
  "assigns (\<lambda>r. r\<lparr>CloseReason := t\<rparr>) ''close_reason'' (UString t)"
  "assigns (\<lambda>r. r\<lparr>ClosedBySession := t\<rparr>) ''closed_by_session'' (UString t)"
  "assigns (\<lambda>r. r\<lparr>SourceRepo := t\<rparr>) ''source_repo'' (UString t)"
  "assigns (\<lambda>r. r\<lparr>Sender := t\<rparr>) ''sender'' (UString t)"
  "assigns (\<lambda>r. r\<lparr>WispType := t\<rparr>) ''wisp_type'' (UString t)"
  "assigns (\<lambda>r. r\<lparr>MolType := t\<rparr>) ''mol_type'' (UString t)"
  "assigns (\<lambda>r. r\<lparr>AwaitID := t\<rparr>) ''await_id'' (UString t)"
  "assigns (\<lambda>r. r\<lparr>Metadata := t\<rparr>) ''metadata'' (UString t)"
  by (simp_all add: assigns_def row_fields_def unwritten_def time_cell_def)

lemma assigns_times:
  "assigns (\<lambda>r. r\<lparr>StartedAt := t\<rparr>) ''started_at'' (time_cell t)"
  "assigns (\<lambda>r. r\<lparr>ClosedAt := t\<rparr>) ''closed_at'' (time_cell t)"
  "assigns (\<lambda>r. r\<lparr>DueAt := t\<rparr>) ''due_at'' (time_cell t)"
  "assigns (\<lambda>r. r\<lparr>DeferUntil := t\<rparr>) ''defer_until'' (time_cell t)"
  by (simp_all add: assigns_def row_fields_def unwritten_def time_cell_def)

lemma assigns_flags:
  "assigns (\<lambda>r. r\<lparr>Ephemeral := b\<rparr>) ''wisp'' (UBool b)"
  "assigns (\<lambda>r. r\<lparr>NoHistory := b\<rparr>) ''no_history'' (UBool b)"
  "assigns (\<lambda>r. r\<lparr>Pinned := b\<rparr>) ''pinned'' (UBool b)"
  by (simp_all add: assigns_def row_fields_def unwritten_def time_cell_def)

lemma assigns_others:
  "assigns (\<lambda>r. r\<lparr>Priority := n\<rparr>) ''priority'' (UInt n)"
  "assigns (\<lambda>r. r\<lparr>Assignee := '''', AssigneeNull := True\<rparr>) ''assignee'' UNil"
  "assigns (\<lambda>r. r\<lparr>Assignee := t, AssigneeNull := False\<rparr>) ''assignee'' (UString t)"
  "assigns (\<lambda>r. r\<lparr>EstimatedMinutes := None\<rparr>) ''estimated_minutes'' UNil"
  "assigns (\<lambda>r. r\<lparr>EstimatedMinutes := Some n\<rparr>) ''estimated_minutes'' (UInt n)"
  "assigns (\<lambda>r. r\<lparr>ExternalRef := None\<rparr>) ''external_ref'' UNil"
  "assigns (\<lambda>r. r\<lparr>ExternalRef := Some t\<rparr>) ''external_ref'' (UString t)"
  "assigns (\<lambda>r. r\<lparr>Waiters := ws\<rparr>) ''waiters'' (UStrings ws)"
  "assigns (\<lambda>r. r\<lparr>UpdatedAt := t'\<rparr>) ''updated_at'' (UTime t')"
  by (simp_all add: assigns_def row_fields_def unwritten_def time_cell_def)

lemmas assigns_columns = assigns_texts assigns_times assigns_flags assigns_others

lemma setter_columns:
  "column_setter e ''status'' v = set_text (\<lambda>t r. r\<lparr>Status := t\<rparr>) v"
  "column_setter e ''closed_at'' v = set_time (\<lambda>t r. r\<lparr>ClosedAt := t\<rparr>) v"
  "column_setter e ''title'' v = set_text (\<lambda>t r. r\<lparr>Title := t\<rparr>) v"
  "column_setter e ''description'' v = set_text (\<lambda>t r. r\<lparr>Description := t\<rparr>) v"
  "column_setter e ''design'' v = set_text (\<lambda>t r. r\<lparr>Design := t\<rparr>) v"
  "column_setter e ''acceptance_criteria'' v = set_text (\<lambda>t r. r\<lparr>AcceptanceCriteria := t\<rparr>) v"
  "column_setter e ''notes'' v = set_text (\<lambda>t r. r\<lparr>Notes := t\<rparr>) v"
  "column_setter e ''issue_type'' v = set_text (\<lambda>t r. r\<lparr>IssueType := t\<rparr>) v"
  "column_setter e ''priority'' v = (case v of UInt n \<Rightarrow> Some (\<lambda>r. r\<lparr>Priority := n\<rparr>) | _ \<Rightarrow> None)"
  "column_setter e ''assignee'' v = (if v = UNil then Some (\<lambda>r. r\<lparr>Assignee := '''', AssigneeNull := True\<rparr>) else set_text (\<lambda>t r. r\<lparr>Assignee := t, AssigneeNull := False\<rparr>) v)"
  "column_setter e ''estimated_minutes'' v = set_int (\<lambda>n r. r\<lparr>EstimatedMinutes := n\<rparr>) v"
  "column_setter e ''external_ref'' v = (if v = UNil then Some (\<lambda>r. r\<lparr>ExternalRef := None\<rparr>) else set_text (\<lambda>t r. r\<lparr>ExternalRef := Some t\<rparr>) v)"
  "column_setter e ''spec_id'' v = set_null_text (\<lambda>t r. r\<lparr>SpecID := t\<rparr>) v"
  "column_setter e ''started_at'' v = set_time (\<lambda>t r. r\<lparr>StartedAt := t\<rparr>) v"
  "column_setter e ''close_reason'' v = set_null_text (\<lambda>t r. r\<lparr>CloseReason := t\<rparr>) v"
  "column_setter e ''closed_by_session'' v = set_null_text (\<lambda>t r. r\<lparr>ClosedBySession := t\<rparr>) v"
  "column_setter e ''source_repo'' v = set_null_text (\<lambda>t r. r\<lparr>SourceRepo := t\<rparr>) v"
  "column_setter e ''sender'' v = set_null_text (\<lambda>t r. r\<lparr>Sender := t\<rparr>) v"
  "column_setter e ''ephemeral'' v = set_bool (\<lambda>b r. r\<lparr>Ephemeral := b\<rparr>) v"
  "column_setter e ''wisp_type'' v = set_null_text (\<lambda>t r. r\<lparr>WispType := t\<rparr>) v"
  "column_setter e ''no_history'' v = set_bool (\<lambda>b r. r\<lparr>NoHistory := b\<rparr>) v"
  "column_setter e ''pinned'' v = set_bool (\<lambda>b r. r\<lparr>Pinned := b\<rparr>) v"
  "column_setter e ''mol_type'' v = set_null_text (\<lambda>t r. r\<lparr>MolType := t\<rparr>) v"
  "column_setter e ''due_at'' v = set_time (\<lambda>t r. r\<lparr>DueAt := t\<rparr>) v"
  "column_setter e ''defer_until'' v = set_time (\<lambda>t r. r\<lparr>DeferUntil := t\<rparr>) v"
  "column_setter e ''await_id'' v = set_null_text (\<lambda>t r. r\<lparr>AwaitID := t\<rparr>) v"
  "column_setter e ''waiters'' v = set_null_text (\<lambda>t r. r\<lparr>Waiters := ParseJSONStringArray e t\<rparr>) v"
  "column_setter e ''metadata'' v = set_null_text (\<lambda>t r. r\<lparr>Metadata := (if t = ''{}'' then '''' else t)\<rparr>) v"
  "column_setter e ''updated_at'' v = (case v of UTime t \<Rightarrow> Some (\<lambda>r. r\<lparr>UpdatedAt := t\<rparr>) | _ \<Rightarrow> None)"
  by (simp_all add: column_setter_def)

lemma stored_values:
  "stored_value e ''status'' v = store_as e Required_text v"
  "stored_value e ''title'' v = store_as e Required_text v"
  "stored_value e ''description'' v = store_as e Required_text v"
  "stored_value e ''design'' v = store_as e Required_text v"
  "stored_value e ''acceptance_criteria'' v = store_as e Required_text v"
  "stored_value e ''notes'' v = store_as e Required_text v"
  "stored_value e ''issue_type'' v = store_as e Required_text v"
  "stored_value e ''priority'' v = store_as e Count v"
  "stored_value e ''assignee'' v = store_as e Nullable_text v"
  "stored_value e ''estimated_minutes'' v = store_as e Nullable_count v"
  "stored_value e ''external_ref'' v = store_as e Nullable_text v"
  "stored_value e ''spec_id'' v = store_as e Optional_text v"
  "stored_value e ''started_at'' v = store_as e Nullable_time v"
  "stored_value e ''closed_at'' v = store_as e Nullable_time v"
  "stored_value e ''close_reason'' v = store_as e Optional_text v"
  "stored_value e ''closed_by_session'' v = store_as e Optional_text v"
  "stored_value e ''source_repo'' v = store_as e Optional_text v"
  "stored_value e ''sender'' v = store_as e Optional_text v"
  "stored_value e ''wisp'' v = store_as e Flag v"
  "stored_value e ''wisp_type'' v = store_as e Optional_text v"
  "stored_value e ''no_history'' v = store_as e Flag v"
  "stored_value e ''pinned'' v = store_as e Flag v"
  "stored_value e ''mol_type'' v = store_as e Optional_text v"
  "stored_value e ''due_at'' v = store_as e Nullable_time v"
  "stored_value e ''defer_until'' v = store_as e Nullable_time v"
  "stored_value e ''await_id'' v = store_as e Optional_text v"
  "stored_value e ''waiters'' v = store_as e String_list v"
  "stored_value e ''metadata'' v = store_as e Json_text v"
  by (simp_all add: stored_value_def field_types_def)

lemma field_columns:
  "k \<noteq> ''wisp'' \<Longrightarrow> field_column k = k" "field_column ''wisp'' = ''ephemeral''"
  by (simp_all add: field_column_def)

lemma field_args:
  "k \<noteq> ''waiters'' \<Longrightarrow> k \<noteq> ''metadata'' \<Longrightarrow> field_arg e k v = Inr v"
  "field_arg e ''waiters'' v = Inr (UString (marshal_value e v))"
  "field_arg e ''metadata'' v =
    (case NormalizeMetadataValue e v of None \<Rightarrow> Inl InvalidMetadata | Some m \<Rightarrow> Inr (UString m))"
  by (simp_all add: field_arg_def)

text \<open>A value of the type of a field is assigned to it.\<close>

lemma assigns_required:
  assumes "store_as e Required_text v = Some w" "\<And>t. assigns (g t) k (UString t)"
  shows "\<exists>f. set_text g v = Some f \<and> assigns f k w"
  using assms by (auto simp: set_text_def)

lemma assigns_optional:
  assumes "store_as e Optional_text v = Some w" "\<And>t. assigns (g t) k (UString t)"
  shows "\<exists>f. set_null_text g v = Some f \<and> assigns f k w"
  using assms by (auto simp: set_null_text_def set_text_def split: if_splits)

lemma assigns_nullable:
  assumes "store_as e Nullable_text v = Some w" "\<And>t. assigns (g t) k (UString t)" "assigns n k UNil"
  shows "\<exists>f. (if v = UNil then Some n else set_text g v) = Some f \<and> assigns f k w"
  using assms by (auto simp: set_text_def split: if_splits)

lemma assigns_time:
  assumes "store_as e Nullable_time v = Some w" "\<And>t. assigns (g t) k (time_cell t)"
  shows "\<exists>f. set_time g v = Some f \<and> assigns f k w"
  using assms(1) assms(2)[of None] assms(2)[of "Some (case v of UTime t \<Rightarrow> t)"]
  by (cases v) (auto simp: set_time_def time_cell_def)

lemma assigns_flag:
  assumes "store_as e Flag v = Some w" "\<And>b. assigns (g b) k (UBool b)"
  shows "\<exists>f. set_bool g v = Some f \<and> assigns f k w"
  using assms by (cases v) (auto simp: set_bool_def)

lemma assigns_count:
  assumes "store_as e Count v = Some w" "\<And>n. assigns (g n) k (UInt n)"
  shows "\<exists>f. (case v of UInt n \<Rightarrow> Some (g n) | _ \<Rightarrow> None) = Some f \<and> assigns f k w"
  using assms by (cases v) auto

lemma assigns_nullable_count:
  assumes "store_as e Nullable_count v = Some w" "\<And>n. assigns (g (Some n)) k (UInt n)" "assigns (g None) k UNil"
  shows "\<exists>f. set_int g v = Some f \<and> assigns f k w"
  using assms by (cases v) (auto simp: set_int_def)

lemma assigns_json:
  assumes "store_as e Json_text v = Some w"
  shows "\<exists>a f. field_arg e ''metadata'' v = Inr a \<and> column_setter e ''metadata'' a = Some f \<and> assigns f ''metadata'' w"
  using assms assigns_texts(16) unfolding field_args setter_columns
  by (cases v) (auto simp: NormalizeMetadataValue_def set_null_text_def set_text_def split: if_splits)

lemmas assigns_typed = assigns_required assigns_optional assigns_nullable assigns_time assigns_flag assigns_count
  assigns_nullable_count

lemma field_assigns_exist:
  assumes "stored_value e k v = Some w"
  shows "\<exists>a f. field_arg e k v = Inr a \<and> column_setter e (field_column k) a = Some f \<and> assigns f k w"
proof -
  have plain: ?thesis if "k \<noteq> ''waiters''" "k \<noteq> ''metadata''"
      "\<exists>f. column_setter e (field_column k) v = Some f \<and> assigns f k w"
    using that by (simp add: field_args)
  have "k \<in> set (map fst field_types)"
    using assms by (auto simp: stored_value_def split: option.splits dest: map_of_SomeD intro: rev_image_eqI)
  then consider "k = ''waiters''" | "k = ''metadata''" | "k \<in> set (map fst field_types) - {''waiters'', ''metadata''}"
    by blast
  then show ?thesis
  proof cases
    case 1
    then show ?thesis
      using assms assigns_columns
      by (auto simp: stored_values field_columns field_args setter_columns set_null_text_def set_text_def)
  next
    case 2
    then show ?thesis using assms assigns_json by (simp add: stored_values field_columns)
  next
    case 3
    have "\<exists>f. column_setter e (field_column k) v = Some f \<and> assigns f k w"
      using 3 assms unfolding field_types_def
      by (simp only: list.map fst_conv list.set insert_iff empty_iff simp_thms Diff_iff)
        (elim conjE disjE; hypsubst;
         simp add: stored_values field_columns setter_columns del: store_as.simps split del: if_split;
         erule assigns_typed; rule assigns_columns)
    then show ?thesis using plain 3 by blast
  qed
qed

lemma field_refused:
  assumes "stored_value e k v = None" "IsAllowedUpdateField k" "field_arg e k v = Inr a"
  shows "column_setter e (field_column k) a = None"
  using assms unfolding IsAllowedUpdateField_def
  by (simp only: insert_iff empty_iff simp_thms)
    (elim disjE; hypsubst; simp add: stored_values setter_columns field_columns field_args setter_defs
         NormalizeMetadataValue_def column_setter_def stored_value_def field_types_def split: if_splits update_value.splits option.splits)

lemma stored_value_allowed:
  assumes "stored_value e k v \<noteq> None"
  shows "IsAllowedUpdateField k"
proof -
  have "k \<in> set (map fst field_types)"
    using assms by (auto simp: stored_value_def split: option.splits dest: map_of_SomeD intro: rev_image_eqI)
  then show ?thesis by (auto simp: field_types_def IsAllowedUpdateField_def)
qed

subsection \<open>All assignments\<close>

definition assigned :: "env \<Rightarrow> string \<times> update_value \<Rightarrow> string \<times> update_value \<Rightarrow> bool" where
  "assigned e kw ca = (fst kw \<in> set field_names \<and>
     (\<exists>f. column_setter e (fst ca) (snd ca) = Some f \<and> assigns f (fst kw) (snd kw)))"

lemma set_columns_assigned:
  assumes "list_all2 (assigned e) ws cs"
  shows "\<exists>f. set_columns e cs = Some f \<and>
    (\<forall>r k. field_value k (f r) = (case last_value ws k of None \<Rightarrow> field_value k r | Some w \<Rightarrow> w)) \<and>
    (\<forall>r. unwritten (f r) = unwritten r)"
  using assms
proof (induction rule: list_all2_induct)
  case Nil
  then show ?case by (simp add: set_columns_Nil)
next
  case (Cons kw ws ca cs)
  obtain k w c a where p: "kw = (k, w)" "ca = (c, a)" by fastforce
  obtain g where g: "column_setter e c a = Some g" "assigns g k w" "k \<in> set field_names"
    using Cons.hyps(1) unfolding assigned_def p by auto
  obtain h where h: "set_columns e cs = Some h"
      "\<And>r k. field_value k (h r) = (case last_value ws k of None \<Rightarrow> field_value k r | Some w \<Rightarrow> w)"
      "\<And>r. unwritten (h r) = unwritten r" using Cons.IH by blast
  have "set_columns e (ca # cs) = Some (\<lambda>r. h (g r))" unfolding p set_columns_Cons using g h by blast
  moreover have "unwritten (h (g r)) = unwritten r" for r using h(3) g(2) by (simp add: assigns_def)
  moreover have "field_value k' (h (g r)) = (case last_value (kw # ws) k' of None \<Rightarrow> field_value k' r | Some w \<Rightarrow> w)" for r k'
    using h(2)[of k' "g r"] assigns_value[OF g(2,3), of k' r] by (auto simp: p split: option.splits)
  ultimately show ?case by blast
qed

definition stored_all :: "env \<Rightarrow> updates \<Rightarrow> updates" where
  "stored_all e u = map (\<lambda>(k, v). (k, the (stored_value e k v))) u"

lemma stored_value_field: "stored_value e k v \<noteq> None \<Longrightarrow> k \<in> set field_names \<and> k \<noteq> ''updated_at''"
  by (auto simp: stored_value_def field_names_def field_types_def dest: map_of_SomeD split: option.splits if_splits)

lemma fields_accepted:
  assumes "\<forall>(k, v)\<in>set u. stored_value e k v \<noteq> None"
  shows "\<exists>cs. field_clauses e u = Inr cs \<and> list_all2 (assigned e) (stored_all e u) cs"
  using assms
proof (induction u)
  case (Cons p u)
  obtain k v where p: "p = (k, v)" by fastforce
  obtain w where w: "stored_value e k v = Some w" using Cons.prems unfolding p by auto
  obtain a f where a: "field_arg e k v = Inr a" "column_setter e (field_column k) a = Some f" "assigns f k w"
    using field_assigns_exist[OF w] by blast
  obtain cs where cs: "field_clauses e u = Inr cs" "list_all2 (assigned e) (stored_all e u) cs"
    using Cons by auto
  have "field_clauses e (p # u) = Inr ((field_column k, a) # cs)"
    using stored_value_allowed[of e k v] w a(1) cs(1) unfolding p field_clauses_Cons by simp
  moreover have "assigned e (k, w) (field_column k, a)"
    using a(2,3) stored_value_field[of e k v] w by (simp add: assigned_def)
  ultimately show ?case using cs(2) w by (auto simp: stored_all_def p)
qed (simp add: stored_all_def)

lemma fields_rejected:
  assumes "(k, v) \<in> set u" "stored_value e k v = None" "field_clauses e u = Inr cs"
  shows "\<exists>c a. (c, a) \<in> set cs \<and> column_setter e c a = None"
  using assms
proof (induction u arbitrary: cs)
  case (Cons p u)
  obtain k' v' where p: "p = (k', v')" by fastforce
  obtain a ds where ds: "IsAllowedUpdateField k'" "field_arg e k' v' = Inr a" "field_clauses e u = Inr ds"
      "cs = (field_column k', a) # ds"
    using Cons.prems(3) unfolding p field_clauses_Cons by auto
  show ?case
  proof (cases "(k, v) = p")
    case True
    then show ?thesis using field_refused[OF Cons.prems(2)] ds unfolding p by auto
  next
    case False
    then show ?thesis using Cons.IH[OF _ Cons.prems(2) ds(3)] Cons.prems(1) ds(4) by auto
  qed
qed simp

text \<open>The columns the update manages, as assignments after those of the caller.\<close>

definition managed_clauses :: "env \<Rightarrow> issue_row \<Rightarrow> updates \<Rightarrow> updates" where
  "managed_clauses e old u = ManageStartedAt e old u (ManageClosedAt e old u (pinned_clause old u))"

lemma clauses_split: "clauses e old u cs = (''updated_at'', UTime (now e)) # cs @ managed_clauses e old u"
proof -
  have c: "ManageClosedAt e old u (xs @ ys) = xs @ ManageClosedAt e old u ys" for xs ys
    by (simp add: ManageClosedAt_def split: option.splits)
  have st: "ManageStartedAt e old u (xs @ ys) = xs @ ManageStartedAt e old u ys" for xs ys
    by (simp add: ManageStartedAt_def split: option.splits)
  show ?thesis
    unfolding clauses_def managed_clauses_def using c[of "[(''updated_at'', UTime (now e))] @ cs"]
      st[of "[(''updated_at'', UTime (now e))] @ cs"] by simp
qed

lemma managed_clauses_no_status: "map_of u ''status'' = None \<Longrightarrow> managed_clauses e old u = []"
  by (simp add: managed_clauses_def ManageStartedAt_def ManageClosedAt_def pinned_clause_def)

lemma managed_clauses_status:
  assumes "map_of u ''status'' = Some v" "status_text v = Some st" "map_of u ''closed_at'' = None"
  shows "managed_clauses e old u =
    (if Pinned old \<and> st \<noteq> StatusPinned \<and> map_of u ''pinned'' = None then [(''pinned'', UBool False)] else []) @
    (if st = StatusClosed then [(''closed_at'', UTime (now e))]
     else if Status old = StatusClosed then [(''closed_at'', UNil), (''close_reason'', UString '''')] else []) @
    (if map_of u ''started_at'' = None \<and> st = StatusInProgress \<and> StartedAt old = None
     then [(''started_at'', UTime (now e))] else [])"
proof -
  have p: "pinned_clause old u = (if Pinned old \<and> st \<noteq> StatusPinned \<and> map_of u ''pinned'' = None then [(''pinned'', UBool False)] else [])"
    using assms by (simp add: pinned_clause_def)
  have c: "ManageClosedAt e old u xs = xs @ (if st = StatusClosed then [(''closed_at'', UTime (now e))]
     else if Status old = StatusClosed then [(''closed_at'', UNil), (''close_reason'', UString '''')] else [])" for xs
    using assms by (simp add: ManageClosedAt_def)
  have s: "ManageStartedAt e old u xs = xs @ (if map_of u ''started_at'' = None \<and> st = StatusInProgress \<and> StartedAt old = None
     then [(''started_at'', UTime (now e))] else [])" for xs
    using assms by (cases "map_of u ''started_at''") (simp_all add: ManageStartedAt_def)
  show ?thesis unfolding managed_clauses_def s c p by simp
qed

lemma plain_assigned:
  "assigned e (''pinned'', UBool b) (''pinned'', UBool b)"
  "assigned e (''closed_at'', UTime t) (''closed_at'', UTime t)"
  "assigned e (''closed_at'', UNil) (''closed_at'', UNil)"
  "assigned e (''close_reason'', UString r) (''close_reason'', UString r)"
  "assigned e (''started_at'', UTime t) (''started_at'', UTime t)"
  "assigned e (''updated_at'', UTime t) (''updated_at'', UTime t)"
  using assigns_times(1)[where t = "Some t"] assigns_times(2)[where t = "Some t"] assigns_times(2)[where t = None]
    assigns_texts(9)[where t = r] assigns_flags(3)[where b = b] assigns_others(9)[of t]
  by (simp_all add: assigned_def setter_columns setter_defs field_names_def field_types_def time_cell_def)

lemma managed_assigned:
  assumes "\<And>v. map_of u ''status'' = Some v \<Longrightarrow> status_text v \<noteq> None" "map_of u ''closed_at'' = None"
  shows "list_all2 (assigned e) (managed_clauses e old u) (managed_clauses e old u)"
proof (cases "map_of u ''status''")
  case None
  then show ?thesis by (simp add: managed_clauses_no_status)
next
  case (Some v)
  then obtain st where st: "status_text v = Some st" using assms(1) by blast
  show ?thesis
    unfolding managed_clauses_status[OF Some st assms(2)]
    by (intro list_all2_appendI) (auto intro: plain_assigned)
qed

lemma last_value_stored_all:
  assumes "distinct (map fst u)"
  shows "last_value (stored_all e u) k = map_option (\<lambda>v. the (stored_value e k v)) (map_of u k)"
proof -
  have "distinct (map fst (stored_all e u))" using assms by (simp add: stored_all_def split_beta comp_def)
  moreover have "map_of (stored_all e u) k = map_option (\<lambda>v. the (stored_value e k v)) (map_of u k)"
    by (induction u) (auto simp: stored_all_def)
  ultimately show ?thesis by (simp add: last_value_map_of)
qed

lemma last_value_if: "last_value (if b then xs else ys) k = (if b then last_value xs k else last_value ys k)"
  by simp

lemma managed_last_value:
  assumes "\<And>v. map_of u ''status'' = Some v \<Longrightarrow> status_text v \<noteq> None" "map_of u ''closed_at'' = None" "k \<noteq> ''updated_at''"
  shows "last_value (managed_clauses e old u) k = managed_value e old u k"
proof (cases "map_of u ''status''")
  case None
  then show ?thesis using assms(3) by (simp add: managed_clauses_no_status managed_value_def given_status_def)
next
  case (Some v)
  then obtain st where st: "status_text v = Some st" using assms(1) by blast
  then have gs: "given_status u = Some st" using Some by (simp add: given_status_def)
  show ?thesis
    unfolding managed_clauses_status[OF Some st assms(2)] managed_value_def gs last_value_simps last_value_if
    using assms(2,3) by (cases "k = ''closed_at''"; cases "k = ''close_reason''"; cases "k = ''started_at''"; cases "k = ''pinned''"; simp; blast?)
qed

subsection \<open>The statement\<close>

text \<open>The assignments of an acceptable update give every column the value of the specification.\<close>

lemma update_values:
  assumes ok: "\<forall>(k, v)\<in>set u. stored_value e k v \<noteq> None" and d: "distinct (map fst u)"
    and nc: "map_of u ''closed_at'' = None" and ty: "\<And>v. map_of u ''status'' = Some v \<Longrightarrow> status_text v \<noteq> None"
  obtains cs f where "field_clauses e u = Inr cs" "set_columns e (clauses e old u cs) = Some f"
    "\<And>k. field_value k (f old) = updated_value e old u k" "\<And>r. unwritten (f r) = unwritten r"
proof -
  obtain cs where cs: "field_clauses e u = Inr cs" "list_all2 (assigned e) (stored_all e u) cs"
    using fields_accepted[OF ok] by blast
  let ?ws = "(''updated_at'', UTime (now e)) # stored_all e u @ managed_clauses e old u"
  have "list_all2 (assigned e) ?ws (clauses e old u cs)"
    unfolding clauses_split using cs(2) managed_assigned[OF ty nc] plain_assigned(6)
    by (simp add: list_all2_appendI)
  then obtain f where f: "set_columns e (clauses e old u cs) = Some f"
      "\<And>r k. field_value k (f r) = (case last_value ?ws k of None \<Rightarrow> field_value k r | Some w \<Rightarrow> w)"
      "\<And>r. unwritten (f r) = unwritten r"
    using set_columns_assigned by blast
  have up: "map_of u ''updated_at'' = None"
    using ok stored_value_field by (fastforce simp: map_of_eq_None_iff)
  have "last_value (managed_clauses e old u) ''updated_at'' = None"
  proof (cases "map_of u ''status''")
    case (Some v)
    then obtain st where st: "status_text v = Some st" using ty by blast
    show ?thesis unfolding managed_clauses_status[OF Some st nc] by auto
  qed (simp add: managed_clauses_no_status)
  then have "field_value k (f old) = updated_value e old u k" for k
    using f(2)[of k old] managed_last_value[OF ty nc, of k e old] up
    by (cases "k = ''updated_at''")
      (auto simp: updated_value_def last_value_stored_all[OF d] managed_value_def split: option.splits)
  then show ?thesis using that cs(1) f(1,3) by blast
qed

lemma update_refused:
  assumes "(k, v) \<in> set u" "stored_value e k v = None" "field_clauses e u = Inr cs"
  shows "set_columns e (clauses e old u cs) = None"
proof (rule ccontr)
  assume "set_columns e (clauses e old u cs) \<noteq> None"
  then obtain f where "set_columns e (clauses e old u cs) = Some f" by blast
  then show False
    using fields_rejected[OF assms] set_columns_all clauses_include by blast
qed

lemma type_error_acceptable:
  "type_error e u s = None \<longleftrightarrow> (case map_of u ''issue_type'' of
     Some (UString t) \<Rightarrow> type_IsValidWithCustom t (ResolveCustomTypes e s) | _ \<Rightarrow> True)"
  by (auto simp: type_error_def split: option.splits update_value.splits)

lemma update_fails_iff:
  assumes old: "GetIssue s x = Inr old"
    and d: "distinct (map fst u)" and nc: "map_of u ''closed_at'' = None"
    and ty: "\<And>v. map_of u ''status'' = Some v \<Longrightarrow> status_text v \<noteq> None"
  shows "(\<exists>err. updateIssue e x u a ev s = Some (Inl err)) \<longleftrightarrow> \<not> acceptable e u s"
  using old(1)
proof (cases rule: update_cases[of s x old e u a ev])
  case (ok cs f rows n s2)
  have "updateIssue e x u a ev s \<noteq> Some (Inl err)" for err using ok(6) by auto
  moreover have "stored_value e k v \<noteq> None" if "(k, v) \<in> set u" for k v
    using update_refused[OF that _ ok(2), of old] ok(3) by auto
  then have "acceptable e u s" using ok(1) unfolding acceptable_def type_error_acceptable by blast
  ultimately show ?thesis by blast
next
  case (sql_err cs)
  have "\<not> (\<forall>(k, v)\<in>set u. stored_value e k v \<noteq> None)"
  proof
    assume "\<forall>(k, v)\<in>set u. stored_value e k v \<noteq> None"
    then obtain cs' f where "field_clauses e u = Inr cs'" "set_columns e (clauses e old u cs') = Some f"
      using update_values[OF _ d nc ty] by metis
    then show False using sql_err(2,3) by simp
  qed
  then show ?thesis using sql_err(4) unfolding acceptable_def by blast
next
  case (field_err err)
  have "\<not> (\<forall>(k, v)\<in>set u. stored_value e k v \<noteq> None)"
  proof
    assume "\<forall>(k, v)\<in>set u. stored_value e k v \<noteq> None"
    from fields_accepted[OF this] show False using field_err(2) by auto
  qed
  then show ?thesis using field_err(3) unfolding acceptable_def by blast
next
  case (type_err err)
  then have "\<not> acceptable e u s"
    using type_error_acceptable[of e u s] by (auto simp: acceptable_def)
  then show ?thesis using type_err by blast
qed

end
