(* ===== verification/PropsUpdate.thy ===== *)
theory PropsUpdate
  imports UpdateSpec Examples
begin

text \<open>The properties of the generic update of an issue.\<close>



text \<open>
  Closing a pinned child through the generic update leaves the flag of a
  waiter on any child stale: both statuses count as inactive, so nothing is
  recomputed, although a closed child opens the gate and a pinned one does not.
  The dedicated close recomputes, and repairs the flag.
\<close>

definition pinned_child :: db where
  "pinned_child = ex_db [ex_row ''bd-1'' ''open'' False, ex_row ''bd-2'' ''open'' False,
      (ex_row ''bd-3'' ''pinned'' False)\<lparr>Pinned := True\<rparr>, ex_row ''bd-4'' ''open'' True]
     [ex_dep ''bd-2'' ''bd-1'' ''parent-child'' '''', ex_dep ''bd-3'' ''bd-1'' ''parent-child'' '''',
      ex_dep ''bd-4'' ''bd-1'' ''waits-for'' ''any'']"

theorem pinned_close_stale:
  "\<exists>r r' s s'. UpdateIssue ex_env ''bd-3'' [(''status'', UString ''closed'')] ''alice'' pinned_child = Some (Inr (r, s)) \<and>
     CloseIssue ex_env ''bd-3'' '''' ''alice'' '''' pinned_child = Some (Inr (r', s')) \<and>
     CountIsBlockedInconsistencies ex_env pinned_child = 0 \<and>
     CountIsBlockedInconsistencies ex_env s = 1 \<and> CountIsBlockedInconsistencies ex_env s' = 0"
proof -
  have "CountIsBlockedInconsistencies ex_env pinned_child = 0" by code_simp
  moreover have "case UpdateIssue ex_env ''bd-3'' [(''status'', UString ''closed'')] ''alice'' pinned_child of
     Some (Inr (r, s)) \<Rightarrow> CountIsBlockedInconsistencies ex_env s = 1 | _ \<Rightarrow> False"
    by code_simp
  then obtain r s where "UpdateIssue ex_env ''bd-3'' [(''status'', UString ''closed'')] ''alice'' pinned_child = Some (Inr (r, s))"
    "CountIsBlockedInconsistencies ex_env s = 1" by (auto split: option.splits sum.splits)
  moreover have "case CloseIssue ex_env ''bd-3'' '''' ''alice'' '''' pinned_child of
     Some (Inr (r, s)) \<Rightarrow> CountIsBlockedInconsistencies ex_env s = 0 | _ \<Rightarrow> False"
    by code_simp
  then obtain r' s' where "CloseIssue ex_env ''bd-3'' '''' ''alice'' '''' pinned_child = Some (Inr (r', s'))"
    "CountIsBlockedInconsistencies ex_env s' = 0" by (auto split: option.splits sum.splits)
  ultimately show ?thesis by blast
qed

text \<open>
  A successful update named allowed fields only, none of the four
  \<^verbatim>\<open>event_\<close> fields, which the allow-list names but no table has, and a plain
  string for the issue type is a built-in or custom type.
\<close>

theorem update_accepts_only:
  assumes "UpdateIssue e x u a s = Some (Inr (res, s'))"
  shows "(\<forall>p\<in>set u. IsAllowedUpdateField (fst p) \<and>
      fst p \<notin> {''event_category'', ''event_actor'', ''event_target'', ''event_payload''}) \<and>
    (\<forall>t. map_of u ''issue_type'' = Some (UString t) \<longrightarrow> type_IsValidWithCustom t (ResolveCustomTypes e s)) \<and>
    IsAllowedUpdateField ''event_actor''"
proof -
  obtain old where old: "GetIssue s x = Inr old"
    using assms by (auto simp: UpdateIssue_def updateIssue_def Let_def split: sum.splits)
  show ?thesis
    using old
  proof (cases rule: update_cases[of s x old e u a True])
    case (ok cs f rows n s2)
    have "fst p \<notin> {''event_category'', ''event_actor'', ''event_target'', ''event_payload''}" if p: "p \<in> set u" for p
    proof -
      obtain k v where kv: "p = (k, v)" by fastforce
      obtain arg where "(if k = ''wisp'' then ''ephemeral'' else k, arg) \<in> set cs"
        using field_clauses_keys[OF ok(2)] p kv by blast
      then have "column_setter e (if k = ''wisp'' then ''ephemeral'' else k) arg \<noteq> None"
        using set_columns_all[OF ok(3)] clauses_include[of cs e old u] by blast
      then show ?thesis unfolding kv by (auto simp: column_setter_def split: if_splits)
    qed
    moreover have "\<forall>t. map_of u ''issue_type'' = Some (UString t) \<longrightarrow> type_IsValidWithCustom t (ResolveCustomTypes e s)"
      using ok(1) by (auto simp: type_error_def split: if_splits)
    ultimately show ?thesis
      using field_clauses_allowed[OF ok(2)] by (simp add: IsAllowedUpdateField_def)
  qed (use assms in \<open>auto simp: UpdateIssue_def\<close>)
qed

theorem update_accepts_only_witness:
  "\<exists>res s'. UpdateIssue ex_env ''bd-1'' [(''issue_type'', UString ''bug'')] ''amy'' (chain True) = Some (Inr (res, s')) \<and>
     type_IsValidWithCustom ''bug'' (ResolveCustomTypes ex_env (chain True))"
proof -
  have "case UpdateIssue ex_env ''bd-1'' [(''issue_type'', UString ''bug'')] ''amy'' (chain True) of
     Some (Inr (res, s')) \<Rightarrow> True | _ \<Rightarrow> False" by code_simp
  then obtain res s' where u: "UpdateIssue ex_env ''bd-1'' [(''issue_type'', UString ''bug'')] ''amy'' (chain True) = Some (Inr (res, s'))"
    by (auto split: option.splits sum.splits)
  with update_accepts_only[OF u] show ?thesis by simp
qed

end
