(* ===== verification/Ids.thy ===== *)
theory Ids
  imports Config IdGen
begin

text \<open>
  The identifiers the store generates: hash ids of adaptive length, counter ids
  and child ids (\<^verbatim>\<open>helpers.go\<close>, \<^verbatim>\<open>child_id.go\<close> and \<^verbatim>\<open>ParseHierarchicalID\<close> of
  \<^verbatim>\<open>create.go\<close>).  The sequence numbers of SQL are unbounded integers, those of
  Go are 64-bit.
\<close>

subsection \<open>Scanning numbers\<close>

text \<open>Two's complement of 64 bits, the type \<^verbatim>\<open>int\<close> of Go.\<close>

definition int64 :: "int \<Rightarrow> int" where
  "int64 n = (n + 2 ^ 63) mod 2 ^ 64 - 2 ^ 63"

definition in_int64 :: "int \<Rightarrow> bool" where
  "in_int64 n = (- (2 ^ 63) \<le> n \<and> n < 2 ^ 63)"

lemma int64_id [simp]: "in_int64 n \<Longrightarrow> int64 n = n"
  by (simp add: int64_def in_int64_def)

text \<open>An optional sign: whether the number is negative, and the rest.\<close>

fun scan_sign :: "string \<Rightarrow> bool \<times> string" where
  "scan_sign [] = (False, [])"
| "scan_sign (c # s) = (if c = CHR ''-'' then (True, s) else if c = CHR ''+'' then (False, s) else (False, c # s))"

definition signed :: "bool \<Rightarrow> string \<Rightarrow> int option" where
  "signed neg ds =
    (let v = (if neg then - int (read_digits ds) else int (read_digits ds))
     in if in_int64 v then Some v else None)"

text \<open>
  \<^verbatim>\<open>fmt.Sscanf(s, "%d", &num)\<close>: leading white space is skipped (a newline is an
  error), and what follows the digits is ignored.
\<close>

definition Sscanf_d :: "string \<Rightarrow> int option" where
  "Sscanf_d s =
    (if CHR 0x0A \<in> set (takeWhile is_space s) then None
     else let (neg, r) = scan_sign (dropWhile is_space s);
              ds = takeWhile is_digit r
          in if ds = [] then None else signed neg ds)"

text \<open>\<^verbatim>\<open>strconv.Atoi\<close>: the whole text is the number.\<close>

definition Atoi :: "string \<Rightarrow> int option" where
  "Atoi s =
    (let (neg, ds) = scan_sign s
     in if ds = [] \<or> (\<exists>c\<in>set ds. \<not> is_digit c) then None else signed neg ds)"

definition after_last_dot :: "string \<Rightarrow> string" where
  "after_last_dot s = rev (takeWhile (\<lambda>c. c \<noteq> CHR ''.'') (rev s))"

definition ParseHierarchicalID_ops :: "string \<Rightarrow> (string \<times> int) option" where
  "ParseHierarchicalID_ops x =
    (if CHR ''.'' \<notin> set x then None
     else let parentID = before_last_dot x
          in map_option (\<lambda>num. (parentID, num)) (Sscanf_d (after_last_dot x)))"

subsection \<open>LIKE\<close>

text \<open>\<^verbatim>\<open>text LIKE pattern\<close> of SQLite: \<^verbatim>\<open>%\<close> any text, \<^verbatim>\<open>_\<close> any character, ASCII letters without case.\<close>

fun sql_like :: "string \<Rightarrow> string \<Rightarrow> bool" where
  "sql_like [] t = (t = [])"
| "sql_like (p # ps) [] = (p = CHR ''%'' \<and> sql_like ps [])"
| "sql_like (p # ps) (c # t) =
    (if p = CHR ''%'' then sql_like ps (c # t) \<or> sql_like (p # ps) t
     else if p = CHR ''_'' then sql_like ps t
     else lower_char p = lower_char c \<and> sql_like ps t)"

subsection \<open>Child ids\<close>

definition counter_table :: "bool \<Rightarrow> db \<Rightarrow> (string \<times> int) list" where
  "counter_table isWisp s = (if isWisp then t_wisp_child_counters s else t_child_counters s)"

definition set_counter_table :: "bool \<Rightarrow> (string \<times> int) list \<Rightarrow> db \<Rightarrow> db" where
  "set_counter_table isWisp t s =
    (if isWisp then s\<lparr>t_wisp_child_counters := t\<rparr> else s\<lparr>t_child_counters := t\<rparr>)"

text \<open>The running maximum of a loop over ids that skips those without a number.\<close>

definition highest :: "('a \<Rightarrow> int option) \<Rightarrow> 'a list \<Rightarrow> int \<Rightarrow> int" where
  "highest f xs m = fold (\<lambda>x m. case f x of Some n \<Rightarrow> (if n > m then n else m) | None \<Rightarrow> m) xs m"

lemma highest_simps [simp]:
  "highest f [] m = m"
  "highest f (x # xs) m = highest f xs (case f x of Some n \<Rightarrow> (if n > m then n else m) | None \<Rightarrow> m)"
  by (simp_all add: highest_def)

lemma highest_bounds: "m \<le> highest f xs m \<and> (\<forall>x\<in>set xs. \<forall>n. f x = Some n \<longrightarrow> n \<le> highest f xs m)"
proof (induction xs arbitrary: m)
  case (Cons y xs)
  let ?m = "case f y of Some c \<Rightarrow> if c > m then c else m | None \<Rightarrow> m"
  have "m \<le> ?m" "\<forall>n. f y = Some n \<longrightarrow> n \<le> ?m" by (auto split: option.splits)
  with Cons[of ?m] show ?case by (auto dest: order_trans)
qed simp

lemma highest_upper:
  "m \<le> b \<Longrightarrow> (\<And>x n. x \<in> set xs \<Longrightarrow> f x = Some n \<Longrightarrow> n \<le> b) \<Longrightarrow> highest f xs m \<le> b"
proof (induction xs arbitrary: m)
  case (Cons y xs)
  have "(case f y of Some c \<Rightarrow> if c > m then c else m | None \<Rightarrow> m) \<le> b"
    using Cons.prems by (auto split: option.splits)
  from Cons.IH[OF this] show ?case using Cons.prems(2) by (metis highest_simps(2) list.set_intros(2))
qed simp

definition child_number :: "string \<Rightarrow> int option" where
  "child_number x = map_option snd (ParseHierarchicalID_ops x)"

definition GetNextChildID :: "string \<Rightarrow> db \<Rightarrow> string \<times> db" where
  "GetNextChildID parentID s =
    (let isWisp = IsActiveWisp s parentID;
         lastChild = (case map_of (counter_table isWisp s) parentID of None \<Rightarrow> 0 | Some n \<Rightarrow> n);
         children = filter (\<lambda>x. sql_like (parentID @ ''.%'') x \<and> \<not> sql_like (parentID @ ''.%.%'') x)
                      (map ID (issue_table isWisp s));
         nextChild = int64 (highest child_number children lastChild + 1)
     in (parentID @ ''.'' @ show_int nextChild,
         set_counter_table isWisp (AList.update parentID nextChild (counter_table isWisp s)) s))"

subsection \<open>Counter ids\<close>

definition numeric_suffix :: "string \<Rightarrow> string \<Rightarrow> int option" where
  "numeric_suffix pre x =
    (let pfxDash = pre @ ''-'';
         suffix = (if has_prefix x pfxDash then drop (length pfxDash) x else x)
     in if CHR ''.'' \<in> set suffix then None else Atoi suffix)"

definition SeedCounterFromExistingIssues :: "string \<Rightarrow> db \<Rightarrow> db" where
  "SeedCounterFromExistingIssues pre s =
    (case map_of (t_counters s) pre of
       Some existing \<Rightarrow> s
     | None \<Rightarrow>
         let ids = filter (sql_like (pre @ ''-%'')) (map ID (t_issues s));
             maxNum = highest (numeric_suffix pre) ids 0
         in if maxNum > 0 then s\<lparr>t_counters := (pre, maxNum) # t_counters s\<rparr> else s)"

text \<open>\<^verbatim>\<open>UPDATE issue_counter SET last_id = last_id + 1 WHERE prefix = ?\<close>, when it affects a row.\<close>

definition increment_counter :: "string \<Rightarrow> db \<Rightarrow> db option" where
  "increment_counter pre s =
    (case map_of (t_counters s) pre of
       None \<Rightarrow> None
     | Some n \<Rightarrow> Some (s\<lparr>t_counters := AList.update pre (n + 1) (t_counters s)\<rparr>))"

definition NextCounterID :: "string \<Rightarrow> db \<Rightarrow> string \<times> db" where
  "NextCounterID pre s =
    (let s1 = (case increment_counter pre s of
           Some t \<Rightarrow> t
         | None \<Rightarrow>
             let seeded = SeedCounterFromExistingIssues pre s in
             (case increment_counter pre seeded of
                Some t \<Rightarrow> t
              | None \<Rightarrow> seeded\<lparr>t_counters := (pre, 1) # t_counters seeded\<rparr>));
         nextID = (case map_of (t_counters s1) pre of None \<Rightarrow> 0 | Some n \<Rightarrow> n)
     in (pre @ ''-'' @ show_int nextID, s1))"

subsection \<open>Hash ids\<close>

text \<open>\<^verbatim>\<open>MaxCollisionProbability\<close> is the configured text of the number, or the default for \<^verbatim>\<open>None\<close>.\<close>

record adaptive_config =
  MaxCollisionProbability :: "string option"
  MinLength :: int
  MaxLength :: int

definition DefaultAdaptiveConfig :: adaptive_config where
  "DefaultAdaptiveConfig = \<lparr>MaxCollisionProbability = None, MinLength = 3, MaxLength = 8\<rparr>"

definition GetAdaptiveConfig :: "env \<Rightarrow> db \<Rightarrow> adaptive_config" where
  "GetAdaptiveConfig e s =
    (let probStr = GetConfig s ''max_collision_prob'';
         minLenStr = GetConfig s ''min_hash_length'';
         maxLenStr = GetConfig s ''max_hash_length'';
         cfg = DefaultAdaptiveConfig;
         cfg1 = (if probStr \<noteq> '''' \<and> float_ok e probStr then cfg\<lparr>MaxCollisionProbability := Some probStr\<rparr> else cfg);
         cfg2 = (case (if minLenStr \<noteq> '''' then Atoi minLenStr else None) of
                   Some n \<Rightarrow> cfg1\<lparr>MinLength := n\<rparr> | None \<Rightarrow> cfg1)
     in (case (if maxLenStr \<noteq> '''' then Atoi maxLenStr else None) of
           Some n \<Rightarrow> cfg2\<lparr>MaxLength := n\<rparr> | None \<Rightarrow> cfg2))"

text \<open>The test \<^verbatim>\<open>prob <= cfg.MaxCollisionProbability\<close> is \<^verbatim>\<open>collision_ok\<close>.\<close>

definition ComputeAdaptiveLength :: "env \<Rightarrow> int \<Rightarrow> adaptive_config \<Rightarrow> int" where
  "ComputeAdaptiveLength e numIssues cfg =
    (case find (collision_ok e (MaxCollisionProbability cfg) numIssues) [MinLength cfg .. MaxLength cfg] of
       Some len \<Rightarrow> len | None \<Rightarrow> MaxLength cfg)"

definition GetAdaptiveIDLength :: "env \<Rightarrow> bool \<Rightarrow> string \<Rightarrow> db \<Rightarrow> int" where
  "GetAdaptiveIDLength e isWisp pre s =
    (let count = length (filter (\<lambda>x. sql_like (pre @ ''-%'') x \<and> CHR ''.'' \<notin> set (drop (length pre + 1) x))
                   (map ID (issue_table isWisp s)))
     in ComputeAdaptiveLength e (int count) (GetAdaptiveConfig e s))"

text \<open>The candidates in the order of the two loops; a negative length makes the generator panic.\<close>

definition candidates :: "env \<Rightarrow> string \<Rightarrow> 'a issue_scheme \<Rightarrow> string \<Rightarrow> nat \<Rightarrow> string list" where
  "candidates e pre i actor baseLength =
     concat (map (\<lambda>len. map (\<lambda>nonce. GenerateHashID (sha256_Sum e) pre (Title i) (Description i) actor
         (CreatedAt i) len (int nonce)) [0 ..< 10]) [baseLength ..< 9])"

definition GenerateIssueIDInTable ::
  "env \<Rightarrow> bool \<Rightarrow> string \<Rightarrow> 'a issue_scheme \<Rightarrow> string \<Rightarrow> db \<Rightarrow> store_error + (string \<times> db)" where
  "GenerateIssueIDInTable e isWisp pre i actor s =
    (if \<not> isWisp \<and> IsCounterMode s then Inr (NextCounterID pre s)
     else let len = GetAdaptiveIDLength e isWisp pre s;
              baseLength = (if len > 8 then 8 else len)
          in if baseLength < 0 then Inl (OpFailed ''panic: makeslice: cap out of range'')
             else (case find (\<lambda>c. c \<notin> ID ` set (issue_table isWisp s)) (candidates e pre i actor (nat baseLength)) of
                 Some c \<Rightarrow> Inr (c, s)
               | None \<Rightarrow> Inl (OpFailed ''failed to generate unique ID'')))"

end
