(* ===== verification/PropsIds.thy ===== *)
theory PropsIds
  imports Ids Examples
begin

text \<open>The properties of the generated identifiers.\<close>

subsection \<open>Numbers and patterns\<close>

lemma is_digit_not_space: "is_digit c \<Longrightarrow> \<not> is_space c"
  by (auto simp: is_digit_def is_space_def)

lemma scan_show_nat: "scan_sign (show_nat n) = (False, show_nat n)"
proof -
  obtain c s where cs: "show_nat n = c # s" by (metis show_nat_not_Nil neq_Nil_conv)
  have "is_digit c" using show_nat_digits[of n] cs by simp
  then have "c \<noteq> CHR ''-''" "c \<noteq> CHR ''+''" using is_digit_not_special by blast+
  then show ?thesis by (simp add: cs)
qed

lemma takeWhile_digits: "takeWhile is_digit (show_nat n) = show_nat n"
  using show_nat_digits by (simp add: takeWhile_eq_all_conv)

lemma Sscanf_show_nat: "in_int64 (int n) \<Longrightarrow> Sscanf_d (show_nat n) = Some (int n)"
proof -
  assume n: "in_int64 (int n)"
  obtain c s where cs: "show_nat n = c # s" by (metis show_nat_not_Nil neq_Nil_conv)
  have "\<not> is_space c" using show_nat_digits[of n] cs is_digit_not_space by simp
  then have "takeWhile is_space (show_nat n) = []" "dropWhile is_space (show_nat n) = show_nat n"
    by (simp_all add: cs)
  with n show ?thesis
    by (simp add: Sscanf_d_def scan_show_nat takeWhile_digits signed_def Let_def)
qed

lemma after_last_dot_append: "CHR ''.'' \<notin> set t \<Longrightarrow> after_last_dot (p @ CHR ''.'' # t) = t"
proof -
  assume "CHR ''.'' \<notin> set t"
  then have "takeWhile (\<lambda>c. c \<noteq> CHR ''.'') (rev t @ CHR ''.'' # rev p) = rev t"
    by (intro takeWhile_append_stop) auto
  then show ?thesis by (simp add: after_last_dot_def)
qed

lemma parse_child:
  assumes "0 \<le> n" "in_int64 n"
  shows "ParseHierarchicalID_ops (p @ ''.'' @ show_int n) = Some (p, n)"
proof -
  have "show_int n = show_nat (nat n)" using assms(1) by (simp add: show_int_def)
  moreover have "before_last_dot (p @ ''.'' @ show_int n) = p"
    using before_last_dot_child[of p n] by (simp add: GenerateChildID_def)
  ultimately show ?thesis
    using assms after_last_dot_append[OF show_int_no_dot[of n], of p] Sscanf_show_nat[of "nat n"]
    by (simp add: ParseHierarchicalID_ops_def)
qed

lemma like_same: "CHR ''%'' \<notin> set p \<Longrightarrow> sql_like (p @ q) (p @ t) = sql_like q t"
  by (induction p) auto

lemma like_percent: "sql_like ''%'' t"
  by (induction t) auto

lemma lower_dot: "lower_char (CHR ''.'') = lower_char c \<Longrightarrow> c = CHR ''.''"
proof -
  assume "lower_char (CHR ''.'') = lower_char c"
  then have e: "lower_char c = CHR ''.''" by (simp add: lower_char_def Let_def)
  show "c = CHR ''.''"
  proof (rule ccontr)
    assume "c \<noteq> CHR ''.''"
    then have b: "65 \<le> (of_char c :: nat)" "(of_char c :: nat) \<le> 90" "char_of ((of_char c :: nat) + 32) = CHR ''.''"
      using e by (simp_all add: lower_char_def Let_def split: if_splits)
    have "(of_char (char_of ((of_char c :: nat) + 32) :: char) :: nat) = of_char c + 32"
      using b(1,2) by (simp add: of_char_of)
    with b show False by simp
  qed
qed

lemma like_needs_dot: "sql_like (CHR ''%'' # CHR ''.'' # q) t \<Longrightarrow> CHR ''.'' \<in> set t"
proof (induction t)
  case (Cons c t)
  then show ?case using lower_dot[of c] by auto
qed simp

lemma like_child:
  assumes "CHR ''%'' \<notin> set p" "CHR ''.'' \<notin> set t"
  shows "sql_like (p @ ''.%'') (p @ ''.'' @ t)" "\<not> sql_like (p @ ''.%.%'') (p @ ''.'' @ t)"
proof -
  show "sql_like (p @ ''.%'') (p @ ''.'' @ t)" using like_same[OF assms(1)] by (simp add: like_percent)
  have "\<not> sql_like ''%.%'' t" using like_needs_dot assms(2) by blast
  then show "\<not> sql_like (p @ ''.%.%'') (p @ ''.'' @ t)" using like_same[OF assms(1)] by simp
qed

lemma counter_table_simps [simp]:
  "counter_table w (set_counter_table w t s) = t"
  "issue_table v (set_counter_table w t s) = issue_table v s"
  by (simp_all add: counter_table_def set_counter_table_def issue_table_def)

text \<open>
  (C35) The next child id of a parent whose id has no percent sign is an id no row
  of the parent's table has; its number is above the counter and above every
  existing child, the counter takes that number, and asking again gives a higher
  one, as long as the 64-bit numbers do not overflow.
\<close>

theorem next_child_id_fresh:
  fixes parentID :: string and s :: db
  defines "w \<equiv> IsActiveWisp s parentID"
  assumes "CHR ''%'' \<notin> set parentID"
    and cnt: "\<And>n. map_of (counter_table w s) parentID = Some n \<Longrightarrow> 0 \<le> n \<and> n < 2 ^ 63 - 2"
    and kids: "\<And>i p n. i \<in> set (issue_table w s) \<Longrightarrow> ParseHierarchicalID_ops (ID i) = Some (p, n) \<Longrightarrow> n < 2 ^ 63 - 2"
  shows "\<exists>n s'. GetNextChildID parentID s = (GenerateChildID parentID n, s') \<and>
     GenerateChildID parentID n \<notin> ID ` set (issue_table w s) \<and> 0 < n \<and>
     map_of (counter_table w s') parentID = Some n \<and>
     (\<forall>m. map_of (counter_table w s) parentID = Some m \<longrightarrow> m < n) \<and>
     (\<exists>k>n. fst (GetNextChildID parentID s') = GenerateChildID parentID k)"
proof -
  define kids where "kids = filter (\<lambda>x. sql_like (parentID @ ''.%'') x \<and> \<not> sql_like (parentID @ ''.%.%'') x)
      (map ID (issue_table w s))"
  define c where "c = (case map_of (counter_table w s) parentID of None \<Rightarrow> 0 | Some n \<Rightarrow> n)"
  define n where "n = highest child_number kids c + 1"
  define s' where "s' = set_counter_table w (AList.update parentID n (counter_table w s)) s"
  have c: "0 \<le> c" "c < 2 ^ 63 - 2" using cnt by (auto simp: c_def split: option.splits)
  have k: "m \<le> 2 ^ 63 - 3" if "x \<in> set kids" "ParseHierarchicalID_ops x = Some (p, m)" for x p m
    using that kids by (fastforce simp: kids_def)
  have up: "highest child_number kids c \<le> 2 ^ 63 - 3" 
  proof (rule highest_upper)
    show "c \<le> 2 ^ 63 - 3" using c by simp
    show "m \<le> 2 ^ 63 - 3" if "x \<in> set kids" "child_number x = Some m" for x m
      using that k by (cases "ParseHierarchicalID_ops x") (auto simp: child_number_def)
  qed
  have lo: "c \<le> highest child_number kids c" using highest_bounds[of c child_number kids] by blast
  have n: "0 < n" "c < n" "n \<le> 2 ^ 63 - 2" using up lo c(1) by (simp_all add: n_def)
  have i64: "in_int64 n" "in_int64 (n + 1)" using n by (simp_all add: in_int64_def)
  have g: "GetNextChildID parentID s = (GenerateChildID parentID n, s')"
    using i64(1) by (simp add: GetNextChildID_def GenerateChildID_def Let_def flip: w_def kids_def c_def n_def s'_def)
  have fresh: "GenerateChildID parentID n \<notin> ID ` set (issue_table w s)"
  proof
    assume "GenerateChildID parentID n \<in> ID ` set (issue_table w s)"
    then have "GenerateChildID parentID n \<in> set kids"
      using like_child[OF assms(2) show_int_no_dot[of n]] by (auto simp: kids_def GenerateChildID_def)
    moreover have "ParseHierarchicalID_ops (GenerateChildID parentID n) = Some (parentID, n)"
      using parse_child[of n parentID] n(1) i64(1) by (simp add: GenerateChildID_def)
    then have "child_number (GenerateChildID parentID n) = Some n" by (simp add: child_number_def)
    ultimately have "n \<le> highest child_number kids c" using highest_bounds[of c child_number kids] by blast
    then show False by (simp add: n_def)
  qed
  have w': "IsActiveWisp s' parentID = w" by (simp add: s'_def w_def IsActiveWisp_table)
  have it: "issue_table w s' = issue_table w s" by (simp add: s'_def)
  have m: "map_of (counter_table w s') parentID = Some n" by (simp add: s'_def update_conv')
  have "highest child_number kids n = n"
    using highest_bounds[of n child_number kids] highest_bounds[of c child_number kids]
      highest_upper[of n n kids child_number] by (fastforce simp: n_def)
  moreover have "GetNextChildID parentID s' = (GenerateChildID parentID (int64 (highest child_number kids n + 1)),
      set_counter_table w (AList.update parentID (int64 (highest child_number kids n + 1)) (counter_table w s')) s')"
    by (simp add: GetNextChildID_def GenerateChildID_def w' m it Let_def flip: kids_def)
  ultimately have "fst (GetNextChildID parentID s') = GenerateChildID parentID (n + 1)"
    using i64(2) by simp
  with g fresh n m c_def show ?thesis by (auto intro!: exI[of _ n] exI[of _ "n + 1"])
qed

theorem next_child_id_fresh_witness:
  "\<exists>n s'. GetNextChildID ''bd-1'' (ex_db [ex_row ''bd-1'' ''open'' False, ex_row ''bd-1.3'' ''open'' False] []) =
       (GenerateChildID ''bd-1'' n, s') \<and> GenerateChildID ''bd-1'' n \<notin> {''bd-1'', ''bd-1.3''}"
proof -
  let ?s = "ex_db [ex_row ''bd-1'' ''open'' False, ex_row ''bd-1.3'' ''open'' False] []"
  have t: "map_of (counter_table False ?s) ''bd-1'' = None" "ID ` set (issue_table False ?s) = {''bd-1'', ''bd-1.3''}"
    by (simp_all add: counter_table_def)
  have "show_int 3 = ''3''" by code_simp
  then have p: "ParseHierarchicalID_ops ''bd-1'' = None" "ParseHierarchicalID_ops ''bd-1.3'' = Some (''bd-1'', 3)"
    using parse_child[of 3 "''bd-1''"] by (simp_all add: in_int64_def ParseHierarchicalID_ops_def)
  have k: "n < 2 ^ 63 - 2" if "i \<in> set (issue_table False ?s)" "ParseHierarchicalID_ops (ID i) = Some (q, n)" for i q n
  proof -
    have "ID i \<in> {''bd-1'', ''bd-1.3''}" using that(1) t(2) by blast
    then show ?thesis using that(2) p by auto
  qed
  show ?thesis
    using next_child_id_fresh[of "''bd-1''" ?s] t k by force
qed

lemma find_mem: "find P xs = Some x \<Longrightarrow> x \<in> set xs \<and> P x"
  by (induction xs) (auto split: if_splits)

lemma candidates_elim:
  "x \<in> set (candidates e pre i actor b) \<Longrightarrow> \<exists>len nonce. len < 9 \<and>
   x = GenerateHashID (sha256_Sum e) pre (Title i) (Description i) actor (CreatedAt i) len nonce"
  unfolding candidates_def set_concat set_map set_upt image_image
  by (elim UN_E imageE) (intro exI conjI, auto)

lemma candidates_mem:
  "b \<le> len \<Longrightarrow> len < 9 \<Longrightarrow> nonce < 10 \<Longrightarrow>
   GenerateHashID (sha256_Sum e) pre (Title i) (Description i) actor (CreatedAt i) len (int nonce)
     \<in> set (candidates e pre i actor b)"
  unfolding candidates_def set_concat set_map set_upt image_image
  by (rule UN_I[of len]) auto

text \<open>
  Outside counter mode a generated id is a new one in its table: the prefix, a
  dash and at most eight base-36 digits; nothing is written.
\<close>

theorem generated_id_fresh:
  assumes "GenerateIssueIDInTable e w pre i actor s = Inr (x, s')" "w \<or> \<not> IsCounterMode s"
  shows "s' = s \<and> x \<notin> ID ` set (issue_table w s) \<and>
    (\<exists>h. x = pre @ ''-'' @ h \<and> length h \<le> 8 \<and> set h \<subseteq> set base36Alphabet)"
proof -
  define len where "len = GetAdaptiveIDLength e w pre s"
  define b where "b = nat (if len > 8 then 8 else len)"
  define P where "P = (\<lambda>c. c \<notin> ID ` set (issue_table w s))"
  have "(\<not> w \<and> IsCounterMode s) = False" using assms(2) by blast
  then have "GenerateIssueIDInTable e w pre i actor s =
      (if (if len > 8 then 8 else len) < 0 then Inl (OpFailed ''panic: makeslice: cap out of range'')
       else (case find P (candidates e pre i actor b) of
           Some c \<Rightarrow> Inr (c, s) | None \<Rightarrow> Inl (OpFailed ''failed to generate unique ID'')))"
    unfolding GenerateIssueIDInTable_def b_def len_def P_def Let_def by (simp only: if_False)
  then have "find P (candidates e pre i actor b) = Some x \<and> s' = s"
    using assms(1) by (cases "find P (candidates e pre i actor b)") (simp_all split: if_splits)
  then have f: "find P (candidates e pre i actor b) = Some x" and s: "s' = s" by simp_all
  have x: "x \<in> set (candidates e pre i actor b)" "x \<notin> ID ` set (issue_table w s)"
    using find_mem[OF f] by (simp_all add: P_def)
  from candidates_elim[OF x(1)] obtain len nonce where "len < 9" and
    x': "x = GenerateHashID (sha256_Sum e) pre (Title i) (Description i) actor (CreatedAt i) len nonce"
    by (elim exE conjE)
  have "\<exists>d. x = pre @ ''-'' @ EncodeBase36 d len" unfolding x' GenerateHashID_def Let_def by (rule exI, rule refl)
  then obtain d where "x = pre @ ''-'' @ EncodeBase36 d len" by blast
  moreover have "length (EncodeBase36 d len) \<le> 8" "set (EncodeBase36 d len) \<subseteq> set base36Alphabet"
    using \<open>len < 9\<close> by (simp_all add: length_EncodeBase36 set_EncodeBase36)
  ultimately show ?thesis using s x(2) by (intro conjI exI[of _ "EncodeBase36 d len"])
qed

theorem generated_id_fresh_witness:
  "\<exists>x h. GenerateIssueIDInTable ex_env False ''bd'' (ex_row '''' ''open'' False) ''amy'' (chain True) = Inr (x, chain True) \<and>
     x \<notin> ID ` set (issue_table False (chain True)) \<and> x = ''bd-'' @ h \<and> length h \<le> 8"
proof -
  let ?i = "ex_row '''' ''open'' False"
  have c: "False \<or> \<not> IsCounterMode (chain True)" by code_simp
  have len: "GetAdaptiveIDLength ex_env False ''bd'' (chain True) = 3" by code_simp
  have ids: "ID ` set (issue_table False (chain True)) = {''bd-1'', ''bd-2'', ''bd-3''}" by (simp add: chain_def)
  let ?c = "GenerateHashID (sha256_Sum ex_env) ''bd'' (Title ?i) (Description ?i) ''amy'' (CreatedAt ?i) 3 (int 0)"
  have "length ?c = 6" by (simp add: GenerateHashID_def Let_def length_EncodeBase36)
  then have n: "?c \<notin> ID ` set (issue_table False (chain True))" unfolding ids by auto
  have "?c \<in> set (candidates ex_env ''bd'' ?i ''amy'' 3)" by (rule candidates_mem) simp_all
  then have "find (\<lambda>c. c \<notin> ID ` set (issue_table False (chain True))) (candidates ex_env ''bd'' ?i ''amy'' 3) \<noteq> None"
    using n unfolding find_None_iff by blast
  then have "is_ok (GenerateIssueIDInTable ex_env False ''bd'' ?i ''amy'' (chain True))"
    using c len by (auto simp: GenerateIssueIDInTable_def Let_def)
  then obtain x s' where g: "GenerateIssueIDInTable ex_env False ''bd'' ?i ''amy'' (chain True) = Inr (x, s')"
    by (auto simp: is_ok_iff)
  note p = generated_id_fresh[OF g c]
  then obtain h where "x = ''bd'' @ ''-'' @ h" "length h \<le> 8" by blast
  moreover have "''bd'' @ ''-'' @ h = ''bd-'' @ h" by simp
  ultimately show ?thesis using g p by (intro exI[of _ x] exI[of _ h]) simp
qed

subsection \<open>Counter mode\<close>

lemma Atoi_show_nat: "in_int64 (int n) \<Longrightarrow> Atoi (show_nat n) = Some (int n)"
  using show_nat_digits[of n] by (auto simp: Atoi_def scan_show_nat signed_def Let_def)

lemma numeric_suffix_show:
  "in_int64 (int n) \<Longrightarrow> numeric_suffix pre (pre @ ''-'' @ show_nat n) = Some (int n)"
  using show_nat_no_dot[of n] by (simp add: numeric_suffix_def has_prefix_def Atoi_show_nat Let_def)

lemma counter_increment:
  "increment_counter pre s = Some t \<Longrightarrow>
   \<exists>n. map_of (t_counters s) pre = Some n \<and> map_of (t_counters t) pre = Some (n + 1) \<and> issue_table w t = issue_table w s"
  by (auto simp: increment_counter_def update_conv' issue_table_def split: option.splits)

text \<open>
  In counter mode every id is the prefix with the next number, which the counter
  takes: later ids are greater.  The first id after seeding is above every numeric
  id of the prefix, so it is new; later ones are not checked against the table.
\<close>

theorem counter_ids_increase:
  assumes "CHR ''%'' \<notin> set pre"
  shows "\<exists>n s'. NextCounterID pre s = (pre @ ''-'' @ show_int n, s') \<and> map_of (t_counters s') pre = Some n \<and>
    (\<forall>m. map_of (t_counters s) pre = Some m \<longrightarrow> n = m + 1) \<and>
    fst (NextCounterID pre s') = pre @ ''-'' @ show_int (n + 1) \<and>
    (map_of (t_counters s) pre = None \<and> in_int64 n \<longrightarrow> pre @ ''-'' @ show_int n \<notin> ID ` set (t_issues s))"
proof (cases "map_of (t_counters s) pre")
  case (Some m)
  then show ?thesis by (auto simp: NextCounterID_def increment_counter_def update_conv' Let_def)
next
  case None
  define ids where "ids = filter (sql_like (pre @ ''-%'')) (map ID (t_issues s))"
  define k where "k = highest (numeric_suffix pre) ids 0"
  have k0: "0 \<le> k" using highest_bounds[of 0 "numeric_suffix pre" ids] unfolding k_def by blast
  have seed: "SeedCounterFromExistingIssues pre s = (if k > 0 then s\<lparr>t_counters := (pre, k) # t_counters s\<rparr> else s)"
    using None by (simp add: SeedCounterFromExistingIssues_def Let_def flip: ids_def k_def)
  define s' where "s' = (if k > 0 then s\<lparr>t_counters := AList.update pre (k + 1) ((pre, k) # t_counters s)\<rparr>
     else s\<lparr>t_counters := (pre, 1) # t_counters s\<rparr>)"
  have m: "map_of (t_counters s') pre = Some (k + 1)"
    using k0 by (simp add: s'_def update_conv')
  have n: "NextCounterID pre s = (pre @ ''-'' @ show_int (k + 1), s')"
    using None m by (auto simp: NextCounterID_def increment_counter_def seed s'_def Let_def)
  have "pre @ ''-'' @ show_int (k + 1) \<notin> ID ` set (t_issues s)" if i: "in_int64 (k + 1)"
  proof
    assume a: "pre @ ''-'' @ show_int (k + 1) \<in> ID ` set (t_issues s)"
    have "sql_like (pre @ ''-%'') (pre @ ''-'' @ show_int (k + 1))"
      using like_same[OF assms] by (simp add: like_percent)
    then have "pre @ ''-'' @ show_int (k + 1) \<in> set ids" using a by (auto simp: ids_def)
    moreover have "numeric_suffix pre (pre @ ''-'' @ show_int (k + 1)) = Some (k + 1)"
      using numeric_suffix_show[of "nat (k + 1)" pre] i k0 by (simp add: show_int_def)
    ultimately have "k + 1 \<le> k" using highest_bounds[of 0 "numeric_suffix pre" ids] unfolding k_def by blast
    then show False by simp
  qed
  moreover have "fst (NextCounterID pre s') = pre @ ''-'' @ show_int (k + 1 + 1)"
    using m by (simp add: NextCounterID_def increment_counter_def update_conv' Let_def)
  ultimately show ?thesis using n m None by (intro exI[of _ "k + 1"] exI[of _ s']) simp
qed

theorem counter_ids_increase_witness:
  "\<exists>n s'. NextCounterID ''bd'' (chain True) = (''bd'' @ ''-'' @ show_int n, s') \<and>
     fst (NextCounterID ''bd'' s') = ''bd'' @ ''-'' @ show_int (n + 1)"
proof -
  have "CHR ''%'' \<notin> set ''bd''" by simp
  from counter_ids_increase[OF this, of "chain True"] obtain n s' where
    "NextCounterID ''bd'' (chain True) = (''bd'' @ ''-'' @ show_int n, s')"
    "fst (NextCounterID ''bd'' s') = ''bd'' @ ''-'' @ show_int (n + 1)" by (elim exE conjE)
  then show ?thesis by (intro exI conjI)
qed

end
