(* ===== verification/Create.thy ===== *)
theory Create
  imports Deps Ids ContentHash
begin

text \<open>
  Creating issues (\<^verbatim>\<open>internal/storage/issueops/create.go\<close> and the insert of
  \<^verbatim>\<open>helpers.go\<close>): preparation and validation, the id, the orphan check, the
  guarded upsert, labels, comments, dependencies, child counters and the
  recompute of the blocked flags.

  A pointer to an issue that the code fills in is an issue that the operation
  returns.  Nil issues and nil dependencies are not modelled.  The metadata
  schema of the configuration is the predicate \<^verbatim>\<open>metadata_violation\<close>.
\<close>

text \<open>\<^verbatim>\<open>time.Time{}\<close> as nanoseconds from the epoch.\<close>

definition zero_time :: time where
  "zero_time = - (62135596800 * 10 ^ 9)"

definition second :: int where
  "second = 10 ^ 9"

record batch_opts =
  OrphanHandling :: string
  SkipPrefixValidation :: bool
  ConflictSkip :: bool
  RejectStaleUpserts :: bool
  SkipDependencyValidationErrors :: bool

definition default_batch_opts :: batch_opts where
  "default_batch_opts = \<lparr>OrphanHandling = '''', SkipPrefixValidation = False, ConflictSkip = False,
     RejectStaleUpserts = False, SkipDependencyValidationErrors = False\<rparr>"

record batch_context =
  CustomStatuses :: "string list"
  CustomTypes :: "string list"
  ConfigPrefix :: string
  AllowedPrefixes :: string
  Opts :: batch_opts

definition NewBatchContext :: "env \<Rightarrow> batch_opts \<Rightarrow> db \<Rightarrow> store_error + batch_context" where
  "NewBatchContext e opts s =
    (let customStatuses = GetCustomStatuses e s;
         customTypes = ResolveCustomTypes e s
     in bind_res (ReadConfigPrefix s) (\<lambda>configPrefix.
       Inr \<lparr>CustomStatuses = customStatuses, CustomTypes = customTypes, ConfigPrefix = configPrefix,
         AllowedPrefixes = GetConfig s ''allowed_prefixes'', Opts = opts\<rparr>))"

definition IsWisp :: "'a issue_scheme \<Rightarrow> bool" where
  "IsWisp i = (Ephemeral i \<or> NoHistory i)"

definition AllWisps :: "issue list \<Rightarrow> bool" where
  "AllWisps issues = (\<forall>i\<in>set issues. Ephemeral i \<or> NoHistory i)"

subsection \<open>Preparation\<close>

definition PrepareIssueForInsert ::
  "env \<Rightarrow> string list \<Rightarrow> string list \<Rightarrow> issue \<Rightarrow> store_error + issue" where
  "PrepareIssueForInsert e customStatuses customTypes i =
    (if metadata_violation e (Metadata i) then Inl InvalidMetadata
     else
       (let i1 = (if CreatedAt i = zero_time then i\<lparr>CreatedAt := now e\<rparr> else i);
            i2 = (if UpdatedAt i1 = zero_time then i1\<lparr>UpdatedAt := now e\<rparr> else i1);
            i3 = (if Status i2 = StatusClosed \<and> ClosedAt i2 = None
                  then i2\<lparr>ClosedAt := Some ((if UpdatedAt i2 > CreatedAt i2 then UpdatedAt i2 else CreatedAt i2) + second)\<rparr>
                  else i2)
        in (case ValidateWithCustom (json_ok e) customStatuses customTypes i3 of
              Inl err \<Rightarrow> Inl (Validation err)
            | Inr u \<Rightarrow> Inr (if ContentHash i3 = '''' then i3\<lparr>ContentHash := ComputeContentHash (sha256_Sum e) i3\<rparr> else i3))))"

definition ValidateIssueIDPrefix :: "string \<Rightarrow> string \<Rightarrow> string \<Rightarrow> store_error + unit" where
  "ValidateIssueIDPrefix x pre allowedPrefixes =
    (if has_prefix x (pre @ ''-'') then Inr ()
     else if allowedPrefixes \<noteq> '''' \<and>
       (\<exists>allowed\<in>set (map trim_space (split_on (CHR '','') allowedPrefixes)).
          allowed \<noteq> '''' \<and> has_prefix x (allowed @ ''-'')) then Inr ()
     else Inl (PrefixMismatch x pre))"

definition id_prefix :: "batch_context \<Rightarrow> issue \<Rightarrow> string" where
  "id_prefix bc i =
    (if PrefixOverride i \<noteq> '''' then PrefixOverride i
     else if IDPrefix i \<noteq> '''' then ConfigPrefix bc @ ''-'' @ IDPrefix i
     else if IsWisp i then ConfigPrefix bc @ ''-wisp''
     else ConfigPrefix bc)"

definition assign_id :: "env \<Rightarrow> batch_context \<Rightarrow> issue \<Rightarrow> string \<Rightarrow> db \<Rightarrow> store_error + (issue \<times> db)" where
  "assign_id e bc i actor s =
    (if ID i = '''' then
       bind_res (GenerateIssueIDInTable e (IsWisp i) (id_prefix bc i) i actor s)
         (\<lambda>(x, s1). Inr (i\<lparr>ID := x\<rparr>, s1))
     else if \<not> SkipPrefixValidation (Opts bc) then
       bind_res (ValidateIssueIDPrefix (ID i) (ConfigPrefix bc) (AllowedPrefixes bc)) (\<lambda>u. Inr (i, s))
     else Inr (i, s))"

text \<open>Whether the issue is skipped, or an error in strict mode.\<close>

definition CheckOrphan :: "issue \<Rightarrow> bool \<Rightarrow> string \<Rightarrow> db \<Rightarrow> store_error + bool" where
  "CheckOrphan i isWisp handling s =
    (if ID i = '''' then Inr False
     else case ParseHierarchicalID_ops (ID i) of
       None \<Rightarrow> Inr False
     | Some (parentID, _) \<Rightarrow>
         if parentID \<in> ID ` set (issue_table isWisp s) then Inr False
         else if handling = ''strict'' then Inl (MissingParent parentID)
         else Inr (handling = ''skip''))"

subsection \<open>The row\<close>

definition JSONMetadata :: "env \<Rightarrow> string \<Rightarrow> string" where
  "JSONMetadata e m = (if m = '''' then ''{}'' else if \<not> json_ok e m then ''{}'' else m)"

definition FormatJSONStringArray :: "env \<Rightarrow> string list \<Rightarrow> string" where
  "FormatJSONStringArray e arr = (if arr = [] then '''' else marshal_value e (UStrings arr))"

text \<open>
  The inserted row, as a later SELECT reads it: columns that the statement does
  not name have their defaults, fields without a column are empty.
\<close>

definition new_row :: "env \<Rightarrow> issue \<Rightarrow> issue_row" where
  "new_row e i = issue.extend
     (i\<lparr>ClosedBySession := '''', LeaseExpiresAt := None, HeartbeatAt := None,
        Metadata := (let m = JSONMetadata e (Metadata i) in if m = ''{}'' then '''' else m),
        Waiters := ParseJSONStringArray e (FormatJSONStringArray e (Waiters i)),
        IDPrefix := '''', PrefixOverride := '''', Labels := [], Dependencies := [], Comments := [],
        BondedFrom := [], SourceFormula := '''', SourceLocation := ''''\<rparr>)
     \<lparr>IsBlocked = False, RowLock = 0, AssigneeNull = (Assignee i = '''')\<rparr>"

text \<open>\<^verbatim>\<open>issueUpsertColumns\<close>, assigned from the row that conflicts.\<close>

definition upsert_columns :: "issue_row \<Rightarrow> issue_row \<Rightarrow> issue_row" where
  "upsert_columns excluded r = r\<lparr>ContentHash := ContentHash excluded, Title := Title excluded,
     Description := Description excluded, Design := Design excluded,
     AcceptanceCriteria := AcceptanceCriteria excluded, Notes := Notes excluded,
     Status := Status excluded, Priority := Priority excluded, IssueType := IssueType excluded,
     Assignee := Assignee excluded, AssigneeNull := AssigneeNull excluded,
     EstimatedMinutes := EstimatedMinutes excluded, StartedAt := StartedAt excluded,
     ClosedAt := ClosedAt excluded, ExternalRef := ExternalRef excluded,
     SourceRepo := SourceRepo excluded, CloseReason := CloseReason excluded,
     Metadata := Metadata excluded, UpdatedAt := UpdatedAt excluded\<rparr>"

definition issueUpsertAssignments :: "bool \<Rightarrow> issue_row \<Rightarrow> issue_row \<Rightarrow> issue_row" where
  "issueUpsertAssignments rejectStaleUpdate excluded r =
    (if rejectStaleUpdate then (if UpdatedAt excluded > UpdatedAt r then upsert_columns excluded r else r)
     else upsert_columns excluded r)"

definition insertIssueIntoTable :: "env \<Rightarrow> bool \<Rightarrow> issue \<Rightarrow> bool \<Rightarrow> db \<Rightarrow> db" where
  "insertIssueIntoTable e isWisp i rejectStaleUpdate s =
    (let row = new_row e i; rows = issue_table isWisp s in
     if ID i \<in> ID ` set rows
     then set_issue_table isWisp (map (\<lambda>r. if ID r = ID i then issueUpsertAssignments rejectStaleUpdate row r else r) rows) s
     else set_issue_table isWisp (rows @ [row]) s)"

text \<open>\<^verbatim>\<open>(isNew, staleRejected)\<close> and the database.\<close>

definition InsertIssueIfNew :: "env \<Rightarrow> bool \<Rightarrow> issue \<Rightarrow> batch_opts \<Rightarrow> db \<Rightarrow> bool \<times> bool \<times> db" where
  "InsertIssueIfNew e isWisp i opts s =
    (let existingCount = (if ID i \<noteq> '''' then length (filter (\<lambda>r. ID r = ID i) (issue_table isWisp s)) else 0)
     in if ConflictSkip opts \<and> existingCount > 0 then (False, False, s)
        else if RejectStaleUpserts opts \<and> existingCount > 0 \<and>
          (\<exists>r\<in>set (issue_table isWisp s). ID r = ID i \<and> UpdatedAt r > UpdatedAt i)
        then (False, True, s)
        else (existingCount = 0, False, insertIssueIntoTable e isWisp i (RejectStaleUpserts opts) s))"

subsection \<open>Labels and comments\<close>

definition label_event :: "string \<Rightarrow> string \<Rightarrow> string \<Rightarrow> event" where
  "label_event x actor label = \<lparr>ev_issue = x, ev_type = ''label_added'', ev_actor = actor, ev_old = '''',
     ev_new = '''', ev_comment = ''Added label: '' @ label\<rparr>"

definition persist_label :: "issue \<Rightarrow> string \<Rightarrow> string \<Rightarrow> bool \<times> db \<Rightarrow> bool \<times> db" where
  "persist_label i actor label st =
    (let (changed, s) = st; w = IsWisp i in
     if (ID i, label) \<in> set (label_table w s) then (changed, s)
     else (True, set_event_table w (event_table w s @ [label_event (ID i) actor label])
             (set_label_table w (label_table w s @ [(ID i, label)]) s)))"

definition PersistLabels :: "issue \<Rightarrow> string \<Rightarrow> db \<Rightarrow> bool \<times> db" where
  "PersistLabels i actor s = fold (persist_label i actor) (dedup_from [] (Labels i)) (False, s)"

definition comment_table :: "bool \<Rightarrow> db \<Rightarrow> comment list" where
  "comment_table isWisp s = (if isWisp then t_wisp_comments s else t_comments s)"

definition set_comment_table :: "bool \<Rightarrow> comment list \<Rightarrow> db \<Rightarrow> db" where
  "set_comment_table isWisp cs s = (if isWisp then s\<lparr>t_wisp_comments := cs\<rparr> else s\<lparr>t_comments := cs\<rparr>)"

definition persist_comment :: "env \<Rightarrow> issue \<Rightarrow> comment \<Rightarrow> bool \<times> db \<Rightarrow> store_error + (bool \<times> db)" where
  "persist_comment e i c st =
    (let (changed, s) = st; w = IsWisp i;
         createdAt = (if CommentCreatedAt c = zero_time then now e else CommentCreatedAt c)
     in if \<exists>d\<in>set (comment_table w s). CommentIssueID d = ID i \<and> Author d = Author c \<and>
            CommentCreatedAt d = createdAt \<and> CommentText d = CommentText c
        then Inr (changed, s)
        else (let commentID = (if CommentID c = '''' then new_uuid e (CommentText c) else CommentID c) in
          if commentID \<in> CommentID ` set (comment_table w s)
          then Inl (OpFailed ''failed to insert comment'')
          else Inr (True, set_comment_table w (comment_table w s @
            [\<lparr>CommentID = commentID, CommentIssueID = ID i, Author = Author c, CommentText = CommentText c,
              CommentCreatedAt = createdAt\<rparr>]) s)))"

definition PersistComments :: "env \<Rightarrow> issue \<Rightarrow> db \<Rightarrow> store_error + (bool \<times> db)" where
  "PersistComments e i s = fold_res (persist_comment e i) (Comments i) (False, s)"

subsection \<open>One issue\<close>

definition table_name :: "bool \<Rightarrow> string" where
  "table_name isWisp = (if isWisp then ''wisps'' else ''issues'')"

definition aux_name :: "bool \<Rightarrow> string \<Rightarrow> string" where
  "aux_name isWisp t = (if isWisp then ''wisp_'' @ t else t)"

record create_result =
  ChangedTables :: "string set"
  StaleRejected :: bool

definition no_change :: create_result where
  "no_change = \<lparr>ChangedTables = {}, StaleRejected = False\<rparr>"

definition RecordEventInTable :: "bool \<Rightarrow> string \<Rightarrow> string \<Rightarrow> string \<Rightarrow> string \<Rightarrow> db \<Rightarrow> db" where
  "RecordEventInTable isWisp issueID eventType actor newValue s =
     RecordFullEvent isWisp issueID eventType actor '''' newValue s"

definition CreateIssueInTxWithResult ::
  "env \<Rightarrow> batch_context \<Rightarrow> issue \<Rightarrow> string \<Rightarrow> db \<Rightarrow> store_error + (create_result \<times> issue \<times> db)" where
  "CreateIssueInTxWithResult e bc i actor s =
    bind_res (PrepareIssueForInsert e (CustomStatuses bc) (CustomTypes bc) i) (\<lambda>i1.
    (let w = IsWisp i1 in
    bind_res (assign_id e bc i1 actor s) (\<lambda>(i2, s1).
    bind_res (CheckOrphan i2 w (OrphanHandling (Opts bc)) s1) (\<lambda>skip.
      if skip then Inr (no_change, i2, s1)
      else
       (let (isNew, stale, s2) = InsertIssueIfNew e w i2 (Opts bc) s1
        in if stale then Inr (\<lparr>ChangedTables = {}, StaleRejected = True\<rparr>, i2, s2)
           else
            (let s3 = (if isNew then RecordEventInTable w (ID i2) ''created'' actor '''' s2 else s2);
                 t3 = (if isNew then {table_name w, aux_name w ''events''} else {table_name w});
                 (labelled, s4) = PersistLabels i2 actor s3;
                 t4 = (if labelled then t3 \<union> {aux_name w ''labels'', aux_name w ''events''} else t3)
             in bind_res (PersistComments e i2 s4) (\<lambda>(commented, s5).
               Inr (\<lparr>ChangedTables = (if commented then t4 \<union> {aux_name w ''comments''} else t4),
                      StaleRejected = False\<rparr>, i2, s5))))))))"

subsection \<open>Dependencies of a batch\<close>

definition dep_source :: "issue \<Rightarrow> dependency \<Rightarrow> string" where
  "dep_source i dep = (if IssueID dep = '''' then ID i else IssueID dep)"

text \<open>
  The UNIQUE constraints on the source and a target column are those of rows with
  another id: a row with the same id is the conflict that does nothing.
\<close>

definition insert_dep_row :: "bool \<Rightarrow> dep_row \<Rightarrow> db \<Rightarrow> store_error + (bool \<times> db)" where
  "insert_dep_row w row s =
    (if dep_id row \<in> dep_id ` set (dep_table w s) then Inr (False, s)
     else if \<exists>d\<in>set (dep_table w s). issue_id d = issue_id row \<and>
         depends_on_issue_id d = depends_on_issue_id row \<and> depends_on_wisp_id d = depends_on_wisp_id row \<and>
         depends_on_external d = depends_on_external row
     then Inl (OpFailed ''failed to insert dependency'')
     else Inr (True, set_dep_table w (dep_table w s @ [row]) s))"

text \<open>The state of the loop: tables changed, edges skipped, the database.\<close>

type_synonym batch_state = "string set \<times> (string \<times> string) list \<times> db"

definition dependencyCreatedBy :: "dependency \<Rightarrow> string \<Rightarrow> string" where
  "dependencyCreatedBy dep actor = (if DepCreatedBy dep \<noteq> '''' then DepCreatedBy dep else actor)"

definition persist_dep ::
  "env \<Rightarrow> string \<Rightarrow> batch_opts \<Rightarrow> issue \<Rightarrow> dependency \<Rightarrow> batch_state \<Rightarrow> store_error + batch_state" where
  "persist_dep e actor opts i dep0 st =
    (let (changed, skipped, s) = st;
         w = IsWisp i;
         dep = dep0\<lparr>IssueID := dep_source i dep0\<rparr>;
         edge = (IssueID dep, DependsOnID dep);
         kind = ClassifyDepTarget s dep False
     in if kind \<noteq> DepTargetExternal \<and>
           DependsOnID dep \<notin> ID ` set (issue_table (kind = DepTargetWisp) s)
        then Inr (changed, skipped @ [edge], s)
        else (case CheckDependencyCycle s dep [] of
            Inl err \<Rightarrow> (if SkipDependencyValidationErrors opts then Inr (changed, skipped @ [edge], s) else Inl err)
          | Inr u \<Rightarrow>
            (let row = (new_dep_row e dep kind (dependencyCreatedBy dep actor) ''{}'')
                  \<lparr>created_at := (if DepCreatedAt dep = zero_time then now e else DepCreatedAt dep),
                   thread_id := ''''\<rparr>
             in bind_res (insert_dep_row w row s) (\<lambda>(ins, s').
               Inr (if ins then insert (aux_name w ''dependencies'') changed else changed, skipped, s')))))"

definition PersistDependencies ::
  "env \<Rightarrow> string \<Rightarrow> batch_opts \<Rightarrow> issue list \<Rightarrow> db \<Rightarrow> store_error + batch_state" where
  "PersistDependencies e actor opts issues s =
     fold_res (\<lambda>i. fold_res (persist_dep e actor opts i) (Dependencies i)) issues ({}, [], s)"

subsection \<open>Child counters\<close>

record bucket =
  maxChild :: int
  bucketWisp :: bool
  known :: bool

definition wisp_bucket :: "issue \<Rightarrow> (string \<times> bucket) list \<Rightarrow> (string \<times> bucket) list" where
  "wisp_bucket i buckets =
    (if IsWisp i then AList.update (ID i)
       (case map_of buckets (ID i) of
          Some b \<Rightarrow> b\<lparr>bucketWisp := True, known := True\<rparr>
        | None \<Rightarrow> \<lparr>maxChild = 0, bucketWisp = True, known = True\<rparr>) buckets
     else buckets)"

definition child_bucket :: "issue \<Rightarrow> (string \<times> bucket) list \<Rightarrow> (string \<times> bucket) list" where
  "child_bucket i buckets =
    (case ParseHierarchicalID_ops (ID i) of
       None \<Rightarrow> buckets
     | Some (parentID, childNum) \<Rightarrow>
         let b = (case map_of buckets parentID of
                    Some b \<Rightarrow> b | None \<Rightarrow> \<lparr>maxChild = 0, bucketWisp = False, known = False\<rparr>)
         in AList.update parentID (if childNum > maxChild b then b\<lparr>maxChild := childNum\<rparr> else b) buckets)"

text \<open>\<^verbatim>\<open>INSERT ... ON CONFLICT DO UPDATE SET last_child = MAX(last_child, excluded.last_child)\<close>\<close>

definition reconcile_parent :: "string \<times> bucket \<Rightarrow> string set \<times> db \<Rightarrow> string set \<times> db" where
  "reconcile_parent p st =
    (let (parentID, b) = p; (changed, s) = st
     in if maxChild b = 0 then (changed, s)
        else (let w = (if known b then bucketWisp b else IsActiveWisp s parentID)
          in (case map_of (counter_table w s) parentID of
                Some current \<Rightarrow>
                  if current \<ge> maxChild b then (changed, s)
                  else (insert (aux_name w ''child_counters'') changed,
                        set_counter_table w (AList.update parentID (max current (maxChild b)) (counter_table w s)) s)
              | None \<Rightarrow> (insert (aux_name w ''child_counters'') changed,
                        set_counter_table w (AList.update parentID (maxChild b) (counter_table w s)) s))))"

definition ReconcileChildCounters :: "issue list \<Rightarrow> db \<Rightarrow> string set \<times> db" where
  "ReconcileChildCounters issues s =
    (let buckets = fold child_bucket issues (fold wisp_bucket issues [])
     in fold reconcile_parent buckets ({}, s))"

subsection \<open>The batch\<close>

definition createBlockedRecomputeIDs :: "issue list \<Rightarrow> string list \<times> string list" where
  "createBlockedRecomputeIDs issues =
    (let ids = concat (map (\<lambda>i. (ID i, IsWisp i) # map (\<lambda>d. (dep_source i d, IsWisp i)) (Dependencies i)) issues);
         pick = (\<lambda>w. dedup_from [] (map fst (filter (\<lambda>p. fst p \<noteq> '''' \<and> snd p = w) ids)))
     in (pick False, pick True))"

text \<open>A dependency of a mixed batch whose ends are in different tables.\<close>

definition cross_bucket :: "(string \<rightharpoonup> bool) \<Rightarrow> issue \<Rightarrow> dependency \<Rightarrow> bool" where
  "cross_bucket batchWispByID i dep =
    (let sourceIsWisp = (if IssueID dep \<noteq> '''' then
           (case batchWispByID (IssueID dep) of Some b \<Rightarrow> b | None \<Rightarrow> IsWisp i) else IsWisp i)
     in (case batchWispByID (DependsOnID dep) of None \<Rightarrow> False | Some t \<Rightarrow> sourceIsWisp \<noteq> t))"

definition filterCreateIssuesMixedBucketDependencies ::
  "issue list \<Rightarrow> batch_opts \<Rightarrow> store_error + issue list" where
  "filterCreateIssuesMixedBucketDependencies issues opts =
    (let batchWispByID = map_of (rev (map (\<lambda>i. (ID i, IsWisp i)) (filter (\<lambda>i. ID i \<noteq> '''') issues)));
         hasRegular = (\<exists>i\<in>set issues. \<not> IsWisp i);
         hasWisp = (\<exists>i\<in>set issues. IsWisp i)
     in if \<not> hasRegular \<or> \<not> hasWisp then Inr issues
        else if \<not> SkipDependencyValidationErrors opts \<and>
          (\<exists>i\<in>set issues. \<exists>dep\<in>set (Dependencies i). cross_bucket batchWispByID i dep)
        then Inl (OpFailed ''mixed regular/wisp CreateIssues batch cannot include cross-bucket dependency'')
        else Inr (map (\<lambda>i. i\<lparr>Dependencies := filter (\<lambda>d. \<not> cross_bucket batchWispByID i d) (Dependencies i)\<rparr>) issues))"

text \<open>The loop over the issues: tables changed, accepted issues, the database.\<close>

definition create_step ::
  "env \<Rightarrow> batch_context \<Rightarrow> string \<Rightarrow> issue \<Rightarrow> string set \<times> issue list \<times> db \<Rightarrow>
   store_error + (string set \<times> issue list \<times> db)" where
  "create_step e bc actor i st =
    (let (changed, accepted, s) = st
     in bind_res (CreateIssueInTxWithResult e bc i actor s) (\<lambda>(r, i', s').
       Inr (changed \<union> ChangedTables r, if StaleRejected r then accepted else accepted @ [i'], s')))"

definition CreateIssuesInTxWithResult ::
  "env \<Rightarrow> issue list \<Rightarrow> string \<Rightarrow> batch_opts \<Rightarrow> db \<Rightarrow> (store_error + (string set \<times> db)) option" where
  "CreateIssuesInTxWithResult e issues0 actor opts s =
    (case bind_res (filterCreateIssuesMixedBucketDependencies issues0 opts) (\<lambda>issues.
          bind_res (NewBatchContext e opts s) (\<lambda>bc.
          bind_res (fold_res (create_step e bc actor) issues ({}, [], s)) (\<lambda>(changed, accepted, s1).
          bind_res (PersistDependencies e actor opts accepted s1) (\<lambda>(changed2, skipped, s2).
            let (changed3, s3) = ReconcileChildCounters accepted s2
            in Inr (changed \<union> changed2 \<union> changed3, createBlockedRecomputeIDs accepted, s3))))) of
       Inl err \<Rightarrow> Some (Inl err)
     | Inr (changed, (issueIDs, wispIDs), s3) \<Rightarrow>
         map_option (\<lambda>s4. Inr (changed \<union> (if issueIDs \<noteq> [] then {''issues''} else {}) \<union>
             (if wispIDs \<noteq> [] then {''wisps''} else {}), s4))
           (recomputeIsBlocked e issueIDs wispIDs s3))"

definition stageableChangedTables :: "string set \<Rightarrow> string set" where
  "stageableChangedTables changed = Set.filter (\<lambda>t. \<not> (t = ''wisps'' \<or> has_prefix t ''wisp_'')) changed"

text \<open>The reservation the context carries is a parent id and a child number.\<close>

definition HasReservedChildCounter :: "(string \<times> int) option \<Rightarrow> string \<Rightarrow> int \<Rightarrow> bool" where
  "HasReservedChildCounter reservation parentID childNum = (reservation = Some (parentID, childNum))"

definition WithReservedChildCounter ::
  "(string \<times> int) option \<Rightarrow> string \<Rightarrow> string \<Rightarrow> (string \<times> int) option" where
  "WithReservedChildCounter ctx parentID childID =
    (if has_prefix childID (parentID @ ''.'') then
       (case Atoi (drop (length (parentID @ ''.'')) childID) of
          None \<Rightarrow> ctx | Some childNum \<Rightarrow> Some (parentID, childNum))
     else ctx)"

definition CreateIssuesDirtyTables :: "(string \<times> int) option \<Rightarrow> issue list \<Rightarrow> string set \<Rightarrow> string set" where
  "CreateIssuesDirtyTables ctx issues changed =
    (stageableChangedTables changed \<union>
     (if \<exists>i\<in>set issues. (case ParseHierarchicalID_ops (ID i) of
           None \<Rightarrow> False | Some (p, n) \<Rightarrow> HasReservedChildCounter ctx p n)
      then {''child_counters''} else {}))"

end
