(* ===== verification/StoreCreate.thy ===== *)
theory StoreCreate
  imports Create
begin

text \<open>
  The create path of the doltlite store
  (\<^verbatim>\<open>internal/storage/doltlite/create_issue.go\<close>): it shares the preparation, the
  ids, the dependencies and the counters with \<^verbatim>\<open>issueops\<close>, but inserts with
  \<^verbatim>\<open>INSERT OR REPLACE\<close>, and creates a batch of wisps in one transaction each.
  An error of the second wisp keeps the first: such a batch returns its error
  together with the database.
\<close>

definition insertIssueSQLite :: "env \<Rightarrow> bool \<Rightarrow> issue \<Rightarrow> db \<Rightarrow> db" where
  "insertIssueSQLite e isWisp i s =
     set_issue_table isWisp (filter (\<lambda>r. ID r \<noteq> ID i) (issue_table isWisp s) @ [new_row e i]) s"

text \<open>The event is recorded whether or not the label was new.\<close>

definition persistLabelsSQLite :: "issue \<Rightarrow> string \<Rightarrow> db \<Rightarrow> db" where
  "persistLabelsSQLite i actor s =
    (let w = IsWisp i in
     fold (\<lambda>label s.
       let s1 = (if (ID i, label) \<in> set (label_table w s) then s
                 else set_label_table w (label_table w s @ [(ID i, label)]) s)
       in set_event_table w (event_table w s1 @ [label_event (ID i) actor label]) s1)
      (dedup_from [] (Labels i)) s)"

definition createIssueSQLite ::
  "env \<Rightarrow> batch_context \<Rightarrow> issue \<Rightarrow> string \<Rightarrow> db \<Rightarrow> store_error + (issue \<times> db)" where
  "createIssueSQLite e bc i actor s =
    bind_res (PrepareIssueForInsert e (CustomStatuses bc) (CustomTypes bc) i) (\<lambda>i1.
    (let w = IsWisp i1 in
    bind_res (assign_id e bc i1 actor s) (\<lambda>(i2, s1).
    bind_res (CheckOrphan i2 w (OrphanHandling (Opts bc)) s1) (\<lambda>skip.
      if skip then Inr (i2, s1)
      else
       (let existing = (ID i2 \<in> ID ` set (issue_table w s1));
            s2 = insertIssueSQLite e w i2 s1;
            s3 = (if \<not> existing then RecordEventInTable w (ID i2) ''created'' actor '''' s2 else s2);
            s4 = persistLabelsSQLite i2 actor s3
        in bind_res (PersistComments e i2 s4) (\<lambda>(commented, s5). Inr (i2, s5)))))))"

text \<open>The end of the transaction of a create: dependencies, counters and the recompute.\<close>

definition finish_create ::
  "env \<Rightarrow> string \<Rightarrow> batch_opts \<Rightarrow> issue list \<Rightarrow> db \<Rightarrow> (store_error + db) option" where
  "finish_create e actor opts issues s =
    (case PersistDependencies e actor opts issues s of
       Inl err \<Rightarrow> Some (Inl err)
     | Inr (changed, skipped, s1) \<Rightarrow>
         let s2 = snd (ReconcileChildCounters issues s1);
             (issueIDs, wispIDs) = createBlockedRecomputeIDs issues
         in map_option Inr (recomputeIsBlocked e issueIDs wispIDs s2))"

text \<open>The row of a create: everything up to its dependencies.\<close>

definition create_opts :: batch_opts where
  "create_opts = default_batch_opts\<lparr>SkipPrefixValidation := True\<rparr>"

definition create_row :: "env \<Rightarrow> issue \<Rightarrow> string \<Rightarrow> db \<Rightarrow> store_error + (issue \<times> db)" where
  "create_row e i0 actor s =
    (let i = (if IsInfraTypeCtx e s (IssueType i0) then i0\<lparr>Ephemeral := True\<rparr> else i0)
     in bind_res (NewBatchContext e create_opts s) (\<lambda>bc. createIssueSQLite e bc i actor s))"

definition CreateIssue :: "env \<Rightarrow> issue \<Rightarrow> string \<Rightarrow> db \<Rightarrow> (store_error + (issue \<times> db)) option" where
  "CreateIssue e i0 actor s =
    (case create_row e i0 actor s of
       Inl err \<Rightarrow> Some (Inl err)
     | Inr (i1, s1) \<Rightarrow> map_option (map_sum id (\<lambda>s2. (i1, s2))) (finish_create e actor create_opts [i1] s1))"

definition create_step_sqlite ::
  "env \<Rightarrow> batch_context \<Rightarrow> string \<Rightarrow> issue \<Rightarrow> issue list \<times> db \<Rightarrow> store_error + (issue list \<times> db)" where
  "create_step_sqlite e bc actor i st =
    (let (accepted, s) = st
     in bind_res (createIssueSQLite e bc i actor s) (\<lambda>(i', s'). Inr (accepted @ [i'], s')))"

text \<open>The wisps of a batch, one transaction each: the first error, if any, and the database.\<close>

fun create_wisps :: "env \<Rightarrow> batch_opts \<Rightarrow> string \<Rightarrow> issue list \<Rightarrow> db \<Rightarrow> store_error option \<times> db" where
  "create_wisps e opts actor [] s = (None, s)"
| "create_wisps e opts actor (i # is) s =
    (let i' = (if \<not> NoHistory i then i\<lparr>Ephemeral := True\<rparr> else i) in
     case bind_res (NewBatchContext e opts s) (\<lambda>bc. createIssueSQLite e bc i' actor s) of
       Inl err \<Rightarrow> (Some err, s)
     | Inr (i1, s1) \<Rightarrow> create_wisps e opts actor is s1)"

definition CreateIssuesWithFullOptions ::
  "env \<Rightarrow> issue list \<Rightarrow> string \<Rightarrow> batch_opts \<Rightarrow> db \<Rightarrow> (store_error option \<times> db) option" where
  "CreateIssuesWithFullOptions e issues actor opts s =
    (if issues = [] then Some (None, s)
     else if AllWisps issues then Some (create_wisps e opts actor issues s)
     else case bind_res (NewBatchContext e opts s) (\<lambda>bc.
            fold_res (create_step_sqlite e bc actor) issues ([], s)) of
         Inl err \<Rightarrow> Some (Some err, s)
       | Inr (accepted, s1) \<Rightarrow>
           map_option (\<lambda>r. case r of Inl err \<Rightarrow> (Some err, s) | Inr s2 \<Rightarrow> (None, s2))
             (finish_create e actor opts accepted s1))"

definition CreateIssues :: "env \<Rightarrow> issue list \<Rightarrow> string \<Rightarrow> db \<Rightarrow> (store_error option \<times> db) option" where
  "CreateIssues e issues actor s =
     CreateIssuesWithFullOptions e issues actor (default_batch_opts\<lparr>OrphanHandling := ''allow''\<rparr>) s"

end
