(* ===== verification/CreateThms.thy ===== *)
theory CreateThms
  imports StoreCreate DepsThms
begin

text \<open>
  What a create changes: the tables its statements leave alone, the dependency
  rows it appends, and that adding a row nothing refers to, together with its
  own dependencies, disturbs no other row.
\<close>

subsection \<open>Frames\<close>

lemma label_comment_frame [simp]:
  "issue_table v (set_label_table w ls s) = issue_table v s"
  "dep_table v (set_label_table w ls s) = dep_table v s"
  "issue_table v (set_comment_table w cs s) = issue_table v s"
  "dep_table v (set_comment_table w cs s) = dep_table v s"
  "issue_table v (set_counter_table w t s) = issue_table v s"
  "dep_table v (set_counter_table w t s) = dep_table v s"
  by (simp_all add: table_defs set_comment_table_def set_counter_table_def)

definition same_rows :: "db \<Rightarrow> db \<Rightarrow> bool" where
  "same_rows s s' = ((\<forall>v. issue_table v s' = issue_table v s) \<and> (\<forall>v. dep_table v s' = dep_table v s))"

lemma same_rowsI [intro]:
  "(\<And>v. issue_table v s' = issue_table v s) \<Longrightarrow> (\<And>v. dep_table v s' = dep_table v s) \<Longrightarrow> same_rows s s'"
  by (simp add: same_rows_def)

lemma same_rowsD:
  "same_rows s s' \<Longrightarrow> issue_table v s' = issue_table v s"
  "same_rows s s' \<Longrightarrow> dep_table v s' = dep_table v s"
  by (simp_all add: same_rows_def)

lemma same_rows_refl [simp]: "same_rows s s"
  by (simp add: same_rows_def)

lemma same_rows_trans: "same_rows s t \<Longrightarrow> same_rows t u \<Longrightarrow> same_rows s u"
  by (simp add: same_rows_def)

lemma same_rows_fold:
  assumes "\<And>x s. same_rows s (f x s)"
  shows "same_rows s (fold f xs s)"
proof (induction xs arbitrary: s)
  case (Cons x xs)
  show ?case using same_rows_trans[OF assms Cons] by simp
qed simp

lemma persistLabelsSQLite_rows: "same_rows s (persistLabelsSQLite i a s)"
  unfolding persistLabelsSQLite_def Let_def by (rule same_rows_fold) (simp add: same_rows_def)

lemma PersistComments_rows:
  assumes "PersistComments e i s = Inr (c, s')"
  shows "same_rows s s'"
proof -
  have "same_rows s (snd (c, s'))"
  proof (rule fold_res_invariant[where P = "\<lambda>st. same_rows s (snd st)"])
    show "fold_res (persist_comment e i) (Comments i) (False, s) = Inr (c, s')"
      using assms by (simp add: PersistComments_def)
    show "same_rows s (snd (False, s))" by simp
    fix c st st'
    assume r: "same_rows s (snd st)" and p: "persist_comment e i c st = Inr st'"
    have "snd st' = snd st \<or> (\<exists>cs. snd st' = set_comment_table (IsWisp i) cs (snd st))"
      using p by (auto simp: persist_comment_def Let_def split: prod.splits if_splits)
    then show "same_rows s (snd st')" using r by (auto simp: same_rows_def)
  qed
  then show ?thesis by simp
qed

lemma counters_rows: "same_rows s (s\<lparr>t_counters := c\<rparr>)"
  by (simp add: same_rows_def table_defs)

lemma SeedCounter_rows: "same_rows s (SeedCounterFromExistingIssues p s)"
  by (simp add: SeedCounterFromExistingIssues_def counters_rows Let_def split: option.split)

lemma increment_rows: "increment_counter p s = Some t \<Longrightarrow> same_rows s t"
  using counters_rows by (auto simp: increment_counter_def split: option.splits)

lemma NextCounterID_rows: "same_rows s (snd (NextCounterID p s))"
proof (cases "increment_counter p s")
  case (Some t)
  then show ?thesis using increment_rows by (simp add: NextCounterID_def Let_def)
next
  case None
  let ?t = "SeedCounterFromExistingIssues p s"
  have "same_rows ?t (case increment_counter p ?t of Some u \<Rightarrow> u | None \<Rightarrow> ?t\<lparr>t_counters := (p, 1) # t_counters ?t\<rparr>)"
    using increment_rows[of p ?t] counters_rows by (simp split: option.split)
  from same_rows_trans[OF SeedCounter_rows this] show ?thesis using None by (simp add: NextCounterID_def Let_def)
qed

lemma assign_id_rows:
  assumes "assign_id e bc i a s = Inr (i', s')"
  shows "same_rows s s' \<and> (\<exists>x. i' = i\<lparr>ID := x\<rparr>)"
proof (cases "ID i = ''''")
  case True
  then obtain x where "GenerateIssueIDInTable e (IsWisp i) (id_prefix bc i) i a s = Inr (x, s')" "i' = i\<lparr>ID := x\<rparr>"
    using assms by (auto simp: assign_id_def)
  then show ?thesis
    using NextCounterID_rows[of s "id_prefix bc i"]
    by (auto simp: GenerateIssueIDInTable_def Let_def split: if_splits option.splits)
next
  case False
  then have "i' = i \<and> s' = s" using assms by (auto simp: assign_id_def split: if_splits)
  then show ?thesis by (metis issue.update_convs(1) issue.surjective same_rows_refl)
qed

lemma reconcile_parent_rows: "same_rows s (snd (reconcile_parent p (c, s)))"
  by (auto simp: reconcile_parent_def Let_def split: prod.splits option.splits)

lemma ReconcileChildCounters_rows: "same_rows s (snd (ReconcileChildCounters issues s))"
proof -
  have "same_rows s (snd (fold reconcile_parent ps st))" if "same_rows s (snd st)" for ps st
    using that
  proof (induction ps arbitrary: st)
    case (Cons p ps)
    have "same_rows s (snd (reconcile_parent p st))"
      using same_rows_trans[OF Cons.prems reconcile_parent_rows[of "snd st" p "fst st"]] by simp
    from Cons.IH[OF this] show ?case by simp
  qed simp
  from this[of "({}, s)"] show ?thesis by (simp add: ReconcileChildCounters_def Let_def)
qed

subsection \<open>Adding a row nothing refers to\<close>

definition unused :: "db \<Rightarrow> string \<Rightarrow> bool" where
  "unused s x = (\<forall>v. x \<notin> ID ` set (issue_table v s) \<and>
     (\<forall>d\<in>set (dep_table v s). issue_id d \<noteq> x \<and> (\<forall>u. \<not> targets d u x)))"

definition row_added :: "bool \<Rightarrow> issue_row \<Rightarrow> dep_row list \<Rightarrow> db \<Rightarrow> db \<Rightarrow> bool" where
  "row_added w r ds s s' =
    ((\<forall>v. issue_table v s' = issue_table v s @ (if v = w then [r] else [])) \<and>
     (\<forall>v. dep_table v s' = dep_table v s @ (if v = w then ds else [])) \<and>
     (\<forall>d\<in>set ds. issue_id d = ID r \<and> (\<forall>u. \<not> targets d u (ID r))))"

text \<open>No waits-for row waits on a parent that the new rows name.\<close>

definition no_waiters :: "dep_row list \<Rightarrow> db \<Rightarrow> bool" where
  "no_waiters ds s = (\<forall>cd\<in>set ds. dtype cd = DepParentChild \<longrightarrow>
     (\<forall>v. \<forall>d\<in>set (dep_table v s). dtype d = DepWaitsFor \<longrightarrow> \<not> same_target d cd))"

lemma unused_row: "unused s x \<Longrightarrow> r \<in> set (issue_table v s) \<Longrightarrow> ID r \<noteq> x"
  unfolding unused_def by blast

lemma unused_dep: "unused s x \<Longrightarrow> d \<in> set (dep_table v s) \<Longrightarrow> issue_id d \<noteq> x \<and> \<not> targets d u x"
  unfolding unused_def by blast

lemma added_rows:
  "row_added w r ds s s' \<Longrightarrow> t \<in> set (issue_table v s') \<longleftrightarrow> t \<in> set (issue_table v s) \<or> v = w \<and> t = r"
  by (auto simp: row_added_def)

lemma added_deps:
  "row_added w r ds s s' \<Longrightarrow> d \<in> set (dep_table v s') \<longleftrightarrow> d \<in> set (dep_table v s) \<or> v = w \<and> d \<in> set ds"
  by (auto simp: row_added_def)

lemma row_added_wants:
  assumes a: "row_added w r ds s s'" and un: "unused s (ID r)" and nw: "no_waiters ds s"
    and n: "n \<noteq> (w, ID r)"
  shows "wants e s' F n = wants e s F n"
proof (cases n)
  case (Pair u y)
  note rows = added_rows[OF a] and deps = added_deps[OF a]
  have src: "issue_id d = ID r" if "d \<in> set ds" for d using a that by (simp add: row_added_def)
  have own: "d \<in> set (dep_table u s') \<longleftrightarrow> d \<in> set (dep_table u s)" if "issue_id d = y" for d
    using deps src that n Pair by auto
  have j: "joined_target s' d p = joined_target s d p" if "d \<in> set (dep_table v s)" for d v p
    unfolding joined_target_table Bex_def rows using unused_dep[OF un that] by blast
  have h: "hard_blocked s' (dep_table u s') y = hard_blocked s (dep_table u s) y"
    unfolding hard_blocked_def using own j by blast
  have sp: "spawned_child s' d p = spawned_child s d p" if d: "d \<in> set (dep_table v s)" "dtype d = DepWaitsFor" for d v p
  proof -
    have "cd \<in> set (dep_table k s') \<and> dtype cd = DepParentChild \<and> same_target d cd \<longleftrightarrow>
        cd \<in> set (dep_table k s) \<and> dtype cd = DepParentChild \<and> same_target d cd" for cd k
      using deps nw d unfolding no_waiters_def by blast
    moreover have "(\<exists>c\<in>set (issue_table k s'). ID c = issue_id cd \<and> p (Status c)) \<longleftrightarrow>
        (\<exists>c\<in>set (issue_table k s). ID c = issue_id cd \<and> p (Status c))" if "cd \<in> set (dep_table k s)" for cd k
      using rows unused_dep[OF un that] by metis
    ultimately show ?thesis unfolding spawned_child_table by metis
  qed
  have "waitsForGateBlocked e s' d = waitsForGateBlocked e s d" if "d \<in> set (dep_table u s)" "dtype d = DepWaitsFor" for d
    using sp[OF that] by (simp add: waitsForGateBlocked_def)
  then have wb: "waits_blocked e s' (dep_table u s') y = waits_blocked e s (dep_table u s) y"
    unfolding waits_blocked_def using own by metis
  have p: "parents s' n = parents s n"
    unfolding parents_def Pair fst_conv snd_conv using own by blast
  have "active_node s' n = active_node s n"
    unfolding active_node_def Pair fst_conv snd_conv using rows n Pair by auto
  then show ?thesis using h wb p Pair by (simp add: wants_def own_reason_def)
qed

lemma finite_parent_edges: "finite (parent_edges s)"
proof -
  have "parent_edges s \<subseteq> nodes s \<times> nodes s" by (auto simp: parent_edges_def)
  then show ?thesis using finite_nodes finite_subset by blast
qed

lemma row_added_repairs:
  assumes g: "good_db e s" and a: "row_added w r ds s s'" and un: "unused s (ID r)" and nw: "no_waiters ds s"
    and nb: "\<not> IsBlocked r" and ca: "closed_at_invariant r" and sc: "scope_of is ws = {(w, ID r)}"
  shows "\<exists>t. recomputeIsBlocked e is ws s' = Some t \<and> good_db e t \<and> same_but_flags s' t"
proof -
  note rows = added_rows[OF a] and deps = added_deps[OF a]
  have wf: "wf_db s" and ac: "acyclic_parents s" and co: "blocked_consistent e s" and cl: "rows_closed_at s"
    using g by (simp_all add: good_db_def)
  have "distinct (map ID (issue_table v s'))" for v
  proof -
    have "ID r \<notin> ID ` set (issue_table v s)" using un by (simp add: unused_def)
    moreover have "issue_table v s' = issue_table v s @ (if v = w then [r] else [])" using a by (simp add: row_added_def)
    ultimately show ?thesis using wf_db_table[OF wf, of v] by auto
  qed
  then have wf': "wf_db s'" by (simp add: wf_db_def)
  have fl: "flagged s' = flagged s" unfolding flagged_def Bex_def rows using nb by blast
  have nd: "nodes s' = insert (w, ID r) (nodes s)" unfolding nodes_def image_def using rows by auto
  have new: "(w, ID r) \<notin> nodes s" using un by (simp add: nodes_def unused_def)
  have up: "parents s' n \<inter> {(w, ID r)} = {}" for n
    using deps unused_dep[OF un] a unfolding parents_def row_added_def by auto
  have "parent_edges s' \<subseteq> parent_edges s \<union> (nodes s \<times> {(w, ID r)})"
  proof
    fix x assume "x \<in> parent_edges s'"
    then obtain p n where x: "x = (p, n)" "n \<in> nodes s'" "p \<in> nodes s'" "p \<in> parents s' n"
      by (auto simp: parent_edges_def)
    have p: "p \<in> nodes s" using x(3,4) up[of n] nd by blast
    show "x \<in> parent_edges s \<union> (nodes s \<times> {(w, ID r)})"
    proof (cases "n = (w, ID r)")
      case False
      obtain u y where n: "n = (u, y)" by fastforce
      have "parents s' n = parents s n"
        unfolding parents_def n fst_conv snd_conv using deps a False n by (auto simp: row_added_def)
      then show ?thesis using x p False nd by (auto simp: parent_edges_def)
    qed (use x p in auto)
  qed
  moreover have "acyclic (parent_edges s \<union> (nodes s \<times> {(w, ID r)}))"
  proof -
    obtain rank :: "node \<Rightarrow> nat" where rk: "\<And>p n. (p, n) \<in> parent_edges s \<Longrightarrow> rank p < rank n"
      using acyclic_rank[OF finite_parent_edges] ac unfolding acyclic_parents_def by blast
    define top where "top = Suc (Max (insert 0 (rank ` nodes s)))"
    have "rank p < top" if "p \<in> nodes s" for p
      using that finite_nodes[of s] by (auto simp: top_def less_Suc_eq_le intro: Max_ge)
    then show ?thesis
      using rk new by (intro acyclic_by_rank[where rank = "\<lambda>n. if n = (w, ID r) then top else rank n"])
        (auto simp: parent_edges_def split: if_splits)
  qed
  ultimately have ac': "acyclic_parents s'"
    unfolding acyclic_parents_def by (rule acyclic_subset[rotated])
  have chc: "be.child_closed (scope_of is ws) s'"
    unfolding be.child_closed_def sc using up by blast
  have "be.consistent_on e UNIV s" using blocked_consistent_engine[OF wf] co by blast
  then have "be.consistent_on e (- scope_of is ws) s'"
    unfolding be.consistent_on_def sc fl using row_added_wants[OF a un nw] nd by auto
  from recompute_repairs[OF wf' ac' chc this] obtain t where
    t: "recomputeIsBlocked e is ws s' = Some t" "wf_db t" "same_but_flags s' t" "blocked_consistent e t" by blast
  have "rows_closed_at s'" using cl ca rows by (auto simp: rows_closed_at_def)
  then show ?thesis
    using t ac' rows_closed_at_same[OF t(3)] acyclic_parents_same[OF t(3)] by (auto simp: good_db_def)
qed

subsection \<open>The row of a create\<close>

lemma new_row_simps [simp]:
  "ID (new_row e i) = ID i" "Status (new_row e i) = Status i" "ClosedAt (new_row e i) = ClosedAt i"
  "IsBlocked (new_row e i) = False" "IsBlocked (new_row e i\<lparr>IsBlocked := False\<rparr>) = False"
  by (simp_all add: new_row_def issue.defs)

lemma assign_id_nonempty:
  assumes "assign_id e bc i a s = Inr (i', s')"
  shows "ID i' \<noteq> ''''"
proof (cases "ID i = ''''")
  case True
  then obtain x where x: "GenerateIssueIDInTable e (IsWisp i) (id_prefix bc i) i a s = Inr (x, s')" "i' = i\<lparr>ID := x\<rparr>"
    using assms by (auto simp: assign_id_def)
  have c: "y \<noteq> ''''" if "y \<in> set (candidates e p i a b)" for y p b
    using that by (auto simp: candidates_def GenerateHashID_def Let_def)
  have f: "find P xs = Some y \<Longrightarrow> y \<in> set xs" for P xs and y :: string
    by (auto simp: find_Some_iff)
  have n: "fst (NextCounterID p s) \<noteq> ''''" for p by (simp add: NextCounterID_def Let_def)
  have "x \<noteq> ''''"
  proof (cases "\<not> IsWisp i \<and> IsCounterMode s")
    case True
    then have "x = fst (NextCounterID (id_prefix bc i) s)" using x(1) by (auto simp: GenerateIssueIDInTable_def)
    then show ?thesis using n by simp
  next
    case False
    obtain b P where "find P (candidates e (id_prefix bc i) i a b) = Some x"
      using x(1) False by (simp add: GenerateIssueIDInTable_def Let_def split: if_splits option.splits)
    then show ?thesis using f c by blast
  qed
  then show ?thesis by (simp add: x(2))
next
  case False
  then have "i' = i" using assms by (auto simp: assign_id_def split: if_splits)
  then show ?thesis using False by simp
qed

lemma Prepare_ok:
  assumes "PrepareIssueForInsert e cs ct i = Inr i'"
  shows "closed_at_invariant i' \<and> Dependencies i' = Dependencies i \<and> ID i' = ID i \<and> IsWisp i' = IsWisp i"
proof -
  define i1 where "i1 = (if CreatedAt i = zero_time then i\<lparr>CreatedAt := now e\<rparr> else i)"
  define i2 where "i2 = (if UpdatedAt i1 = zero_time then i1\<lparr>UpdatedAt := now e\<rparr> else i1)"
  define i3 where "i3 = (if Status i2 = StatusClosed \<and> ClosedAt i2 = None
      then i2\<lparr>ClosedAt := Some ((if UpdatedAt i2 > CreatedAt i2 then UpdatedAt i2 else CreatedAt i2) + second)\<rparr> else i2)"
  have "ValidateWithCustom (json_ok e) cs ct i3 = Inr () \<and>
      i' = (if ContentHash i3 = '''' then i3\<lparr>ContentHash := ComputeContentHash (sha256_Sum e) i3\<rparr> else i3)"
    using assms unfolding PrepareIssueForInsert_def Let_def i1_def[symmetric] i2_def[symmetric] i3_def[symmetric]
    by (cases "ValidateWithCustom (json_ok e) cs ct i3") (simp_all split: if_splits)
  then have v: "closed_at_invariant i3" and i': "i' = i3 \<or> (\<exists>h. i' = i3\<lparr>ContentHash := h\<rparr>)"
    unfolding ValidateWithCustom_ok_iff well_formed_fields_def by auto
  have e1: "Dependencies i1 = Dependencies i \<and> ID i1 = ID i \<and> Ephemeral i1 = Ephemeral i \<and> NoHistory i1 = NoHistory i"
    by (simp add: i1_def)
  have e2: "Dependencies i2 = Dependencies i1 \<and> ID i2 = ID i1 \<and> Ephemeral i2 = Ephemeral i1 \<and> NoHistory i2 = NoHistory i1"
    by (simp add: i2_def)
  have "Dependencies i3 = Dependencies i2 \<and> ID i3 = ID i2 \<and> Ephemeral i3 = Ephemeral i2 \<and> NoHistory i3 = NoHistory i2"
    by (simp add: i3_def)
  with e1 e2 v i' show ?thesis by (auto simp: closed_at_invariant_def IsWisp_def)
qed

lemma Prepare_status:
  assumes "PrepareIssueForInsert e cs ct i = Inr i'"
  shows "status_IsValidWithCustom (Status i) cs"
proof -
  define i1 where "i1 = (if CreatedAt i = zero_time then i\<lparr>CreatedAt := now e\<rparr> else i)"
  define i2 where "i2 = (if UpdatedAt i1 = zero_time then i1\<lparr>UpdatedAt := now e\<rparr> else i1)"
  define i3 where "i3 = (if Status i2 = StatusClosed \<and> ClosedAt i2 = None
      then i2\<lparr>ClosedAt := Some ((if UpdatedAt i2 > CreatedAt i2 then UpdatedAt i2 else CreatedAt i2) + second)\<rparr> else i2)"
  have "ValidateWithCustom (json_ok e) cs ct i3 = Inr ()"
    using assms unfolding PrepareIssueForInsert_def Let_def i1_def[symmetric] i2_def[symmetric] i3_def[symmetric]
    by (cases "ValidateWithCustom (json_ok e) cs ct i3") (simp_all split: if_splits)
  then have "status_IsValidWithCustom (Status i3) cs"
    by (auto simp: ValidateWithCustom_def split: if_splits)
  moreover have "Status i1 = Status i" by (simp add: i1_def)
  moreover have "Status i2 = Status i1" by (simp add: i2_def)
  moreover have "Status i3 = Status i2" by (simp add: i3_def)
  ultimately show ?thesis by simp
qed

lemma createIssueSQLite_spec:
  assumes c: "createIssueSQLite e bc i a s = Inr (i', s')" and o: "OrphanHandling (Opts bc) \<noteq> ''skip''"
  shows "ID i' \<noteq> '''' \<and> closed_at_invariant i' \<and> Dependencies i' = Dependencies i \<and>
    (\<forall>v. dep_table v s' = dep_table v s) \<and>
    (\<forall>v. issue_table v s' = (if v = IsWisp i' then filter (\<lambda>r. ID r \<noteq> ID i') (issue_table v s) @ [new_row e i']
       else issue_table v s))"
proof -
  obtain i1 where p: "PrepareIssueForInsert e (CustomStatuses bc) (CustomTypes bc) i = Inr i1"
    using c by (auto simp: createIssueSQLite_def)
  obtain i2 s1 where as: "assign_id e bc i1 a s = Inr (i2, s1)"
    using c p by (auto simp: createIssueSQLite_def Let_def)
  let ?w = "IsWisp i1"
  have orph: "CheckOrphan i2 ?w (OrphanHandling (Opts bc)) s1 = Inr b \<Longrightarrow> \<not> b" for b
    using o by (auto simp: CheckOrphan_def split: if_splits option.splits)
  define s2 where "s2 = insertIssueSQLite e ?w i2 s1"
  define s3 where "s3 = (if ID i2 \<notin> ID ` set (issue_table ?w s1)
     then RecordEventInTable ?w (ID i2) ''created'' a '''' s2 else s2)"
  define s4 where "s4 = persistLabelsSQLite i2 a s3"
  obtain cm where pc: "PersistComments e i2 s4 = Inr (cm, s')" and i': "i' = i2"
    using c p as orph by (auto simp: createIssueSQLite_def Let_def s2_def s3_def s4_def split: if_splits)
  obtain x where x: "i2 = i1\<lparr>ID := x\<rparr>" and r1: "same_rows s s1" using assign_id_rows[OF as] by blast
  have w: "IsWisp i2 = ?w" by (simp add: x IsWisp_def)
  have r3: "same_rows s2 s3" by (simp add: s3_def same_rows_def RecordEventInTable_def)
  have r4: "same_rows s3 s4" unfolding s4_def by (rule persistLabelsSQLite_rows)
  have r: "same_rows s2 s'" using same_rows_trans r3 r4 PersistComments_rows[OF pc] by blast
  have "dep_table v s2 = dep_table v s" for v
    using same_rowsD(2)[OF r1] by (simp add: s2_def insertIssueSQLite_def)
  moreover have "issue_table v s2 = (if v = ?w then filter (\<lambda>r. ID r \<noteq> ID i2) (issue_table v s) @ [new_row e i2]
       else issue_table v s)" for v
    using same_rowsD(1)[OF r1] by (simp add: s2_def insertIssueSQLite_def)
  moreover have "closed_at_invariant i2" "Dependencies i2 = Dependencies i"
    using Prepare_ok[OF p] by (simp_all add: x closed_at_invariant_def)
  ultimately show ?thesis
    using same_rowsD[OF r] assign_id_nonempty[OF as] w i' by simp
qed

subsection \<open>The dependencies of a create\<close>

definition from_dep :: "issue \<Rightarrow> dependency \<Rightarrow> dep_row \<Rightarrow> bool" where
  "from_dep i dep d = (issue_id d = dep_source i dep \<and> dtype d = DepType dep \<and>
     (\<forall>u p. targets d u p \<longrightarrow> p = DependsOnID dep) \<and> dep_source i dep \<noteq> DependsOnID dep)"

definition deps_appended :: "issue \<Rightarrow> db \<Rightarrow> db \<Rightarrow> bool" where
  "deps_appended i s s' = ((\<forall>v. issue_table v s' = issue_table v s) \<and>
     (\<exists>ds. (\<forall>v. dep_table v s' = dep_table v s @ (if v = IsWisp i then ds else [])) \<and>
        (\<forall>d\<in>set ds. \<exists>dep\<in>set (Dependencies i). from_dep i dep d)))"

lemma persist_dep_appends:
  assumes p: "persist_dep e a opts i dep (c, k, t) = Inr (c', k', t')" and dep: "dep \<in> set (Dependencies i)"
    and ap: "deps_appended i s t"
  shows "deps_appended i s t'"
proof -
  let ?dep = "dep\<lparr>IssueID := dep_source i dep\<rparr>"
  let ?kind = "ClassifyDepTarget t ?dep False"
  let ?row = "(new_dep_row e ?dep ?kind (dependencyCreatedBy ?dep a) ''{}'')
     \<lparr>created_at := (if DepCreatedAt ?dep = zero_time then now e else DepCreatedAt ?dep), thread_id := ''''\<rparr>"
  have "t' = t \<or> (CheckDependencyCycle t ?dep [] = Inr () \<and>
      t' = set_dep_table (IsWisp i) (dep_table (IsWisp i) t @ [?row]) t)"
    using p by (auto simp: persist_dep_def insert_dep_row_def Let_def split: if_splits sum.splits)
  then show ?thesis
  proof
    assume r: "CheckDependencyCycle t ?dep [] = Inr () \<and> t' = set_dep_table (IsWisp i) (dep_table (IsWisp i) t @ [?row]) t"
    then have "dep_source i dep \<noteq> DependsOnID dep" by (auto simp: CheckDependencyCycle_def split: if_splits)
    then have f: "from_dep i dep ?row" by (auto simp: from_dep_def new_dep_row_def targets_def split: if_splits)
    obtain ds where ds: "\<And>v. issue_table v t = issue_table v s"
      "\<And>v. dep_table v t = dep_table v s @ (if v = IsWisp i then ds else [])"
      "\<forall>d\<in>set ds. \<exists>dep\<in>set (Dependencies i). from_dep i dep d"
      using ap unfolding deps_appended_def by blast
    have "dep_table v t' = dep_table v s @ (if v = IsWisp i then ds @ [?row] else [])" for v
      using r ds(2)[of v] by (cases "v = IsWisp i") simp_all
    moreover have "\<forall>d\<in>set (ds @ [?row]). \<exists>dep\<in>set (Dependencies i). from_dep i dep d"
      using ds(3) f dep by auto
    moreover have "issue_table v t' = issue_table v s" for v using r ds(1) by simp
    ultimately show ?thesis unfolding deps_appended_def by blast
  qed (use ap in simp)
qed

lemma PersistDependencies_appends:
  assumes "PersistDependencies e a opts [i] s = Inr (c, k, s')"
  shows "deps_appended i s s'"
proof -
  have "fold_res (persist_dep e a opts i) (Dependencies i) ({}, [], s) = Inr (c, k, s')"
    using assms by (auto simp: PersistDependencies_def)
  then have "deps_appended i s (snd (snd (c, k, s')))"
  proof (rule fold_res_invariant[where P = "\<lambda>st. deps_appended i s (snd (snd st))", rotated 2])
    show "deps_appended i s (snd (snd ({}, [], s)))"
      unfolding deps_appended_def by (auto intro!: exI[of _ "[]"])
    fix dep st st'
    assume "dep \<in> set (Dependencies i)" "deps_appended i s (snd (snd st))" "persist_dep e a opts i dep st = Inr st'"
    then show "deps_appended i s (snd (snd st'))"
      by (cases st; cases st') (auto intro: persist_dep_appends)
  qed
  then show ?thesis by simp
qed

end
