(* ===== verification/PropsCreate.thy ===== *)
theory PropsCreate
  imports CreateThms PropsConfig PropsIds Examples
begin

text \<open>The properties of the create path of the store.\<close>

lemma createBlockedRecomputeIDs_own:
  assumes "ID i \<noteq> ''''" "\<forall>dep\<in>set (Dependencies i). dep_source i dep = ID i"
  shows "createBlockedRecomputeIDs [i] = (if IsWisp i then ([], [ID i]) else ([ID i], []))"
proof -
  define ps where "ps = (ID i, IsWisp i) # map (\<lambda>d. (dep_source i d, IsWisp i)) (Dependencies i)"
  have ps: "\<forall>p\<in>set ps. p = (ID i, IsWisp i)" using assms(2) by (auto simp: ps_def)
  have all: "dedup_from [ID i] xs = []" if "\<forall>x\<in>set xs. x = ID i" for xs
    using that by (induction xs) auto
  have "map fst (filter (\<lambda>p. fst p \<noteq> '''' \<and> snd p = v) ps) = (if v = IsWisp i then map fst ps else [])" for v
  proof (cases "v = IsWisp i")
    case True
    then have "filter (\<lambda>p. fst p \<noteq> '''' \<and> snd p = v) ps = ps" using ps assms(1) by (auto simp: filter_id_conv)
    with True show ?thesis by argo
  next
    case False
    then have "filter (\<lambda>p. fst p \<noteq> '''' \<and> snd p = v) ps = []" using ps by (auto simp: filter_empty_conv)
    with False show ?thesis by simp
  qed
  moreover have "dedup_from [] (map fst ps) = [ID i]"
  proof -
    have "dedup_from [] (map fst ps) = ID i # dedup_from [ID i] (map fst (map (\<lambda>d. (dep_source i d, IsWisp i)) (Dependencies i)))"
      by (simp add: ps_def)
    also have "\<dots> = [ID i]" using all assms(2) by simp
    finally show ?thesis .
  qed
  moreover define pick where "pick v = dedup_from [] (map fst (filter (\<lambda>p. fst p \<noteq> '''' \<and> snd p = v) ps))" for v
  ultimately have "pick v = (if v = IsWisp i then [ID i] else [])" for v by simp
  moreover have "createBlockedRecomputeIDs [i] = (pick False, pick True)"
    by (simp add: createBlockedRecomputeIDs_def ps_def pick_def Let_def)
  ultimately show ?thesis by (cases "IsWisp i") simp_all
qed

lemma same_target_common: "same_target d cd \<Longrightarrow> \<exists>u p. targets d u p \<and> targets cd u p"
  unfolding same_target_def targets_def
  by (metis option.exhaust)

lemma create_row_spec:
  assumes c: "create_row e i0 a s = Inr (i, s1)" and un: "unused s (ID i)"
  shows "ID i \<noteq> '''' \<and> closed_at_invariant i \<and> Dependencies i = Dependencies i0 \<and>
    (\<forall>v. dep_table v s1 = dep_table v s) \<and>
    (\<forall>v. issue_table v s1 = issue_table v s @ (if v = IsWisp i then [new_row e i] else []))"
proof -
  define j where "j = (if IsInfraTypeCtx e s (IssueType i0) then i0\<lparr>Ephemeral := True\<rparr> else i0)"
  obtain bc where "NewBatchContext e create_opts s = Inr bc" and cs: "createIssueSQLite e bc j a s = Inr (i, s1)"
    using c by (auto simp: create_row_def j_def Let_def)
  then have o: "OrphanHandling (Opts bc) \<noteq> ''skip''"
    by (auto simp: NewBatchContext_def create_opts_def default_batch_opts_def Let_def)
  have "filter (\<lambda>r. ID r \<noteq> ID i) (issue_table v s) = issue_table v s" for v
    using unused_row[OF un] by (simp add: filter_id_conv)
  moreover have "Dependencies j = Dependencies i0" by (simp add: j_def)
  ultimately show ?thesis using createIssueSQLite_spec[OF cs o] by auto
qed

lemma CreateIssue_spec:
  assumes g: "good_db e s"
    and un: "\<forall>i s1. create_row e i0 a s = Inr (i, s1) \<longrightarrow> unused s (ID i) \<and>
      (\<forall>dep\<in>set (Dependencies i0). IssueID dep = '''' \<or> IssueID dep = ID i)"
    and nw: "\<forall>dep\<in>set (Dependencies i0). \<forall>v. \<forall>d\<in>set (dep_table v s). DepType dep = DepParentChild \<longrightarrow>
      dtype d = DepWaitsFor \<longrightarrow> (\<forall>u. \<not> targets d u (DependsOnID dep))"
  shows "\<exists>r. CreateIssue e i0 a s = Some r \<and> (\<forall>i s'. r = Inr (i, s') \<longrightarrow> good_db e s' \<and>
     (\<forall>v. \<exists>ds. dep_table v s' = dep_table v s @ ds \<and> (\<forall>d\<in>set ds. \<exists>dep\<in>set (Dependencies i0). from_dep i dep d)) \<and>
     (\<exists>row. select_row (ID i) (issue_table (IsWisp i) s') = Some row \<and> row\<lparr>IsBlocked := False\<rparr> = new_row e i) \<and>
     (\<forall>v x. x \<noteq> ID i \<longrightarrow>
        map_option (\<lambda>r. r\<lparr>IsBlocked := False\<rparr>) (select_row x (issue_table v s')) =
        map_option (\<lambda>r. r\<lparr>IsBlocked := False\<rparr>) (select_row x (issue_table v s))))"
proof (cases "create_row e i0 a s")
  case (Inl err)
  then show ?thesis by (simp add: CreateIssue_def)
next
  case (Inr p)
  obtain i s1 where c: "create_row e i0 a s = Inr (i, s1)" using Inr by (cases p) auto
  have u: "unused s (ID i)" and own: "\<forall>dep\<in>set (Dependencies i0). dep_source i dep = ID i"
    using un c by (auto simp: dep_source_def)
  note cr = create_row_spec[OF c u]
  have own': "\<forall>dep\<in>set (Dependencies i). dep_source i dep = ID i" using own cr by simp
  show ?thesis
  proof (cases "PersistDependencies e a create_opts [i] s1")
    case (Inl err)
    then show ?thesis using c by (simp add: CreateIssue_def finish_create_def)
  next
    case (Inr q)
    obtain ch k s2 where pd: "PersistDependencies e a create_opts [i] s1 = Inr (ch, k, s2)" using Inr by (cases q) auto
    obtain ds where it: "\<And>v. issue_table v s2 = issue_table v s1"
      and dt: "\<And>v. dep_table v s2 = dep_table v s1 @ (if v = IsWisp i then ds else [])"
      and fd: "\<forall>d\<in>set ds. \<exists>dep\<in>set (Dependencies i). from_dep i dep d"
      using PersistDependencies_appends[OF pd] unfolding deps_appended_def by blast
    define s3 where "s3 = snd (ReconcileChildCounters [i] s2)"
    have r3: "same_rows s2 s3" unfolding s3_def by (rule ReconcileChildCounters_rows)
    have src: "issue_id d = ID i \<and> \<not> targets d u (ID i)" if "d \<in> set ds" for d u
      using fd own' that by (fastforce simp: from_dep_def)
    have "row_added (IsWisp i) (new_row e i) ds s s3"
      unfolding row_added_def using same_rowsD[OF r3] it dt cr src by simp
    moreover have "no_waiters ds s"
      unfolding no_waiters_def
    proof (intro ballI impI allI notI)
      fix cd v d
      assume cd: "cd \<in> set ds" "dtype cd = DepParentChild" and d: "d \<in> set (dep_table v s)" "dtype d = DepWaitsFor"
        and st: "same_target d cd"
      obtain dep where dep: "dep \<in> set (Dependencies i)" "from_dep i dep cd" using fd cd(1) by blast
      obtain u p where "targets d u p" "targets cd u p"
        using same_target_common[OF st] by blast
      then have "targets d u (DependsOnID dep)" using dep(2) by (auto simp: from_dep_def)
      then show False using nw dep cd(2) d cr by (auto simp: from_dep_def)
    qed
    moreover have ids: "createBlockedRecomputeIDs [i] = (if IsWisp i then ([], [ID i]) else ([ID i], []))"
      by (rule createBlockedRecomputeIDs_own[OF _ own']) (use cr in simp)
    define js where "js = fst (createBlockedRecomputeIDs [i])"
    define ws where "ws = snd (createBlockedRecomputeIDs [i])"
    have "scope_of js ws = {(IsWisp i, ID (new_row e i))}"
      by (simp add: js_def ws_def ids scope_of_def)
    ultimately obtain t where t: "recomputeIsBlocked e js ws s3 = Some t" "good_db e t" "same_but_flags s3 t"
      using row_added_repairs[OF g, of "IsWisp i" "new_row e i" ds s3 js ws] u cr
      by (auto simp: closed_at_invariant_def)
    have r: "CreateIssue e i0 a s = Some (Inr (i, t))"
    proof -
      have "createBlockedRecomputeIDs [i] = (js, ws)" by (simp add: js_def ws_def)
      then show ?thesis using c pd t(1) by (simp add: CreateIssue_def finish_create_def s3_def Let_def)
    qed
    have tab: "issue_table v s3 = issue_table v s @ (if v = IsWisp i then [new_row e i] else [])" for v
      using same_rowsD[OF r3] it cr by simp
    have nf: "select_row (ID i) (issue_table v s) = None" for v
      using u by (simp add: select_row_None unused_def)
    have sel: "select_row x (xs @ ys) = (case select_row x xs of None \<Rightarrow> select_row x ys | Some r \<Rightarrow> Some r)" for x xs ys
      by (induction xs) (auto simp: select_row_def)
    have "select_row (ID i) (issue_table (IsWisp i) s3) = Some (new_row e i)"
      unfolding tab sel nf by (simp add: select_row_def)
    then have "map_option (\<lambda>r. r\<lparr>IsBlocked := False\<rparr>) (select_row (ID i) (issue_table (IsWisp i) t)) = Some (new_row e i)"
      using same_but_flags_select[OF t(3)] by (simp add: new_row_def issue.defs)
    then have row: "\<exists>row. select_row (ID i) (issue_table (IsWisp i) t) = Some row \<and> row\<lparr>IsBlocked := False\<rparr> = new_row e i"
      by auto
    have "map_option (\<lambda>r. r\<lparr>IsBlocked := False\<rparr>) (select_row x (issue_table v t)) =
        map_option (\<lambda>r. r\<lparr>IsBlocked := False\<rparr>) (select_row x (issue_table v s))" if "x \<noteq> ID i" for v x
    proof -
      have "select_row x (issue_table v s3) = select_row x (issue_table v s)"
        unfolding tab sel using that by (simp add: select_row_def split: option.split)
      then show ?thesis using same_but_flags_select[OF t(3)] by simp
    qed
    moreover have "\<exists>ds. dep_table v t = dep_table v s @ ds \<and> (\<forall>d\<in>set ds. \<exists>dep\<in>set (Dependencies i0). from_dep i dep d)" for v
      using same_but_flags_views(5)[OF t(3), of v] same_rowsD[OF r3] dt[of v] cr fd by auto
    ultimately show ?thesis using r row t(2) by blast
  qed
qed

text \<open>
  (C5) Creating an issue on a good database returns.  If it does not fail, the new
  id is the key of the inserted row, every other row is as before up to its
  flag, and the invariant holds again, flags included - provided nothing refers
  to the new id, its dependencies are its own, and no waits-for row waits on a
  parent it is created under.
\<close>

theorem create_issue_complete:
  assumes g: "good_db e s"
    and un: "\<And>i s1. create_row e i0 a s = Inr (i, s1) \<Longrightarrow> unused s (ID i) \<and>
      (\<forall>dep\<in>set (Dependencies i0). IssueID dep = '''' \<or> IssueID dep = ID i)"
    and nw: "\<And>dep v d u. dep \<in> set (Dependencies i0) \<Longrightarrow> DepType dep = DepParentChild \<Longrightarrow>
      d \<in> set (dep_table v s) \<Longrightarrow> dtype d = DepWaitsFor \<Longrightarrow> \<not> targets d u (DependsOnID dep)"
  shows "\<exists>r. CreateIssue e i0 a s = Some r \<and> (\<forall>i s'. r = Inr (i, s') \<longrightarrow> good_db e s' \<and>
     (\<exists>row. select_row (ID i) (issue_table (IsWisp i) s') = Some row \<and> row\<lparr>IsBlocked := False\<rparr> = new_row e i) \<and>
     (\<forall>v x. x \<noteq> ID i \<longrightarrow>
        map_option (\<lambda>r. r\<lparr>IsBlocked := False\<rparr>) (select_row x (issue_table v s')) =
        map_option (\<lambda>r. r\<lparr>IsBlocked := False\<rparr>) (select_row x (issue_table v s))))"
proof -
  have u: "\<forall>i s1. create_row e i0 a s = Inr (i, s1) \<longrightarrow> unused s (ID i) \<and>
      (\<forall>dep\<in>set (Dependencies i0). IssueID dep = [] \<or> IssueID dep = ID i)" using un by blast
  have w: "\<forall>dep\<in>set (Dependencies i0). \<forall>v. \<forall>d\<in>set (dep_table v s). DepType dep = DepParentChild \<longrightarrow>
      dtype d = DepWaitsFor \<longrightarrow> (\<forall>u. \<not> targets d u (DependsOnID dep))" using nw by blast
  show ?thesis using CreateIssue_spec[OF g u w] by blast
qed

subsection \<open>Examples\<close>

definition with_config :: "db \<Rightarrow> (string \<times> string) list \<Rightarrow> db" where
  "with_config s cfg = s\<lparr>t_config := (''issue_prefix'', ''bd'') # cfg\<rparr>"

definition ex_issue :: "string \<Rightarrow> dependency list \<Rightarrow> issue" where
  "ex_issue x deps = blank_issue\<lparr>ID := x, ContentHash := ''h'', Dependencies := deps\<rparr>"

lemma with_config_good: "good_db e (with_config s cfg) = good_db e s"
  by (rule good_db_tables) (simp_all add: with_config_def table_defs)

theorem create_issue_complete_witness:
  "\<exists>i s'. CreateIssue ex_env (ex_issue ''bd-9'' [ex_new_dep '''' ''bd-1'' ''blocks'' '''']) ''amy''
       (with_config (chain True) []) = Some (Inr (i, s')) \<and> good_db ex_env s'"
proof -
  let ?i = "ex_issue ''bd-9'' [ex_new_dep '''' ''bd-1'' ''blocks'' '''']" and ?s = "with_config (chain True) []"
  have ok: "case CreateIssue ex_env ?i ''amy'' ?s of Some (Inr r) \<Rightarrow> True | _ \<Rightarrow> False" by code_simp
  have id: "case create_row ex_env ?i ''amy'' ?s of Inr (i, s1) \<Rightarrow> ID i = ''bd-9'' | _ \<Rightarrow> False" by code_simp
  have un: "unused ?s ''bd-9''" by code_simp
  have d: "Dependencies ?i = [ex_new_dep '''' ''bd-1'' ''blocks'' '''']" by (simp add: ex_issue_def)
  have g: "good_db ex_env ?s" unfolding with_config_good by (rule chain_good)
  obtain r where r: "CreateIssue ex_env ?i ''amy'' ?s = Some r" "\<forall>i s'. r = Inr (i, s') \<longrightarrow> good_db ex_env s'"
    using create_issue_complete[OF g, of ?i "''amy''"] un id d
    by (auto simp: ex_new_dep_def const_defs split: sum.splits)
  with ok show ?thesis by (cases r) auto
qed

definition spawner :: db where
  "spawner = with_config (ex_db [ex_row ''bd-1'' ''open'' False, ex_row ''bd-2'' ''closed'' False,
       ex_row ''bd-3'' ''open'' False]
     [ex_dep ''bd-2'' ''bd-1'' ''parent-child'' '''', ex_dep ''bd-3'' ''bd-1'' ''waits-for'' ''all'']) []"

text \<open>
  An issue created as a child of an issue that another one waits on leaves the
  flag of the waiter stale: the create recomputes the new issue only.  Adding
  the same dependency to the created issue recomputes the waiter as well.
\<close>

theorem create_child_stale:
  "\<exists>i j s t u. CreateIssue ex_env (ex_issue ''bd-4'' [ex_new_dep '''' ''bd-1'' ''parent-child'' '''']) ''amy'' spawner =
       Some (Inr (i, s)) \<and>
     CreateIssue ex_env (ex_issue ''bd-4'' []) ''amy'' spawner = Some (Inr (j, t)) \<and>
     StoreAddDependency ex_env (ex_new_dep ''bd-4'' ''bd-1'' ''parent-child'' '''') ''amy'' t = Some (Inr u) \<and>
     CountIsBlockedInconsistencies ex_env spawner = 0 \<and>
     CountIsBlockedInconsistencies ex_env s = 1 \<and> CountIsBlockedInconsistencies ex_env u = 0"
proof -
  have "CountIsBlockedInconsistencies ex_env spawner = 0" by code_simp
  moreover have "returns (CreateIssue ex_env (ex_issue ''bd-4'' [ex_new_dep '''' ''bd-1'' ''parent-child'' '''']) ''amy'' spawner)
     (\<lambda>(i, s). CountIsBlockedInconsistencies ex_env s = 1)"
    by code_simp
  from returnsD[OF this] obtain i s where "CreateIssue ex_env (ex_issue ''bd-4'' [ex_new_dep '''' ''bd-1'' ''parent-child'' '''']) ''amy'' spawner =
       Some (Inr (i, s))" "CountIsBlockedInconsistencies ex_env s = 1" by auto
  moreover have "returns (CreateIssue ex_env (ex_issue ''bd-4'' []) ''amy'' spawner) (\<lambda>(j, t).
     returns (StoreAddDependency ex_env (ex_new_dep ''bd-4'' ''bd-1'' ''parent-child'' '''') ''amy'' t)
       (\<lambda>u. CountIsBlockedInconsistencies ex_env u = 0))"
    by code_simp
  from returnsD[OF this] obtain j t where "CreateIssue ex_env (ex_issue ''bd-4'' []) ''amy'' spawner = Some (Inr (j, t))"
    "returns (StoreAddDependency ex_env (ex_new_dep ''bd-4'' ''bd-1'' ''parent-child'' '''') ''amy'' t)
       (\<lambda>u. CountIsBlockedInconsistencies ex_env u = 0)" by auto
  moreover from returnsD[OF this(2)] obtain u where
    "StoreAddDependency ex_env (ex_new_dep ''bd-4'' ''bd-1'' ''parent-child'' '''') ''amy'' t = Some (Inr u)"
    "CountIsBlockedInconsistencies ex_env u = 0" by auto
  ultimately show ?thesis by blast
qed

definition counted :: db where
  "counted = with_config (ex_db [(ex_row ''bd-2'' ''open'' False)\<lparr>Title := ''mine''\<rparr>] [])
     [(''issue_id_mode'', ''counter'')] \<lparr>t_counters := [(''bd'', 1)]\<rparr>"

text \<open>
  In counter mode the next number may be the id of an existing issue; creating
  an issue without an id then replaces that issue instead of failing.
\<close>

theorem counter_id_overwrites:
  "\<exists>i s r. CreateIssue ex_env ((ex_issue '''' [])\<lparr>Title := ''other''\<rparr>) ''amy'' counted = Some (Inr (i, s)) \<and>
     Title (hd (t_issues counted)) = ''mine'' \<and> ID i = ''bd-2'' \<and>
     t_issues s = [r] \<and> ID r = ''bd-2'' \<and> Title r = ''other''"
proof -
  have t: "Title (hd (t_issues counted)) = ''mine''" by code_simp
  have "returns (CreateIssue ex_env ((ex_issue '''' [])\<lparr>Title := ''other''\<rparr>) ''amy'' counted)
     (\<lambda>(i, s). ID i = ''bd-2'' \<and> length (t_issues s) = 1 \<and> ID (hd (t_issues s)) = ''bd-2'' \<and>
        Title (hd (t_issues s)) = ''other'')"
    by code_simp
  from returnsD[OF this] obtain i s where "CreateIssue ex_env ((ex_issue '''' [])\<lparr>Title := ''other''\<rparr>) ''amy'' counted = Some (Inr (i, s))"
    "ID i = ''bd-2''" "length (t_issues s) = 1" "ID (hd (t_issues s)) = ''bd-2''" "Title (hd (t_issues s)) = ''other''" by auto
  moreover from this(3) obtain r where "t_issues s = [r]" by (cases "t_issues s") auto
  ultimately show ?thesis using t by auto
qed

text \<open>
  When \<^verbatim>\<open>status.custom\<close> is set in its own format with categories, the create
  path rejects every custom status that has a category: it reads the raw value,
  whose entries still carry the category, although the resolved custom statuses
  accept the status.
\<close>

theorem custom_status_rejected:
  assumes "list_all good_status ss" "distinct (CustomStatusNames ss)" "length ss \<le> 50"
    and c: "c \<in> set ss" "Category c \<noteq> CategoryUnspecified"
    and js: "unmarshal_strs e (render_config ss) = None" "unmarshal_left e (render_config ss) = []"
    and set: "SetConfig e ''status.custom'' (render_config ss) s = Inr s'"
  shows "status_IsValidWithCustomStatuses (Name c) (ResolveCustomStatusesDetailed e s') \<and>
    (\<forall>i r. Status i = Name c \<longrightarrow> CreateIssue e i a s' \<noteq> Some (Inr r))"
proof -
  have ne: "ss \<noteq> []" using c(1) by auto
  have s': "s' = s\<lparr>t_config := kv_replace ''status.custom'' (render_config ss) (t_config s), t_custom_statuses := ss\<rparr>"
    using set_status_config[OF assms(1-3) ne, of e s] set by simp
  have cfg: "GetConfig s' ''status.custom'' = render_config ss" by (simp add: s' GetConfig_def)
  have gcs: "GetCustomStatuses e s' = map render_status ss"
    by (rule raw_statuses[OF assms(1) ne js cfg])
  have hid: "Name c \<notin> set (GetCustomStatuses e s')"
    unfolding gcs using category_status_hidden assms(1,2) c by (simp add: CustomStatusNames_def)
  have "\<not> status_IsValid (Name c)" using assms(1) c(1) by (auto simp: list_all_iff good_status_def)
  then have inv: "\<not> status_IsValidWithCustom (Name c) (GetCustomStatuses e s')"
    using hid by (simp add: status_IsValidWithCustom_def)
  have "sort_key Name ss \<noteq> []" using ne by (metis set_empty set_sort)
  then have "ResolveCustomStatusesDetailed e s' = sort_key Name ss"
    by (simp add: ResolveCustomStatusesDetailed_def s' Let_def)
  then have "status_IsValidWithCustomStatuses (Name c) (ResolveCustomStatusesDetailed e s')"
    using c(1) by (auto simp: status_IsValidWithCustomStatuses_def)
  moreover have "CreateIssue e i a s' \<noteq> Some (Inr r)" if st: "Status i = Name c" for i r
  proof
    assume "CreateIssue e i a s' = Some (Inr r)"
    then obtain i1 s1 where cr: "create_row e i a s' = Inr (i1, s1)"
      by (auto simp: CreateIssue_def split: sum.splits)
    define j where "j = (if IsInfraTypeCtx e s' (IssueType i) then i\<lparr>Ephemeral := True\<rparr> else i)"
    obtain bc where bc: "NewBatchContext e create_opts s' = Inr bc" and cs: "createIssueSQLite e bc j a s' = Inr (i1, s1)"
      using cr by (auto simp: create_row_def j_def Let_def)
    have "CustomStatuses bc = GetCustomStatuses e s'" using bc by (auto simp: NewBatchContext_def Let_def)
    moreover obtain k where "PrepareIssueForInsert e (CustomStatuses bc) (CustomTypes bc) j = Inr k"
      using cs by (auto simp: createIssueSQLite_def)
    moreover have "Status j = Name c" by (simp add: j_def st)
    ultimately show False using Prepare_status inv by metis
  qed
  ultimately show ?thesis by blast
qed

theorem custom_status_rejected_witness:
  "\<exists>s'. SetConfig ex_env ''status.custom'' (render_config [\<lparr>Name = ''qa'', Category = ''wip''\<rparr>]) (with_config (chain True) []) = Inr s' \<and>
     (\<forall>r. CreateIssue ex_env ((ex_issue ''bd-9'' [])\<lparr>Status := ''qa''\<rparr>) ''amy'' s' \<noteq> Some (Inr r))"
proof -
  let ?ss = "[\<lparr>Name = ''qa'', Category = ''wip''\<rparr>]"
  have g: "list_all good_status ?ss" "distinct (CustomStatusNames ?ss)" "length ?ss \<le> 50" by code_simp+
  obtain s' where s': "SetConfig ex_env ''status.custom'' (render_config ?ss) (with_config (chain True) []) = Inr s'"
    using set_status_config[OF g] by simp
  have "Category \<lparr>Name = ''qa'', Category = ''wip''\<rparr> \<noteq> CategoryUnspecified" by (simp add: const_defs)
  from custom_status_rejected[OF g _ this _ _ s', of "''amy''"] show ?thesis
    using s' by (auto simp: ex_env_def)
qed

end
