(* ===== verification/Delete.thy ===== *)
theory Delete
  imports Deps
begin

text \<open>
  Deleting issues (\<^verbatim>\<open>internal/storage/issueops/delete.go\<close>,
  \<^verbatim>\<open>DeleteIssuesBySourceRepoInTx\<close> of \<^verbatim>\<open>bulk_ops.go\<close>) and the batch routing of
  \<^verbatim>\<open>wisp_routing.go\<close>.

  The doltlite schema gives \<^verbatim>\<open>dependencies\<close> no foreign key, and the store opens
  the database without turning the enforcement of foreign keys on, so a DELETE
  of a row of \<^verbatim>\<open>issues\<close> or \<^verbatim>\<open>wisps\<close> removes that row only.  Go iterates over a
  map in any order: the order is the parameter \<^verbatim>\<open>ord\<close>, a list of a set.

  The two batch deletions recompute \<^verbatim>\<open>is_blocked\<close> with the statements written for a
  MySQL server (\<^verbatim>\<open>UPDATE issues i SET i.is_blocked ...\<close>, \<^verbatim>\<open>JSON_UNQUOTE\<close>), also when
  the doltlite store calls them, whose engine is SQLite: \<^verbatim>\<open>mysql\<close> says whether the
  engine behind the transaction accepts these statements.
\<close>

text \<open>
  \<^verbatim>\<open>RecomputeIsBlockedInTx\<close>, without the switch to SQLite: with no ids it executes no
  statement, otherwise the first one is a syntax error on an engine other than MySQL.
\<close>

definition RecomputeIsBlocked ::
  "bool \<Rightarrow> env \<Rightarrow> string list \<Rightarrow> string list \<Rightarrow> db \<Rightarrow> (store_error + db) option" where
  "RecomputeIsBlocked mysql e issueIDs wispIDs s =
    (if issueIDs = [] \<and> wispIDs = [] then Some (Inr s)
     else if mysql then map_option Inr (recomputeIsBlocked e issueIDs wispIDs s)
     else Some (Inl (OpFailed ''syntax error'')))"

subsection \<open>Routing a batch of ids\<close>

definition wisp_hits :: "db \<Rightarrow> string list \<Rightarrow> string set" where
  "wisp_hits s ids = set (concat (map (\<lambda>batch. filter (\<lambda>x. x \<in> set batch) (map ID (t_wisps s)))
     (chunks queryBatchSize ids)))"

definition WispIDSet :: "db \<Rightarrow> string list \<Rightarrow> string set" where
  "WispIDSet s ids = (if ids = [] then {} else if t_wisps s = [] then {} else wisp_hits s ids)"

definition partitionByWispSet :: "string list \<Rightarrow> string set \<Rightarrow> string list \<times> string list" where
  "partitionByWispSet ids wispSet = (filter (\<lambda>x. x \<in> wispSet) ids, filter (\<lambda>x. x \<notin> wispSet) ids)"

definition PartitionWispIDs :: "db \<Rightarrow> string list \<Rightarrow> string list \<times> string list" where
  "PartitionWispIDs s ids =
    (if ids = [] then ([], [])
     else if t_wisps s = [] then ([], ids)
     else (let wispSet = wisp_hits s ids
           in (filter (\<lambda>x. x \<in> wispSet) ids, filter (\<lambda>x. x \<notin> wispSet) ids)))"

subsection \<open>One issue\<close>

definition DeleteWispFromDependencies :: "string \<Rightarrow> db \<Rightarrow> db" where
  "DeleteWispFromDependencies wispID s =
     s\<lparr>t_deps := filter (\<lambda>d. depends_on_wisp_id d \<noteq> Some wispID) (t_deps s)\<rparr>"

definition DeleteWispsFromDependencies :: "string list \<Rightarrow> db \<Rightarrow> db" where
  "DeleteWispsFromDependencies wispIDs s =
    (if wispIDs = [] then s
     else s\<lparr>t_deps := filter (\<lambda>d. depends_on_wisp_id d \<notin> Some ` set wispIDs) (t_deps s)\<rparr>)"

definition deleteIssueRow :: "string \<Rightarrow> bool \<Rightarrow> db \<Rightarrow> store_error + db" where
  "deleteIssueRow x isWisp s =
    (let rows = length (filter (\<lambda>r. ID r = x) (issue_table isWisp s));
         s1 = set_issue_table isWisp (filter (\<lambda>r. ID r \<noteq> x) (issue_table isWisp s)) s
     in if rows = 0 then Inl (NotFound x)
        else Inr (if isWisp then DeleteWispFromDependencies x s1 else s1))"

definition DeleteIssue :: "env \<Rightarrow> string \<Rightarrow> db \<Rightarrow> (store_error + db) option" where
  "DeleteIssue e x s =
    (let isWisp = IsActiveWisp s x;
         (affectedIssues, affectedWisps) =
           (if isWisp then AffectedByDeletion s [] [x] else AffectedByDeletion s [x] [])
     in (case deleteIssueRow x isWisp s of
           Inl err \<Rightarrow> Some (Inl err)
         | Inr s1 \<Rightarrow> map_option Inr (recomputeIsBlocked e affectedIssues affectedWisps s1)))"

subsection \<open>Dependents\<close>

definition deleteBatchSize :: nat where "deleteBatchSize = 50"

definition maxRecursiveResults :: nat where "maxRecursiveResults = 10000"

text \<open>\<^verbatim>\<open>SELECT issue_id FROM t WHERE <target> IN (batch)\<close> over both tables.\<close>

definition dependents :: "db \<Rightarrow> string list \<Rightarrow> dep_row list" where
  "dependents s batch = concat (map (\<lambda>w.
     filter (\<lambda>d. \<exists>x\<in>set batch. dep_target d = Some x) (dep_table w s)) [False, True])"

definition visit_dependent :: "dep_row \<Rightarrow> string set \<times> string list \<Rightarrow> string set \<times> string list" where
  "visit_dependent d st =
    (let (result, toProcess) = st
     in if issue_id d \<in> result then (result, toProcess)
        else (insert (issue_id d) result, toProcess @ [issue_id d]))"

lemma visit_dependent_simp [simp]:
  "visit_dependent d (result, q) =
    (if issue_id d \<in> result then (result, q) else (insert (issue_id d) result, q @ [issue_id d]))"
  by (simp add: visit_dependent_def)

lemma visit_dependents_grow:
  assumes "fold visit_dependent ds (result, q) = (result', q')"
  shows "\<exists>new. q' = q @ new \<and> result' = result \<union> set new \<and> distinct new \<and> set new \<inter> result = {} \<and>
    set new = issue_id ` set ds - result"
  using assms
proof (induction ds arbitrary: result q)
  case (Cons d ds)
  show ?case
  proof (cases "issue_id d \<in> result")
    case True
    then have "fold visit_dependent ds (result, q) = (result', q')"
      using Cons.prems by simp
    moreover have "issue_id ` set (d # ds) - result = issue_id ` set ds - result" using True by auto
    ultimately show ?thesis using Cons.IH by metis
  next
    case False
    then have "fold visit_dependent ds (insert (issue_id d) result, q @ [issue_id d]) = (result', q')"
      using Cons.prems by simp
    from Cons.IH[OF this] obtain new where new: "q' = (q @ [issue_id d]) @ new"
      "result' = insert (issue_id d) result \<union> set new" "distinct new"
      "set new \<inter> insert (issue_id d) result = {}" "set new = issue_id ` set ds - insert (issue_id d) result" by blast
    then show ?thesis using False by (intro exI[of _ "issue_id d # new"]) auto
  qed
qed simp

lemma dependents_sources: "issue_id ` set (dependents s batch) \<subseteq> sources s"
  by (auto simp: dependents_def sources_def dep_table_def)

function find_dependents :: "db \<Rightarrow> string set \<Rightarrow> string list \<Rightarrow> store_error + string set" where
  "find_dependents s result toProcess =
    (if toProcess = [] then Inr result
     else if card result > maxRecursiveResults then Inl (OpFailed ''cascade traversal aborted'')
     else (let (result', toProcess') = fold visit_dependent (dependents s (take deleteBatchSize toProcess))
                 (result, drop deleteBatchSize toProcess)
           in find_dependents s result' toProcess'))"
  by pat_completeness auto
termination
proof (relation "measure (\<lambda>(s, result, q). card (sources s - result) + length q)", goal_cases)
  case (2 s result q x result' q')
  let ?ds = "dependents s (take deleteBatchSize q)"
  have "fold visit_dependent ?ds (result, drop deleteBatchSize q) = (result', q')" using 2(3,4) by simp
  from visit_dependents_grow[OF this] obtain new where
    new: "q' = drop deleteBatchSize q @ new" "result' = result \<union> set new" "distinct new" "set new \<inter> result = {}"
      "set new = issue_id ` set ?ds - result" by blast
  have sub: "set new \<subseteq> sources s - result" using new(4,5) dependents_sources by blast
  have "card (sources s - result') = card (sources s - result) - length new"
  proof -
    have "sources s - result' = (sources s - result) - set new" using new(2) by blast
    then show ?thesis using card_Diff_subset[of "set new" "sources s - result"] sub distinct_card[OF new(3)] by simp
  qed
  moreover have "length new \<le> card (sources s - result)"
    using card_mono[OF _ sub] distinct_card[OF new(3)] by simp
  moreover have "length q' < length q + length new" using 2(1) new(1) by (simp add: deleteBatchSize_def)
  ultimately show ?case by simp
qed simp

declare find_dependents.simps [simp del]

definition FindAllDependents :: "db \<Rightarrow> string list \<Rightarrow> store_error + string set" where
  "FindAllDependents s ids = find_dependents s (set ids) ids"

definition findExternalDependents :: "db \<Rightarrow> string list \<Rightarrow> string set \<Rightarrow> string set" where
  "findExternalDependents s ids idSet =
     (\<Union>batch\<in>set (chunks deleteBatchSize ids). issue_id ` set (dependents s batch) - idSet)"

text \<open>The dependents outside the set of each id of a batch, in the order of the rows.\<close>

definition external_by_source :: "db \<Rightarrow> string set \<Rightarrow> string list \<Rightarrow> string \<Rightarrow> string list" where
  "external_by_source s idSet batch x =
     map issue_id (filter (\<lambda>d. dep_target d = Some x \<and> issue_id d \<notin> idSet) (dependents s batch))"

definition first_external :: "db \<Rightarrow> string set \<Rightarrow> string list \<Rightarrow> (string \<times> string list) option" where
  "first_external s idSet ids =
     find (\<lambda>p. snd p \<noteq> []) (concat (map (\<lambda>batch. map (\<lambda>x. (x, external_by_source s idSet batch x)) batch)
       (chunks deleteBatchSize ids)))"

definition CountRowsForIssueIDs :: "('a \<Rightarrow> string) \<Rightarrow> 'a list \<Rightarrow> string list \<Rightarrow> nat" where
  "CountRowsForIssueIDs issue_of table ids =
     sum_list (map (\<lambda>batch. length (filter (\<lambda>r. issue_of r \<in> set batch) table)) (chunks deleteBatchSize ids))"

subsection \<open>A batch of issues\<close>

record delete_result =
  DeletedCount :: nat
  DependenciesCount :: nat
  LabelsCount :: nat
  EventsCount :: nat
  OrphanedIssues :: "string list"

definition no_deletes :: delete_result where
  "no_deletes = \<lparr>DeletedCount = 0, DependenciesCount = 0, LabelsCount = 0, EventsCount = 0, OrphanedIssues = []\<rparr>"

text \<open>The ids to delete and the orphans, or an error with the result so far.\<close>

definition expand_ids ::
  "(string set \<Rightarrow> string list) \<Rightarrow> string list \<Rightarrow> string list \<Rightarrow> bool \<Rightarrow> bool \<Rightarrow> db \<Rightarrow>
   (store_error \<times> delete_result option) + (string list \<times> string list)" where
  "expand_ids ord ids regularIDs cascade force s =
    (if cascade then
       (case FindAllDependents s regularIDs of
          Inl err \<Rightarrow> Inl (err, None)
        | Inr allToDelete \<Rightarrow> Inr (ord allToDelete, []))
     else if \<not> force then
       (case first_external s (set ids) regularIDs of
          Some (x, deps) \<Rightarrow> Inl (OpFailed ''issue has dependents not in deletion set'', Some (no_deletes\<lparr>OrphanedIssues := deps\<rparr>))
        | None \<Rightarrow> Inr (regularIDs, []))
     else Inr (regularIDs, ord (findExternalDependents s regularIDs (set ids))))"

definition inbound_count :: "db \<Rightarrow> string list \<Rightarrow> string set \<Rightarrow> nat" where
  "inbound_count s ids allDeletedSet =
     sum_list (map (\<lambda>batch. length (filter (\<lambda>d. issue_id d \<notin> allDeletedSet) (dependents s batch)))
       (chunks deleteBatchSize ids))"

definition delete_counts :: "db \<Rightarrow> string list \<Rightarrow> string list \<Rightarrow> string list \<Rightarrow> string list \<Rightarrow> delete_result" where
  "delete_counts s finalRegularIDs cascadeWispIDs allWispIDs expandedRegularIDs =
     no_deletes\<lparr>DeletedCount := length finalRegularIDs + length allWispIDs,
       DependenciesCount := CountRowsForIssueIDs issue_id (dep_table False s) finalRegularIDs +
         CountRowsForIssueIDs issue_id (dep_table True s) cascadeWispIDs +
         inbound_count s expandedRegularIDs (set finalRegularIDs \<union> set allWispIDs),
       LabelsCount := CountRowsForIssueIDs fst (label_table False s) finalRegularIDs +
         CountRowsForIssueIDs fst (label_table True s) cascadeWispIDs,
       EventsCount := CountRowsForIssueIDs ev_issue (event_table False s) finalRegularIDs +
         CountRowsForIssueIDs ev_issue (event_table True s) cascadeWispIDs\<rparr>"

definition delete_regular_batches :: "string list \<Rightarrow> db \<Rightarrow> nat \<times> db" where
  "delete_regular_batches ids s =
     fold (\<lambda>batch (n, s). (n + length (filter (\<lambda>r. ID r \<in> set batch) (t_issues s)),
         s\<lparr>t_issues := filter (\<lambda>r. ID r \<notin> set batch) (t_issues s)\<rparr>))
       (chunks deleteBatchSize ids) (0, s)"

definition DeleteIssues ::
  "bool \<Rightarrow> (string set \<Rightarrow> string list) \<Rightarrow> env \<Rightarrow> string list \<Rightarrow> bool \<Rightarrow> bool \<Rightarrow> bool \<Rightarrow> db \<Rightarrow>
   ((store_error \<times> delete_result option) + (delete_result \<times> db)) option" where
  "DeleteIssues mysql ord e ids cascade force dryRun s =
    (if ids = [] then Some (Inr (no_deletes, s))
     else
      (let (initialWispIDs, regularIDs) = PartitionWispIDs s ids
       in case expand_ids ord ids regularIDs cascade force s of
         Inl err \<Rightarrow> Some (Inl err)
       | Inr (expandedRegularIDs, orphans) \<Rightarrow>
          (let (cascadeWispIDs, finalRegularIDs) = PartitionWispIDs s expandedRegularIDs;
               allWispIDs = initialWispIDs @ cascadeWispIDs;
               result = (delete_counts s finalRegularIDs cascadeWispIDs allWispIDs expandedRegularIDs)
                 \<lparr>OrphanedIssues := orphans\<rparr>
           in if dryRun then Some (Inr (result, s))
              else
               (let (affectedIssues, affectedWisps) = AffectedByDeletion s finalRegularIDs allWispIDs
                in case fold_res (\<lambda>x s. deleteIssueRow x True s) allWispIDs s of
                     Inl err \<Rightarrow> Some (Inl (err, None))
                   | Inr s1 \<Rightarrow>
                      (let (totalRegularsDeleted, s2) = delete_regular_batches finalRegularIDs s1
                       in map_option (map_sum (\<lambda>err. (err, None))
                              (\<lambda>s3. (result\<lparr>DeletedCount := totalRegularsDeleted + length allWispIDs\<rparr>, s3)))
                            (RecomputeIsBlocked mysql e affectedIssues affectedWisps s2))))))"

definition DeleteIssuesBySourceRepo :: "bool \<Rightarrow> env \<Rightarrow> string \<Rightarrow> db \<Rightarrow> (store_error + (nat \<times> db)) option" where
  "DeleteIssuesBySourceRepo mysql e sourceRepo s =
    (let issueIDs = map ID (filter (\<lambda>r. SourceRepo r = sourceRepo) (t_issues s))
     in if issueIDs = [] then Some (Inr (0, s))
        else
         (let (affectedIssues, affectedWisps) = AffectedByDeletion s issueIDs [];
              rowsAffected = length (filter (\<lambda>r. SourceRepo r = sourceRepo) (t_issues s));
              s1 = s\<lparr>t_issues := filter (\<lambda>r. SourceRepo r \<noteq> sourceRepo) (t_issues s)\<rparr>
          in map_option (map_sum id (\<lambda>s2. (rowsAffected, s2)))
               (RecomputeIsBlocked mysql e affectedIssues affectedWisps s1)))"

end
