(* ===== verification/Labels.thy ===== *)
theory Labels
  imports Delete Create "HOL-Library.List_Lexorder" "HOL-Library.Char_ord" "HOL-Library.Product_Lexorder"
begin

text \<open>
  Labels and comments (\<^verbatim>\<open>internal/storage/issueops/labels.go\<close>, \<^verbatim>\<open>comments.go\<close>, the
  batched readers of \<^verbatim>\<open>bulk_ops.go\<close>, and \<^verbatim>\<open>AddLabel\<close> of the store).  SQLite sorts
  text by its bytes, which is the lexicographic order of \<^verbatim>\<open>string\<close> here.  The
  Go map of a batched reader is a map from ids to lists.
\<close>

subsection \<open>Batched readers\<close>

text \<open>One row of a batch: \<^verbatim>\<open>result[id] = append(result[id], v)\<close>.\<close>

definition append_row :: "('r \<Rightarrow> string) \<Rightarrow> ('r \<Rightarrow> 'v) \<Rightarrow> 'r \<Rightarrow> (string \<Rightarrow> 'v list option) \<Rightarrow> string \<Rightarrow> 'v list option" where
  "append_row id_of val r result =
     result(id_of r \<mapsto> (case result (id_of r) of None \<Rightarrow> [] | Some vs \<Rightarrow> vs) @ [val r])"

text \<open>\<^verbatim>\<open>SELECT ... WHERE issue_id IN (batch) ORDER BY issue_id, ...\<close>, batch after batch.\<close>

definition select_into ::
  "('r \<Rightarrow> string) \<Rightarrow> ('r \<Rightarrow> 'o::linorder) \<Rightarrow> ('r \<Rightarrow> 'v) \<Rightarrow> 'r list \<Rightarrow> string list \<Rightarrow>
   (string \<Rightarrow> 'v list option) \<Rightarrow> string \<Rightarrow> 'v list option" where
  "select_into id_of ord_of val table ids result =
     fold (\<lambda>batch. fold (append_row id_of val)
         (sort_key (\<lambda>r. (id_of r, ord_of r)) (filter (\<lambda>r. id_of r \<in> set batch) table)))
       (chunks queryBatchSize ids) result"

subsection \<open>Labels\<close>

definition GetLabels :: "db \<Rightarrow> string \<Rightarrow> string list" where
  "GetLabels s issueID =
     sort (map snd (filter (\<lambda>r. fst r = issueID) (label_table (IsActiveWisp s issueID) s)))"

definition getLabelsIntoFromTable ::
  "(string \<times> string) list \<Rightarrow> string list \<Rightarrow> (string \<Rightarrow> string list option) \<Rightarrow> string \<Rightarrow> string list option" where
  "getLabelsIntoFromTable table ids result = select_into fst snd snd table ids result"

definition GetLabelsForIssuesFromTable :: "(string \<times> string) list \<Rightarrow> string list \<Rightarrow> string \<Rightarrow> string list option" where
  "GetLabelsForIssuesFromTable table ids =
     (if ids = [] then Map.empty else getLabelsIntoFromTable table ids Map.empty)"

text \<open>The optional argument is a precomputed set of wisps.\<close>

definition GetLabelsForIssues :: "db \<Rightarrow> string list \<Rightarrow> string set option \<Rightarrow> string \<Rightarrow> string list option" where
  "GetLabelsForIssues s issueIDs wispSetOpt =
    (if issueIDs = [] then Map.empty
     else
      (let (wispIDs, permIDs) = (case wispSetOpt of
             Some wispSet \<Rightarrow> partitionByWispSet issueIDs wispSet
           | None \<Rightarrow> PartitionWispIDs s issueIDs);
           result = (if wispIDs \<noteq> [] then getLabelsIntoFromTable (label_table True s) wispIDs Map.empty else Map.empty)
       in if permIDs \<noteq> [] then getLabelsIntoFromTable (label_table False s) permIDs result else result))"

text \<open>\<^verbatim>\<open>INSERT OR IGNORE\<close>, and the event, which is recorded in either case.\<close>

definition AddLabel :: "string \<Rightarrow> string \<Rightarrow> string \<Rightarrow> db \<Rightarrow> db" where
  "AddLabel issueID label actor s =
    (let w = IsActiveWisp s issueID;
         s1 = (if (issueID, label) \<in> set (label_table w s) then s
               else set_label_table w (label_table w s @ [(issueID, label)]) s)
     in set_event_table w (event_table w s1 @ [label_event issueID actor label]) s1)"

definition RemoveLabel :: "string \<Rightarrow> string \<Rightarrow> string \<Rightarrow> db \<Rightarrow> db" where
  "RemoveLabel issueID label actor s =
    (let w = IsActiveWisp s issueID;
         s1 = set_label_table w (filter (\<lambda>r. r \<noteq> (issueID, label)) (label_table w s)) s
     in set_event_table w (event_table w s1 @
          [\<lparr>ev_issue = issueID, ev_type = ''label_removed'', ev_actor = actor, ev_old = '''', ev_new = '''',
            ev_comment = ''Removed label: '' @ label\<rparr>]) s1)"

subsection \<open>Comments\<close>

definition comment_order :: "comment \<Rightarrow> time \<times> string" where
  "comment_order c = (CommentCreatedAt c, CommentID c)"

definition GetIssueComments :: "db \<Rightarrow> string \<Rightarrow> comment list" where
  "GetIssueComments s issueID =
     sort_key comment_order (filter (\<lambda>c. CommentIssueID c = issueID) (comment_table (IsActiveWisp s issueID) s))"

definition getCommentsForIDsInto ::
  "comment list \<Rightarrow> string list \<Rightarrow> (string \<Rightarrow> comment list option) \<Rightarrow> string \<Rightarrow> comment list option" where
  "getCommentsForIDsInto table ids result = select_into CommentIssueID comment_order (\<lambda>c. c) table ids result"

definition GetCommentsForIssues :: "db \<Rightarrow> string list \<Rightarrow> string \<Rightarrow> comment list option" where
  "GetCommentsForIssues s issueIDs =
    (if issueIDs = [] then Map.empty
     else
      (let (wispIDs, permIDs) = PartitionWispIDs s issueIDs;
           result = (if permIDs \<noteq> [] then getCommentsForIDsInto (comment_table False s) permIDs Map.empty else Map.empty)
       in if wispIDs \<noteq> [] then getCommentsForIDsInto (comment_table True s) wispIDs result else result))"

text \<open>\<^verbatim>\<open>SELECT issue_id, COUNT(*) ... GROUP BY issue_id\<close>: the ids with at least one row.\<close>

definition count_batch :: "comment list \<Rightarrow> string list \<Rightarrow> (string \<Rightarrow> nat option) \<Rightarrow> string \<Rightarrow> nat option" where
  "count_batch table batch result =
     result ++ (\<lambda>x. let n = length (filter (\<lambda>c. CommentIssueID c = x) table)
                    in if x \<in> set batch \<and> 0 < n then Some n else None)"

definition GetCommentCounts :: "db \<Rightarrow> string list \<Rightarrow> string \<Rightarrow> nat option" where
  "GetCommentCounts s issueIDs =
    (if issueIDs = [] then Map.empty
     else
      (let (wispIDs, permIDs) = PartitionWispIDs s issueIDs
       in fold (count_batch (comment_table False s)) (chunks queryBatchSize permIDs)
            (fold (count_batch (comment_table True s)) (chunks queryBatchSize wispIDs) Map.empty)))"

text \<open>The id of the new comment is a fresh UUID of the uuid library.\<close>

definition ImportIssueComment ::
  "env \<Rightarrow> string \<Rightarrow> string \<Rightarrow> string \<Rightarrow> time \<Rightarrow> db \<Rightarrow> store_error + (comment \<times> db)" where
  "ImportIssueComment e issueID author txt createdAt s =
    (let w = IsActiveWisp s issueID;
         exists = (\<exists>r\<in>set (issue_table w s). ID r = issueID);
         id = new_uuid e txt;
         c = \<lparr>CommentID = id, CommentIssueID = issueID, Author = author, CommentText = txt, CommentCreatedAt = createdAt\<rparr>
     in if \<not> exists then Inl (OpFailed ''issue not found'')
        else if id \<in> CommentID ` set (comment_table w s) then Inl (OpFailed ''add comment'')
        else Inr (c, set_comment_table w (comment_table w s @ [c]) s))"

definition AddIssueComment :: "env \<Rightarrow> string \<Rightarrow> string \<Rightarrow> string \<Rightarrow> db \<Rightarrow> store_error + (comment \<times> db)" where
  "AddIssueComment e issueID author txt s = ImportIssueComment e issueID author txt (now e) s"

definition CountIssueComments :: "db \<Rightarrow> string \<Rightarrow> nat" where
  "CountIssueComments s issueID = length (filter (\<lambda>c. CommentIssueID c = issueID) (t_comments s))"

end
