(* ===== verification/DeleteThms.thy ===== *)
theory DeleteThms
  imports Delete CreateThms
begin

text \<open>
  Deletions: the search for dependents is the closure of the dependency
  relation, and removing rows with the rows that refer to removed wisps, followed
  by a recompute of the affected rows, keeps the invariant.
\<close>

subsection \<open>Routing\<close>

lemma wisp_hits_set: "wisp_hits s ids = {x \<in> set ids. IsActiveWisp s x}"
proof -
  have q: "0 < queryBatchSize" by (simp add: queryBatchSize_def)
  have "wisp_hits s ids = {x \<in> \<Union>(set ` set (chunks queryBatchSize ids)). IsActiveWisp s x}"
    by (auto simp: wisp_hits_def IsActiveWisp_def)
  also have "\<Union>(set ` set (chunks queryBatchSize ids)) = set ids"
    using arg_cong[OF concat_chunks[OF q, of ids], of set] by simp
  finally show ?thesis .
qed

lemma PartitionWispIDs_filter:
  "PartitionWispIDs s ids = (filter (IsActiveWisp s) ids, filter (\<lambda>x. \<not> IsActiveWisp s x) ids)"
proof -
  have "filter (\<lambda>x. x \<in> wisp_hits s ids) ids = filter (IsActiveWisp s) ids"
    "filter (\<lambda>x. x \<notin> wisp_hits s ids) ids = filter (\<lambda>x. \<not> IsActiveWisp s x) ids"
    by (rule filter_cong[OF refl]; simp add: wisp_hits_set)+
  moreover have "t_wisps s = [] \<Longrightarrow> \<not> IsActiveWisp s x" for x by (simp add: IsActiveWisp_def)
  ultimately show ?thesis by (simp add: PartitionWispIDs_def Let_def)
qed

subsection \<open>Dependents\<close>

definition depends_rel :: "db \<Rightarrow> (string \<times> string) set" where
  "depends_rel s = {(x, y). \<exists>w. \<exists>d\<in>set (dep_table w s). dep_target d = Some x \<and> issue_id d = y}"

lemma dependents_image: "issue_id ` set (dependents s batch) = depends_rel s `` set batch"
  unfolding dependents_def depends_rel_def by (auto simp: ex_bool_eq)

lemma finite_depends_closure:
  assumes "finite R"
  shows "finite ((depends_rel s)\<^sup>* `` R)"
proof (rule finite_subset)
  show "(depends_rel s)\<^sup>* `` R \<subseteq> R \<union> sources s"
  proof
    fix y assume "y \<in> (depends_rel s)\<^sup>* `` R"
    then obtain x where x: "x \<in> R" "(x, y) \<in> (depends_rel s)\<^sup>*" by blast
    from x(2) show "y \<in> R \<union> sources s"
      by (cases rule: rtranclE) (use x(1) in \<open>auto simp: depends_rel_def sources_def dep_table_def split: if_splits\<close>)
  qed
qed (use assms in simp)

lemma find_dependents_closure:
  assumes "finite R" "set q \<subseteq> R" "depends_rel s `` (R - set q) \<subseteq> R"
  shows "(find_dependents s R q = Inr A \<longrightarrow> A = (depends_rel s)\<^sup>* `` R) \<and>
    (card ((depends_rel s)\<^sup>* `` R) \<le> maxRecursiveResults \<longrightarrow> find_dependents s R q = Inr ((depends_rel s)\<^sup>* `` R))"
  using assms
proof (induction s R q rule: find_dependents.induct)
  case (1 s R q)
  let ?E = "depends_rel s"
  show ?case
  proof (cases "q = []")
    case True
    then have cl: "?E\<^sup>* `` R = R" using 1(4) Image_closed_trancl[of ?E R] by simp
    have "find_dependents s R q = Inr R" using True by (simp add: find_dependents.simps)
    then show ?thesis by (simp only: cl sum.inject) blast
  next
    case False
    let ?b = "take deleteBatchSize q"
    obtain R' q' where f: "fold visit_dependent (dependents s ?b) (R, drop deleteBatchSize q) = (R', q')" by fastforce
    from visit_dependents_grow[OF f] obtain new where new: "q' = drop deleteBatchSize q @ new" "R' = R \<union> set new"
      "set new = issue_id ` set (dependents s ?b) - R" by blast
    have R': "R' = R \<union> ?E `` set ?b" using new dependents_image by auto
    have qs: "set q = set ?b \<union> set (drop deleteBatchSize q)"
      by (metis append_take_drop_id set_append)
    have fin: "finite R'" using 1(2) new by simp
    have sub: "set q' \<subseteq> R'" using new 1(3) qs by auto
    have cl: "?E `` (R' - set q') \<subseteq> R'"
    proof
      fix y assume "y \<in> ?E `` (R' - set q')"
      then obtain x where x: "x \<in> R'" "x \<notin> set q'" "(x, y) \<in> ?E" by blast
      show "y \<in> R'"
      proof (cases "x \<in> set ?b")
        case False
        then have "x \<in> R - set q" using x new qs by auto
        with x(3) 1(4) show ?thesis using new by blast
      qed (use x(3) R' in blast)
    qed
    have "set ?b \<subseteq> R" using 1(3) qs by blast
    then have same: "?E\<^sup>* `` R' = ?E\<^sup>* `` R"
      unfolding R' by (auto intro: converse_rtrancl_into_rtrancl)
    show ?thesis
    proof (cases "card R > maxRecursiveResults")
      case True
      have "finite (?E\<^sup>* `` R)" by (rule finite_depends_closure[OF 1(2)])
      then have "card R \<le> card (?E\<^sup>* `` R)" by (rule card_mono) blast
      then show ?thesis using False True by (simp add: find_dependents.simps)
    next
      case ok: False
      have u: "find_dependents s R q = find_dependents s R' q'"
        using False ok f by (subst find_dependents.simps) simp
      show ?thesis
        using 1(1)[OF False ok f[symmetric] refl fin sub cl] unfolding u same .
    qed
  qed
qed

lemma FindAllDependents_closure:
  "(FindAllDependents s ids = Inr A \<longrightarrow> A = (depends_rel s)\<^sup>* `` set ids) \<and>
   (card ((depends_rel s)\<^sup>* `` set ids) \<le> maxRecursiveResults \<longrightarrow>
      FindAllDependents s ids = Inr ((depends_rel s)\<^sup>* `` set ids))"
  unfolding FindAllDependents_def by (rule find_dependents_closure) auto

lemma find_dependents_bounded:
  assumes "finite R" "set q \<subseteq> R" "depends_rel s `` (R - set q) \<subseteq> R" "card R \<le> maxRecursiveResults \<or> q \<noteq> []"
  shows "(\<exists>A. find_dependents s R q = Inr A) \<longleftrightarrow> card ((depends_rel s)\<^sup>* `` R) \<le> maxRecursiveResults"
proof
  assume "card ((depends_rel s)\<^sup>* `` R) \<le> maxRecursiveResults"
  then show "\<exists>A. find_dependents s R q = Inr A" using find_dependents_closure[OF assms(1-3)] by blast
next
  assume "\<exists>A. find_dependents s R q = Inr A"
  then obtain A where A: "find_dependents s R q = Inr A" by blast
  then have "A = (depends_rel s)\<^sup>* `` R" using find_dependents_closure[OF assms(1-3)] by blast
  moreover have "card A \<le> maxRecursiveResults" using A assms(1,4)
  proof (induction s R q rule: find_dependents.induct)
    case (1 s R q)
    show ?case
    proof (cases "q = []")
      case True
      then show ?thesis using 1(2,4) by (simp add: find_dependents.simps)
    next
      case False
      obtain R' q' where f: "fold visit_dependent (dependents s (take deleteBatchSize q)) (R, drop deleteBatchSize q) = (R', q')"
        by fastforce
      from visit_dependents_grow[OF f] obtain new where new: "q' = drop deleteBatchSize q @ new" "R' = R \<union> set new" by blast
      have small: "\<not> card R > maxRecursiveResults" using 1(2) False by (auto simp: find_dependents.simps)
      have "find_dependents s R' q' = Inr A"
        using 1(2) False small f by (subst (asm) find_dependents.simps) simp
      moreover have "card R' \<le> maxRecursiveResults \<or> q' \<noteq> []"
        using small new by (cases new) auto
      ultimately show ?thesis
        using 1(1)[OF False small f[symmetric] refl] 1(3) new(2) by simp
    qed
  qed
  ultimately show "card ((depends_rel s)\<^sup>* `` R) \<le> maxRecursiveResults" by simp
qed

lemma FindAllDependents_bounded:
  "(\<exists>A. FindAllDependents s ids = Inr A) \<longleftrightarrow> card ((depends_rel s)\<^sup>* `` set ids) \<le> maxRecursiveResults"
  unfolding FindAllDependents_def by (rule find_dependents_bounded) (auto simp: maxRecursiveResults_def)

subsection \<open>The rows a deletion affects\<close>

definition deleted_seeds :: "string list \<Rightarrow> string list \<Rightarrow> seeds" where
  "deleted_seeds is ws = \<lparr>seed = (\<lambda>w. []), seen = (\<lambda>w. if w then set ws else set is)\<rparr>"

definition deletion_seeds :: "db \<Rightarrow> string list \<Rightarrow> string list \<Rightarrow> seeds" where
  "deletion_seeds s is ws =
     appendChildren s True True ws (appendChildren s False True ws
       (appendChildren s True False is (appendChildren s False False is
         (fold (\<lambda>x. loadWaitersWhoseSpawnerIsParentOf s x True) ws
           (fold (\<lambda>x. loadWaitersWhoseSpawnerIsParentOf s x False) is
             (loadWaitersOnSpawnerIDsByCol s True ws (loadWaitersOnSpawnerIDsByCol s False is
               (loadBlockingDependersForIDs s True ws (loadBlockingDependersForIDs s False is
                 (deleted_seeds is ws))))))))))"

lemma AffectedByDeletion_eq:
  assumes "is \<noteq> [] \<or> ws \<noteq> []"
  shows "AffectedByDeletion s is ws = queues (expandByParentChildDescendants s 0 0 (deletion_seeds s is ws))"
proof -
  have "\<not> (is = [] \<and> ws = [])" using assms by blast
  then show ?thesis unfolding AffectedByDeletion_def deletion_seeds_def deleted_seeds_def Let_def by (simp only: if_False)
qed

lemma fold_seen:
  assumes "\<And>x sd. grows U sd (f x sd)" "x \<in> set xs" "\<And>sd. y \<in> seen (f x sd) u"
  shows "y \<in> seen (fold f xs sd) u"
  using assms(2)
proof (induction xs arbitrary: sd)
  case (Cons a xs)
  have "grows U (f a sd) (fold f xs (f a sd))" by (rule grows_fold) (rule assms(1))
  with Cons assms(3) grows_seen show ?case by (metis fold_simps(2) set_ConsD)
qed simp

definition loose :: "node set \<Rightarrow> seeds \<Rightarrow> bool" where
  "loose D sd = (\<forall>w. seen sd w = set (seed sd w) \<union> {x. (w, x) \<in> D})"

lemma loose_grows: "grows U sd sd' \<Longrightarrow> loose D sd \<Longrightarrow> loose D sd'"
  unfolding grows_def loose_def by (metis (no_types, lifting) set_append sup.assoc sup.commute)

text \<open>The expansion of seeds that leave out the nodes \<^verbatim>\<open>D\<close>.\<close>

lemma loose_expansion:
  fixes s :: db
  assumes "loose D sd"
  defines "R \<equiv> span (queues (expandByParentChildDescendants s 0 0 sd))"
  shows "x \<in> seen sd w \<Longrightarrow> (w, x) \<in> R \<union> D"
    and "(v, p) \<in> parents s (w, x) \<Longrightarrow> (v, p) \<in> R \<Longrightarrow> (w, x) \<in> R \<union> D"
proof -
  let ?r = "expandByParentChildDescendants s 0 0 sd"
  have g: "grows (sources s) sd ?r"
    and cl: "\<And>v p w. p \<in> set (seed ?r v) \<Longrightarrow> kids s w v p \<subseteq> seen ?r w"
    using expand_closed[of s 0 0 sd] by (auto simp: done_upto_def)
  have sn: "x \<in> seen ?r w \<Longrightarrow> (w, x) \<in> R \<union> D" for x w
    using loose_grows[OF g assms(1)] by (auto simp: loose_def R_def span_queues)
  show "x \<in> seen sd w \<Longrightarrow> (w, x) \<in> R \<union> D" using sn grows_seen[OF g] by blast
  show "(v, p) \<in> parents s (w, x) \<Longrightarrow> (v, p) \<in> R \<Longrightarrow> (w, x) \<in> R \<union> D"
    using cl[of p v w] sn by (auto simp: R_def span_queues parents_kids)
qed

lemma deletion_span:
  fixes s :: db
  assumes ne: "is \<noteq> [] \<or> ws \<noteq> []"
  defines "R \<equiv> span (AffectedByDeletion s is ws)" and "D \<equiv> scope_of is ws"
  shows "d \<in> set (dep_table u s) \<Longrightarrow> targets d v p \<Longrightarrow> (v, p) \<in> D \<Longrightarrow>
           dtype d \<in> {DepBlocks, DepConditionalBlocks, DepWaitsFor, DepParentChild} \<Longrightarrow> (u, issue_id d) \<in> R \<union> D"
    and "d \<in> set (dep_table u s) \<Longrightarrow> dtype d = DepWaitsFor \<Longrightarrow> cd \<in> set (dep_table w s) \<Longrightarrow>
           (w, issue_id cd) \<in> D \<Longrightarrow> dtype cd = DepParentChild \<Longrightarrow> same_target d cd \<Longrightarrow> (u, issue_id d) \<in> R \<union> D"
    and "n \<in> parents s m \<Longrightarrow> n \<in> R \<Longrightarrow> m \<in> R \<union> D"
proof -
  let ?s0 = "deleted_seeds is ws"
  let ?s1 = "loadBlockingDependersForIDs s False is ?s0"
  let ?s2 = "loadBlockingDependersForIDs s True ws ?s1"
  let ?s3 = "loadWaitersOnSpawnerIDsByCol s False is ?s2"
  let ?s4 = "loadWaitersOnSpawnerIDsByCol s True ws ?s3"
  let ?s5 = "fold (\<lambda>x. loadWaitersWhoseSpawnerIsParentOf s x False) is ?s4"
  let ?s6 = "fold (\<lambda>x. loadWaitersWhoseSpawnerIsParentOf s x True) ws ?s5"
  let ?s7 = "appendChildren s False False is ?s6"
  let ?s8 = "appendChildren s True False is ?s7"
  let ?s9 = "appendChildren s False True ws ?s8"
  let ?s10 = "appendChildren s True True ws ?s9"
  let ?U = "sources s"
  have g10: "grows ?U ?s9 ?s10" by (rule grows_load)
  have g9: "grows ?U ?s8 ?s10" by (rule grows_trans[OF grows_load(1) g10])
  have g8: "grows ?U ?s7 ?s10" by (rule grows_trans[OF grows_load(1) g9])
  have g7: "grows ?U ?s6 ?s10" by (rule grows_trans[OF grows_load(1) g8])
  have g6: "grows ?U ?s5 ?s10" by (rule grows_trans[OF grows_fold g7]) (rule grows_loads)
  have g5: "grows ?U ?s4 ?s10" by (rule grows_trans[OF grows_fold g6]) (rule grows_loads)
  have g4: "grows ?U ?s3 ?s10" by (rule grows_trans[OF grows_load(3) g5])
  have g3: "grows ?U ?s2 ?s10" by (rule grows_trans[OF grows_load(3) g4])
  have g2: "grows ?U ?s1 ?s10" by (rule grows_trans[OF grows_load(2) g3])
  have g1: "grows ?U ?s0 ?s10" by (rule grows_trans[OF grows_load(2) g2])
  have "loose D ?s0" by (auto simp: loose_def deleted_seeds_def D_def scope_of_def)
  then have l: "loose D (deletion_seeds s is ws)"
    unfolding deletion_seeds_def using loose_grows[OF g1] by blast
  note ex = loose_expansion[OF l, where s = s, folded AffectedByDeletion_eq[OF ne], folded R_def]
  have sn: "x \<in> seen ?s10 w \<Longrightarrow> (w, x) \<in> R \<union> D" for x w
    using ex(1) unfolding deletion_seeds_def by blast
  show "(u, issue_id d) \<in> R \<union> D" if d: "d \<in> set (dep_table u s)" "targets d v p" "(v, p) \<in> D"
    and t: "dtype d \<in> {DepBlocks, DepConditionalBlocks, DepWaitsFor, DepParentChild}"
  proof -
    have p: "p \<in> set (if v then ws else is)" using d(3) by (cases v) (auto simp: D_def scope_of_def)
    have src: "issue_id d \<in> set (select_sources s u v q p)" if "q (dtype d)" for q
      using d that by (auto simp: in_select_sources)
    show ?thesis
    proof (cases "dtype d = DepParentChild")
      case True
      then have "issue_id d \<in> set (select_sources s u v (\<lambda>t. t = DepParentChild) p)" by (rule src)
      then have "issue_id d \<in> seen ?s7 u \<or> issue_id d \<in> seen ?s8 u \<or> issue_id d \<in> seen ?s9 u \<or> issue_id d \<in> seen ?s10 u"
        using p by (cases u; cases v) (auto simp: seen_appendChildren)
      then show ?thesis using sn grows_seen[OF g8] grows_seen[OF g9] grows_seen[OF g10] by blast
    next
      case False
      then consider "dtype d = DepWaitsFor" | "dtype d = DepBlocks \<or> dtype d = DepConditionalBlocks" using t by blast
      then show ?thesis
      proof cases
        case 1
        then have "issue_id d \<in> set (select_sources s u v (\<lambda>t. t = DepWaitsFor) p)" by (rule src)
        then have "issue_id d \<in> seen ?s3 u \<or> issue_id d \<in> seen ?s4 u"
          using p by (cases v) (auto simp: seen_loadWaiters)
        then show ?thesis using sn grows_seen[OF g4] grows_seen[OF g5] by blast
      next
        case 2
        then have "issue_id d \<in> set (select_sources s u v (\<lambda>t. t = DepBlocks \<or> t = DepConditionalBlocks) p)" by (rule src)
        then have "issue_id d \<in> seen ?s1 u \<or> issue_id d \<in> seen ?s2 u"
          using p by (cases v) (auto simp: seen_loadBlocking)
        then show ?thesis using sn grows_seen[OF g2] grows_seen[OF g3] by blast
      qed
    qed
  qed
  show "(u, issue_id d) \<in> R \<union> D" if d: "d \<in> set (dep_table u s)" "dtype d = DepWaitsFor" "cd \<in> set (dep_table w s)"
    "(w, issue_id cd) \<in> D" "dtype cd = DepParentChild" "same_target d cd"
  proof -
    have m: "issue_id cd \<in> set (if w then ws else is)" using d(4) by (cases w) (auto simp: D_def scope_of_def)
    have one: "issue_id d \<in> seen (loadWaitersWhoseSpawnerIsParentOf s (issue_id cd) w sd) u" for sd
      by (rule seen_loadWaitersParent[OF d(1-3) refl d(5,6)])
    have "issue_id d \<in> seen ?s5 u \<or> issue_id d \<in> seen ?s6 u"
    proof (cases w)
      case True
      have "issue_id d \<in> seen ?s6 u"
        by (rule fold_seen[where U = ?U and x = "issue_id cd"]) (use m one True in \<open>simp_all add: grows_loads\<close>)
      then show ?thesis ..
    next
      case False
      have "issue_id d \<in> seen ?s5 u"
        by (rule fold_seen[where U = ?U and x = "issue_id cd"]) (use m one False in \<open>simp_all add: grows_loads\<close>)
      then show ?thesis ..
    qed
    then show ?thesis using sn grows_seen[OF g6] grows_seen[OF g7] by blast
  qed
  show "n \<in> parents s m \<Longrightarrow> n \<in> R \<Longrightarrow> m \<in> R \<union> D"
    using ex(2) by (metis surj_pair)
qed

subsection \<open>Removing rows\<close>

text \<open>
  \<^verbatim>\<open>rows_removed D s s'\<close>: the rows of \<^verbatim>\<open>D\<close> are gone, and with them the rows of
  \<^verbatim>\<open>dependencies\<close> whose target is a removed wisp.
\<close>

definition rows_removed :: "node set \<Rightarrow> db \<Rightarrow> db \<Rightarrow> bool" where
  "rows_removed D s s' = ((\<forall>v. issue_table v s' = filter (\<lambda>r. (v, ID r) \<notin> D) (issue_table v s)) \<and>
     dep_table True s' = dep_table True s \<and>
     dep_table False s' = filter (\<lambda>d. \<forall>x. (True, x) \<in> D \<longrightarrow> depends_on_wisp_id d \<noteq> Some x) (dep_table False s))"

lemma removed_rows: "rows_removed D s s' \<Longrightarrow> r \<in> set (issue_table v s') \<longleftrightarrow> r \<in> set (issue_table v s) \<and> (v, ID r) \<notin> D"
  by (simp add: rows_removed_def)

lemma removed_deps:
  assumes "rows_removed D s s'"
  shows "d \<in> set (dep_table u s') \<Longrightarrow> d \<in> set (dep_table u s)"
    and "d \<in> set (dep_table u s) \<Longrightarrow> (\<And>v p. targets d v p \<Longrightarrow> (v, p) \<notin> D) \<Longrightarrow> d \<in> set (dep_table u s')"
  using assms by (cases u; auto simp: rows_removed_def targets_def)+

lemma removed_flagged: "rows_removed D s s' \<Longrightarrow> flagged s' = flagged s - D"
  unfolding flagged_def using removed_rows by auto

lemma removed_nodes: "rows_removed D s s' \<Longrightarrow> nodes s' = nodes s - D"
  unfolding nodes_def image_def using removed_rows by auto

lemma rows_removed_wants:
  assumes a: "rows_removed D s s'" and n: "n \<in> nodes s" "n \<notin> X" "D \<subseteq> X"
    and one: "\<And>d. d \<in> set (dep_table False s) \<Longrightarrow> one_target d"
    and h1: "\<And>d u v p. d \<in> set (dep_table u s) \<Longrightarrow> targets d v p \<Longrightarrow> (v, p) \<in> D \<Longrightarrow>
       dtype d \<in> {DepBlocks, DepConditionalBlocks, DepWaitsFor, DepParentChild} \<Longrightarrow> (u, issue_id d) \<in> X"
    and h2: "\<And>d u cd w. d \<in> set (dep_table u s) \<Longrightarrow> dtype d = DepWaitsFor \<Longrightarrow> cd \<in> set (dep_table w s) \<Longrightarrow>
       (w, issue_id cd) \<in> D \<Longrightarrow> dtype cd = DepParentChild \<Longrightarrow> same_target d cd \<Longrightarrow> (u, issue_id d) \<in> X"
  shows "wants e s' (flagged s') n = wants e s (flagged s) n"
proof (cases n)
  case (Pair u y)
  note rows = removed_rows[OF a] and deps = removed_deps[OF a]
  have free: "(v, p) \<notin> D" if "d \<in> set (dep_table u s)" "issue_id d = y" "targets d v p"
    "dtype d \<in> {DepBlocks, DepConditionalBlocks, DepWaitsFor, DepParentChild}" for d v p
    using h1[OF that(1,3)] that n Pair by blast
  have own: "d \<in> set (dep_table u s') \<longleftrightarrow> d \<in> set (dep_table u s)" if "issue_id d = y"
    "dtype d \<in> {DepBlocks, DepConditionalBlocks, DepWaitsFor, DepParentChild}" for d
    using deps free[OF _ that(1) _ that(2)] by blast
  have j: "joined_target s' d p = joined_target s d p" if "\<And>v q. targets d v q \<Longrightarrow> (v, q) \<notin> D" for d p
    unfolding joined_target_table Bex_def rows using that by blast
  have h: "hard_blocked s' (dep_table u s') y = hard_blocked s (dep_table u s) y"
    unfolding hard_blocked_def
  proof (intro iffI; elim bexE conjE)
    fix d assume "d \<in> set (dep_table u s')" "issue_id d = y" "dtype d = DepBlocks \<or> dtype d = DepConditionalBlocks"
      "joined_target s' d (\<lambda>t. active_status (Status t))"
    then show "\<exists>d\<in>set (dep_table u s). issue_id d = y \<and> (dtype d = DepBlocks \<or> dtype d = DepConditionalBlocks) \<and>
        joined_target s d (\<lambda>t. active_status (Status t))"
      using own free j by (metis insert_iff)
  next
    fix d assume "d \<in> set (dep_table u s)" "issue_id d = y" "dtype d = DepBlocks \<or> dtype d = DepConditionalBlocks"
      "joined_target s d (\<lambda>t. active_status (Status t))"
    then show "\<exists>d\<in>set (dep_table u s'). issue_id d = y \<and> (dtype d = DepBlocks \<or> dtype d = DepConditionalBlocks) \<and>
        joined_target s' d (\<lambda>t. active_status (Status t))"
      using own free j by (metis insert_iff)
  qed
  have sp: "spawned_child s' d p = spawned_child s d p"
    if d: "d \<in> set (dep_table u s)" "issue_id d = y" "dtype d = DepWaitsFor" for d p
  proof -
    have cd: "cd \<in> set (dep_table w s') \<longleftrightarrow> cd \<in> set (dep_table w s)"
      if st: "same_target d cd" for cd w
    proof (cases "cd \<in> set (dep_table w s)")
      case True
      show ?thesis
      proof (cases w)
        case False
        have "depends_on_wisp_id cd \<noteq> Some x" if x: "(True, x) \<in> D" for x
        proof
          assume c: "depends_on_wisp_id cd = Some x"
          then have "depends_on_issue_id cd = None"
            using one[of cd] True False by (auto simp: one_target_def split: if_splits)
          then have "targets d True x" using st c by (auto simp: same_target_def targets_def)
          then show False using free[OF d(1,2)] d(3) x by blast
        qed
        then show ?thesis using True False a by (simp add: rows_removed_def)
      qed (use a in \<open>simp add: rows_removed_def\<close>)
    qed (use deps(1) in blast)
    have child: "(w, issue_id cd) \<notin> D" if "cd \<in> set (dep_table w s)" "dtype cd = DepParentChild" "same_target d cd" for cd w
      using h2[OF d(1,3) that(1) _ that(2,3)] d(2) n Pair by blast
    show ?thesis unfolding spawned_child_table Bex_def rows using cd child by metis
  qed
  have w: "waits_blocked e s' (dep_table u s') y = waits_blocked e s (dep_table u s) y"
  proof -
    have "waitsForGateBlocked e s' d = waitsForGateBlocked e s d"
      if "d \<in> set (dep_table u s)" "issue_id d = y" "dtype d = DepWaitsFor" for d
      using sp[OF that] by (simp add: waitsForGateBlocked_def)
    then show ?thesis unfolding waits_blocked_def using own by (metis insert_iff)
  qed
  have p: "parents s' n = parents s n"
    unfolding parents_def Pair fst_conv snd_conv using own by (auto simp: insert_iff)
  have "parents s n \<inter> D = {}"
    unfolding parents_def Pair fst_conv snd_conv using free by fastforce
  then have f: "flagged s' \<inter> parents s n = flagged s \<inter> parents s n"
    using removed_flagged[OF a] by blast
  have "active_node s' n = active_node s n"
    unfolding active_node_def Pair fst_conv snd_conv Bex_def rows using n Pair by blast
  then show ?thesis using h w p f Pair by (simp add: wants_def own_reason_def)
qed

theorem rows_removed_repairs:
  assumes g: "good_db e s" and a: "rows_removed (scope_of js vs) s s'" and ne: "js \<noteq> [] \<or> vs \<noteq> []"
    and one: "\<And>d. d \<in> set (dep_table False s) \<Longrightarrow> one_target d"
    and q: "AffectedByDeletion s js vs = (is, ws)"
  shows "\<exists>t. recomputeIsBlocked e is ws s' = Some t \<and> good_db e t \<and> same_but_flags s' t"
proof -
  have wf: "wf_db s" and ac: "acyclic_parents s" and co: "blocked_consistent e s" and cl: "rows_closed_at s"
    using g by (simp_all add: good_db_def)
  define D where "D = scope_of js vs"
  have R: "scope_of is ws = span (AffectedByDeletion s js vs)" by (simp add: q span_def)
  note S = deletion_span[OF ne, where s = s, folded R D_def]
  note rows = removed_rows[OF a[folded D_def]] and nd = removed_nodes[OF a[folded D_def]]
  have par: "parents s' n \<subseteq> parents s n" for n
    unfolding parents_def using removed_deps(1)[OF a] by blast
  have it: "issue_table v s' = filter (\<lambda>r. (v, ID r) \<notin> D) (issue_table v s)" for v
    using a by (simp add: rows_removed_def D_def)
  have wf': "wf_db s'" using wf by (auto simp: wf_db_def it intro: distinct_map_filter)
  have "parent_edges s' \<subseteq> parent_edges s" using par nd by (auto simp: parent_edges_def)
  then have ac': "acyclic_parents s'" using ac unfolding acyclic_parents_def by (rule acyclic_subset[rotated])
  have chc: "be.child_closed (scope_of is ws) s'"
    unfolding be.child_closed_def
  proof (intro ballI impI)
    fix n assume n: "n \<in> nodes s'" "parents s' n \<inter> scope_of is ws \<inter> nodes s' \<noteq> {}"
    then obtain p where "p \<in> parents s n" "p \<in> scope_of is ws" using par by blast
    then have "n \<in> scope_of is ws \<union> D" by (rule S(3))
    then show "n \<in> scope_of is ws" using n(1) nd by blast
  qed
  have "wants e s' (flagged s') n = wants e s (flagged s) n" if "n \<in> nodes s" "n \<notin> scope_of is ws \<union> D" for n
    by (rule rows_removed_wants[OF a[folded D_def] that]) (use one S(1,2) in blast)+
  moreover have "be.consistent_on e UNIV s" using blocked_consistent_engine[OF wf] co by blast
  ultimately have "be.consistent_on e (- scope_of is ws) s'"
    unfolding be.consistent_on_def using removed_flagged[OF a[folded D_def]] nd by auto
  from recompute_repairs[OF wf' ac' chc this] obtain t where
    t: "recomputeIsBlocked e is ws s' = Some t" "wf_db t" "same_but_flags s' t" "blocked_consistent e t" by blast
  have "rows_closed_at s'" using cl by (auto simp: rows_closed_at_def it)
  then show ?thesis
    using t ac' rows_closed_at_same[OF t(3)] acyclic_parents_same[OF t(3)] by (auto simp: good_db_def)
qed

subsection \<open>The operations\<close>

lemma deleteIssueRow_cases:
  "deleteIssueRow x w s = (if x \<in> ID ` set (issue_table w s)
     then Inr ((if w then DeleteWispFromDependencies x else id)
       (set_issue_table w (filter (\<lambda>r. ID r \<noteq> x) (issue_table w s)) s))
     else Inl (NotFound x))"
proof -
  have "filter (\<lambda>r. ID r = x) (issue_table w s) = [] \<longleftrightarrow> x \<notin> ID ` set (issue_table w s)"
    by (auto simp: filter_empty_conv)
  then show ?thesis by (simp add: deleteIssueRow_def Let_def)
qed

lemma deleteIssueRow_removes:
  assumes "deleteIssueRow x w s = Inr s'"
  shows "rows_removed {(w, x)} s s'"
  using assms
  by (cases w) (auto simp: deleteIssueRow_cases rows_removed_def DeleteWispFromDependencies_def table_defs
      split: if_splits intro!: filter_cong)

lemma rows_removed_trans:
  assumes "rows_removed D s s1" "rows_removed E s1 s2"
  shows "rows_removed (D \<union> E) s s2"
  using assms unfolding rows_removed_def by (auto simp: conj_ac intro!: filter_cong)

lemma rows_removed_refl: "rows_removed {} s s"
  by (simp add: rows_removed_def)

lemma delete_wisps_removes:
  "fold_res (\<lambda>x s. deleteIssueRow x True s) xs s = Inr s' \<Longrightarrow> rows_removed (Pair True ` set xs) s s'"
proof (induction xs arbitrary: s)
  case (Cons x xs)
  then obtain s1 where s1: "deleteIssueRow x True s = Inr s1" "fold_res (\<lambda>x s. deleteIssueRow x True s) xs s1 = Inr s'"
    by (auto split: sum.splits)
  show ?case using rows_removed_trans[OF deleteIssueRow_removes[OF s1(1)] Cons.IH[OF s1(2)]] by simp
qed (simp add: rows_removed_refl)

lemma regular_batches:
  "fold (\<lambda>batch (n, s). (n + length (filter (\<lambda>r. ID r \<in> set batch) (t_issues s)),
         s\<lparr>t_issues := filter (\<lambda>r. ID r \<notin> set batch) (t_issues s)\<rparr>)) bs (m, s) = (n, s') \<Longrightarrow>
   rows_removed (Pair False ` set (concat bs)) s s' \<and> n + length (t_issues s') = m + length (t_issues s) \<and> t_wisps s' = t_wisps s"
proof (induction bs arbitrary: m s)
  case (Cons b bs)
  let ?s = "s\<lparr>t_issues := filter (\<lambda>r. ID r \<notin> set b) (t_issues s)\<rparr>"
  have f: "fold (\<lambda>batch (n, s). (n + length (filter (\<lambda>r. ID r \<in> set batch) (t_issues s)),
         s\<lparr>t_issues := filter (\<lambda>r. ID r \<notin> set batch) (t_issues s)\<rparr>)) bs
      (m + length (filter (\<lambda>r. ID r \<in> set b) (t_issues s)), ?s) = (n, s')"
    using Cons.prems by simp
  have "rows_removed (Pair False ` set b) s ?s"
    by (auto simp: rows_removed_def table_defs image_iff intro!: filter_cong)
  from rows_removed_trans[OF this] Cons.IH[OF f] have "rows_removed (Pair False ` set (concat (b # bs))) s s'"
    by (simp add: image_Un)
  moreover have "length (filter (\<lambda>r. ID r \<in> set b) (t_issues s)) + length (filter (\<lambda>r. ID r \<notin> set b) (t_issues s)) = length (t_issues s)"
    by (rule sum_length_filter_compl)
  ultimately show ?case using Cons.IH[OF f] by simp
qed (simp add: rows_removed_refl)

lemma delete_regular_removes:
  assumes "delete_regular_batches ids s = (n, s')"
  shows "rows_removed (Pair False ` set ids) s s'" "n + length (t_issues s') = length (t_issues s)" "t_wisps s' = t_wisps s"
proof -
  have c: "concat (chunks deleteBatchSize ids) = ids" by (rule concat_chunks) (simp add: deleteBatchSize_def)
  note r = regular_batches[OF assms[unfolded delete_regular_batches_def], unfolded c]
  show "rows_removed (Pair False ` set ids) s s'" "n + length (t_issues s') = length (t_issues s)" "t_wisps s' = t_wisps s"
    using r by simp_all
qed

end
