(* ===== verification/LabelsThms.thy ===== *)
theory LabelsThms
  imports Labels DeleteThms
begin

text \<open>The batched readers of labels and comments agree with the readers of one issue.\<close>

subsection \<open>Sorting by a constant first key\<close>

lemma insort_key_cong:
  "(\<And>y. y \<in> set ys \<Longrightarrow> (f a \<le> f y) = (g a \<le> g y)) \<Longrightarrow> insort_key f a ys = insort_key g a ys"
  by (induction ys) auto

lemma sort_key_constant:
  "(\<And>r. r \<in> set rs \<Longrightarrow> k r = x) \<Longrightarrow> sort_key (\<lambda>r. (k r, ord_of r)) rs = sort_key ord_of rs"
proof (induction rs)
  case (Cons a rs)
  have "insort_key (\<lambda>r. (k r, ord_of r)) a (sort_key ord_of rs) = insort_key ord_of a (sort_key ord_of rs)"
    by (rule insort_key_cong) (use Cons.prems in auto)
  then show ?case using Cons by simp
qed simp

subsection \<open>The accumulated map\<close>

lemma fold_append_row:
  "fold (append_row k v) rs m x =
    (if filter (\<lambda>r. k r = x) rs = [] then m x
     else Some ((case m x of None \<Rightarrow> [] | Some vs \<Rightarrow> vs) @ map v (filter (\<lambda>r. k r = x) rs)))"
  by (induction rs arbitrary: m) (auto simp: append_row_def)

definition of_key :: "('r \<Rightarrow> string) \<Rightarrow> ('r \<Rightarrow> 'o::linorder) \<Rightarrow> 'r list \<Rightarrow> string \<Rightarrow> 'r list" where
  "of_key k ord_of table x = sort_key ord_of (filter (\<lambda>r. k r = x) table)"

lemma of_key_Nil [simp]: "of_key k ord_of table x = [] \<longleftrightarrow> (\<forall>r\<in>set table. k r \<noteq> x)"
  by (metis (mono_tags) of_key_def filter_Nil_iff set_empty2 set_sort)

lemma of_key_length: "length (of_key k ord_of table x) = length (filter (\<lambda>r. k r = x) table)"
  by (simp add: of_key_def)

lemma batch_rows:
  "filter (\<lambda>r. k r = x) (sort_key (\<lambda>r. (k r, ord_of r)) (filter (\<lambda>r. k r \<in> set batch) table)) =
    (if x \<in> set batch then of_key k ord_of table x else [])"
proof -
  have "filter (\<lambda>r. k r = x) (filter (\<lambda>r. k r \<in> set batch) table) = (if x \<in> set batch then filter (\<lambda>r. k r = x) table else [])"
    by (auto simp: filter_empty_conv intro: filter_cong)
  then show ?thesis
    using sort_key_constant[of "filter (\<lambda>r. k r = x) table" k x ord_of]
    by (simp add: filter_sort of_key_def)
qed

lemma select_into_exact:
  assumes "distinct ids"
  shows "select_into k ord_of v table ids m x =
    (if x \<in> set ids \<and> of_key k ord_of table x \<noteq> []
     then Some ((case m x of None \<Rightarrow> [] | Some vs \<Rightarrow> vs) @ map v (of_key k ord_of table x)) else m x)"
proof -
  define step where "step batch = fold (append_row k v)
      (sort_key (\<lambda>r. (k r, ord_of r)) (filter (\<lambda>r. k r \<in> set batch) table))" for batch
  have step: "step batch m x = (if x \<in> set batch \<and> of_key k ord_of table x \<noteq> []
     then Some ((case m x of None \<Rightarrow> [] | Some vs \<Rightarrow> vs) @ map v (of_key k ord_of table x)) else m x)" for batch m
    unfolding step_def fold_append_row batch_rows by auto
  have "distinct (concat bs) \<Longrightarrow> fold step bs m x = (if x \<in> set (concat bs) \<and> of_key k ord_of table x \<noteq> []
     then Some ((case m x of None \<Rightarrow> [] | Some vs \<Rightarrow> vs) @ map v (of_key k ord_of table x)) else m x)" for bs
    by (induction bs arbitrary: m) (auto simp: step)
  moreover have c: "concat (chunks queryBatchSize ids) = ids" by (rule concat_chunks) (simp add: queryBatchSize_def)
  ultimately show ?thesis
    unfolding select_into_def step_def[symmetric] using assms by (metis (no_types, lifting))
qed

subsection \<open>Labels and comments of many issues\<close>

lemma partition_sets:
  assumes "distinct ids" "PartitionWispIDs s ids = (wi, pe)"
  shows "distinct wi" "distinct pe" "x \<in> set wi \<longleftrightarrow> x \<in> set ids \<and> IsActiveWisp s x"
    "x \<in> set pe \<longleftrightarrow> x \<in> set ids \<and> \<not> IsActiveWisp s x"
  using assms by (auto simp: PartitionWispIDs_filter)

lemma GetLabels_key: "GetLabels s x = map snd (of_key fst snd (label_table (IsActiveWisp s x) s) x)"
proof -
  have ins: "insort (snd a) (map snd rs) = map snd (insort_key snd a rs)" for a and rs :: "(string \<times> string) list"
    by (induction rs) auto
  have "sort (map snd rs) = map snd (sort_key snd rs)" for rs :: "(string \<times> string) list"
    by (induction rs) (simp_all add: ins)
  then show ?thesis by (simp add: GetLabels_def of_key_def)
qed

lemma GetComments_key:
  "GetIssueComments s x = of_key CommentIssueID comment_order (comment_table (IsActiveWisp s x) s) x"
  by (simp add: GetIssueComments_def of_key_def)

lemma labels_for_issues:
  assumes "distinct ids"
  shows "GetLabelsForIssues s ids None x =
    (if x \<in> set ids \<and> GetLabels s x \<noteq> [] then Some (GetLabels s x) else None)"
proof (cases "ids = []")
  case False
  obtain wi pe where p: "PartitionWispIDs s ids = (wi, pe)" by fastforce
  note ps = partition_sets[OF assms p]
  note sel = select_into_exact[OF ps(1), where k = fst and ord_of = snd and v = snd]
    select_into_exact[OF ps(2), where k = fst and ord_of = snd and v = snd]
  show ?thesis
    using False p ps by (cases "IsActiveWisp s x") (auto simp: GetLabelsForIssues_def getLabelsIntoFromTable_def sel GetLabels_key Let_def)
qed (simp add: GetLabelsForIssues_def)

lemma comments_for_issues:
  assumes "distinct ids"
  shows "GetCommentsForIssues s ids x =
    (if x \<in> set ids \<and> GetIssueComments s x \<noteq> [] then Some (GetIssueComments s x) else None)"
proof (cases "ids = []")
  case False
  obtain wi pe where p: "PartitionWispIDs s ids = (wi, pe)" by fastforce
  note ps = partition_sets[OF assms p]
  note sel = select_into_exact[OF ps(1), where k = CommentIssueID and ord_of = comment_order and v = "\<lambda>c. c"]
    select_into_exact[OF ps(2), where k = CommentIssueID and ord_of = comment_order and v = "\<lambda>c. c"]
  show ?thesis
    using False p ps by (cases "IsActiveWisp s x") (auto simp: GetCommentsForIssues_def getCommentsForIDsInto_def sel GetComments_key Let_def)
qed (simp add: GetCommentsForIssues_def)

lemma fold_count_batch:
  "fold (count_batch table) bs m x =
    (if (\<exists>b\<in>set bs. x \<in> set b) \<and> (\<exists>c\<in>set table. CommentIssueID c = x)
     then Some (length (filter (\<lambda>c. CommentIssueID c = x) table)) else m x)"
proof (induction bs arbitrary: m)
  case (Cons b bs)
  have "count_batch table b m x = (if x \<in> set b \<and> (\<exists>c\<in>set table. CommentIssueID c = x)
     then Some (length (filter (\<lambda>c. CommentIssueID c = x) table)) else m x)"
    by (auto simp: count_batch_def map_add_def Let_def length_greater_0_conv filter_empty_conv)
  then show ?case using Cons.IH by auto
qed simp

lemma comment_counts:
  "GetCommentCounts s ids x =
    (if x \<in> set ids \<and> GetIssueComments s x \<noteq> [] then Some (length (GetIssueComments s x)) else None)"
proof (cases "ids = []")
  case False
  have cover: "(\<exists>b\<in>set (chunks queryBatchSize is). x \<in> set b) \<longleftrightarrow> x \<in> set is" for "is"
    using arg_cong[OF concat_chunks[of queryBatchSize "is"], of set] by (auto simp: queryBatchSize_def)
  show ?thesis
    using False
    by (cases "IsActiveWisp s x")
      (auto simp: GetCommentCounts_def PartitionWispIDs_filter fold_count_batch cover GetComments_key of_key_length)
qed (simp add: GetCommentCounts_def)

subsection \<open>Writing labels\<close>

lemma sort_snoc: "sort (xs @ [a]) = insort a (sort xs)"
  by (induction xs) (simp_all add: insort_left_comm)

lemma label_routing [simp]:
  "IsActiveWisp (AddLabel x l a s) y = IsActiveWisp s y"
  "IsActiveWisp (RemoveLabel x l a s) y = IsActiveWisp s y"
  by (simp_all add: AddLabel_def RemoveLabel_def IsActiveWisp_def Let_def table_defs)

lemma AddLabel_table:
  "label_table v (AddLabel x l a s) =
    (if v = IsActiveWisp s x \<and> (x, l) \<notin> set (label_table v s) then label_table v s @ [(x, l)] else label_table v s)"
  by (simp add: AddLabel_def Let_def table_defs)

lemma RemoveLabel_table:
  "label_table v (RemoveLabel x l a s) =
    (if v = IsActiveWisp s x then filter (\<lambda>r. r \<noteq> (x, l)) (label_table v s) else label_table v s)"
  by (simp add: RemoveLabel_def Let_def table_defs)

lemma in_GetLabels: "l \<in> set (GetLabels s x) \<longleftrightarrow> (x, l) \<in> set (label_table (IsActiveWisp s x) s)"
  by (force simp: GetLabels_def)

lemma GetLabels_AddLabel:
  "GetLabels (AddLabel x l a s) y =
    (if y = x \<and> l \<notin> set (GetLabels s x) then insort l (GetLabels s y) else GetLabels s y)"
  unfolding in_GetLabels by (auto simp: GetLabels_def AddLabel_table sort_snoc)

lemma GetLabels_RemoveLabel:
  "GetLabels (RemoveLabel x l a s) y =
    (if y = x then filter (\<lambda>m. m \<noteq> l) (GetLabels s y) else GetLabels s y)"
proof -
  have f: "filter (\<lambda>m. m \<noteq> l) (map snd (filter (\<lambda>r. fst r = x) rs)) = map snd (filter (\<lambda>r. fst r = x) (filter (\<lambda>r. r \<noteq> (x, l)) rs))"
    for rs :: "(string \<times> string) list"
    by (induction rs) auto
  have g: "y \<noteq> x \<Longrightarrow> filter (\<lambda>r. fst r = y) (filter (\<lambda>r. r \<noteq> (x, l)) rs) = filter (\<lambda>r. fst r = y) rs"
    for rs :: "(string \<times> string) list"
    by (induction rs) auto
  show ?thesis
    using g by (auto simp: GetLabels_def RemoveLabel_table filter_sort f)
qed

end
