(* ===== verification/PropsLabels.thy ===== *)
theory PropsLabels
  imports LabelsThms Examples
begin

text \<open>The properties of labels and comments.\<close>

text \<open>
  Adding a label inserts it at its place in the sorted list of the issue's
  labels, once, removing it takes it out, no other issue's labels change, and
  removing a label just added restores the list.
\<close>

theorem labels_roundtrip:
  "GetLabels (AddLabel x l a s) y =
     (if y = x \<and> l \<notin> set (GetLabels s x) then insort l (GetLabels s y) else GetLabels s y) \<and>
   GetLabels (RemoveLabel x l b s) y = (if y = x then filter (\<lambda>m. m \<noteq> l) (GetLabels s y) else GetLabels s y) \<and>
   GetLabels (RemoveLabel x l b (AddLabel x l a s)) y = GetLabels (RemoveLabel x l b s) y"
proof -
  have "filter (\<lambda>m. m \<noteq> l) (insort l ls) = filter (\<lambda>m. m \<noteq> l) ls" for ls
    by (induction ls) auto
  then show ?thesis by (simp add: GetLabels_AddLabel GetLabels_RemoveLabel)
qed

text \<open>
  The batched readers agree with the readers of one issue: for distinct ids the
  map holds, for each id that has any, its labels and its comments in the order
  of the single reader, and the number of its comments.
\<close>

theorem batch_readers_agree:
  assumes "distinct ids"
  shows "GetLabelsForIssues s ids None x =
      (if x \<in> set ids \<and> GetLabels s x \<noteq> [] then Some (GetLabels s x) else None) \<and>
    GetCommentsForIssues s ids x =
      (if x \<in> set ids \<and> GetIssueComments s x \<noteq> [] then Some (GetIssueComments s x) else None) \<and>
    GetCommentCounts s ids x = map_option length (GetCommentsForIssues s ids x)"
  by (simp add: labels_for_issues[OF assms] comments_for_issues[OF assms] comment_counts)

definition labelled :: db where
  "labelled = AddLabel ''bd-1'' ''ui'' ''amy'' (AddLabel ''bd-1'' ''api'' ''amy'' (chain True))"

theorem batch_readers_agree_witness:
  "GetLabelsForIssues labelled [''bd-1'', ''bd-2''] None ''bd-1'' = Some [''api'', ''ui''] \<and>
   GetLabelsForIssues labelled [''bd-1'', ''bd-2''] None ''bd-2'' = None"
proof -
  have "GetLabels labelled ''bd-1'' = [''api'', ''ui'']" "GetLabels labelled ''bd-2'' = []" by code_simp+
  then show ?thesis
    using batch_readers_agree[of "[''bd-1'', ''bd-2'']" labelled] by simp
qed

text \<open>The count of comments reads the table of permanent issues only.\<close>

lemma comment_count_ignores_wisps:
  "IsActiveWisp s x \<Longrightarrow> (\<forall>c\<in>set (t_comments s). CommentIssueID c \<noteq> x) \<Longrightarrow> CountIssueComments s x = 0"
  by (simp add: CountIssueComments_def filter_empty_conv)

end
