(* ===== verification/MergeSlot.thy ===== *)
theory MergeSlot
  imports Update StoreCreate Labels
begin

text \<open>
  The merge slot (\<^verbatim>\<open>internal/storage/merge_slot.go\<close>): a lock kept in the status and the
  metadata of one issue.  The implementation is written over the store
  interface, so its operations are arguments here; the doltlite store passes
  its own (\<^verbatim>\<open>internal/storage/doltlite/merge_slot.go\<close>).

  \<^verbatim>\<open>RunInTransaction\<close> keeps the changes when the function returns no error and
  drops them otherwise, so an error is returned without a new state.  The
  version commit that follows the transaction is not modelled.  The JSON of
  \<^verbatim>\<open>slotMeta\<close> is a parameter; \<^verbatim>\<open>json.Marshal\<close> of a struct of strings does not
  fail, and an error of \<^verbatim>\<open>json.Unmarshal\<close> is ignored by the code, so its
  parameter returns what the struct holds afterwards.
\<close>

record slot_meta =
  Holder :: string
  SlotWaiters :: "string list"

record slot_codec =
  json_marshal :: "slot_meta \<Rightarrow> string"
  json_unmarshal :: "string \<Rightarrow> slot_meta"

definition no_meta :: slot_meta where "no_meta = \<lparr>Holder = '''', SlotWaiters = []\<rparr>"

definition mergeSlotLabel :: string where "mergeSlotLabel = ''gt:slot''"

record merge_slot_status =
  StatusSlotID :: string
  Available :: bool
  StatusHolder :: string
  StatusWaiters :: "string list"

record merge_slot_result =
  SlotID :: string
  Acquired :: bool
  Waiting :: bool
  ResultHolder :: string
  Position :: nat

definition parseSlotMeta :: "slot_codec \<Rightarrow> issue_row \<Rightarrow> slot_meta" where
  "parseSlotMeta c r = (if Metadata r \<noteq> '''' then json_unmarshal c (Metadata r) else no_meta)"

definition encodeSlotMeta :: "slot_codec \<Rightarrow> slot_meta \<Rightarrow> string" where
  "encodeSlotMeta c m = json_marshal c m"

definition MergeSlotID :: "('s \<Rightarrow> string \<Rightarrow> string) \<Rightarrow> 's \<Rightarrow> string" where
  "MergeSlotID config s =
    (let p = config s ''issue_prefix'';
         prefix = (if p \<noteq> '''' then trim_dash p else ''bd'')
     in prefix @ ''-merge-slot'')"

type_synonym 's get_fn = "'s \<Rightarrow> string \<Rightarrow> store_error + issue_row"
type_synonym 's update_fn = "string \<Rightarrow> updates \<Rightarrow> string \<Rightarrow> 's \<Rightarrow> (store_error + 's) option"

definition merge_slot_issue :: "string \<Rightarrow> issue" where
  "merge_slot_issue slotID = \<lparr>ID = slotID, ContentHash = '''', Title = ''Merge Slot'',
     Description = ''Exclusive access slot for serialized conflict resolution in the merge queue.'', Design = '''',
     AcceptanceCriteria = '''', Notes = '''', SpecID = '''', Status = StatusOpen, Priority = 0,
     IssueType = ''task'', Assignee = '''', Owner = '''', EstimatedMinutes = None, CreatedAt = zero_time,
     CreatedBy = '''', UpdatedAt = zero_time, StartedAt = None, ClosedAt = None, CloseReason = '''',
     ClosedBySession = '''', LeaseExpiresAt = None, HeartbeatAt = None, DueAt = None,
     DeferUntil = None, ExternalRef = None, SourceSystem = '''', Metadata = '''', CompactionLevel = 0,
     CompactedAt = None, CompactedAtCommit = None, OriginalSize = 0, SourceRepo = '''', IDPrefix = '''',
     PrefixOverride = '''', Labels = [], Dependencies = [], Comments = [], Sender = '''',
     Ephemeral = False, NoHistory = False, WispType = '''', Pinned = False, IsTemplate = False,
     BondedFrom = [], AwaitType = '''', AwaitID = '''', Timeout = 0, Waiters = [], SourceFormula = '''',
     SourceLocation = '''', MolType = '''', WorkType = '''', EventKind = '''', Actor = '''', Target = '''',
     Payload = ''''\<rparr>"

definition MergeSlotCreateImpl ::
  "'s get_fn \<Rightarrow> (issue \<Rightarrow> string \<Rightarrow> 's \<Rightarrow> (store_error + 's) option) \<Rightarrow> (string \<Rightarrow> string \<Rightarrow> string \<Rightarrow> 's \<Rightarrow> 's) \<Rightarrow>
   string \<Rightarrow> string \<Rightarrow> 's \<Rightarrow> (store_error + (issue_row \<times> 's)) option" where
  "MergeSlotCreateImpl get create label slotID actor s =
    (case get s slotID of
       Inr existing \<Rightarrow> Some (Inr (existing, s))
     | Inl _ \<Rightarrow>
        (case create (merge_slot_issue slotID) actor s of
           None \<Rightarrow> None
         | Some (Inl err) \<Rightarrow> Some (Inl err)
         | Some (Inr s1) \<Rightarrow>
            (let s2 = label slotID mergeSlotLabel actor s1
             in case get s2 slotID of Inl err \<Rightarrow> Some (Inl err) | Inr r \<Rightarrow> Some (Inr (r, s2)))))"

definition MergeSlotCheckImpl :: "'s get_fn \<Rightarrow> slot_codec \<Rightarrow> string \<Rightarrow> 's \<Rightarrow> store_error + merge_slot_status" where
  "MergeSlotCheckImpl get c slotID s =
    (case get s slotID of
       Inl _ \<Rightarrow> Inl (NotFound slotID)
     | Inr slot \<Rightarrow>
        (let meta = parseSlotMeta c slot
         in Inr \<lparr>StatusSlotID = slotID, Available = (Status slot = StatusOpen), StatusHolder = Holder meta,
              StatusWaiters = SlotWaiters meta\<rparr>))"

definition slot_result :: "string \<Rightarrow> string \<Rightarrow> merge_slot_result" where
  "slot_result slotID holder =
     \<lparr>SlotID = slotID, Acquired = False, Waiting = False, ResultHolder = holder, Position = 0\<rparr>"

definition MergeSlotAcquireImpl ::
  "'s get_fn \<Rightarrow> 's update_fn \<Rightarrow> slot_codec \<Rightarrow> string \<Rightarrow> string \<Rightarrow> string \<Rightarrow> bool \<Rightarrow> 's \<Rightarrow>
   (store_error + (merge_slot_result \<times> 's)) option" where
  "MergeSlotAcquireImpl get upd c slotID holder actor wait s =
    (if holder = '''' then Some (Inl (OpFailed ''holder must not be empty''))
     else case get s slotID of
       Inl _ \<Rightarrow> Some (Inl (NotFound slotID))
     | Inr slot \<Rightarrow>
        (let meta = parseSlotMeta c slot; result = slot_result slotID (Holder meta)
         in if Status slot \<noteq> StatusOpen then
              (if wait then
                 (let alreadyWaiting = holder \<in> set (SlotWaiters meta);
                      meta1 = (if \<not> alreadyWaiting then meta\<lparr>SlotWaiters := SlotWaiters meta @ [holder]\<rparr> else meta)
                  in map_option (map_sum (\<lambda>err. err)
                         (\<lambda>s1. (result\<lparr>Waiting := True, Position := length (SlotWaiters meta1)\<rparr>, s1)))
                       (upd (ID slot) [(''metadata'', UString (encodeSlotMeta c meta1))] actor s))
               else Some (Inr (result, s)))
            else
              (let newMeta = \<lparr>Holder = holder, SlotWaiters = SlotWaiters meta\<rparr>
               in map_option (map_sum (\<lambda>err. err) (\<lambda>s1. (result\<lparr>Acquired := True, ResultHolder := holder\<rparr>, s1)))
                    (upd (ID slot) [(''status'', UStatus StatusInProgress), (''metadata'', UString (encodeSlotMeta c newMeta))]
                       actor s))))"

definition MergeSlotReleaseImpl ::
  "'s get_fn \<Rightarrow> 's update_fn \<Rightarrow> slot_codec \<Rightarrow> string \<Rightarrow> string \<Rightarrow> string \<Rightarrow> 's \<Rightarrow> (store_error + 's) option" where
  "MergeSlotReleaseImpl get upd c slotID holder actor s =
    (case get s slotID of
       Inl _ \<Rightarrow> Some (Inl (NotFound slotID))
     | Inr slot \<Rightarrow>
        (let meta = parseSlotMeta c slot
         in if holder \<noteq> '''' \<and> Holder meta \<noteq> holder then Some (Inl (OpFailed ''slot held by another''))
            else if Status slot = StatusOpen then Some (Inr s)
            else
              (let newMeta = \<lparr>Holder = '''', SlotWaiters = SlotWaiters meta\<rparr>
               in upd (ID slot) [(''status'', UStatus StatusOpen), (''metadata'', UString (encodeSlotMeta c newMeta))]
                    actor s)))"

subsection \<open>The doltlite store\<close>

text \<open>\<^verbatim>\<open>UpdateIssue\<close> of a transaction: only the error of the result is kept.\<close>

definition tx_UpdateIssue :: "env \<Rightarrow> db update_fn" where
  "tx_UpdateIssue e x updates actor s = map_option (map_sum (\<lambda>err. err) snd) (UpdateIssue e x updates actor s)"

definition MergeSlotCreate :: "env \<Rightarrow> string \<Rightarrow> db \<Rightarrow> (store_error + (issue_row \<times> db)) option" where
  "MergeSlotCreate e actor s =
     MergeSlotCreateImpl GetIssue (\<lambda>i a s. map_option (map_sum (\<lambda>err. err) snd) (CreateIssue e i a s)) AddLabel
       (MergeSlotID GetConfig s) actor s"

definition MergeSlotCheck :: "slot_codec \<Rightarrow> db \<Rightarrow> store_error + merge_slot_status" where
  "MergeSlotCheck c s = MergeSlotCheckImpl GetIssue c (MergeSlotID GetConfig s) s"

definition MergeSlotAcquire ::
  "env \<Rightarrow> slot_codec \<Rightarrow> string \<Rightarrow> string \<Rightarrow> bool \<Rightarrow> db \<Rightarrow> (store_error + (merge_slot_result \<times> db)) option" where
  "MergeSlotAcquire e c holder actor wait s =
     MergeSlotAcquireImpl GetIssue (tx_UpdateIssue e) c (MergeSlotID GetConfig s) holder actor wait s"

definition MergeSlotRelease :: "env \<Rightarrow> slot_codec \<Rightarrow> string \<Rightarrow> string \<Rightarrow> db \<Rightarrow> (store_error + db) option" where
  "MergeSlotRelease e c holder actor s =
     MergeSlotReleaseImpl GetIssue (tx_UpdateIssue e) c (MergeSlotID GetConfig s) holder actor s"

end
