(* ===== verification/MergeSlotThms.thy ===== *)
theory MergeSlotThms
  imports MergeSlot UpdateThms
begin

text \<open>
  The merge slot implements a lock with a queue.  The locale states what the slot
  needs of a store: that the slot issue can be read, and that an update of its
  metadata and status is read back.  The interpretation proves it for the
  doltlite store.
\<close>

subsection \<open>The lock\<close>

record lock =
  held :: bool
  owner :: string
  queue :: "string list"

datatype slot_outcome = Took | Queued nat | Busy string | Freed | Refused

fun lock_acquire :: "string \<Rightarrow> bool \<Rightarrow> lock \<Rightarrow> slot_outcome \<times> lock" where
  "lock_acquire h wait l =
    (if h = '''' then (Refused, l)
     else if \<not> held l then (Took, l\<lparr>held := True, owner := h\<rparr>)
     else if wait then
       (let q = (if h \<in> set (queue l) then queue l else queue l @ [h]) in (Queued (length q), l\<lparr>queue := q\<rparr>))
     else (Busy (owner l), l))"

fun lock_release :: "string \<Rightarrow> lock \<Rightarrow> slot_outcome \<times> lock" where
  "lock_release h l =
    (if h \<noteq> '''' \<and> owner l \<noteq> h then (Refused, l)
     else if \<not> held l then (Freed, l)
     else (Freed, l\<lparr>held := False, owner := ''''\<rparr>))"

text \<open>The operations of a client: a holder, an actor, and whether to wait.\<close>

datatype slot_op = OpAcquire string string bool | OpRelease string string

fun lock_step :: "slot_op \<Rightarrow> lock \<Rightarrow> slot_outcome \<times> lock" where
  "lock_step (OpAcquire h a w) l = lock_acquire h w l"
| "lock_step (OpRelease h a) l = lock_release h l"

fun lock_run :: "slot_op list \<Rightarrow> lock \<Rightarrow> slot_outcome list \<times> lock" where
  "lock_run [] l = ([], l)"
| "lock_run (p # ps) l =
    (let (r, l1) = lock_step p l; (rs, l2) = lock_run ps l1 in (r # rs, l2))"

fun frees :: "string \<Rightarrow> slot_op \<Rightarrow> bool" where
  "frees h (OpRelease h' a) = (h' = h \<or> h' = '''')"
| "frees h (OpAcquire _ _ _) = False"

text \<open>While nobody releases the lock of its holder, nobody else gets it.\<close>

lemma lock_run_exclusive:
  assumes "held l" "\<forall>p\<in>set ps. \<not> frees (owner l) p" "lock_run ps l = (rs, l')"
  shows "held l' \<and> owner l' = owner l \<and> Took \<notin> set rs \<and> prefix (queue l) (queue l')"
  using assms
proof (induction ps arbitrary: l rs)
  case (Cons p ps)
  obtain r l1 where r: "lock_step p l = (r, l1)" by fastforce
  obtain rs1 where rs1: "lock_run ps l1 = (rs1, l')" "rs = r # rs1"
    using Cons.prems(3) r by (auto split: prod.splits)
  have "held l1 \<and> owner l1 = owner l \<and> r \<noteq> Took \<and> prefix (queue l) (queue l1)"
    using r Cons.prems(1,2) by (cases p) (auto simp: Let_def split: if_splits)
  then show ?case
    using Cons.IH[of l1 rs1] Cons.prems(2) rs1 by (auto intro: prefix_order.trans)
qed simp

subsection \<open>The slot of a store\<close>

definition lock_of :: "slot_codec \<Rightarrow> issue_row \<Rightarrow> lock" where
  "lock_of c r = \<lparr>held = (Status r \<noteq> StatusOpen), owner = Holder (parseSlotMeta c r),
     queue = SlotWaiters (parseSlotMeta c r)\<rparr>"

definition slot_lock :: "'s get_fn \<Rightarrow> slot_codec \<Rightarrow> string \<Rightarrow> 's \<Rightarrow> lock" where
  "slot_lock get c x s = (case get s x of Inr r \<Rightarrow> lock_of c r | Inl _ \<Rightarrow> \<lparr>held = True, owner = '''', queue = []\<rparr>)"

definition outcome_of :: "merge_slot_result \<Rightarrow> slot_outcome" where
  "outcome_of res = (if Acquired res then Took else if Waiting res then Queued (Position res) else Busy (ResultHolder res))"

definition meta_ok :: "(string \<Rightarrow> bool) \<Rightarrow> slot_meta \<Rightarrow> bool" where
  "meta_ok name_ok m = (name_ok (Holder m) \<and> (\<forall>w\<in>set (SlotWaiters m). name_ok w))"

text \<open>One operation of a client on a store: the outcome, and the state it leaves.\<close>

fun slot_step :: "'s get_fn \<Rightarrow> 's update_fn \<Rightarrow> slot_codec \<Rightarrow> string \<Rightarrow> slot_op \<Rightarrow> 's \<Rightarrow> slot_outcome \<times> 's" where
  "slot_step get upd c x (OpAcquire h a w) s =
    (case MergeSlotAcquireImpl get upd c x h a w s of
       Some (Inr (res, s')) \<Rightarrow> (outcome_of res, s') | _ \<Rightarrow> (Refused, s))"
| "slot_step get upd c x (OpRelease h a) s =
    (case MergeSlotReleaseImpl get upd c x h a s of Some (Inr s') \<Rightarrow> (Freed, s') | _ \<Rightarrow> (Refused, s))"

fun slot_run :: "'s get_fn \<Rightarrow> 's update_fn \<Rightarrow> slot_codec \<Rightarrow> string \<Rightarrow> slot_op list \<Rightarrow> 's \<Rightarrow> slot_outcome list \<times> 's" where
  "slot_run get upd c x [] s = ([], s)"
| "slot_run get upd c x (p # ps) s =
    (let (r, s1) = slot_step get upd c x p s; (rs, s2) = slot_run get upd c x ps s1 in (r # rs, s2))"

fun op_ok :: "(string \<Rightarrow> bool) \<Rightarrow> slot_op \<Rightarrow> bool" where
  "op_ok name_ok (OpAcquire h a w) = name_ok h"
| "op_ok name_ok (OpRelease h a) = True"

locale slot_store =
  fixes get :: "'s get_fn" and upd :: "'s update_fn" and c :: slot_codec and x :: string
    and inv :: "'s \<Rightarrow> bool" and name_ok :: "string \<Rightarrow> bool"
  assumes get_slot: "inv s \<Longrightarrow> \<exists>r. get s x = Inr r \<and> ID r = x \<and> Status r \<in> {StatusOpen, StatusInProgress} \<and>
      meta_ok name_ok (parseSlotMeta c r)"
    and put_meta: "inv s \<Longrightarrow> get s x = Inr r \<Longrightarrow> meta_ok name_ok m \<Longrightarrow>
      \<exists>s' r'. upd x [(''metadata'', UString (encodeSlotMeta c m))] a s = Some (Inr s') \<and> inv s' \<and>
        get s' x = Inr r' \<and> Status r' = Status r \<and> parseSlotMeta c r' = m"
    and put_status: "inv s \<Longrightarrow> get s x = Inr r \<Longrightarrow> meta_ok name_ok m \<Longrightarrow> st \<in> {StatusOpen, StatusInProgress} \<Longrightarrow>
      \<exists>s' r'. upd x [(''status'', UStatus st), (''metadata'', UString (encodeSlotMeta c m))] a s = Some (Inr s') \<and>
        inv s' \<and> get s' x = Inr r' \<and> Status r' = st \<and> parseSlotMeta c r' = m"
    and empty_name: "name_ok ''''"
begin

lemma step_refines:
  assumes s: "inv s" and p: "op_ok name_ok p" and r: "slot_step get upd c x p s = (r, s')"
  shows "inv s' \<and> lock_step p (slot_lock get c x s) = (r, slot_lock get c x s')"
proof -
  obtain row where row: "get s x = Inr row" "ID row = x" "Status row \<in> {StatusOpen, StatusInProgress}"
    "meta_ok name_ok (parseSlotMeta c row)" using get_slot[OF s] by blast
  let ?m = "parseSlotMeta c row"
  show ?thesis
  proof (cases p)
    case (OpAcquire h a w)
    have h: "name_ok h" using p OpAcquire by simp
    consider (none) "h = ''''" | (free) "h \<noteq> ''''" "Status row = StatusOpen"
      | (wait) "h \<noteq> ''''" "Status row \<noteq> StatusOpen" "w" | (busy) "h \<noteq> ''''" "Status row \<noteq> StatusOpen" "\<not> w" by blast
    then show ?thesis
    proof cases
      case free
      have "meta_ok name_ok \<lparr>Holder = h, SlotWaiters = SlotWaiters ?m\<rparr>" using row(4) h by (simp add: meta_ok_def)
      from put_status[OF s row(1) this, of StatusInProgress a] obtain t r' where
        t: "upd x [(''status'', UStatus StatusInProgress),
             (''metadata'', UString (encodeSlotMeta c \<lparr>Holder = h, SlotWaiters = SlotWaiters ?m\<rparr>))] a s = Some (Inr t)"
          "inv t" "get t x = Inr r'" "Status r' = StatusInProgress"
          "parseSlotMeta c r' = \<lparr>Holder = h, SlotWaiters = SlotWaiters ?m\<rparr>" by auto
      have "r = Took \<and> s' = t"
        using r OpAcquire row free t(1) by (simp add: MergeSlotAcquireImpl_def Let_def outcome_of_def)
      then show ?thesis
        using t free row OpAcquire by (simp add: slot_lock_def lock_of_def const_defs)
    next
      case wait
      let ?m1 = "if h \<notin> set (SlotWaiters ?m) then ?m\<lparr>SlotWaiters := SlotWaiters ?m @ [h]\<rparr> else ?m"
      have "meta_ok name_ok ?m1" using row(4) h by (simp add: meta_ok_def)
      from put_meta[OF s row(1) this, of a] obtain t r' where
        t: "upd x [(''metadata'', UString (encodeSlotMeta c ?m1))] a s = Some (Inr t)"
          "inv t" "get t x = Inr r'" "Status r' = Status row" "parseSlotMeta c r' = ?m1" by auto
      have "r = Queued (length (SlotWaiters ?m1)) \<and> s' = t"
        using r OpAcquire row(1,2) wait t(1) by (simp add: MergeSlotAcquireImpl_def Let_def outcome_of_def slot_result_def)
      then show ?thesis
        using t wait row(1) OpAcquire by (simp add: slot_lock_def lock_of_def Let_def)
    next
      case busy
      then have "r = Busy (Holder ?m) \<and> s' = s"
        using r OpAcquire row(1) by (simp add: MergeSlotAcquireImpl_def Let_def outcome_of_def slot_result_def)
      then show ?thesis using busy row(1) OpAcquire s by (simp add: slot_lock_def lock_of_def)
    qed (use r OpAcquire s in \<open>simp add: MergeSlotAcquireImpl_def\<close>)
  next
    case (OpRelease h a)
    consider (other) "h \<noteq> '''' \<and> Holder ?m \<noteq> h" | (free) "\<not> (h \<noteq> '''' \<and> Holder ?m \<noteq> h)" "Status row = StatusOpen"
      | (held) "\<not> (h \<noteq> '''' \<and> Holder ?m \<noteq> h)" "Status row \<noteq> StatusOpen" by blast
    then show ?thesis
    proof cases
      case held
      have "meta_ok name_ok \<lparr>Holder = '''', SlotWaiters = SlotWaiters ?m\<rparr>"
        using row(4) empty_name by (simp add: meta_ok_def)
      from put_status[OF s row(1) this, of StatusOpen a] obtain t r' where
        t: "upd x [(''status'', UStatus StatusOpen),
             (''metadata'', UString (encodeSlotMeta c \<lparr>Holder = '''', SlotWaiters = SlotWaiters ?m\<rparr>))] a s = Some (Inr t)"
          "inv t" "get t x = Inr r'" "Status r' = StatusOpen"
          "parseSlotMeta c r' = \<lparr>Holder = '''', SlotWaiters = SlotWaiters ?m\<rparr>" by auto
      have "r = Freed \<and> s' = t"
        using r OpRelease row(1,2) held t(1) by (simp add: MergeSlotReleaseImpl_def Let_def)
      then show ?thesis
        using t held row(1) OpRelease by (auto simp: slot_lock_def lock_of_def)
    qed (use r OpRelease row(1) s in \<open>auto simp: MergeSlotReleaseImpl_def Let_def slot_lock_def lock_of_def\<close>)
  qed
qed

lemma run_refines:
  assumes "inv s" "\<forall>p\<in>set ps. op_ok name_ok p" "slot_run get upd c x ps s = (rs, s')"
  shows "inv s' \<and> lock_run ps (slot_lock get c x s) = (rs, slot_lock get c x s')"
  using assms
proof (induction ps arbitrary: s rs)
  case (Cons p ps)
  obtain r s1 where r: "slot_step get upd c x p s = (r, s1)" by fastforce
  obtain rs1 where rs1: "slot_run get upd c x ps s1 = (rs1, s')" "rs = r # rs1"
    using Cons.prems(3) r by (auto split: prod.splits)
  have st: "inv s1 \<and> lock_step p (slot_lock get c x s) = (r, slot_lock get c x s1)"
    by (rule step_refines[OF Cons.prems(1) _ r]) (use Cons.prems(2) in simp)
  then show ?case using Cons.IH[of s1 rs1] Cons.prems(2) rs1 by simp
qed simp

end

subsection \<open>The doltlite store keeps a slot\<close>

text \<open>
  What the JSON functions of Go promise for the slot: a struct of ASCII strings
  is read back from its text, the text is JSON, and only the empty struct is
  written as an empty object.
\<close>

definition ascii :: "string \<Rightarrow> bool" where
  "ascii t = (\<forall>c\<in>set t. of_char c < (128 :: nat))"

definition codec_ok :: "env \<Rightarrow> slot_codec \<Rightarrow> bool" where
  "codec_ok e c = (\<forall>m. meta_ok ascii m \<longrightarrow>
     json_unmarshal c (json_marshal c m) = m \<and> json_ok e (json_marshal c m) \<and>
     json_marshal c m \<noteq> '''' \<and> (json_marshal c m = ''{}'' \<longrightarrow> m = no_meta))"

definition slot_inv :: "env \<Rightarrow> slot_codec \<Rightarrow> string \<Rightarrow> db \<Rightarrow> bool" where
  "slot_inv e c x s = (codec_ok e c \<and> good_db e s \<and> MergeSlotID GetConfig s = x \<and>
     \<not> (x \<in> ID ` set (t_issues s) \<and> x \<in> ID ` set (t_wisps s)) \<and>
     (\<exists>r. GetIssue s x = Inr r \<and> Status r \<in> {StatusOpen, StatusInProgress} \<and> meta_ok ascii (parseSlotMeta c r)))"

lemma GetIssue_one_table:
  assumes "\<not> (x \<in> ID ` set (t_issues s) \<and> x \<in> ID ` set (t_wisps s))"
  shows "GetIssue s x = (case select_row x (issue_table (IsActiveWisp s x) s) of None \<Rightarrow> Inl (NotFound x) | Some r \<Rightarrow> Inr r)"
proof (cases "IsActiveWisp s x")
  case True
  then have "select_row x (t_issues s) = None" using assms by (auto simp: select_row_None IsActiveWisp_def)
  then show ?thesis using True by (simp add: GetIssue_def issue_table_def split: option.splits)
next
  case False
  then have "select_row x (t_wisps s) = None" by (auto simp: select_row_None IsActiveWisp_def)
  then show ?thesis using False by (simp add: GetIssue_def issue_table_def split: option.splits)
qed

lemma update_no_error:
  assumes "GetIssue s x = Inr old" "type_error e u s = None" "field_clauses e u = Inr cs"
    "set_columns e (clauses e old u cs) \<noteq> None"
  shows "updateIssue e x u a ev s \<noteq> Some (Inl err)"
  using assms(1)
proof (cases rule: update_cases[of s x old e u a ev])
  case (ok cs f rows n s2)
  then show ?thesis by auto
qed (use assms in auto)

text \<open>The two updates of the slot: the metadata, with or without the status.\<close>

definition slot_update :: "status option \<Rightarrow> string \<Rightarrow> updates" where
  "slot_update st t = (case st of None \<Rightarrow> [] | Some v \<Rightarrow> [(''status'', UStatus v)]) @ [(''metadata'', UString t)]"

lemma slot_columns:
  assumes "\<And>v. st = Some v \<Longrightarrow> v \<in> {StatusOpen, StatusInProgress}" "Status old \<in> {StatusOpen, StatusInProgress}"
  shows "\<exists>f. set_columns e (clauses e old (slot_update st t) (slot_update st t)) = Some f \<and>
    (\<forall>r. Metadata (f r) = (if t = ''{}'' then '''' else t))"
  using assms
  by (cases st)
    (auto simp: slot_update_def clauses_def ManageStartedAt_def ManageClosedAt_def pinned_clause_def
      set_columns_def column_setter_def setter_defs const_defs split: option.splits)

lemma slot_update_ok:
  assumes inv: "slot_inv e c x s" and old: "GetIssue s x = Inr old" and m: "meta_ok ascii m"
    and st: "\<And>v. st = Some v \<Longrightarrow> v \<in> {StatusOpen, StatusInProgress}"
  shows "\<exists>s' r'. tx_UpdateIssue e x (slot_update st (encodeSlotMeta c m)) a s = Some (Inr s') \<and> slot_inv e c x s' \<and>
    GetIssue s' x = Inr r' \<and> Status r' = (case st of None \<Rightarrow> Status old | Some v \<Rightarrow> v) \<and> parseSlotMeta c r' = m"
proof -
  let ?t = "encodeSlotMeta c m" and ?w = "IsActiveWisp s x"
  let ?u = "slot_update st ?t"
  have co: "codec_ok e c" and g: "good_db e s" and one: "\<not> (x \<in> ID ` set (t_issues s) \<and> x \<in> ID ` set (t_wisps s))"
    and os: "Status old \<in> {StatusOpen, StatusInProgress}"
    using inv old by (auto simp: slot_inv_def)
  have js: "json_ok e ?t" "json_unmarshal c ?t = m" "?t \<noteq> ''''" "?t = ''{}'' \<Longrightarrow> m = no_meta"
    using co m by (auto simp: codec_ok_def encodeSlotMeta_def)
  have sel: "select_row x (issue_table ?w s) = Some old"
    using old GetIssue_one_table[OF one] by (simp split: option.splits)
  have te: "type_error e ?u s = None" by (cases st) (simp_all add: type_error_def slot_update_def)
  have fc: "field_clauses e ?u = Inr ?u"
    using js(1) by (cases st) (simp_all add: slot_update_def IsAllowedUpdateField_def NormalizeMetadataValue_def Let_def)
  obtain f where f: "set_columns e (clauses e old ?u ?u) = Some f" "\<And>r. Metadata (f r) = (if ?t = ''{}'' then '''' else ?t)"
    using slot_columns[OF st os] by blast
  have d: "distinct (map fst ?u)" and nc: "map_of ?u ''closed_at'' = None"
    and ty: "\<And>v. map_of ?u ''status'' = Some v \<Longrightarrow> status_text v \<noteq> None"
    and ns: "new_status old ?u = (case st of None \<Rightarrow> Status old | Some v \<Rightarrow> v)"
    by (cases st; auto simp: slot_update_def new_status_def status_of_def)+
  have nst: "new_status old ?u \<in> {StatusOpen, StatusInProgress}" using ns os st by (auto split: option.splits)
  then have sc: "\<not> silent_change old ?u"
    using os by (auto simp: silent_change_def active_status_def const_defs)
  obtain s1 s' cs f' where ok: "updateIssue e x ?u a True s = Some (Inr (\<lparr>UpdOldIssue = old, UpdIsWisp = ?w\<rparr>, s'))"
      "good_db e s'" "same_but_flags s1 s'" "field_clauses e ?u = Inr cs" "set_columns e (clauses e old ?u cs) = Some f'"
      "row_change ?w x (\<lambda>r. if r = old then (f' r)\<lparr>RowLock := freshRowLock e x\<rparr> else r) s s1"
    using update_spec[OF g old sel d nc ty sc, of a True] update_no_error[OF old te fc, of a True] f(1) by auto
  have ff: "f' = f" using ok(4,5) fc f(1) by simp
  let ?r = "(f old)\<lparr>RowLock := freshRowLock e x\<rparr>"
  have "select_row x (issue_table ?w s1) = Some ?r"
    using row_change_select[OF ok(6)] sel ff by simp
  then have "map_option (\<lambda>r. r\<lparr>IsBlocked := False\<rparr>) (select_row x (issue_table ?w s')) = Some (?r\<lparr>IsBlocked := False\<rparr>)"
    using same_but_flags_select[OF ok(3)] by simp
  then obtain r where r: "select_row x (issue_table ?w s') = Some r" "r\<lparr>IsBlocked := False\<rparr> = ?r\<lparr>IsBlocked := False\<rparr>"
    by auto
  have "nodes s' = nodes s"
    using row_change_ids[OF ok(6), THEN arg_cong[of _ _ set]] same_but_flags_views(1)[OF ok(3)] by (simp add: nodes_def)
  then have ids: "ID ` set (issue_table v s') = ID ` set (issue_table v s)" for v
    by (force simp: nodes_def set_eq_iff)
  then have one': "\<not> (x \<in> ID ` set (t_issues s') \<and> x \<in> ID ` set (t_wisps s'))"
    using one ids[of False] ids[of True] by (simp add: issue_table_def)
  have "IsActiveWisp s' x = IsActiveWisp s x" using ids[of True] by (simp add: IsActiveWisp_table)
  then have get: "GetIssue s' x = Inr r" using GetIssue_one_table[OF one'] r(1) by simp
  have rs: "Status r = new_status old ?u" "Metadata r = (if ?t = ''{}'' then '''' else ?t)"
    using arg_cong[OF r(2), of Status] arg_cong[OF r(2), of Metadata] update_row_set(5)[OF fc d f(1) nc ty] f(2) by simp_all
  have pm: "parseSlotMeta c r = m"
    using rs(2) js by (auto simp: parseSlotMeta_def)
  have act: "active_status t" if "t \<in> {StatusOpen, StatusInProgress}" for t
    using that by (auto simp: active_status_def const_defs)
  have oa: "active_status (Status old)" by (rule act[OF os])
  have na: "st = Some v \<Longrightarrow> active_status v" for v by (rule act[OF st])
  have cfg: "t_config s' = t_config s"
    using old
  proof (cases rule: update_cases[of s x old e ?u a True])
    case up: (ok cs g rows n s2)
    have "after_update e ?w x old ?u s2 = Some s2"
      using oa na by (cases st) (simp_all add: after_update_def slot_update_def)
    then have "s' = s2" using up(6) ok(1) by simp
    then show ?thesis unfolding up(5) by (simp add: RecordFullEvent_def table_defs)
  qed (use te fc f(1) in auto)
  have "MergeSlotID GetConfig s = x" using inv by (simp add: slot_inv_def)
  then have "MergeSlotID GetConfig s' = x" using cfg by (simp add: MergeSlotID_def GetConfig_def)
  then have "slot_inv e c x s'"
    using co ok(2) one' get rs(1) nst pm m by (auto simp: slot_inv_def)
  then show ?thesis
    using ok(1) get rs(1) ns pm by (auto simp: tx_UpdateIssue_def UpdateIssue_def)
qed

interpretation merge_slot: slot_store GetIssue "tx_UpdateIssue e" c x "slot_inv e c x" ascii
  for e :: env and c :: slot_codec and x :: string
proof (unfold_locales, goal_cases)
  case (1 s)
  then show ?case using GetIssue_ok by (fastforce simp: slot_inv_def)
next
  case (2 s r m a)
  then show ?case using slot_update_ok[OF 2, of None a] by (simp add: slot_update_def)
next
  case (3 s r m st a)
  then show ?case using slot_update_ok[OF 3(1-3), of "Some st" a] by (simp add: slot_update_def)
qed (simp add: ascii_def)

end
