(* ===== verification/PropsMergeSlot.thy ===== *)
theory PropsMergeSlot
  imports MergeSlotThms Examples
begin

text \<open>The properties of the merge slot on the doltlite store.\<close>

text \<open>One operation of a client, and a sequence of them.\<close>

fun merge_slot_step :: "env \<Rightarrow> slot_codec \<Rightarrow> slot_op \<Rightarrow> db \<Rightarrow> slot_outcome \<times> db" where
  "merge_slot_step e c (OpAcquire h a w) s =
    (case MergeSlotAcquire e c h a w s of Some (Inr (res, s')) \<Rightarrow> (outcome_of res, s') | _ \<Rightarrow> (Refused, s))"
| "merge_slot_step e c (OpRelease h a) s =
    (case MergeSlotRelease e c h a s of Some (Inr s') \<Rightarrow> (Freed, s') | _ \<Rightarrow> (Refused, s))"

fun merge_slot_run :: "env \<Rightarrow> slot_codec \<Rightarrow> slot_op list \<Rightarrow> db \<Rightarrow> slot_outcome list \<times> db" where
  "merge_slot_run e c [] s = ([], s)"
| "merge_slot_run e c (p # ps) s =
    (let (r, s1) = merge_slot_step e c p s; (rs, s2) = merge_slot_run e c ps s1 in (r # rs, s2))"

lemma merge_slot_step_eq:
  "slot_inv e c x s \<Longrightarrow> merge_slot_step e c p s = slot_step GetIssue (tx_UpdateIssue e) c x p s"
  by (cases p) (simp_all add: MergeSlotAcquire_def MergeSlotRelease_def slot_inv_def)

lemma merge_slot_run_eq:
  assumes "slot_inv e c x s" "\<forall>p\<in>set ps. op_ok ascii p"
  shows "merge_slot_run e c ps s = slot_run GetIssue (tx_UpdateIssue e) c x ps s"
  using assms
proof (induction ps arbitrary: s)
  case (Cons p ps)
  obtain r s1 where r: "slot_step GetIssue (tx_UpdateIssue e) c x p s = (r, s1)" by fastforce
  have "slot_inv e c x s1" using merge_slot.step_refines[OF Cons.prems(1) _ r] Cons.prems(2) by simp
  then show ?case using Cons r merge_slot_step_eq[OF Cons.prems(1), of p] by simp
qed simp

text \<open>The lock a client sees, read by \<^verbatim>\<open>MergeSlotCheck\<close>.\<close>

definition slot_view :: "slot_codec \<Rightarrow> db \<Rightarrow> lock" where
  "slot_view c s = (case MergeSlotCheck c s of
     Inr st \<Rightarrow> \<lparr>held = \<not> Available st, owner = StatusHolder st, queue = StatusWaiters st\<rparr>
   | Inl _ \<Rightarrow> \<lparr>held = True, owner = '''', queue = []\<rparr>)"

lemma slot_view_lock: "slot_inv e c x s \<Longrightarrow> slot_view c s = slot_lock GetIssue c x s"
  by (auto simp: slot_view_def slot_lock_def lock_of_def MergeSlotCheck_def MergeSlotCheckImpl_def slot_inv_def Let_def)

lemma slot_run_view:
  assumes "slot_inv e c x s" "\<forall>p\<in>set ps. op_ok ascii p" "slot_run GetIssue (tx_UpdateIssue e) c x ps s = (rs, s')"
  shows "lock_run ps (slot_view c s) = (rs, slot_view c s') \<and> slot_inv e c x s'"
proof -
  note ref = merge_slot.run_refines[OF assms]
  show ?thesis using ref slot_view_lock[OF assms(1)] slot_view_lock[OF conjunct1[OF ref]] by simp
qed

text \<open>
  (C23) The merge slot refines a lock with a queue: on a good database with the slot
  issue, any sequence of acquires and releases has the outcomes of the lock,
  and what \<^verbatim>\<open>MergeSlotCheck\<close> then reads is the state of the lock.
\<close>

theorem merge_slot_refines:
  assumes "slot_inv e c x s" "\<forall>p\<in>set ps. op_ok ascii p" "merge_slot_run e c ps s = (rs, s')"
  shows "lock_run ps (slot_view c s) = (rs, slot_view c s') \<and> slot_inv e c x s'"
  by (rule slot_run_view[OF assms(1,2)]) (simp flip: merge_slot_run_eq[OF assms(1,2)] add: assms(3))

subsection \<open>A concrete codec\<close>

text \<open>Each string is written with its length in unary in front.\<close>

definition put_str :: "string \<Rightarrow> string" where
  "put_str t = replicate (length t) CHR ''1'' @ CHR ''0'' # t"

fun get_str :: "nat \<Rightarrow> string \<Rightarrow> string \<times> string" where
  "get_str n [] = ([], [])"
| "get_str n (a # t) = (if a = CHR ''1'' then get_str (Suc n) t else (take n t, drop n t))"

fun get_strs :: "nat \<Rightarrow> string \<Rightarrow> string list" where
  "get_strs 0 t = []"
| "get_strs (Suc k) t = (if t = [] then [] else let (a, r) = get_str 0 t in a # get_strs k r)"

lemma get_put: "get_str m (replicate k CHR ''1'' @ CHR ''0'' # t @ r) = (take (m + k) (t @ r), drop (m + k) (t @ r))"
  by (induction k arbitrary: m) simp_all

lemma get_strs_Nil [simp]: "get_strs k [] = []"
  by (cases k) simp_all

lemma get_puts: "length ts \<le> k \<Longrightarrow> get_strs k (concat (map put_str ts)) = ts"
proof (induction ts arbitrary: k)
  case (Cons t ts)
  obtain j where j: "k = Suc j" using Cons.prems by (cases k) auto
  let ?r = "concat (map put_str ts)"
  have "get_str 0 (put_str t @ ?r) = (t, ?r)"
    using get_put[of 0 "length t" t ?r] by (simp add: put_str_def)
  moreover have "put_str t @ ?r \<noteq> []" by (simp add: put_str_def)
  ultimately show ?case using Cons.IH[of j] Cons.prems j by simp
qed simp

definition ex_codec :: slot_codec where
  "ex_codec = \<lparr>json_marshal = (\<lambda>m. concat (map put_str (Holder m # SlotWaiters m))),
     json_unmarshal = (\<lambda>t. let ts = get_strs (length t) t in \<lparr>Holder = hd ts, SlotWaiters = tl ts\<rparr>)\<rparr>"

lemma ex_codec_ok: "codec_ok ex_env ex_codec"
proof -
  have len: "length ts \<le> length (concat (map put_str ts))" for ts
    by (induction ts) (simp_all add: put_str_def)
  have "put_str t @ r \<noteq> '''' \<and> put_str t @ r \<noteq> ''{}''" for t r
    by (cases t) (simp_all add: put_str_def)
  moreover have "json_unmarshal ex_codec (json_marshal ex_codec m) = m" for m
    using get_puts[OF len, of "Holder m # SlotWaiters m"] unfolding ex_codec_def by (simp add: Let_def)
  moreover have "put_str t \<noteq> []" for t by (simp add: put_str_def)
  ultimately show ?thesis by (simp add: codec_ok_def ex_env_def) (simp add: ex_codec_def)
qed

definition slot_db :: db where
  "slot_db = ex_db [ex_row ''bd-merge-slot'' ''open'' False] []"

lemma slot_db_inv: "slot_inv ex_env ex_codec ''bd-merge-slot'' slot_db"
proof -
  have "good_db ex_env slot_db"
    unfolding good_db_def
  proof (intro conjI)
    show "wf_db slot_db" unfolding wf_db_def all_bool_eq by (simp add: slot_db_def)
    show "acyclic_parents slot_db"
      by (auto simp: acyclic_parents_def slot_db_def parent_edges_def parents_def dep_table_def ex_db_def acyclic_def)
  qed code_simp+
  moreover have "GetIssue slot_db ''bd-merge-slot'' = Inr (ex_row ''bd-merge-slot'' ''open'' False)"
    by (simp add: GetIssue_def slot_db_def select_row_def)
  moreover have "MergeSlotID GetConfig slot_db = ''bd-merge-slot''" by code_simp
  ultimately show ?thesis
    by (auto simp: slot_inv_def ex_codec_ok parseSlotMeta_def ex_row_def issue.defs blank_issue_def const_defs
        meta_ok_def ascii_def no_meta_def slot_db_def)
qed

theorem merge_slot_refines_witness:
  "\<exists>s'. merge_slot_run ex_env ex_codec [OpAcquire ''a'' ''x'' False, OpAcquire ''b'' ''x'' True] slot_db = ([Took, Queued 1], s') \<and>
     slot_view ex_codec s' = \<lparr>held = True, owner = ''a'', queue = [''b'']\<rparr>"
proof -
  let ?ps = "[OpAcquire ''a'' ''x'' False, OpAcquire ''b'' ''x'' True]"
  obtain rs s' where run: "merge_slot_run ex_env ex_codec ?ps slot_db = (rs, s')" by fastforce
  have "slot_view ex_codec slot_db = \<lparr>held = False, owner = '''', queue = []\<rparr>" by code_simp
  then show ?thesis
    using merge_slot_refines[OF slot_db_inv _ run] run by (auto simp: ascii_def)
qed

text \<open>
  Mutual exclusion: after an acquire that succeeded, no sequence of operations
  in which nobody releases the slot in the holder's name or without a name lets
  another acquire succeed, and the slot still belongs to its holder.
\<close>

theorem merge_slot_exclusive:
  assumes inv: "slot_inv e c x s" and h: "ascii h"
    and a: "MergeSlotAcquire e c h a w s = Some (Inr (res, s1))" "Acquired res"
    and ps: "\<forall>p\<in>set ps. op_ok ascii p \<and> \<not> frees h p" and run: "merge_slot_run e c ps s1 = (rs, s')"
  shows "Took \<notin> set rs \<and> held (slot_view c s') \<and> owner (slot_view c s') = h"
proof -
  have st: "merge_slot_step e c (OpAcquire h a w) s = (Took, s1)" using a by (simp add: outcome_of_def)
  have "slot_step GetIssue (tx_UpdateIssue e) c x (OpAcquire h a w) s = (Took, s1)"
    using st merge_slot_step_eq[OF inv] by metis
  note first = merge_slot.step_refines[OF inv _ this]
  have one: "slot_inv e c x s1 \<and> lock_acquire h w (slot_view c s) = (Took, slot_view c s1)"
    using first h slot_view_lock[OF inv] slot_view_lock[of e c x s1] by simp
  then have "slot_view c s1 = slot_view c s\<lparr>held := True, owner := h\<rparr>"
    by (auto simp: Let_def split: if_splits)
  then have l: "held (slot_view c s1)" "owner (slot_view c s1) = h" by simp_all
  have "lock_run ps (slot_view c s1) = (rs, slot_view c s')"
    using slot_run_view[OF conjunct1[OF one], of ps] merge_slot_run_eq[OF conjunct1[OF one], of ps] run ps by simp
  then show ?thesis using lock_run_exclusive[OF l(1)] l(2) ps by auto
qed

theorem merge_slot_exclusive_witness:
  "\<exists>s1 s'. merge_slot_run ex_env ex_codec [OpAcquire ''b'' ''x'' True, OpAcquire ''b'' ''x'' False, OpRelease ''b'' ''x''] s1 =
       ([Queued 1, Busy ''a'', Refused], s') \<and> owner (slot_view ex_codec s') = ''a''"
proof -
  have "returns (MergeSlotAcquire ex_env ex_codec ''a'' ''x'' False slot_db) (\<lambda>(res, s1). Acquired res \<and>
      fst (merge_slot_run ex_env ex_codec [OpAcquire ''b'' ''x'' True, OpAcquire ''b'' ''x'' False, OpRelease ''b'' ''x''] s1) =
        [Queued 1, Busy ''a'', Refused])" by code_simp
  then obtain res s1 where a: "MergeSlotAcquire ex_env ex_codec ''a'' ''x'' False slot_db = Some (Inr (res, s1))" "Acquired res"
    and o: "fst (merge_slot_run ex_env ex_codec [OpAcquire ''b'' ''x'' True, OpAcquire ''b'' ''x'' False, OpRelease ''b'' ''x''] s1) =
        [Queued 1, Busy ''a'', Refused]" by (auto dest: returnsD)
  obtain rs s' where run: "merge_slot_run ex_env ex_codec [OpAcquire ''b'' ''x'' True, OpAcquire ''b'' ''x'' False, OpRelease ''b'' ''x''] s1 = (rs, s')"
    by fastforce
  have "owner (slot_view ex_codec s') = ''a''"
    using merge_slot_exclusive[OF slot_db_inv _ a _ run] by (simp add: ascii_def)
  then show ?thesis using run o by (intro exI[of _ s1] exI[of _ s']) simp
qed

text \<open>
  (C32) Progress: the holder of the slot can release it, and then the first acquire,
  whoever it is from, succeeds.  Neither changes the queue of waiters: the
  order of the queue is not enforced, and a waiter that got the slot stays in it.
\<close>

theorem merge_slot_progress:
  assumes inv: "slot_inv e c x s" and h: "held (slot_view c s)" "owner (slot_view c s) = h"
    and h2: "h2 \<noteq> ''''" "ascii h2"
  shows "\<exists>s1 res s2. MergeSlotRelease e c h a s = Some (Inr s1) \<and>
    MergeSlotAcquire e c h2 b w s1 = Some (Inr (res, s2)) \<and> Acquired res \<and>
    slot_view c s2 = \<lparr>held = True, owner = h2, queue = queue (slot_view c s)\<rparr>"
proof -
  obtain rs s2 where run: "merge_slot_run e c [OpRelease h a, OpAcquire h2 b w] s = (rs, s2)" by fastforce
  have "lock_run [OpRelease h a, OpAcquire h2 b w] (slot_view c s) = (rs, slot_view c s2)"
  proof (rule conjunct1[OF slot_run_view[OF inv]])
    show ok: "\<forall>p\<in>set [OpRelease h a, OpAcquire h2 b w]. op_ok ascii p" using h2(2) by simp
    show "slot_run GetIssue (tx_UpdateIssue e) c x [OpRelease h a, OpAcquire h2 b w] s = (rs, s2)"
      using run unfolding merge_slot_run_eq[OF inv ok] .
  qed
  then have rs: "rs = [Freed, Took]" and v: "slot_view c s2 = \<lparr>held = True, owner = h2, queue = queue (slot_view c s)\<rparr>"
    using h h2(1) by (cases "slot_view c s"; auto split: prod.splits)+
  obtain s1 where s1: "merge_slot_step e c (OpRelease h a) s = (Freed, s1)"
    "merge_slot_step e c (OpAcquire h2 b w) s1 = (Took, s2)"
    using run unfolding rs by (auto split: prod.splits)
  have "MergeSlotRelease e c h a s = Some (Inr s1)"
    using s1(1) by (auto split: option.splits sum.splits)
  moreover obtain res where "MergeSlotAcquire e c h2 b w s1 = Some (Inr (res, s2))" "Acquired res"
    using s1(2) by (auto simp: outcome_of_def split: option.splits sum.splits if_splits)
  ultimately show ?thesis using v by blast
qed

theorem merge_slot_progress_witness:
  "\<exists>s s1 res s2. MergeSlotRelease ex_env ex_codec ''a'' ''x'' s = Some (Inr s1) \<and>
     MergeSlotAcquire ex_env ex_codec ''c'' ''x'' False s1 = Some (Inr (res, s2)) \<and> Acquired res \<and>
     queue (slot_view ex_codec s2) = [''b'']"
proof -
  let ?ps = "[OpAcquire ''a'' ''x'' False, OpAcquire ''b'' ''x'' True]"
  obtain rs s where run: "merge_slot_run ex_env ex_codec ?ps slot_db = (rs, s)" by fastforce
  have "slot_view ex_codec slot_db = \<lparr>held = False, owner = '''', queue = []\<rparr>" by code_simp
  moreover have i: "slot_inv ex_env ex_codec ''bd-merge-slot'' s"
    "lock_run ?ps (slot_view ex_codec slot_db) = (rs, slot_view ex_codec s)"
    using merge_slot_run_eq[OF slot_db_inv, of ?ps] run merge_slot.run_refines[OF slot_db_inv, of ?ps rs s]
      slot_view_lock[OF slot_db_inv] slot_view_lock[of ex_env ex_codec "''bd-merge-slot''" s]
    by (auto simp: ascii_def)
  ultimately have "slot_view ex_codec s = \<lparr>held = True, owner = ''a'', queue = [''b'']\<rparr>" by simp
  then show ?thesis
    using merge_slot_progress[OF i(1), of "''a''" "''c''" "''x''" "''x''" False]
    by (simp add: ascii_def) (metis lock.select_convs(3))
qed

end
