(* ===== verification/PropsDelete.thy ===== *)
theory PropsDelete
  imports DeleteThms Examples StoreCreate
begin

text \<open>The properties of deletion.\<close>

lemma removed_select:
  assumes "rows_removed D s s'"
  shows "select_row y (issue_table v s') = (if (v, y) \<in> D then None else select_row y (issue_table v s))"
proof -
  have "select_row y (filter (\<lambda>r. (v, ID r) \<notin> D) rows) = (if (v, y) \<in> D then None else select_row y rows)" for rows
    by (induction rows) (auto simp: select_row_def)
  then show ?thesis using assms by (simp add: rows_removed_def)
qed

lemma DeleteIssue_spec:
  fixes s :: db and x :: string
  defines "w \<equiv> IsActiveWisp s x"
  assumes g: "good_db e s" and one: "\<And>d. d \<in> set (dep_table False s) \<Longrightarrow> one_target d"
  shows "if x \<notin> ID ` set (issue_table w s) then DeleteIssue e x s = Some (Inl (NotFound x))
    else \<exists>s'. DeleteIssue e x s = Some (Inr s') \<and> good_db e s' \<and>
      (\<forall>v y. map_option (\<lambda>r. r\<lparr>IsBlocked := False\<rparr>) (select_row y (issue_table v s')) =
         (if v = w \<and> y = x then None
          else map_option (\<lambda>r. r\<lparr>IsBlocked := False\<rparr>) (select_row y (issue_table v s)))) \<and>
      dep_table True s' = dep_table True s \<and>
      dep_table False s' = (if w then filter (\<lambda>d. depends_on_wisp_id d \<noteq> Some x) (dep_table False s)
        else dep_table False s)"
proof (cases "x \<in> ID ` set (issue_table w s)")
  case False
  then show ?thesis
    by (simp add: DeleteIssue_def deleteIssueRow_cases w_def[symmetric] split: prod.split)
next
  case True
  obtain js ws where q: "AffectedByDeletion s (if w then [] else [x]) (if w then [x] else []) = (js, ws)" by fastforce
  obtain s1 where s1: "deleteIssueRow x w s = Inr s1" using True by (simp add: deleteIssueRow_cases)
  have sc: "scope_of (if w then [] else [x]) (if w then [x] else []) = {(w, x)}"
    by (cases w) (auto simp: scope_of_def)
  have rm: "rows_removed {(w, x)} s s1" by (rule deleteIssueRow_removes[OF s1])
  have "rows_removed (scope_of (if w then [] else [x]) (if w then [x] else [])) s s1" by (simp only: sc rm)
  note repair = rows_removed_repairs[OF g this _ one q]
  obtain t where t: "recomputeIsBlocked e js ws s1 = Some t" "good_db e t" "same_but_flags s1 t"
    using repair by (cases w) auto
  have "DeleteIssue e x s = Some (Inr t)"
    using q s1 t(1) by (cases w) (simp_all add: DeleteIssue_def w_def[symmetric])
  moreover have "dep_table v t = dep_table v s1" for v by (rule same_but_flags_views(5)[OF t(3)])
  moreover have "dep_table False s1 = (if w then filter (\<lambda>d. depends_on_wisp_id d \<noteq> Some x) (dep_table False s) else dep_table False s)"
    using rm by (auto simp: rows_removed_def)
  ultimately show ?thesis
    using True t(2) rm same_but_flags_select[OF t(3)] removed_select[OF rm]
    by (auto simp: rows_removed_def)
qed

text \<open>
  (C10) Deleting an issue of a good database returns: an unknown id is reported, and
  otherwise exactly its row goes, with the rows of \<^verbatim>\<open>dependencies\<close> that point to
  it when it is a wisp, every other row stays as it is up to its flag, and the
  invariant holds again, flags included.
\<close>

theorem delete_complete:
  fixes s :: db and x :: string
  defines "w \<equiv> IsActiveWisp s x"
  assumes g: "good_db e s" and one: "\<And>d. d \<in> set (dep_table False s) \<Longrightarrow> one_target d"
  shows "if x \<notin> ID ` set (issue_table w s) then DeleteIssue e x s = Some (Inl (NotFound x))
    else \<exists>s'. DeleteIssue e x s = Some (Inr s') \<and> good_db e s' \<and>
      (\<forall>v y. map_option (\<lambda>r. r\<lparr>IsBlocked := False\<rparr>) (select_row y (issue_table v s')) =
         (if v = w \<and> y = x then None
          else map_option (\<lambda>r. r\<lparr>IsBlocked := False\<rparr>) (select_row y (issue_table v s)))) \<and>
      dep_table True s' = dep_table True s \<and>
      dep_table False s' = (if w then filter (\<lambda>d. depends_on_wisp_id d \<noteq> Some x) (dep_table False s)
        else dep_table False s)"
  unfolding w_def by (rule DeleteIssue_spec[OF g one])

lemma chain_one_target: "d \<in> set (dep_table False (chain b)) \<Longrightarrow> one_target d"
  by (auto simp: chain_def ex_dep_def one_target_def)

lemma chain_rows [simp]: "\<not> IsActiveWisp (chain b) x"
  "ID ` set (issue_table False (chain b)) = {''bd-1'', ''bd-2'', ''bd-3''}"
  by (simp_all add: chain_def)

theorem delete_complete_witness:
  "\<exists>s'. DeleteIssue ex_env ''bd-1'' (chain True) = Some (Inr s') \<and> good_db ex_env s' \<and>
     dep_table False s' = dep_table False (chain True)"
  using delete_complete[OF chain_good chain_one_target[of _ True], where x = "''bd-1''"] by auto

lemma chunks_cover: "(\<Union>batch\<in>set (chunks deleteBatchSize ids). set batch) = set ids"
proof -
  have "0 < deleteBatchSize" by (simp add: deleteBatchSize_def)
  from arg_cong[OF concat_chunks[OF this, of ids], of set] show ?thesis by simp
qed

lemma external_by_source_iff:
  assumes "x \<in> set batch"
  shows "external_by_source s S batch x \<noteq> [] \<longleftrightarrow> (\<exists>y. (x, y) \<in> depends_rel s \<and> y \<notin> S)"
  using assms by (auto simp: external_by_source_def filter_empty_conv dependents_def depends_rel_def ex_bool_eq)

lemma first_external_iff:
  "first_external s S ids = None \<longleftrightarrow> \<not> (\<exists>x\<in>set ids. \<exists>y. (x, y) \<in> depends_rel s \<and> y \<notin> S)"
proof -
  have "first_external s S ids = None \<longleftrightarrow>
      (\<forall>batch\<in>set (chunks deleteBatchSize ids). \<forall>x\<in>set batch. external_by_source s S batch x = [])"
    by (auto simp: first_external_def find_None_iff)
  also have "\<dots> \<longleftrightarrow> (\<forall>batch\<in>set (chunks deleteBatchSize ids). \<forall>x\<in>set batch. \<not> (\<exists>y. (x, y) \<in> depends_rel s \<and> y \<notin> S))"
    using external_by_source_iff by (metis (no_types, lifting))
  also have "\<dots> \<longleftrightarrow> (\<forall>x\<in>set ids. \<not> (\<exists>y. (x, y) \<in> depends_rel s \<and> y \<notin> S))"
    unfolding chunks_cover[of ids, symmetric] by blast
  finally show ?thesis by blast
qed

text \<open>The permanent ids of a batch, everything a deletion of the batch removes, and which batches are accepted.\<close>

definition permanent_ids :: "db \<Rightarrow> string list \<Rightarrow> string set" where
  "permanent_ids s ids = {x \<in> set ids. \<not> IsActiveWisp s x}"

definition doomed :: "db \<Rightarrow> string list \<Rightarrow> bool \<Rightarrow> string set" where
  "doomed s ids cascade = set ids \<union> (if cascade then (depends_rel s)\<^sup>* `` permanent_ids s ids else {})"

definition batch_accepted :: "db \<Rightarrow> string list \<Rightarrow> bool \<Rightarrow> bool \<Rightarrow> bool" where
  "batch_accepted s ids cascade force =
    ((if cascade then card ((depends_rel s)\<^sup>* `` permanent_ids s ids) \<le> maxRecursiveResults
      else force \<or> (\<forall>x\<in>permanent_ids s ids. \<forall>y. (x, y) \<in> depends_rel s \<longrightarrow> y \<in> set ids)) \<and>
     distinct (filter (IsActiveWisp s) ids) \<and>
     (cascade \<longrightarrow> (\<forall>x\<in>set ids. IsActiveWisp s x \<longrightarrow> x \<notin> (depends_rel s)\<^sup>* `` permanent_ids s ids)))"

text \<open>The permanent ids to delete, after the cascade.\<close>

definition victims :: "(string set \<Rightarrow> string list) \<Rightarrow> db \<Rightarrow> string list \<Rightarrow> bool \<Rightarrow> string list" where
  "victims ord s ids cascade = (if cascade then ord ((depends_rel s)\<^sup>* `` permanent_ids s ids)
     else filter (\<lambda>x. \<not> IsActiveWisp s x) ids)"

lemma set_permanent: "set (filter (\<lambda>x. \<not> IsActiveWisp s x) ids) = permanent_ids s ids"
  by (simp add: permanent_ids_def)

lemma finite_permanent_closure: "finite ((depends_rel s)\<^sup>* `` permanent_ids s ids)"
  unfolding set_permanent[symmetric] by (rule finite_depends_closure) simp

lemma victims_set:
  assumes "\<forall>A. finite A \<longrightarrow> set (ord A) = A \<and> distinct (ord A)"
  shows "set (victims ord s ids cascade) = (if cascade then (depends_rel s)\<^sup>* `` permanent_ids s ids else permanent_ids s ids)"
    and "cascade \<Longrightarrow> distinct (victims ord s ids cascade)"
  using assms finite_permanent_closure by (auto simp: victims_def permanent_ids_def)

lemma expand_ids_cases:
  "expand_ids ord ids (filter (\<lambda>x. \<not> IsActiveWisp s x) ids) cascade force s = Inr (ex, orp) \<Longrightarrow>
     ex = victims ord s ids cascade"
  "(\<exists>p. expand_ids ord ids (filter (\<lambda>x. \<not> IsActiveWisp s x) ids) cascade force s = Inr p) \<longleftrightarrow>
      (if cascade then card ((depends_rel s)\<^sup>* `` permanent_ids s ids) \<le> maxRecursiveResults
       else force \<or> (\<forall>x\<in>permanent_ids s ids. \<forall>y. (x, y) \<in> depends_rel s \<longrightarrow> y \<in> set ids))"
proof -
  let ?rg = "filter (\<lambda>x. \<not> IsActiveWisp s x) ids"
  note cl = FindAllDependents_closure[of s ?rg, unfolded set_permanent]
    and bd = FindAllDependents_bounded[of s ?rg, unfolded set_permanent]
  have casc: "expand_ids ord ids ?rg True force s = (case FindAllDependents s ?rg of Inl err \<Rightarrow> Inl (err, None) | Inr A \<Rightarrow> Inr (ord A, []))"
    by (simp add: expand_ids_def)
  have plain: "expand_ids ord ids ?rg False force s = (if \<not> force then
       (case first_external s (set ids) ?rg of
          Some (x, deps) \<Rightarrow> Inl (OpFailed ''issue has dependents not in deletion set'', Some (no_deletes\<lparr>OrphanedIssues := deps\<rparr>))
        | None \<Rightarrow> Inr (?rg, []))
     else Inr (?rg, ord (findExternalDependents s ?rg (set ids))))" by (simp add: expand_ids_def)
  have fe: "first_external s (set ids) ?rg = None \<longleftrightarrow>
      (\<forall>x\<in>permanent_ids s ids. \<forall>y. (x, y) \<in> depends_rel s \<longrightarrow> y \<in> set ids)"
    unfolding first_external_iff set_permanent by blast
  show "expand_ids ord ids ?rg cascade force s = Inr (ex, orp) \<Longrightarrow> ex = victims ord s ids cascade"
  proof (cases cascade)
    case True
    assume "expand_ids ord ids ?rg cascade force s = Inr (ex, orp)"
    then have x: "expand_ids ord ids ?rg True force s = Inr (ex, orp)" using True by simp
    show ?thesis
    proof (cases "FindAllDependents s ?rg")
      case (Inr A)
      have e: "ex = ord A" using x casc Inr by simp
      have A: "A = (depends_rel s)\<^sup>* `` permanent_ids s ids" using conjunct1[OF cl] Inr by (rule mp)
      show ?thesis unfolding e A victims_def using True by (simp only: if_True)
    qed (use x casc in simp)
  next
    case False
    assume "expand_ids ord ids ?rg cascade force s = Inr (ex, orp)"
    then show ?thesis
      using False plain by (auto simp: victims_def split: if_splits option.splits)
  qed
  show "(\<exists>p. expand_ids ord ids ?rg cascade force s = Inr p) \<longleftrightarrow>
      (if cascade then card ((depends_rel s)\<^sup>* `` permanent_ids s ids) \<le> maxRecursiveResults
       else force \<or> (\<forall>x\<in>permanent_ids s ids. \<forall>y. (x, y) \<in> depends_rel s \<longrightarrow> y \<in> set ids))"
  proof (cases cascade)
    case True
    have "(\<exists>p. expand_ids ord ids ?rg True force s = Inr p) \<longleftrightarrow> (\<exists>A. FindAllDependents s ?rg = Inr A)"
      unfolding casc by (cases "FindAllDependents s ?rg") simp_all
    then show ?thesis using True bd by simp
  next
    case False
    have "(\<exists>p. expand_ids ord ids ?rg cascade force s = Inr p) \<longleftrightarrow> force \<or> first_external s (set ids) ?rg = None"
      using False plain by (auto split: option.splits)
    then show ?thesis using False fe by simp
  qed
qed

lemma delete_wisps_iff:
  "(\<exists>s'. fold_res (\<lambda>x s. deleteIssueRow x True s) xs s = Inr s') \<longleftrightarrow> distinct xs \<and> set xs \<subseteq> ID ` set (issue_table True s)"
proof (induction xs arbitrary: s)
  case (Cons x xs)
  show ?case
  proof (cases "deleteIssueRow x True s")
    case (Inl err)
    then show ?thesis by (auto simp: deleteIssueRow_cases split: if_splits)
  next
    case (Inr s1)
    have x: "x \<in> ID ` set (issue_table True s)" using Inr by (simp add: deleteIssueRow_cases split: if_splits)
    have "ID ` set (issue_table True s1) = ID ` set (issue_table True s) - {x}"
      using removed_rows[OF deleteIssueRow_removes[OF Inr]] by auto
    then show ?thesis using Inr Cons.IH[of s1] x by auto
  qed
qed simp

lemma rows_gone_length:
  assumes "distinct (map ID rows)" "distinct xs" "set xs \<subseteq> ID ` set rows"
  shows "length xs + length (filter (\<lambda>r. ID r \<notin> set xs) rows) = length rows"
proof -
  have d: "distinct (map ID (filter (\<lambda>r. ID r \<in> set xs) rows))" by (rule distinct_map_filter[OF assms(1)])
  have "set (map ID (filter (\<lambda>r. ID r \<in> set xs) rows)) = set xs" using assms(3) by auto
  then have "length (filter (\<lambda>r. ID r \<in> set xs) rows) = length xs"
    using distinct_card[OF d] distinct_card[OF assms(2)] by simp
  then show ?thesis using sum_length_filter_compl[of "\<lambda>r. ID r \<in> set xs" rows] by simp
qed
text \<open>The deletions of a batch, before the recompute.\<close>

lemma batch_rows_removed:
  fixes s :: db and ids :: "string list" and cascade :: bool and ord :: "string set \<Rightarrow> string list"
  assumes g: "good_db e s" and ord: "\<forall>A. finite A \<longrightarrow> set (ord A) = A \<and> distinct (ord A)"
  defines "ex \<equiv> victims ord s ids cascade"
  defines "aw \<equiv> filter (IsActiveWisp s) ids @ filter (IsActiveWisp s) ex"
    and "fr \<equiv> filter (\<lambda>x. \<not> IsActiveWisp s x) ex"
  assumes s1: "fold_res (\<lambda>x s. deleteIssueRow x True s) aw s = Inr s1"
    and s2: "delete_regular_batches fr s1 = (k, s2)"
  shows "rows_removed (scope_of fr aw) s s2"
    and "k + length aw + length (t_issues s2) + length (t_wisps s2) = length (t_issues s) + length (t_wisps s)"
    and "(v, y) \<in> scope_of fr aw \<longleftrightarrow> y \<in> doomed s ids cascade \<and> v = IsActiveWisp s y"
    and "ids \<noteq> [] \<Longrightarrow> fr \<noteq> [] \<or> aw \<noteq> []"
proof -
  note r1 = delete_wisps_removes[OF s1] and r2 = delete_regular_removes[OF s2]
  have "Pair True ` set aw \<union> Pair False ` set fr = scope_of fr aw" by (auto simp: scope_of_def)
  then show rm: "rows_removed (scope_of fr aw) s s2" using rows_removed_trans[OF r1 r2(1)] by simp
  have d: "distinct aw" "set aw \<subseteq> ID ` set (issue_table True s)" using s1 delete_wisps_iff[of aw s] by blast+
  have "distinct (map ID (t_wisps s))" using g wf_db_table[of s True] by (simp add: good_db_def issue_table_def)
  from rows_gone_length[OF this d(1)] d(2)
  have "length aw + length (filter (\<lambda>r. ID r \<notin> set aw) (t_wisps s)) = length (t_wisps s)" by (simp add: issue_table_def)
  moreover have "issue_table True s1 = filter (\<lambda>r. ID r \<notin> set aw) (issue_table True s)"
    "issue_table False s1 = issue_table False s"
    using r1 by (auto simp: rows_removed_def intro!: filter_cong filter_True)
  ultimately show "k + length aw + length (t_issues s2) + length (t_wisps s2) = length (t_issues s) + length (t_wisps s)"
    using r2(2,3) by (simp add: issue_table_def)
  have ex: "set ex = (if cascade then (depends_rel s)\<^sup>* `` permanent_ids s ids else permanent_ids s ids)"
    unfolding ex_def by (rule victims_set(1)[OF ord])
  show "(v, y) \<in> scope_of fr aw \<longleftrightarrow> y \<in> doomed s ids cascade \<and> v = IsActiveWisp s y"
    using ex by (cases v) (auto simp: scope_of_def fr_def aw_def doomed_def permanent_ids_def)
  show "fr \<noteq> [] \<or> aw \<noteq> []" if ne: "ids \<noteq> []"
  proof -
    obtain x where x: "x \<in> set ids" using ne by (cases ids) auto
    then have "(IsActiveWisp s x, x) \<in> scope_of fr aw"
      using ex by (cases "IsActiveWisp s x") (auto simp: scope_of_def fr_def aw_def permanent_ids_def)
    then show ?thesis by (auto simp: scope_of_def)
  qed
qed

lemma same_but_flags_length:
  assumes "same_but_flags s t"
  shows "length (t_issues t) = length (t_issues s)" "length (t_wisps t) = length (t_wisps s)"
  using arg_cong[OF same_but_flags_rows[OF assms, of False], of length] arg_cong[OF same_but_flags_rows[OF assms, of True], of length]
  by (simp_all add: issue_table_def erase_rows_def)

lemma batch_wisps_deletable:
  assumes ord: "\<forall>A. finite A \<longrightarrow> set (ord A) = A \<and> distinct (ord A)"
  shows "(\<exists>s1. fold_res (\<lambda>x s. deleteIssueRow x True s)
      (filter (IsActiveWisp s) ids @ filter (IsActiveWisp s) (victims ord s ids cascade)) s = Inr s1) \<longleftrightarrow>
    distinct (filter (IsActiveWisp s) ids) \<and>
    (cascade \<longrightarrow> (\<forall>x\<in>set ids. IsActiveWisp s x \<longrightarrow> x \<notin> (depends_rel s)\<^sup>* `` permanent_ids s ids))"
proof -
  note v = victims_set[OF ord, where s = s and ids = ids and cascade = cascade]
  have "filter (IsActiveWisp s) (victims ord s ids cascade) = []" if "\<not> cascade"
    using that by (auto simp: victims_def)
  then show ?thesis
    unfolding delete_wisps_iff using v by (cases cascade) (auto simp: IsActiveWisp_def issue_table_def)
qed

text \<open>What a batch deletion that gets as far as the recompute does.\<close>

lemma DeleteIssues_unfold:
  fixes s :: db and ids :: "string list" and cascade :: bool and ord :: "string set \<Rightarrow> string list"
  assumes ord: "\<forall>A. finite A \<longrightarrow> set (ord A) = A \<and> distinct (ord A)" and ne: "ids \<noteq> []"
  defines "ex \<equiv> victims ord s ids cascade"
  defines "aw \<equiv> filter (IsActiveWisp s) ids @ filter (IsActiveWisp s) ex"
    and "fr \<equiv> filter (\<lambda>x. \<not> IsActiveWisp s x) ex"
  shows "(\<exists>err. DeleteIssues mysql ord e ids cascade force False s = Some (Inl err) \<and> \<not> batch_accepted s ids cascade force) \<or>
    (\<exists>s1 k s2 res. batch_accepted s ids cascade force \<and>
       fold_res (\<lambda>x s. deleteIssueRow x True s) aw s = Inr s1 \<and> delete_regular_batches fr s1 = (k, s2) \<and>
       DeletedCount res = k + length aw \<and>
       DeleteIssues mysql ord e ids cascade force False s =
         map_option (map_sum (\<lambda>err. (err, None)) (\<lambda>s3. (res, s3)))
           (RecomputeIsBlocked mysql e (fst (AffectedByDeletion s fr aw)) (snd (AffectedByDeletion s fr aw)) s2))"
proof -
  let ?rg = "filter (\<lambda>x. \<not> IsActiveWisp s x) ids"
  note er = expand_ids_cases[where ord = ord and ids = ids and s = s and cascade = cascade and force = force] and bw = batch_wisps_deletable[OF ord, where s = s and ids = ids and cascade = cascade, folded ex_def, folded aw_def]
  show ?thesis
  proof (cases "expand_ids ord ids ?rg cascade force s")
    case (Inl err)
    then have "\<not> batch_accepted s ids cascade force" using er(2) unfolding batch_accepted_def by simp
    moreover have "DeleteIssues mysql ord e ids cascade force False s = Some (Inl err)"
      using ne Inl by (simp add: DeleteIssues_def PartitionWispIDs_filter)
    ultimately show ?thesis by blast
  next
    case (Inr p)
    obtain ex' orp where p: "p = (ex', orp)" by fastforce
    have e': "ex' = ex" using er(1) Inr unfolding p ex_def by blast
    show ?thesis
    proof (cases "fold_res (\<lambda>x s. deleteIssueRow x True s) aw s")
      case (Inl err)
      then have "\<not> batch_accepted s ids cascade force" using bw unfolding batch_accepted_def by auto
      moreover have "DeleteIssues mysql ord e ids cascade force False s = Some (Inl (err, None))"
        using ne Inr Inl unfolding p e' aw_def
        by (simp add: DeleteIssues_def PartitionWispIDs_filter Let_def split: prod.split)
      ultimately show ?thesis by blast
    next
      case s1: (Inr s1)
      have "batch_accepted s ids cascade force" using bw s1 er(2) Inr unfolding batch_accepted_def by blast
      moreover obtain k s2 where s2: "delete_regular_batches fr s1 = (k, s2)" by fastforce
      moreover obtain js ws where q: "AffectedByDeletion s fr aw = (js, ws)" by fastforce
      moreover have "DeleteIssues mysql ord e ids cascade force False s =
         map_option (map_sum (\<lambda>err. (err, None)) (\<lambda>s3. ((delete_counts s fr (filter (IsActiveWisp s) ex) aw ex)
             \<lparr>OrphanedIssues := orp, DeletedCount := k + length aw\<rparr>, s3)))
           (RecomputeIsBlocked mysql e js ws s2)"
        using ne Inr s1 s2 q unfolding p e' aw_def fr_def
        by (simp add: DeleteIssues_def PartitionWispIDs_filter Let_def)
      ultimately show ?thesis using s1 by (intro disjI2 exI[of _ s1] exI[of _ k] exI[of _ s2] exI) auto
    qed
  qed
qed

text \<open>
  (C29) A batch deletion returns.  It is accepted exactly when, with the cascade, at most
  10000 issues depend on its permanent ids and none of its wisps is among them, and
  otherwise no issue outside the batch depends on a permanent one or the caller forces it;
  a wisp may be named only once.  An accepted deletion succeeds on an engine with the MySQL
  recompute; on the engine of the store it succeeds exactly when the recompute has no row to
  look at, and fails otherwise.  When it succeeds, exactly the rows of its ids are gone - with the
  cascade, of everything that depends on its permanent ids - and the rows of
  \<^verbatim>\<open>dependencies\<close> on the removed wisps; the count is the number of rows gone, every other
  row stays as it is up to its flag, and the invariant holds, flags included.
\<close>

theorem delete_batch_complete:
  fixes s :: db and ids :: "string list" and cascade :: bool and ord :: "string set \<Rightarrow> string list"
  defines "A \<equiv> doomed s ids cascade" and "ex \<equiv> victims ord s ids cascade"
  assumes g: "good_db e s" and one: "\<And>d. d \<in> set (dep_table False s) \<Longrightarrow> one_target d"
    and ord: "\<forall>A. finite A \<longrightarrow> set (ord A) = A \<and> distinct (ord A)" and ne: "ids \<noteq> []"
  shows "\<exists>r. DeleteIssues mysql ord e ids cascade force False s = Some r \<and>
    (is_ok r \<longleftrightarrow> batch_accepted s ids cascade force \<and>
       (mysql \<or> AffectedByDeletion s (filter (\<lambda>x. \<not> IsActiveWisp s x) ex)
          (filter (IsActiveWisp s) ids @ filter (IsActiveWisp s) ex) = ([], []))) \<and>
    (\<forall>res s'. r = Inr (res, s') \<longrightarrow> good_db e s' \<and>
      (\<forall>v y. map_option (\<lambda>r. r\<lparr>IsBlocked := False\<rparr>) (select_row y (issue_table v s')) =
         (if y \<in> A \<and> v = IsActiveWisp s y then None
          else map_option (\<lambda>r. r\<lparr>IsBlocked := False\<rparr>) (select_row y (issue_table v s)))) \<and>
      dep_table True s' = dep_table True s \<and>
      dep_table False s' = filter (\<lambda>d. \<forall>x\<in>A. IsActiveWisp s x \<longrightarrow> depends_on_wisp_id d \<noteq> Some x) (dep_table False s) \<and>
      DeletedCount res + length (t_issues s') + length (t_wisps s') = length (t_issues s) + length (t_wisps s))"
proof -
  define aw where "aw = filter (IsActiveWisp s) ids @ filter (IsActiveWisp s) ex"
  define fr where "fr = filter (\<lambda>x. \<not> IsActiveWisp s x) ex"
  from DeleteIssues_unfold[OF ord ne, of mysql e cascade force s, folded ex_def, folded aw_def fr_def]
  consider (err) err where "DeleteIssues mysql ord e ids cascade force False s = Some (Inl err)" "\<not> batch_accepted s ids cascade force"
    | (run) s1 k s2 res where "batch_accepted s ids cascade force"
       "fold_res (\<lambda>x s. deleteIssueRow x True s) aw s = Inr s1" "delete_regular_batches fr s1 = (k, s2)"
       "DeletedCount res = k + length aw"
       "DeleteIssues mysql ord e ids cascade force False s =
         map_option (map_sum (\<lambda>err. (err, None)) (\<lambda>s3. (res, s3)))
           (RecomputeIsBlocked mysql e (fst (AffectedByDeletion s fr aw)) (snd (AffectedByDeletion s fr aw)) s2)"
    by blast
  then show ?thesis
  proof cases
    case run
    note rm = batch_rows_removed[OF g ord, where ids = ids and cascade = cascade, folded ex_def, folded aw_def fr_def, OF run(2,3)]
    obtain js ws where q: "AffectedByDeletion s fr aw = (js, ws)" by fastforce
    obtain t where t: "recomputeIsBlocked e js ws s2 = Some t" "good_db e t" "same_but_flags s2 t"
      using rows_removed_repairs[OF g rm(1) rm(4)[OF ne] one q] by blast
    have nil: "js = [] \<Longrightarrow> ws = [] \<Longrightarrow> t = s2"
      using t(1) by (simp add: recomputeIsBlocked_def)
    have "RecomputeIsBlocked mysql e js ws s2 =
        (if js = [] \<and> ws = [] \<or> mysql then Some (Inr t) else Some (Inl (OpFailed ''syntax error'')))"
      using t(1) nil by (auto simp: RecomputeIsBlocked_def)
    then have r: "DeleteIssues mysql ord e ids cascade force False s = Some
        (if js = [] \<and> ws = [] \<or> mysql then Inr (res, t) else Inl (OpFailed ''syntax error'', None))"
      using run(5) q by simp
    have dep: "dep_table True t = dep_table True s"
      "dep_table False t = filter (\<lambda>d. \<forall>x\<in>A. IsActiveWisp s x \<longrightarrow> depends_on_wisp_id d \<noteq> Some x) (dep_table False s)"
      using rm(1) rm(3)[of True] same_but_flags_views(5)[OF t(3)] by (auto simp: rows_removed_def A_def intro!: filter_cong)
    have sel: "map_option (\<lambda>r. r\<lparr>IsBlocked := False\<rparr>) (select_row y (issue_table v t)) =
         (if y \<in> A \<and> v = IsActiveWisp s y then None
          else map_option (\<lambda>r. r\<lparr>IsBlocked := False\<rparr>) (select_row y (issue_table v s)))" for v y
      using same_but_flags_select[OF t(3)] removed_select[OF rm(1)] rm(3)[of v y] by (auto simp: A_def)
    have cnt: "DeletedCount res + length (t_issues t) + length (t_wisps t) = length (t_issues s) + length (t_wisps s)"
      using run(4) rm(2) same_but_flags_length[OF t(3)] by simp
    show ?thesis
      unfolding aw_def[symmetric] fr_def[symmetric]
      by (rule exI, rule conjI[OF r]) (use run(1) q t(2) dep sel cnt in \<open>auto split: if_splits\<close>)
  qed auto
qed

theorem delete_batch_complete_witness:
  "(\<exists>res s'. DeleteIssues True sorted_list_of_set ex_env [''bd-1''] True False False (chain True) = Some (Inr (res, s')) \<and>
     good_db ex_env s' \<and> select_row ''bd-3'' (issue_table False s') = None \<and> DeletedCount res + length (t_issues s') + length (t_wisps s') = 3) \<and>
   (\<exists>err. DeleteIssues False sorted_list_of_set ex_env [''bd-1''] False True False (chain True) = Some (Inl err))"
proof
  have ord: "\<forall>A. finite A \<longrightarrow> set (sorted_list_of_set A) = A \<and> distinct (sorted_list_of_set (A :: string set))" by simp
  have "returns (DeleteIssues True sorted_list_of_set ex_env [''bd-1''] True False False (chain True)) (\<lambda>x. True)"
    by code_simp
  then obtain res s' where r: "DeleteIssues True sorted_list_of_set ex_env [''bd-1''] True False False (chain True) = Some (Inr (res, s'))"
    by (auto dest: returnsD)
  have "''bd-3'' \<in> doomed (chain True) [''bd-1''] True"
  proof -
    have "(''bd-1'', ''bd-2'') \<in> depends_rel (chain True)" "(''bd-2'', ''bd-3'') \<in> depends_rel (chain True)"
      unfolding depends_rel_def by (auto simp: chain_def ex_dep_def dep_target_def intro!: exI[of _ False])
    then have "(''bd-1'', ''bd-3'') \<in> (depends_rel (chain True))\<^sup>*" by (meson r_into_rtrancl rtrancl_trans)
    then show ?thesis by (auto simp: doomed_def permanent_ids_def)
  qed
  moreover have "length (t_issues (chain True)) = 3" "t_wisps (chain True) = []" by (simp_all add: chain_def ex_db_def)
  ultimately have "good_db ex_env s' \<and> map_option (\<lambda>r. r\<lparr>IsBlocked := False\<rparr>) (select_row ''bd-3'' (issue_table False s')) = None \<and>
      DeletedCount res + length (t_issues s') + length (t_wisps s') = 3"
    using delete_batch_complete[OF chain_good chain_one_target[of _ True] ord, of "[''bd-1'']" True True False] r
    by simp
  then show "\<exists>res s'. DeleteIssues True sorted_list_of_set ex_env [''bd-1''] True False False (chain True) = Some (Inr (res, s')) \<and>
     good_db ex_env s' \<and> select_row ''bd-3'' (issue_table False s') = None \<and> DeletedCount res + length (t_issues s') + length (t_wisps s') = 3"
    using r by auto
  have "AffectedByDeletion (chain True) [''bd-1''] [] \<noteq> ([], [])" by code_simp
  then have "\<exists>r. DeleteIssues False sorted_list_of_set ex_env [''bd-1''] False True False (chain True) = Some r \<and> \<not> is_ok r"
    using delete_batch_complete[OF chain_good chain_one_target[of _ True] ord, of "[''bd-1'']" False False True]
    by (auto simp: victims_def)
  then show "\<exists>err. DeleteIssues False sorted_list_of_set ex_env [''bd-1''] False True False (chain True) = Some (Inl err)"
    by (metis is_ok_iff sum.exhaust)
qed

text \<open>
  On the engine of the store a batch deletion fails as soon as an issue outside it has a row
  of a blocking type, or a parent-child row, on an issue that it removes.
\<close>

lemma delete_batch_fails_on_sqlite:
  fixes s :: db and ids :: "string list" and cascade :: bool and ord :: "string set \<Rightarrow> string list"
  assumes g: "good_db e s" and one: "\<And>d. d \<in> set (dep_table False s) \<Longrightarrow> one_target d"
    and ord: "\<forall>A. finite A \<longrightarrow> set (ord A) = A \<and> distinct (ord A)" and ne: "ids \<noteq> []"
    and d: "d \<in> set (dep_table u s)" "dtype d \<in> {DepBlocks, DepConditionalBlocks, DepWaitsFor, DepParentChild}"
      "targets d (IsActiveWisp s p) p" "p \<in> doomed s ids cascade"
      "\<not> (issue_id d \<in> doomed s ids cascade \<and> u = IsActiveWisp s (issue_id d))"
  shows "\<exists>err. DeleteIssues False ord e ids cascade force False s = Some (Inl err)"
proof -
  define ex where "ex = victims ord s ids cascade"
  define aw where "aw = filter (IsActiveWisp s) ids @ filter (IsActiveWisp s) ex"
  define fr where "fr = filter (\<lambda>x. \<not> IsActiveWisp s x) ex"
  from DeleteIssues_unfold[OF ord ne, of False e cascade force s, folded ex_def, folded aw_def fr_def]
  consider err where "DeleteIssues False ord e ids cascade force False s = Some (Inl err)"
    | (run) s1 k s2 res where
       "fold_res (\<lambda>x s. deleteIssueRow x True s) aw s = Inr s1" "delete_regular_batches fr s1 = (k, s2)"
       "DeleteIssues False ord e ids cascade force False s =
         map_option (map_sum (\<lambda>err. (err, None)) (\<lambda>s3. (res, s3)))
           (RecomputeIsBlocked False e (fst (AffectedByDeletion s fr aw)) (snd (AffectedByDeletion s fr aw)) s2)"
    by blast
  then show ?thesis
  proof cases
    case run
    note rm = batch_rows_removed[OF g ord, where ids = ids and cascade = cascade, folded ex_def, folded aw_def fr_def, OF run(1,2)]
    have "(IsActiveWisp s p, p) \<in> scope_of fr aw" using d(4) rm(3) by simp
    then have "(u, issue_id d) \<in> span (AffectedByDeletion s fr aw) \<union> scope_of fr aw"
      using deletion_span(1)[OF rm(4)[OF ne] d(1,3) _ d(2)] by blast
    then have "(u, issue_id d) \<in> span (AffectedByDeletion s fr aw)" using d(5) rm(3) by blast
    then have "fst (AffectedByDeletion s fr aw) \<noteq> [] \<or> snd (AffectedByDeletion s fr aw) \<noteq> []"
      by (auto simp: span_def scope_of_def)
    then show ?thesis using run(3) by (auto simp: RecomputeIsBlocked_def)
  qed blast
qed

lemma map_sum_Inl: "map_sum f g z = Inl y \<longleftrightarrow> (\<exists>x. z = Inl x \<and> y = f x)"
  by (cases z) auto

text \<open>
  Without cascade and force a deletion is refused with the list of the orphans
  exactly when an issue outside the batch depends on a permanent issue of it.
\<close>

theorem delete_refuses_orphans:
  assumes "ids \<noteq> []"
  shows "(\<exists>err res. DeleteIssues mysql ord e ids False False dry s = Some (Inl (err, Some res))) \<longleftrightarrow>
    (\<exists>x\<in>set ids. \<not> IsActiveWisp s x \<and> (\<exists>y. (x, y) \<in> depends_rel s \<and> y \<notin> set ids))"
proof (cases "first_external s (set ids) (filter (\<lambda>x. \<not> IsActiveWisp s x) ids)")
  case None
  then show ?thesis
    using assms first_external_iff[of s "set ids" "filter (\<lambda>x. \<not> IsActiveWisp s x) ids"]
    by (auto simp: DeleteIssues_def PartitionWispIDs_filter expand_ids_def Let_def map_sum_Inl split: prod.splits sum.splits)
next
  case (Some p)
  then show ?thesis
    using assms first_external_iff[of s "set ids" "filter (\<lambda>x. \<not> IsActiveWisp s x) ids"]
    by (cases p) (auto simp: DeleteIssues_def PartitionWispIDs_filter expand_ids_def)
qed

theorem delete_refuses_orphans_witness:
  "\<exists>err res. DeleteIssues False sorted_list_of_set ex_env [''bd-1''] False False False (chain True) = Some (Inl (err, Some res))"
proof -
  have "(''bd-1'', ''bd-2'') \<in> depends_rel (chain True)"
    unfolding depends_rel_def by (auto simp: chain_def ex_dep_def dep_target_def intro!: exI[of _ False])
  then show ?thesis
    using delete_refuses_orphans[of "[''bd-1'']" False sorted_list_of_set ex_env False "chain True"] by auto
qed

lemma delete_wisps_distinct:
  "fold_res (\<lambda>x s. deleteIssueRow x True s) xs s = Inr s' \<Longrightarrow> distinct xs \<and> set xs \<subseteq> ID ` set (issue_table True s)"
proof (induction xs arbitrary: s)
  case (Cons x xs)
  then obtain s1 where s1: "deleteIssueRow x True s = Inr s1" "fold_res (\<lambda>x s. deleteIssueRow x True s) xs s1 = Inr s'"
    by (auto split: sum.splits)
  from Cons.IH[OF s1(2)] removed_rows[OF deleteIssueRow_removes[OF s1(1)]] s1(1) show ?case
    by (auto simp: deleteIssueRow_cases split: if_splits)
qed simp

text \<open>
  With the cascade, a batch that names a permanent issue and a wisp that depends
  on it, directly or not, fails: the wisp is deleted twice, and the second
  deletion reports it as missing.
\<close>

theorem cascade_fails_on_wisp_twice:
  assumes "r \<in> set ids" "\<not> IsActiveWisp s r" "x \<in> set ids" "IsActiveWisp s x" "(r, x) \<in> (depends_rel s)\<^sup>*"
    and ord: "\<And>A. finite A \<Longrightarrow> set (ord A) = A"
  shows "\<exists>err. DeleteIssues mysql ord e ids True force False s = Some (Inl err)"
proof -
  let ?rg = "filter (\<lambda>x. \<not> IsActiveWisp s x) ids"
  have ne: "ids \<noteq> []" using assms(1) by auto
  show ?thesis
  proof (cases "FindAllDependents s ?rg")
    case (Inl err)
    then show ?thesis using ne by (simp add: DeleteIssues_def PartitionWispIDs_filter expand_ids_def)
  next
    case (Inr B)
    then have B: "B = (depends_rel s)\<^sup>* `` set ?rg" using FindAllDependents_closure by blast
    then have "x \<in> B" using assms by auto
    moreover have "finite B" unfolding B by (rule finite_depends_closure) simp
    ultimately have "\<not> distinct (filter (IsActiveWisp s) ids @ filter (IsActiveWisp s) (ord B))"
      using ord assms(3,4) by auto
    then obtain err where "fold_res (\<lambda>x s. deleteIssueRow x True s)
        (filter (IsActiveWisp s) ids @ filter (IsActiveWisp s) (ord B)) s = Inl err"
      using delete_wisps_distinct by (metis sum.exhaust)
    then show ?thesis
      using ne Inr by (auto simp: DeleteIssues_def PartitionWispIDs_filter expand_ids_def Let_def split: prod.split)
  qed
qed

definition wisp_pair :: db where
  "wisp_pair = (ex_db [ex_row ''bd-1'' ''open'' False] [])
     \<lparr>t_wisps := [ex_row ''w-1'' ''open'' True], t_wisp_deps := [ex_dep ''w-1'' ''bd-1'' ''blocks'' '''']\<rparr>"

theorem cascade_fails_on_wisp_twice_witness:
  "\<exists>err. DeleteIssues False sorted_list_of_set ex_env [''bd-1'', ''w-1''] True False False wisp_pair = Some (Inl err)"
proof -
  have "(''bd-1'', ''w-1'') \<in> depends_rel wisp_pair"
    unfolding depends_rel_def
    by (auto simp: wisp_pair_def dep_table_def ex_dep_def dep_target_def intro!: exI[of _ True])
  moreover have "\<not> IsActiveWisp wisp_pair ''bd-1''" "IsActiveWisp wisp_pair ''w-1''"
    by (simp_all add: IsActiveWisp_def wisp_pair_def)
  ultimately show ?thesis
    by (intro cascade_fails_on_wisp_twice[of "''bd-1''" _ _ "''w-1''"]) auto
qed

end
