(* ===== verification/Traces.thy ===== *)
theory Traces
  imports PropsCreate PropsDelete PropsDeps UpdateThms
begin

text \<open>
  The store as a state machine: one rule per operation that succeeds, at any time
  (\<^verbatim>\<open>e'\<close> is the environment of the operation, and only the reading of gates is
  fixed), and the invariant of the reachable databases.

  The side conditions of the rules are those under which the operations keep the
  derived column right: a parent-child row closes no parent cycle, the row of a
  waits-for dependency is not overwritten, an update gives the status as a string
  and does not move an issue between \<^verbatim>\<open>closed\<close> and \<^verbatim>\<open>pinned\<close>, and a new issue has an
  unused id and no dependencies yet.
\<close>

definition same_gates :: "env \<Rightarrow> env \<Rightarrow> bool" where
  "same_gates e e' = (json_gate e' = json_gate e)"

lemma same_gates_good:
  assumes "same_gates e e'"
  shows "good_db e' s = good_db e s"
proof -
  have "waitsForGateBlocked e' = waitsForGateBlocked e"
    using assms by (intro ext) (simp add: waitsForGateBlocked_def same_gates_def)
  then have "shouldBeBlocked e' = shouldBeBlocked e"
    by (intro ext) (simp add: shouldBeBlocked_def waits_blocked_def)
  then show ?thesis by (simp add: good_db_def blocked_consistent_def)
qed

definition good_store :: "env \<Rightarrow> db \<Rightarrow> bool" where
  "good_store e s = (good_db e s \<and> dep_keys s \<and> acyclic (blocking_edges s))"

lemma same_graph:
  assumes "\<And>v. dep_table v s' = dep_table v s"
  shows "dep_keys s' = dep_keys s" "blocking_edges s' = blocking_edges s"
  using assms by (simp_all add: dep_keys_def blocking_edges_def)

lemma smaller_graph:
  assumes "dep_keys s" "acyclic (blocking_edges s)" and sub: "\<And>v. \<exists>p. dep_table v s' = filter p (dep_table v s)"
  shows "dep_keys s' \<and> acyclic (blocking_edges s')"
proof
  show "dep_keys s'"
    unfolding dep_keys_def
  proof (intro allI conjI)
    fix w
    obtain p where p: "dep_table w s' = filter p (dep_table w s)" using sub by blast
    show "distinct (map (\<lambda>d. (issue_id d, dep_target d)) (dep_table w s'))"
      unfolding p using assms(1) by (auto simp: dep_keys_def intro: distinct_map_filter)
    show "\<forall>d\<in>set (dep_table w s'). one_target d"
      unfolding p using assms(1) by (auto simp: dep_keys_def)
  qed
  have "set (dep_table w s') \<subseteq> set (dep_table w s)" for w
    using sub[of w] by auto
  then have "blocking_edges s' \<subseteq> blocking_edges s" by (auto simp: blocking_edges_def)
  then show "acyclic (blocking_edges s')" by (rule acyclic_subset[OF assms(2)])
qed

subsection \<open>The steps\<close>

inductive store_step :: "env \<Rightarrow> db \<Rightarrow> db \<Rightarrow> bool" for e :: env where
  claim: "same_gates e e' \<Longrightarrow> ClaimIssue e' x a s = Inr (res, s') \<Longrightarrow> store_step e s s'"
| heartbeat: "same_gates e e' \<Longrightarrow> HeartbeatIssue e' x a s = Inr s' \<Longrightarrow> store_step e s s'"
| reclaim: "same_gates e e' \<Longrightarrow> ReclaimExpiredLeases e' cutoff a s = (s', rs) \<Longrightarrow> store_step e s s'"
| close: "same_gates e e' \<Longrightarrow> CloseIssue e' x reason a sess s = Some (Inr (cres, s')) \<Longrightarrow> store_step e s s'"
| reopen: "same_gates e e' \<Longrightarrow> ReopenIssue e' x reason a s = Some (Inr (rres, s')) \<Longrightarrow> store_step e s s'"
| update: "same_gates e e' \<Longrightarrow> UpdateIssue e' x u a s = Some (Inr (ures, s')) \<Longrightarrow>
    GetIssue s x = Inr old \<Longrightarrow> select_row x (issue_table (IsActiveWisp s x) s) = Some old \<Longrightarrow>
    distinct (map fst u) \<Longrightarrow> map_of u ''closed_at'' = None \<Longrightarrow>
    (\<And>v. map_of u ''status'' = Some v \<Longrightarrow> status_text v \<noteq> None) \<Longrightarrow> \<not> silent_change old u \<Longrightarrow> store_step e s s'"
| add: "same_gates e e' \<Longrightarrow> StoreAddDependency e' dep a s = Some (Inr s') \<Longrightarrow>
    acyclic (with_parent s dep) \<Longrightarrow> DependsOnID dep \<noteq> '''' \<Longrightarrow>
    (\<And>d. d \<in> set (dep_table (IsActiveWisp s (IssueID dep)) s) \<Longrightarrow>
       dep_match (IssueID dep) (DependsOnID dep) d \<Longrightarrow> dtype d \<noteq> DepWaitsFor) \<Longrightarrow> store_step e s s'"
| remove: "same_gates e e' \<Longrightarrow> removeDependency e' x y s = Some s' \<Longrightarrow> y \<noteq> '''' \<Longrightarrow> store_step e s s'"
| create: "same_gates e e' \<Longrightarrow> CreateIssue e' i0 a s = Some (Inr (i, s')) \<Longrightarrow>
    (\<And>j s1. create_row e' i0 a s = Inr (j, s1) \<Longrightarrow> unused s (ID j)) \<Longrightarrow> Dependencies i0 = [] \<Longrightarrow> store_step e s s'"
| delete: "same_gates e e' \<Longrightarrow> DeleteIssue e' x s = Some (Inr s') \<Longrightarrow> store_step e s s'"

inductive reachable :: "env \<Rightarrow> db \<Rightarrow> bool" for e :: env where
  start: "t_issues s = [] \<Longrightarrow> t_wisps s = [] \<Longrightarrow> t_deps s = [] \<Longrightarrow> t_wisp_deps s = [] \<Longrightarrow> reachable e s"
| step: "reachable e s \<Longrightarrow> store_step e s s' \<Longrightarrow> reachable e s'"

inductive_cases reachableE: "reachable e s"

subsection \<open>Which tables the operations leave alone\<close>

lemma reclaim_deps:
  "ReclaimExpiredLeases e c a s = (s', rs) \<Longrightarrow> dep_table v s' = dep_table v s"
proof -
  have f: "fold (reclaim_one e c a) qs (s, acc) = (s', acc') \<Longrightarrow> dep_table v s' = dep_table v s" for qs s acc acc'
  proof (induction qs arbitrary: s acc)
    case (Cons q qs)
    obtain s1 acc1 where q: "reclaim_one e c a q (s, acc) = (s1, acc1)" by fastforce
    have "dep_table v s1 = dep_table v s" using reclaim_one_step(1)[OF q] by (simp add: row_change_def)
    then show ?case using Cons.IH[of s1 acc1] Cons.prems q by simp
  qed simp
  assume "ReclaimExpiredLeases e c a s = (s', rs)"
  then show ?thesis using f by (auto simp: ReclaimExpiredLeases_def Let_def split: if_splits)
qed

lemma claim_deps:
  assumes "ClaimIssue e x a s = Inr (res, s')" "wf_db s"
  shows "dep_table v s' = dep_table v s"
  using assms by (cases rule: ClaimIssue_cases) (auto simp: row_change_def)

lemma heartbeat_deps:
  assumes "HeartbeatIssue e x a s = Inr s'" "wf_db s"
  shows "dep_table v s' = dep_table v s"
  using HeartbeatIssue_cases[OF assms] by (auto simp: row_change_def)

lemma close_deps:
  assumes "good_db e s" "CloseIssue e x reason a sess s = Some (Inr (res, s'))"
  shows "good_db e s' \<and> dep_table v s' = dep_table v s"
  using closeIssue_spec[OF assms(1), of x reason a sess True] assms
  by (auto simp: CloseIssue_def row_change_def dest: same_but_flags_views(5)[where w = v] split: option.splits if_splits)

lemma reopen_deps:
  assumes "good_db e s" "ReopenIssue e x reason a s = Some (Inr (res, s'))"
  shows "good_db e s' \<and> dep_table v s' = dep_table v s"
  using ReopenIssue_spec[OF assms(1), of x reason a] assms
  by (auto simp: row_change_def dest: same_but_flags_views(5)[where w = v] split: option.splits if_splits)

lemma update_deps:
  assumes "good_db e s" "UpdateIssue e x u a s = Some (Inr (res, s'))"
    and "GetIssue s x = Inr old" "select_row x (issue_table (IsActiveWisp s x) s) = Some old"
    "distinct (map fst u)" "map_of u ''closed_at'' = None"
    "\<And>v. map_of u ''status'' = Some v \<Longrightarrow> status_text v \<noteq> None" "\<not> silent_change old u"
  shows "good_db e s' \<and> dep_table v s' = dep_table v s"
  using update_spec[OF assms(1,3-8), of a True] assms(2)
  by (auto simp: UpdateIssue_def row_change_def dest: same_but_flags_views(5)[where w = v])

lemma create_deps:
  assumes g: "good_db e s" and c: "CreateIssue e i0 a s = Some (Inr (i, s'))"
    and un: "\<And>j s1. create_row e i0 a s = Inr (j, s1) \<Longrightarrow> unused s (ID j)" and no: "Dependencies i0 = []"
  shows "good_db e s' \<and> dep_table v s' = dep_table v s"
proof -
  have u: "\<forall>j s1. create_row e i0 a s = Inr (j, s1) \<longrightarrow> unused s (ID j) \<and>
      (\<forall>dep\<in>set (Dependencies i0). IssueID dep = [] \<or> IssueID dep = ID j)" using un no by simp
  have w: "\<forall>dep\<in>set (Dependencies i0). \<forall>v. \<forall>d\<in>set (dep_table v s). DepType dep = DepParentChild \<longrightarrow>
      dtype d = DepWaitsFor \<longrightarrow> (\<forall>u. \<not> targets d u (DependsOnID dep))" using no by simp
  show ?thesis using CreateIssue_spec[OF g u w] c no by auto
qed

lemma delete_deps:
  assumes g: "good_db e s" and k: "dep_keys s" and d: "DeleteIssue e x s = Some (Inr s')"
  shows "good_db e s' \<and> (\<exists>p. dep_table v s' = filter p (dep_table v s))"
proof -
  have one: "\<And>d. d \<in> set (dep_table False s) \<Longrightarrow> one_target d" using k by (simp add: dep_keys_def)
  note sp = DeleteIssue_spec[OF g one, of x]
  have p: "good_db e s'" "dep_table True s' = dep_table True s"
    "dep_table False s' = (if IsActiveWisp s x then filter (\<lambda>d. depends_on_wisp_id d \<noteq> Some x) (dep_table False s) else dep_table False s)"
    using sp d by (auto split: if_splits)
  have "dep_table v s = filter (\<lambda>d. True) (dep_table v s)" for v by simp
  then show ?thesis using p by (cases v) (auto split: if_splits intro: exI[of _ "\<lambda>d. True"])
qed

subsection \<open>The invariant\<close>

lemma store_step_keeps:
  assumes "store_step e s s'" "good_store e s"
  shows "good_store e s'"
  using assms(1)
proof cases
  case (claim e' x a res)
  then show ?thesis
    using assms(2) ClaimIssue_good[of e s e'] claim_deps[OF claim(2)] same_graph[of s' s]
    by (auto simp: good_store_def good_db_def)
next
  case (heartbeat e' x a)
  then show ?thesis
    using assms(2) HeartbeatIssue_good[of e s e'] heartbeat_deps[OF heartbeat(2)] same_graph[of s' s]
    by (auto simp: good_store_def good_db_def)
next
  case (reclaim e' cutoff a rs)
  then show ?thesis
    using assms(2) ReclaimExpiredLeases_good[of e s e'] reclaim_deps[OF reclaim(2)] same_graph[of s' s]
    by (auto simp: good_store_def)
next
  case (close e' x reason a sess cres)
  have "good_db e' s" using assms(2) same_gates_good[OF close(1)] by (simp add: good_store_def)
  note d = close_deps[OF this close(2)]
  show ?thesis using assms(2) d same_graph[of s' s] same_gates_good[OF close(1)] by (simp add: good_store_def)
next
  case (reopen e' x reason a rres)
  have "good_db e' s" using assms(2) same_gates_good[OF reopen(1)] by (simp add: good_store_def)
  note d = reopen_deps[OF this reopen(2)]
  show ?thesis using assms(2) d same_graph[of s' s] same_gates_good[OF reopen(1)] by (simp add: good_store_def)
next
  case (update e' x u a ures old)
  have "good_db e' s" using assms(2) same_gates_good[OF update(1)] by (simp add: good_store_def)
  note d = update_deps[OF this update(2-8)]
  show ?thesis using assms(2) d same_graph[of s' s] same_gates_good[OF update(1)] by (simp add: good_store_def)
next
  case (add e' dep a)
  have g: "good_db e' s" using assms(2) same_gates_good[OF add(1)] by (simp add: good_store_def)
  let ?c = "ExtractPrefix (IssueID dep) \<noteq> ExtractPrefix (DependsOnID dep)"
  have r: "AddDependency e' dep a (default_opts\<lparr>IsCrossPrefix := ?c\<rparr>) s = Some (Inr s')"
    using add(2) by (simp add: StoreAddDependency_def)
  have "good_db e' s'"
    using AddDependency_good[OF g add(3,4), of a ?c] r add(5) by auto
  moreover have "acyclic (blocking_edges s') \<and> dep_keys s'"
    using AddDependency_graph[OF _ _ _ r] assms(2) by (simp add: good_store_def good_db_def)
  ultimately show ?thesis using same_gates_good[OF add(1)] by (simp add: good_store_def)
next
  case (remove e' x y)
  have g: "good_db e' s" using assms(2) same_gates_good[OF remove(1)] by (simp add: good_store_def)
  have k: "dep_keys s" "acyclic (blocking_edges s)" using assms(2) by (simp_all add: good_store_def)
  have r: "good_db e' s'" "dep_table (IsActiveWisp s x) s' = filter (\<lambda>d. \<not> dep_match x y d) (dep_table (IsActiveWisp s x) s)"
    "dep_table (\<not> IsActiveWisp s x) s' = filter (\<lambda>d. True) (dep_table (\<not> IsActiveWisp s x) s)"
    using removeDependency_good[OF g k(1) remove(3), of x] remove(2) by auto
  have "\<exists>p. dep_table v s' = filter p (dep_table v s)" for v
    using r(2,3) by (cases "v = IsActiveWisp s x") metis+
  from smaller_graph[OF k this] show ?thesis using r(1) same_gates_good[OF remove(1)] by (simp add: good_store_def)
next
  case (create e' i0 a i)
  have "good_db e' s" using assms(2) same_gates_good[OF create(1)] by (simp add: good_store_def)
  note d = create_deps[OF this create(2-4)]
  show ?thesis using assms(2) d same_graph[of s' s] same_gates_good[OF create(1)] by (simp add: good_store_def)
next
  case (delete e' x)
  have g: "good_db e' s" using assms(2) same_gates_good[OF delete(1)] by (simp add: good_store_def)
  have k: "dep_keys s" "acyclic (blocking_edges s)" using assms(2) by (simp_all add: good_store_def)
  note d = delete_deps[OF g k(1) delete(2)]
  show ?thesis using smaller_graph[OF k] d same_gates_good[OF delete(1)] by (simp add: good_store_def)
qed

lemma reachable_good: "reachable e s \<Longrightarrow> good_store e s"
proof (induction rule: reachable.induct)
  case (start s)
  then have t: "issue_table v s = []" "dep_table v s = []" for v by (simp_all add: issue_table_def dep_table_def)
  then show ?case
    by (auto simp: good_store_def good_db_def wf_db_def acyclic_parents_def parent_edges_def parents_def nodes_def
        blocked_consistent_def rows_closed_at_def dep_keys_def blocking_edges_def acyclic_def)
qed (rule store_step_keeps)

end
