(* ===== verification/PropsTraces.thy ===== *)
theory PropsTraces
  imports Traces
begin

text \<open>The properties of sequences of operations.\<close>

text \<open>
  (C7) Take any database reached from empty tables, in any order and at any times, by
  claims, heartbeats, reclaims, closes, reopenings and deletions of single issues without
  restriction, and by the calls of these four operations that \<^verbatim>\<open>store_step\<close> allows: updates
  that do not give \<^verbatim>\<open>closed_at\<close>, give the status as a string and do not move an issue
  between \<^verbatim>\<open>closed\<close> and \<^verbatim>\<open>pinned\<close>; additions of a dependency that close no cycle of parents and
  do not overwrite a waits-for row; removals of a dependency; creations of an issue without
  dependencies under an id that nothing mentions.  Then the keys are unique, \<^verbatim>\<open>closed_at\<close>
  is set exactly on closed issues, the blocking graph has no cycle, the derived column is the
  one the inductive specification gives, and the doctor finds nothing to repair.  The calls
  left out are real exceptions: \<^verbatim>\<open>pinned_close_stale\<close>, \<^verbatim>\<open>create_child_stale\<close>,
  \<^verbatim>\<open>gate_update_stale\<close>, \<^verbatim>\<open>parent_cycle_accepted\<close> and \<^verbatim>\<open>counter_id_overwrites\<close> show databases on
  which such a call leaves a wrong flag, a cycle of parents or an overwritten issue.  Batch
  creation and deletion, renaming, promotion and merges are not steps here.
\<close>

theorem store_invariant:
  assumes "reachable e s"
  shows "wf_db s \<and> dep_keys s \<and> rows_closed_at s \<and> acyclic (blocking_edges s) \<and>
    (\<forall>w. \<forall>r\<in>set (issue_table w s). IsBlocked r \<longleftrightarrow> must_block e s (w, ID r)) \<and>
    CountIsBlockedInconsistencies e s = 0"
proof -
  have g: "good_db e s" "dep_keys s" "acyclic (blocking_edges s)"
    using reachable_good[OF assms] by (simp_all add: good_store_def)
  have wf: "wf_db s" and co: "blocked_consistent e s" and ac: "acyclic_parents s" and cl: "rows_closed_at s"
    using g(1) by (simp_all add: good_db_def)
  have f: "flagged s = {n. must_block e s n}" by (rule flagged_must_block[OF wf ac co])
  have "IsBlocked r \<longleftrightarrow> (w, ID r) \<in> flagged s" if "r \<in> set (issue_table w s)" for r w
    using that distinct_key_eq[OF wf_db_table[OF wf]] by (auto simp: flagged_def)
  then have "\<forall>w. \<forall>r\<in>set (issue_table w s). IsBlocked r \<longleftrightarrow> must_block e s (w, ID r)"
    unfolding f by blast
  moreover have "CountIsBlockedInconsistencies e s = 0"
    using co count_stale_zero[of e _ s] by (simp add: CountIsBlockedInconsistencies_def blocked_consistent_def)
  ultimately show ?thesis using wf g(2,3) cl by blast
qed

definition empty_db :: db where
  "empty_db = with_config (ex_db [] []) []"

theorem store_invariant_witness:
  "\<exists>s. reachable ex_env s \<and> IsActiveWisp s ''bd-9'' = False \<and> CountIsBlockedInconsistencies ex_env s = 0 \<and>
     (\<exists>r. select_row ''bd-9'' (t_issues s) = Some r \<and> Status r = StatusInProgress \<and> Assignee r = ''bob'')"
proof -
  let ?i = "ex_issue ''bd-9'' []"
  define P where "P s' = (\<not> IsActiveWisp s' ''bd-9'' \<and>
      (case select_row ''bd-9'' (t_issues s') of Some r \<Rightarrow> Status r = StatusInProgress \<and> Assignee r = ''bob'' | None \<Rightarrow> False))" for s'
  have "returns (CreateIssue ex_env ?i ''amy'' empty_db) (\<lambda>(i, s). case ClaimIssue ex_env ''bd-9'' ''bob'' s of
      Inr (res, s') \<Rightarrow> P s' | Inl _ \<Rightarrow> False)" unfolding P_def by code_simp
  then obtain i s where c1: "CreateIssue ex_env ?i ''amy'' empty_db = Some (Inr (i, s))"
    and c: "case ClaimIssue ex_env ''bd-9'' ''bob'' s of Inr (res, s') \<Rightarrow> P s' | Inl _ \<Rightarrow> False"
    by (auto dest: returnsD)
  obtain res s' where c2: "ClaimIssue ex_env ''bd-9'' ''bob'' s = Inr (res, s')" "P s'"
    using c by (cases "ClaimIssue ex_env ''bd-9'' ''bob'' s") auto
  have r0: "reachable ex_env empty_db" by (rule reachable.start) (simp_all add: empty_db_def with_config_def ex_db_def)
  have "unused empty_db x" for x
    by (simp add: unused_def empty_db_def with_config_def issue_table_def dep_table_def ex_db_def)
  then have "reachable ex_env s"
    by (intro reachable.step[OF r0] store_step.create[OF _ c1]) (simp_all add: same_gates_def ex_issue_def blank_issue_def)
  then have "reachable ex_env s'"
    by (rule reachable.step) (rule store_step.claim[OF _ c2(1)], simp add: same_gates_def)
  then have "reachable ex_env s' \<and> CountIsBlockedInconsistencies ex_env s' = 0"
    using store_invariant[of ex_env s'] by blast
  with c2(2) show ?thesis by (intro exI[of _ s']) (auto simp: P_def split: option.splits)
qed

text \<open>
  (C22) Work whose owner has died is recovered: once the lease of a claimed permanent
  issue has expired, a reclaim reports the issue with its owner and makes it
  claimable, and then the claim of any other actor succeeds.
\<close>

theorem abandoned_work_recovers:
  assumes wf: "wf_db s" and perm: "\<not> IsActiveWisp s x"
    and c: "ClaimIssue e x a s = Inr (res, s1)" "s1 \<noteq> s"
    and t: "now e + leaseTTL e < cutoff" and rc: "ReclaimExpiredLeases e2 cutoff z s1 = (s2, rs)"
  shows "(x, a) \<in> set rs \<and>
    (\<exists>res' s3. ClaimIssue e3 x b s2 = Inr (res', s3) \<and> s3 \<noteq> s2 \<and>
      (\<exists>r. select_row x (t_issues s3) = Some r \<and> Status r = StatusInProgress \<and> Assignee r = b))"
proof -
  obtain r where r: "select_row x (t_issues s1) = Some r" "Status r = StatusInProgress" "Assignee r = a"
    "LeaseExpiresAt r = Some (now e + leaseTTL e)" "IsActiveWisp s1 = IsActiveWisp s" "wf_db s1"
    using claim_post[OF wf c(1)] c(2) perm by (auto simp: issue_table_def)
  have st: "stale_lease cutoff r" using r(2,4) t by (simp add: stale_lease_def)
  note rr = reclaim_rows[OF r(6) rc]
  have ri: "t_issues s2 = map (\<lambda>r. if stale_lease cutoff r then reclaim_set e2 (ID r) r else r) (t_issues s1)"
    "t_wisps s2 = t_wisps s1" "rs = map (\<lambda>r. (ID r, Assignee r)) (filter (stale_lease cutoff) (t_issues s1))"
    using rr by simp_all
  have mem: "r \<in> set (t_issues s1)" "ID r = x" using select_row_Some[OF r(1)] by simp_all
  then have "(x, a) \<in> set rs" using ri(3) st r(3) by force
  have sel: "select_row x (t_issues s2) = Some (reclaim_set e2 x r)"
  proof -
    have "select_row x (map (\<lambda>r. if stale_lease cutoff r then reclaim_set e2 (ID r) r else r) rows) =
        map_option (\<lambda>r. if stale_lease cutoff r then reclaim_set e2 (ID r) r else r) (select_row x rows)" for rows
      by (induction rows) (auto simp: select_row_def)
    then show ?thesis using r(1) st mem(2) by (simp add: ri(1))
  qed
  have "\<not> IsActiveWisp s1 x" using perm r(5) by simp
  then have nw: "\<not> IsActiveWisp s2 x" using ri(2) by (simp add: IsActiveWisp_def)
  have cl: "claimable x b (reclaim_set e2 x r)" using mem(2) by (simp add: claimable_def reclaim_set_def)
  have g: "GetIssue s2 x = Inr (reclaim_set e2 x r)" using sel by (simp add: GetIssue_def)
  obtain rows n where u: "update_where (claimable x b) (claim_set e3 b (StartedAt (reclaim_set e2 x r) = None) x) (t_issues s2) = (rows, n)"
    by fastforce
  have "reclaim_set e2 x r \<in> set (t_issues s2)" using select_row_Some[OF sel] by simp
  then have n: "n \<noteq> 0" using u cl by (auto simp: update_where_def filter_empty_conv)
  obtain res' s3 where c3: "ClaimIssue e3 x b s2 = Inr (res', s3)"
    using g u n nw by (simp add: ClaimIssue_def issue_table_def Let_def)
  have wf2: "wf_db s2"
    using wf_db_table[OF r(6), of True] wf_db_table[OF r(6), of False] unfolding wf_db_def all_bool_eq
    by (simp add: issue_table_def ri(1,2) o_def if_distrib[of ID] cong: if_cong)
  obtain q where q: "select_row x (t_issues s3) = Some q" "Status q = StatusInProgress" "Assignee q = b"
    using claim_post[OF wf2 c3] nw by (auto simp: issue_table_def)
  have "s3 \<noteq> s2" using q sel by (auto simp: reclaim_set_def const_defs)
  with c3 q \<open>(x, a) \<in> set rs\<close> show ?thesis by blast
qed

theorem abandoned_work_recovers_witness:
  "\<exists>res s1 s2 rs res' s3. ClaimIssue ex_env ''bd-1'' ''bob'' (chain True) = Inr (res, s1) \<and>
     ReclaimExpiredLeases ex_env (10 ^ 12) ''sup'' s1 = (s2, rs) \<and> (''bd-1'', ''bob'') \<in> set rs \<and>
     ClaimIssue ex_env ''bd-1'' ''eve'' s2 = Inr (res', s3)"
proof -
  have "case ClaimIssue ex_env ''bd-1'' ''bob'' (chain True) of Inr (res, s1) \<Rightarrow>
      (case select_row ''bd-1'' (t_issues s1) of Some r \<Rightarrow> Status r = StatusInProgress | None \<Rightarrow> False) | _ \<Rightarrow> False" by code_simp
  then obtain res s1 where c: "ClaimIssue ex_env ''bd-1'' ''bob'' (chain True) = Inr (res, s1)"
    "case select_row ''bd-1'' (t_issues s1) of Some r \<Rightarrow> Status r = StatusInProgress | None \<Rightarrow> False"
    by (auto split: sum.splits)
  have "case select_row ''bd-1'' (t_issues (chain True)) of Some r \<Rightarrow> Status r \<noteq> StatusInProgress | None \<Rightarrow> False" by code_simp
  then have ne: "s1 \<noteq> chain True" using c(2) by (auto split: option.splits)
  obtain s2 rs where rc: "ReclaimExpiredLeases ex_env (10 ^ 12) ''sup'' s1 = (s2, rs)" by fastforce
  have t: "now ex_env + leaseTTL ex_env < 10 ^ 12" by (simp add: ex_env_def leaseTTL_def DefaultLeaseTTL_def)
  show ?thesis
    using abandoned_work_recovers[OF chain_wf _ c(1) ne t rc, of ex_env "''eve''"] c(1) rc by auto
qed

end
