(* ===== verification/DepQueries.thy ===== *)
theory DepQueries
  imports Labels
begin

text \<open>
  Queries on the dependency tables (\<^verbatim>\<open>internal/storage/issueops/dependency_queries.go\<close>,
  the readers of \<^verbatim>\<open>dependencies.go\<close>, \<^verbatim>\<open>blocked.go\<close>, \<^verbatim>\<open>epic_closure.go\<close> and \<^verbatim>\<open>counts.go\<close> of the
  store).  Rows that a statement does not order come in the order of the table.
  Scanning a NULL into a Go string is an error.
\<close>

fun scan_all :: "('a \<Rightarrow> 'e + 'b) \<Rightarrow> 'a list \<Rightarrow> 'e + 'b list" where
  "scan_all f [] = Inr []"
| "scan_all f (x # xs) = bind_res (f x) (\<lambda>y. bind_res (scan_all f xs) (\<lambda>ys. Inr (y # ys)))"

text \<open>The rows of both tables that satisfy a condition, permanent ones first.\<close>

definition both_deps :: "db \<Rightarrow> (dep_row \<Rightarrow> bool) \<Rightarrow> dep_row list" where
  "both_deps s p = filter p (dep_table False s) @ filter p (dep_table True s)"

definition scan_target :: "dep_row \<Rightarrow> store_error + string" where
  "scan_target d = (case dep_target d of None \<Rightarrow> Inl (OpFailed ''scan'') | Some y \<Rightarrow> Inr y)"

subsection \<open>Dependency records\<close>

definition scanDependencyRow :: "dep_row \<Rightarrow> store_error + dependency" where
  "scanDependencyRow d = bind_res (scan_target d) (\<lambda>y. Inr
     \<lparr>IssueID = issue_id d, DependsOnID = y, DepType = dtype d, DepCreatedAt = created_at d,
       DepCreatedBy = created_by d, DepMetadata = dmetadata d, ThreadID = thread_id d\<rparr>)"

type_synonym records = "string \<Rightarrow> dependency list option"

definition records_into :: "dep_row list \<Rightarrow> records \<Rightarrow> store_error + records" where
  "records_into rows result =
     bind_res (scan_all scanDependencyRow (sort_key issue_id rows))
       (\<lambda>deps. Inr (fold (append_row IssueID (\<lambda>d. d)) deps result))"

definition GetAllDependencyRecords :: "db \<Rightarrow> store_error + records" where
  "GetAllDependencyRecords s =
     bind_res (records_into (dep_table False s) Map.empty) (records_into (dep_table True s))"

definition getDependencyRecordsIntoFromTable ::
  "dep_row list \<Rightarrow> string list \<Rightarrow> records \<Rightarrow> store_error + records" where
  "getDependencyRecordsIntoFromTable table ids result =
     fold_res (\<lambda>batch. records_into (filter (\<lambda>d. issue_id d \<in> set batch) table)) (chunks queryBatchSize ids) result"

definition GetDependencyRecordsForIssues :: "db \<Rightarrow> string list \<Rightarrow> store_error + records" where
  "GetDependencyRecordsForIssues s issueIDs =
    (if issueIDs = [] then Inr Map.empty
     else
      (let (wispIDs, permIDs) = PartitionWispIDs s issueIDs
       in bind_res (if wispIDs \<noteq> [] then getDependencyRecordsIntoFromTable (dep_table True s) wispIDs Map.empty
                    else Inr Map.empty)
            (\<lambda>result. if permIDs \<noteq> [] then getDependencyRecordsIntoFromTable (dep_table False s) permIDs result
                      else Inr result)))"

definition GetDependencyRecordsForIssuesFromTable :: "dep_row list \<Rightarrow> string list \<Rightarrow> store_error + records" where
  "GetDependencyRecordsForIssuesFromTable table issueIDs =
    (if issueIDs = [] then Inr Map.empty else getDependencyRecordsIntoFromTable table issueIDs Map.empty)"

subsection \<open>Counts\<close>

record dependency_counts =
  DependencyCount :: nat
  DependentCount :: nat

definition count_blocks :: "dep_row list \<Rightarrow> string list \<Rightarrow> (string \<Rightarrow> dependency_counts option) \<Rightarrow> string \<Rightarrow> dependency_counts option" where
  "count_blocks rows batch result = (\<lambda>x. case result x of
       None \<Rightarrow> None
     | Some c \<Rightarrow> Some (if x \<in> set batch then
         c\<lparr>DependencyCount := DependencyCount c + length (filter (\<lambda>d. issue_id d = x \<and> dtype d = DepBlocks) rows),
           DependentCount := DependentCount c + length (filter (\<lambda>d. dep_target d = Some x \<and> dtype d = DepBlocks) rows)\<rparr>
         else c))"

definition GetDependencyCounts :: "db \<Rightarrow> string list \<Rightarrow> string \<Rightarrow> dependency_counts option" where
  "GetDependencyCounts s issueIDs =
    (if issueIDs = [] then Map.empty
     else
      (let result = (\<lambda>x. if x \<in> set issueIDs then Some \<lparr>DependencyCount = 0, DependentCount = 0\<rparr> else None);
           depTables = (if t_wisps s = [] then [False] else [False, True])
       in fold (\<lambda>batch. fold (\<lambda>w. count_blocks (dep_table w s) batch) depTables) (chunks queryBatchSize issueIDs) result))"

definition CountDependents :: "db \<Rightarrow> string \<Rightarrow> nat" where
  "CountDependents s issueID = length (filter (\<lambda>d. dep_target d = Some issueID) (dep_table False s)) +
     length (filter (\<lambda>d. dep_target d = Some issueID) (dep_table True s))"

definition CountDependencies :: "db \<Rightarrow> string \<Rightarrow> nat" where
  "CountDependencies s issueID = length (filter (\<lambda>d. issue_id d = issueID) (dep_table False s)) +
     length (filter (\<lambda>d. issue_id d = issueID) (dep_table True s))"

subsection \<open>Status of a set of ids\<close>

definition loadStatusByID :: "db \<Rightarrow> string list \<Rightarrow> string \<Rightarrow> status option" where
  "loadStatusByID s ids =
     fold (\<lambda>w. fold (\<lambda>batch m. fold (\<lambda>r m. m(ID r \<mapsto> Status r))
         (filter (\<lambda>r. ID r \<in> set batch) (issue_table w s)) m) (chunks queryBatchSize ids)) [False, True] Map.empty"

subsection \<open>Blocking information\<close>

definition blocked_by_row ::
  "(string \<Rightarrow> status option) \<Rightarrow> dep_row \<times> string \<Rightarrow> (string \<Rightarrow> string list option) \<times> (string \<Rightarrow> string option) \<Rightarrow>
   (string \<Rightarrow> string list option) \<times> (string \<Rightarrow> string option)" where
  "blocked_by_row st row maps =
    (let (d, y) = row; (blockedBy, parent) = maps
     in if st y = Some StatusClosed then maps
        else if dtype d = DepParentChild then (blockedBy, parent(issue_id d \<mapsto> y))
        else (append_row (\<lambda>p. issue_id (fst p)) snd (d, y) blockedBy, parent))"

definition queryBlockedByInfo ::
  "db \<Rightarrow> dep_row list \<Rightarrow> string list \<Rightarrow> (string \<Rightarrow> string list option) \<times> (string \<Rightarrow> string option) \<Rightarrow>
   store_error + (string \<Rightarrow> string list option) \<times> (string \<Rightarrow> string option)" where
  "queryBlockedByInfo s table issueIDs maps =
     fold_res (\<lambda>batch maps.
         bind_res (scan_all (\<lambda>d. bind_res (scan_target d) (\<lambda>y. Inr (d, y)))
             (filter (\<lambda>d. issue_id d \<in> set batch \<and> (dtype d = DepBlocks \<or> dtype d = DepParentChild)) table))
           (\<lambda>rows. Inr (fold (blocked_by_row (loadStatusByID s (map snd rows))) rows maps)))
       (chunks queryBatchSize issueIDs) maps"

definition queryBlocksInfo ::
  "db \<Rightarrow> string list \<Rightarrow> (string \<Rightarrow> string list option) \<Rightarrow> string \<Rightarrow> string list option" where
  "queryBlocksInfo s issueIDs blocksMap =
     fold (\<lambda>batch. let st = loadStatusByID s batch in
         fold (\<lambda>w. fold (\<lambda>d m. case dep_target d of
             None \<Rightarrow> m
           | Some y \<Rightarrow> (if st y = Some StatusClosed \<or> dtype d = DepParentChild then m
               else append_row fst snd (y, issue_id d) m))
           (filter (\<lambda>d. (\<exists>x\<in>set batch. dep_target d = Some x) \<and> (dtype d = DepBlocks \<or> dtype d = DepParentChild))
             (dep_table w s))) [False, True])
       (chunks queryBatchSize issueIDs) blocksMap"

definition GetBlockingInfoForIssues ::
  "db \<Rightarrow> string list \<Rightarrow>
   store_error + (string \<Rightarrow> string list option) \<times> (string \<Rightarrow> string list option) \<times> (string \<Rightarrow> string option)" where
  "GetBlockingInfoForIssues s issueIDs =
    (if issueIDs = [] then Inr (Map.empty, Map.empty, Map.empty)
     else
      (let (wispIDs, permIDs) = PartitionWispIDs s issueIDs
       in bind_res (if wispIDs \<noteq> [] then queryBlockedByInfo s (dep_table True s) wispIDs (Map.empty, Map.empty)
                    else Inr (Map.empty, Map.empty))
            (\<lambda>maps. bind_res (if permIDs \<noteq> [] then queryBlockedByInfo s (dep_table False s) permIDs maps else Inr maps)
              (\<lambda>(blockedBy, parent). Inr (blockedBy, queryBlocksInfo s issueIDs Map.empty, parent)))))"

subsection \<open>Newly unblocked issues\<close>

definition active_id :: "(string \<Rightarrow> status option) \<Rightarrow> string \<Rightarrow> bool" where
  "active_id st x = (case st x of None \<Rightarrow> False | Some v \<Rightarrow> v \<noteq> StatusClosed \<and> v \<noteq> StatusPinned)"

definition still_blocked :: "db \<Rightarrow> string \<Rightarrow> string list \<Rightarrow> string set" where
  "still_blocked s closedIssueID candidateIDs =
    (\<Union>batch\<in>set (chunks queryBatchSize candidateIDs).
      (let remaining = both_deps s (\<lambda>d. issue_id d \<in> set batch \<and> dtype d = DepBlocks \<and>
             dep_target d \<noteq> None \<and> dep_target d \<noteq> Some closedIssueID);
           blockers = sort (remdups (List.map_filter dep_target remaining));
           st = loadStatusByID s blockers
       in set (map issue_id (filter (\<lambda>d. case dep_target d of None \<Rightarrow> False | Some y \<Rightarrow> active_id st y) remaining))))"

definition GetNewlyUnblockedByClose :: "db \<Rightarrow> string \<Rightarrow> issue_row list" where
  "GetNewlyUnblockedByClose s closedIssueID =
    (let candidateIDs = sort (remdups (map issue_id
           (both_deps s (\<lambda>d. dep_target d = Some closedIssueID \<and> dtype d = DepBlocks))));
         st = loadStatusByID s candidateIDs;
         active = filter (active_id st) candidateIDs;
         stillBlocked = still_blocked s closedIssueID active
     in List.map_filter (\<lambda>x. case GetIssue s x of Inl _ \<Rightarrow> None | Inr r \<Rightarrow> Some r)
          (filter (\<lambda>x. x \<notin> stillBlocked) active))"

subsection \<open>Is an issue blocked\<close>

definition read_flag :: "db \<Rightarrow> string \<Rightarrow> bool option" where
  "read_flag s x = (case select_row x (t_issues s) of
     Some r \<Rightarrow> Some (IsBlocked r)
   | None \<Rightarrow> map_option IsBlocked (select_row x (t_wisps s)))"

definition blocker_text :: "dep_type \<Rightarrow> string \<Rightarrow> string" where
  "blocker_text t y = (if t \<noteq> DepBlocks then y @ '' ('' @ t @ '')'' else y)"

definition IsBlockedQuery :: "db \<Rightarrow> string \<Rightarrow> store_error + (bool \<times> string list)" where
  "IsBlockedQuery s issueID =
    (if read_flag s issueID \<noteq> Some True then Inr (False, [])
     else bind_res (scan_all (\<lambda>d. bind_res (scan_target d) (\<lambda>y. Inr (y, dtype d)))
         (both_deps s (\<lambda>d. issue_id d = issueID \<and>
            (dtype d = DepBlocks \<or> dtype d = DepWaitsFor \<or> dtype d = DepConditionalBlocks))))
       (\<lambda>edges. let st = loadStatusByID s (map fst edges)
          in Inr (True, map (\<lambda>(y, t). blocker_text t y) (filter (\<lambda>(y, t). active_id st y) edges))))"

end
