(* ===== verification/Readers.thy ===== *)
theory Readers
  imports DepQueries
begin

text \<open>
  Readers that return issues: the batched fetch and the issue-valued queries of
  \<^verbatim>\<open>internal/storage/issueops/dependencies.go\<close>, the parent-child walk and the list of
  blocked issues of \<^verbatim>\<open>blocked.go\<close>, and \<^verbatim>\<open>epic_closure.go\<close>.  The order in which Go
  iterates over a map is an argument of the readers whose result can show it.
\<close>

subsection \<open>Fetching issues with their labels\<close>

definition hydrate_labels :: "(string \<times> string) list \<Rightarrow> issue_row \<Rightarrow> issue_row" where
  "hydrate_labels labels r = r\<lparr>Labels := sort (map snd (filter (\<lambda>l. fst l = ID r) labels))\<rparr>"

definition fetch_table :: "bool \<Rightarrow> db \<Rightarrow> string list \<Rightarrow> issue_row list" where
  "fetch_table w s ids =
     concat (map (\<lambda>batch. map (hydrate_labels (label_table w s)) (filter (\<lambda>r. ID r \<in> set batch) (issue_table w s)))
       (chunks queryBatchSize ids))"

definition GetIssuesByIDs :: "db \<Rightarrow> string list \<Rightarrow> string set option \<Rightarrow> issue_row list" where
  "GetIssuesByIDs s ids wispSetOpt =
    (if ids = [] then []
     else (let (wispIDs, permIDs) = partitionByWispSet ids
                 (case wispSetOpt of Some ws \<Rightarrow> ws | None \<Rightarrow> WispIDSet s ids)
           in fetch_table False s permIDs @ fetch_table True s wispIDs))"

definition by_id :: "issue_row list \<Rightarrow> string \<Rightarrow> issue_row option" where
  "by_id rows = fold (\<lambda>r m. m(ID r \<mapsto> r)) rows Map.empty"

definition in_order :: "issue_row list \<Rightarrow> string list \<Rightarrow> issue_row list" where
  "in_order rows ids = List.map_filter (by_id rows) ids"

definition GetDependencies :: "db \<Rightarrow> string \<Rightarrow> store_error + issue_row list" where
  "GetDependencies s issueID =
     bind_res (scan_all scan_target (both_deps s (\<lambda>d. issue_id d = issueID)))
       (\<lambda>ids. Inr (GetIssuesByIDs s ids None))"

definition GetDependents :: "db \<Rightarrow> string \<Rightarrow> issue_row list" where
  "GetDependents s issueID =
     GetIssuesByIDs s (map issue_id (both_deps s (\<lambda>d. dep_target d = Some issueID))) None"

definition attach_types :: "db \<Rightarrow> (string \<times> dep_type) list \<Rightarrow> (issue_row \<times> dep_type) list" where
  "attach_types s deps =
    (let issueMap = by_id (GetIssuesByIDs s (map fst deps) None)
     in List.map_filter (\<lambda>(x, t). map_option (\<lambda>r. (r, t)) (issueMap x)) deps)"

definition GetDependenciesWithMetadata :: "db \<Rightarrow> string \<Rightarrow> store_error + (issue_row \<times> dep_type) list" where
  "GetDependenciesWithMetadata s issueID =
     bind_res (scan_all (\<lambda>d. bind_res (scan_target d) (\<lambda>y. Inr (y, dtype d)))
         (both_deps s (\<lambda>d. issue_id d = issueID)))
       (\<lambda>deps. Inr (attach_types s deps))"

definition GetDependentsWithMetadata :: "db \<Rightarrow> string \<Rightarrow> (issue_row \<times> dep_type) list" where
  "GetDependentsWithMetadata s issueID =
     attach_types s (map (\<lambda>d. (issue_id d, dtype d)) (both_deps s (\<lambda>d. dep_target d = Some issueID)))"

subsection \<open>Parents and children\<close>

definition loadBlockingDepsForIssueIDs :: "db \<Rightarrow> string list \<Rightarrow> store_error + (string \<times> string) list" where
  "loadBlockingDepsForIssueIDs s issueIDs =
     scan_all (\<lambda>d. bind_res (scan_target d) (\<lambda>y. Inr (issue_id d, y)))
       (concat (map (\<lambda>w. concat (map (\<lambda>x. filter (\<lambda>d. issue_id d = x \<and>
            (dtype d = DepBlocks \<or> dtype d = DepWaitsFor \<or> dtype d = DepConditionalBlocks)) (dep_table w s)) issueIDs))
         [False, True]))"

definition loadParentIDsForChildren :: "db \<Rightarrow> string list \<Rightarrow> store_error + (string \<Rightarrow> string option)" where
  "loadParentIDsForChildren s childIDs =
     bind_res (scan_all (\<lambda>d. bind_res (scan_target d) (\<lambda>y. Inr (issue_id d, y)))
         (concat (map (\<lambda>w. concat (map (\<lambda>x. filter (\<lambda>d. issue_id d = x \<and> dtype d = DepParentChild)
           (dep_table w s)) childIDs)) [False, True])))
       (\<lambda>rows. Inr (fold (\<lambda>(c, p) m. m(c \<mapsto> p)) rows Map.empty))"

definition child_rows :: "db \<Rightarrow> string list \<Rightarrow> (string \<times> string) list" where
  "child_rows s parentIDs =
     concat (map (\<lambda>w. concat (map (\<lambda>p. map (\<lambda>d. (issue_id d, p))
         (filter (\<lambda>d. dtype d = DepParentChild \<and> dep_target d = Some p) (dep_table w s))) parentIDs))
       [False, True])"

definition GetChildrenWithParents :: "db \<Rightarrow> string list \<Rightarrow> string \<Rightarrow> string option" where
  "GetChildrenWithParents s parentIDs = fold (\<lambda>(c, p) m. m(c \<mapsto> p)) (child_rows s parentIDs) Map.empty"

definition GetChildrenOfIssues :: "db \<Rightarrow> string list \<Rightarrow> string list" where
  "GetChildrenOfIssues s parentIDs = map fst (child_rows s parentIDs)"

subsection \<open>Descendants\<close>

text \<open>
  The recursive query.  A row carries its id and its path, and the path is tested
  as the text \<^verbatim>\<open>,root,a,b,\<close> with \<^verbatim>\<open>INSTR\<close>; \<^verbatim>\<open>depth\<close> is the number of the round.
\<close>

definition path_text :: "string list \<Rightarrow> string" where
  "path_text p = concat (map (\<lambda>x. '','' @ x) p) @ '',''"

definition on_path :: "string list \<Rightarrow> string \<Rightarrow> bool" where
  "on_path p x = str_contains (path_text p) ('','' @ x @ '','')"

definition next_round ::
  "(string \<times> string option) list \<Rightarrow> (string \<times> string list) list \<Rightarrow> (string \<times> string list) list" where
  "next_round es rows = concat (map (\<lambda>(x, p).
     map (\<lambda>e. (fst e, p @ [fst e])) (filter (\<lambda>e. snd e = Some x \<and> \<not> on_path p (fst e)) es)) rows)"

definition unseen :: "(string \<times> string option) list \<Rightarrow> string list \<Rightarrow> nat" where
  "unseen es p = card {x \<in> fst ` set es. \<not> on_path p x}"

lemma on_path_snoc: "on_path p x \<Longrightarrow> on_path (p @ [y]) x" "on_path (p @ [y]) y"
proof -
  have t: "path_text (p @ [y]) = path_text p @ y @ '',''" by (simp add: path_text_def)
  show "on_path p x \<Longrightarrow> on_path (p @ [y]) x"
    by (simp add: on_path_def str_contains_iff t sublist_appendI sublist_order.order_trans)
  have "path_text (p @ [y]) = concat (map (\<lambda>x. '','' @ x) p) @ ('','' @ y @ '','') @ []"
    by (simp add: path_text_def)
  then show "on_path (p @ [y]) y"
    unfolding on_path_def str_contains_iff sublist_def by blast
qed

lemma unseen_less:
  assumes "x \<in> fst ` set es" "\<not> on_path p x"
  shows "unseen es (p @ [x]) < unseen es p"
  unfolding unseen_def
proof (rule psubset_card_mono)
  show "{y \<in> fst ` set es. \<not> on_path (p @ [x]) y} \<subset> {y \<in> fst ` set es. \<not> on_path p y}"
    using assms on_path_snoc(1)[of p _ x] on_path_snoc(2)[of p x] by blast
qed simp

definition rounds_left :: "(string \<times> string option) list \<Rightarrow> (string \<times> string list) list \<Rightarrow> nat" where
  "rounds_left es rows = Max (insert 0 ((\<lambda>r. Suc (unseen es (snd r))) ` set rows))"

lemma next_round_less:
  assumes "rows \<noteq> []"
  shows "rounds_left es (next_round es rows) < rounds_left es rows"
proof -
  have pos: "0 < rounds_left es rows"
  proof -
    obtain r where "r \<in> set rows" using assms by (cases rows) auto
    then have "Suc (unseen es (snd r)) \<le> rounds_left es rows"
      unfolding rounds_left_def by (intro Max_ge) auto
    then show ?thesis by simp
  qed
  have "Suc (unseen es (snd q)) < rounds_left es rows" if q_in: "q \<in> set (next_round es rows)" for q
  proof -
    obtain x p e where q: "(x, p) \<in> set rows" "e \<in> set es" "\<not> on_path p (fst e)" "snd q = p @ [fst e]"
      using q_in by (fastforce simp: next_round_def)
    have "unseen es (snd q) < unseen es p" using unseen_less[of "fst e" es p] q by simp
    moreover have "Suc (unseen es p) \<le> rounds_left es rows"
      unfolding rounds_left_def by (intro Max_ge) (use q(1) in force)+
    ultimately show ?thesis by simp
  qed
  then show ?thesis
    unfolding rounds_left_def[of es "next_round es rows"]
    by (subst Max_less_iff) (use pos in auto)
qed

function descend ::
  "(string \<times> string option) list \<Rightarrow> int \<Rightarrow> int \<Rightarrow> (string \<times> string list) list \<Rightarrow> (string \<times> int) list" where
  "descend es maxDepth depth rows =
    (if rows = [] then []
     else map (\<lambda>r. (fst r, depth)) rows @
       (if maxDepth \<le> 0 \<or> depth < maxDepth then descend es maxDepth (depth + 1) (next_round es rows) else []))"
  by pat_completeness auto
termination
  by (relation "measure (\<lambda>(es, m, d, rows). rounds_left es rows)") (auto intro: next_round_less)

declare descend.simps [simp del]

definition parent_child_edges :: "db \<Rightarrow> (string \<times> string option) list" where
  "parent_child_edges s = map (\<lambda>d. (issue_id d, dep_target d)) (both_deps s (\<lambda>d. dtype d = DepParentChild))"

definition GetDescendantIDs :: "db \<Rightarrow> string \<Rightarrow> int \<Rightarrow> store_error + string list" where
  "GetDescendantIDs s rootID maxDepth =
    (if rootID = '''' then Inr []
     else
      (let es = parent_child_edges s;
           start = map (\<lambda>e. (fst e, [rootID, fst e])) (filter (\<lambda>e. snd e = Some rootID) es);
           rows = filter (\<lambda>r. fst r \<noteq> rootID) (descend es maxDepth 1 start)
       in if 0 < maxDepth \<and> (\<exists>r\<in>set rows. maxDepth \<le> snd r) then Inl (OpFailed ''max depth'')
          else Inr (map fst rows)))"

subsection \<open>Blocked issues\<close>

record blocked_issue =
  bi_issue :: issue_row
  BlockedByCount :: nat
  BlockedBy :: "string list"

definition blocked_ids :: "db \<Rightarrow> string list" where
  "blocked_ids s = dedup_from [] (concat (map (\<lambda>w. map ID (filter
     (\<lambda>r. IsBlocked r \<and> Status r \<noteq> StatusClosed \<and> Status r \<noteq> StatusPinned) (issue_table w s))) [False, True]))"

text \<open>\<^verbatim>\<open>blockerMap\<close>: active own targets, or else the parent.\<close>

definition direct_blockers :: "db \<Rightarrow> (string \<times> string) list \<Rightarrow> string \<Rightarrow> string list option" where
  "direct_blockers s deps =
    (let st = loadStatusByID s (dedup_from [] (map snd deps))
     in fold (append_row fst snd) (filter (\<lambda>d. active_id st (snd d)) deps) Map.empty)"

definition blocker_map :: "db \<Rightarrow> string list \<Rightarrow> store_error + (string \<Rightarrow> string list option)" where
  "blocker_map s ids =
     bind_res (loadBlockingDepsForIssueIDs s ids) (\<lambda>deps.
       let own = direct_blockers s deps;
           inherited = filter (\<lambda>x. own x = None) ids
       in Inr (case (if inherited = [] then Inr Map.empty else loadParentIDsForChildren s inherited) of
            Inl _ \<Rightarrow> own
          | Inr parentMap \<Rightarrow> (\<lambda>x. case own x of Some bs \<Rightarrow> Some bs
              | None \<Rightarrow> map_option (\<lambda>p. [p]) (parentMap x))))"

text \<open>The children of the filter's parent: by parent-child row or by id.\<close>

definition under_parent :: "db \<Rightarrow> string option \<Rightarrow> string \<Rightarrow> bool" where
  "under_parent s parentID x = (case parentID of None \<Rightarrow> True
     | Some p \<Rightarrow> x \<in> set (GetChildrenOfIssues s [p]) \<or> has_prefix x (p @ ''.''))"

definition GetBlockedIssues ::
  "db \<Rightarrow> string option \<Rightarrow> string list \<Rightarrow> store_error + blocked_issue list" where
  "GetBlockedIssues s parentID order =
    (if blocked_ids s = [] then Inr []
     else bind_res (blocker_map s (blocked_ids s)) (\<lambda>blockerMap.
       let keys = filter (\<lambda>x. blockerMap x \<noteq> None) order;
           issueMap = by_id (GetIssuesByIDs s keys None)
       in Inr (sort_key (\<lambda>b. (Priority (bi_issue b), - CreatedAt (bi_issue b)))
            (List.map_filter (\<lambda>x. if under_parent s parentID x then
                 (case (issueMap x, blockerMap x) of
                    (Some r, Some bs) \<Rightarrow> Some \<lparr>bi_issue = r, BlockedByCount = length bs, BlockedBy = bs\<rparr>
                  | _ \<Rightarrow> None) else None) keys))))"

subsection \<open>Epics\<close>

record epic_status =
  Epic :: issue_row
  TotalChildren :: nat
  ClosedChildren :: nat
  EligibleForClose :: bool

definition epic_children :: "db \<Rightarrow> string list \<Rightarrow> string \<Rightarrow> string list" where
  "epic_children s epicIDs x = (if x \<in> set epicIDs then
     map issue_id (both_deps s (\<lambda>d. dtype d = DepParentChild \<and> dep_target d = Some x)) else [])"

definition GetEpicsEligibleForClosure :: "db \<Rightarrow> epic_status list" where
  "GetEpicsEligibleForClosure s =
    (let epicIDs = map ID (filter (\<lambda>r. IssueType r = TypeEpic \<and> Status r \<noteq> StatusClosed) (t_issues s));
         childStatus = loadStatusByID s (concat (map (epic_children s epicIDs) (dedup_from [] epicIDs)));
         issueMap = by_id (GetIssuesByIDs s (filter (\<lambda>x. epic_children s epicIDs x \<noteq> []) epicIDs) None)
     in List.map_filter (\<lambda>x.
          let children = epic_children s epicIDs x;
              closed = length (filter (\<lambda>c. childStatus c = Some StatusClosed) children)
          in if children = [] then None
             else map_option (\<lambda>r. \<lparr>Epic = r, TotalChildren = length children, ClosedChildren = closed,
                EligibleForClose = (0 < length children \<and> length children = closed)\<rparr>) (issueMap x)) epicIDs)"

end
