(* ===== verification/DepQueriesThms.thy ===== *)
theory DepQueriesThms
  imports Readers LabelsThms Traces "HOL-Library.Transitive_Closure_Table"
begin

text \<open>
  What the dependency queries compute: the status of a set of ids, the answer of
  \<^verbatim>\<open>IsBlockedQuery\<close>, the dependents that a close frees, and the parent-child
  closure behind \<^verbatim>\<open>GetDescendantIDs\<close>.
\<close>

subsection \<open>Scanning rows\<close>

lemma scan_all_Inr:
  assumes "\<And>x. x \<in> set xs \<Longrightarrow> f x = Inr (g x)"
  shows "scan_all f xs = Inr (map g xs)"
  using assms by (induction xs) auto

lemma set_both_deps: "d \<in> set (both_deps s p) \<longleftrightarrow> (\<exists>w. d \<in> set (dep_table w s)) \<and> p d"
  by (auto simp: both_deps_def ex_bool_eq)

lemma ids_both: "x \<in> issue_id ` set (both_deps s p) \<longleftrightarrow> (\<exists>w. \<exists>d\<in>set (dep_table w s). issue_id d = x \<and> p d)"
  unfolding image_iff bex_simps Bex_def set_both_deps by blast

definition target_of :: "dep_row \<Rightarrow> string" where
  "target_of d = (case dep_target d of Some y \<Rightarrow> y | None \<Rightarrow> '''')"

lemma dep_keys_target:
  assumes "dep_keys s" "d \<in> set (dep_table w s)"
  shows "dep_target d = Some (target_of d)"
proof -
  have "one_target d" using assms by (simp add: dep_keys_def)
  then show ?thesis
    by (auto simp: one_target_def dep_target_def target_of_def split: option.splits if_splits)
qed

lemma scan_target_ok:
  assumes "dep_keys s" "d \<in> set (dep_table w s)"
  shows "scan_target d = Inr (target_of d)"
  using dep_keys_target[OF assms] by (simp add: scan_target_def)

subsection \<open>The status of an id\<close>

definition status_of :: "db \<Rightarrow> string \<Rightarrow> status option" where
  "status_of s x = (case select_row x (t_wisps s) of Some r \<Rightarrow> Some (Status r)
     | None \<Rightarrow> map_option Status (select_row x (t_issues s)))"

lemma fold_status_rows:
  assumes "distinct (map ID rows)"
  shows "fold (\<lambda>r m. m(ID r \<mapsto> Status r)) rows m x =
    (case select_row x rows of Some r \<Rightarrow> Some (Status r) | None \<Rightarrow> m x)"
  using assms
proof (induction rows arbitrary: m)
  case (Cons a rows)
  show ?case
  proof (cases "ID a = x")
    case True
    then have "select_row x rows = None" using Cons.prems by (auto simp: select_row_None)
    then show ?thesis using Cons True by (simp add: select_row_def)
  qed (use Cons in \<open>simp add: select_row_def\<close>)
qed (simp add: select_row_def)

lemma select_row_filter_in:
  "select_row x (filter (\<lambda>r. ID r \<in> A) rows) = (if x \<in> A then select_row x rows else None)"
  by (induction rows) (auto simp: select_row_def)

lemma fold_status_batches:
  assumes "distinct (map ID rows)"
  shows "fold (\<lambda>batch m. fold (\<lambda>r m. m(ID r \<mapsto> Status r)) (filter (\<lambda>r. ID r \<in> set batch) rows) m) bs m x =
    (case (if \<exists>b\<in>set bs. x \<in> set b then select_row x rows else None) of Some r \<Rightarrow> Some (Status r) | None \<Rightarrow> m x)"
proof (induction bs arbitrary: m)
  case (Cons b bs)
  have "distinct (map ID (filter (\<lambda>r. ID r \<in> set b) rows))" by (rule distinct_map_filter[OF assms])
  note one = fold_status_rows[OF this, of m x]
  show ?case
    unfolding fold_simps(2) Cons.IH one by (auto simp: select_row_filter_in split: option.splits)
qed simp

lemma chunk_cover: "(\<exists>b\<in>set (chunks queryBatchSize xs). x \<in> set b) \<longleftrightarrow> x \<in> set xs"
  using arg_cong[OF concat_chunks[of queryBatchSize xs], of set] by (auto simp: queryBatchSize_def)

lemma loadStatus_exact:
  assumes "wf_db s"
  shows "loadStatusByID s ids x = (if x \<in> set ids then status_of s x else None)"
proof -
  have d: "distinct (map ID (issue_table w s))" for w by (rule wf_db_table[OF assms])
  show ?thesis
    using fold_status_batches[OF d[of True]] fold_status_batches[OF d[of False]]
    by (auto simp: loadStatusByID_def chunk_cover status_of_def issue_table_def map_option_case split: option.splits)
qed

definition active_issue :: "db \<Rightarrow> string \<Rightarrow> bool" where
  "active_issue s x = (case status_of s x of None \<Rightarrow> False | Some v \<Rightarrow> active_status v)"

lemma active_id_exact:
  "wf_db s \<Longrightarrow> active_id (loadStatusByID s ids) x \<longleftrightarrow> x \<in> set ids \<and> active_issue s x"
  by (auto simp: active_id_def loadStatus_exact active_issue_def active_status_def split: option.splits)

subsection \<open>Is an issue blocked\<close>

lemma read_flag_flagged:
  assumes "wf_db s"
  shows "read_flag s x = Some True \<longleftrightarrow> (\<not> (\<exists>r\<in>set (t_issues s). ID r = x), x) \<in> flagged s"
proof -
  have sel: "select_row x (issue_table w s) = Some r \<longleftrightarrow> r \<in> set (issue_table w s) \<and> ID r = x" for w r
    using select_row_distinct[OF wf_db_table[OF assms]] by (auto dest: select_row_Some)
  show ?thesis
  proof (cases "select_row x (t_issues s)")
    case None
    then have "\<not> (\<exists>r\<in>set (t_issues s). ID r = x)" by (auto simp: select_row_None)
    then show ?thesis using None sel[of True] by (auto simp: read_flag_def flagged_def issue_table_def)
  next
    case (Some r)
    then have "r \<in> set (t_issues s)" "ID r = x" by (auto dest: select_row_Some)
    moreover have "q = r" if "q \<in> set (t_issues s)" "ID q = x" for q
      using that Some sel[of False q] by (simp add: issue_table_def)
    ultimately have "(\<exists>q\<in>set (t_issues s). ID q = x \<and> IsBlocked q) \<longleftrightarrow> IsBlocked r" "\<exists>q\<in>set (t_issues s). ID q = x"
      by blast+
    then show ?thesis using Some by (simp add: read_flag_def flagged_def issue_table_def)
  qed
qed

lemma IsBlockedQuery_spec:
  assumes "wf_db s" "dep_keys s"
  shows "IsBlockedQuery s x = (if read_flag s x \<noteq> Some True then Inr (False, [])
    else Inr (True, map (\<lambda>d. blocker_text (dtype d) (target_of d))
      (both_deps s (\<lambda>d. issue_id d = x \<and> (dtype d = DepBlocks \<or> dtype d = DepWaitsFor \<or> dtype d = DepConditionalBlocks) \<and>
         active_issue s (target_of d)))))"
proof -
  define p :: "dep_row \<Rightarrow> bool" where "p d = (issue_id d = x \<and> (dtype d = DepBlocks \<or> dtype d = DepWaitsFor \<or> dtype d = DepConditionalBlocks))" for d
  have sc: "scan_all (\<lambda>d. bind_res (scan_target d) (\<lambda>y. Inr (y, dtype d))) (both_deps s p) =
      Inr (map (\<lambda>d. (target_of d, dtype d)) (both_deps s p))"
    by (rule scan_all_Inr) (auto simp: set_both_deps scan_target_ok[OF assms(2)])
  have fl: "filter (\<lambda>d. Q d) (both_deps s p) = both_deps s (\<lambda>d. p d \<and> Q d)" for Q
    by (simp add: both_deps_def conj_commute)
  have mem: "map (\<lambda>(y, t). blocker_text t y) (filter (\<lambda>(y, t). active_id (loadStatusByID s (map fst es)) y) es) =
      map (\<lambda>(y, t). blocker_text t y) (filter (\<lambda>(y, t). active_issue s y) es)" for es
    by (rule arg_cong[of _ _ "map _"], rule filter_cong) (auto simp: active_id_exact[OF assms(1)] intro: rev_image_eqI)
  have m: "map (\<lambda>(y, t). blocker_text t y) (filter (\<lambda>(y, t). active_issue s y) (map (\<lambda>d. (target_of d, dtype d)) ds)) =
      map (\<lambda>d. blocker_text (dtype d) (target_of d)) (filter (\<lambda>d. active_issue s (target_of d)) ds)" for ds
    by (induction ds) auto
  show ?thesis
    unfolding IsBlockedQuery_def p_def[symmetric] sc by (simp add: mem m fl Let_def conj_assoc p_def)
qed

subsection \<open>Newly unblocked issues\<close>

lemma set_map_filter: "set (List.map_filter f xs) = {y. \<exists>x\<in>set xs. f x = Some y}"
  by (induction xs) (auto simp: List.map_filter_simps split: option.splits)

definition blocks_on :: "db \<Rightarrow> string \<Rightarrow> string \<Rightarrow> bool" where
  "blocks_on s x y = (\<exists>w. \<exists>d\<in>set (dep_table w s). issue_id d = x \<and> dtype d = DepBlocks \<and> dep_target d = Some y)"

lemma still_blocked_iff:
  assumes "wf_db s"
  shows "x \<in> still_blocked s c ids \<longleftrightarrow> x \<in> set ids \<and> (\<exists>y. y \<noteq> c \<and> blocks_on s x y \<and> active_issue s y)"
proof -
  define rem where "rem batch = both_deps s (\<lambda>d. issue_id d \<in> set batch \<and> dtype d = DepBlocks \<and>
      dep_target d \<noteq> None \<and> dep_target d \<noteq> Some c)" for batch
  have act: "active_id (loadStatusByID s (sort (remdups (List.map_filter dep_target ds)))) y \<longleftrightarrow>
      (\<exists>d\<in>set ds. dep_target d = Some y) \<and> active_issue s y" for ds :: "dep_row list" and y
    unfolding active_id_exact[OF assms] set_sort set_remdups set_map_filter by blast
  have one: "x \<in> {issue_id d |d. d \<in> set (rem batch) \<and> (\<exists>y. dep_target d = Some y \<and>
        active_id (loadStatusByID s (sort (remdups (List.map_filter dep_target (rem batch))))) y)} \<longleftrightarrow>
      x \<in> set batch \<and> (\<exists>y. y \<noteq> c \<and> blocks_on s x y \<and> active_issue s y)"
    (is "x \<in> ?L \<longleftrightarrow> ?R") for batch
  proof
    assume "x \<in> ?L"
    then obtain d y where d: "d \<in> set (rem batch)" "issue_id d = x" "dep_target d = Some y" "active_issue s y"
      unfolding act by blast
    from d(1,3) obtain w where w: "d \<in> set (dep_table w s)" "x \<in> set batch" "dtype d = DepBlocks" "y \<noteq> c"
      using d(2) unfolding rem_def set_both_deps by auto
    then have "blocks_on s x y" unfolding blocks_on_def using d(2,3) by blast
    then show ?R using w(2,4) d(4) by blast
  next
    assume ?R
    then obtain w d y where d: "d \<in> set (dep_table w s)" "issue_id d = x" "dtype d = DepBlocks" "dep_target d = Some y"
      "y \<noteq> c" "active_issue s y" "x \<in> set batch" unfolding blocks_on_def by blast
    then have "d \<in> set (rem batch)" unfolding rem_def set_both_deps by auto
    then show "x \<in> ?L" unfolding act using d by blast
  qed
  have im: "set (map issue_id (filter (\<lambda>d. case dep_target d of None \<Rightarrow> False | Some y \<Rightarrow> P y) ds)) =
      {issue_id d |d. d \<in> set ds \<and> (\<exists>y. dep_target d = Some y \<and> P y)}" for P and ds :: "dep_row list"
    by (auto split: option.splits)
  show ?thesis
    unfolding still_blocked_def Let_def rem_def[symmetric] im UN_iff one using chunk_cover[of ids x] by blast
qed

lemma status_of_GetIssue: "status_of s x \<noteq> None \<Longrightarrow> \<exists>r. GetIssue s x = Inr r"
  by (auto simp: status_of_def GetIssue_def split: option.splits)

lemma newly_unblocked_ids:
  assumes "wf_db s"
  shows "ID ` set (GetNewlyUnblockedByClose s c) =
    {x. blocks_on s x c \<and> active_issue s x \<and> (\<forall>y. y \<noteq> c \<longrightarrow> blocks_on s x y \<longrightarrow> \<not> active_issue s y)}"
proof -
  define cand where "cand = sort (remdups (map issue_id (both_deps s (\<lambda>d. dep_target d = Some c \<and> dtype d = DepBlocks))))"
  define act where "act = filter (active_id (loadStatusByID s cand)) cand"
  have c: "x \<in> set cand \<longleftrightarrow> blocks_on s x c" for x
    unfolding cand_def blocks_on_def set_sort set_remdups set_map ids_both by blast
  then have a: "x \<in> set act \<longleftrightarrow> blocks_on s x c \<and> active_issue s x" for x
    by (auto simp: act_def active_id_exact[OF assms])
  define g where "g x = (case GetIssue s x of Inl _ \<Rightarrow> None | Inr r \<Rightarrow> Some r)" for x
  have ge: "g = (\<lambda>x. case GetIssue s x of Inl _ \<Rightarrow> None | Inr r \<Rightarrow> Some r)" by (rule ext) (simp add: g_def)
  have g: "active_issue s x \<Longrightarrow> \<exists>r. g x = Some r" for x
    using status_of_GetIssue[of s x] by (auto simp: g_def active_issue_def split: option.splits)
  have gi: "g x = Some r \<Longrightarrow> ID r = x" for x r
    using GetIssue_ok[of s x r] by (auto simp: g_def split: sum.splits)
  have mf: "ID ` set (List.map_filter g xs) = {x \<in> set xs. g x \<noteq> None}" for xs
    using gi by (fastforce simp: set_map_filter image_iff)
  have eq: "GetNewlyUnblockedByClose s c = List.map_filter g (filter (\<lambda>x. x \<notin> still_blocked s c act) act)"
    unfolding GetNewlyUnblockedByClose_def Let_def cand_def act_def ge ..
  show ?thesis
    unfolding eq mf using g by (auto simp: a still_blocked_iff[OF assms])
qed

text \<open>
  Rows that name what they say: a dependency is stored in the table of its source's
  kind, and its target column is the one of its target's kind.
\<close>

definition routed :: "db \<Rightarrow> bool" where
  "routed s = ((\<forall>r\<in>set (t_issues s). \<forall>q\<in>set (t_wisps s). ID r \<noteq> ID q) \<and>
    (\<forall>w. \<forall>d\<in>set (dep_table w s).
      (\<forall>r\<in>set (issue_table (\<not> w) s). ID r \<noteq> issue_id d) \<and>
      (\<forall>v y. targets d v y \<longrightarrow> (\<forall>r\<in>set (issue_table (\<not> v) s). ID r \<noteq> y)) \<and>
      (\<forall>y. depends_on_external d = Some y \<longrightarrow> (\<forall>v. \<forall>r\<in>set (issue_table v s). ID r \<noteq> y))))"

lemma routedD:
  assumes "routed s"
  shows "r \<in> set (issue_table w s) \<Longrightarrow> q \<in> set (issue_table (\<not> w) s) \<Longrightarrow> ID r \<noteq> ID q"
    "d \<in> set (dep_table w s) \<Longrightarrow> r \<in> set (issue_table (\<not> w) s) \<Longrightarrow> ID r \<noteq> issue_id d"
    "d \<in> set (dep_table w s) \<Longrightarrow> targets d v y \<Longrightarrow> r \<in> set (issue_table (\<not> v) s) \<Longrightarrow> ID r \<noteq> y"
    "d \<in> set (dep_table w s) \<Longrightarrow> depends_on_external d = Some y \<Longrightarrow> r \<in> set (issue_table v s) \<Longrightarrow> ID r \<noteq> y"
proof -
  have i: "\<forall>r\<in>set (t_issues s). \<forall>q\<in>set (t_wisps s). ID r \<noteq> ID q" using assms by (simp add: routed_def)
  show "r \<in> set (issue_table w s) \<Longrightarrow> q \<in> set (issue_table (\<not> w) s) \<Longrightarrow> ID r \<noteq> ID q"
    using i by (cases w) (auto simp: issue_table_def dest: not_sym)
qed (use assms in \<open>auto simp: routed_def\<close>)

lemma active_issue_row:
  assumes "wf_db s" "routed s" "r \<in> set (issue_table w s)"
  shows "active_issue s (ID r) \<longleftrightarrow> active_status (Status r)"
proof -
  have sel: "select_row (ID r) (issue_table w s) = Some r"
    by (rule select_row_distinct[OF wf_db_table[OF assms(1)] assms(3)])
  have "select_row (ID r) (issue_table (\<not> w) s) = None"
    using routedD(1)[OF assms(2,3)] by (auto simp: select_row_None)
  with sel show ?thesis by (cases w) (simp_all add: active_issue_def status_of_def issue_table_def)
qed

lemma active_issue_ex: "active_issue s x \<Longrightarrow> \<exists>w. \<exists>r\<in>set (issue_table w s). ID r = x"
  by (auto simp: active_issue_def status_of_def ex_bool_eq issue_table_def dest: select_row_Some split: option.splits)

lemma hard_reason_active:
  assumes s: "wf_db s" "routed s" and d: "d \<in> set (dep_table w s)" "dtype d = DepBlocks" "dep_target d = Some y" "active_issue s y"
  shows "hard_blocked s (dep_table w s) (issue_id d)"
proof -
  obtain v r where r: "r \<in> set (issue_table v s)" "ID r = y" using active_issue_ex[OF d(4)] by blast
  have act: "active_status (Status r)" using active_issue_row[OF s r(1)] d(4) r(2) by simp
  note rt = routedD(3)[OF s(2) d(1)] routedD(4)[OF s(2) d(1) _ r(1)]
  have "targets d v y"
  proof -
    have "targets d False y \<or> targets d True y \<or> depends_on_external d = Some y"
      using d(3) by (auto simp: dep_target_def targets_def split: option.splits)
    then show ?thesis using rt(1)[of False y r] rt(1)[of True y r] rt(2)[of y] r by (cases v) auto
  qed
  then have "joined_target s d (\<lambda>t. active_status (Status t))"
    using r act by (cases v) (auto simp: joined_target_def issue_table_def)
  then show ?thesis using d(1,2) by (auto simp: hard_blocked_def)
qed

lemma unblocked_reported:
  assumes s: "wf_db s" "routed s" and r: "r \<in> set (issue_table w s)" "active_status (Status r)"
    and b: "blocks_on s (ID r) c" and free: "\<not> must_block e s (w, ID r)"
  shows "ID r \<in> ID ` set (GetNewlyUnblockedByClose s c)"
proof -
  have no: "\<not> own_reason e s (w, ID r)"
    using must_block.own[of s "(w, ID r)" e] free row_active[OF s(1) r(1)] r(2) by blast
  have "\<not> active_issue s y" if "blocks_on s (ID r) y" for y
  proof
    assume a: "active_issue s y"
    obtain v d where d: "d \<in> set (dep_table v s)" "issue_id d = ID r" "dtype d = DepBlocks" "dep_target d = Some y"
      using \<open>blocks_on s (ID r) y\<close> by (auto simp: blocks_on_def)
    have "v = w" using routedD(2)[OF s(2) d(1), of r] d(2) r(1) by (cases v; cases w) auto
    then show False using hard_reason_active[OF s d(1,3,4) a] no d(2) by (simp add: own_reason_def)
  qed
  then show ?thesis
    using b r active_issue_row[OF s r(1)] by (auto simp: newly_unblocked_ids[OF s(1)])
qed

subsection \<open>Descendants\<close>

definition comma_free :: "string \<Rightarrow> bool" where
  "comma_free x = (CHR '','' \<notin> set x)"

lemma comma_split:
  assumes "comma_free x" "comma_free a" "x @ '','' @ u = a @ '','' @ v"
  shows "x = a"
proof -
  have "takeWhile (\<lambda>c. c \<noteq> CHR '','') (y @ '','' @ w) = y" if "comma_free y" for y w
  proof -
    have "\<forall>c\<in>set y. c \<noteq> CHR '',''" using that by (auto simp: comma_free_def)
    then show ?thesis by (simp add: takeWhile_append_stop)
  qed
  from this[OF assms(1), of u] this[OF assms(2), of v] assms(3) show ?thesis by simp
qed

lemma path_text_Cons: "path_text (a # p) = '','' @ a @ path_text p"
  by (simp add: path_text_def)

lemma path_text_comma: "\<exists>v. path_text p = '','' @ v"
  by (cases p) (simp_all add: path_text_def)

lemma sublist_skip:
  assumes "sublist (c # u) (a @ v)" "c \<notin> set a"
  shows "sublist (c # u) v"
  using assms
proof (induction a)
  case (Cons b a)
  then show ?case by (auto simp: sublist_Cons_right)
qed simp

lemma on_path_mem:
  assumes "\<forall>y\<in>set p. comma_free y" "comma_free x"
  shows "on_path p x \<longleftrightarrow> x \<in> set p"
  using assms(1)
proof (induction p)
  case Nil
  have "length ('','' @ x @ '','') > length (path_text [])" by (simp add: path_text_def)
  then have "\<not> sublist ('','' @ x @ '','') (path_text [])" using sublist_length_le by fastforce
  then show ?case by (simp add: on_path_def str_contains_iff)
next
  case (Cons a p)
  obtain v where v: "path_text p = '','' @ v" using path_text_comma by blast
  have "sublist ('','' @ x @ '','') ('','' @ a @ path_text p) \<longleftrightarrow> x = a \<or> sublist ('','' @ x @ '','') (path_text p)"
  proof
    assume L: "sublist ('','' @ x @ '','') ('','' @ a @ path_text p)"
    then consider "prefix ('','' @ x @ '','') ('','' @ a @ path_text p)" | "sublist ('','' @ x @ '','') (a @ path_text p)"
      by (auto simp: sublist_Cons_right)
    then show "x = a \<or> sublist ('','' @ x @ '','') (path_text p)"
    proof cases
      case 1
      then obtain u where "x @ '','' @ u = a @ '','' @ v" by (auto simp: prefix_def v)
      then have "x = a" using comma_split assms(2) Cons.prems by simp
      then show ?thesis ..
    next
      case 2
      have "CHR '','' \<notin> set a" using Cons.prems by (simp add: comma_free_def)
      then show ?thesis using sublist_skip[of "CHR '',''" "x @ '',''" a] 2 by simp
    qed
  next
    assume R: "x = a \<or> sublist ('','' @ x @ '','') (path_text p)"
    show "sublist ('','' @ x @ '','') ('','' @ a @ path_text p)"
    proof (cases "x = a")
      case True
      then have "'','' @ a @ path_text p = [] @ ('','' @ x @ '','') @ v" by (simp add: v)
      then show ?thesis unfolding sublist_def by blast
    next
      case False
      then have "sublist ('','' @ x @ '','') (path_text p)" using R by simp
      then show ?thesis by (metis append_assoc sublist_append_leftI sublist_order.order_trans sublist_appendI append.right_neutral)
    qed
  qed
  then show ?case using Cons by (simp add: on_path_def str_contains_iff path_text_Cons)
qed

definition child_step :: "(string \<times> string option) list \<Rightarrow> string \<Rightarrow> string \<Rightarrow> bool" where
  "child_step es p c = ((c, Some p) \<in> set es)"

lemma descend_rounds:
  "m \<le> 0 \<Longrightarrow> fst ` set (descend es m d rows) = (\<Union>n. fst ` set ((next_round es ^^ n) rows))"
proof (induction es m d rows rule: descend.induct)
  case (1 es m d rows)
  show ?case
  proof (cases "rows = []")
    case True
    then have "(next_round es ^^ n) rows = []" for n by (induction n) (simp_all add: next_round_def)
    then show ?thesis using True by (simp add: descend.simps)
  next
    case False
    have IH: "fst ` set (descend es m (d + 1) (next_round es rows)) =
        (\<Union>n. fst ` set ((next_round es ^^ n) (next_round es rows)))"
      using 1 False by simp
    have sh: "(next_round es ^^ n) (next_round es rows) = (next_round es ^^ Suc n) rows" for n
      by (simp add: funpow_swap1)
    have "(\<Union>n. f n) = f 0 \<union> (\<Union>n. f (Suc n))" for f :: "nat \<Rightarrow> string set"
      by (auto intro: not0_implies_Suc) (metis not0_implies_Suc)
    from this[of "\<lambda>n. fst ` set ((next_round es ^^ n) rows)"] show ?thesis
      using False "1.prems" IH unfolding sh by (subst descend.simps) (auto simp: image_Un image_image)
  qed
qed

lemma in_next_round:
  "(c, q) \<in> set (next_round es rows) \<longleftrightarrow>
    (\<exists>x p. (x, p) \<in> set rows \<and> child_step es x c \<and> \<not> on_path p c \<and> q = p @ [c])"
proof -
  have "(c, q) \<in> set (map (\<lambda>e. (fst e, p @ [fst e])) (filter (\<lambda>e. snd e = Some x \<and> \<not> on_path p (fst e)) es)) \<longleftrightarrow>
      (c, Some x) \<in> set es \<and> \<not> on_path p c \<and> q = p @ [c]" for x p
    by (auto intro!: image_eqI[of _ _ "(c, Some x)"])
  then show ?thesis unfolding next_round_def child_step_def by (auto split: prod.splits)
qed

lemma rounds_sound:
  assumes "\<forall>(x, p)\<in>set rows. (child_step es)\<^sup>+\<^sup>+ root x"
  shows "\<forall>(x, p)\<in>set ((next_round es ^^ n) rows). (child_step es)\<^sup>+\<^sup>+ root x"
proof (induction n)
  case (Suc n)
  show ?case
  proof (clarify)
    fix c q assume "(c, q) \<in> set ((next_round es ^^ Suc n) rows)"
    then obtain x p where "(x, p) \<in> set ((next_round es ^^ n) rows)" "child_step es x c"
      by (auto simp: in_next_round)
    then show "(child_step es)\<^sup>+\<^sup>+ root c" using Suc by (auto intro: tranclp.trancl_into_trancl)
  qed
qed (use assms in simp)

lemma rounds_complete:
  assumes free: "\<forall>y\<in>set p \<union> set zs. comma_free y"
    and path: "rtrancl_path (child_step es) y zs x" and "distinct (p @ zs)"
    and "(y, p) \<in> set ((next_round es ^^ n) rows)"
  shows "(x, p @ zs) \<in> set ((next_round es ^^ (n + length zs)) rows)"
  using path assms(1,3,4)
proof (induction arbitrary: n p rule: rtrancl_path.induct)
  case (step y c zs x)
  have "\<not> on_path p c" using on_path_mem[of p c] step.prems(1,2) by auto
  then have "(c, p @ [c]) \<in> set ((next_round es ^^ Suc n) rows)"
    using step.prems(3) step.hyps(1) by (auto simp: in_next_round)
  then have "(x, (p @ [c]) @ zs) \<in> set ((next_round es ^^ (Suc n + length zs)) rows)"
    using step.IH[of "p @ [c]" "Suc n"] step.prems(1,2) by auto
  then show ?case by simp
qed simp

definition child_of :: "db \<Rightarrow> string \<Rightarrow> string \<Rightarrow> bool" where
  "child_of s p c = (\<exists>w. \<exists>d\<in>set (dep_table w s). issue_id d = c \<and> dtype d = DepParentChild \<and> dep_target d = Some p)"

lemma child_step_of: "child_step (parent_child_edges s) = child_of s"
proof (intro ext)
  fix p c
  show "child_step (parent_child_edges s) p c = child_of s p c"
    unfolding child_step_def parent_child_edges_def child_of_def set_map image_iff Bex_def set_both_deps by fastforce
qed

text \<open>Every id on a parent-child row, and the root, is free of commas.\<close>

definition plain_ids :: "db \<Rightarrow> string \<Rightarrow> bool" where
  "plain_ids s root = (comma_free root \<and> (\<forall>w. \<forall>d\<in>set (dep_table w s). dtype d = DepParentChild \<longrightarrow> comma_free (issue_id d)))"

lemma descendants_exact:
  assumes "root \<noteq> ''''" and free: "plain_ids s root"
  shows "\<exists>ids. GetDescendantIDs s root 0 = Inr ids \<and> set ids = {x. (child_of s)\<^sup>+\<^sup>+ root x \<and> x \<noteq> root}"
proof -
  define es where "es = parent_child_edges s"
  define start where "start = map (\<lambda>e. (fst e, [root, fst e])) (filter (\<lambda>e. snd e = Some root) es)"
  have cs: "child_step es = child_of s" by (simp add: es_def child_step_of)
  have st: "(x, p) \<in> set start \<longleftrightarrow> child_step es root x \<and> p = [root, x]" for x p
    by (force simp: start_def child_step_def)
  have cf: "comma_free c" if "child_step es y c" for y c
    using that free unfolding cs by (auto simp: child_of_def plain_ids_def)
  have pf: "rtrancl_path (child_step es) y zs x \<Longrightarrow> \<forall>c\<in>set zs. comma_free c" for y zs x
    by (induction rule: rtrancl_path.induct) (auto intro: cf)
  have snd: "(child_step es)\<^sup>+\<^sup>+ root x" if "x \<in> fst ` set ((next_round es ^^ n) start)" for x n
    using rounds_sound[of start es root n] st that by fastforce
  have cmp: "\<exists>n. x \<in> fst ` set ((next_round es ^^ n) start)" if t: "(child_step es)\<^sup>+\<^sup>+ root x" "x \<noteq> root" for x
  proof -
    obtain xs where "rtrancl_path (child_step es) root xs x"
      using tranclp_into_rtranclp[OF t(1)] by (auto simp: rtranclp_eq_rtrancl_path)
    then obtain zs where zs: "rtrancl_path (child_step es) root zs x" "distinct (root # zs)"
      by (rule rtrancl_path_distinct)
    then obtain y ys where y: "zs = y # ys" "child_step es root y" "rtrancl_path (child_step es) y ys x"
      using t(2) by (cases zs) (auto elim: rtrancl_path.cases)
    have "(y, [root, y]) \<in> set ((next_round es ^^ 0) start)" using st y(2) by simp
    moreover have "distinct ([root, y] @ ys)" using zs(2) y(1) by simp
    moreover have "\<forall>c\<in>set [root, y] \<union> set ys. comma_free c"
      using pf[OF zs(1)] y(1) free by (auto simp: plain_ids_def)
    ultimately have "(x, [root, y] @ ys) \<in> set ((next_round es ^^ (0 + length ys)) start)"
      using rounds_complete[OF _ y(3)] by blast
    then show ?thesis by force
  qed
  define rows where "rows = filter (\<lambda>r. fst r \<noteq> root) (descend es 0 1 start)"
  have g: "GetDescendantIDs s root 0 = Inr (map fst rows)"
    using assms(1) by (simp add: GetDescendantIDs_def Let_def rows_def es_def start_def)
  have "set (map fst rows) = {x \<in> fst ` set (descend es 0 1 start). x \<noteq> root}"
    by (auto simp: rows_def)
  moreover have "x \<in> fst ` set (descend es 0 1 start) \<longleftrightarrow> (child_of s)\<^sup>+\<^sup>+ root x" if ne: "x \<noteq> root" for x
  proof
    assume "x \<in> fst ` set (descend es 0 1 start)"
    then obtain n where "x \<in> fst ` set ((next_round es ^^ n) start)"
      unfolding descend_rounds[OF order_refl] UN_iff by blast
    then show "(child_of s)\<^sup>+\<^sup>+ root x" unfolding cs[symmetric] by (rule snd)
  next
    assume "(child_of s)\<^sup>+\<^sup>+ root x"
    then obtain n where "x \<in> fst ` set ((next_round es ^^ n) start)"
      unfolding cs[symmetric] using cmp ne by blast
    then show "x \<in> fst ` set (descend es 0 1 start)"
      unfolding descend_rounds[OF order_refl] UN_iff by (rule bexI[OF _ UNIV_I])
  qed
  ultimately have "set (map fst rows) = {x. (child_of s)\<^sup>+\<^sup>+ root x \<and> x \<noteq> root}"
    unfolding set_eq_iff mem_Collect_eq by blast
  then show ?thesis using g by blast
qed

end
