(* ===== verification/ReadersThms.thy ===== *)
theory ReadersThms
  imports DepQueriesThms
begin

text \<open>
  The readers that return issues: which row the batched fetch gives for an id, the
  list of blocked issues against the specification of blocked work, and the
  eligibility of epics.
\<close>

subsection \<open>The batched fetch\<close>

definition fetched :: "db \<Rightarrow> string \<Rightarrow> issue_row option" where
  "fetched s x = (case select_row x (t_wisps s) of Some r \<Rightarrow> Some (hydrate_labels (t_wisp_labels s) r)
     | None \<Rightarrow> map_option (hydrate_labels (t_labels s)) (select_row x (t_issues s)))"

lemma hydrate_simps [simp]:
  "ID (hydrate_labels l r) = ID r" "Status (hydrate_labels l r) = Status r" "Priority (hydrate_labels l r) = Priority r"
  "CreatedAt (hydrate_labels l r) = CreatedAt r" "IsBlocked (hydrate_labels l r) = IsBlocked r"
  "IssueType (hydrate_labels l r) = IssueType r" "Pinned (hydrate_labels l r) = Pinned r"
  "DeferUntil (hydrate_labels l r) = DeferUntil r" "Assignee (hydrate_labels l r) = Assignee r"
  "Ephemeral (hydrate_labels l r) = Ephemeral r"
  by (simp_all add: hydrate_labels_def)

lemma find_snoc: "find P (xs @ [a]) = (case find P xs of Some r \<Rightarrow> Some r | None \<Rightarrow> if P a then Some a else None)"
  by (induction xs) auto

lemma fold_by_id:
  "fold (\<lambda>r m. m(ID r \<mapsto> r)) rows m x = (case find (\<lambda>r. ID r = x) (rev rows) of Some r \<Rightarrow> Some r | None \<Rightarrow> m x)"
  by (induction rows arbitrary: m) (auto simp: find_snoc split: option.splits)

lemma by_id_unique:
  assumes "\<And>r. r \<in> set rows \<Longrightarrow> ID r = x \<Longrightarrow> v = Some r" "v \<noteq> None \<Longrightarrow> \<exists>r\<in>set rows. ID r = x"
  shows "by_id rows x = v"
proof (cases "find (\<lambda>r. ID r = x) (rev rows)")
  case None
  then have "\<not> (\<exists>r\<in>set rows. ID r = x)" by (auto simp: find_None_iff)
  then have "v = None" using assms(2) by blast
  then show ?thesis using None by (simp add: by_id_def fold_by_id)
next
  case (Some r)
  then have "r \<in> set rows \<and> ID r = x" using find_Some_iff[of "\<lambda>r. ID r = x" "rev rows" r]
    by (metis nth_mem set_rev)
  then have "v = Some r" using assms(1) by blast
  then show ?thesis using Some by (simp add: by_id_def fold_by_id)
qed

lemma by_id_ID: "by_id rows x = Some r \<Longrightarrow> r \<in> set rows \<and> ID r = x"
proof -
  have "find P xs = Some r \<Longrightarrow> r \<in> set xs \<and> P r" for P xs by (induction xs) (auto split: if_splits)
  from this[of "\<lambda>r. ID r = x" "rev rows"] show "by_id rows x = Some r \<Longrightarrow> r \<in> set rows \<and> ID r = x"
    unfolding by_id_def fold_by_id by (auto split: option.splits)
qed

lemma set_fetch_table:
  "r \<in> set (fetch_table w s ids) \<longleftrightarrow> (\<exists>q\<in>set (issue_table w s). ID q \<in> set ids \<and> r = hydrate_labels (label_table w s) q)"
proof -
  have "r \<in> set (fetch_table w s ids) \<longleftrightarrow> (\<exists>q\<in>set (issue_table w s). (\<exists>b\<in>set (chunks queryBatchSize ids). ID q \<in> set b) \<and>
      r = hydrate_labels (label_table w s) q)"
    by (auto simp: fetch_table_def)
  then show ?thesis by (simp add: chunk_cover)
qed

lemma WispIDSet_active: "x \<in> set ids \<Longrightarrow> x \<in> WispIDSet s ids \<longleftrightarrow> IsActiveWisp s x"
  by (auto simp: WispIDSet_def wisp_hits_set IsActiveWisp_def)

lemma GetIssuesByIDs_exact:
  assumes "wf_db s"
  shows "by_id (GetIssuesByIDs s ids None) x = (if x \<in> set ids then fetched s x else None)"
proof (cases "ids = []")
  case False
  have mem: "r \<in> set (GetIssuesByIDs s ids None) \<longleftrightarrow>
      (\<exists>w. \<exists>q\<in>set (issue_table w s). ID q \<in> set ids \<and> IsActiveWisp s (ID q) = w \<and> r = hydrate_labels (label_table w s) q)" for r
    using False WispIDSet_active[of _ ids s]
    by (auto simp: GetIssuesByIDs_def partitionByWispSet_def set_fetch_table ex_bool_eq)
  have u: "select_row (ID q) (issue_table w s) = Some q" if "q \<in> set (issue_table w s)" for q w
    by (rule select_row_distinct[OF wf_db_table[OF assms] that])
  have f: "IsActiveWisp s y \<longleftrightarrow> select_row y (t_wisps s) \<noteq> None" for y
    by (auto simp: IsActiveWisp_def select_row_def find_None_iff)
  show ?thesis
  proof (rule by_id_unique)
    fix r assume "r \<in> set (GetIssuesByIDs s ids None)" "ID r = x"
    then obtain w q where q: "q \<in> set (issue_table w s)" "ID q \<in> set ids" "IsActiveWisp s (ID q) = w"
      "r = hydrate_labels (label_table w s) q" unfolding mem by blast
    then have x: "ID q = x" using \<open>ID r = x\<close> by simp
    show "(if x \<in> set ids then fetched s x else None) = Some r"
      using q u[OF q(1)] f[of x] unfolding x by (cases w) (auto simp: fetched_def issue_table_def label_table_def)
  next
    assume "(if x \<in> set ids then fetched s x else None) \<noteq> None"
    then have x: "x \<in> set ids" "fetched s x \<noteq> None" by (auto split: if_splits)
    have "\<exists>q\<in>set (issue_table (IsActiveWisp s x) s). ID q = x"
      using x(2) f[of x] by (cases "IsActiveWisp s x") (auto simp: fetched_def issue_table_def dest: select_row_Some split: option.splits)
    then obtain q where q: "q \<in> set (issue_table (IsActiveWisp s x) s)" "ID q = x" by blast
    then have "hydrate_labels (label_table (IsActiveWisp s x) s) q \<in> set (GetIssuesByIDs s ids None)"
      unfolding mem using x(1) by blast
    then show "\<exists>r\<in>set (GetIssuesByIDs s ids None). ID r = x" by (rule bexI[rotated]) (simp add: q(2))
  qed
qed (simp add: GetIssuesByIDs_def by_id_def)

lemma fetched_ID: "fetched s x = Some r \<Longrightarrow> ID r = x"
  by (auto simp: fetched_def dest: select_row_Some split: option.splits)

subsection \<open>Blocked issues\<close>

definition blocking_row :: "dep_row \<Rightarrow> bool" where
  "blocking_row d = (dtype d = DepBlocks \<or> dtype d = DepWaitsFor \<or> dtype d = DepConditionalBlocks)"

text \<open>A target of one of the blocking types that is still active.\<close>

definition active_blocker :: "db \<Rightarrow> string \<Rightarrow> string \<Rightarrow> bool" where
  "active_blocker s x y = (active_issue s y \<and>
     (\<exists>w. \<exists>d\<in>set (dep_table w s). issue_id d = x \<and> blocking_row d \<and> dep_target d = Some y))"

lemma scan_pairs:
  assumes "dep_keys s" "\<And>d. d \<in> set ds \<Longrightarrow> \<exists>w. d \<in> set (dep_table w s)"
  shows "scan_all (\<lambda>d. bind_res (scan_target d) (\<lambda>y. Inr (issue_id d, y))) ds =
    Inr (map (\<lambda>d. (issue_id d, target_of d)) ds)"
proof (rule scan_all_Inr)
  fix d assume "d \<in> set ds"
  then show "bind_res (scan_target d) (\<lambda>y. Inr (issue_id d, y)) = Inr (issue_id d, target_of d)"
    using assms scan_target_ok by fastforce
qed

lemma rows_of_ids:
  "d \<in> set (concat (map (\<lambda>w. concat (map (\<lambda>x. filter (P x) (dep_table w s)) ids)) [False, True])) \<longleftrightarrow>
    (\<exists>w. d \<in> set (dep_table w s)) \<and> (\<exists>x\<in>set ids. P x d)"
  unfolding ex_bool_eq by auto

lemma blocking_deps:
  assumes "dep_keys s"
  shows "\<exists>ps. loadBlockingDepsForIssueIDs s ids = Inr ps \<and>
    (\<forall>x y. (x, y) \<in> set ps \<longleftrightarrow> x \<in> set ids \<and>
      (\<exists>w. \<exists>d\<in>set (dep_table w s). issue_id d = x \<and> blocking_row d \<and> dep_target d = Some y))"
proof -
  define ds where "ds = concat (map (\<lambda>w. concat (map (\<lambda>x. filter (\<lambda>d. issue_id d = x \<and> blocking_row d) (dep_table w s)) ids)) [False, True])"
  have m: "d \<in> set ds \<longleftrightarrow> (\<exists>w. d \<in> set (dep_table w s)) \<and> issue_id d \<in> set ids \<and> blocking_row d" for d
    unfolding ds_def rows_of_ids by auto
  have "loadBlockingDepsForIssueIDs s ids = Inr (map (\<lambda>d. (issue_id d, target_of d)) ds)"
    using scan_pairs[OF assms, of ds] m by (simp add: loadBlockingDepsForIssueIDs_def ds_def blocking_row_def)
  moreover have "(x, y) \<in> set (map (\<lambda>d. (issue_id d, target_of d)) ds) \<longleftrightarrow> x \<in> set ids \<and>
      (\<exists>w. \<exists>d\<in>set (dep_table w s). issue_id d = x \<and> blocking_row d \<and> dep_target d = Some y)" for x y
  proof
    assume "(x, y) \<in> set (map (\<lambda>d. (issue_id d, target_of d)) ds)"
    then obtain d where d: "d \<in> set ds" "x = issue_id d" "y = target_of d" by auto
    then show "x \<in> set ids \<and> (\<exists>w. \<exists>d\<in>set (dep_table w s). issue_id d = x \<and> blocking_row d \<and> dep_target d = Some y)"
      using m dep_keys_target[OF assms] by blast
  next
    assume "x \<in> set ids \<and> (\<exists>w. \<exists>d\<in>set (dep_table w s). issue_id d = x \<and> blocking_row d \<and> dep_target d = Some y)"
    then obtain w d where d: "d \<in> set (dep_table w s)" "issue_id d = x" "blocking_row d" "dep_target d = Some y" "x \<in> set ids" by blast
    then have "d \<in> set ds" "target_of d = y" using m by (auto simp: target_of_def)
    then show "(x, y) \<in> set (map (\<lambda>d. (issue_id d, target_of d)) ds)" using d(2) by force
  qed
  ultimately show ?thesis by blast
qed

lemma direct_blockers_exact:
  assumes "wf_db s"
  shows "direct_blockers s ps x = (let bs = map snd (filter (\<lambda>p. fst p = x \<and> active_issue s (snd p)) ps)
    in if bs = [] then None else Some bs)"
proof -
  have "filter (\<lambda>d. active_id (loadStatusByID s (dedup_from [] (map snd ps))) (snd d)) ps = filter (\<lambda>p. active_issue s (snd p)) ps"
    by (rule filter_cong) (auto simp: active_id_exact[OF assms])
  then show ?thesis by (simp add: direct_blockers_def fold_append_row Let_def conj_commute)
qed

lemma parent_map:
  assumes "dep_keys s"
  shows "\<exists>m. loadParentIDsForChildren s ids = Inr m \<and> (\<forall>x. m x \<noteq> None \<longleftrightarrow> x \<in> set ids \<and> (\<exists>p. child_of s p x)) \<and>
    (\<forall>x p. m x = Some p \<longrightarrow> child_of s p x)"
proof -
  define ds where "ds = concat (map (\<lambda>w. concat (map (\<lambda>x. filter (\<lambda>d. issue_id d = x \<and> dtype d = DepParentChild) (dep_table w s)) ids)) [False, True])"
  have mem: "d \<in> set ds \<longleftrightarrow> (\<exists>w. d \<in> set (dep_table w s)) \<and> issue_id d \<in> set ids \<and> dtype d = DepParentChild" for d
    unfolding ds_def rows_of_ids by auto
  define m where "m = fold (\<lambda>(c, p) m. m(c \<mapsto> p)) (map (\<lambda>d. (issue_id d, target_of d)) ds) Map.empty"
  have l: "loadParentIDsForChildren s ids = Inr m"
    using scan_pairs[OF assms, of ds] mem by (simp add: loadParentIDsForChildren_def ds_def m_def)
  have f: "fold (\<lambda>(c, p) m. m(c \<mapsto> p)) ps m0 x = (case find (\<lambda>p. fst p = x) (rev ps) of Some p \<Rightarrow> Some (snd p) | None \<Rightarrow> m0 x)"
    for ps and m0 :: "string \<Rightarrow> string option" and x
    by (induction ps arbitrary: m0) (auto simp: find_snoc split: option.splits)
  have fin: "find P xs = Some r \<Longrightarrow> r \<in> set xs \<and> P r" for P and xs :: "'x list" and r by (induction xs) (auto split: if_splits)
  have co: "(\<exists>p. child_of s p x) \<and> x \<in> set ids \<longleftrightarrow> (\<exists>d\<in>set ds. issue_id d = x)" for x
  proof
    assume "(\<exists>p. child_of s p x) \<and> x \<in> set ids"
    then show "\<exists>d\<in>set ds. issue_id d = x" unfolding child_of_def Bex_def mem by blast
  next
    assume "\<exists>d\<in>set ds. issue_id d = x"
    then obtain d w where d: "d \<in> set (dep_table w s)" "issue_id d = x" "x \<in> set ids" "dtype d = DepParentChild"
      using mem by blast
    then show "(\<exists>p. child_of s p x) \<and> x \<in> set ids"
      unfolding child_of_def using dep_keys_target[OF assms d(1)] by blast
  qed
  have "m x \<noteq> None \<longleftrightarrow> x \<in> set ids \<and> (\<exists>p. child_of s p x)" for x
  proof -
    have "m x = None \<longleftrightarrow> \<not> (\<exists>d\<in>set ds. issue_id d = x)"
    proof (cases "find (\<lambda>p. fst p = x) (rev (map (\<lambda>d. (issue_id d, target_of d)) ds))")
      case None
      then have "\<not> (\<exists>d\<in>set ds. issue_id d = x)" by (auto simp: find_None_iff)
      moreover have "m x = None" using None unfolding m_def f by simp
      ultimately show ?thesis by blast
    next
      case (Some q)
      then have "q \<in> set (map (\<lambda>d. (issue_id d, target_of d)) ds)" "fst q = x" using fin[OF Some] by auto
      then have "\<exists>d\<in>set ds. issue_id d = x" by auto
      moreover have "m x = Some (snd q)" using Some unfolding m_def f by simp
      ultimately show ?thesis by simp
    qed
    then show ?thesis using co[of x] by metis
  qed
  moreover have "child_of s p x" if "m x = Some p" for x p
  proof -
    have "(x, p) \<in> set (map (\<lambda>d. (issue_id d, target_of d)) ds)"
    proof (cases "find (\<lambda>p. fst p = x) (rev (map (\<lambda>d. (issue_id d, target_of d)) ds))")
      case None
      then show ?thesis using that unfolding m_def f by simp
    next
      case (Some q)
      then have "q = (x, p)" using that fin[OF Some] unfolding m_def f by (cases q) simp
      then show ?thesis using fin[OF Some] by simp
    qed
    then obtain d where "d \<in> set ds" "x = issue_id d" "p = target_of d" by auto
    then obtain w where d: "d \<in> set (dep_table w s)" "issue_id d = x" "p = target_of d" "dtype d = DepParentChild"
      using mem by blast
    then show ?thesis unfolding child_of_def using dep_keys_target[OF assms d(1)] by blast
  qed
  ultimately show ?thesis using l by blast
qed

lemma blocker_map_dom:
  assumes "wf_db s" "dep_keys s"
  shows "\<exists>m. blocker_map s ids = Inr m \<and>
    (\<forall>x. m x \<noteq> None \<longleftrightarrow> x \<in> set ids \<and> ((\<exists>y. active_blocker s x y) \<or> (\<exists>p. child_of s p x))) \<and>
    (\<forall>x bs. m x = Some bs \<longrightarrow> (\<forall>y\<in>set bs. active_blocker s x y) \<and> bs \<noteq> [] \<or>
       (\<exists>p. bs = [p] \<and> child_of s p x \<and> (\<forall>y. \<not> active_blocker s x y)))"
proof -
  obtain ps where ps: "loadBlockingDepsForIssueIDs s ids = Inr ps"
    "\<And>x y. (x, y) \<in> set ps \<longleftrightarrow> x \<in> set ids \<and>
      (\<exists>w. \<exists>d\<in>set (dep_table w s). issue_id d = x \<and> blocking_row d \<and> dep_target d = Some y)"
    using blocking_deps[OF assms(2), of ids] by blast
  define own where "own = direct_blockers s ps"
  have own: "own x = (let bs = map snd (filter (\<lambda>p. fst p = x \<and> active_issue s (snd p)) ps) in if bs = [] then None else Some bs)" for x
    unfolding own_def by (rule direct_blockers_exact[OF assms(1)])
  have own_dom: "own x \<noteq> None \<longleftrightarrow> x \<in> set ids \<and> (\<exists>y. active_blocker s x y)" for x
  proof -
    have "own x \<noteq> None \<longleftrightarrow> (\<exists>y. (x, y) \<in> set ps \<and> active_issue s y)"
      unfolding own by (auto simp: Let_def filter_empty_conv)
    then show ?thesis unfolding ps(2) active_blocker_def by blast
  qed
  have own_mem: "own x = Some bs \<Longrightarrow> bs \<noteq> [] \<and> (\<forall>y\<in>set bs. active_blocker s x y)" for x bs
  proof -
    assume o: "own x = Some bs"
    then have "bs \<noteq> []" "\<forall>y\<in>set bs. (x, y) \<in> set ps \<and> active_issue s y"
      unfolding own by (auto simp: Let_def split: if_splits)
    then show ?thesis unfolding ps(2) active_blocker_def by blast
  qed
  define inh where "inh = filter (\<lambda>x. own x = None) ids"
  obtain pm where pm: "(if inh = [] then Inr Map.empty else loadParentIDsForChildren s inh) = Inr pm"
    "\<And>x. pm x \<noteq> None \<longleftrightarrow> x \<in> set inh \<and> (\<exists>p. child_of s p x)" "\<And>x p. pm x = Some p \<Longrightarrow> child_of s p x"
    using parent_map[OF assms(2), of inh] by (cases "inh = []") auto
  define m where "m x = (case own x of Some bs \<Rightarrow> Some bs | None \<Rightarrow> map_option (\<lambda>p. [p]) (pm x))" for x
  have "blocker_map s ids = Inr m"
    unfolding blocker_map_def ps(1) bind_res_simps Let_def own_def[symmetric] inh_def[symmetric] pm(1)
    by (simp add: m_def[abs_def])
  moreover have "m x \<noteq> None \<longleftrightarrow> x \<in> set ids \<and> ((\<exists>y. active_blocker s x y) \<or> (\<exists>p. child_of s p x))" for x
    using own_dom[of x] pm(2)[of x] by (cases "own x") (auto simp: m_def inh_def)
  moreover have "(\<forall>y\<in>set bs. active_blocker s x y) \<and> bs \<noteq> [] \<or>
       (\<exists>p. bs = [p] \<and> child_of s p x \<and> (\<forall>y. \<not> active_blocker s x y))" if "m x = Some bs" for x bs
    using own_dom[of x] own_mem[of x bs] pm(3)[of x] pm(2)[of x] that by (cases "own x") (auto simp: m_def inh_def)
  ultimately show ?thesis by blast
qed

text \<open>What a blocked issue names: the active targets of its own rows, in the order of the tables, or else the parent of the last row.\<close>

definition own_targets :: "db \<Rightarrow> string \<Rightarrow> string list" where
  "own_targets s x = map target_of (both_deps s (\<lambda>d. issue_id d = x \<and> blocking_row d \<and> active_issue s (target_of d)))"

definition parent_targets :: "db \<Rightarrow> string \<Rightarrow> string list" where
  "parent_targets s x = map target_of (both_deps s (\<lambda>d. issue_id d = x \<and> dtype d = DepParentChild))"

lemma own_targets_set:
  assumes "dep_keys s"
  shows "set (own_targets s x) = {y. active_blocker s x y}"
proof (intro set_eqI iffI)
  fix y assume "y \<in> set (own_targets s x)"
  then obtain d where d: "y = target_of d" "\<exists>w. d \<in> set (dep_table w s)" "issue_id d = x" "blocking_row d" "active_issue s (target_of d)"
    unfolding own_targets_def set_map image_iff Bex_def set_both_deps by blast
  then show "y \<in> {y. active_blocker s x y}"
    unfolding active_blocker_def mem_Collect_eq using dep_keys_target[OF assms] by blast
next
  fix y assume "y \<in> {y. active_blocker s x y}"
  then obtain w d where d: "d \<in> set (dep_table w s)" "issue_id d = x" "blocking_row d" "dep_target d = Some y" "active_issue s y"
    unfolding active_blocker_def by blast
  then have "target_of d = y" by (simp add: target_of_def)
  then show "y \<in> set (own_targets s x)"
    unfolding own_targets_def set_map image_iff Bex_def set_both_deps using d by blast
qed

lemma filter_rows_of_ids:
  assumes "distinct ids"
  shows "filter (\<lambda>d. issue_id d = x \<and> Q d) (concat (map (\<lambda>w. concat (map (\<lambda>y. filter (\<lambda>d. issue_id d = y \<and> P d) (dep_table w s)) ids)) [False, True])) =
    (if x \<in> set ids then both_deps s (\<lambda>d. issue_id d = x \<and> P d \<and> Q d) else [])"
proof -
  have "filter (\<lambda>d. issue_id d = x \<and> Q d) (concat (map (\<lambda>y. filter (\<lambda>d. issue_id d = y \<and> P d) ds) ids)) =
      (if x \<in> set ids then filter (\<lambda>d. issue_id d = x \<and> P d \<and> Q d) ds else [])" for ds
    using assms
  proof (induction ids)
    case (Cons y ids)
    have "filter (\<lambda>d. issue_id d = x \<and> Q d) (filter (\<lambda>d. issue_id d = y \<and> P d) ds) =
        (if x = y then filter (\<lambda>d. issue_id d = x \<and> P d \<and> Q d) ds else [])"
      by (auto simp: filter_empty_conv intro!: filter_cong)
    then show ?case using Cons by auto
  qed simp
  then show ?thesis by (auto simp: both_deps_def)
qed

lemma find_rev_last: "find P (rev xs) = (if filter P xs = [] then None else Some (last (filter P xs)))"
  by (induction xs rule: rev_induct) auto

lemma direct_blockers_named:
  assumes "wf_db s" "dep_keys s" "distinct ids" "loadBlockingDepsForIssueIDs s ids = Inr ps" "x \<in> set ids"
  shows "direct_blockers s ps x = (if own_targets s x = [] then None else Some (own_targets s x))"
proof -
  define ds where "ds = concat (map (\<lambda>w. concat (map (\<lambda>x. filter (\<lambda>d. issue_id d = x \<and> blocking_row d) (dep_table w s)) ids)) [False, True])"
  have "d \<in> set ds \<Longrightarrow> \<exists>w. d \<in> set (dep_table w s)" for d
    unfolding ds_def rows_of_ids by auto
  then have ps: "ps = map (\<lambda>d. (issue_id d, target_of d)) ds"
    using scan_pairs[OF assms(2), of ds] assms(4) by (simp add: loadBlockingDepsForIssueIDs_def ds_def blocking_row_def)
  have "map snd (filter (\<lambda>p. fst p = x \<and> active_issue s (snd p)) ps) =
      map target_of (filter (\<lambda>d. issue_id d = x \<and> active_issue s (target_of d)) ds)"
    unfolding ps by (simp add: filter_map comp_def)
  also have "\<dots> = own_targets s x"
    unfolding ds_def filter_rows_of_ids[OF assms(3)] own_targets_def using assms(5) by simp
  finally show ?thesis by (simp add: direct_blockers_exact[OF assms(1)] Let_def)
qed

lemma parent_map_named:
  assumes "dep_keys s" "distinct ids" "loadParentIDsForChildren s ids = Inr m" "x \<in> set ids"
  shows "m x = (if parent_targets s x = [] then None else Some (last (parent_targets s x)))"
proof -
  define ds where "ds = concat (map (\<lambda>w. concat (map (\<lambda>x. filter (\<lambda>d. issue_id d = x \<and> dtype d = DepParentChild) (dep_table w s)) ids)) [False, True])"
  have "d \<in> set ds \<Longrightarrow> \<exists>w. d \<in> set (dep_table w s)" for d
    unfolding ds_def rows_of_ids by auto
  then have m: "m = fold (\<lambda>(c, p) m. m(c \<mapsto> p)) (map (\<lambda>d. (issue_id d, target_of d)) ds) Map.empty"
    using scan_pairs[OF assms(1), of ds] assms(3) by (simp add: loadParentIDsForChildren_def ds_def)
  have f: "fold (\<lambda>(c, p) m. m(c \<mapsto> p)) ps m0 x = (case find (\<lambda>p. fst p = x) (rev ps) of Some p \<Rightarrow> Some (snd p) | None \<Rightarrow> m0 x)"
    for ps and m0 :: "string \<Rightarrow> string option"
    by (induction ps arbitrary: m0) (auto simp: find_snoc split: option.splits)
  have "filter (\<lambda>p. fst p = x) (map (\<lambda>d. (issue_id d, target_of d)) ds) =
      map (\<lambda>d. (issue_id d, target_of d)) (filter (\<lambda>d. issue_id d = x \<and> True) ds)"
    by (simp add: filter_map comp_def)
  also have "\<dots> = map (\<lambda>d. (issue_id d, target_of d)) (both_deps s (\<lambda>d. issue_id d = x \<and> dtype d = DepParentChild))"
    unfolding ds_def filter_rows_of_ids[OF assms(2)] using assms(4) by simp
  finally show ?thesis
    unfolding m f find_rev_last parent_targets_def by (simp add: last_map)
qed

lemma blocker_map_named:
  assumes "wf_db s" "dep_keys s" "distinct ids" "blocker_map s ids = Inr m" "x \<in> set ids"
  shows "m x = (if own_targets s x \<noteq> [] then Some (own_targets s x)
    else if parent_targets s x \<noteq> [] then Some [last (parent_targets s x)] else None)"
proof -
  obtain ps where ps: "loadBlockingDepsForIssueIDs s ids = Inr ps" using blocking_deps[OF assms(2), of ids] by blast
  define own where "own = direct_blockers s ps"
  have own: "own y = (if own_targets s y = [] then None else Some (own_targets s y))" if "y \<in> set ids" for y
    unfolding own_def by (rule direct_blockers_named[OF assms(1-3) ps that])
  define inh where "inh = filter (\<lambda>x. own x = None) ids"
  obtain pm where pm: "(if inh = [] then Inr Map.empty else loadParentIDsForChildren s inh) = Inr pm"
    using parent_map[OF assms(2), of inh] by (cases "inh = []") auto
  have m: "m = (\<lambda>x. case own x of Some bs \<Rightarrow> Some bs | None \<Rightarrow> map_option (\<lambda>p. [p]) (pm x))"
    using assms(4) unfolding blocker_map_def ps bind_res_simps Let_def own_def[symmetric] inh_def[symmetric] pm
    by simp
  show ?thesis
  proof (cases "own x")
    case None
    then have "x \<in> set inh" using assms(5) by (simp add: inh_def)
    then have l: "loadParentIDsForChildren s inh = Inr pm" using pm by (cases "inh = []") auto
    have "distinct inh" using assms(3) by (simp add: inh_def)
    from parent_map_named[OF assms(2) this l \<open>x \<in> set inh\<close>] show ?thesis
      using None own[OF assms(5)] by (simp add: m split: if_splits)
  next
    case (Some bs)
    then show ?thesis using own[OF assms(5)] by (simp add: m split: if_splits)
  qed
qed

lemma fetched_row: "x \<in> ID ` set (issue_table w s) \<Longrightarrow> \<exists>r. fetched s x = Some r"
proof (cases "select_row x (t_wisps s)")
  case None
  assume "x \<in> ID ` set (issue_table w s)"
  then have "select_row x (t_issues s) \<noteq> None"
    using None unfolding select_row_None by (cases w) (simp_all add: issue_table_def select_row_None)
  then show ?thesis using None by (auto simp: fetched_def)
qed (simp add: fetched_def)

lemma blocked_ids_set: "x \<in> set (blocked_ids s) \<longleftrightarrow>
  (\<exists>w. \<exists>r\<in>set (issue_table w s). ID r = x \<and> IsBlocked r \<and> active_status (Status r))"
  by (auto simp: blocked_ids_def active_status_def ex_bool_eq)

lemma blocked_ids_must:
  assumes "wf_db s" "acyclic_parents s" "blocked_consistent e s"
  shows "x \<in> set (blocked_ids s) \<longleftrightarrow> (\<exists>w. must_block e s (w, x))"
proof -
  have f: "flagged s = {n. must_block e s n}" by (rule flagged_must_block[OF assms])
  have "IsBlocked r \<Longrightarrow> active_status (Status r)" if "r \<in> set (issue_table w s)" for r w
    using assms(3) that by (simp add: blocked_consistent_def)
  then have "x \<in> set (blocked_ids s) \<longleftrightarrow> (\<exists>w. (w, x) \<in> flagged s)"
    unfolding blocked_ids_set flagged_def by blast
  then show ?thesis using f by simp
qed

lemma sort_map_filter_set: "set (sort_key k (List.map_filter f xs)) = {y. \<exists>x\<in>set xs. f x = Some y}"
  by (simp add: set_map_filter)

lemma blocked_issues_spec:
  assumes g: "wf_db s" "dep_keys s" "acyclic_parents s" "blocked_consistent e s"
    and ord: "distinct order" "set order = set (blocked_ids s)"
  shows "\<exists>bs. GetBlockedIssues s None order = Inr bs \<and>
    (\<lambda>b. ID (bi_issue b)) ` set bs =
      {x. (\<exists>w. must_block e s (w, x)) \<and> ((\<exists>y. active_blocker s x y) \<or> (\<exists>p. child_of s p x))} \<and>
    distinct (map (\<lambda>b. ID (bi_issue b)) bs) \<and>
    sorted (map (\<lambda>b. (Priority (bi_issue b), - CreatedAt (bi_issue b))) bs) \<and>
    (\<forall>b\<in>set bs. BlockedByCount b = length (BlockedBy b) \<and> BlockedBy b \<noteq> [] \<and>
      BlockedBy b = (if own_targets s (ID (bi_issue b)) \<noteq> [] then own_targets s (ID (bi_issue b))
        else [last (parent_targets s (ID (bi_issue b)))]) \<and>
      ((\<exists>y. active_blocker s (ID (bi_issue b)) y) \<longrightarrow> set (BlockedBy b) = {y. active_blocker s (ID (bi_issue b)) y}))"
proof (cases "blocked_ids s = []")
  case True
  then have "GetBlockedIssues s None order = Inr []" by (simp add: GetBlockedIssues_def)
  moreover have "\<not> must_block e s (w, x)" for w x using True blocked_ids_must[OF g(1,3,4), of x] by auto
  ultimately show ?thesis by simp
next
  case False
  obtain m where m: "blocker_map s (blocked_ids s) = Inr m"
    "\<And>x. m x \<noteq> None \<longleftrightarrow> x \<in> set (blocked_ids s) \<and> ((\<exists>y. active_blocker s x y) \<or> (\<exists>p. child_of s p x))"
    "\<And>x bs. m x = Some bs \<Longrightarrow> (\<forall>y\<in>set bs. active_blocker s x y) \<and> bs \<noteq> [] \<or>
       (\<exists>p. bs = [p] \<and> child_of s p x \<and> (\<forall>y. \<not> active_blocker s x y))"
    using blocker_map_dom[OF g(1,2), of "blocked_ids s"] by blast
  define keys where "keys = filter (\<lambda>x. m x \<noteq> None) order"
  have keys: "x \<in> set keys \<longleftrightarrow> m x \<noteq> None" for x
    using m(2)[of x] ord(2) by (auto simp: keys_def)
  define im where "im = by_id (GetIssuesByIDs s keys None)"
  have im: "im x = (if x \<in> set keys then fetched s x else None)" for x
    unfolding im_def by (rule GetIssuesByIDs_exact[OF g(1)])
  have ex: "\<exists>r. im x = Some r" if k: "x \<in> set keys" for x
  proof -
    have "x \<in> set (blocked_ids s)" using k m(2) keys by blast
    then obtain w where "x \<in> ID ` set (issue_table w s)" unfolding blocked_ids_set by blast
    then show ?thesis using k im[of x] fetched_row[of x w s] by simp
  qed
  define f where "f x = (case (im x, m x) of (Some r, Some bs) \<Rightarrow>
      Some \<lparr>bi_issue = r, BlockedByCount = length bs, BlockedBy = bs\<rparr> | _ \<Rightarrow> None)" for x
  define bs where "bs = sort_key (\<lambda>b. (Priority (bi_issue b), - CreatedAt (bi_issue b))) (List.map_filter f keys)"
  have r: "GetBlockedIssues s None order = Inr bs"
    using False m(1) by (simp add: GetBlockedIssues_def under_parent_def Let_def bs_def f_def[abs_def] im_def keys_def)
  have mem: "b \<in> set bs \<longleftrightarrow> (\<exists>x\<in>set keys. f x = Some b)" for b by (simp add: bs_def set_map_filter)
  have fx: "\<exists>r l. im x = Some r \<and> m x = Some l \<and> f x = Some \<lparr>bi_issue = r, BlockedByCount = length l, BlockedBy = l\<rparr> \<and> ID r = x"
    if k: "x \<in> set keys" for x
    using ex[OF k] k keys[of x] im[of x] fetched_ID[of s x] by (auto simp: f_def)
  have "(\<lambda>b. ID (bi_issue b)) ` set bs = set keys"
  proof (intro set_eqI iffI)
    fix x assume "x \<in> (\<lambda>b. ID (bi_issue b)) ` set bs"
    then obtain b y where "f y = Some b" "y \<in> set keys" "x = ID (bi_issue b)" unfolding image_iff Bex_def mem by blast
    then show "x \<in> set keys" using fx[of y] by auto
  next
    fix x assume k: "x \<in> set keys"
    then obtain r l where "f x = Some \<lparr>bi_issue = r, BlockedByCount = length l, BlockedBy = l\<rparr>" "ID r = x" using fx by blast
    then have "\<lparr>bi_issue = r, BlockedByCount = length l, BlockedBy = l\<rparr> \<in> set bs" "ID r = x" using k mem by blast+
    then show "x \<in> (\<lambda>b. ID (bi_issue b)) ` set bs" by force
  qed
  moreover have "set keys = {x. (\<exists>w. must_block e s (w, x)) \<and> ((\<exists>y. active_blocker s x y) \<or> (\<exists>p. child_of s p x))}"
    using keys m(2) blocked_ids_must[OF g(1,3,4)] by blast
  moreover have "distinct (map (\<lambda>b. ID (bi_issue b)) bs)"
  proof -
    have "map (\<lambda>b. ID (bi_issue b)) (List.map_filter f ks) = ks" if "set ks \<subseteq> set keys" for ks
      using that
    proof (induction ks)
      case (Cons x ks)
      then show ?case using fx[of x] by (auto simp: List.map_filter_simps)
    qed (simp add: List.map_filter_simps)
    then have "map (\<lambda>b. ID (bi_issue b)) (List.map_filter f keys) = keys" by blast
    then have "distinct (map (\<lambda>b. ID (bi_issue b)) (List.map_filter f keys))"
      using ord(1) by (simp add: keys_def)
    then show ?thesis by (simp add: bs_def distinct_map)
  qed
  moreover have "sorted (map (\<lambda>b. (Priority (bi_issue b), - CreatedAt (bi_issue b))) bs)" by (simp add: bs_def)
  moreover have "BlockedByCount b = length (BlockedBy b) \<and> BlockedBy b \<noteq> [] \<and>
      BlockedBy b = (if own_targets s (ID (bi_issue b)) \<noteq> [] then own_targets s (ID (bi_issue b))
        else [last (parent_targets s (ID (bi_issue b)))]) \<and>
      ((\<exists>y. active_blocker s (ID (bi_issue b)) y) \<longrightarrow> set (BlockedBy b) = {y. active_blocker s (ID (bi_issue b)) y})"
    if b: "b \<in> set bs" for b
  proof -
    obtain x where x: "x \<in> set keys" "f x = Some b" using b mem by blast
    obtain q l where q: "m x = Some l" "b = \<lparr>bi_issue = q, BlockedByCount = length l, BlockedBy = l\<rparr>" "ID q = x"
      using fx[OF x(1)] x(2) by auto
    have "m x = (if own_targets s x \<noteq> [] then Some (own_targets s x)
        else if parent_targets s x \<noteq> [] then Some [last (parent_targets s x)] else None)"
      by (rule blocker_map_named[OF g(1,2) _ m(1)]) (use x(1) keys m(2) in \<open>simp_all add: blocked_ids_def\<close>)
    then have "l = (if own_targets s x \<noteq> [] then own_targets s x else [last (parent_targets s x)])"
      using q(1) by (auto split: if_splits)
    moreover have "l \<noteq> []" using m(3)[OF q(1)] by auto
    moreover have "set (own_targets s x) = {y. active_blocker s x y}" by (rule own_targets_set[OF g(2)])
    ultimately show ?thesis using q(2,3) by auto
  qed
  ultimately show ?thesis using r by blast
qed

subsection \<open>Epics\<close>

lemma epic_children_set:
  "x \<in> set ids \<Longrightarrow> c \<in> set (epic_children s ids x) \<longleftrightarrow> child_of s x c"
  unfolding epic_children_def child_of_def by (simp add: ids_both)

lemma epics_spec:
  assumes "wf_db s"
  shows "(\<lambda>e. ID (Epic e)) ` set (GetEpicsEligibleForClosure s) =
      {ID r |r. r \<in> set (t_issues s) \<and> IssueType r = TypeEpic \<and> Status r \<noteq> StatusClosed \<and> (\<exists>c. child_of s (ID r) c)} \<and>
    (\<forall>e\<in>set (GetEpicsEligibleForClosure s).
      (EligibleForClose e \<longleftrightarrow> (\<forall>c. child_of s (ID (Epic e)) c \<longrightarrow> status_of s c = Some StatusClosed)) \<and>
      ClosedChildren e \<le> TotalChildren e \<and> 0 < TotalChildren e)"
proof -
  define ids where "ids = map ID (filter (\<lambda>r. IssueType r = TypeEpic \<and> Status r \<noteq> StatusClosed) (t_issues s))"
  define ch where "ch x = epic_children s ids x" for x
  define st where "st = loadStatusByID s (concat (map (epic_children s ids) (dedup_from [] ids)))"
  define im where "im = by_id (GetIssuesByIDs s (filter (\<lambda>x. epic_children s ids x \<noteq> []) ids) None)"
  define f where "f x = (if ch x = [] then None
     else map_option (\<lambda>r. \<lparr>Epic = r, TotalChildren = length (ch x),
        ClosedChildren = length (filter (\<lambda>c. st c = Some StatusClosed) (ch x)),
        EligibleForClose = (0 < length (ch x) \<and> length (ch x) = length (filter (\<lambda>c. st c = Some StatusClosed) (ch x)))\<rparr>) (im x))" for x
  have g: "GetEpicsEligibleForClosure s = List.map_filter f ids"
    unfolding GetEpicsEligibleForClosure_def Let_def f_def[abs_def] ch_def st_def im_def ids_def ..
  have im: "im x = (if x \<in> set ids \<and> ch x \<noteq> [] then fetched s x else None)" for x
    unfolding im_def GetIssuesByIDs_exact[OF assms] by (simp add: ch_def)
  have st: "st c = status_of s c" if "c \<in> set (ch x)" "x \<in> set ids" for c x
    using that unfolding st_def loadStatus_exact[OF assms] ch_def by auto
  have chs: "c \<in> set (ch x) \<longleftrightarrow> child_of s x c" if "x \<in> set ids" for x c
    unfolding ch_def by (rule epic_children_set[OF that])
  have chn: "ch x \<noteq> [] \<longleftrightarrow> (\<exists>c. child_of s x c)" if "x \<in> set ids" for x
    using chs[OF that] by (cases "ch x") auto
  have fx: "\<exists>r. f x = Some \<lparr>Epic = r, TotalChildren = length (ch x),
        ClosedChildren = length (filter (\<lambda>c. st c = Some StatusClosed) (ch x)),
        EligibleForClose = (\<forall>c\<in>set (ch x). st c = Some StatusClosed)\<rparr> \<and> ID r = x"
    if x: "x \<in> set ids" "ch x \<noteq> []" for x
  proof -
    have "x \<in> ID ` set (issue_table False s)" using x(1) by (auto simp: ids_def issue_table_def)
    then obtain r where r: "im x = Some r" "ID r = x" using fetched_row fetched_ID im x by fastforce
    have "length (ch x) = length (filter (\<lambda>c. st c = Some StatusClosed) (ch x)) \<longleftrightarrow> (\<forall>c\<in>set (ch x). st c = Some StatusClosed)"
      by (metis (mono_tags, lifting) filter_True length_filter_less nat_less_le)
    then show ?thesis using x(2) r by (simp add: f_def)
  qed
  have fn: "f x = Some e \<Longrightarrow> ch x \<noteq> []" for x e by (auto simp: f_def split: if_splits)
  have ids: "set ids = {ID r |r. r \<in> set (t_issues s) \<and> IssueType r = TypeEpic \<and> Status r \<noteq> StatusClosed}"
    by (auto simp: ids_def)
  show ?thesis
  proof (intro conjI ballI)
    have "(\<lambda>e. ID (Epic e)) ` set (List.map_filter f ids) = {x \<in> set ids. ch x \<noteq> []}"
    proof (intro set_eqI iffI)
      fix x assume "x \<in> (\<lambda>e. ID (Epic e)) ` set (List.map_filter f ids)"
      then obtain y e where y: "y \<in> set ids" "f y = Some e" "x = ID (Epic e)" by (auto simp: set_map_filter)
      then show "x \<in> {x \<in> set ids. ch x \<noteq> []}" using fx[OF y(1) fn[OF y(2)]] fn[OF y(2)] by auto
    next
      fix x assume "x \<in> {x \<in> set ids. ch x \<noteq> []}"
      then obtain e where "x \<in> set ids" "f x = Some e" "ID (Epic e) = x" using fx[of x] by auto
      then show "x \<in> (\<lambda>e. ID (Epic e)) ` set (List.map_filter f ids)" by (force simp: set_map_filter)
    qed
    also have "\<dots> = {ID r |r. r \<in> set (t_issues s) \<and> IssueType r = TypeEpic \<and> Status r \<noteq> StatusClosed \<and> (\<exists>c. child_of s (ID r) c)}"
    proof -
      have "{x \<in> set ids. ch x \<noteq> []} = {x \<in> set ids. \<exists>c. child_of s x c}" using chn by blast
      then show ?thesis unfolding ids by auto
    qed
    finally show "(\<lambda>e. ID (Epic e)) ` set (GetEpicsEligibleForClosure s) = \<dots>" unfolding g .
  next
    fix e assume "e \<in> set (GetEpicsEligibleForClosure s)"
    then obtain x where x: "x \<in> set ids" "f x = Some e" unfolding g by (auto simp: set_map_filter)
    then have e: "Epic e = Epic e" "ID (Epic e) = x" "EligibleForClose e \<longleftrightarrow> (\<forall>c\<in>set (ch x). st c = Some StatusClosed)"
      "TotalChildren e = length (ch x)" "ClosedChildren e \<le> length (ch x)" "ch x \<noteq> []"
      using fx[OF x(1) fn[OF x(2)]] fn[OF x(2)] by auto
    show "EligibleForClose e \<longleftrightarrow> (\<forall>c. child_of s (ID (Epic e)) c \<longrightarrow> status_of s c = Some StatusClosed)"
      using e(2,3) chs[OF x(1)] st[OF _ x(1)] by auto
    show "ClosedChildren e \<le> TotalChildren e" "0 < TotalChildren e" using e(4-6) by auto
  qed
qed

end
