(* ===== verification/PropsReaders.thy ===== *)
theory PropsReaders
  imports ReadersThms
begin

text \<open>The properties of the queries on dependencies, blocked issues and epics.\<close>

text \<open>
  (C40) On a store with a consistent derived column, the query whether an issue is
  blocked answers what the inductive specification of blocked work says for the row
  it reads, and names exactly the active targets of its blocking rows.
\<close>

theorem is_blocked_query_exact:
  assumes "good_db e s" "dep_keys s"
  shows "\<exists>bs. IsBlockedQuery s x = Inr (must_block e s (x \<notin> ID ` set (t_issues s), x), bs) \<and>
    set bs = (if must_block e s (x \<notin> ID ` set (t_issues s), x)
      then {blocker_text (dtype d) y |d y. (\<exists>w. d \<in> set (dep_table w s)) \<and> issue_id d = x \<and> blocking_row d \<and>
        dep_target d = Some y \<and> active_issue s y} else {})"
proof -
  have g: "wf_db s" "acyclic_parents s" "blocked_consistent e s" using assms(1) by (simp_all add: good_db_def)
  have f: "read_flag s x = Some True \<longleftrightarrow> must_block e s (x \<notin> ID ` set (t_issues s), x)"
  proof -
    have "(\<exists>r\<in>set (t_issues s). ID r = x) \<longleftrightarrow> x \<in> ID ` set (t_issues s)" by auto
    then show ?thesis using read_flag_flagged[OF g(1), of x] unfolding flagged_must_block[OF g] by simp
  qed
  have t: "target_of d = y" if "dep_target d = Some y" for d y using that by (simp add: target_of_def)
  have "(\<lambda>d. blocker_text (dtype d) (target_of d)) ` {d. (\<exists>w. d \<in> set (dep_table w s)) \<and> issue_id d = x \<and> blocking_row d \<and> active_issue s (target_of d)} =
      {blocker_text (dtype d) y |d y. (\<exists>w. d \<in> set (dep_table w s)) \<and> issue_id d = x \<and> blocking_row d \<and> dep_target d = Some y \<and> active_issue s y}"
    (is "?f ` ?A = ?B")
  proof (intro set_eqI iffI)
    fix b assume "b \<in> ?f ` ?A"
    then obtain d w where d: "b = ?f d" "d \<in> set (dep_table w s)" "issue_id d = x" "blocking_row d" "active_issue s (target_of d)" by blast
    then show "b \<in> ?B" using dep_keys_target[OF assms(2) d(2)] by blast
  next
    fix b assume "b \<in> ?B"
    then obtain d w y where d: "b = blocker_text (dtype d) y" "d \<in> set (dep_table w s)" "issue_id d = x" "blocking_row d"
      "dep_target d = Some y" "active_issue s y" by blast
    then show "b \<in> ?f ` ?A" using t[OF d(5)] by blast
  qed
  moreover have "set (both_deps s p) = {d. (\<exists>w. d \<in> set (dep_table w s)) \<and> p d}" for p
    using set_both_deps by blast
  ultimately show ?thesis
    using f by (simp add: IsBlockedQuery_spec[OF g(1) assms(2)] blocking_row_def)
qed

lemma chain_dep_keys: "dep_keys (chain True)"
  unfolding dep_keys_def all_bool_eq by code_simp

theorem is_blocked_query_exact_witness:
  "\<exists>bs. IsBlockedQuery (chain True) ''bd-2'' = Inr (True, bs) \<and> must_block ex_env (chain True) (False, ''bd-2'') \<and> bs = [''bd-1'']"
proof -
  have q: "IsBlockedQuery (chain True) ''bd-2'' = Inr (True, [''bd-1''])" by code_simp
  have n: "''bd-2'' \<in> ID ` set (t_issues (chain True))" by (simp add: chain_def)
  then have "must_block ex_env (chain True) (False, ''bd-2'')"
    using is_blocked_query_exact[OF chain_good chain_dep_keys, of "''bd-2''"] q by auto
  with q show ?thesis by blast
qed

text \<open>
  (C27) The list of blocked issues contains exactly the issues that the specification
  blocks and that have an active target of a blocking type or a parent, each once, in the
  order of their priority and, within a priority, the newest first.  An issue with rows of
  a blocking type on active targets names all of these targets and nothing else, once per
  row, in the order of the tables; any other issue names one id, the parent of its last
  parent-child row.  The count is the number of names.  The order in which Go iterates
  over its maps (\<^verbatim>\<open>order\<close>) does not matter.
\<close>

theorem blocked_issues_exact:
  assumes "good_db e s" "dep_keys s" and "distinct order" "set order = set (blocked_ids s)"
  shows "\<exists>bs. GetBlockedIssues s None order = Inr bs \<and>
    (\<lambda>b. ID (bi_issue b)) ` set bs =
      {x. (\<exists>w. must_block e s (w, x)) \<and> ((\<exists>y. active_blocker s x y) \<or> (\<exists>p. child_of s p x))} \<and>
    distinct (map (\<lambda>b. ID (bi_issue b)) bs) \<and>
    sorted (map (\<lambda>b. (Priority (bi_issue b), - CreatedAt (bi_issue b))) bs) \<and>
    (\<forall>b\<in>set bs. BlockedByCount b = length (BlockedBy b) \<and> BlockedBy b \<noteq> [] \<and>
      BlockedBy b = (if own_targets s (ID (bi_issue b)) \<noteq> [] then own_targets s (ID (bi_issue b))
        else [last (parent_targets s (ID (bi_issue b)))]) \<and>
      ((\<exists>y. active_blocker s (ID (bi_issue b)) y) \<longrightarrow> set (BlockedBy b) = {y. active_blocker s (ID (bi_issue b)) y}))"
  using blocked_issues_spec[OF _ assms(2) _ _ assms(3,4), of e] assms(1) by (simp add: good_db_def)

theorem blocked_issues_exact_witness:
  "\<exists>bs. GetBlockedIssues (chain True) None [''bd-3'', ''bd-2''] = Inr bs \<and>
     map (\<lambda>b. (ID (bi_issue b), BlockedBy b)) bs = [(''bd-3'', [''bd-2'']), (''bd-2'', [''bd-1''])] \<and>
     (\<exists>w. must_block ex_env (chain True) (w, ''bd-3''))"
proof -
  have i: "blocked_ids (chain True) = [''bd-2'', ''bd-3'']" by code_simp
  have o: "distinct [''bd-3'', ''bd-2'']" "set [''bd-3'', ''bd-2''] = set (blocked_ids (chain True))"
    unfolding i by (simp_all add: insert_commute)
  obtain bs where bs: "GetBlockedIssues (chain True) None [''bd-3'', ''bd-2''] = Inr bs"
    "(\<lambda>b. ID (bi_issue b)) ` set bs =
      {x. (\<exists>w. must_block ex_env (chain True) (w, x)) \<and> ((\<exists>y. active_blocker (chain True) x y) \<or> (\<exists>p. child_of (chain True) p x))}"
    using blocked_issues_exact[OF chain_good chain_dep_keys o] by blast
  have "case GetBlockedIssues (chain True) None [''bd-3'', ''bd-2''] of Inl _ \<Rightarrow> False
      | Inr bs \<Rightarrow> map (\<lambda>b. (ID (bi_issue b), BlockedBy b)) bs = [(''bd-3'', [''bd-2'']), (''bd-2'', [''bd-1''])]" by code_simp
  then have m: "map (\<lambda>b. (ID (bi_issue b), BlockedBy b)) bs = [(''bd-3'', [''bd-2'']), (''bd-2'', [''bd-1''])]" using bs(1) by simp
  then have "(''bd-3'', [''bd-2'']) \<in> set (map (\<lambda>b. (ID (bi_issue b), BlockedBy b)) bs)" by simp
  then obtain b where b: "b \<in> set bs" "ID (bi_issue b) = ''bd-3''" by auto
  have "ID (bi_issue b) \<in> (\<lambda>b. ID (bi_issue b)) ` set bs" using b(1) by (rule imageI)
  then have "\<exists>w. must_block ex_env (chain True) (w, ''bd-3'')" unfolding bs(2) b(2) by simp
  then show ?thesis using bs(1) m by (intro exI[of _ bs] conjI)
qed

text \<open>
  An issue that waits for the children of a spawner that is itself closed is blocked,
  but neither the list of blocked issues nor the query names a reason for it.
\<close>

definition closed_spawner :: db where
  "closed_spawner = ex_db [ex_row ''bd-s'' ''closed'' False, ex_row ''bd-c'' ''open'' False, ex_row ''bd-w'' ''open'' True]
     [ex_dep ''bd-c'' ''bd-s'' ''parent-child'' '''', ex_dep ''bd-w'' ''bd-s'' ''waits-for'' ''all'']"

lemma gate_blocked_unlisted:
  "must_block ex_env closed_spawner (False, ''bd-w'') \<and> blocked_consistent ex_env closed_spawner \<and>
   GetBlockedIssues closed_spawner None [''bd-w''] = Inr [] \<and> IsBlockedQuery closed_spawner ''bd-w'' = Inr (True, [])"
proof (intro conjI)
  have "active_node closed_spawner (False, ''bd-w'')" "own_reason ex_env closed_spawner (False, ''bd-w'')" by code_simp+
  then show "must_block ex_env closed_spawner (False, ''bd-w'')" by (rule must_block.own)
  have "case GetBlockedIssues closed_spawner None [''bd-w''] of Inl _ \<Rightarrow> False | Inr bs \<Rightarrow> bs = []" by code_simp
  then show "GetBlockedIssues closed_spawner None [''bd-w''] = Inr []" by (auto split: sum.splits)
  show "IsBlockedQuery closed_spawner ''bd-w'' = Inr (True, [])" by code_simp
  show "blocked_consistent ex_env closed_spawner" by code_simp
qed

text \<open>
  (C30) After an issue is closed, the report of newly unblocked issues contains exactly
  the active issues with a \<^verbatim>\<open>blocks\<close> row on it and no other active target of that type;
  no dependent that the specification frees is missing from it.
\<close>

theorem newly_unblocked_complete:
  assumes "wf_db s" "routed s"
  shows "ID ` set (GetNewlyUnblockedByClose s c) =
      {x. blocks_on s x c \<and> active_issue s x \<and> (\<forall>y. y \<noteq> c \<longrightarrow> blocks_on s x y \<longrightarrow> \<not> active_issue s y)} \<and>
    (\<forall>w. \<forall>r\<in>set (issue_table w s). active_status (Status r) \<longrightarrow> blocks_on s (ID r) c \<longrightarrow>
      \<not> must_block e s (w, ID r) \<longrightarrow> ID r \<in> ID ` set (GetNewlyUnblockedByClose s c))"
  using newly_unblocked_ids[OF assms(1)] unblocked_reported[OF assms] by blast

definition freed :: db where
  "freed = ex_db [ex_row ''bd-1'' ''closed'' False, ex_row ''bd-2'' ''open'' False, ex_row ''bd-3'' ''open'' True, ex_row ''bd-4'' ''open'' False]
     [ex_dep ''bd-2'' ''bd-1'' ''blocks'' '''', ex_dep ''bd-3'' ''bd-1'' ''blocks'' '''',
      ex_dep ''bd-3'' ''bd-4'' ''conditional-blocks'' '''']"

lemma freed_routed: "wf_db freed" "routed freed"
  unfolding wf_db_def routed_def all_bool_eq
  by (auto simp: freed_def ex_dep_def targets_def split: if_splits)

lemma freed_blocks: "blocks_on freed ''bd-2'' ''bd-1''"
  unfolding blocks_on_def ex_bool_eq by (simp add: freed_def ex_dep_def dep_target_def const_defs)

theorem newly_unblocked_complete_witness:
  "ID ` set (GetNewlyUnblockedByClose freed ''bd-1'') = {''bd-2'', ''bd-3''} \<and>
   blocks_on freed ''bd-2'' ''bd-1'' \<and> ''bd-2'' \<in> ID ` set (GetNewlyUnblockedByClose freed ''bd-1'')"
proof -
  have "map ID (GetNewlyUnblockedByClose freed ''bd-1'') = [''bd-2'', ''bd-3'']" by code_simp
  then have e: "ID ` set (GetNewlyUnblockedByClose freed ''bd-1'') = {''bd-2'', ''bd-3''}"
    by (metis list.set_map list.simps(15) empty_set)
  have a: "active_issue freed ''bd-2''" "\<not> active_issue freed ''bd-1''" by code_simp+
  have "blocks_on freed ''bd-2'' y \<Longrightarrow> y = ''bd-1''" for y
    unfolding blocks_on_def ex_bool_eq by (auto simp: freed_def ex_dep_def dep_target_def)
  then have "''bd-2'' \<in> ID ` set (GetNewlyUnblockedByClose freed ''bd-1'')"
    using conjunct1[OF newly_unblocked_complete[OF freed_routed]] freed_blocks a by blast
  then show ?thesis using e freed_blocks by blast
qed

text \<open>The report can name an issue that is still blocked, by a \<^verbatim>\<open>conditional-blocks\<close> row.\<close>

lemma newly_unblocked_overreports:
  "''bd-3'' \<in> ID ` set (GetNewlyUnblockedByClose freed ''bd-1'') \<and> must_block ex_env freed (False, ''bd-3'') \<and>
   blocked_consistent ex_env freed"
proof (intro conjI)
  have "''bd-3'' \<in> set (map ID (GetNewlyUnblockedByClose freed ''bd-1''))" by code_simp
  then show "''bd-3'' \<in> ID ` set (GetNewlyUnblockedByClose freed ''bd-1'')" by simp
  have "active_node freed (False, ''bd-3'')" "own_reason ex_env freed (False, ''bd-3'')" by code_simp+
  then show "must_block ex_env freed (False, ''bd-3'')" by (rule must_block.own)
  show "blocked_consistent ex_env freed" by code_simp
qed

text \<open>
  (C31) The recursive walk over the parent-child rows, without a depth limit, returns
  exactly the transitive children of the root (whatever cycles the rows have), if no
  id contains a comma; with a comma the textual test of the path could merge two ids.
\<close>

theorem descendants_are_closure:
  assumes "root \<noteq> ''''" "plain_ids s root"
  shows "\<exists>ids. GetDescendantIDs s root 0 = Inr ids \<and> set ids = {x. (child_of s)\<^sup>+\<^sup>+ root x \<and> x \<noteq> root}"
  by (rule descendants_exact[OF assms])

definition family :: db where
  "family = ex_db [ex_row ''bd-1'' ''open'' False, ex_row ''bd-2'' ''open'' False, ex_row ''bd-3'' ''open'' False]
     [ex_dep ''bd-2'' ''bd-1'' ''parent-child'' '''', ex_dep ''bd-3'' ''bd-2'' ''parent-child'' '''',
      ex_dep ''bd-1'' ''bd-3'' ''parent-child'' '''']"

theorem descendants_are_closure_witness:
  "GetDescendantIDs family ''bd-1'' 0 = Inr [''bd-2'', ''bd-3''] \<and> (child_of family)\<^sup>+\<^sup>+ ''bd-1'' ''bd-3''"
proof -
  have q: "GetDescendantIDs family ''bd-1'' 0 = Inr [''bd-2'', ''bd-3'']" by code_simp
  have "plain_ids family ''bd-1''"
    unfolding plain_ids_def all_bool_eq by (simp add: family_def ex_dep_def comma_free_def)
  then show ?thesis using descendants_are_closure[of "''bd-1''" family] q by auto
qed

text \<open>
  The epics reported are the open permanent epics that have a child, and an epic
  is eligible for closure exactly if every child exists and is closed.
\<close>

theorem epic_closure_exact:
  assumes "wf_db s"
  shows "(\<lambda>e. ID (Epic e)) ` set (GetEpicsEligibleForClosure s) =
      {ID r |r. r \<in> set (t_issues s) \<and> IssueType r = TypeEpic \<and> Status r \<noteq> StatusClosed \<and> (\<exists>c. child_of s (ID r) c)} \<and>
    (\<forall>e\<in>set (GetEpicsEligibleForClosure s).
      (EligibleForClose e \<longleftrightarrow> (\<forall>c. child_of s (ID (Epic e)) c \<longrightarrow> status_of s c = Some StatusClosed)) \<and>
      ClosedChildren e \<le> TotalChildren e \<and> 0 < TotalChildren e)"
  by (rule epics_spec[OF assms])

definition epic_db :: db where
  "epic_db = ex_db [(ex_row ''bd-1'' ''open'' False)\<lparr>IssueType := ''epic''\<rparr>, ex_row ''bd-2'' ''closed'' False]
     [ex_dep ''bd-2'' ''bd-1'' ''parent-child'' '''']"

theorem epic_closure_exact_witness:
  "map EligibleForClose (GetEpicsEligibleForClosure epic_db) = [True] \<and>
   status_of epic_db ''bd-2'' = Some StatusClosed"
proof -
  have "map (\<lambda>e. (ID (Epic e), EligibleForClose e)) (GetEpicsEligibleForClosure epic_db) = [(''bd-1'', True)]" by code_simp
  then obtain e where e: "GetEpicsEligibleForClosure epic_db = [e]" "ID (Epic e) = ''bd-1''" "EligibleForClose e" by auto
  have "wf_db epic_db" unfolding wf_db_def all_bool_eq by (simp add: epic_db_def)
  moreover have "child_of epic_db ''bd-1'' ''bd-2''" unfolding child_of_def ex_bool_eq by code_simp
  ultimately show ?thesis using epic_closure_exact[of epic_db] e by auto
qed

end
