(* ===== verification/Filters.thy ===== *)
theory Filters
  imports Readers Ids
begin

text \<open>
  The WHERE and ORDER BY clauses of \<^verbatim>\<open>internal/storage/sqlbuild\<close> in the SQLite dialect
  of the doltlite store, as predicates and comparisons on rows.  A clause is read the
  way SQLite evaluates it on a row: a comparison with NULL is not true, \<^verbatim>\<open>LIKE\<close>
  (\<^verbatim>\<open>sql_like\<close>) ignores the case of ASCII letters, and times are compared as the text in which the
  driver stores them.

  The texts of times are a parameter (\<^verbatim>\<open>sql_env\<close>), as the driver chooses them, and so
  are \<^verbatim>\<open>CURRENT_TIMESTAMP\<close> and the JSON functions of the database.
\<close>

record sql_env =
  stored_text :: "time \<Rightarrow> string"
  current_ts :: string
  rfc3339 :: "time \<Rightarrow> string"
  go_now :: time
  json_has :: "string \<Rightarrow> string \<Rightarrow> bool"
  json_is :: "string \<Rightarrow> string \<Rightarrow> string \<Rightarrow> bool"

subsection \<open>Sorting by a comparison\<close>

fun insert_by :: "('a \<Rightarrow> 'a \<Rightarrow> bool) \<Rightarrow> 'a \<Rightarrow> 'a list \<Rightarrow> 'a list" where
  "insert_by lt x [] = [x]"
| "insert_by lt x (y # ys) = (if lt y x then y # insert_by lt x ys else x # y # ys)"

text \<open>\<^verbatim>\<open>ORDER BY\<close> and \<^verbatim>\<open>sort.SliceStable\<close>: equal elements keep their order.\<close>

definition sort_by :: "('a \<Rightarrow> 'a \<Rightarrow> bool) \<Rightarrow> 'a list \<Rightarrow> 'a list" where
  "sort_by lt xs = foldr (insert_by lt) xs []"

definition less_then :: "'a::linorder \<Rightarrow> 'a \<Rightarrow> bool \<Rightarrow> bool" where
  "less_then a b rest = (a < b \<or> a = b \<and> rest)"

definition limit_to :: "int \<Rightarrow> 'a list \<Rightarrow> 'a list" where
  "limit_to n xs = (if 0 < n then take (nat n) xs else xs)"

subsection \<open>Order clauses\<close>

text \<open>\<^verbatim>\<open>replace(substr(created_at, 1, 19), 'T', ' ')\<close>.\<close>

definition CreatedAtSortKey :: "sql_env \<Rightarrow> issue_row \<Rightarrow> string" where
  "CreatedAtSortKey q r = map (\<lambda>c. if c = CHR ''T'' then CHR '' '' else c) (take 19 (stored_text q (CreatedAt r)))"

definition SortPolicyOldest :: string where "SortPolicyOldest = ''oldest''"
definition SortPolicyPriority :: string where "SortPolicyPriority = ''priority''"
definition SortPolicyHybrid :: string where "SortPolicyHybrid = ''hybrid''"

definition hours_48 :: int where "hours_48 = 48 * 3600 * 10 ^ 9"

definition priority_order :: "sql_env \<Rightarrow> issue_row \<Rightarrow> issue_row \<Rightarrow> bool" where
  "priority_order q a b = less_then (Priority a) (Priority b)
     (less_then (CreatedAtSortKey q b) (CreatedAtSortKey q a) (ID a < ID b))"

definition BuildReadyWorkOrder :: "sql_env \<Rightarrow> string \<Rightarrow> issue_row \<Rightarrow> issue_row \<Rightarrow> bool" where
  "BuildReadyWorkOrder q policy a b =
    (let key = CreatedAtSortKey q; cutoff = stored_text q (go_now q - hours_48);
         recent = (\<lambda>r. cutoff \<le> key r)
     in if policy = SortPolicyOldest then less_then (key a) (key b) (ID a < ID b)
        else if policy = SortPolicyPriority then priority_order q a b
        else if policy = SortPolicyHybrid \<or> policy = '''' then
          less_then (\<not> recent a) (\<not> recent b)
            (less_then (if recent a then Priority a else 999) (if recent b then Priority b else 999)
              (less_then (key a) (key b) (ID a < ID b)))
        else priority_order q a b)"

text \<open>\<^verbatim>\<open>SortDefs\<close>, \<^verbatim>\<open>OrderByDialect\<close>: the order of lists and searches.  NULL sorts first.\<close>

definition SortDefs_desc :: "string \<Rightarrow> bool option" where
  "SortDefs_desc k = (if k \<in> {'''', ''priority'', ''status'', ''type'', ''assignee'', ''title''} then Some False
     else if k \<in> {''created'', ''updated'', ''closed''} then Some True else None)"

definition option_text :: "(time \<Rightarrow> string) \<Rightarrow> time option \<Rightarrow> bool \<times> string" where
  "option_text f t = (case t of None \<Rightarrow> (False, '''') | Some v \<Rightarrow> (True, f v))"

definition sort_column :: "sql_env \<Rightarrow> string \<Rightarrow> issue_row \<Rightarrow> bool \<times> string" where
  "sort_column q k r =
    (if k = ''created'' then (True, CreatedAtSortKey q r)
     else if k = ''updated'' then (True, stored_text q (UpdatedAt r))
     else if k = ''closed'' then option_text (stored_text q) (ClosedAt r)
     else if k = ''status'' then (True, Status r)
     else if k = ''type'' then (True, IssueType r)
     else if k = ''assignee'' then (\<not> AssigneeNull r, Assignee r)
     else (True, to_lower (Title r)))"

definition directed :: "bool \<Rightarrow> 'a::linorder \<Rightarrow> 'a \<Rightarrow> bool \<Rightarrow> bool" where
  "directed desc a b rest = (if desc then less_then b a rest else less_then a b rest)"

text \<open>No clause at all for a key that is sorted in Go, and then the rows come as stored.\<close>

definition OrderBy :: "sql_env \<Rightarrow> string \<Rightarrow> bool \<Rightarrow> issue_row \<Rightarrow> issue_row \<Rightarrow> bool" where
  "OrderBy q sortBy sortDesc a b =
    (if sortBy = ''id'' then False
     else
      (let k = (if SortDefs_desc sortBy = None then '''' else sortBy);
           desc = (SortDefs_desc k = Some True) \<noteq> sortDesc
       in if k = '''' \<or> k = ''priority'' then
            directed desc (Priority a) (Priority b)
              (less_then (CreatedAtSortKey q b) (CreatedAtSortKey q a) (ID a < ID b))
          else directed desc (sort_column q k a) (sort_column q k b) (ID a < ID b)))"

subsection \<open>Issue filters\<close>

record issue_filter =
  f_Status :: "status option"
  f_Statuses :: "status list"
  f_Priority :: "int option"
  f_IssueType :: "issue_type option"
  f_Assignee :: "string option"
  f_Labels :: "string list"
  f_LabelsAny :: "string list"
  f_ExcludeLabels :: "string list"
  f_TitleSearch :: string
  f_IDs :: "string list"
  f_IDPrefix :: string
  f_SpecIDPrefix :: string
  f_Limit :: int
  f_TitleContains :: string
  f_DescriptionContains :: string
  f_NotesContains :: string
  f_ExternalRefContains :: string
  f_CreatedAfter :: "time option"
  f_CreatedBefore :: "time option"
  f_UpdatedAfter :: "time option"
  f_UpdatedBefore :: "time option"
  f_ClosedAfter :: "time option"
  f_ClosedBefore :: "time option"
  f_StartedAfter :: "time option"
  f_StartedBefore :: "time option"
  f_EmptyDescription :: bool
  f_NoAssignee :: bool
  f_NoLabels :: bool
  f_PriorityMin :: "int option"
  f_PriorityMax :: "int option"
  f_SourceRepo :: "string option"
  f_Ephemeral :: "bool option"
  f_Pinned :: "bool option"
  f_IsTemplate :: "bool option"
  f_ParentID :: "string option"
  f_NoParent :: bool
  f_MolType :: "string option"
  f_WispType :: "string option"
  f_ExcludeStatus :: "status list"
  f_ExcludeTypes :: "issue_type list"
  f_Deferred :: bool
  f_DeferAfter :: "time option"
  f_DeferBefore :: "time option"
  f_DueAfter :: "time option"
  f_DueBefore :: "time option"
  f_Overdue :: bool
  f_MetadataFields :: "(string \<times> string) list"
  f_HasMetadataKey :: string
  f_IncludeDependencies :: bool
  f_SkipLabels :: bool
  f_SkipWisps :: bool
  f_NoIDShrink :: bool
  f_SortBy :: string
  f_SortDesc :: bool

definition no_filter :: issue_filter where
  "no_filter = \<lparr>f_Status = None, f_Statuses = [], f_Priority = None, f_IssueType = None, f_Assignee = None,
     f_Labels = [], f_LabelsAny = [], f_ExcludeLabels = [], f_TitleSearch = '''', f_IDs = [], f_IDPrefix = '''',
     f_SpecIDPrefix = '''', f_Limit = 0, f_TitleContains = '''', f_DescriptionContains = '''', f_NotesContains = '''',
     f_ExternalRefContains = '''', f_CreatedAfter = None, f_CreatedBefore = None, f_UpdatedAfter = None,
     f_UpdatedBefore = None, f_ClosedAfter = None, f_ClosedBefore = None, f_StartedAfter = None, f_StartedBefore = None,
     f_EmptyDescription = False, f_NoAssignee = False, f_NoLabels = False, f_PriorityMin = None, f_PriorityMax = None,
     f_SourceRepo = None, f_Ephemeral = None, f_Pinned = None, f_IsTemplate = None, f_ParentID = None, f_NoParent = False,
     f_MolType = None, f_WispType = None, f_ExcludeStatus = [], f_ExcludeTypes = [], f_Deferred = False,
     f_DeferAfter = None, f_DeferBefore = None, f_DueAfter = None, f_DueBefore = None, f_Overdue = False,
     f_MetadataFields = [], f_HasMetadataKey = '''', f_IncludeDependencies = False, f_SkipLabels = False,
     f_SkipWisps = False, f_NoIDShrink = False, f_SortBy = '''', f_SortDesc = False\<rparr>"

definition LooksLikeIssueID :: "string \<Rightarrow> bool" where
  "LooksLikeIssueID t =
    (let before = takeWhile (\<lambda>c. c \<noteq> CHR ''-'') t
     in CHR ''-'' \<in> set t \<and> before \<noteq> [] \<and> length before < length t - 1 \<and>
        (\<forall>c\<in>set t. is_digit c \<or> is_lower c \<or> lower_char c \<noteq> c \<or> c = CHR ''-'' \<or> c = CHR ''.''))"

text \<open>\<^verbatim>\<open>^[a-zA-Z_][a-zA-Z0-9_.]*$\<close>\<close>

definition ValidateMetadataKey :: "string \<Rightarrow> bool" where
  "ValidateMetadataKey k = (case k of [] \<Rightarrow> False
     | c # cs \<Rightarrow> (is_lower c \<or> lower_char c \<noteq> c \<or> c = CHR ''_'') \<and>
         (\<forall>d\<in>set cs. is_lower d \<or> lower_char d \<noteq> d \<or> is_digit d \<or> d = CHR ''_'' \<or> d = CHR ''.''))"

definition when_set :: "'a option \<Rightarrow> ('a \<Rightarrow> bool) \<Rightarrow> bool" where
  "when_set v p = (case v of None \<Rightarrow> True | Some x \<Rightarrow> p x)"

definition contains_text :: "string \<Rightarrow> string \<Rightarrow> bool" where
  "contains_text needle t = (needle = '''' \<or> sql_like (''%'' @ to_lower needle @ ''%'') (to_lower t))"

text \<open>The free-text query of a search; a NULL \<^verbatim>\<open>external_ref\<close> never matches.\<close>

definition query_clause :: "string \<Rightarrow> issue_row \<Rightarrow> bool" where
  "query_clause query r =
    (let lowerQuery = to_lower query; pattern = ''%'' @ lowerQuery @ ''%''
     in query = '''' \<or>
       (if LooksLikeIssueID query then
          ID r = lowerQuery \<or> sql_like (lowerQuery @ ''%'') (ID r) \<or> sql_like pattern (to_lower (Title r)) \<or>
          (case ExternalRef r of None \<Rightarrow> False | Some t \<Rightarrow> sql_like pattern (to_lower t))
        else sql_like pattern (to_lower (Title r)) \<or> sql_like pattern (ID r)))"

text \<open>A column compared with a time of the filter, as text; a NULL column does not match.\<close>

definition time_clause :: "sql_env \<Rightarrow> time option \<Rightarrow> time option \<Rightarrow> time option \<Rightarrow> bool" where
  "time_clause q col after before =
    (when_set after (\<lambda>t. case col of None \<Rightarrow> False | Some v \<Rightarrow> stored_text q v > rfc3339 q t) \<and>
     when_set before (\<lambda>t. case col of None \<Rightarrow> False | Some v \<Rightarrow> stored_text q v < rfc3339 q t))"

definition has_parent_row :: "dep_row list \<Rightarrow> string \<Rightarrow> bool" where
  "has_parent_row deps x = (\<exists>d\<in>set deps. dtype d = DepParentChild \<and> issue_id d = x)"

definition child_clause :: "dep_row list \<Rightarrow> string \<Rightarrow> string \<Rightarrow> bool" where
  "child_clause deps parentID x =
    ((\<exists>d\<in>set deps. dtype d = DepParentChild \<and> dep_target d = Some parentID \<and> issue_id d = x) \<or>
     sql_like (parentID @ ''.%'') x \<and> \<not> has_parent_row deps x)"

definition label_clauses :: "(string \<times> string) list \<Rightarrow> string list \<Rightarrow> string list \<Rightarrow> string \<Rightarrow> bool" where
  "label_clauses labels all any x =
    ((\<forall>l\<in>set all. (x, l) \<in> set labels) \<and> (any = [] \<or> (\<exists>l\<in>set any. (x, l) \<in> set labels)))"

text \<open>\<^verbatim>\<open>BuildLabelDrivenSearch\<close>: joins instead of subqueries, unless all labels are empty strings.\<close>

definition BuildLabelDrivenSearch :: "(string \<times> string) list \<Rightarrow> string list \<Rightarrow> string list \<Rightarrow> string \<Rightarrow> bool" where
  "BuildLabelDrivenSearch labels all any x =
    (let compact = filter (\<lambda>l. l \<noteq> '''')
     in if compact all = [] \<and> compact any = [] then label_clauses labels all any x
        else label_clauses labels (compact all) (compact any) x)"

definition AppendMetadataClauses :: "sql_env \<Rightarrow> string \<Rightarrow> (string \<times> string) list \<Rightarrow> store_error + (string \<Rightarrow> bool)" where
  "AppendMetadataClauses q hasKey kvs =
    (if hasKey \<noteq> '''' \<and> \<not> ValidateMetadataKey hasKey then Inl (OpFailed ''invalid metadata key'')
     else if \<exists>f\<in>set kvs. \<not> ValidateMetadataKey (fst f) then Inl (OpFailed ''invalid metadata key'')
     else Inr (\<lambda>meta. (hasKey = '''' \<or> json_has q meta hasKey) \<and> (\<forall>(k, v)\<in>set kvs. json_is q meta k v)))"

text \<open>\<^verbatim>\<open>BuildIssueFilterClausesDialect\<close> for a table family, with the label plan of the caller.\<close>

definition issue_clauses :: "sql_env \<Rightarrow> string \<Rightarrow> issue_filter \<Rightarrow> bool \<Rightarrow> db \<Rightarrow> issue_row \<Rightarrow> bool" where
  "issue_clauses q query f w s r =
    (query_clause query r \<and>
     contains_text (f_TitleSearch f) (Title r) \<and> contains_text (f_TitleContains f) (Title r) \<and>
     contains_text (f_DescriptionContains f) (Description r) \<and> contains_text (f_NotesContains f) (Notes r) \<and>
     (f_ExternalRefContains f = '''' \<or>
       (case ExternalRef r of None \<Rightarrow> False | Some t \<Rightarrow> contains_text (f_ExternalRefContains f) t)) \<and>
     when_set (f_Status f) (\<lambda>v. Status r = v) \<and>
     (f_Statuses f = [] \<or> Status r \<in> set (f_Statuses f)) \<and>
     Status r \<notin> set (f_ExcludeStatus f) \<and>
     when_set (f_IssueType f) (\<lambda>v. IssueType r = v) \<and>
     IssueType r \<notin> set (f_ExcludeTypes f) \<and>
     when_set (f_Assignee f) (\<lambda>v. \<not> AssigneeNull r \<and> Assignee r = v) \<and>
     when_set (f_Priority f) (\<lambda>v. Priority r = v) \<and>
     when_set (f_PriorityMin f) (\<lambda>v. v \<le> Priority r) \<and> when_set (f_PriorityMax f) (\<lambda>v. Priority r \<le> v) \<and>
     (f_IDs f = [] \<or> ID r \<in> set (f_IDs f)) \<and>
     (f_IDPrefix f = '''' \<or> sql_like (f_IDPrefix f @ ''%'') (ID r)) \<and>
     (f_SpecIDPrefix f = '''' \<or> sql_like (f_SpecIDPrefix f @ ''%'') (SpecID r)) \<and>
     when_set (f_ParentID f) (\<lambda>p. child_clause (dep_table w s) p (ID r)) \<and>
     (f_NoParent f \<longrightarrow> \<not> has_parent_row (dep_table w s) (ID r)) \<and>
     when_set (f_MolType f) (\<lambda>v. MolType r = v) \<and> when_set (f_WispType f) (\<lambda>v. WispType r = v) \<and>
     BuildLabelDrivenSearch (label_table w s) (f_Labels f) (f_LabelsAny f) (ID r) \<and>
     (\<forall>l\<in>set (f_ExcludeLabels f). (ID r, l) \<notin> set (label_table w s)) \<and>
     (f_NoLabels f \<longrightarrow> ID r \<notin> fst ` set (label_table w s)) \<and>
     when_set (f_Pinned f) (\<lambda>v. Pinned r = v) \<and>
     when_set (f_SourceRepo f) (\<lambda>v. SourceRepo r = v) \<and>
     when_set (f_Ephemeral f) (\<lambda>v. Ephemeral r = v) \<and> when_set (f_IsTemplate f) (\<lambda>v. IsTemplate r = v) \<and>
     (f_EmptyDescription f \<longrightarrow> Description r = '''') \<and>
     (f_NoAssignee f \<longrightarrow> AssigneeNull r \<or> Assignee r = '''') \<and>
     time_clause q (Some (CreatedAt r)) (f_CreatedAfter f) (f_CreatedBefore f) \<and>
     time_clause q (Some (UpdatedAt r)) (f_UpdatedAfter f) (f_UpdatedBefore f) \<and>
     time_clause q (ClosedAt r) (f_ClosedAfter f) (f_ClosedBefore f) \<and>
     time_clause q (StartedAt r) (f_StartedAfter f) (f_StartedBefore f) \<and>
     time_clause q (DeferUntil r) (f_DeferAfter f) (f_DeferBefore f) \<and>
     time_clause q (DueAt r) (f_DueAfter f) (f_DueBefore f) \<and>
     (f_Deferred f \<longrightarrow> DeferUntil r \<noteq> None \<or> Status r = StatusDeferred) \<and>
     (f_Overdue f \<longrightarrow> Status r \<noteq> StatusClosed \<and>
        (case DueAt r of None \<Rightarrow> False | Some v \<Rightarrow> stored_text q v < rfc3339 q (go_now q))))"

definition BuildIssueFilterClauses ::
  "sql_env \<Rightarrow> string \<Rightarrow> issue_filter \<Rightarrow> bool \<Rightarrow> db \<Rightarrow> store_error + (issue_row \<Rightarrow> bool)" where
  "BuildIssueFilterClauses q query f w s =
     bind_res (AppendMetadataClauses q (f_HasMetadataKey f) (f_MetadataFields f))
       (\<lambda>meta. Inr (\<lambda>r. issue_clauses q query f w s r \<and> meta (Metadata r)))"

definition WispFilterToIssueFilter ::
  "issue_type option \<Rightarrow> status option \<Rightarrow> time option \<Rightarrow> time option \<Rightarrow> bool \<Rightarrow> int \<Rightarrow> issue_filter" where
  "WispFilterToIssueFilter ty st updatedAfter updatedBefore includeClosed lim =
     no_filter\<lparr>f_Ephemeral := Some True, f_IssueType := ty, f_Status := st, f_UpdatedAfter := updatedAfter,
       f_UpdatedBefore := updatedBefore, f_Limit := lim,
       f_ExcludeStatus := (if \<not> includeClosed \<and> st = None then [StatusClosed] else [])\<rparr>"

subsection \<open>Search\<close>

text \<open>\<^verbatim>\<open>hydrateIssues\<close>; the error is a dependency row without a target.\<close>

definition hydrateIssues :: "db \<Rightarrow> bool \<Rightarrow> bool \<Rightarrow> bool \<Rightarrow> issue_row list \<Rightarrow> store_error + issue_row list" where
  "hydrateIssues s w includeDeps skipLabels issues =
    (if issues = [] then Inr []
     else
      (let labelMap = GetLabelsForIssuesFromTable (label_table w s) (map ID issues);
           labelled = (if skipLabels then issues
             else map (\<lambda>r. case labelMap (ID r) of Some ls \<Rightarrow> r\<lparr>Labels := ls\<rparr> | None \<Rightarrow> r) issues)
       in if includeDeps then
            bind_res (GetDependencyRecordsForIssuesFromTable (dep_table w s) (map ID issues))
              (\<lambda>depMap. Inr (map (\<lambda>r. case depMap (ID r) of Some ds \<Rightarrow> r\<lparr>Dependencies := ds\<rparr> | None \<Rightarrow> r) labelled))
          else Inr labelled))"

text \<open>
  \<^verbatim>\<open>searchTableInTxDialect\<close>.  With a limit (pattern B) the ids are scanned first and the
  rows fetched by id and put back in order; without one (pattern A) the rows are
  scanned.  The id is the primary key of both tables, so the map of seen ids of the
  code drops nothing.
\<close>

definition searchTable :: "sql_env \<Rightarrow> string \<Rightarrow> issue_filter \<Rightarrow> bool \<Rightarrow> db \<Rightarrow> store_error + issue_row list" where
  "searchTable q query f w s =
     bind_res (BuildIssueFilterClauses q query f w s) (\<lambda>p.
       let rows = sort_by (OrderBy q (f_SortBy f) (f_SortDesc f)) (filter p (issue_table w s))
       in if 0 < f_Limit f \<and> \<not> f_NoIDShrink f then
            (let ids = limit_to (f_Limit f) (map ID rows)
             in hydrateIssues s w (f_IncludeDependencies f) (f_SkipLabels f)
                  (in_order (filter (\<lambda>r. ID r \<in> set ids) (issue_table w s)) ids))
          else hydrateIssues s w (f_IncludeDependencies f) (f_SkipLabels f) (limit_to (f_Limit f) rows))"

definition SearchIssues :: "sql_env \<Rightarrow> string \<Rightarrow> issue_filter \<Rightarrow> db \<Rightarrow> store_error + issue_row list" where
  "SearchIssues q query f s =
     bind_res (if f_Ephemeral f = Some True then searchTable q query f True s else Inr [])
       (\<lambda>wisps. if wisps \<noteq> [] then Inr wisps
         else bind_res (searchTable q query f False s) (\<lambda>results.
           if f_SkipWisps f \<or> f_Ephemeral f = Some True \<or> t_wisps s = [] then Inr results
           else bind_res (searchTable q query f True s) (\<lambda>wispResults.
             Inr (if wispResults = [] then results
                  else filter (\<lambda>r. ID r \<notin> ID ` set wispResults) results @ wispResults))))"

end
