(* ===== verification/ReadyWork.thy ===== *)
theory ReadyWork
  imports Filters Lifecycle
begin

text \<open>
  Ready work: \<^verbatim>\<open>internal/storage/issueops/ready_work.go\<close>, the WHERE clause of
  \<^verbatim>\<open>sqlbuild/ready.go\<close>, \<^verbatim>\<open>claimReadyIssueInTx\<close> of \<^verbatim>\<open>claim.go\<close> and the statistics of the
  doltlite store.  \<^verbatim>\<open>now\<close> of the Go side is \<^verbatim>\<open>go_now\<close> of the SQL environment.
\<close>

record work_filter =
  w_Status :: status
  w_Type :: issue_type
  w_Priority :: "int option"
  w_Assignee :: "string option"
  w_Unassigned :: bool
  w_Labels :: "string list"
  w_LabelsAny :: "string list"
  w_ExcludeLabels :: "string list"
  w_Limit :: int
  w_SortPolicy :: string
  w_ParentID :: "string option"
  w_MoleculeID :: string
  w_MolType :: "string option"
  w_WispType :: "string option"
  w_IncludeDeferred :: bool
  w_IncludeEphemeral :: bool
  w_ExcludeTypes :: "issue_type list"
  w_MetadataFields :: "(string \<times> string) list"
  w_HasMetadataKey :: string

definition all_work :: work_filter where
  "all_work = \<lparr>w_Status = '''', w_Type = '''', w_Priority = None, w_Assignee = None, w_Unassigned = False,
     w_Labels = [], w_LabelsAny = [], w_ExcludeLabels = [], w_Limit = 0, w_SortPolicy = '''', w_ParentID = None,
     w_MoleculeID = '''', w_MolType = None, w_WispType = None, w_IncludeDeferred = False, w_IncludeEphemeral = False,
     w_ExcludeTypes = [], w_MetadataFields = [], w_HasMetadataKey = ''''\<rparr>"

subsection \<open>Conditions\<close>

definition ReadyWorkExcludeTypes :: "issue_type list \<Rightarrow> issue_type list" where
  "ReadyWorkExcludeTypes extra =
    (let out = [''merge-request'', TypeGate, TypeMolecule, ''rig''] @ DefaultInfraTypes
     in out @ dedup_from out (filter (\<lambda>t. t \<noteq> '''') extra))"

text \<open>\<^verbatim>\<open>defer_until > CURRENT_TIMESTAMP\<close>, a comparison of texts.\<close>

definition deferred_sql :: "sql_env \<Rightarrow> issue_row \<Rightarrow> bool" where
  "deferred_sql q r = (case DeferUntil r of None \<Rightarrow> False | Some t \<Rightarrow> stored_text q t > current_ts q)"

text \<open>The order of the list does not matter: it is only searched.\<close>

definition getChildrenOfDeferredParents :: "sql_env \<Rightarrow> db \<Rightarrow> string list" where
  "getChildrenOfDeferredParents q s =
    (if \<not> (\<exists>r\<in>set (t_issues s). deferred_sql q r) \<and> \<not> (\<exists>r\<in>set (t_wisps s). deferred_sql q r) then []
     else concat (map (\<lambda>dw. concat (map (\<lambda>iw. concat (map (\<lambda>d. map (\<lambda>p. issue_id d)
         (filter (\<lambda>p. targets d iw (ID p) \<and> dtype d = DepParentChild \<and> deferred_sql q p) (issue_table iw s)))
         (dep_table dw s))) [False, True])) [False, True]))"

definition getParentedIDSet :: "db \<Rightarrow> string list \<Rightarrow> string set" where
  "getParentedIDSet s ids = {x \<in> set ids. has_parent_row (t_deps s) x \<or> has_parent_row (t_wisp_deps s) x}"

text \<open>\<^verbatim>\<open>BuildReadyWorkWhere\<close> on the table of permanent issues.\<close>

definition ready_where ::
  "sql_env \<Rightarrow> work_filter \<Rightarrow> db \<Rightarrow> string list \<Rightarrow> string list \<Rightarrow> issue_row \<Rightarrow> bool" where
  "ready_where q f s deferredChildIDs descendants r =
    ((if w_Status f \<noteq> '''' then Status r = w_Status f else Status r = StatusOpen \<or> Status r = StatusInProgress) \<and>
     \<not> Pinned r \<and> \<not> IsBlocked r \<and>
     (w_IncludeEphemeral f \<or> \<not> Ephemeral r) \<and>
     when_set (w_Priority f) (\<lambda>v. Priority r = v) \<and>
     (if w_Type f \<noteq> '''' then IssueType r = w_Type f else IssueType r \<notin> set (ReadyWorkExcludeTypes (w_ExcludeTypes f))) \<and>
     (if w_Unassigned f then AssigneeNull r \<or> Assignee r = ''''
      else when_set (w_Assignee f) (\<lambda>v. \<not> AssigneeNull r \<and> Assignee r = v)) \<and>
     (w_IncludeDeferred f \<or> \<not> deferred_sql q r \<and> ID r \<notin> set deferredChildIDs) \<and>
     (\<forall>l\<in>set (w_Labels f). (ID r, l) \<in> set (t_labels s)) \<and>
     (\<forall>l\<in>set (w_ExcludeLabels f). (ID r, l) \<notin> set (t_labels s)) \<and>
     when_set (w_ParentID f) (\<lambda>p. sql_like (p @ ''.%'') (ID r) \<and> \<not> has_parent_row (t_deps s) (ID r) \<or>
       ID r \<in> set descendants) \<and>
     (w_MoleculeID f = '''' \<or> child_clause (t_deps s) (w_MoleculeID f) (ID r)))"

definition parent_descendants :: "db \<Rightarrow> work_filter \<Rightarrow> store_error + string list" where
  "parent_descendants s f = (case w_ParentID f of None \<Rightarrow> Inr [] | Some p \<Rightarrow> GetDescendantIDs s p 0)"

definition deferred_children :: "sql_env \<Rightarrow> db \<Rightarrow> work_filter \<Rightarrow> string list" where
  "deferred_children q s f = (if w_IncludeDeferred f then [] else getChildrenOfDeferredParents q s)"

definition BuildReadyWorkWhere :: "sql_env \<Rightarrow> work_filter \<Rightarrow> db \<Rightarrow> store_error + (issue_row \<Rightarrow> bool)" where
  "BuildReadyWorkWhere q f s =
     bind_res (parent_descendants s f) (\<lambda>descendants.
       bind_res (AppendMetadataClauses q (w_HasMetadataKey f) (w_MetadataFields f)) (\<lambda>meta.
         Inr (\<lambda>r. ready_where q f s (deferred_children q s f) descendants r \<and> meta (Metadata r))))"

subsection \<open>Wisps\<close>

definition readyWorkWispIssueFilter :: "work_filter \<Rightarrow> issue_filter" where
  "readyWorkWispIssueFilter f = no_filter
     \<lparr>f_Priority := w_Priority f, f_Labels := w_Labels f, f_LabelsAny := w_LabelsAny f,
      f_ExcludeLabels := w_ExcludeLabels f, f_Limit := w_Limit f, f_MolType := w_MolType f,
      f_WispType := w_WispType f, f_Pinned := Some False, f_MetadataFields := w_MetadataFields f,
      f_HasMetadataKey := w_HasMetadataKey f,
      f_Status := (if w_Status f \<noteq> '''' then Some (w_Status f) else None),
      f_Statuses := (if w_Status f \<noteq> '''' then [] else [StatusOpen, StatusInProgress]),
      f_IssueType := (if w_Type f \<noteq> '''' then Some (w_Type f) else None),
      f_ExcludeTypes := (if w_Type f \<noteq> '''' then [] else ReadyWorkExcludeTypes (w_ExcludeTypes f)),
      f_NoAssignee := w_Unassigned f,
      f_Assignee := (if w_Unassigned f then None else w_Assignee f),
      f_ParentID := (if w_MoleculeID f \<noteq> '''' then Some (w_MoleculeID f) else None),
      f_Ephemeral := (if w_IncludeEphemeral f then None else Some False)\<rparr>"

definition filterReadyWisps ::
  "sql_env \<Rightarrow> work_filter \<Rightarrow> string list \<Rightarrow> db \<Rightarrow> issue_row list \<Rightarrow> store_error + issue_row list" where
  "filterReadyWisps q f deferredChildIDs s wisps =
    (if wisps = [] then Inr []
     else bind_res (parent_descendants s f) (\<lambda>descendants.
       let parented = getParentedIDSet s (map ID wisps);
           outside = (\<lambda>r. \<not> when_set (w_ParentID f) (\<lambda>p. ID r \<in> set descendants \<or>
             has_prefix (ID r) (p @ ''.'') \<and> ID r \<notin> parented));
           deferred = (\<lambda>r. \<not> w_IncludeDeferred f \<and>
             ((case DeferUntil r of None \<Rightarrow> False | Some t \<Rightarrow> t > go_now q) \<or> ID r \<in> set deferredChildIDs));
           blocked = (\<lambda>r. \<exists>t\<in>set (t_wisps s). ID t = ID r \<and> IsBlocked t)
       in Inr (filter (\<lambda>r. \<not> Pinned r \<and> \<not> outside r \<and> \<not> deferred r \<and> \<not> blocked r) wisps)))"

definition readyWorkPageSize :: "int \<Rightarrow> nat" where
  "readyWorkPageSize n = (if n \<le> 0 then 0 else if n < 100 then 100 else nat n)"

text \<open>The pages of the id query, in order; the loop stops when enough are ready or a page is short.\<close>

fun ready_pages ::
  "(string list \<Rightarrow> store_error + issue_row list) \<Rightarrow> nat \<Rightarrow> nat \<Rightarrow> string list list \<Rightarrow> issue_row list \<Rightarrow>
   store_error + issue_row list" where
  "ready_pages fetch pageSize n [] ready = Inr ready"
| "ready_pages fetch pageSize n (page # pages) ready =
    (if n \<le> length ready then Inr ready
     else bind_res (fetch page) (\<lambda>pageReady.
       let ready' = take n (ready @ pageReady)
       in if length page < pageSize then Inr ready' else ready_pages fetch pageSize n pages ready'))"

definition queryReadyWispIDs :: "sql_env \<Rightarrow> work_filter \<Rightarrow> db \<Rightarrow> store_error + string list" where
  "queryReadyWispIDs q f s =
     bind_res (BuildIssueFilterClauses q '''' (readyWorkWispIssueFilter f) True s) (\<lambda>p.
       Inr (map ID (sort_by (BuildReadyWorkOrder q (w_SortPolicy f))
         (filter (\<lambda>r. p r \<and> (w_IncludeDeferred f \<or> \<not> deferred_sql q r)) (t_wisps s)))))"

definition getReadyWisps :: "sql_env \<Rightarrow> work_filter \<Rightarrow> string list \<Rightarrow> db \<Rightarrow> store_error + issue_row list" where
  "getReadyWisps q f deferredChildIDs s =
    (if t_wisps s = [] then Inr []
     else if w_Limit f \<le> 0 then
       bind_res (searchTable q '''' ((readyWorkWispIssueFilter f)\<lparr>f_Limit := 0\<rparr>) True s)
         (filterReadyWisps q f deferredChildIDs s)
     else bind_res (queryReadyWispIDs q f s) (\<lambda>ids.
       ready_pages
         (\<lambda>page. filterReadyWisps q f deferredChildIDs s (in_order (GetIssuesByIDs s page (Some (set page))) page))
         (readyWorkPageSize (w_Limit f)) (nat (w_Limit f)) (chunks (readyWorkPageSize (w_Limit f)) ids) []))"

subsection \<open>Order and merge\<close>

definition issueCreatedBefore :: "issue_row \<Rightarrow> issue_row \<Rightarrow> bool" where
  "issueCreatedBefore a b = less_then (CreatedAt a) (CreatedAt b) (ID a < ID b)"

definition issuePriorityBefore :: "issue_row \<Rightarrow> issue_row \<Rightarrow> bool" where
  "issuePriorityBefore a b = less_then (Priority a) (Priority b)
     (less_then (CreatedAt b) (CreatedAt a) (ID a < ID b))"

definition readyBefore :: "sql_env \<Rightarrow> string \<Rightarrow> issue_row \<Rightarrow> issue_row \<Rightarrow> bool" where
  "readyBefore q policy a b =
    (let recent = (\<lambda>r. go_now q - hours_48 \<le> CreatedAt r)
     in if policy = SortPolicyOldest then issueCreatedBefore a b
        else if policy = SortPolicyPriority then issuePriorityBefore a b
        else if policy = SortPolicyHybrid \<or> policy = '''' then
          (if recent a \<noteq> recent b then recent a
           else if recent a \<and> Priority a \<noteq> Priority b then Priority a < Priority b
           else issueCreatedBefore a b)
        else issuePriorityBefore a b)"

definition sortReadyIssues :: "sql_env \<Rightarrow> string \<Rightarrow> issue_row list \<Rightarrow> issue_row list" where
  "sortReadyIssues q policy issues = sort_by (readyBefore q policy) issues"

definition mergeReadyWisps :: "sql_env \<Rightarrow> work_filter \<Rightarrow> issue_row list \<Rightarrow> issue_row list \<Rightarrow> issue_row list" where
  "mergeReadyWisps q f ordered wisps =
     limit_to (w_Limit f) (sortReadyIssues q (w_SortPolicy f)
       (filter (\<lambda>r. ID r \<notin> ID ` set wisps) ordered @ wisps))"

definition GetReadyWork :: "sql_env \<Rightarrow> work_filter \<Rightarrow> db \<Rightarrow> store_error + issue_row list" where
  "GetReadyWork q f s =
     bind_res (BuildReadyWorkWhere q f s) (\<lambda>p.
       let issueIDs = limit_to (w_Limit f)
             (map ID (sort_by (BuildReadyWorkOrder q (w_SortPolicy f)) (filter p (t_issues s))));
           ordered = in_order (GetIssuesByIDs s issueIDs None) issueIDs
       in bind_res (getReadyWisps q f (deferred_children q s f) s) (\<lambda>wisps.
         Inr (if wisps = [] then ordered else mergeReadyWisps q f ordered wisps)))"

subsection \<open>Claiming ready work\<close>

fun claim_first :: "env \<Rightarrow> string \<Rightarrow> issue_row list \<Rightarrow> db \<Rightarrow> store_error + (issue_row option \<times> db)" where
  "claim_first e actor [] s = Inr (None, s)"
| "claim_first e actor (r # rs) s =
    (case ClaimIssue e (ID r) actor s of
       Inl (AlreadyClaimed a) \<Rightarrow> claim_first e actor rs s
     | Inl (NotClaimable x st) \<Rightarrow> claim_first e actor rs s
     | Inl err \<Rightarrow> Inl err
     | Inr (res, s1) \<Rightarrow> bind_res (GetIssue s1 (ID r)) (\<lambda>claimed. Inr (Some claimed, s1)))"

definition claim_filter :: "work_filter \<Rightarrow> work_filter" where
  "claim_filter f = f\<lparr>w_Status := StatusOpen, w_Unassigned := True, w_Assignee := None, w_Limit := 0\<rparr>"

definition ClaimReadyIssue ::
  "env \<Rightarrow> sql_env \<Rightarrow> work_filter \<Rightarrow> string \<Rightarrow> db \<Rightarrow> store_error + (issue_row option \<times> db)" where
  "ClaimReadyIssue e q f actor s =
     bind_res (GetReadyWork q (claim_filter f) s) (\<lambda>readyIssues. claim_first e actor readyIssues s)"

subsection \<open>Statistics\<close>

text \<open>
  \<^verbatim>\<open>ScanIssueCountsInTx\<close> and \<^verbatim>\<open>GetStatistics\<close>; the two fields of \<^verbatim>\<open>types.Statistics\<close> that
  this store never sets are left out.
\<close>

record statistics =
  TotalIssues :: nat
  OpenIssues :: nat
  InProgressIssues :: nat
  ClosedIssues :: nat
  DeferredIssues :: nat
  PinnedIssues :: nat
  BlockedIssues :: nat
  ReadyIssues :: nat

definition GetStatistics :: "db \<Rightarrow> statistics" where
  "GetStatistics s =
    (let rows = t_issues s; count = (\<lambda>p. length (filter p rows));
         opened = count (\<lambda>r. Status r = StatusOpen);
         blocked = count (\<lambda>r. IsBlocked r \<and> Status r \<noteq> StatusClosed \<and> Status r \<noteq> StatusPinned)
     in \<lparr>TotalIssues = length rows, OpenIssues = opened, InProgressIssues = count (\<lambda>r. Status r = StatusInProgress),
         ClosedIssues = count (\<lambda>r. Status r = StatusClosed), DeferredIssues = count (\<lambda>r. Status r = StatusDeferred),
         PinnedIssues = count Pinned, BlockedIssues = blocked,
         ReadyIssues = opened - blocked\<rparr>)"

end
