(* ===== verification/ReadyThms.thy ===== *)
theory ReadyThms
  imports ReadyWork ReadersThms "HOL-Library.Multiset"
begin

text \<open>
  Ready work against its specification: which issues are returned, that none of them
  is blocked, the order and the limit, and the claim of the first one.
\<close>

subsection \<open>Sorting\<close>

definition weak_order :: "('a \<Rightarrow> 'a \<Rightarrow> bool) \<Rightarrow> bool" where
  "weak_order lt = ((\<forall>a b. lt a b \<longrightarrow> \<not> lt b a) \<and> (\<forall>a b c. \<not> lt b a \<longrightarrow> \<not> lt c b \<longrightarrow> \<not> lt c a))"

lemma weak_order_less: "weak_order (\<lambda>a b. f a < (f b :: 'b::linorder))"
  unfolding weak_order_def by (metis not_less order_trans less_imp_not_less)

lemma weak_order_then:
  assumes "weak_order rest"
  shows "weak_order (\<lambda>a b. less_then (f a :: 'b::linorder) (f b) (rest a b))"
    "weak_order (\<lambda>a b. less_then (f b :: 'b::linorder) (f a) (rest a b))"
proof -
  have a: "less_then x y R \<Longrightarrow> (R \<Longrightarrow> \<not> R') \<Longrightarrow> \<not> less_then y x R'" for x y :: 'b and R R'
    by (auto simp: less_then_def)
  have t: "\<not> less_then y x R \<Longrightarrow> \<not> less_then z y R' \<Longrightarrow> (\<not> R \<Longrightarrow> \<not> R' \<Longrightarrow> \<not> R'') \<Longrightarrow> \<not> less_then z x R''"
    for x y z :: 'b and R R' R''
    unfolding less_then_def by (cases x y rule: linorder_cases; cases y z rule: linorder_cases) auto
  have r: "rest x y \<Longrightarrow> \<not> rest y x" "\<not> rest y x \<Longrightarrow> \<not> rest z y \<Longrightarrow> \<not> rest z x" for x y z
    using assms unfolding weak_order_def by blast+
  show "weak_order (\<lambda>a b. less_then (f a) (f b) (rest a b))"
    unfolding weak_order_def
  proof (intro conjI allI impI)
    fix x y assume "less_then (f x) (f y) (rest x y)"
    then show "\<not> less_then (f y) (f x) (rest y x)" by (rule a) (rule r(1))
  next
    fix x y z assume "\<not> less_then (f y) (f x) (rest y x)" "\<not> less_then (f z) (f y) (rest z y)"
    then show "\<not> less_then (f z) (f x) (rest z x)" using t[of "f y" "f x" "rest y x" "f z" "rest z y" "rest z x"] r(2) by blast
  qed
  show "weak_order (\<lambda>a b. less_then (f b) (f a) (rest a b))"
    unfolding weak_order_def
  proof (intro conjI allI impI)
    fix x y assume "less_then (f y) (f x) (rest x y)"
    then show "\<not> less_then (f x) (f y) (rest y x)" by (rule a) (rule r(1))
  next
    fix x y z assume "\<not> less_then (f x) (f y) (rest y x)" "\<not> less_then (f y) (f z) (rest z y)"
    then show "\<not> less_then (f x) (f z) (rest z x)" using t[of "f y" "f z" "rest z y" "f x" "rest y x" "rest z x"] r(2) by blast
  qed
qed

lemma mset_insert_by [simp]: "mset (insert_by lt x xs) = add_mset x (mset xs)"
  by (induction xs) auto

lemma mset_sort_by [simp]: "mset (sort_by lt xs) = mset xs"
  by (induction xs) (simp_all add: sort_by_def)

lemma set_sort_by [simp]: "set (sort_by lt xs) = set xs"
  by (metis mset_sort_by set_mset_mset)

lemma sorted_insert_by:
  assumes "weak_order lt" "sorted_wrt (\<lambda>a b. \<not> lt b a) xs"
  shows "sorted_wrt (\<lambda>a b. \<not> lt b a) (insert_by lt x xs)"
  using assms(2)
proof (induction xs)
  case (Cons y ys)
  have s: "set (insert_by lt x ys) = insert x (set ys)"
    by (induction ys) auto
  show ?case
  proof (cases "lt y x")
    case True
    then have "\<not> lt x y" using assms(1) unfolding weak_order_def by blast
    then show ?thesis using Cons s True by simp
  next
    case False
    have tr: "\<not> lt b a \<Longrightarrow> \<not> lt c b \<Longrightarrow> \<not> lt c a" for a b c
      using assms(1) unfolding weak_order_def by blast
    have "\<not> lt z x" if "z \<in> set ys" for z
      using tr[OF False, of z] Cons.prems that by simp
    then show ?thesis using False Cons.prems by simp
  qed
qed simp

lemma sorted_sort_by: "weak_order lt \<Longrightarrow> sorted_wrt (\<lambda>a b. \<not> lt b a) (sort_by lt xs)"
  by (induction xs) (simp_all add: sort_by_def sorted_insert_by)

lemma ready_order_weak: "weak_order (BuildReadyWorkOrder q policy)"
proof -
  have p: "weak_order (priority_order q)"
    unfolding priority_order_def by (intro weak_order_then weak_order_less)
  have o: "weak_order (\<lambda>a b. less_then (CreatedAtSortKey q a) (CreatedAtSortKey q b) (ID a < ID b))"
    by (intro weak_order_then weak_order_less)
  have h: "weak_order (\<lambda>a b. less_then (\<not> recent a) (\<not> recent b)
      (less_then (if recent a then Priority a else 999) (if recent b then Priority b else 999)
        (less_then (CreatedAtSortKey q a) (CreatedAtSortKey q b) (ID a < ID b))))" for recent :: "issue_row \<Rightarrow> bool"
    by (intro weak_order_then weak_order_less)
  show ?thesis
    using p o h[of "\<lambda>r. stored_text q (go_now q - hours_48) \<le> CreatedAtSortKey q r"]
    by (cases "policy = SortPolicyOldest"; cases "policy = SortPolicyPriority"; cases "policy = SortPolicyHybrid \<or> policy = ''''")
      (simp_all add: BuildReadyWorkOrder_def[abs_def] Let_def)
qed

lemma distinct_sort_by: "distinct (map f xs) \<Longrightarrow> distinct (map f (sort_by lt xs))"
  by (metis mset_sort_by mset_map mset_eq_imp_distinct_iff)

subsection \<open>Rows of the result\<close>

definition relabelled :: "issue_row \<Rightarrow> issue_row \<Rightarrow> bool" where
  "relabelled t r = (\<exists>ls. r = t\<lparr>Labels := ls\<rparr>)"

lemma relabelled_same:
  assumes "relabelled t r"
  shows "ID r = ID t" "Status r = Status t" "Pinned r = Pinned t" "Assignee r = Assignee t" "DeferUntil r = DeferUntil t"
    "Priority r = Priority t" "CreatedAt r = CreatedAt t" "IsBlocked r = IsBlocked t" "AssigneeNull r = AssigneeNull t"
    "Ephemeral r = Ephemeral t" "IssueType r = IssueType t"
  using assms by (auto simp: relabelled_def)

lemma relabelled_hydrate: "relabelled t (hydrate_labels l t)"
  by (auto simp: relabelled_def hydrate_labels_def)

lemma in_order_set: "r \<in> set (in_order rows ids) \<longleftrightarrow> (\<exists>x\<in>set ids. by_id rows x = Some r)"
  by (simp add: in_order_def set_map_filter)

lemma fetched_issue:
  assumes "wf_db s" "routed s" "r \<in> set (t_issues s)"
  shows "fetched s (ID r) = Some (hydrate_labels (t_labels s) r)"
proof -
  have "select_row (ID r) (t_wisps s) = None"
    using routedD(1)[OF assms(2), of r False] assms(3) by (auto simp: select_row_None issue_table_def)
  moreover have "select_row (ID r) (t_issues s) = Some r"
    using select_row_distinct[OF wf_db_table[OF assms(1), of False], of r] assms(3) by (simp add: issue_table_def)
  ultimately show ?thesis by (simp add: fetched_def)
qed

text \<open>The permanent part of the answer, for a list of ids of permanent rows.\<close>

lemma ordered_rows:
  assumes "wf_db s" "routed s" "set rows \<subseteq> set (t_issues s)"
  shows "in_order (GetIssuesByIDs s (map ID rows) None) (map ID rows) = map (hydrate_labels (t_labels s)) rows"
proof -
  have "by_id (GetIssuesByIDs s (map ID rows) None) (ID r) = Some (hydrate_labels (t_labels s) r)" if "r \<in> set rows" for r
    using GetIssuesByIDs_exact[OF assms(1)] fetched_issue[OF assms(1,2)] assms(3) that by auto
  then have "List.map_filter (by_id (GetIssuesByIDs s (map ID rows) None)) (map ID rs) = map (hydrate_labels (t_labels s)) rs"
    if "set rs \<subseteq> set rows" for rs
    using that by (induction rs) (simp_all add: List.map_filter_simps)
  then show ?thesis by (simp add: in_order_def)
qed

lemma descendants_ok: "\<exists>ds. parent_descendants s f = Inr ds"
  by (auto simp: parent_descendants_def GetDescendantIDs_def Let_def split: option.splits)

definition descendants_of :: "db \<Rightarrow> work_filter \<Rightarrow> string list" where
  "descendants_of s f = (case parent_descendants s f of Inr ds \<Rightarrow> ds | Inl _ \<Rightarrow> [])"

lemma parent_descendants_Inr: "parent_descendants s f = Inr (descendants_of s f)"
  using descendants_ok[of s f] by (auto simp: descendants_of_def)

definition wisp_pred :: "sql_env \<Rightarrow> work_filter \<Rightarrow> string list \<Rightarrow> db \<Rightarrow> issue_row \<Rightarrow> bool" where
  "wisp_pred q f dc s r = (\<not> Pinned r \<and>
     when_set (w_ParentID f) (\<lambda>p. ID r \<in> set (descendants_of s f) \<or>
        has_prefix (ID r) (p @ ''.'') \<and> \<not> has_parent_row (t_deps s) (ID r) \<and> \<not> has_parent_row (t_wisp_deps s) (ID r)) \<and>
     (w_IncludeDeferred f \<or> \<not> (case DeferUntil r of None \<Rightarrow> False | Some t \<Rightarrow> t > go_now q) \<and> ID r \<notin> set dc) \<and>
     \<not> (\<exists>t\<in>set (t_wisps s). ID t = ID r \<and> IsBlocked t))"

lemma filterReadyWisps_eq: "filterReadyWisps q f dc s ws = Inr (filter (wisp_pred q f dc s) ws)"
proof (cases "ws = []")
  case False
  show ?thesis
    unfolding filterReadyWisps_def parent_descendants_Inr
    using False by (auto simp: Let_def wisp_pred_def getParentedIDSet_def when_set_def intro!: filter_cong split: option.splits)
qed (simp add: filterReadyWisps_def)

lemma wisp_pred_relabelled: "relabelled t r \<Longrightarrow> wisp_pred q f dc s r = wisp_pred q f dc s t"
  by (simp add: wisp_pred_def relabelled_same)

definition wisp_clause :: "sql_env \<Rightarrow> work_filter \<Rightarrow> db \<Rightarrow> issue_row \<Rightarrow> bool" where
  "wisp_clause q f s r = (case BuildIssueFilterClauses q '''' (readyWorkWispIssueFilter f) True s of
     Inr p \<Rightarrow> p r | Inl _ \<Rightarrow> False)"

lemma wisp_filter_flags [simp]:
  "f_IncludeDependencies (readyWorkWispIssueFilter f) = False" "f_SkipLabels (readyWorkWispIssueFilter f) = False"
  "f_Limit (readyWorkWispIssueFilter f) = w_Limit f" "f_NoIDShrink (readyWorkWispIssueFilter f) = False"
  "f_MetadataFields (readyWorkWispIssueFilter f) = w_MetadataFields f"
  "f_HasMetadataKey (readyWorkWispIssueFilter f) = w_HasMetadataKey f"
  by (simp_all add: readyWorkWispIssueFilter_def no_filter_def)

lemma hydrate_map:
  "\<exists>h. hydrateIssues s w False False rows = Inr (map h rows) \<and> (\<forall>r. relabelled r (h r))"
proof (cases "rows = []")
  case True
  have "relabelled r r" for r unfolding relabelled_def by (rule exI[of _ "Labels r"]) simp
  then show ?thesis using True by (intro exI[of _ "\<lambda>r. r"]) (simp add: hydrateIssues_def)
next
  case False
  define h where "h r = (case GetLabelsForIssuesFromTable (label_table w s) (map ID rows) (ID r) of
      Some ls \<Rightarrow> r\<lparr>Labels := ls\<rparr> | None \<Rightarrow> r)" for r :: issue_row
  have "relabelled r (h r)" for r
    by (auto simp: h_def relabelled_def split: option.splits intro: exI[of _ "Labels r"])
  moreover have "hydrateIssues s w False False rows = Inr (map h rows)"
    using False by (simp add: hydrateIssues_def Let_def h_def[abs_def])
  ultimately show ?thesis by blast
qed

definition ready_wisp :: "sql_env \<Rightarrow> work_filter \<Rightarrow> db \<Rightarrow> issue_row \<Rightarrow> bool" where
  "ready_wisp q f s t = (t \<in> set (t_wisps s) \<and> wisp_clause q f s t \<and> wisp_pred q f (deferred_children q s f) s t)"

lemma clauses_limit [simp]:
  "BuildIssueFilterClauses q query (g\<lparr>f_Limit := n\<rparr>) w s = BuildIssueFilterClauses q query g w s"
proof -
  have "issue_clauses q query (g\<lparr>f_Limit := n\<rparr>) w s = issue_clauses q query g w s"
    by (rule ext) (simp add: issue_clauses_def cong: option.case_cong)
  then show ?thesis by (simp add: BuildIssueFilterClauses_def)
qed

lemma ready_wisps_unlimited:
  assumes "w_Limit f \<le> 0" "BuildIssueFilterClauses q '''' (readyWorkWispIssueFilter f) True s = Inr p"
  shows "\<exists>ws. getReadyWisps q f (deferred_children q s f) s = Inr ws \<and>
    (\<forall>r\<in>set ws. \<exists>t. ready_wisp q f s t \<and> relabelled t r) \<and> (\<forall>t. ready_wisp q f s t \<longrightarrow> ID t \<in> ID ` set ws)"
proof (cases "t_wisps s = []")
  case True
  then show ?thesis by (simp add: getReadyWisps_def ready_wisp_def)
next
  case False
  define rows where "rows = sort_by (OrderBy q (f_SortBy (readyWorkWispIssueFilter f)) (f_SortDesc (readyWorkWispIssueFilter f)))
    (filter p (t_wisps s))"
  obtain h where h: "hydrateIssues s True False False rows = Inr (map h rows)" "\<And>r. relabelled r (h r)"
    using hydrate_map[of s True rows] by blast
  have st: "searchTable q '''' ((readyWorkWispIssueFilter f)\<lparr>f_Limit := 0\<rparr>) True s = Inr (map h rows)"
    using assms(2) h(1) by (simp add: searchTable_def Let_def limit_to_def rows_def issue_table_def)
  define ws where "ws = filter (wisp_pred q f (deferred_children q s f) s) (map h rows)"
  have "getReadyWisps q f (deferred_children q s f) s = Inr ws"
    using False assms(1) st by (simp add: getReadyWisps_def filterReadyWisps_eq ws_def)
  moreover have cl: "wisp_clause q f s t = p t" for t using assms(2) by (simp add: wisp_clause_def)
  have "\<exists>t. ready_wisp q f s t \<and> relabelled t r" if rin: "r \<in> set ws" for r
  proof -
    obtain t where "t \<in> set (t_wisps s)" "p t" "r = h t" "wisp_pred q f (deferred_children q s f) s r"
      using rin by (auto simp: ws_def rows_def)
    then show ?thesis using h(2)[of t] wisp_pred_relabelled[OF h(2)[of t]] cl by (auto simp: ready_wisp_def)
  qed
  moreover have "ID t \<in> ID ` set ws" if "ready_wisp q f s t" for t
  proof -
    have "t \<in> set rows" using that cl by (simp add: ready_wisp_def rows_def)
    then have "h t \<in> set ws"
      using that wisp_pred_relabelled[OF h(2)[of t]] by (auto simp: ws_def ready_wisp_def)
    then have "ID (h t) \<in> ID ` set ws" by (rule imageI)
    then show ?thesis unfolding relabelled_same(1)[OF h(2)[of t]] .
  qed
  ultimately show ?thesis by blast
qed

lemma ready_pages_sound:
  assumes "ready_pages fetch k n pages ready = Inr ws" "length ready \<le> n"
    and "\<And>page rs. page \<in> set pages \<Longrightarrow> fetch page = Inr rs \<Longrightarrow> \<forall>r\<in>set rs. P r" and "\<forall>r\<in>set ready. P r"
  shows "length ws \<le> n \<and> (\<forall>r\<in>set ws. P r)"
  using assms
proof (induction fetch k n pages ready rule: ready_pages.induct)
  case (2 fetch k n page pages ready)
  show ?case
  proof (cases "n \<le> length ready")
    case True
    then show ?thesis using 2 by auto
  next
    case False
    then obtain pr where pr: "fetch page = Inr pr" using "2.prems"(1) by (cases "fetch page") auto
    define rd where "rd = take n (ready @ pr)"
    have "\<forall>r\<in>set (ready @ pr). P r" using "2.prems"(3)[OF _ pr] "2.prems"(4) by auto
    then have rd: "length rd \<le> n" "\<forall>r\<in>set rd. P r" by (auto simp: rd_def dest: in_set_takeD)
    show ?thesis
    proof (cases "length page < k")
      case True
      then show ?thesis using "2.prems"(1) False pr rd by (simp add: Let_def rd_def)
    next
      case F2: False
      then have "ready_pages fetch k n pages rd = Inr ws" using "2.prems"(1) False pr by (simp add: Let_def rd_def)
      then show ?thesis using "2.IH"[OF False refl, of pr] F2 rd "2.prems"(3) by (auto simp: rd_def)
    qed
  qed
qed auto

lemma wisp_page:
  assumes "r \<in> set (GetIssuesByIDs s page (Some (set page)))"
  shows "\<exists>t\<in>set (t_wisps s). ID t \<in> set page \<and> r = hydrate_labels (t_wisp_labels s) t"
proof -
  have "filter (\<lambda>x. x \<in> set page) page = page" "filter (\<lambda>x. x \<notin> set page) page = []"
    by (auto simp: filter_id_conv filter_empty_conv)
  then have "GetIssuesByIDs s page (Some (set page)) = (if page = [] then [] else fetch_table False s [] @ fetch_table True s page)"
    by (simp add: GetIssuesByIDs_def partitionByWispSet_def)
  then have "r \<in> set (fetch_table True s page)"
    using assms by (auto simp: fetch_table_def[of False] split: if_splits)
  then show ?thesis by (simp add: set_fetch_table issue_table_def label_table_def)
qed

lemma ready_wisps_sound:
  assumes wf: "wf_db s" and r: "getReadyWisps q f (deferred_children q s f) s = Inr ws"
  shows "\<forall>r\<in>set ws. \<exists>t. ready_wisp q f s t \<and> relabelled t r"
proof (cases "BuildIssueFilterClauses q '''' (readyWorkWispIssueFilter f) True s")
  case (Inl e)
  then have "t_wisps s = []" using r
    by (auto simp: getReadyWisps_def searchTable_def queryReadyWispIDs_def split: if_splits)
  then show ?thesis using r by (simp add: getReadyWisps_def)
next
  case (Inr p)
  show ?thesis
  proof (cases "w_Limit f \<le> 0")
    case True
    then show ?thesis using ready_wisps_unlimited[OF True Inr] r by auto
  next
    case False
    define rows where "rows = sort_by (BuildReadyWorkOrder q (w_SortPolicy f))
         (filter (\<lambda>r. p r \<and> (w_IncludeDeferred f \<or> \<not> deferred_sql q r)) (t_wisps s))"
    define k where "k = readyWorkPageSize (w_Limit f)"
    have k: "0 < k" using False by (simp add: k_def readyWorkPageSize_def)
    have cl: "wisp_clause q f s t = p t" for t using Inr by (simp add: wisp_clause_def)
    show ?thesis
    proof (cases "t_wisps s = []")
      case F3: False
      define fetch where "fetch page = filterReadyWisps q f (deferred_children q s f) s
          (in_order (GetIssuesByIDs s page (Some (set page))) page)" for page
      have e: "ready_pages fetch k (nat (w_Limit f)) (chunks k (map ID rows)) [] = Inr ws"
        using r False F3 Inr by (simp add: getReadyWisps_def queryReadyWispIDs_def rows_def k_def fetch_def[abs_def])
      have "\<forall>r\<in>set rs. \<exists>t. ready_wisp q f s t \<and> relabelled t r"
        if pg: "page \<in> set (chunks k (map ID rows))" and fe: "fetch page = Inr rs" for page rs
      proof
        fix r assume "r \<in> set rs"
        then have wp: "wisp_pred q f (deferred_children q s f) s r" and
          io: "r \<in> set (in_order (GetIssuesByIDs s page (Some (set page))) page)"
          using fe by (auto simp: fetch_def filterReadyWisps_eq)
        have "r \<in> set (GetIssuesByIDs s page (Some (set page)))" "ID r \<in> set page"
          using io by (auto simp: in_order_set dest: by_id_ID)
        then obtain t where t: "t \<in> set (t_wisps s)" "ID t \<in> set page" "r = hydrate_labels (t_wisp_labels s) t"
          using wisp_page by blast
        have "ID t \<in> set (concat (chunks k (map ID rows)))" using pg t(2) by auto
        then have "ID t \<in> ID ` set rows" unfolding concat_chunks[OF k] by simp
        then obtain t' where t': "t' \<in> set rows" "ID t' = ID t" by auto
        then have "t' \<in> set (t_wisps s)" "p t'" by (auto simp: rows_def)
        then have "t' = t"
          using distinct_key_eq[OF wf_db_table[OF wf, of True]] t(1) t'(2) by (simp add: issue_table_def)
        have "relabelled t r" unfolding t(3) by (rule relabelled_hydrate)
        moreover have "ready_wisp q f s t"
          using t(1) \<open>p t'\<close> \<open>t' = t\<close> cl wp wisp_pred_relabelled[OF \<open>relabelled t r\<close>] by (simp add: ready_wisp_def)
        ultimately show "\<exists>t. ready_wisp q f s t \<and> relabelled t r" by blast
      qed
      then show ?thesis using ready_pages_sound[OF e, of "\<lambda>r. \<exists>t. ready_wisp q f s t \<and> relabelled t r"] by simp
    qed (use r in \<open>simp add: getReadyWisps_def\<close>)
  qed
qed

subsection \<open>The whole answer\<close>

definition perm_rows :: "sql_env \<Rightarrow> work_filter \<Rightarrow> db \<Rightarrow> (issue_row \<Rightarrow> bool) \<Rightarrow> issue_row list" where
  "perm_rows q f s p = sort_by (BuildReadyWorkOrder q (w_SortPolicy f)) (filter p (t_issues s))"

lemma limit_to_map: "limit_to n (map g xs) = map g (limit_to n xs)"
  by (simp add: limit_to_def take_map)

lemma set_limit_to: "x \<in> set (limit_to n xs) \<Longrightarrow> x \<in> set xs"
  by (auto simp: limit_to_def dest: in_set_takeD split: if_splits)

lemma ready_work_parts:
  assumes "wf_db s" "routed s" and p: "BuildReadyWorkWhere q f s = Inr p"
  shows "GetReadyWork q f s = bind_res (getReadyWisps q f (deferred_children q s f) s) (\<lambda>ws.
    Inr (let rows = map (hydrate_labels (t_labels s)) (limit_to (w_Limit f) (perm_rows q f s p))
         in if ws = [] then rows else mergeReadyWisps q f rows ws))"
proof -
  have "set (limit_to (w_Limit f) (perm_rows q f s p)) \<subseteq> set (t_issues s)"
    by (auto simp: perm_rows_def dest: set_limit_to)
  note o = ordered_rows[OF assms(1,2) this]
  show ?thesis unfolding GetReadyWork_def p bind_res_simps Let_def perm_rows_def[symmetric] limit_to_map o ..
qed

lemma ready_work_sound:
  assumes s: "wf_db s" "routed s" and r: "GetReadyWork q f s = Inr rs"
  shows "\<exists>p. BuildReadyWorkWhere q f s = Inr p \<and>
    (\<forall>r\<in>set rs. (\<exists>t\<in>set (t_issues s). p t \<and> relabelled t r) \<or> (\<exists>t. ready_wisp q f s t \<and> relabelled t r)) \<and>
    (0 < w_Limit f \<longrightarrow> int (length rs) \<le> w_Limit f)"
proof -
  obtain p where p: "BuildReadyWorkWhere q f s = Inr p" using r by (auto simp: GetReadyWork_def)
  define rows where "rows = map (hydrate_labels (t_labels s)) (limit_to (w_Limit f) (perm_rows q f s p))"
  obtain ws where ws: "getReadyWisps q f (deferred_children q s f) s = Inr ws" "rs = (if ws = [] then rows else mergeReadyWisps q f rows ws)"
    using r unfolding ready_work_parts[OF s p] rows_def by (auto simp: Let_def)
  have row: "\<exists>t\<in>set (t_issues s). p t \<and> relabelled t r" if ri: "r \<in> set rows" for r
  proof -
    obtain t where "t \<in> set (limit_to (w_Limit f) (perm_rows q f s p))" "r = hydrate_labels (t_labels s) t"
      using ri by (auto simp: rows_def)
    then have "t \<in> set (perm_rows q f s p)" "relabelled t r" using set_limit_to relabelled_hydrate by auto
    then show ?thesis by (auto simp: perm_rows_def)
  qed
  have m: "r \<in> set (mergeReadyWisps q f rows ws) \<Longrightarrow> r \<in> set rows \<or> r \<in> set ws" for r
    by (auto simp: mergeReadyWisps_def sortReadyIssues_def dest!: set_limit_to)
  have all: "\<forall>r\<in>set rs. (\<exists>t\<in>set (t_issues s). p t \<and> relabelled t r) \<or> (\<exists>t. ready_wisp q f s t \<and> relabelled t r)"
  proof
    fix r assume "r \<in> set rs"
    then have "r \<in> set rows \<or> r \<in> set ws" using ws(2) m by (auto split: if_splits)
    then show "(\<exists>t\<in>set (t_issues s). p t \<and> relabelled t r) \<or> (\<exists>t. ready_wisp q f s t \<and> relabelled t r)"
      using row ready_wisps_sound[OF s(1) ws(1)] by blast
  qed
  have "0 < w_Limit f \<longrightarrow> int (length rs) \<le> w_Limit f"
    unfolding ws(2) rows_def mergeReadyWisps_def limit_to_def by auto
  with all p show ?thesis by blast
qed

lemma perm_not_blocked: "BuildReadyWorkWhere q f s = Inr p \<Longrightarrow> p t \<Longrightarrow>
    ready_where q f s (deferred_children q s f) (descendants_of s f) t"
  by (auto simp: BuildReadyWorkWhere_def parent_descendants_Inr)

lemma ready_not_blocked:
  assumes g: "wf_db s" "acyclic_parents s" "blocked_consistent e s" and ro: "routed s"
    and r: "GetReadyWork q f s = Inr rs" "r \<in> set rs"
  shows "\<not> must_block e s (w, ID r)"
proof
  assume "must_block e s (w, ID r)"
  then have "(w, ID r) \<in> flagged s" using flagged_must_block[OF g] by simp
  then obtain b where b: "b \<in> set (issue_table w s)" "ID b = ID r" "IsBlocked b" by (auto simp: flagged_def)
  obtain p where p: "BuildReadyWorkWhere q f s = Inr p"
    "(\<exists>t\<in>set (t_issues s). p t \<and> relabelled t r) \<or> (\<exists>t. ready_wisp q f s t \<and> relabelled t r)"
    using ready_work_sound[OF g(1) ro r(1)] r(2) by blast
  have dis: "v = w" if "t \<in> set (issue_table v s)" "ID t = ID r" for t v
    using routedD(1)[OF ro that(1), of b] b(1,2) that(2) by (cases v; cases w) auto
  from p(2) show False
  proof
    assume "\<exists>t\<in>set (t_issues s). p t \<and> relabelled t r"
    then obtain t where t: "t \<in> set (t_issues s)" "p t" "ID t = ID r" by (auto dest: relabelled_same(1))
    then have "\<not> IsBlocked t" using perm_not_blocked[OF p(1)] by (simp add: ready_where_def)
    moreover have "w = False" using dis[of t False] t by (simp add: issue_table_def)
    then have "b = t" using distinct_key_eq[OF wf_db_table[OF g(1), of False], of b t] b(1,2) t(1,3) by (simp add: issue_table_def)
    ultimately show False using b(3) by simp
  next
    assume "\<exists>t. ready_wisp q f s t \<and> relabelled t r"
    then obtain t where t: "t \<in> set (t_wisps s)" "wisp_pred q f (deferred_children q s f) s t" "ID t = ID r"
      by (auto simp: ready_wisp_def dest: relabelled_same(1))
    have "w = True" using dis[of t True] t by (simp add: issue_table_def)
    then show False using t(2,3) b by (auto simp: wisp_pred_def issue_table_def)
  qed
qed

lemma deferred_children_set:
  "x \<in> set (getChildrenOfDeferredParents q s) \<longleftrightarrow> (\<exists>dw. \<exists>d\<in>set (dep_table dw s). issue_id d = x \<and> dtype d = DepParentChild \<and>
     (\<exists>iw. \<exists>p\<in>set (issue_table iw s). targets d iw (ID p) \<and> deferred_sql q p))"
proof -
  have "x \<in> set (concat (map (\<lambda>dw. concat (map (\<lambda>iw. concat (map (\<lambda>d. map (\<lambda>p. issue_id d)
         (filter (\<lambda>p. targets d iw (ID p) \<and> dtype d = DepParentChild \<and> deferred_sql q p) (issue_table iw s)))
         (dep_table dw s))) [False, True])) [False, True])) \<longleftrightarrow>
     (\<exists>dw. \<exists>d\<in>set (dep_table dw s). issue_id d = x \<and> dtype d = DepParentChild \<and>
     (\<exists>iw. \<exists>p\<in>set (issue_table iw s). targets d iw (ID p) \<and> deferred_sql q p))"
    by (simp add: ex_bool_eq) blast
  moreover have "(\<exists>dw. \<exists>d\<in>set (dep_table dw s). issue_id d = x \<and> dtype d = DepParentChild \<and>
     (\<exists>iw. \<exists>p\<in>set (issue_table iw s). targets d iw (ID p) \<and> deferred_sql q p)) \<Longrightarrow>
     (\<exists>r\<in>set (t_issues s). deferred_sql q r) \<or> (\<exists>r\<in>set (t_wisps s). deferred_sql q r)"
    by (auto simp: issue_table_def split: if_splits)
  ultimately show ?thesis unfolding getChildrenOfDeferredParents_def by (auto simp del: concat.simps)
qed

subsection \<open>Claiming the first ready issue\<close>

lemma active_kind:
  assumes "routed s" "t \<in> set (issue_table w s)"
  shows "IsActiveWisp s (ID t) \<longleftrightarrow> w"
  using routedD(1)[OF assms] assms by (cases w) (force simp: IsActiveWisp_table)+

lemma claim_succeeds:
  assumes s: "wf_db s" "routed s" and t: "t \<in> set (issue_table w s)" "claimable (ID t) a t"
  shows "\<exists>res s' c. ClaimIssue e (ID t) a s = Inr (res, s') \<and> GetIssue s' (ID t) = Inr c \<and>
    ID c = ID t \<and> Status c = StatusInProgress \<and> Assignee c = a \<and> LeaseExpiresAt c = Some (now e + leaseTTL e)"
proof -
  have w: "IsActiveWisp s (ID t) = w" using active_kind[OF s(2) t(1)] by simp
  have sel: "select_row (ID t) (issue_table w s) = Some t" by (rule select_row_distinct[OF wf_db_table[OF s(1)] t(1)])
  obtain old where old: "GetIssue s (ID t) = Inr old" using GetIssue_active[of "ID t" s t] sel w by auto
  obtain rows n where u: "update_where (claimable (ID t) a) (claim_set e a (StartedAt old = None) (ID t)) (issue_table w s) = (rows, n)"
    by fastforce
  then have n: "n \<noteq> 0" using t by (auto simp: update_where_def filter_empty_conv)
  obtain res s' where c: "ClaimIssue e (ID t) a s = Inr (res, s')"
    using old u n w by (simp add: ClaimIssue_def Let_def)
  obtain c where c': "select_row (ID t) (issue_table w s') = Some c" "Status c = StatusInProgress" "Assignee c = a"
    "s' = s \<or> LeaseExpiresAt c = Some (now e + leaseTTL e)" "IsActiveWisp s' = IsActiveWisp s"
    using claim_post[OF s(1) c] w by auto
  have "s' \<noteq> s" using c'(1,2) sel t(2) by (auto simp: claimable_def)
  have "GetIssue s' (ID t) = Inr c"
  proof (cases w)
    case False
    then show ?thesis using c'(1) by (simp add: GetIssue_def issue_table_def)
  next
    case True
    have "ID ` set (t_issues s') = ID ` set (t_issues s)"
      using c s(1)
    proof (cases rule: ClaimIssue_cases)
      case (fresh r b)
      have "map ID (issue_table False s') = map ID (issue_table False s)" by (rule row_change_ids[OF fresh(3)])
      then show ?thesis by (metis issue_table_def list.set_map)
    qed simp
    moreover have "ID t \<notin> ID ` set (t_issues s)"
      using routedD(1)[OF s(2) t(1)] True by (auto simp: issue_table_def)
    ultimately have "select_row (ID t) (t_issues s') = None" by (simp add: select_row_None)
    then show ?thesis using c'(1) True by (simp add: GetIssue_def issue_table_def)
  qed
  then show ?thesis using c c' \<open>s' \<noteq> s\<close> GetIssue_ok by blast
qed

subsection \<open>Stores without wisps\<close>

text \<open>Without wisps the whole answer comes from one ordered statement.\<close>

lemma ready_no_wisps:
  assumes "wf_db s" "routed s" "t_wisps s = []" and p: "BuildReadyWorkWhere q f s = Inr p"
  shows "GetReadyWork q f s = Inr (map (hydrate_labels (t_labels s)) (limit_to (w_Limit f) (perm_rows q f s p)))"
  unfolding ready_work_parts[OF assms(1,2) p] using assms(3) by (simp add: getReadyWisps_def)

lemma where_limit: "BuildReadyWorkWhere q (f\<lparr>w_Limit := n\<rparr>) s = BuildReadyWorkWhere q f s"
proof -
  have "ready_where q (f\<lparr>w_Limit := n\<rparr>) s dc ds = ready_where q f s dc ds" for dc ds
    by (rule ext) (simp add: ready_where_def)
  then show ?thesis by (simp add: BuildReadyWorkWhere_def parent_descendants_def deferred_children_def)
qed

lemma ready_order_hydrated:
  "BuildReadyWorkOrder q pol (hydrate_labels l a) (hydrate_labels l b) = BuildReadyWorkOrder q pol a b"
  by (simp add: BuildReadyWorkOrder_def Let_def priority_order_def CreatedAtSortKey_def)

lemma perm_rows_sorted:
  "sorted_wrt (\<lambda>a b. \<not> BuildReadyWorkOrder q (w_SortPolicy f) b a) (map (hydrate_labels l) (perm_rows q f s p))"
  using sorted_sort_by[OF ready_order_weak, of q "w_SortPolicy f"]
  by (simp add: perm_rows_def sorted_wrt_map ready_order_hydrated)

subsection \<open>The two patterns of the search\<close>

lemma find_in_unique:
  assumes "distinct (map ID rows)" "set ids \<subseteq> set rows"
  shows "in_order (filter (\<lambda>r. ID r \<in> ID ` set ids) rows) (map ID ids) = ids"
proof -
  have "by_id (filter (\<lambda>r. ID r \<in> ID ` set ids) rows) (ID r) = Some r" if "r \<in> set ids" for r
  proof (rule by_id_unique)
    fix r' assume "r' \<in> set (filter (\<lambda>r. ID r \<in> ID ` set ids) rows)" "ID r' = ID r"
    then show "Some r = Some r'" using distinct_key_eq[OF assms(1), of r' r] assms(2) that by auto
  next
    show "\<exists>r'\<in>set (filter (\<lambda>r. ID r \<in> ID ` set ids) rows). ID r' = ID r" using assms(2) that by auto
  qed
  then have "List.map_filter (by_id (filter (\<lambda>r. ID r \<in> ID ` set ids) rows)) (map ID rs) = rs" if "set rs \<subseteq> set ids" for rs
    using that by (induction rs) (simp_all add: List.map_filter_simps)
  then show ?thesis by (simp add: in_order_def)
qed

lemma search_patterns:
  assumes "wf_db s"
  shows "searchTable q query f w s = bind_res (BuildIssueFilterClauses q query f w s) (\<lambda>p.
    hydrateIssues s w (f_IncludeDependencies f) (f_SkipLabels f)
      (limit_to (f_Limit f) (sort_by (OrderBy q (f_SortBy f) (f_SortDesc f)) (filter p (issue_table w s)))))"
proof (cases "BuildIssueFilterClauses q query f w s")
  case (Inr p)
  define rows where "rows = sort_by (OrderBy q (f_SortBy f) (f_SortDesc f)) (filter p (issue_table w s))"
  have "set (limit_to (f_Limit f) rows) \<subseteq> set (issue_table w s)" by (auto simp: rows_def dest: set_limit_to)
  from find_in_unique[OF wf_db_table[OF assms] this]
  have "in_order (filter (\<lambda>r. ID r \<in> set (limit_to (f_Limit f) (map ID rows))) (issue_table w s)) (limit_to (f_Limit f) (map ID rows)) =
      limit_to (f_Limit f) rows" by (simp add: limit_to_map)
  then show ?thesis unfolding searchTable_def Inr bind_res_simps Let_def rows_def[symmetric] by simp
qed (simp add: searchTable_def)

end
