(* ===== verification/PropsReady.thy ===== *)
theory PropsReady
  imports ReadyThms PropsReaders
begin

text \<open>The properties of ready work.\<close>

subsection \<open>What is ready\<close>

text \<open>The row, or a parent of it, is scheduled for later: as texts in SQL, as times in Go.\<close>

definition deferred_row :: "sql_env \<Rightarrow> bool \<Rightarrow> issue_row \<Rightarrow> bool" where
  "deferred_row q w r = (if w then (case DeferUntil r of None \<Rightarrow> False | Some t \<Rightarrow> t > go_now q) else deferred_sql q r)"

definition deferred_parent :: "sql_env \<Rightarrow> db \<Rightarrow> string \<Rightarrow> bool" where
  "deferred_parent q s x = (\<exists>dw. \<exists>d\<in>set (dep_table dw s). issue_id d = x \<and> dtype d = DepParentChild \<and>
     (\<exists>iw. \<exists>p\<in>set (issue_table iw s). targets d iw (ID p) \<and> deferred_sql q p))"

definition workable :: "env \<Rightarrow> sql_env \<Rightarrow> db \<Rightarrow> bool \<Rightarrow> issue_row \<Rightarrow> bool" where
  "workable e q s w r = ((Status r = StatusOpen \<or> Status r = StatusInProgress) \<and> \<not> Pinned r \<and> \<not> Ephemeral r \<and>
     IssueType r \<notin> set (ReadyWorkExcludeTypes []) \<and> \<not> must_block e s (w, ID r) \<and>
     \<not> deferred_row q w r \<and> \<not> deferred_parent q s (ID r))"

abbreviation default_work :: "string \<Rightarrow> work_filter" where
  "default_work policy \<equiv> all_work\<lparr>w_SortPolicy := policy\<rparr>"

lemma default_where:
  "\<exists>p. BuildReadyWorkWhere q (default_work policy) s = Inr p \<and>
    (\<forall>r. p r \<longleftrightarrow> (Status r = StatusOpen \<or> Status r = StatusInProgress) \<and> \<not> Pinned r \<and> \<not> IsBlocked r \<and> \<not> Ephemeral r \<and>
      IssueType r \<notin> set (ReadyWorkExcludeTypes []) \<and> \<not> deferred_sql q r \<and> \<not> deferred_parent q s (ID r))"
  by (auto simp: BuildReadyWorkWhere_def parent_descendants_Inr AppendMetadataClauses_def all_work_def ready_where_def
      when_set_def deferred_children_def deferred_children_set deferred_parent_def)

lemma default_wisp_clauses:
  "\<exists>p. BuildIssueFilterClauses q '''' (readyWorkWispIssueFilter (default_work policy)) True s = Inr p \<and>
    (\<forall>r. p r \<longleftrightarrow> (Status r = StatusOpen \<or> Status r = StatusInProgress) \<and> \<not> Pinned r \<and> \<not> Ephemeral r \<and>
      IssueType r \<notin> set (ReadyWorkExcludeTypes []))"
  by (auto simp: BuildIssueFilterClauses_def AppendMetadataClauses_def readyWorkWispIssueFilter_def no_filter_def all_work_def
      issue_clauses_def query_clause_def contains_text_def when_set_def BuildLabelDrivenSearch_def label_clauses_def
      time_clause_def Let_def)

lemma default_ready_wisp:
  "ready_wisp q (default_work policy) s t \<longleftrightarrow> t \<in> set (t_wisps s) \<and>
    (Status t = StatusOpen \<or> Status t = StatusInProgress) \<and> \<not> Pinned t \<and> \<not> Ephemeral t \<and>
    IssueType t \<notin> set (ReadyWorkExcludeTypes []) \<and> \<not> deferred_row q True t \<and> \<not> deferred_parent q s (ID t) \<and>
    \<not> (\<exists>u\<in>set (t_wisps s). ID u = ID t \<and> IsBlocked u)"
proof -
  obtain p where p: "BuildIssueFilterClauses q '''' (readyWorkWispIssueFilter (default_work policy)) True s = Inr p"
    "\<And>r. p r \<longleftrightarrow> (Status r = StatusOpen \<or> Status r = StatusInProgress) \<and> \<not> Pinned r \<and> \<not> Ephemeral r \<and>
      IssueType r \<notin> set (ReadyWorkExcludeTypes [])" using default_wisp_clauses by blast
  have "wisp_clause q (default_work policy) s t = p t" using p(1) by (simp add: wisp_clause_def)
  then show ?thesis
    using p(2)[of t] by (auto simp: ready_wisp_def wisp_pred_def all_work_def when_set_def deferred_children_def
        deferred_children_set deferred_parent_def deferred_row_def)
qed

text \<open>
  (C6) Without options, ready work is exactly the open or claimed work that the
  specification does not block and that is not pinned, not ephemeral, not of an
  internal type and not scheduled for later, itself or through a parent: permanent
  issues and wisps without history alike, under every sort policy.
\<close>

theorem ready_work_exact:
  assumes "good_db e s" "routed s"
  shows "\<exists>rs. GetReadyWork q (default_work policy) s = Inr rs \<and>
    ID ` set rs = {ID r |r. \<exists>w. r \<in> set (issue_table w s) \<and> workable e q s w r}"
proof -
  have g: "wf_db s" "acyclic_parents s" "blocked_consistent e s" using assms(1) by (simp_all add: good_db_def)
  have flag: "IsBlocked r \<longleftrightarrow> must_block e s (w, ID r)" if "r \<in> set (issue_table w s)" for r w
    using row_flagged[OF g(1) that] flagged_must_block[OF g] by blast
  obtain p where p: "BuildReadyWorkWhere q (default_work policy) s = Inr p"
    "\<And>r. p r \<longleftrightarrow> (Status r = StatusOpen \<or> Status r = StatusInProgress) \<and> \<not> Pinned r \<and> \<not> IsBlocked r \<and> \<not> Ephemeral r \<and>
      IssueType r \<notin> set (ReadyWorkExcludeTypes []) \<and> \<not> deferred_sql q r \<and> \<not> deferred_parent q s (ID r)"
    using default_where by blast
  obtain pw where pw: "BuildIssueFilterClauses q '''' (readyWorkWispIssueFilter (default_work policy)) True s = Inr pw"
    using default_wisp_clauses by blast
  let ?f = "default_work policy"
  have lim: "w_Limit ?f \<le> 0" "w_Limit ?f = 0" by (simp_all add: all_work_def)
  obtain ws where ws: "getReadyWisps q ?f (deferred_children q s ?f) s = Inr ws"
    "\<forall>r\<in>set ws. \<exists>t. ready_wisp q ?f s t \<and> relabelled t r" "\<forall>t. ready_wisp q ?f s t \<longrightarrow> ID t \<in> ID ` set ws"
    using ready_wisps_unlimited[OF lim(1) pw] by blast
  define rows where "rows = map (hydrate_labels (t_labels s)) (perm_rows q ?f s p)"
  have r: "GetReadyWork q ?f s = Inr (if ws = [] then rows else mergeReadyWisps q ?f rows ws)"
    unfolding ready_work_parts[OF g(1) assms(2) p(1)] ws(1) using lim(2) by (simp add: rows_def limit_to_def Let_def)
  have "ID ` set (if ws = [] then rows else mergeReadyWisps q ?f rows ws) = ID ` set rows \<union> ID ` set ws"
    using lim(2) by (auto simp: mergeReadyWisps_def sortReadyIssues_def limit_to_def)
  also have "ID ` set rows = {ID r |r. r \<in> set (issue_table False s) \<and> workable e q s False r}"
    using flag[of _ False] by (auto simp: rows_def perm_rows_def image_image p(2) workable_def deferred_row_def issue_table_def)
  also have "ID ` set ws = {ID r |r. r \<in> set (issue_table True s) \<and> workable e q s True r}"
  proof -
    have uniq: "(\<exists>u\<in>set (t_wisps s). ID u = ID t \<and> IsBlocked u) \<longleftrightarrow> must_block e s (True, ID t)" if "t \<in> set (t_wisps s)" for t
      using that flag[of _ True] by (auto simp: issue_table_def)
    have rw: "ready_wisp q ?f s t \<longleftrightarrow> t \<in> set (issue_table True s) \<and> workable e q s True t" for t
      unfolding default_ready_wisp using uniq[of t] by (auto simp: workable_def issue_table_def)
    have "ID ` set ws = {ID t |t. ready_wisp q ?f s t}"
      using ws(2,3) relabelled_same(1) by (auto simp: image_iff) metis+
    then show ?thesis unfolding rw .
  qed
  also have "{ID r |r. r \<in> set (issue_table False s) \<and> workable e q s False r} \<union>
      {ID r |r. r \<in> set (issue_table True s) \<and> workable e q s True r} =
      {ID r |r. \<exists>w. r \<in> set (issue_table w s) \<and> workable e q s w r}"
    unfolding ex_bool_eq by blast
  finally show ?thesis using r by blast
qed

definition ready_db :: db where
  "ready_db = (ex_db [ex_row ''bd-1'' ''open'' False, ex_row ''bd-2'' ''open'' True, ex_row ''bd-3'' ''closed'' False]
     [ex_dep ''bd-2'' ''bd-1'' ''blocks'' ''''])\<lparr>t_wisps := [(ex_row ''bd-w'' ''open'' False)\<lparr>NoHistory := True\<rparr>]\<rparr>"

definition ready_sql :: sql_env where
  "ready_sql = \<lparr>stored_text = (\<lambda>t. replicate (nat t) CHR ''x''), current_ts = '''', rfc3339 = (\<lambda>t. ''''), go_now = 100,
     json_has = (\<lambda>m k. False), json_is = (\<lambda>m k v. False)\<rparr>"

lemma ready_db_good: "good_db ex_env ready_db"
  unfolding good_db_def
proof (intro conjI)
  show "wf_db ready_db" unfolding wf_db_def all_bool_eq by (simp add: ready_db_def issue_table_def ex_db_def)
  show "acyclic_parents ready_db"
    unfolding acyclic_parents_def
    by (rule acyclic_by_rank[where rank = "\<lambda>n. 0"])
      (auto simp: parent_edges_def parents_def dep_table_def ready_db_def ex_db_def ex_dep_def const_defs split: if_splits)
  show "blocked_consistent ex_env ready_db" by code_simp
  show "rows_closed_at ready_db" by code_simp
qed

lemma ready_db_routed: "routed ready_db"
  unfolding routed_def all_bool_eq
  by (auto simp: ready_db_def ex_db_def ex_dep_def targets_def issue_table_def dep_table_def split: if_splits)

theorem ready_work_exact_witness:
  "\<exists>rs. GetReadyWork ready_sql (default_work '''') ready_db = Inr rs \<and> ID ` set rs = {''bd-1'', ''bd-w''} \<and>
     ID ` set rs = {ID r |r. \<exists>w. r \<in> set (issue_table w ready_db) \<and> workable ex_env ready_sql ready_db w r}"
proof -
  obtain rs where rs: "GetReadyWork ready_sql (default_work '''') ready_db = Inr rs"
    "ID ` set rs = {ID r |r. \<exists>w. r \<in> set (issue_table w ready_db) \<and> workable ex_env ready_sql ready_db w r}"
    using ready_work_exact[OF ready_db_good ready_db_routed] by blast
  have "case GetReadyWork ready_sql (default_work '''') ready_db of Inl _ \<Rightarrow> False | Inr rs \<Rightarrow> map ID rs = [''bd-1'', ''bd-w'']"
    by code_simp
  then have "map ID rs = [''bd-1'', ''bd-w'']" using rs(1) by simp
  then have "ID ` set rs = {''bd-1'', ''bd-w''}" by (metis list.set_map list.simps(15) empty_set)
  with rs show ?thesis by blast
qed

subsection \<open>Safety for every filter\<close>

lemma wisp_clause_facts:
  assumes "wisp_clause q f s t"
  shows "(if w_Status f \<noteq> '''' then Status t = w_Status f else Status t = StatusOpen \<or> Status t = StatusInProgress)"
    "w_Unassigned f \<Longrightarrow> AssigneeNull t \<or> Assignee t = ''''"
  using assms
  by (auto simp: wisp_clause_def BuildIssueFilterClauses_def issue_clauses_def readyWorkWispIssueFilter_def no_filter_def when_set_def
      split: sum.splits if_splits)

lemma ready_row_facts:
  assumes s: "wf_db s" "routed s" and r: "GetReadyWork q f s = Inr rs" "r \<in> set rs"
  shows "\<exists>w t. t \<in> set (issue_table w s) \<and> relabelled t r \<and> \<not> Pinned t \<and>
    (if w_Status f \<noteq> '''' then Status t = w_Status f else Status t = StatusOpen \<or> Status t = StatusInProgress) \<and>
    (w_Unassigned f \<longrightarrow> AssigneeNull t \<or> Assignee t = '''')"
proof -
  obtain p where p: "BuildReadyWorkWhere q f s = Inr p"
    "(\<exists>t\<in>set (t_issues s). p t \<and> relabelled t r) \<or> (\<exists>t. ready_wisp q f s t \<and> relabelled t r)"
    using ready_work_sound[OF s r(1)] r(2) by blast
  from p(2) show ?thesis
  proof
    assume "\<exists>t\<in>set (t_issues s). p t \<and> relabelled t r"
    then obtain t where t: "t \<in> set (t_issues s)" "p t" "relabelled t r" by blast
    then have "ready_where q f s (deferred_children q s f) (descendants_of s f) t" using perm_not_blocked[OF p(1)] by blast
    then show ?thesis using t by (intro exI[of _ False] exI[of _ t]) (simp add: ready_where_def issue_table_def)
  next
    assume "\<exists>t. ready_wisp q f s t \<and> relabelled t r"
    then obtain t where t: "t \<in> set (t_wisps s)" "wisp_clause q f s t" "wisp_pred q f (deferred_children q s f) s t" "relabelled t r"
      by (auto simp: ready_wisp_def)
    then show ?thesis using wisp_clause_facts[OF t(2)]
      by (intro exI[of _ True] exI[of _ t]) (simp add: wisp_pred_def issue_table_def)
  qed
qed

text \<open>
  (C28) Whatever the filter, the limit and the sort policy: ready work never returns an
  issue that the specification blocks, that is pinned, or whose status is not the
  requested one, and no issue is in the ready list and in the blocked list at once.
\<close>

theorem ready_work_safe:
  assumes "good_db e s" "dep_keys s" "routed s"
    and "GetReadyWork q f s = Inr rs" "r \<in> set rs"
    and "distinct order" "set order = set (blocked_ids s)" "GetBlockedIssues s None order = Inr bs"
  shows "(\<forall>w. \<not> must_block e s (w, ID r)) \<and> \<not> Pinned r \<and>
    (if w_Status f \<noteq> '''' then Status r = w_Status f else Status r = StatusOpen \<or> Status r = StatusInProgress) \<and>
    ID r \<notin> (\<lambda>b. ID (bi_issue b)) ` set bs"
proof -
  have g: "wf_db s" "acyclic_parents s" "blocked_consistent e s" using assms(1) by (simp_all add: good_db_def)
  have nb: "\<not> must_block e s (w, ID r)" for w by (rule ready_not_blocked[OF g assms(3-5)])
  have "(\<lambda>b. ID (bi_issue b)) ` set bs = {x. (\<exists>w. must_block e s (w, x)) \<and> ((\<exists>y. active_blocker s x y) \<or> (\<exists>p. child_of s p x))}"
    using blocked_issues_spec[OF g(1) assms(2) g(2,3) assms(6,7)] assms(8) by auto
  then have "ID r \<notin> (\<lambda>b. ID (bi_issue b)) ` set bs" using nb by simp
  moreover obtain w t where "relabelled t r" "\<not> Pinned t"
    "if w_Status f \<noteq> '''' then Status t = w_Status f else Status t = StatusOpen \<or> Status t = StatusInProgress"
    using ready_row_facts[OF g(1) assms(3-5)] by blast
  ultimately show ?thesis using nb relabelled_same(2,3)[of t r] by simp
qed

lemma ready_db_keys: "dep_keys ready_db"
  unfolding dep_keys_def all_bool_eq by code_simp

theorem ready_work_safe_witness:
  "\<exists>rs bs. GetReadyWork ready_sql (all_work\<lparr>w_Limit := 1\<rparr>) ready_db = Inr rs \<and> map ID rs = [''bd-1''] \<and>
     GetBlockedIssues ready_db None [''bd-2''] = Inr bs \<and> length bs = 1 \<and> ''bd-1'' \<notin> (\<lambda>b. ID (bi_issue b)) ` set bs"
proof -
  have "case GetReadyWork ready_sql (all_work\<lparr>w_Limit := 1\<rparr>) ready_db of Inl _ \<Rightarrow> False | Inr rs \<Rightarrow> map ID rs = [''bd-1'']"
    by code_simp
  then obtain rs where rs: "GetReadyWork ready_sql (all_work\<lparr>w_Limit := 1\<rparr>) ready_db = Inr rs" "map ID rs = [''bd-1'']"
    by (auto split: sum.splits)
  have "case GetBlockedIssues ready_db None [''bd-2''] of Inl _ \<Rightarrow> False | Inr bs \<Rightarrow> length bs = 1" by code_simp
  then obtain bs where bs: "GetBlockedIssues ready_db None [''bd-2''] = Inr bs" "length bs = 1" by (auto split: sum.splits)
  have o: "distinct [''bd-2'']" "set [''bd-2''] = set (blocked_ids ready_db)" by code_simp+
  obtain r where r: "r \<in> set rs" "ID r = ''bd-1''" using rs(2) by (cases rs) auto
  then show ?thesis
    using ready_work_safe[OF ready_db_good ready_db_keys ready_db_routed rs(1) r(1) o bs(1)] rs bs by auto
qed

subsection \<open>Limit and order\<close>

text \<open>
  (C36) A positive limit bounds the answer on every store.  On a store without wisps a
  limit returns exactly the first issues of the unlimited answer, which is sorted by
  the order of the sort policy.
\<close>

theorem ready_limit:
  assumes "wf_db s" "routed s"
  shows "(\<forall>rs. GetReadyWork q f s = Inr rs \<longrightarrow> 0 < w_Limit f \<longrightarrow> int (length rs) \<le> w_Limit f) \<and>
    (t_wisps s = [] \<longrightarrow> 0 < n \<longrightarrow> (\<forall>rs. GetReadyWork q (f\<lparr>w_Limit := 0\<rparr>) s = Inr rs \<longrightarrow>
       GetReadyWork q (f\<lparr>w_Limit := n\<rparr>) s = Inr (take (nat n) rs) \<and>
       sorted_wrt (\<lambda>a b. \<not> BuildReadyWorkOrder q (w_SortPolicy f) b a) rs))"
proof (intro conjI allI impI)
  fix rs assume r: "GetReadyWork q f s = Inr rs" and "0 < w_Limit f"
  then show "int (length rs) \<le> w_Limit f" using ready_work_sound[OF assms r] by blast
next
  fix rs assume e: "t_wisps s = []" and n: "0 < n" and r: "GetReadyWork q (f\<lparr>w_Limit := 0\<rparr>) s = Inr rs"
  obtain p where p: "BuildReadyWorkWhere q f s = Inr p" using r by (auto simp: GetReadyWork_def where_limit)
  have pr: "perm_rows q (f\<lparr>w_Limit := m\<rparr>) s p = perm_rows q f s p" for m by (simp add: perm_rows_def)
  have g: "GetReadyWork q (f\<lparr>w_Limit := m\<rparr>) s = Inr (map (hydrate_labels (t_labels s)) (limit_to m (perm_rows q f s p)))" for m
    using ready_no_wisps[OF assms e, of q "f\<lparr>w_Limit := m\<rparr>" p] p by (simp add: where_limit pr)
  then have rs: "rs = map (hydrate_labels (t_labels s)) (perm_rows q f s p)" using r g[of 0] by (simp add: limit_to_def)
  then show "GetReadyWork q (f\<lparr>w_Limit := n\<rparr>) s = Inr (take (nat n) rs)" using g[of n] n by (simp add: limit_to_def take_map)
  show "sorted_wrt (\<lambda>a b. \<not> BuildReadyWorkOrder q (w_SortPolicy f) b a) rs" unfolding rs by (rule perm_rows_sorted)
qed

definition two_ready :: db where
  "two_ready = ex_db [(ex_row ''bd-b'' ''open'' False)\<lparr>CreatedAt := 1\<rparr>, (ex_row ''bd-a'' ''open'' False)\<lparr>CreatedAt := 3\<rparr>] []"

lemma two_ready_ok: "wf_db two_ready" "routed two_ready"
  unfolding wf_db_def routed_def all_bool_eq by (simp_all add: two_ready_def)

theorem ready_limit_witness:
  "\<exists>rs. GetReadyWork ready_sql (all_work\<lparr>w_SortPolicy := ''oldest'', w_Limit := 0\<rparr>) two_ready = Inr rs \<and>
     map ID rs = [''bd-b'', ''bd-a''] \<and>
     GetReadyWork ready_sql (all_work\<lparr>w_SortPolicy := ''oldest'', w_Limit := 1\<rparr>) two_ready = Inr (take 1 rs)"
proof -
  have "case GetReadyWork ready_sql (all_work\<lparr>w_SortPolicy := ''oldest'', w_Limit := 0\<rparr>) two_ready of Inl _ \<Rightarrow> False
      | Inr rs \<Rightarrow> map ID rs = [''bd-b'', ''bd-a'']" by code_simp
  then obtain rs where rs: "GetReadyWork ready_sql (all_work\<lparr>w_SortPolicy := ''oldest'', w_Limit := 0\<rparr>) two_ready = Inr rs"
    "map ID rs = [''bd-b'', ''bd-a'']" by (auto split: sum.splits)
  have "t_wisps two_ready = []" by (simp add: two_ready_def)
  then show ?thesis
    using ready_limit[OF two_ready_ok, of ready_sql "all_work\<lparr>w_SortPolicy := ''oldest''\<rparr>" 1] rs by auto
qed

text \<open>
  With wisps the answer is sorted again in Go, to the nanosecond, while SQL cuts it by
  a key of whole seconds: a limit of one returns the newer of two issues of the same
  second, which the unlimited answer lists after the older one.
\<close>

definition coarse_sql :: sql_env where
  "coarse_sql = ready_sql\<lparr>stored_text := (\<lambda>t. ''2026-01-01 00:00:00'')\<rparr>"

definition two_ready_wisp :: db where
  "two_ready_wisp = two_ready\<lparr>t_wisps := [(ex_row ''bd-w'' ''open'' False)\<lparr>CreatedAt := 5\<rparr>]\<rparr>"

lemma limit_cuts_the_oldest:
  "\<exists>rs qs. GetReadyWork coarse_sql (all_work\<lparr>w_SortPolicy := ''oldest''\<rparr>) two_ready_wisp = Inr rs \<and>
     map ID rs = [''bd-b'', ''bd-a'', ''bd-w''] \<and>
     GetReadyWork coarse_sql (all_work\<lparr>w_SortPolicy := ''oldest'', w_Limit := 1\<rparr>) two_ready_wisp = Inr qs \<and>
     map ID qs = [''bd-a'']"
proof -
  have "case GetReadyWork coarse_sql (all_work\<lparr>w_SortPolicy := ''oldest''\<rparr>) two_ready_wisp of Inl _ \<Rightarrow> False
      | Inr rs \<Rightarrow> map ID rs = [''bd-b'', ''bd-a'', ''bd-w'']" by code_simp
  moreover have "case GetReadyWork coarse_sql (all_work\<lparr>w_SortPolicy := ''oldest'', w_Limit := 1\<rparr>) two_ready_wisp of
      Inl _ \<Rightarrow> False | Inr qs \<Rightarrow> map ID qs = [''bd-a'']" by code_simp
  ultimately show ?thesis by (auto split: sum.splits)
qed

subsection \<open>Claiming\<close>

text \<open>
  (C20) Claiming ready work claims the first issue of the ready list of open, unassigned
  work (never an error, never a later one), gives it to the actor with a fresh lease,
  and the issue is not blocked; it reports no work exactly when that list is empty.
\<close>

theorem claim_ready_exact:
  assumes "good_db e s" "routed s" and "GetReadyWork q (claim_filter f) s = Inr rs"
  shows "case rs of [] \<Rightarrow> ClaimReadyIssue e q f a s = Inr (None, s)
    | r # _ \<Rightarrow> (\<exists>c s'. ClaimReadyIssue e q f a s = Inr (Some c, s') \<and> ID c = ID r \<and> Status c = StatusInProgress \<and>
        Assignee c = a \<and> LeaseExpiresAt c = Some (now e + leaseTTL e) \<and> (\<forall>w. \<not> must_block e s (w, ID c)))"
proof (cases rs)
  case Nil
  then show ?thesis using assms(3) by (simp add: ClaimReadyIssue_def)
next
  case (Cons r rest)
  have g: "wf_db s" "acyclic_parents s" "blocked_consistent e s" using assms(1) by (simp_all add: good_db_def)
  have r: "r \<in> set rs" using Cons by simp
  obtain w t where t: "t \<in> set (issue_table w s)" "relabelled t r" "Status t = StatusOpen" "AssigneeNull t \<or> Assignee t = ''''"
    using ready_row_facts[OF g(1) assms(2,3) r] by (auto simp: claim_filter_def StatusOpen_def)
  have id: "ID r = ID t" by (rule relabelled_same(1)[OF t(2)])
  have "claimable (ID t) a t" using t(3,4) by (auto simp: claimable_def)
  then obtain res s' c where c: "ClaimIssue e (ID r) a s = Inr (res, s')" "GetIssue s' (ID r) = Inr c"
    "ID c = ID r" "Status c = StatusInProgress" "Assignee c = a" "LeaseExpiresAt c = Some (now e + leaseTTL e)"
    using claim_succeeds[OF g(1) assms(2) t(1), of a e] unfolding id by blast
  have "ClaimReadyIssue e q f a s = Inr (Some c, s')"
    unfolding ClaimReadyIssue_def assms(3) Cons using c(1,2) by simp
  moreover have "\<not> must_block e s (v, ID c)" for v
    using ready_not_blocked[OF g assms(2,3) r] c(3) by simp
  ultimately show ?thesis using c Cons by auto
qed

theorem claim_ready_exact_witness:
  "\<exists>c s'. ClaimReadyIssue ex_env ready_sql all_work ''amy'' ready_db = Inr (Some c, s') \<and> ID c = ''bd-1'' \<and>
     Assignee c = ''amy''"
proof -
  have "case GetReadyWork ready_sql (claim_filter all_work) ready_db of Inl _ \<Rightarrow> False | Inr rs \<Rightarrow> map ID rs = [''bd-1'', ''bd-w'']"
    by code_simp
  then obtain rs where rs: "GetReadyWork ready_sql (claim_filter all_work) ready_db = Inr rs" "map ID rs = [''bd-1'', ''bd-w'']"
    by (auto split: sum.splits)
  then obtain r rest where "rs = r # rest" "ID r = ''bd-1''" by auto
  then show ?thesis using claim_ready_exact[OF ready_db_good ready_db_routed rs(1), of "''amy''"] by auto
qed

subsection \<open>Search\<close>

text \<open>
  The two patterns of the search agree: scanning the ids under the limit and then
  fetching their rows gives what the full scan gives.
\<close>

theorem search_patterns_agree:
  assumes "wf_db s"
  shows "searchTable q query f w s = searchTable q query (f\<lparr>f_NoIDShrink := True\<rparr>) w s"
proof -
  have "issue_clauses q query (f\<lparr>f_NoIDShrink := True\<rparr>) w s = issue_clauses q query f w s"
    by (rule ext) (simp add: issue_clauses_def cong: option.case_cong)
  then have "BuildIssueFilterClauses q query (f\<lparr>f_NoIDShrink := True\<rparr>) w s = BuildIssueFilterClauses q query f w s"
    by (simp add: BuildIssueFilterClauses_def)
  then show ?thesis unfolding search_patterns[OF assms] by simp
qed

theorem search_patterns_agree_witness:
  "\<exists>rs. searchTable ready_sql '''' (no_filter\<lparr>f_Limit := 1\<rparr>) False two_ready = Inr rs \<and> map ID rs = [''bd-a''] \<and>
     searchTable ready_sql '''' (no_filter\<lparr>f_Limit := 1, f_NoIDShrink := True\<rparr>) False two_ready = Inr rs"
proof -
  have "case searchTable ready_sql '''' (no_filter\<lparr>f_Limit := 1\<rparr>) False two_ready of Inl _ \<Rightarrow> False | Inr rs \<Rightarrow> map ID rs = [''bd-a'']"
    by code_simp
  then obtain rs where "searchTable ready_sql '''' (no_filter\<lparr>f_Limit := 1\<rparr>) False two_ready = Inr rs" "map ID rs = [''bd-a'']"
    by (auto split: sum.splits)
  then show ?thesis
    using search_patterns_agree[OF two_ready_ok(1), of ready_sql "''''" "no_filter\<lparr>f_Limit := 1\<rparr>" False] by auto
qed

text \<open>A search that merges wisps cuts each table by the limit but not the merged list.\<close>

lemma search_exceeds_limit:
  "case SearchIssues ready_sql '''' (no_filter\<lparr>f_Limit := 1\<rparr>) two_ready_wisp of Inl _ \<Rightarrow> False | Inr rs \<Rightarrow> map ID rs = [''bd-a'', ''bd-w'']"
  by code_simp

text \<open>
  The statistics subtract the blocked issues of every status from the open ones: with
  one ready issue and one blocked issue in progress they report no ready issue.
\<close>

definition stats_db :: db where
  "stats_db = ex_db [ex_row ''bd-1'' ''open'' False, ex_row ''bd-2'' ''in_progress'' True]
     [ex_dep ''bd-2'' ''bd-1'' ''blocks'' '''']"

lemma statistics_undercount_ready:
  "ReadyIssues (GetStatistics stats_db) = 0 \<and> blocked_consistent ex_env stats_db \<and>
   (case GetReadyWork ready_sql all_work stats_db of Inl _ \<Rightarrow> False | Inr rs \<Rightarrow> map ID rs = [''bd-1''])"
  by code_simp

end
