(* ===== verification/Rename.thy ===== *)
theory Rename
  imports Create Delete Update
begin

text \<open>
  Changing identities: renaming an issue (\<^verbatim>\<open>UpdateIssueIDInTx\<close> of \<^verbatim>\<open>bulk_ops.go\<close> with the
  rewriting of dependency rows in \<^verbatim>\<open>dependencies.go\<close>), promoting a wisp to a
  permanent issue (\<^verbatim>\<open>promote.go\<close>), renaming a prefix (\<^verbatim>\<open>RenameDependencyPrefix\<close> of the
  doltlite store) and the walk over the dependents of wisps.  A column of targets is
  named by the kind of its rows: \<^verbatim>\<open>True\<close> for \<^verbatim>\<open>depends_on_wisp_id\<close>.

  The comments of the code rely on \<^verbatim>\<open>ON UPDATE CASCADE\<close>; this store does not enforce
  foreign keys (see \<^verbatim>\<open>Delete\<close>), so an UPDATE of an id changes that row only.
\<close>

subsection \<open>Unique keys of the dependency tables\<close>

definition same_column :: "string option \<Rightarrow> string option \<Rightarrow> bool" where
  "same_column a b = (a \<noteq> None \<and> a = b)"

text \<open>The primary key and the three unique keys (NULL is never equal to NULL).\<close>

definition dep_conflict :: "dep_row \<Rightarrow> dep_row \<Rightarrow> bool" where
  "dep_conflict a b =
    (dep_id a = dep_id b \<or>
     issue_id a = issue_id b \<and>
       (same_column (depends_on_issue_id a) (depends_on_issue_id b) \<or>
        same_column (depends_on_wisp_id a) (depends_on_wisp_id b) \<or>
        same_column (depends_on_external a) (depends_on_external b)))"

text \<open>\<^verbatim>\<open>INSERT INTO\<close> and \<^verbatim>\<open>INSERT OR IGNORE INTO\<close>, row by row.\<close>

fun insert_deps :: "dep_row list \<Rightarrow> dep_row list \<Rightarrow> store_error + dep_row list" where
  "insert_deps [] t = Inr t"
| "insert_deps (d # ds) t =
    (if \<exists>c\<in>set t. dep_conflict d c then Inl (OpFailed ''insert replacement dependency target'')
     else insert_deps ds (t @ [d]))"

fun insert_or_ignore_deps :: "dep_row list \<Rightarrow> dep_row list \<Rightarrow> dep_row list" where
  "insert_or_ignore_deps [] t = t"
| "insert_or_ignore_deps (d # ds) t =
    (if \<exists>c\<in>set t. dep_conflict d c then insert_or_ignore_deps ds t
     else insert_or_ignore_deps ds (t @ [d]))"

subsection \<open>Rewriting targets\<close>

definition resolveDependencyTarget :: "dep_row \<Rightarrow> string option" where
  "resolveDependencyTarget d = (case depends_on_issue_id d of Some x \<Rightarrow> Some x
     | None \<Rightarrow> (case depends_on_wisp_id d of Some x \<Rightarrow> Some x | None \<Rightarrow> depends_on_external d))"

definition target_column :: "bool \<Rightarrow> dep_row \<Rightarrow> string option" where
  "target_column isWisp d = (if isWisp then depends_on_wisp_id d else depends_on_issue_id d)"

definition checkRenameTargetCollision :: "dep_row list \<Rightarrow> bool \<Rightarrow> string \<Rightarrow> store_error + unit" where
  "checkRenameTargetCollision table typedCol newID =
    (if \<exists>a\<in>set table. \<exists>b\<in>set table. issue_id a = issue_id b \<and> target_column typedCol a = Some newID \<and>
       (target_column (\<not> typedCol) b = Some newID \<or> depends_on_external b = Some newID)
     then Inl (TargetCollision newID) else Inr ())"

definition checkRetargetTargetCollision :: "dep_row list \<Rightarrow> bool \<Rightarrow> bool \<Rightarrow> string \<Rightarrow> store_error + unit" where
  "checkRetargetTargetCollision table sourceCol destCol x =
    (if \<exists>moving\<in>set table. \<exists>existing\<in>set table. issue_id moving = issue_id existing \<and>
       target_column sourceCol moving = Some x \<and>
       (target_column destCol existing = Some x \<or> depends_on_external existing = Some x)
     then Inl (TargetCollision x) else Inr ())"

definition names_target :: "bool \<Rightarrow> string \<Rightarrow> dep_row \<Rightarrow> bool" where
  "names_target column oldID d =
    (target_column column d = Some oldID \<or> dep_target d = Some oldID \<and> depends_on_external d = None)"

definition set_target :: "env \<Rightarrow> bool \<Rightarrow> string \<Rightarrow> dep_row \<Rightarrow> dep_row" where
  "set_target e column newID d = d\<lparr>dep_id := depid_New e (issue_id d) newID,
     depends_on_issue_id := (if column then None else Some newID),
     depends_on_wisp_id := (if column then Some newID else None), depends_on_external := None\<rparr>"

definition replaceDependencyTarget ::
  "env \<Rightarrow> bool \<Rightarrow> string \<Rightarrow> string \<Rightarrow> dep_row list \<Rightarrow> store_error + dep_row list" where
  "replaceDependencyTarget e column oldID newID table =
     bind_res (checkRenameTargetCollision table column newID) (\<lambda>u.
       insert_deps (map (set_target e column newID) (filter (names_target column oldID) table))
         (filter (\<lambda>d. \<not> names_target column oldID d) table))"

definition replace_in_both :: "env \<Rightarrow> bool \<Rightarrow> string \<Rightarrow> string \<Rightarrow> db \<Rightarrow> store_error + db" where
  "replace_in_both e column oldID newID s =
     bind_res (replaceDependencyTarget e column oldID newID (t_deps s)) (\<lambda>ds.
       bind_res (replaceDependencyTarget e column oldID newID (t_wisp_deps s)) (\<lambda>ws.
         Inr (s\<lparr>t_deps := ds, t_wisp_deps := ws\<rparr>)))"

text \<open>\<^verbatim>\<open>UPDATE dependencies SET id = ?, issue_id = ? WHERE id = ?\<close>, failing on a key that exists.\<close>

definition rekey_row :: "string \<Rightarrow> string \<times> string \<Rightarrow> dep_row list \<Rightarrow> store_error + dep_row list" where
  "rekey_row newID rk t =
    (let (oldRowID, newRowID) = rk;
         change = (\<lambda>d. d\<lparr>dep_id := newRowID, issue_id := newID\<rparr>)
     in if \<exists>d\<in>set t. dep_id d = oldRowID \<and> (\<exists>c\<in>set t. dep_id c \<noteq> oldRowID \<and> dep_conflict (change d) c)
        then Inl (OpFailed ''rekey dependency source'')
        else Inr (map (\<lambda>d. if dep_id d = oldRowID then change d else d) t))"

definition stale_ids :: "env \<Rightarrow> string \<Rightarrow> string \<Rightarrow> dep_row list \<Rightarrow> (string \<times> string) list" where
  "stale_ids e oldID newID t = concat (map (\<lambda>d.
     case resolveDependencyTarget d of
       None \<Rightarrow> []
     | Some target \<Rightarrow> (if depid_New e newID target \<noteq> dep_id d then [(dep_id d, depid_New e newID target)] else []))
     (filter (\<lambda>d. issue_id d = newID \<or> issue_id d = oldID) t))"

definition rekeyDependencySource :: "env \<Rightarrow> string \<Rightarrow> string \<Rightarrow> dep_row list \<Rightarrow> store_error + dep_row list" where
  "rekeyDependencySource e oldID newID t =
     fold (\<lambda>rk r. bind_res r (rekey_row newID rk)) (stale_ids e oldID newID t) (Inr t)"

definition UpdateWispIDInDependencies :: "env \<Rightarrow> string \<Rightarrow> string \<Rightarrow> db \<Rightarrow> store_error + db" where
  "UpdateWispIDInDependencies e oldID newID s = replace_in_both e True oldID newID s"

definition UpdateIssueIDInDependencies :: "env \<Rightarrow> string \<Rightarrow> string \<Rightarrow> db \<Rightarrow> store_error + db" where
  "UpdateIssueIDInDependencies e oldID newID s =
     bind_res (replace_in_both e False oldID newID s) (\<lambda>s1.
       bind_res (rekeyDependencySource e oldID newID (t_deps s1)) (\<lambda>ds. Inr (s1\<lparr>t_deps := ds\<rparr>)))"

subsection \<open>Renaming an issue\<close>

definition rename_columns :: "env \<Rightarrow> string \<Rightarrow> issue \<Rightarrow> issue_row \<Rightarrow> issue_row" where
  "rename_columns e newID i r = r\<lparr>ID := newID, Title := Title i, Description := Description i,
     Design := Design i, AcceptanceCriteria := AcceptanceCriteria i, Notes := Notes i, UpdatedAt := now e\<rparr>"

text \<open>\<^verbatim>\<open>UPDATE t SET id = ?, ... WHERE id = ?\<close>: no row, or a primary key that is taken.\<close>

definition rename_row :: "env \<Rightarrow> bool \<Rightarrow> string \<Rightarrow> string \<Rightarrow> issue \<Rightarrow> db \<Rightarrow> store_error + db" where
  "rename_row e isWisp oldID newID i s =
    (let rows = issue_table isWisp s in
     if oldID \<notin> ID ` set rows then Inl (NotFound oldID)
     else if newID \<noteq> oldID \<and> newID \<in> ID ` set rows then Inl (OpFailed ''update issue ID'')
     else Inr (set_issue_table isWisp (map (\<lambda>r. if ID r = oldID then rename_columns e newID i r else r) rows) s))"

definition updateIssueID :: "env \<Rightarrow> string \<Rightarrow> string \<Rightarrow> issue \<Rightarrow> string \<Rightarrow> db \<Rightarrow> store_error + db" where
  "updateIssueID e oldID newID i actor s =
     bind_res (rename_row e False oldID newID i s) (\<lambda>s1.
       bind_res (UpdateIssueIDInDependencies e oldID newID s1) (\<lambda>s2.
         Inr (RecordFullEvent False newID ''renamed'' actor oldID newID s2)))"

definition updateWispID :: "env \<Rightarrow> string \<Rightarrow> string \<Rightarrow> issue \<Rightarrow> string \<Rightarrow> db \<Rightarrow> store_error + db" where
  "updateWispID e oldID newID i actor s =
     bind_res (rename_row e True oldID newID i s) (\<lambda>s1.
       UpdateWispIDInDependencies e oldID newID (RecordFullEvent True newID ''renamed'' actor oldID newID s1))"

definition UpdateIssueID :: "env \<Rightarrow> string \<Rightarrow> string \<Rightarrow> issue \<Rightarrow> string \<Rightarrow> db \<Rightarrow> store_error + db" where
  "UpdateIssueID e oldID newID i actor s =
    (if IsActiveWisp s oldID then updateWispID e oldID newID i actor s
     else updateIssueID e oldID newID i actor s)"

subsection \<open>Promoting a wisp\<close>

definition retarget_row :: "bool \<Rightarrow> string \<Rightarrow> dep_row \<Rightarrow> dep_row" where
  "retarget_row toWisp x d =
    (if target_column (\<not> toWisp) d = Some x then
       (if toWisp then d\<lparr>depends_on_wisp_id := Some x, depends_on_issue_id := None\<rparr>
        else d\<lparr>depends_on_issue_id := Some x, depends_on_wisp_id := None\<rparr>)
     else d)"

text \<open>The UPDATE cannot meet a unique key: the first check looked for one.\<close>

definition retarget_table :: "bool \<Rightarrow> string \<Rightarrow> dep_row list \<Rightarrow> store_error + dep_row list" where
  "retarget_table toWisp x t =
     bind_res (checkRetargetTargetCollision t (\<not> toWisp) toWisp x) (\<lambda>u.
       bind_res (checkRenameTargetCollision t toWisp x) (\<lambda>v. Inr (map (retarget_row toWisp x) t)))"

definition retarget_both :: "bool \<Rightarrow> string \<Rightarrow> db \<Rightarrow> store_error + db" where
  "retarget_both toWisp x s =
     bind_res (retarget_table toWisp x (t_deps s)) (\<lambda>ds.
       bind_res (retarget_table toWisp x (t_wisp_deps s)) (\<lambda>ws. Inr (s\<lparr>t_deps := ds, t_wisp_deps := ws\<rparr>)))"

definition RetargetInboundDependenciesToWisp :: "string \<Rightarrow> db \<Rightarrow> store_error + db" where
  "RetargetInboundDependenciesToWisp x s = retarget_both True x s"

definition RetargetInboundDependenciesToIssue :: "string \<Rightarrow> db \<Rightarrow> store_error + db" where
  "RetargetInboundDependenciesToIssue x s = retarget_both False x s"

text \<open>
  \<^verbatim>\<open>INSERT OR IGNORE INTO t SELECT ... FROM wisp_t WHERE issue_id = ?\<close> and the DELETE that
  follows, for labels, dependencies, events and comments.  Event ids are fresh UUIDs,
  so no event is ignored.
\<close>

definition copy_labels :: "string \<Rightarrow> db \<Rightarrow> db" where
  "copy_labels x s = s\<lparr>t_labels := t_labels s @ dedup_from (t_labels s) (filter (\<lambda>l. fst l = x) (t_wisp_labels s)),
     t_wisp_labels := filter (\<lambda>l. fst l \<noteq> x) (t_wisp_labels s)\<rparr>"

definition copy_deps :: "string \<Rightarrow> db \<Rightarrow> db" where
  "copy_deps x s = s\<lparr>t_deps := insert_or_ignore_deps (filter (\<lambda>d. issue_id d = x) (t_wisp_deps s)) (t_deps s),
     t_wisp_deps := filter (\<lambda>d. issue_id d \<noteq> x) (t_wisp_deps s)\<rparr>"

definition copy_events :: "string \<Rightarrow> db \<Rightarrow> db" where
  "copy_events x s = s\<lparr>t_events := t_events s @ filter (\<lambda>v. ev_issue v = x) (t_wisp_events s),
     t_wisp_events := filter (\<lambda>v. ev_issue v \<noteq> x) (t_wisp_events s)\<rparr>"

fun insert_or_ignore_comments :: "comment list \<Rightarrow> comment list \<Rightarrow> comment list" where
  "insert_or_ignore_comments [] t = t"
| "insert_or_ignore_comments (c # cs) t =
    (if \<exists>b\<in>set t. CommentID b = CommentID c then insert_or_ignore_comments cs t
     else insert_or_ignore_comments cs (t @ [c]))"

definition copy_comments :: "string \<Rightarrow> db \<Rightarrow> db" where
  "copy_comments x s = s\<lparr>
     t_comments := insert_or_ignore_comments (filter (\<lambda>c. CommentIssueID c = x) (t_wisp_comments s)) (t_comments s),
     t_wisp_comments := filter (\<lambda>c. CommentIssueID c \<noteq> x) (t_wisp_comments s)\<rparr>"

definition promote_opts :: batch_opts where
  "promote_opts = default_batch_opts\<lparr>SkipPrefixValidation := True\<rparr>"

definition promoted_rows :: "env \<Rightarrow> string \<Rightarrow> db \<Rightarrow> store_error + db" where
  "promoted_rows e x s =
     bind_res (GetIssue s x) (\<lambda>r.
     bind_res (NewBatchContext e promote_opts s) (\<lambda>bc.
     bind_res (PrepareIssueForInsert e (CustomStatuses bc) (CustomTypes bc) ((issue.truncate r)\<lparr>Ephemeral := False\<rparr>)) (\<lambda>i.
     bind_res (RetargetInboundDependenciesToIssue x
         (copy_comments x (copy_events x (copy_deps x (copy_labels x
           (snd (snd (InsertIssueIfNew e False i default_batch_opts s)))))))) (\<lambda>s1.
       Inr (s1\<lparr>t_wisps := filter (\<lambda>w. ID w \<noteq> x) (t_wisps s1)\<rparr>)))))"

definition PromoteFromEphemeral :: "env \<Rightarrow> string \<Rightarrow> db \<Rightarrow> (store_error + db) option" where
  "PromoteFromEphemeral e x s =
    (if \<not> IsActiveWisp s x then Some (Inl (NotFound x))
     else (case promoted_rows e x s of
         Inl err \<Rightarrow> Some (Inl err)
       | Inr s1 \<Rightarrow> (let affected = AffectedByStatusChange s1 x
                    in map_option Inr (recomputeIsBlocked e (fst affected) (snd affected) s1))))"

subsection \<open>Renaming a prefix\<close>

text \<open>
  \<^verbatim>\<open>UPDATE t SET c = ? || substr(c, ?) WHERE c = ? OR c LIKE ?\<close>, row by row in the order of
  the table, failing at the first row that meets a key of another.
\<close>

fun update_each ::
  "(dep_row \<Rightarrow> bool) \<Rightarrow> (dep_row \<Rightarrow> dep_row) \<Rightarrow> dep_row list \<Rightarrow> dep_row list \<Rightarrow> store_error + dep_row list" where
  "update_each p f past [] = Inr past"
| "update_each p f past (d # ds) =
    (if \<not> p d then update_each p f (past @ [d]) ds
     else if \<exists>c\<in>set past \<union> set ds. dep_conflict (f d) c then Inl (OpFailed ''rename dependency prefix'')
     else update_each p f (past @ [f d]) ds)"

definition prefix_match :: "string \<Rightarrow> string \<Rightarrow> bool" where
  "prefix_match oldPrefix v = (v = oldPrefix \<or> sql_like (oldPrefix @ ''.%'') v)"

definition new_prefix :: "string \<Rightarrow> string \<Rightarrow> string \<Rightarrow> string" where
  "new_prefix oldPrefix newPrefix v = newPrefix @ drop (length oldPrefix) v"

definition opt_match :: "string \<Rightarrow> string option \<Rightarrow> bool" where
  "opt_match oldPrefix v = (case v of None \<Rightarrow> False | Some x \<Rightarrow> prefix_match oldPrefix x)"

definition rename_prefix_table :: "string \<Rightarrow> string \<Rightarrow> dep_row list \<Rightarrow> store_error + dep_row list" where
  "rename_prefix_table oldPrefix newPrefix t =
    (let np = new_prefix oldPrefix newPrefix in
     bind_res (update_each (\<lambda>d. prefix_match oldPrefix (issue_id d)) (\<lambda>d. d\<lparr>issue_id := np (issue_id d)\<rparr>) [] t) (\<lambda>t1.
     bind_res (update_each (\<lambda>d. opt_match oldPrefix (depends_on_issue_id d))
       (\<lambda>d. d\<lparr>depends_on_issue_id := map_option np (depends_on_issue_id d)\<rparr>) [] t1) (\<lambda>t2.
     update_each (\<lambda>d. opt_match oldPrefix (depends_on_wisp_id d))
       (\<lambda>d. d\<lparr>depends_on_wisp_id := map_option np (depends_on_wisp_id d)\<rparr>) [] t2)))"

definition RenameDependencyPrefix :: "string \<Rightarrow> string \<Rightarrow> db \<Rightarrow> store_error + db" where
  "RenameDependencyPrefix oldPrefix newPrefix s =
     bind_res (rename_prefix_table oldPrefix newPrefix (t_deps s)) (\<lambda>ds.
       bind_res (rename_prefix_table oldPrefix newPrefix (t_wisp_deps s)) (\<lambda>ws.
         Inr (s\<lparr>t_deps := ds, t_wisp_deps := ws\<rparr>)))"

subsection \<open>Dependents of wisps\<close>

text \<open>
  \<^verbatim>\<open>FindWispDependentsRecursiveInTx\<close>: the loop of \<^verbatim>\<open>FindAllDependentsInTx\<close>, with the same
  bounds, over \<^verbatim>\<open>wisp_dependencies\<close> alone; \<^verbatim>\<open>discovered\<close> is what was seen beyond the ids.
\<close>

definition FindWispDependentsRecursive :: "db \<Rightarrow> string list \<Rightarrow> store_error + string set" where
  "FindWispDependentsRecursive s ids =
    (if ids = [] then Inr {}
     else bind_res (find_dependents (s\<lparr>t_deps := []\<rparr>) (set ids) ids) (\<lambda>seen. Inr (seen - set ids)))"

end
