(* ===== verification/Moves.thy ===== *)
theory Moves
  imports Rename DepQueriesThms
begin

text \<open>
  Two databases that differ by moving nodes: a bijection of nodes carries the statuses
  and the dependency rows of one to the other.  Being blocked, the parents and the
  consistency of the flags are carried along.
\<close>

subsection \<open>The view of the dependency rows\<close>

definition tset :: "dep_row \<Rightarrow> node set" where
  "tset d = {(v, y). targets d v y}"

type_synonym edge_view = "node \<times> dep_type \<times> node set \<times> string"

definition edge_of :: "bool \<Rightarrow> dep_row \<Rightarrow> edge_view" where
  "edge_of w d = ((w, issue_id d), dtype d, tset d, dmetadata d)"

definition dep_view :: "db \<Rightarrow> edge_view set" where
  "dep_view s = {edge_of w d |w d. d \<in> set (dep_table w s)}"

definition has_status :: "db \<Rightarrow> node \<Rightarrow> status \<Rightarrow> bool" where
  "has_status s n st = (\<exists>r\<in>set (issue_table (fst n) s). ID r = snd n \<and> Status r = st)"

definition move_edge :: "(node \<Rightarrow> node) \<Rightarrow> edge_view \<Rightarrow> edge_view" where
  "move_edge f v = (case v of (n, t, T, m) \<Rightarrow> (f n, t, f ` T, m))"

definition moves :: "(node \<Rightarrow> node) \<Rightarrow> db \<Rightarrow> db \<Rightarrow> bool" where
  "moves f s s' = (bij f \<and> (\<forall>n st. has_status s' (f n) st = has_status s n st) \<and>
     dep_view s' = move_edge f ` dep_view s)"

lemma in_dep_view: "(n, t, T, m) \<in> dep_view s \<longleftrightarrow>
    (\<exists>d\<in>set (dep_table (fst n) s). issue_id d = snd n \<and> dtype d = t \<and> tset d = T \<and> dmetadata d = m)"
  by (cases n) (auto simp: dep_view_def edge_of_def)

lemma edge_in_view: "d \<in> set (dep_table w s) \<Longrightarrow> edge_of w d \<in> dep_view s"
  by (auto simp: dep_view_def)

lemma active_status_view: "active_node s n \<longleftrightarrow> (\<exists>st. has_status s n st \<and> active_status st)"
  by (auto simp: active_node_def has_status_def)

lemma nodes_status: "n \<in> nodes s \<longleftrightarrow> (\<exists>st. has_status s n st)"
  by (cases n) (auto simp: nodes_def has_status_def)

lemma in_tset: "(v, y) \<in> tset d \<longleftrightarrow> targets d v y" by (simp add: tset_def)

lemma joined_active: "joined_target s d (\<lambda>t. active_status (Status t)) \<longleftrightarrow> (\<exists>k\<in>tset d. active_node s k)"
proof -
  have "(\<exists>k\<in>tset d. active_node s k) \<longleftrightarrow> (\<exists>v y. targets d v y \<and> active_node s (v, y))" by (auto simp: tset_def)
  also have "\<dots> \<longleftrightarrow> (\<exists>v. \<exists>t\<in>set (issue_table v s). targets d v (ID t) \<and> active_status (Status t))"
    unfolding active_node_def fst_conv snd_conv by blast
  finally show ?thesis unfolding joined_target_def ex_bool_eq by (simp add: issue_table_def disj_commute)
qed

lemma hard_view: "hard_blocked s (dep_table (fst n) s) (snd n) \<longleftrightarrow>
    (\<exists>t T m. (n, t, T, m) \<in> dep_view s \<and> (t = DepBlocks \<or> t = DepConditionalBlocks) \<and> (\<exists>k\<in>T. active_node s k))"
  unfolding hard_blocked_def joined_active in_dep_view by blast

lemma parents_view: "parents s n = {k. \<exists>T m. (n, DepParentChild, T, m) \<in> dep_view s \<and> k \<in> T}"
  unfolding parents_def in_dep_view by (rule set_eqI) (simp add: split_paired_all in_tset, metis in_tset)

lemma same_target_tset: "same_target d cd \<longleftrightarrow> tset d \<inter> tset cd \<noteq> {}"
proof
  assume "same_target d cd"
  then consider x where "depends_on_issue_id d = Some x" "depends_on_issue_id cd = Some x"
    | x where "depends_on_wisp_id d = Some x" "depends_on_wisp_id cd = Some x"
    by (auto simp: same_target_def)
  then show "tset d \<inter> tset cd \<noteq> {}"
  proof cases
    case (1 x) then have "(False, x) \<in> tset d \<inter> tset cd" by (simp add: tset_def targets_def)
    then show ?thesis by blast
  next
    case (2 x) then have "(True, x) \<in> tset d \<inter> tset cd" by (simp add: tset_def targets_def)
    then show ?thesis by blast
  qed
next
  assume "tset d \<inter> tset cd \<noteq> {}"
  then obtain v y where "targets d v y" "targets cd v y" by (auto simp: tset_def)
  then show "same_target d cd" by (cases v) (auto simp: same_target_def targets_def)
qed

lemma spawned_view: "spawned_child s d p \<longleftrightarrow>
    (\<exists>c T m st. (c, DepParentChild, T, m) \<in> dep_view s \<and> tset d \<inter> T \<noteq> {} \<and> has_status s c st \<and> p st)"
proof -
  have "spawned_child s d p \<longleftrightarrow> (\<exists>w. \<exists>cd\<in>set (dep_table w s). dtype cd = DepParentChild \<and> tset d \<inter> tset cd \<noteq> {} \<and>
      (\<exists>child\<in>set (issue_table w s). ID child = issue_id cd \<and> p (Status child)))"
    by (simp add: spawned_child_def same_target_tset ex_bool_eq dep_table_def issue_table_def disj_commute)
  also have "\<dots> \<longleftrightarrow> (\<exists>w x T m st. ((w, x), DepParentChild, T, m) \<in> dep_view s \<and> tset d \<inter> T \<noteq> {} \<and>
      has_status s (w, x) st \<and> p st)"
    unfolding in_dep_view has_status_def by fastforce
  finally show ?thesis by simp
qed

definition gate_view :: "env \<Rightarrow> db \<Rightarrow> node set \<Rightarrow> string \<Rightarrow> bool" where
  "gate_view e s T m =
    (let child = (\<lambda>p. \<exists>c T' m' st. (c, DepParentChild, T', m') \<in> dep_view s \<and> T \<inter> T' \<noteq> {} \<and> has_status s c st \<and> p st)
     in holds (sql_and (Some (child active_status))
          (sql_not (sql_and (sql_eq (json_gate e m) WaitsForAnyChildren) (Some (child (\<lambda>st. st = StatusClosed)))))))"

lemma waits_view: "waits_blocked e s (dep_table (fst n) s) (snd n) \<longleftrightarrow>
    (\<exists>T m. (n, DepWaitsFor, T, m) \<in> dep_view s \<and> gate_view e s T m)"
  unfolding waits_blocked_def waitsForGateBlocked_def spawned_view gate_view_def Let_def in_dep_view by blast

subsection \<open>What a move carries\<close>

lemma movesD:
  assumes "moves f s s'"
  shows "bij f" "has_status s' (f n) st = has_status s n st" "dep_view s' = move_edge f ` dep_view s"
  using assms unfolding moves_def by blast+

lemma moves_edge:
  assumes "moves f s s'"
  shows "(f n, t, T', m) \<in> dep_view s' \<longleftrightarrow> (\<exists>T. T' = f ` T \<and> (n, t, T, m) \<in> dep_view s)"
proof -
  have "inj f" using movesD(1)[OF assms] by (rule bij_is_inj)
  then show ?thesis unfolding movesD(3)[OF assms] move_edge_def by (auto simp: inj_eq image_iff split: prod.splits)
qed

lemma moves_image:
  assumes "moves f s s'" obtains k where "n = f k"
  using bij_is_surj[OF movesD(1)[OF assms]] by (metis surjD)

lemma moves_edge_ex:
  assumes "moves f s s'"
  shows "(\<exists>n T m. (n, t, T, m) \<in> dep_view s' \<and> P n T m) \<longleftrightarrow> (\<exists>n T m. (n, t, T, m) \<in> dep_view s \<and> P (f n) (f ` T) m)"
proof
  show "\<exists>n T m. (n, t, T, m) \<in> dep_view s' \<and> P n T m \<Longrightarrow> \<exists>n T m. (n, t, T, m) \<in> dep_view s \<and> P (f n) (f ` T) m"
  proof -
    assume "\<exists>n T m. (n, t, T, m) \<in> dep_view s' \<and> P n T m"
    then obtain k T m where x: "(k, t, T, m) \<in> dep_view s'" "P k T m" by blast
    obtain n where k: "k = f n" using moves_image[OF assms] .
    obtain T' where T': "T = f ` T'" "(n, t, T', m) \<in> dep_view s" using x(1) moves_edge[OF assms] unfolding k by blast
    show ?thesis using T'(2) x(2) unfolding k T'(1) by (intro exI conjI)
  qed
  show "\<exists>n T m. (n, t, T, m) \<in> dep_view s' \<and> P n T m" if ex: "\<exists>n T m. (n, t, T, m) \<in> dep_view s \<and> P (f n) (f ` T) m"
  proof -
    obtain n T m where x: "(n, t, T, m) \<in> dep_view s" "P (f n) (f ` T) m" using ex by blast
    have "(f n, t, f ` T, m) \<in> dep_view s'" using x(1) moves_edge[OF assms] by blast
    then show ?thesis using x(2) by blast
  qed
qed

lemma moves_active:
  assumes "moves f s s'"
  shows "active_node s' (f n) \<longleftrightarrow> active_node s n"
  unfolding active_status_view movesD(2)[OF assms] by (rule refl)

lemma moves_nodes:
  assumes "moves f s s'"
  shows "f n \<in> nodes s' \<longleftrightarrow> n \<in> nodes s"
  unfolding nodes_status movesD(2)[OF assms] by (rule refl)

lemma moves_parents:
  assumes "moves f s s'"
  shows "parents s' (f n) = f ` parents s n"
  unfolding parents_view moves_edge[OF assms] by auto

lemma moves_gate:
  assumes m: "moves f s s'"
  shows "gate_view e s' (f ` T) g = gate_view e s T g"
proof -
  have inj: "inj f" using movesD(1)[OF m] by (rule bij_is_inj)
  have "(\<exists>c T' m' st. (c, DepParentChild, T', m') \<in> dep_view s' \<and> f ` T \<inter> T' \<noteq> {} \<and> has_status s' c st \<and> p st) \<longleftrightarrow>
        (\<exists>c T' m' st. (c, DepParentChild, T', m') \<in> dep_view s \<and> T \<inter> T' \<noteq> {} \<and> has_status s c st \<and> p st)" for p
  proof -
    have "(\<exists>c T' m'. (c, DepParentChild, T', m') \<in> dep_view s' \<and> f ` T \<inter> T' \<noteq> {} \<and> (\<exists>st. has_status s' c st \<and> p st)) \<longleftrightarrow>
        (\<exists>c T' m'. (c, DepParentChild, T', m') \<in> dep_view s \<and> T \<inter> T' \<noteq> {} \<and> (\<exists>st. has_status s c st \<and> p st))"
      unfolding moves_edge_ex[OF m] movesD(2)[OF m] by (simp add: image_Int[OF inj, symmetric])
    then show ?thesis by (simp only: ex_simps conj_assoc[symmetric]) blast
  qed
  from this[of active_status] this[of "\<lambda>st. st = StatusClosed"] show ?thesis
    unfolding gate_view_def Let_def by (simp only:)
qed

lemma moves_reason:
  assumes m: "moves f s s'"
  shows "own_reason e s' (f n) \<longleftrightarrow> own_reason e s n"
proof -
  have "hard_blocked s' (dep_table (fst (f n)) s') (snd (f n)) \<longleftrightarrow> hard_blocked s (dep_table (fst n) s) (snd n)"
    unfolding hard_view moves_edge[OF m] using moves_active[OF m] by (auto; blast)
  moreover have "waits_blocked e s' (dep_table (fst (f n)) s') (snd (f n)) \<longleftrightarrow> waits_blocked e s (dep_table (fst n) s) (snd n)"
    unfolding waits_view moves_edge[OF m] using moves_gate[OF m] by blast
  ultimately show ?thesis by (simp add: own_reason_def)
qed

lemma moves_wants:
  assumes m: "moves f s s'"
  shows "wants e s' (f ` F) (f n) \<longleftrightarrow> wants e s F n"
proof -
  have "f ` F \<inter> f ` parents s n = f ` (F \<inter> parents s n)" using image_Int[OF bij_is_inj[OF movesD(1)[OF m]]] by simp
  then show ?thesis by (simp add: wants_def moves_active[OF m] moves_reason[OF m] moves_parents[OF m])
qed

lemma moves_must_block:
  assumes m: "moves f s s'"
  shows "must_block e s' (f n) \<longleftrightarrow> must_block e s n"
proof
  have "must_block e s' k \<Longrightarrow> k = f n \<Longrightarrow> must_block e s n" for k n
  proof (induction k arbitrary: n rule: must_block.induct)
    case (own k)
    then show ?case using moves_active[OF m] moves_reason[OF m] must_block.own by blast
  next
    case (inherited k p)
    then obtain q where "q \<in> parents s n" "p = f q" using moves_parents[OF m] by auto
    then show ?case using inherited moves_active[OF m] must_block.inherited by blast
  qed
  then show "must_block e s' (f n) \<Longrightarrow> must_block e s n" by blast
  show "must_block e s n \<Longrightarrow> must_block e s' (f n)"
  proof (induction rule: must_block.induct)
    case (own n)
    then show ?case using moves_active[OF m] moves_reason[OF m] must_block.own by blast
  next
    case (inherited n p)
    then have "f p \<in> parents s' (f n)" using moves_parents[OF m] by blast
    then show ?case using inherited moves_active[OF m] must_block.inherited by blast
  qed
qed

lemma moves_acyclic:
  assumes m: "moves f s s'" and a: "acyclic_parents s"
  shows "acyclic_parents s'"
proof -
  have inj: "inj f" using movesD(1)[OF m] by (rule bij_is_inj)
  have e: "(p, n) \<in> parent_edges s' \<Longrightarrow> \<exists>q k. p = f q \<and> n = f k \<and> (q, k) \<in> parent_edges s" for p n
  proof -
    assume "(p, n) \<in> parent_edges s'"
    then have x: "n \<in> nodes s'" "p \<in> nodes s'" "p \<in> parents s' n" by (auto simp: parent_edges_def)
    obtain k where k: "n = f k" using moves_image[OF m] .
    then obtain q where "q \<in> parents s k" "p = f q" using x(3) moves_parents[OF m] by auto
    then have "(q, k) \<in> parent_edges s" using x k moves_nodes[OF m] unfolding parent_edges_def by blast
    then show ?thesis using k \<open>p = f q\<close> by blast
  qed
  have "(p, n) \<in> (parent_edges s')\<^sup>+ \<Longrightarrow> \<exists>q k. p = f q \<and> n = f k \<and> (q, k) \<in> (parent_edges s)\<^sup>+" for p n
  proof (induction rule: trancl_induct)
    case (base n) then show ?case using e by blast
  next
    case (step n n')
    then obtain q k k' r where x: "p = f q" "n = f k" "(q, k) \<in> (parent_edges s)\<^sup>+" "n = f r" "n' = f k'" "(r, k') \<in> parent_edges s"
      using e by blast
    then have "r = k" using inj by (auto dest: injD)
    then show ?case using x by (blast intro: trancl_into_trancl)
  qed
  then show ?thesis using a inj unfolding acyclic_parents_def acyclic_def by (metis injD)
qed

text \<open>If the flags move along, they stay exact.\<close>

lemma moves_consistent:
  assumes m: "moves f s s'" and w: "wf_db s" "wf_db s'" and c: "blocked_consistent e s"
    and fl: "flagged s' = f ` flagged s"
  shows "blocked_consistent e s'"
proof -
  have inj: "inj f" using movesD(1)[OF m] by (rule bij_is_inj)
  have c': "n \<in> nodes s \<Longrightarrow> n \<in> flagged s \<longleftrightarrow> wants e s (flagged s) n" for n
    using c unfolding blocked_consistent_engine[OF w(1)] be.consistent_on_def by blast
  have "n \<in> nodes s' \<Longrightarrow> n \<in> flagged s' \<longleftrightarrow> wants e s' (flagged s') n" for n
  proof -
    assume n: "n \<in> nodes s'"
    obtain k where k: "n = f k" using moves_image[OF m] .
    then have "k \<in> nodes s" using n moves_nodes[OF m] by simp
    then show ?thesis using c' moves_wants[OF m] unfolding k fl inj_image_mem_iff[OF inj] by blast
  qed
  then show ?thesis unfolding blocked_consistent_engine[OF w(2)] be.consistent_on_def by blast
qed

end
