(* ===== verification/RenameThms.thy ===== *)
theory RenameThms
  imports Moves CreateThms
begin

text \<open>
  Renaming an issue and promoting a wisp are moves of one node: what the statements
  leave in the tables, and that the flags stay exact.
\<close>

subsection \<open>Keys\<close>

text \<open>The row ids are those of \<^verbatim>\<open>depid.New\<close>, which hashes source and target without collision.\<close>

definition dep_ids :: "env \<Rightarrow> db \<Rightarrow> bool" where
  "dep_ids e s = (\<forall>w. \<forall>d\<in>set (dep_table w s). dep_id d = depid_New e (issue_id d) (target_of d))"

definition depid_injective :: "env \<Rightarrow> bool" where
  "depid_injective e = (\<forall>a b c d. depid_New e a b = depid_New e c d \<longrightarrow> a = c \<and> b = d)"

definition keyed :: "env \<Rightarrow> dep_row list \<Rightarrow> bool" where
  "keyed e t = (distinct (map (\<lambda>d. (issue_id d, target_of d)) t) \<and>
     (\<forall>d\<in>set t. one_target d \<and> dep_id d = depid_New e (issue_id d) (target_of d)))"

lemma one_target_cases:
  assumes "one_target d"
  obtains y where "depends_on_issue_id d = Some y" "depends_on_wisp_id d = None" "depends_on_external d = None" "target_of d = y"
  | y where "depends_on_issue_id d = None" "depends_on_wisp_id d = Some y" "depends_on_external d = None" "target_of d = y"
  | y where "depends_on_issue_id d = None" "depends_on_wisp_id d = None" "depends_on_external d = Some y" "target_of d = y"
  using assms
  by (cases "depends_on_issue_id d"; cases "depends_on_wisp_id d"; cases "depends_on_external d")
    (auto simp: one_target_def target_of_def dep_target_def)

lemma one_target_Some: "one_target d \<Longrightarrow> dep_target d = Some (target_of d)"
  by (erule one_target_cases) (auto simp: dep_target_def)

lemma distinct_targets:
  assumes "\<And>d. d \<in> set t \<Longrightarrow> dep_target d = Some (target_of d)"
  shows "distinct (map (\<lambda>d. (issue_id d, dep_target d)) t) = distinct (map (\<lambda>d. (issue_id d, target_of d)) t)"
proof -
  have "inj_on (\<lambda>d. (issue_id d, dep_target d)) (set t) = inj_on (\<lambda>d. (issue_id d, target_of d)) (set t)"
    unfolding inj_on_def using assms by simp
  then show ?thesis by (simp add: distinct_map)
qed

lemma keyed_table:
  assumes "dep_keys s" "dep_ids e s"
  shows "keyed e (dep_table w s)"
proof -
  have o: "one_target d" if "d \<in> set (dep_table w s)" for d using assms(1) that by (auto simp: dep_keys_def)
  have "distinct (map (\<lambda>d. (issue_id d, target_of d)) (dep_table w s))"
    using distinct_targets[OF one_target_Some[OF o]] assms(1) unfolding dep_keys_def by blast
  then show ?thesis using o assms(2) by (auto simp: keyed_def dep_ids_def)
qed

lemma keyed_dep_keys:
  assumes "\<And>w. keyed e (dep_table w s)"
  shows "dep_keys s" "dep_ids e s"
proof -
  have o: "one_target d" if "d \<in> set (dep_table w s)" for d w using assms[of w] that by (auto simp: keyed_def)
  have "distinct (map (\<lambda>d. (issue_id d, dep_target d)) (dep_table w s))" for w
    using distinct_targets[OF one_target_Some[OF o], of "dep_table w s" "\<lambda>_. w"] assms[of w] by (simp add: keyed_def)
  then show "dep_keys s" using o unfolding dep_keys_def by blast
  show "dep_ids e s" using assms unfolding dep_ids_def keyed_def by blast
qed

lemma keyed_unique: "keyed e t \<Longrightarrow> a \<in> set t \<Longrightarrow> b \<in> set t \<Longrightarrow> issue_id a = issue_id b \<Longrightarrow> target_of a = target_of b \<Longrightarrow> a = b"
  unfolding keyed_def distinct_map inj_on_def by blast

text \<open>Two rows that follow the keys conflict only if they have the same key.\<close>

lemma one_target_column:
  assumes "one_target d" "depends_on_issue_id d = Some y \<or> depends_on_wisp_id d = Some y \<or> depends_on_external d = Some y"
  shows "target_of d = y"
  using assms(1) by (cases rule: one_target_cases) (use assms(2) in auto)

lemma conflict_same:
  assumes "depid_injective e" "one_target a" "one_target b" "dep_conflict a b"
    and "dep_id a = depid_New e (issue_id a) (target_of a)" "dep_id b = depid_New e (issue_id b) (target_of b)"
  shows "issue_id a = issue_id b \<and> target_of a = target_of b"
proof (cases "dep_id a = dep_id b")
  case True
  then have "depid_New e (issue_id a) (target_of a) = depid_New e (issue_id b) (target_of b)" using assms(5,6) by simp
  then show ?thesis using assms(1) unfolding depid_injective_def by blast
next
  case False
  obtain y where "issue_id a = issue_id b"
    "depends_on_issue_id a = Some y \<and> depends_on_issue_id b = Some y \<or> depends_on_wisp_id a = Some y \<and> depends_on_wisp_id b = Some y \<or>
     depends_on_external a = Some y \<and> depends_on_external b = Some y"
    using assms(4) False unfolding dep_conflict_def same_column_def by (metis option.exhaust)
  moreover have "target_of a = y" by (rule one_target_column[OF assms(2)]) (use calculation(2) in blast)
  moreover have "target_of b = y" by (rule one_target_column[OF assms(3)]) (use calculation(2) in blast)
  ultimately show ?thesis by simp
qed

lemma insert_deps_ok:
  assumes "\<And>d c. d \<in> set ds \<Longrightarrow> c \<in> set t \<Longrightarrow> \<not> dep_conflict d c" "sorted_wrt (\<lambda>a b. \<not> dep_conflict b a) ds"
  shows "insert_deps ds t = Inr (t @ ds)"
  using assms
proof (induction ds arbitrary: t)
  case (Cons d ds)
  have "insert_deps ds (t @ [d]) = Inr ((t @ [d]) @ ds)" by (rule Cons.IH) (use Cons.prems in auto)
  then show ?case using Cons.prems(1) by auto
qed simp

lemma insert_or_ignore_ok:
  assumes "\<And>d c. d \<in> set ds \<Longrightarrow> c \<in> set t \<Longrightarrow> \<not> dep_conflict d c" "sorted_wrt (\<lambda>a b. \<not> dep_conflict b a) ds"
  shows "insert_or_ignore_deps ds t = t @ ds"
  using assms
proof (induction ds arbitrary: t)
  case (Cons d ds)
  have "insert_or_ignore_deps ds (t @ [d]) = (t @ [d]) @ ds" by (rule Cons.IH) (use Cons.prems in auto)
  then show ?case using Cons.prems(1) by auto
qed simp

lemma keyed_conflict_free:
  assumes "depid_injective e" "keyed e t"
  shows "sorted_wrt (\<lambda>a b. \<not> dep_conflict b a) t"
proof -
  have "distinct t" using assms(2) by (simp add: keyed_def distinct_map)
  moreover have "\<not> dep_conflict b a" if "a \<in> set t" "b \<in> set t" "a \<noteq> b" for a b
    using conflict_same[OF assms(1), of b a] keyed_unique[OF assms(2) that(1,2)] that assms(2) by (auto simp: keyed_def)
  ultimately show ?thesis by (induction t) auto
qed

subsection \<open>Rewriting the rows of a table\<close>

lemma target_column_targets: "target_column w d = Some x \<longleftrightarrow> targets d w x"
  by (simp add: target_column_def targets_def)

lemma set_target_simps [simp]:
  "one_target (set_target e c new d)" "target_of (set_target e c new d) = new" "issue_id (set_target e c new d) = issue_id d"
  "dep_id (set_target e c new d) = depid_New e (issue_id d) new" "dtype (set_target e c new d) = dtype d"
  "dmetadata (set_target e c new d) = dmetadata d"
  by (simp_all add: set_target_def one_target_def target_of_def dep_target_def)

lemma targets_target_of: "one_target d \<Longrightarrow> targets d w x \<Longrightarrow> target_of d = x"
  by (rule one_target_column) (auto simp: targets_def split: if_splits)

lemma keyed_append:
  assumes "keyed e a" "keyed e b" "\<And>x y. x \<in> set a \<Longrightarrow> y \<in> set b \<Longrightarrow> issue_id x = issue_id y \<Longrightarrow> target_of x \<noteq> target_of y"
  shows "keyed e (a @ b)"
  using assms unfolding keyed_def by auto

lemma keyed_filter: "keyed e t \<Longrightarrow> keyed e (filter P t)"
  by (auto simp: keyed_def distinct_map_filter)

definition retargeted :: "env \<Rightarrow> bool \<Rightarrow> string \<Rightarrow> string \<Rightarrow> dep_row list \<Rightarrow> dep_row list" where
  "retargeted e c old new t =
     filter (\<lambda>d. \<not> targets d c old) t @ map (set_target e c new) (filter (\<lambda>d. targets d c old) t)"

lemma set_target_keyed:
  assumes "keyed e t" "\<And>d. d \<in> set t \<Longrightarrow> targets d c old"
  shows "keyed e (map (set_target e c new) t)"
proof -
  have "target_of d = old" if "d \<in> set t" for d using assms(1) targets_target_of[OF _ assms(2)[OF that]] that by (auto simp: keyed_def)
  then have "inj_on issue_id (set t)"
    using keyed_unique[OF assms(1)] by (auto intro!: inj_onI)
  then show ?thesis using assms(1) by (auto simp: keyed_def distinct_map o_def inj_on_def)
qed

lemma retargeted_keyed:
  assumes k: "keyed e t" and n: "\<And>d. d \<in> set t \<Longrightarrow> target_of d \<noteq> new"
  shows "keyed e (retargeted e c old new t)"
  unfolding retargeted_def
  by (intro keyed_append keyed_filter[OF k] set_target_keyed) (use n in auto)

lemma replace_target_ok:
  assumes inj: "depid_injective e" and k: "keyed e t" and n: "\<And>d. d \<in> set t \<Longrightarrow> target_of d \<noteq> new"
    and m: "\<And>d. d \<in> set t \<Longrightarrow> names_target c old d \<longleftrightarrow> targets d c old"
  shows "replaceDependencyTarget e c old new t = Inr (retargeted e c old new t)"
proof -
  have o: "one_target d" if "d \<in> set t" for d using k that by (simp add: keyed_def)
  have "checkRenameTargetCollision t c new = Inr ()"
    using n targets_target_of[OF o] unfolding checkRenameTargetCollision_def target_column_targets by auto
  moreover have f: "filter (names_target c old) t = filter (\<lambda>d. targets d c old) t"
    "filter (\<lambda>d. \<not> names_target c old d) t = filter (\<lambda>d. \<not> targets d c old) t"
    using m by (auto intro: filter_cong)
  note r = retargeted_keyed[OF k n, of c old]
  have "sorted_wrt (\<lambda>a b. \<not> dep_conflict b a) (retargeted e c old new t)" by (rule keyed_conflict_free[OF inj r])
  then have "insert_deps (map (set_target e c new) (filter (\<lambda>d. targets d c old) t)) (filter (\<lambda>d. \<not> targets d c old) t) =
      Inr (retargeted e c old new t)"
    unfolding retargeted_def by (intro insert_deps_ok) (auto simp: sorted_wrt_append)
  ultimately show ?thesis unfolding replaceDependencyTarget_def f by simp
qed

definition rekeyed :: "env \<Rightarrow> string \<Rightarrow> string \<Rightarrow> dep_row \<Rightarrow> dep_row" where
  "rekeyed e old new d = (if issue_id d = old then d\<lparr>dep_id := depid_New e new (target_of d), issue_id := new\<rparr> else d)"

lemma rekeyed_columns:
  "depends_on_issue_id (rekeyed e old new d) = depends_on_issue_id d"
  "depends_on_wisp_id (rekeyed e old new d) = depends_on_wisp_id d"
  "depends_on_external (rekeyed e old new d) = depends_on_external d"
  "dtype (rekeyed e old new d) = dtype d" "dmetadata (rekeyed e old new d) = dmetadata d"
  "issue_id (rekeyed e old new d) = (if issue_id d = old then new else issue_id d)"
  by (simp_all add: rekeyed_def)

lemma rekeyed_target [simp]:
  "target_of (rekeyed e old new d) = target_of d" "one_target (rekeyed e old new d) = one_target d"
  "dtype (rekeyed e old new d) = dtype d" "dmetadata (rekeyed e old new d) = dmetadata d"
  "targets (rekeyed e old new d) v y = targets d v y" "tset (rekeyed e old new d) = tset d"
  "issue_id (rekeyed e old new d) = (if issue_id d = old then new else issue_id d)"
proof -
  have "dep_target (rekeyed e old new d) = dep_target d"
    by (simp add: dep_target_def rekeyed_columns split: option.split)
  then show "target_of (rekeyed e old new d) = target_of d" by (simp add: target_of_def)
  have t: "targets (rekeyed e old new d) v y = targets d v y" for v y by (cases v) (simp_all add: targets_def rekeyed_columns)
  then show "targets (rekeyed e old new d) v y = targets d v y" "tset (rekeyed e old new d) = tset d"
    by (simp_all add: tset_def)
qed (simp_all add: rekeyed_columns one_target_def)

lemma rekeyed_id:
  "issue_id d = old \<Longrightarrow> dep_id (rekeyed e old new d) = depid_New e new (target_of d)"
  "issue_id d \<noteq> old \<Longrightarrow> rekeyed e old new d = d"
  by (simp_all add: rekeyed_def)

lemma rekeyed_keyed:
  assumes k: "keyed e t" and n: "\<And>d. d \<in> set t \<Longrightarrow> issue_id d \<noteq> new"
  shows "keyed e (map (rekeyed e old new) t)"
proof -
  have "inj_on (\<lambda>d. (issue_id (rekeyed e old new d), target_of d)) (set t)"
    using keyed_unique[OF k] n by (auto simp: inj_on_def split: if_splits)
  moreover have "distinct t" using k by (simp add: keyed_def distinct_map)
  moreover have "dep_id (rekeyed e old new d) = depid_New e (issue_id (rekeyed e old new d)) (target_of d)" if "d \<in> set t" for d
    using k that by (simp add: keyed_def rekeyed_def)
  ultimately show ?thesis using k by (auto simp: keyed_def distinct_map o_def comp_def inj_on_def)
qed

definition partly_rekeyed :: "env \<Rightarrow> string \<Rightarrow> string \<Rightarrow> string set \<Rightarrow> dep_row list \<Rightarrow> dep_row list" where
  "partly_rekeyed e old new S t = map (\<lambda>d. if dep_id d \<in> S then rekeyed e old new d else d) t"

lemma rekey_step:
  assumes inj: "depid_injective e" and k: "keyed e t" and n: "\<And>d. d \<in> set t \<Longrightarrow> issue_id d \<noteq> new"
    and d: "d \<in> set t" "issue_id d = old" and ne: "old \<noteq> new"
  shows "rekey_row new (dep_id d, depid_New e new (target_of d)) (partly_rekeyed e old new S t) =
    Inr (partly_rekeyed e old new (insert (dep_id d) S) t)"
proof -
  define ch where "ch = (\<lambda>r::dep_row. r\<lparr>dep_id := depid_New e new (target_of d), issue_id := new\<rparr>)"
  have id: "dep_id c = depid_New e (issue_id c) (target_of c)" "one_target c" if "c \<in> set t" for c
    using k that by (simp_all add: keyed_def)
  have same: "a = d" if "a \<in> set t" "dep_id a = dep_id d" for a
  proof -
    have "depid_New e (issue_id a) (target_of a) = depid_New e (issue_id d) (target_of d)" using id that d by simp
    then show ?thesis using inj keyed_unique[OF k that(1) d(1)] unfolding depid_injective_def by blast
  qed
  have new_id: "dep_id (rekeyed e old new a) \<noteq> dep_id d" if "a \<in> set t" "a \<noteq> d" for a
  proof
    assume x: "dep_id (rekeyed e old new a) = dep_id d"
    show False
    proof (cases "issue_id a = old")
      case True
      then have "depid_New e new (target_of a) = depid_New e old (target_of d)" using x id[OF d(1)] d(2) by (simp add: rekeyed_def)
      then show ?thesis using inj ne unfolding depid_injective_def by blast
    next
      case False
      then show ?thesis using x same[OF that(1)] that(2) by (simp add: rekeyed_def)
    qed
  qed
  have self: "dep_id (rekeyed e old new d) \<noteq> dep_id d"
  proof
    assume "dep_id (rekeyed e old new d) = dep_id d"
    then have "depid_New e new (target_of d) = depid_New e old (target_of d)" using id[OF d(1)] d(2) by (simp add: rekeyed_def)
    then show False using inj ne unfolding depid_injective_def by blast
  qed
  have ch: "ch d = rekeyed e old new d" using d(2) by (simp add: ch_def rekeyed_def)
  have row: "x = d \<and> dep_id d \<notin> S" if "x \<in> set (partly_rekeyed e old new S t)" "dep_id x = dep_id d" for x
    using that same new_id self unfolding partly_rekeyed_def by (auto split: if_splits)
  have "\<not> dep_conflict (ch x) c" if x: "x \<in> set (partly_rekeyed e old new S t)" "dep_id x = dep_id d"
    and c: "c \<in> set (partly_rekeyed e old new S t)" "dep_id c \<noteq> dep_id d" for x c
  proof
    assume co: "dep_conflict (ch x) c"
    have xd: "x = d" "dep_id d \<notin> S" using row[OF x] by auto
    obtain c0 where c0: "c0 \<in> set t" "c = (if dep_id c0 \<in> S then rekeyed e old new c0 else c0)"
      using c(1) by (auto simp: partly_rekeyed_def)
    have kc: "dep_id c = depid_New e (issue_id c) (target_of c)" "one_target c" "target_of c = target_of c0"
      using id[OF c0(1)] c0(2) rekeyed_id[of c0 old e new] by (cases "issue_id c0 = old"; auto split: if_splits)+
    have kd: "dep_id (ch d) = depid_New e (issue_id (ch d)) (target_of (ch d))" "one_target (ch d)"
      "issue_id (ch d) = new" "target_of (ch d) = target_of d"
      unfolding ch using id[OF d(1)] d(2) rekeyed_id(1)[of d old e new] by simp_all
    have eq: "issue_id c = new" "target_of c0 = target_of d"
      using conflict_same[OF inj kd(2) kc(2) _ kd(1) kc(1)] co kc(3) kd(3,4) unfolding xd by auto
    then have "dep_id c0 \<in> S" "issue_id c0 = old" using c0 n[OF c0(1)] by (auto split: if_splits)
    then show False using keyed_unique[OF k c0(1) d(1)] eq(2) d(2) xd(2) by auto
  qed
  moreover have "map (\<lambda>x. if dep_id x = dep_id d then ch x else x) (partly_rekeyed e old new S t) =
      partly_rekeyed e old new (insert (dep_id d) S) t"
  proof -
    have "(if dep_id (if dep_id a \<in> S then rekeyed e old new a else a) = dep_id d
           then ch (if dep_id a \<in> S then rekeyed e old new a else a) else (if dep_id a \<in> S then rekeyed e old new a else a)) =
          (if dep_id a \<in> insert (dep_id d) S then rekeyed e old new a else a)" if "a \<in> set t" for a
      using that same[OF that] new_id[OF that] self ch by auto
    then show ?thesis by (simp add: partly_rekeyed_def)
  qed
  ultimately show ?thesis unfolding rekey_row_def Let_def ch_def by auto
qed

lemma rekey_fold:
  assumes inj: "depid_injective e" and k: "keyed e t" and n: "\<And>d. d \<in> set t \<Longrightarrow> issue_id d \<noteq> new" and ne: "old \<noteq> new"
    and r: "\<And>p. p \<in> set rks \<Longrightarrow> \<exists>d\<in>set t. issue_id d = old \<and> p = (dep_id d, depid_New e new (target_of d))"
  shows "fold (\<lambda>rk r. bind_res r (rekey_row new rk)) rks (Inr (partly_rekeyed e old new S t)) =
    Inr (partly_rekeyed e old new (S \<union> fst ` set rks) t)"
  using r
proof (induction rks arbitrary: S)
  case (Cons p rks)
  obtain d where d: "d \<in> set t" "issue_id d = old" "p = (dep_id d, depid_New e new (target_of d))" using Cons.prems by fastforce
  have "rekey_row new p (partly_rekeyed e old new S t) = Inr (partly_rekeyed e old new (insert (dep_id d) S) t)"
    unfolding d(3) by (rule rekey_step[OF inj k n d(1,2) ne])
  then show ?case using Cons.IH[of "insert (dep_id d) S"] Cons.prems d(3) by simp
qed simp

lemma rekey_ok:
  assumes inj: "depid_injective e" and k: "keyed e t" and n: "\<And>d. d \<in> set t \<Longrightarrow> issue_id d \<noteq> new" and ne: "old \<noteq> new"
  shows "rekeyDependencySource e old new t = Inr (map (rekeyed e old new) t)"
proof -
  have id: "dep_id c = depid_New e (issue_id c) (target_of c)" "resolveDependencyTarget c = Some (target_of c)" if "c \<in> set t" for c
    using k that one_target_Some[of c] by (auto simp: keyed_def resolveDependencyTarget_def dep_target_def)
  have stale: "depid_New e new (target_of d) \<noteq> dep_id d" if "d \<in> set t" "issue_id d = old" for d
    using inj ne id(1)[OF that(1)] that(2) unfolding depid_injective_def by metis
  have s: "set (stale_ids e old new t) = {(dep_id d, depid_New e new (target_of d)) |d. d \<in> set t \<and> issue_id d = old}"
    unfolding stale_ids_def using n id(2) stale by (force simp: split: if_splits)
  have "rekeyDependencySource e old new t = Inr (partly_rekeyed e old new ({} \<union> fst ` set (stale_ids e old new t)) t)"
    unfolding rekeyDependencySource_def
    using rekey_fold[OF inj k n ne, of "stale_ids e old new t" "{}"] s by (force simp: partly_rekeyed_def)
  moreover have "partly_rekeyed e old new (fst ` set (stale_ids e old new t)) t = map (rekeyed e old new) t"
    unfolding partly_rekeyed_def s by (rule map_cong) (auto simp: rekeyed_def image_iff)
  ultimately show ?thesis by simp
qed

subsection \<open>Exchanging two nodes\<close>

definition exchange :: "node \<Rightarrow> node \<Rightarrow> node \<Rightarrow> node" where
  "exchange a b n = (if n = a then b else if n = b then a else n)"

lemma exchange_bij: "bij (exchange a b)"
  by (rule o_bij[where g = "exchange a b"]) (auto simp: exchange_def fun_eq_iff)

lemma exchange_simps [simp]: "exchange a b a = b" "n \<noteq> a \<Longrightarrow> n \<noteq> b \<Longrightarrow> exchange a b n = n"
  by (auto simp: exchange_def)

lemma exchange_back [simp]: "exchange a b b = a"
  by (simp add: exchange_def)

lemma exchange_image: "a \<notin> T \<Longrightarrow> b \<notin> T \<Longrightarrow> exchange a b ` T = T"
  by (auto simp: exchange_def image_iff split: if_splits)

lemma in_exchange: "n \<in> exchange a b ` A \<longleftrightarrow> exchange a b n \<in> A"
proof -
  have "exchange a b (exchange a b k) = k" for k by (auto simp: exchange_def)
  then show ?thesis by (metis imageE imageI)
qed

lemma movesI:
  assumes "bij f" "\<And>n st. has_status s' (f n) st = has_status s n st"
    and "\<And>w d'. d' \<in> set (dep_table w s') \<Longrightarrow> \<exists>v. \<exists>d\<in>set (dep_table v s). edge_of w d' = move_edge f (edge_of v d)"
    and "\<And>v d. d \<in> set (dep_table v s) \<Longrightarrow> \<exists>w. \<exists>d'\<in>set (dep_table w s'). edge_of w d' = move_edge f (edge_of v d)"
  shows "moves f s s'"
proof -
  have "dep_view s' = move_edge f ` dep_view s"
  proof (rule set_eqI, rule iffI)
    fix x assume "x \<in> dep_view s'"
    then obtain w d' where "x = edge_of w d'" "d' \<in> set (dep_table w s')" by (auto simp: dep_view_def)
    then show "x \<in> move_edge f ` dep_view s" using assms(3) edge_in_view by (metis imageI)
  next
    fix x assume "x \<in> move_edge f ` dep_view s"
    then obtain v d where "x = move_edge f (edge_of v d)" "d \<in> set (dep_table v s)" by (auto simp: dep_view_def)
    then show "x \<in> dep_view s'" using assms(4) edge_in_view by metis
  qed
  then show ?thesis using assms(1,2) unfolding moves_def by blast
qed

lemma tset_one: "one_target d \<Longrightarrow> targets d w x \<Longrightarrow> tset d = {(w, x)}"
  by (erule one_target_cases) (auto simp: tset_def targets_def split: if_splits)

lemma tset_target: "one_target d \<Longrightarrow> (w, x) \<in> tset d \<Longrightarrow> target_of d = x"
  using targets_target_of in_tset by metis

lemma tset_set_target: "tset (set_target e c new d) = {(c, new)}"
  by (auto simp: tset_def targets_def set_target_def split: if_splits)

subsection \<open>Renaming a permanent issue\<close>

definition unmentioned :: "db \<Rightarrow> string \<Rightarrow> bool" where
  "unmentioned s x = (\<forall>w. (\<forall>r\<in>set (issue_table w s). ID r \<noteq> x) \<and>
     (\<forall>d\<in>set (dep_table w s). issue_id d \<noteq> x \<and> target_of d \<noteq> x))"

definition renamed_row :: "env \<Rightarrow> string \<Rightarrow> string \<Rightarrow> issue \<Rightarrow> issue_row \<Rightarrow> issue_row" where
  "renamed_row e old new i r = (if ID r = old then rename_columns e new i r else r)"

definition renamed_dep :: "env \<Rightarrow> bool \<Rightarrow> string \<Rightarrow> string \<Rightarrow> dep_row \<Rightarrow> dep_row" where
  "renamed_dep e w old new d =
    (let d1 = (if targets d False old then set_target e False new d else d)
     in if w then d1 else rekeyed e old new d1)"

lemma retargeted_set: "set (retargeted e c old new t) = (\<lambda>d. if targets d c old then set_target e c new d else d) ` set t"
  by (auto simp: retargeted_def)

lemma renamed_edge:
  assumes "one_target d" "issue_id d \<noteq> new" "target_of d \<noteq> new"
  shows "edge_of w (renamed_dep e w old new d) = move_edge (exchange (False, old) (False, new)) (edge_of w d)"
proof -
  have t: "tset (if targets d False old then set_target e False new d else d) = exchange (False, old) (False, new) ` tset d"
  proof (cases "targets d False old")
    case True
    then show ?thesis using tset_one[OF assms(1) True] by (simp add: tset_set_target)
  next
    case False
    then have "(False, old) \<notin> tset d" "(False, new) \<notin> tset d" using tset_target[OF assms(1)] assms(3) by (auto simp: in_tset)
    then show ?thesis using False by (simp add: exchange_image)
  qed
  have s: "(w, if \<not> w \<and> issue_id d = old then new else issue_id d) = exchange (False, old) (False, new) (w, issue_id d)"
    using assms(2) by (auto simp: exchange_def)
  show ?thesis using t s by (cases w) (auto simp: edge_of_def move_edge_def renamed_dep_def Let_def)
qed

lemma rename_columns_simps [simp]:
  "ID (rename_columns e new i r) = new" "Status (rename_columns e new i r) = Status r"
  "ClosedAt (rename_columns e new i r) = ClosedAt r" "IsBlocked (rename_columns e new i r) = IsBlocked r"
  by (simp_all add: rename_columns_def)

lemma updateIssueID_tables:
  assumes inj: "depid_injective e" and dk: "dep_keys s" "dep_ids e s" and ro: "routed s"
    and r: "r \<in> set (t_issues s)" "ID r = old" and fr: "unmentioned s new"
  shows "\<exists>s'. UpdateIssueID e old new i actor s = Inr s' \<and>
    t_issues s' = map (renamed_row e old new i) (t_issues s) \<and> t_wisps s' = t_wisps s \<and>
    (\<forall>w. set (dep_table w s') = renamed_dep e w old new ` set (dep_table w s) \<and> keyed e (dep_table w s')) \<and>
    t_labels s' = t_labels s \<and> t_comments s' = t_comments s"
proof -
  have ne: "old \<noteq> new" using fr r unfolding unmentioned_def by (metis issue_table_def)
  have nm: "target_of d \<noteq> new" "issue_id d \<noteq> new" if "d \<in> set (dep_table w s)" for w d
    using fr that by (auto simp: unmentioned_def)
  have k: "keyed e (dep_table w s)" for w by (rule keyed_table[OF dk])
  have nw: "\<not> IsActiveWisp s old"
    using routedD(1)[OF ro, of r False] r unfolding IsActiveWisp_def issue_table_def by (simp; metis)
  define rows where "rows = map (renamed_row e old new i) (t_issues s)"
  have row: "rename_row e False old new i s = Inr (s\<lparr>t_issues := rows\<rparr>)"
  proof -
    have "old \<in> ID ` set (issue_table False s)" using r by (auto simp: issue_table_def)
    moreover have "new \<notin> ID ` set (issue_table False s)" using fr by (auto simp: unmentioned_def)
    ultimately show ?thesis
      by (simp add: rename_row_def Let_def rows_def renamed_row_def[abs_def]) (simp add: issue_table_def set_issue_table_def)
  qed
  have named: "names_target False old d \<longleftrightarrow> targets d False old" if "d \<in> set (dep_table w s)" for w d
  proof -
    have "\<not> targets d True old" using routedD(3)[OF ro that, of True old r] r by (auto simp: issue_table_def)
    moreover have "one_target d" using k that by (simp add: keyed_def)
    ultimately show ?thesis
      by (auto elim!: one_target_cases simp: names_target_def target_column_targets dep_target_def targets_def)
  qed
  define t where "t w = retargeted e False old new (dep_table w s)" for w
  have rep: "replaceDependencyTarget e False old new (dep_table w s) = Inr (t w)" for w
    unfolding t_def by (rule replace_target_ok[OF inj k]) (use nm named in blast)+
  have kt: "keyed e (t w)" for w unfolding t_def by (rule retargeted_keyed[OF k]) (use nm in blast)
  have st: "set (t w) = (\<lambda>d. if targets d False old then set_target e False new d else d) ` set (dep_table w s)" for w
    unfolding t_def by (rule retargeted_set)
  have src: "issue_id d \<noteq> new" if dw: "d \<in> set (t w)" for d w
  proof -
    obtain x where x: "x \<in> set (dep_table w s)" "d = (if targets x False old then set_target e False new x else x)"
      using dw unfolding st by blast
    then have "issue_id d = issue_id x" by (cases "targets x False old") simp_all
    then show ?thesis using nm(2)[OF x(1)] by simp
  qed
  have rek: "rekeyDependencySource e old new (t False) = Inr (map (rekeyed e old new) (t False))"
    by (rule rekey_ok[OF inj kt src ne])
  define s1 where "s1 = s\<lparr>t_issues := rows, t_wisp_deps := t True, t_deps := map (rekeyed e old new) (t False)\<rparr>"
  have "UpdateIssueID e old new i actor s = Inr (RecordFullEvent False new ''renamed'' actor old new s1)"
    using nw row rep[of False] rep[of True] rek
    by (simp add: UpdateIssueID_def updateIssueID_def UpdateIssueIDInDependencies_def replace_in_both_def dep_table_def s1_def)
  moreover have "set (dep_table w (RecordFullEvent False new ''renamed'' actor old new s1)) = renamed_dep e w old new ` set (dep_table w s) \<and>
      keyed e (dep_table w (RecordFullEvent False new ''renamed'' actor old new s1))" for w
  proof -
    have d: "dep_table True s1 = t True" "dep_table False s1 = map (rekeyed e old new) (t False)"
      by (simp_all add: s1_def dep_table_def)
    have k': "keyed e (map (rekeyed e old new) (t False))" by (rule rekeyed_keyed[OF kt src])
    have i: "renamed_dep e True old new = (\<lambda>d. if targets d False old then set_target e False new d else d)"
      "renamed_dep e False old new = (\<lambda>d. rekeyed e old new (if targets d False old then set_target e False new d else d))"
      by (simp_all add: renamed_dep_def[abs_def] Let_def)
    show ?thesis
    proof (cases w)
      case True
      then have "w = True" by simp
      show ?thesis using kt[of True] unfolding event_frame \<open>w = True\<close> d i st by blast
    next
      case False
      then have "w = False" by simp
      show ?thesis using k' unfolding event_frame \<open>w = False\<close> d i set_map st image_image by blast
    qed
  qed
  ultimately show ?thesis by (auto simp: RecordFullEvent_def set_event_table_def s1_def rows_def)
qed

lemma rename_moves:
  assumes dk: "dep_keys s" and fr: "unmentioned s new"
    and t: "t_issues s' = map (renamed_row e old new i) (t_issues s)" "t_wisps s' = t_wisps s"
    "\<And>w. set (dep_table w s') = renamed_dep e w old new ` set (dep_table w s)"
  shows "moves (exchange (False, old) (False, new)) s s'"
    and "flagged s' = exchange (False, old) (False, new) ` flagged s"
    and "wf_db s \<Longrightarrow> wf_db s'" and "rows_closed_at s \<Longrightarrow> rows_closed_at s'"
proof -
  let ?f = "exchange (False, old) (False, new)"
  have nm: "target_of d \<noteq> new" "issue_id d \<noteq> new" if "d \<in> set (dep_table w s)" for w d
    using fr that by (auto simp: unmentioned_def)
  have nr: "ID r \<noteq> new" if "r \<in> set (issue_table w s)" for w r using fr that by (auto simp: unmentioned_def)
  have o: "one_target d" if "d \<in> set (dep_table w s)" for w d using dk that by (auto simp: dep_keys_def)
  define g where "g w r = (if w then r else renamed_row e old new i r)" for w r
  have rows: "issue_table w s' = map (g w) (issue_table w s)" for w
    using t(1,2) by (cases w) (simp_all add: issue_table_def g_def[abs_def])
  have g: "(w, ID (g w r)) = ?f (w, ID r)" "Status (g w r) = Status r" "ClosedAt (g w r) = ClosedAt r"
    "IsBlocked (g w r) = IsBlocked r" if "r \<in> set (issue_table w s)" for w r
    using nr[OF that] by (auto simp: g_def renamed_row_def exchange_def)
  have inv: "?f (?f n) = n" for n by (auto simp: exchange_def)
  have ex: "(\<exists>r\<in>set (issue_table (fst (?f n)) s'). ID r = snd (?f n) \<and> P (Status r) (IsBlocked r)) \<longleftrightarrow>
      (\<exists>r\<in>set (issue_table (fst n) s). ID r = snd n \<and> P (Status r) (IsBlocked r))" for n P
  proof -
    have fst: "fst (?f n) = fst n" by (cases n) (auto simp: exchange_def)
    have "(\<exists>r\<in>set (issue_table (fst (?f n)) s'). ID r = snd (?f n) \<and> P (Status r) (IsBlocked r)) \<longleftrightarrow>
        (\<exists>r\<in>set (issue_table (fst n) s). ?f (fst n, ID r) = ?f n \<and> P (Status r) (IsBlocked r))"
      unfolding rows fst bex_map
    proof (rule bex_cong[OF refl])
      fix r assume r: "r \<in> set (issue_table (fst n) s)"
      have "ID (g (fst n) r) = snd (?f n) \<longleftrightarrow> (fst n, ID (g (fst n) r)) = ?f n"
        unfolding prod_eq_iff fst_conv snd_conv fst by simp
      then show "(ID (g (fst n) r) = snd (?f n) \<and> P (Status (g (fst n) r)) (IsBlocked (g (fst n) r))) =
          (?f (fst n, ID r) = ?f n \<and> P (Status r) (IsBlocked r))"
        using g[OF r] by simp
    qed
    also have "\<dots> \<longleftrightarrow> (\<exists>r\<in>set (issue_table (fst n) s). ID r = snd n \<and> P (Status r) (IsBlocked r))"
      unfolding inj_eq[OF bij_is_inj[OF exchange_bij]] by (simp add: prod_eq_iff)
    finally show ?thesis .
  qed
  show "moves ?f s s'"
  proof (rule movesI[OF exchange_bij])
    show "has_status s' (?f n) st = has_status s n st" for n st
      using ex[of n "\<lambda>a b. a = st"] by (simp add: has_status_def)
    show "\<exists>v. \<exists>d\<in>set (dep_table v s). edge_of w d' = move_edge ?f (edge_of v d)" if "d' \<in> set (dep_table w s')" for w d'
      using that renamed_edge[OF o nm(2) nm(1)] unfolding t(3) by blast
    show "\<exists>w. \<exists>d'\<in>set (dep_table w s'). edge_of w d' = move_edge ?f (edge_of v d)" if "d \<in> set (dep_table v s)" for v d
      using renamed_edge[OF o[OF that] nm(2)[OF that] nm(1)[OF that], of v e] that unfolding t(3) by blast
  qed
  have "n \<in> flagged s' \<longleftrightarrow> ?f n \<in> flagged s" for n
    using ex[of "?f n" "\<lambda>a b. b"] unfolding inv flagged_def by (simp add: case_prod_unfold)
  then show "flagged s' = ?f ` flagged s" unfolding set_eq_iff in_exchange by blast
  show "wf_db s'" if "wf_db s"
  proof -
    have "distinct (map ID (issue_table w s'))" for w
    proof -
      have "inj_on (\<lambda>r. ID (g w r)) (set (issue_table w s))"
      proof (rule inj_onI)
        fix a b assume ab: "a \<in> set (issue_table w s)" "b \<in> set (issue_table w s)" "ID (g w a) = ID (g w b)"
        then have "?f (w, ID a) = ?f (w, ID b)" using g(1) by metis
        then have "ID a = ID b" using bij_is_inj[OF exchange_bij] by (simp add: inj_eq)
        then show "a = b" using ab wf_db_table[OF that, of w] by (simp add: distinct_map inj_on_def)
      qed
      then show ?thesis using wf_db_table[OF that, of w] unfolding rows by (simp add: distinct_map o_def)
    qed
    then show ?thesis by (simp add: wf_db_def)
  qed
  show "rows_closed_at s'" if "rows_closed_at s"
    using that g(2,3) unfolding rows_closed_at_def rows by (auto simp: closed_at_invariant_def)
qed

theorem rename_keeps:
  assumes g: "good_db e s" and inj: "depid_injective e" and dk: "dep_keys s" "dep_ids e s" and ro: "routed s"
    and r: "r \<in> set (t_issues s)" "ID r = old" and fr: "unmentioned s new"
  shows "\<exists>s'. UpdateIssueID e old new i actor s = Inr s' \<and> good_db e s' \<and> dep_keys s' \<and> dep_ids e s' \<and>
    moves (exchange (False, old) (False, new)) s s' \<and>
    t_issues s' = map (renamed_row e old new i) (t_issues s) \<and> t_wisps s' = t_wisps s \<and>
    t_labels s' = t_labels s \<and> t_comments s' = t_comments s"
proof -
  obtain s' where s': "UpdateIssueID e old new i actor s = Inr s'"
    "t_issues s' = map (renamed_row e old new i) (t_issues s)" "t_wisps s' = t_wisps s"
    "\<And>w. set (dep_table w s') = renamed_dep e w old new ` set (dep_table w s)" "\<And>w. keyed e (dep_table w s')"
    "t_labels s' = t_labels s" "t_comments s' = t_comments s"
    using updateIssueID_tables[OF inj dk ro r fr, of i actor] by blast
  note m = rename_moves[OF dk(1) fr s'(2,3,4)]
  have gs: "wf_db s" "acyclic_parents s" "blocked_consistent e s" "rows_closed_at s" using g by (simp_all add: good_db_def)
  have "good_db e s'"
    using m(3)[OF gs(1)] moves_acyclic[OF m(1) gs(2)] moves_consistent[OF m(1) gs(1) m(3)[OF gs(1)] gs(3) m(2)] m(4)[OF gs(4)]
    by (simp add: good_db_def)
  then show ?thesis using s' m(1) keyed_dep_keys[of e s'] by blast
qed

subsection \<open>Promoting a wisp\<close>

lemma Prepare_changes:
  assumes "PrepareIssueForInsert e cs ct i = Inr i'"
  shows "\<exists>a b c h. i' = i\<lparr>CreatedAt := a, UpdatedAt := b, ClosedAt := c, ContentHash := h\<rparr>"
proof -
  define i1 where "i1 = (if CreatedAt i = zero_time then i\<lparr>CreatedAt := now e\<rparr> else i)"
  define i2 where "i2 = (if UpdatedAt i1 = zero_time then i1\<lparr>UpdatedAt := now e\<rparr> else i1)"
  define i3 where "i3 = (if Status i2 = StatusClosed \<and> ClosedAt i2 = None
      then i2\<lparr>ClosedAt := Some ((if UpdatedAt i2 > CreatedAt i2 then UpdatedAt i2 else CreatedAt i2) + second)\<rparr> else i2)"
  have i': "i' = (if ContentHash i3 = '''' then i3\<lparr>ContentHash := ComputeContentHash (sha256_Sum e) i3\<rparr> else i3)"
    using assms unfolding PrepareIssueForInsert_def Let_def i1_def[symmetric] i2_def[symmetric] i3_def[symmetric]
    by (cases "ValidateWithCustom (json_ok e) cs ct i3") (simp_all split: if_splits)
  have 1: "i1 = i\<lparr>CreatedAt := CreatedAt i1\<rparr>" by (cases i) (simp add: i1_def)
  have 2: "i2 = i1\<lparr>UpdatedAt := UpdatedAt i2\<rparr>" by (cases i1) (simp add: i2_def)
  have 3: "i3 = i2\<lparr>ClosedAt := ClosedAt i3\<rparr>" by (cases i2) (simp add: i3_def)
  have 4: "i' = i3\<lparr>ContentHash := ContentHash i'\<rparr>" by (cases i3) (simp add: i')
  have "i' = i\<lparr>CreatedAt := CreatedAt i1, UpdatedAt := UpdatedAt i2, ClosedAt := ClosedAt i3, ContentHash := ContentHash i'\<rparr>"
    using 1 2 3 4 by metis
  then show ?thesis by blast
qed

definition promoted_dep :: "string \<Rightarrow> dep_row \<Rightarrow> dep_row" where
  "promoted_dep x d = (if targets d True x then d\<lparr>depends_on_issue_id := Some x, depends_on_wisp_id := None\<rparr> else d)"

lemma retarget_row_promoted: "retarget_row False x = promoted_dep x"
  by (simp add: fun_eq_iff retarget_row_def promoted_dep_def target_column_targets)

lemma promoted_dep_simps [simp]:
  "issue_id (promoted_dep x d) = issue_id d" "dep_id (promoted_dep x d) = dep_id d" "dtype (promoted_dep x d) = dtype d"
  "dmetadata (promoted_dep x d) = dmetadata d"
  by (simp_all add: promoted_dep_def)

lemma promoted_dep_target:
  assumes "one_target d"
  shows "one_target (promoted_dep x d)" "target_of (promoted_dep x d) = target_of d"
proof -
  have "one_target (promoted_dep x d) \<and> target_of (promoted_dep x d) = target_of d"
  proof (cases "targets d True x")
    case True
    then have p: "promoted_dep x d = d\<lparr>depends_on_issue_id := Some x, depends_on_wisp_id := None\<rparr>"
      by (simp add: promoted_dep_def)
    have "depends_on_wisp_id d = Some x" using True by (simp add: targets_def)
    then have "depends_on_external d = None" using assms by (auto elim: one_target_cases)
    then show ?thesis using targets_target_of[OF assms True] unfolding p
      by (simp add: one_target_def target_of_def dep_target_def)
  next
    case False
    then show ?thesis using assms by (simp add: promoted_dep_def)
  qed
  then show "one_target (promoted_dep x d)" "target_of (promoted_dep x d) = target_of d" by simp_all
qed

lemma promoted_keyed: "keyed e t \<Longrightarrow> keyed e (map (promoted_dep x) t)"
  using promoted_dep_target unfolding keyed_def by (auto simp: o_def cong: map_cong)

lemma promoted_edge:
  assumes "one_target d" "\<not> targets d False x" "\<not> w \<Longrightarrow> issue_id d \<noteq> x"
  shows "edge_of (w \<and> issue_id d \<noteq> x) (promoted_dep x d) = move_edge (exchange (True, x) (False, x)) (edge_of w d)"
proof -
  have t: "tset (promoted_dep x d) = exchange (True, x) (False, x) ` tset d"
  proof (cases "targets d True x")
    case True
    then have p: "promoted_dep x d = d\<lparr>depends_on_issue_id := Some x, depends_on_wisp_id := None\<rparr>"
      by (simp add: promoted_dep_def)
    have "tset (promoted_dep x d) = {(False, x)}" unfolding p by (auto simp: tset_def targets_def split: if_splits)
    then show ?thesis using tset_one[OF assms(1) True] by simp
  next
    case False
    then show ?thesis using assms(2) by (simp add: promoted_dep_def exchange_image in_tset)
  qed
  have "(w \<and> issue_id d \<noteq> x, issue_id d) = exchange (True, x) (False, x) (w, issue_id d)"
    using assms(3) by (auto simp: exchange_def)
  then show ?thesis using t by (simp add: edge_of_def move_edge_def)
qed

lemma promoted_tables:
  assumes inj: "depid_injective e" and dk: "dep_keys s" "dep_ids e s" and ro: "routed s"
    and r: "GetIssue s x = Inr r" "IsActiveWisp s x" and bc: "NewBatchContext e promote_opts s = Inr bc"
    and i: "PrepareIssueForInsert e (CustomStatuses bc) (CustomTypes bc) ((issue.truncate r)\<lparr>Ephemeral := False\<rparr>) = Inr i"
  shows "\<exists>s1. promoted_rows e x s = Inr s1 \<and> t_issues s1 = t_issues s @ [new_row e i] \<and>
    t_wisps s1 = filter (\<lambda>q. ID q \<noteq> x) (t_wisps s) \<and>
    t_deps s1 = map (promoted_dep x) (t_deps s @ filter (\<lambda>d. issue_id d = x) (t_wisp_deps s)) \<and>
    t_wisp_deps s1 = map (promoted_dep x) (filter (\<lambda>d. issue_id d \<noteq> x) (t_wisp_deps s)) \<and>
    set (t_labels s1) = set (t_labels s) \<union> {l \<in> set (t_wisp_labels s). fst l = x} \<and>
    t_wisp_labels s1 = filter (\<lambda>l. fst l \<noteq> x) (t_wisp_labels s) \<and>
    t_events s1 = t_events s @ filter (\<lambda>v. ev_issue v = x) (t_wisp_events s)"
proof -
  have k: "keyed e (dep_table w s)" for w by (rule keyed_table[OF dk])
  obtain q where q: "q \<in> set (issue_table True s)" "ID q = x" using r(2) by (auto simp: IsActiveWisp_def issue_table_def)
  have ni: "x \<notin> ID ` set (t_issues s)" using routedD(1)[OF ro q(1)] q(2) by (auto simp: issue_table_def)
  have ns: "issue_id d \<noteq> x" if "d \<in> set (t_deps s)" for d
    using routedD(2)[OF ro, of d False q] q that by (auto simp: dep_table_def)
  have nt: "\<not> targets d False x" "depends_on_external d \<noteq> Some x" if "d \<in> set (dep_table w s)" for d w
    using routedD(3)[OF ro that, of False x q] routedD(4)[OF ro that _ q(1)] q by auto
  have ID_i: "ID i = x" using Prepare_ok[OF i] GetIssue_ok[OF r(1)] by (simp add: issue.truncate_def issue.defs)
  define s0 where "s0 = s\<lparr>t_issues := t_issues s @ [new_row e i]\<rparr>"
  have ins: "snd (snd (InsertIssueIfNew e False i default_batch_opts s)) = s0"
    using ni ID_i
    by (simp add: InsertIssueIfNew_def insertIssueIntoTable_def default_batch_opts_def s0_def issue_table_def set_issue_table_def Let_def)
  define moved where "moved = filter (\<lambda>d. issue_id d = x) (t_wisp_deps s)"
  have km: "keyed e (t_deps s @ moved)"
    unfolding moved_def using k[of False] keyed_filter[OF k[of True]] ns by (intro keyed_append) (auto simp: dep_table_def)
  have "insert_or_ignore_deps moved (t_deps s) = t_deps s @ moved"
    using keyed_conflict_free[OF inj km] by (intro insert_or_ignore_ok) (auto simp: sorted_wrt_append)
  define s2 where "s2 = copy_comments x (copy_events x (copy_deps x (copy_labels x s0)))"
  have d2: "t_deps s2 = t_deps s @ moved" "t_wisp_deps s2 = filter (\<lambda>d. issue_id d \<noteq> x) (t_wisp_deps s)"
    using \<open>insert_or_ignore_deps moved (t_deps s) = t_deps s @ moved\<close>
    by (simp_all add: s2_def copy_comments_def copy_events_def copy_deps_def copy_labels_def s0_def moved_def)
  have all: "d \<in> set (t_deps s2) \<or> d \<in> set (t_wisp_deps s2) \<Longrightarrow> \<exists>w. d \<in> set (dep_table w s)" for d
    unfolding d2 moved_def ex_bool_eq by (auto simp: dep_table_def)
  have ok: "retarget_table False x t = Inr (map (promoted_dep x) t)" if "set t \<subseteq> set (t_deps s2) \<union> set (t_wisp_deps s2)" for t
  proof -
    have n: "\<not> targets d False x" "depends_on_external d \<noteq> Some x" if "d \<in> set t" for d
      using all[of d] nt that \<open>set t \<subseteq> _\<close> by blast+
    have "checkRetargetTargetCollision t True False x = Inr ()" "checkRenameTargetCollision t False x = Inr ()"
      using n unfolding checkRetargetTargetCollision_def checkRenameTargetCollision_def target_column_targets by auto
    then show ?thesis by (simp add: retarget_table_def retarget_row_promoted)
  qed
  define s1 where "s1 = s2\<lparr>t_wisps := filter (\<lambda>q. ID q \<noteq> x) (t_wisps s2),
    t_deps := map (promoted_dep x) (t_deps s2), t_wisp_deps := map (promoted_dep x) (t_wisp_deps s2)\<rparr>"
  have "promoted_rows e x s = Inr s1"
    using bc i ok[of "t_deps s2"] ok[of "t_wisp_deps s2"]
    by (simp add: promoted_rows_def r(1) ins RetargetInboundDependenciesToIssue_def retarget_both_def s2_def[symmetric] s1_def)
  then show ?thesis
    using d2 by (auto simp: s1_def moved_def s2_def copy_comments_def copy_events_def copy_deps_def copy_labels_def s0_def set_dedup_from)
qed

lemma promote_moves:
  assumes dk: "dep_keys s" and ro: "routed s" and wf: "wf_db s"
    and r: "r \<in> set (t_wisps s)" "ID r = x" and n: "ID n = x" "Status n = Status r" "\<not> IsBlocked n"
    and t: "t_issues s1 = t_issues s @ [n]" "t_wisps s1 = filter (\<lambda>q. ID q \<noteq> x) (t_wisps s)"
      "t_deps s1 = map (promoted_dep x) (t_deps s @ filter (\<lambda>d. issue_id d = x) (t_wisp_deps s))"
      "t_wisp_deps s1 = map (promoted_dep x) (filter (\<lambda>d. issue_id d \<noteq> x) (t_wisp_deps s))"
  shows "moves (exchange (True, x) (False, x)) s s1"
    and "flagged s1 = exchange (True, x) (False, x) ` flagged s - {(False, x)}"
    and "wf_db s1"
proof -
  let ?f = "exchange (True, x) (False, x)"
  have rt: "r \<in> set (issue_table True s)" using r(1) by (simp add: issue_table_def)
  have o: "one_target d" if "d \<in> set (dep_table w s)" for w d using dk that by (auto simp: dep_keys_def)
  have ni: "x \<notin> ID ` set (t_issues s)" using routedD(1)[OF ro rt] r(2) by (auto simp: issue_table_def)
  have only: "q = r" if "q \<in> set (t_wisps s)" "ID q = x" for q
    using wf_db_table[OF wf, of True] r that by (auto simp: issue_table_def distinct_map inj_on_def)
  have e: "edge_of (w \<and> issue_id d \<noteq> x) (promoted_dep x d) = move_edge ?f (edge_of w d)" if d: "d \<in> set (dep_table w s)" for w d
  proof (rule promoted_edge[OF o[OF d]])
    show "\<not> targets d False x" using routedD(3)[OF ro d, of False x r] rt r(2) by auto
    show "issue_id d \<noteq> x" if "\<not> w" using routedD(2)[OF ro d, of r] rt r(2) that by auto
  qed
  have tab: "d' \<in> set (dep_table v s1) \<longleftrightarrow> (\<exists>w. \<exists>d\<in>set (dep_table w s). d' = promoted_dep x d \<and> v = (w \<and> issue_id d \<noteq> x))" for v d'
    using t(3,4) by (cases v) (auto simp: dep_table_def ex_bool_eq)
  have row: "(\<exists>q\<in>set (issue_table (fst (?f m)) s1). ID q = snd (?f m) \<and> P (Status q)) \<longleftrightarrow>
      (\<exists>q\<in>set (issue_table (fst m) s). ID q = snd m \<and> P (Status q))" for m P
  proof -
    consider "m = (True, x)" | "m = (False, x)" | "snd m \<noteq> x" by (cases m) auto
    then show ?thesis
    proof cases
      case 1
      have "(\<exists>q\<in>set (t_wisps s). ID q = x \<and> P (Status q)) \<longleftrightarrow> P (Status r)" using r only by blast
      moreover have "(\<exists>q\<in>set (t_issues s @ [n]). ID q = x \<and> P (Status q)) \<longleftrightarrow> P (Status r)"
        using ni n(1,2) by (simp add: image_iff) blast
      ultimately show ?thesis unfolding 1 by (simp add: issue_table_def t(1))
    next
      case 2
      have "\<not> (\<exists>q\<in>set (t_issues s). ID q = x \<and> P (Status q))" using ni by auto
      then show ?thesis unfolding 2 by (auto simp: issue_table_def t(2))
    next
      case 3
      then have "?f m = m" by (auto simp: exchange_def)
      then show ?thesis using 3 n(1) by (auto simp: issue_table_def t(1,2))
    qed
  qed
  show "moves ?f s s1"
  proof (rule movesI[OF exchange_bij])
    show "has_status s1 (?f m) st = has_status s m st" for m st
      using row[of m "\<lambda>a. a = st"] by (simp add: has_status_def)
    show "\<exists>v. \<exists>d\<in>set (dep_table v s). edge_of w d' = move_edge ?f (edge_of v d)" if "d' \<in> set (dep_table w s1)" for w d'
      using that e unfolding tab by blast
    show "\<exists>w. \<exists>d'\<in>set (dep_table w s1). edge_of w d' = move_edge ?f (edge_of v d)" if "d \<in> set (dep_table v s)" for v d
      using e[OF that] that tab by blast
  qed
  have inv: "?f (?f m) = m" for m by (auto simp: exchange_def)
  have "m \<in> flagged s1 \<longleftrightarrow> ?f m \<in> flagged s \<and> m \<noteq> (False, x)" for m
  proof -
    consider "m = (True, x)" | "m = (False, x)" | "snd m \<noteq> x" by (cases m) auto
    then show ?thesis
    proof cases
      case 1
      then show ?thesis using t(2) ni by (auto simp: flagged_def issue_table_def)
    next
      case 2
      then show ?thesis using t(1) ni n(3) by (auto simp: flagged_def issue_table_def)
    next
      case 3
      then have "?f m = m" by (auto simp: exchange_def)
      then show ?thesis using 3 n(1) t(1,2) by (cases m) (auto simp: flagged_def issue_table_def)
    qed
  qed
  then show "flagged s1 = ?f ` flagged s - {(False, x)}" unfolding set_eq_iff Diff_iff in_exchange by blast
  have "distinct (map ID (issue_table w s1))" for w
    using wf_db_table[OF wf, of w] t(1,2) n(1) ni by (cases w) (auto simp: issue_table_def distinct_map_filter)
  then show "wf_db s1" by (simp add: wf_db_def)
qed

theorem promote_keeps:
  assumes g: "good_db e s" and inj: "depid_injective e" and dk: "dep_keys s" "dep_ids e s" and ro: "routed s"
    and r: "r \<in> set (t_wisps s)" "ID r = x" and bc: "NewBatchContext e promote_opts s = Inr bc"
    and i: "PrepareIssueForInsert e (CustomStatuses bc) (CustomTypes bc) ((issue.truncate r)\<lparr>Ephemeral := False\<rparr>) = Inr i"
  shows "\<exists>s1 s'. promoted_rows e x s = Inr s1 \<and> PromoteFromEphemeral e x s = Some (Inr s') \<and> good_db e s' \<and>
    dep_keys s1 \<and> dep_ids e s1 \<and> moves (exchange (True, x) (False, x)) s s1 \<and> same_but_flags s1 s' \<and>
    t_issues s1 = t_issues s @ [new_row e i] \<and> t_wisps s1 = filter (\<lambda>q. ID q \<noteq> x) (t_wisps s) \<and>
    set (t_labels s1) = set (t_labels s) \<union> {l \<in> set (t_wisp_labels s). fst l = x}"
proof -
  let ?f = "exchange (True, x) (False, x)"
  have gs: "wf_db s" "acyclic_parents s" "blocked_consistent e s" "rows_closed_at s" using g by (simp_all add: good_db_def)
  have rt: "r \<in> set (issue_table True s)" using r(1) by (simp add: issue_table_def)
  have act: "IsActiveWisp s x" using r by (auto simp: IsActiveWisp_def)
  have ni: "x \<notin> ID ` set (t_issues s)" using routedD(1)[OF ro rt] r(2) by (auto simp: issue_table_def)
  have sel: "select_row x (t_wisps s) = Some r" using select_row_distinct[OF wf_db_table[OF gs(1)] rt] r(2) by (simp add: issue_table_def)
  have get: "GetIssue s x = Inr r" using ni sel by (simp add: GetIssue_def select_row_None[THEN iffD2])
  obtain s1 where s1: "promoted_rows e x s = Inr s1" "t_issues s1 = t_issues s @ [new_row e i]"
    "t_wisps s1 = filter (\<lambda>q. ID q \<noteq> x) (t_wisps s)"
    "t_deps s1 = map (promoted_dep x) (t_deps s @ filter (\<lambda>d. issue_id d = x) (t_wisp_deps s))"
    "t_wisp_deps s1 = map (promoted_dep x) (filter (\<lambda>d. issue_id d \<noteq> x) (t_wisp_deps s))"
    "set (t_labels s1) = set (t_labels s) \<union> {l \<in> set (t_wisp_labels s). fst l = x}"
    using promoted_tables[OF inj dk ro get act bc i] by blast
  obtain a b c h where ch: "i = (issue.truncate r)\<lparr>Ephemeral := False, CreatedAt := a, UpdatedAt := b, ClosedAt := c, ContentHash := h\<rparr>"
    using Prepare_changes[OF i] by blast
  have n: "ID (new_row e i) = x" "Status (new_row e i) = Status r" "\<not> IsBlocked (new_row e i)"
    using r(2) by (simp_all add: ch issue.truncate_def)
  note m = promote_moves[OF dk(1) ro gs(1) r n s1(2-5)]
  have ac: "acyclic_parents s1" by (rule moves_acyclic[OF m(1) gs(2)])
  define q where "q = AffectedByStatusChange s1 x"
  have q: "q = affected_status False s1 x" by (simp add: q_def affected_status_def)
  have sp: "(False, x) \<in> scope_of (fst q) (snd q)" "be.child_closed (scope_of (fst q) (snd q)) s1"
    unfolding scope_span q using affected_status_span(1,4) by blast+
  have co: "be.consistent_on e (- scope_of (fst q) (snd q)) s1"
    unfolding be.consistent_on_def
  proof (intro ballI)
    fix k assume k: "k \<in> - scope_of (fst q) (snd q) \<inter> nodes s1"
    obtain j where j: "k = ?f j" using moves_image[OF m(1)] .
    have jn: "j \<in> nodes s" using k moves_nodes[OF m(1)] unfolding j by blast
    have kx: "k \<noteq> (False, x)" using k sp(1) by blast
    have "(False, x) \<in> nodes s1" using s1(2) n(1) by (auto simp: nodes_def issue_table_def)
    then have "(False, x) \<notin> parents s1 k" using k sp unfolding be.child_closed_def by blast
    then have "flagged s1 \<inter> parents s1 k = ?f ` flagged s \<inter> parents s1 k" unfolding m(2) by blast
    then have "wants e s1 (flagged s1) k = wants e s1 (?f ` flagged s) k" by (simp add: wants_def)
    also have "\<dots> = wants e s (flagged s) j" unfolding j by (rule moves_wants[OF m(1)])
    also have "\<dots> = (j \<in> flagged s)"
      using gs(3) jn unfolding blocked_consistent_engine[OF gs(1)] be.consistent_on_def by blast
    also have "\<dots> = (k \<in> flagged s1)"
      using kx unfolding m(2) j by (simp add: inj_image_mem_iff[OF bij_is_inj[OF exchange_bij]])
    finally show "(k \<in> flagged s1) = wants e s1 (flagged s1) k" by simp
  qed
  obtain s' where s': "recomputeIsBlocked e (fst q) (snd q) s1 = Some s'" "wf_db s'" "same_but_flags s1 s'" "blocked_consistent e s'"
    using recompute_repairs[OF m(3) ac sp(2) co] by blast
  have "rows_closed_at s1"
    using gs(4) Prepare_ok[OF i] s1(2,3) unfolding rows_closed_at_def all_bool_eq
    by (auto simp: issue_table_def closed_at_invariant_def)
  then have good: "good_db e s'"
    using s' acyclic_parents_same[OF s'(3)] rows_closed_at_same[OF s'(3)] ac by (simp add: good_db_def)
  have k: "keyed e (dep_table w s)" for w by (rule keyed_table[OF dk])
  have ns: "issue_id d \<noteq> x" if "d \<in> set (t_deps s)" for d
    using routedD(2)[OF ro, of d False r] rt r(2) that by (auto simp: dep_table_def)
  have "keyed e (t_deps s1)" unfolding s1(4)
    by (intro promoted_keyed keyed_append) (use k[of False] keyed_filter[OF k[of True]] ns in \<open>auto simp: dep_table_def\<close>)
  moreover have "keyed e (t_wisp_deps s1)" unfolding s1(5)
    by (intro promoted_keyed) (use keyed_filter[OF k[of True]] in \<open>simp add: dep_table_def\<close>)
  ultimately have kt: "keyed e (dep_table w s1)" for w by (cases w) (simp_all add: dep_table_def)
  have "dep_keys s1" "dep_ids e s1" using keyed_dep_keys[of e s1, OF kt] by simp_all
  moreover have "PromoteFromEphemeral e x s = Some (Inr s')"
    using act s1(1) s'(1) by (simp add: PromoteFromEphemeral_def q_def[symmetric])
  ultimately show ?thesis using s1 good m(1) s'(3) by blast
qed

end
