(* ===== verification/PropsRename.thy ===== *)
theory PropsRename
  imports RenameThms PropsReady
begin

text \<open>The properties of renaming an issue and of promoting a wisp.\<close>

subsection \<open>Renaming\<close>

lemma select_renamed:
  assumes "distinct (map ID rows)" "new \<notin> ID ` set rows" "old \<noteq> new"
  shows "select_row old (map (renamed_row e old new i) rows) = None"
    and "r \<in> set rows \<Longrightarrow> ID r = old \<Longrightarrow>
      select_row new (map (renamed_row e old new i) rows) = Some (rename_columns e new i r)"
    and "x \<noteq> old \<Longrightarrow> x \<noteq> new \<Longrightarrow> select_row x (map (renamed_row e old new i) rows) = select_row x rows"
  using assms by (induction rows) (auto simp: select_row_def renamed_row_def image_iff)

text \<open>
  (C11) Renaming an issue to an id that nothing mentions succeeds and moves the issue
  as one node: the old id is gone, the new id carries the given texts with the old
  status and flag, no other issue changes, every issue is blocked exactly when it was
  (the renamed one under its new id), and all invariants of the store hold again.
\<close>

theorem rename_complete:
  assumes "good_db e s" "depid_injective e" "dep_keys s" "dep_ids e s" "routed s"
    and "r \<in> set (t_issues s)" "ID r = old" "unmentioned s new"
  shows "\<exists>s' c. UpdateIssueID e old new i actor s = Inr s' \<and> good_db e s' \<and> dep_keys s' \<and> dep_ids e s' \<and>
    GetIssue s' old = Inl (NotFound old) \<and> GetIssue s' new = Inr c \<and>
    Title c = Title i \<and> Status c = Status r \<and> IsBlocked c = IsBlocked r \<and>
    (\<forall>x. x \<noteq> old \<and> x \<noteq> new \<longrightarrow> GetIssue s' x = GetIssue s x) \<and>
    (\<forall>n. must_block e s' (exchange (False, old) (False, new) n) = must_block e s n)"
proof -
  obtain s' where s': "UpdateIssueID e old new i actor s = Inr s'" "good_db e s'" "dep_keys s'" "dep_ids e s'"
    "moves (exchange (False, old) (False, new)) s s'" "t_issues s' = map (renamed_row e old new i) (t_issues s)"
    "t_wisps s' = t_wisps s"
    using rename_keeps[OF assms, of i actor] by blast
  have wf: "wf_db s" using assms(1) by (simp add: good_db_def)
  have d: "distinct (map ID (t_issues s))" using wf_db_table[OF wf, of False] by (simp add: issue_table_def)
  have n: "new \<notin> ID ` set (t_issues s)" "new \<notin> ID ` set (t_wisps s)"
    using assms(8) unfolding unmentioned_def all_bool_eq by (auto simp: issue_table_def)
  have ne: "old \<noteq> new" using assms(6,7) n(1) by auto
  have w: "old \<notin> ID ` set (t_wisps s)"
    using routedD(1)[OF assms(5), of r False] assms(6,7) by (force simp: issue_table_def)
  note sel = select_renamed[OF d n(1) ne]
  show ?thesis
  proof (intro exI conjI allI impI)
    show "GetIssue s' old = Inl (NotFound old)"
      using w by (simp add: GetIssue_def s'(6,7) sel(1) select_row_None[THEN iffD2])
    show "GetIssue s' new = Inr (rename_columns e new i r)"
      by (simp add: GetIssue_def s'(6) sel(2)[OF assms(6,7)])
    show "GetIssue s' x = GetIssue s x" if "x \<noteq> old \<and> x \<noteq> new" for x
      using that s'(6,7) sel(3) by (simp add: GetIssue_def cong: option.case_cong)
    show "must_block e s' (exchange (False, old) (False, new) k) = must_block e s k" for k
      by (rule moves_must_block[OF s'(5)])
  qed (use s' in \<open>simp_all add: rename_columns_def\<close>)
qed

subsection \<open>Example\<close>

text \<open>A collision free stand-in for the hash of source and target.\<close>

fun pair_id :: "string \<Rightarrow> string \<Rightarrow> string" where
  "pair_id [] b = CHR ''b'' # b"
| "pair_id (c # cs) b = CHR ''a'' # c # pair_id cs b"

lemma pair_id_inject: "pair_id a b = pair_id c d \<longleftrightarrow> a = c \<and> b = d"
proof (induction a arbitrary: c)
  case Nil
  then show ?case by (cases c) auto
next
  case (Cons x a)
  then show ?case by (cases c) auto
qed

definition rn_env :: env where
  "rn_env = ex_env\<lparr>depid_New := pair_id\<rparr>"

text \<open>\<^verbatim>\<open>bd-2\<close> waits for the wisp \<^verbatim>\<open>bd-w\<close>, which waits for \<^verbatim>\<open>bd-1\<close>.\<close>

definition rn_db :: db where
  "rn_db = (ex_db [ex_row ''bd-1'' ''open'' False, ex_row ''bd-2'' ''open'' True]
     [(ex_dep ''bd-2'' ''bd-w'' ''blocks'' '''')\<lparr>dep_id := pair_id ''bd-2'' ''bd-w'', depends_on_issue_id := None,
        depends_on_wisp_id := Some ''bd-w''\<rparr>])
     \<lparr>t_wisps := [(ex_row ''bd-w'' ''open'' True)\<lparr>Title := ''plan'', Priority := 2, IssueType := ''task'', NoHistory := True\<rparr>],
      t_wisp_deps := [(ex_dep ''bd-w'' ''bd-1'' ''blocks'' '''')\<lparr>dep_id := pair_id ''bd-w'' ''bd-1''\<rparr>],
      t_labels := [(''bd-1'', ''core'')], t_wisp_labels := [(''bd-w'', ''draft'')],
      t_config := [(''issue_prefix'', ''bd'')]\<rparr>"

lemma rn_injective: "depid_injective rn_env"
  by (simp add: depid_injective_def rn_env_def pair_id_inject)

lemma rn_good: "good_db rn_env rn_db"
  unfolding good_db_def
proof (intro conjI)
  show "wf_db rn_db" unfolding wf_db_def all_bool_eq by (simp add: rn_db_def issue_table_def ex_db_def)
  show "acyclic_parents rn_db"
    unfolding acyclic_parents_def
    by (rule acyclic_by_rank[where rank = "\<lambda>n. 0"])
      (auto simp: parent_edges_def parents_def dep_table_def rn_db_def ex_db_def ex_dep_def const_defs split: if_splits)
  show "blocked_consistent rn_env rn_db" by code_simp
  show "rows_closed_at rn_db" by code_simp
qed

lemma rn_keys: "dep_keys rn_db" "dep_ids rn_env rn_db"
  unfolding dep_keys_def dep_ids_def all_bool_eq by code_simp+

lemma rn_routed: "routed rn_db"
  unfolding routed_def all_bool_eq
  by (auto simp: rn_db_def ex_db_def ex_dep_def targets_def issue_table_def dep_table_def split: if_splits)

lemma rn_unmentioned: "unmentioned rn_db ''bd-9''"
  unfolding unmentioned_def all_bool_eq by code_simp

theorem rename_complete_witness:
  "\<exists>s' c. UpdateIssueID rn_env ''bd-1'' ''bd-9'' (blank_issue\<lparr>Title := ''new''\<rparr>) ''amy'' rn_db = Inr s' \<and>
     GetIssue s' ''bd-1'' = Inl (NotFound ''bd-1'') \<and> GetIssue s' ''bd-9'' = Inr c \<and> Title c = ''new'' \<and>
     must_block rn_env s' (True, ''bd-w'')"
proof -
  have r: "ex_row ''bd-1'' ''open'' False \<in> set (t_issues rn_db)" "ID (ex_row ''bd-1'' ''open'' False) = ''bd-1''"
    by (simp_all add: rn_db_def)
  obtain s' c where s': "UpdateIssueID rn_env ''bd-1'' ''bd-9'' (blank_issue\<lparr>Title := ''new''\<rparr>) ''amy'' rn_db = Inr s'"
    "GetIssue s' ''bd-1'' = Inl (NotFound ''bd-1'')" "GetIssue s' ''bd-9'' = Inr c"
    "Title c = Title (blank_issue\<lparr>Title := ''new''\<rparr>)"
    "\<forall>n. must_block rn_env s' (exchange (False, ''bd-1'') (False, ''bd-9'') n) = must_block rn_env rn_db n"
    using rename_complete[OF rn_good rn_injective rn_keys rn_routed r rn_unmentioned,
        of "blank_issue\<lparr>Title := ''new''\<rparr>" "''amy''"] by (elim exE conjE) (rule that; assumption)
  have g: "wf_db rn_db" "acyclic_parents rn_db" "blocked_consistent rn_env rn_db" using rn_good by (simp_all add: good_db_def)
  have "(True, ''bd-w'') \<in> flagged rn_db" by (auto simp: flagged_def rn_db_def issue_table_def)
  then have "must_block rn_env rn_db (True, ''bd-w'')" using flagged_must_block[OF g] by blast
  moreover have "exchange (False, ''bd-1'') (False, ''bd-9'') (True, ''bd-w'') = (True, ''bd-w'')" by (simp add: exchange_def)
  ultimately have "must_block rn_env s' (True, ''bd-w'')" using s'(5) by metis
  then show ?thesis using s'(1-4) by auto
qed

subsection \<open>Promotion\<close>

lemma select_row_snoc: "ID r \<notin> ID ` set rows \<Longrightarrow> select_row (ID r) (rows @ [r]) = Some r"
  by (induction rows) (auto simp: select_row_def)

text \<open>
  (C12) Promoting a wisp whose row validates succeeds: the id names a permanent issue
  that is not ephemeral, with the title, status and priority of the wisp and the labels
  of both kinds, it is no longer a wisp, every issue is blocked exactly when it was (the
  promoted one as a permanent issue) with exact flags, and all invariants hold again.
  The assignee and \<^verbatim>\<open>NoHistory\<close> stay, the lease does not.
\<close>

theorem promote_complete:
  assumes "good_db e s" "depid_injective e" "dep_keys s" "dep_ids e s" "routed s" "r \<in> set (t_wisps s)" "ID r = x"
    and "NewBatchContext e promote_opts s = Inr bc"
    and "PrepareIssueForInsert e (CustomStatuses bc) (CustomTypes bc) ((issue.truncate r)\<lparr>Ephemeral := False\<rparr>) = Inr i"
  shows "\<exists>s' c. PromoteFromEphemeral e x s = Some (Inr s') \<and> good_db e s' \<and> dep_keys s' \<and> dep_ids e s' \<and>
    \<not> IsActiveWisp s' x \<and> GetIssue s' x = Inr c \<and>
    \<not> Ephemeral c \<and> Title c = Title r \<and> Status c = Status r \<and> Priority c = Priority r \<and>
    Assignee c = Assignee r \<and> NoHistory c = NoHistory r \<and> LeaseExpiresAt c = None \<and>
    IsBlocked c = must_block e s (True, x) \<and>
    (\<forall>l. (x, l) \<in> set (t_labels s') \<longleftrightarrow> (x, l) \<in> set (t_labels s) \<union> set (t_wisp_labels s)) \<and>
    (\<forall>n. must_block e s' (exchange (True, x) (False, x) n) = must_block e s n)"
proof -
  obtain s1 s' where s': "PromoteFromEphemeral e x s = Some (Inr s')" "good_db e s'" "dep_keys s1" "dep_ids e s1"
    "moves (exchange (True, x) (False, x)) s s1" "same_but_flags s1 s'" "t_issues s1 = t_issues s @ [new_row e i]"
    "t_wisps s1 = filter (\<lambda>q. ID q \<noteq> x) (t_wisps s)"
    "set (t_labels s1) = set (t_labels s) \<union> {l \<in> set (t_wisp_labels s). fst l = x}"
    using promote_keeps[OF assms] by blast
  have g: "wf_db s'" "acyclic_parents s'" "blocked_consistent e s'" using s'(2) by (simp_all add: good_db_def)
  obtain a b k h where ch: "i = (issue.truncate r)\<lparr>Ephemeral := False, CreatedAt := a, UpdatedAt := b, ClosedAt := k, ContentHash := h\<rparr>"
    using Prepare_changes[OF assms(9)] by blast
  have n: "ID (new_row e i) = x" "\<not> Ephemeral (new_row e i)" "Title (new_row e i) = Title r" "Status (new_row e i) = Status r"
    "Priority (new_row e i) = Priority r" "Assignee (new_row e i) = Assignee r" "NoHistory (new_row e i) = NoHistory r"
    "LeaseExpiresAt (new_row e i) = None"
    using assms(7) by (simp_all add: ch issue.truncate_def new_row_def issue.defs)
  have ni: "x \<notin> ID ` set (t_issues s)"
    using routedD(1)[OF assms(5), of r True] assms(6,7) by (force simp: issue_table_def)
  have sel: "select_row x (t_issues s1) = Some (new_row e i)"
    using select_row_snoc[of "new_row e i" "t_issues s"] ni n(1) by (simp add: s'(7))
  then obtain c where c: "select_row x (t_issues s') = Some c" "c\<lparr>IsBlocked := False\<rparr> = (new_row e i)\<lparr>IsBlocked := False\<rparr>"
    using same_but_flags_select[OF s'(6), of x False] by (auto simp: issue_table_def)
  have cs: "Ephemeral c = Ephemeral (new_row e i)" "Title c = Title (new_row e i)" "Status c = Status (new_row e i)"
    "Priority c = Priority (new_row e i)" "Assignee c = Assignee (new_row e i)" "NoHistory c = NoHistory (new_row e i)"
    "LeaseExpiresAt c = LeaseExpiresAt (new_row e i)"
    using arg_cong[OF c(2), of Ephemeral] arg_cong[OF c(2), of Title] arg_cong[OF c(2), of Status] arg_cong[OF c(2), of Priority]
      arg_cong[OF c(2), of Assignee] arg_cong[OF c(2), of NoHistory] arg_cong[OF c(2), of LeaseExpiresAt]
    by simp_all
  have mb: "must_block e s' (exchange (True, x) (False, x) k) = must_block e s k" for k
    unfolding must_block_same[OF s'(6)] by (rule moves_must_block[OF s'(5)])
  have er: "erase s' = erase s1" using s'(6) by (simp add: same_but_flags_def)
  have ws: "map ID (t_wisps s') = map ID (t_wisps s1)" "t_labels s' = t_labels s1"
    using arg_cong[OF er, of "\<lambda>u. map ID (issue_table True u)"] arg_cong[OF er, of t_labels]
    by (simp_all add: issue_table_erase ids_erase_rows issue_table_def erase_def)
  show ?thesis
  proof (intro exI conjI allI)
    show "\<not> IsActiveWisp s' x"
    proof -
      have "x \<notin> ID ` set (t_wisps s')" using arg_cong[OF ws(1), of set] s'(8) by auto
      then show ?thesis by (auto simp: IsActiveWisp_def)
    qed
    show "GetIssue s' x = Inr c" by (simp add: GetIssue_def c(1))
    have "c \<in> set (issue_table False s')" "ID c = x" using select_row_Some[OF c(1)] by (simp_all add: issue_table_def)
    then show "IsBlocked c = must_block e s (True, x)"
      using row_flagged[OF g(1), of c False] flagged_must_block[OF g] mb[of "(True, x)"] by simp
    show "must_block e s' (exchange (True, x) (False, x) k) = must_block e s k" for k by (rule mb)
    show "dep_keys s'" "dep_ids e s'"
      using s'(3,4) same_but_flags_views(5)[OF s'(6)] by (simp_all add: dep_keys_def dep_ids_def)
    show "(x, l) \<in> set (t_labels s') \<longleftrightarrow> (x, l) \<in> set (t_labels s) \<union> set (t_wisp_labels s)" for l
      by (simp add: ws(2) s'(9))
  qed (use s' n cs in simp_all)
qed

definition rn_wisp :: issue_row where
  "rn_wisp = (ex_row ''bd-w'' ''open'' True)\<lparr>Title := ''plan'', Priority := 2, IssueType := ''task'', NoHistory := True\<rparr>"

lemma rn_prepared:
  "case NewBatchContext rn_env promote_opts rn_db of Inl _ \<Rightarrow> False
   | Inr bc \<Rightarrow> (case PrepareIssueForInsert rn_env (CustomStatuses bc) (CustomTypes bc) ((issue.truncate rn_wisp)\<lparr>Ephemeral := False\<rparr>) of
       Inl _ \<Rightarrow> False | Inr i \<Rightarrow> True)"
  by code_simp

theorem promote_complete_witness:
  "\<exists>s' c. PromoteFromEphemeral rn_env ''bd-w'' rn_db = Some (Inr s') \<and> \<not> IsActiveWisp s' ''bd-w'' \<and>
     GetIssue s' ''bd-w'' = Inr c \<and> Title c = ''plan'' \<and> (''bd-w'', ''draft'') \<in> set (t_labels s') \<and>
     must_block rn_env s' (False, ''bd-w'')"
proof -
  obtain bc i where bc: "NewBatchContext rn_env promote_opts rn_db = Inr bc"
    "PrepareIssueForInsert rn_env (CustomStatuses bc) (CustomTypes bc) ((issue.truncate rn_wisp)\<lparr>Ephemeral := False\<rparr>) = Inr i"
    using rn_prepared by (auto split: sum.splits)
  have r: "rn_wisp \<in> set (t_wisps rn_db)" "ID rn_wisp = ''bd-w''" by (simp_all add: rn_db_def rn_wisp_def)
  obtain s' c where s': "PromoteFromEphemeral rn_env ''bd-w'' rn_db = Some (Inr s')" "\<not> IsActiveWisp s' ''bd-w''"
    "GetIssue s' ''bd-w'' = Inr c" "Title c = Title rn_wisp"
    "\<forall>l. (''bd-w'', l) \<in> set (t_labels s') \<longleftrightarrow> (''bd-w'', l) \<in> set (t_labels rn_db) \<union> set (t_wisp_labels rn_db)"
    "\<forall>n. must_block rn_env s' (exchange (True, ''bd-w'') (False, ''bd-w'') n) = must_block rn_env rn_db n"
    using promote_complete[OF rn_good rn_injective rn_keys rn_routed r bc] by (elim exE conjE) (rule that; assumption)
  have g: "wf_db rn_db" "acyclic_parents rn_db" "blocked_consistent rn_env rn_db" using rn_good by (simp_all add: good_db_def)
  have "(True, ''bd-w'') \<in> flagged rn_db" by (auto simp: flagged_def rn_db_def issue_table_def)
  then have "must_block rn_env rn_db (True, ''bd-w'')" using flagged_must_block[OF g] by blast
  then have "must_block rn_env s' (False, ''bd-w'')" using s'(6) by (metis exchange_simps(1))
  moreover have "(''bd-w'', ''draft'') \<in> set (t_wisp_labels rn_db)" by (simp add: rn_db_def)
  moreover have "Title rn_wisp = ''plan''" by (simp add: rn_wisp_def)
  ultimately show ?thesis using s'(1-5) by auto
qed

subsection \<open>What moves leave behind\<close>

text \<open>The labels of a renamed issue stay under its old id.\<close>

lemma rename_loses_labels:
  "case UpdateIssueID rn_env ''bd-1'' ''bd-9'' blank_issue ''amy'' rn_db of Inl _ \<Rightarrow> False
   | Inr s' \<Rightarrow> GetLabels rn_db ''bd-1'' = [''core''] \<and> GetLabels s' ''bd-9'' = [] \<and> GetLabels s' ''bd-1'' = [''core'']"
  by code_simp

text \<open>
  Renaming a wisp rewrites the edges to it but not its own: they stay under the old id,
  and its flag is stale.
\<close>

lemma rename_wisp_stale:
  "case UpdateIssueID rn_env ''bd-w'' ''bd-v'' blank_issue ''amy'' rn_db of Inl _ \<Rightarrow> False
   | Inr s' \<Rightarrow> map issue_id (t_wisp_deps s') = [''bd-w''] \<and> map IsBlocked (t_wisps s') = [True] \<and>
       \<not> shouldBeBlocked rn_env s' True ''bd-v'' \<and> \<not> blocked_consistent rn_env s'"
  by code_simp

text \<open>Renaming the prefix \<^verbatim>\<open>bd\<close> of the dependencies reaches \<^verbatim>\<open>bd.1\<close> and leaves \<^verbatim>\<open>bd-2\<close> and \<^verbatim>\<open>bd-1\<close>.\<close>

lemma rename_prefix_misses:
  "case RenameDependencyPrefix ''bd'' ''xy'' (ex_db [] [ex_dep ''bd-2'' ''bd-1'' ''blocks'' '''', ex_dep ''bd.1'' ''bd.2'' ''blocks'' ''''])
   of Inl _ \<Rightarrow> False | Inr s' \<Rightarrow> map (\<lambda>d. (issue_id d, depends_on_issue_id d)) (t_deps s') =
     [(''bd-2'', Some ''bd-1''), (''xy.1'', Some ''xy.2'')]"
  by code_simp

end
