(* ===== verification/Merge.thy ===== *)
theory Merge
  imports Moves Config
begin

text \<open>
  The repair of \<^verbatim>\<open>is_blocked\<close> after a merge (\<^verbatim>\<open>internal/storage/issueops/blocked_merge.go\<close>).
  A merge of two clones changes rows without any of the write paths, so the rows that
  \<^verbatim>\<open>dolt_diff\<close> reports seed the affected sets.  The version control functions of the
  database are a parameter, the record \<^verbatim>\<open>merge_view\<close>: what a query of them returns, \<^verbatim>\<open>None\<close>
  for an error.  A row of \<^verbatim>\<open>dolt_diff\<close> is the pair of its \<^verbatim>\<open>from_\<close> and \<^verbatim>\<open>to_\<close> columns.
  The functions recompute with the statements for a MySQL server and nothing under \<^verbatim>\<open>src/\<close>
  calls them; the model describes them on an engine that accepts the statements.
\<close>

record merge_view =
  head_commit :: "string option"
  dirty_tables :: "nat option"
  diff_issues :: "string \<Rightarrow> (issue_row option \<times> issue_row option) list option"
  diff_deps :: "string \<Rightarrow> (dep_row option \<times> dep_row option) list option"
  ctx_dead :: bool

subsection \<open>The marker of a failed recompute\<close>

definition doltCommitHashRE :: "string \<Rightarrow> bool" where
  "doltCommitHashRE t = (length t = 32 \<and> list_all (\<lambda>c. CHR ''0'' \<le> c \<and> c \<le> CHR ''9'' \<or> CHR ''a'' \<le> c \<and> c \<le> CHR ''v'') t)"

definition mergeRecomputeSeedCap :: nat where
  "mergeRecomputeSeedCap = 1000"

definition isBlockedRecomputePendingKey :: string where
  "isBlockedRecomputePendingKey = ''is_blocked_recompute_pending''"

definition MarkIsBlockedRecomputePending :: "string \<Rightarrow> db \<Rightarrow> db" where
  "MarkIsBlockedRecomputePending fromCommit s =
    (let value = (if doltCommitHashRE fromCommit then fromCommit else ''full'')
     in if isBlockedRecomputePendingKey \<in> fst ` set (t_metadata s) then s
        else s\<lparr>t_metadata := t_metadata s @ [(isBlockedRecomputePendingKey, value)]\<rparr>)"

definition pendingIsBlockedRecompute :: "db \<Rightarrow> string" where
  "pendingIsBlockedRecompute s = GetMetadata s isBlockedRecomputePendingKey"

subsection \<open>The changed rows\<close>

definition changedIssueIDs :: "merge_view \<Rightarrow> string \<Rightarrow> string list option" where
  "changedIssueIDs m fromCommit =
     map_option (\<lambda>rows. concat (map (\<lambda>(from, to). the_list (map_option ID (case to of Some r \<Rightarrow> Some r | None \<Rightarrow> from))) rows))
       (diff_issues m fromCommit)"

type_synonym changedDepEdge = "string \<times> string \<times> dep_type"

definition edge_side :: "dep_row option \<Rightarrow> changedDepEdge list" where
  "edge_side side = (case side of None \<Rightarrow> []
     | Some d \<Rightarrow> [(issue_id d, (case dep_target d of Some t \<Rightarrow> t | None \<Rightarrow> ''''), dtype d)])"

definition changedDependencyEdges :: "merge_view \<Rightarrow> string \<Rightarrow> changedDepEdge list option" where
  "changedDependencyEdges m fromCommit =
     map_option (\<lambda>rows. concat (map (\<lambda>(from, to). edge_side from @ edge_side to) rows)) (diff_deps m fromCommit)"

text \<open>The closure \<^verbatim>\<open>add\<close>: ids that were not there yet are appended.\<close>

definition add_new :: "string list \<Rightarrow> string list \<Rightarrow> string list" where
  "add_new ids xs = fold (\<lambda>x acc. if x \<in> set acc then acc else acc @ [x]) xs ids"

definition add_affected :: "string list \<times> string list \<Rightarrow> string list \<times> string list \<Rightarrow> string list \<times> string list" where
  "add_affected q acc = (add_new (fst acc) (fst q), add_new (snd acc) (snd q))"

definition mergeAffectedSets ::
  "merge_view \<Rightarrow> string \<Rightarrow> db \<Rightarrow> store_error + (string list \<times> string list) option" where
  "mergeAffectedSets m fromCommit s =
    (case changedIssueIDs m fromCommit of
       None \<Rightarrow> (if ctx_dead m then Inl (OpFailed ''context'') else Inr None)
     | Some changedIssues \<Rightarrow> (case changedDependencyEdges m fromCommit of
         None \<Rightarrow> (if ctx_dead m then Inl (OpFailed ''context'') else Inr None)
       | Some changedDeps \<Rightarrow>
           if length changedIssues + length changedDeps > mergeRecomputeSeedCap then Inr None
           else Inr (Some (fold (\<lambda>(x, target, t). add_affected (AffectedByDepChange s x target t)) changedDeps
                  (fold (\<lambda>x. add_affected (AffectedByStatusChange s x)) changedIssues ([], []))))))"

subsection \<open>The recompute\<close>

definition allIDs :: "bool \<Rightarrow> db \<Rightarrow> string list" where
  "allIDs w s = map ID (issue_table w s)"

definition recomputeIsBlockedForAll :: "env \<Rightarrow> db \<Rightarrow> db option" where
  "recomputeIsBlockedForAll e s = recomputeIsBlocked e (allIDs False s) (allIDs True s) s"

definition recomputeIsBlockedAfterMergeScoped ::
  "env \<Rightarrow> merge_view \<Rightarrow> string \<Rightarrow> db \<Rightarrow> (store_error + db) option" where
  "recomputeIsBlockedAfterMergeScoped e m fromCommit s =
    (if fromCommit = '''' then map_option Inr (recomputeIsBlockedForAll e s)
     else if \<not> doltCommitHashRE fromCommit then Some (Inl (OpFailed ''invalid from-commit''))
     else (case head_commit m of
         None \<Rightarrow> Some (Inl (OpFailed ''read HEAD''))
       | Some head \<Rightarrow>
           if head = fromCommit \<and> dirty_tables m = Some 0 then Some (Inr s)
           else (case mergeAffectedSets m fromCommit s of
               Inl err \<Rightarrow> Some (Inl err)
             | Inr None \<Rightarrow> map_option Inr (recomputeIsBlockedForAll e s)
             | Inr (Some (issueIDs, wispIDs)) \<Rightarrow> map_option Inr (recomputeIsBlocked e issueIDs wispIDs s))))"

definition RecomputeIsBlockedAfterMerge ::
  "env \<Rightarrow> merge_view \<Rightarrow> string \<Rightarrow> db \<Rightarrow> (store_error + db) option" where
  "RecomputeIsBlockedAfterMerge e m fromCommit s =
    (let pending = pendingIsBlockedRecompute s in
     if pending \<noteq> '''' then
       map_option (map_sum id (\<lambda>r. r\<lparr>t_metadata := filter (\<lambda>p. fst p \<noteq> isBlockedRecomputePendingKey) (t_metadata r)\<rparr>))
         (recomputeIsBlockedAfterMergeScoped e m
           (if doltCommitHashRE pending \<and> fromCommit \<noteq> '''' then pending else '''') s)
     else recomputeIsBlockedAfterMergeScoped e m fromCommit s)"

end
