(* ===== verification/MergeThms.thy ===== *)
theory MergeThms
  imports Merge DepQueriesThms
begin

text \<open>
  The seeds of \<^verbatim>\<open>dolt_diff\<close> suffice: a merged database whose unchanged rows were consistent
  before the merge is consistent outside the affected sets, so the recompute repairs it.
\<close>

subsection \<open>Affected sets\<close>

lemma set_add_new: "set (add_new ids xs) = set ids \<union> set xs"
proof -
  have "set (fold (\<lambda>x acc. if x \<in> set acc then acc else acc @ [x]) xs ids) = set ids \<union> set xs"
    by (induction xs arbitrary: ids) auto
  then show ?thesis by (simp add: add_new_def)
qed

lemma span_add: "span (add_affected q acc) = span acc \<union> span q"
  by (auto simp: add_affected_def span_def scope_of_def set_add_new)

lemma span_fold: "span (fold (\<lambda>c. add_affected (f c)) cs acc) = span acc \<union> (\<Union>c\<in>set cs. span (f c))"
  by (induction cs arbitrary: acc) (auto simp: span_add)

text \<open>The expansion reaches the children of an id even when no row has that id any more.\<close>

definition closed_down :: "node set \<Rightarrow> db \<Rightarrow> bool" where
  "closed_down S s = (\<forall>n p. p \<in> parents s n \<longrightarrow> p \<in> S \<longrightarrow> n \<in> S)"

lemma closed_down_child: "closed_down S s \<Longrightarrow> be.child_closed S s"
  unfolding closed_down_def be.child_closed_def by blast

lemma closed_down_UN: "(\<And>c. c \<in> F \<Longrightarrow> closed_down (f c) s) \<Longrightarrow> closed_down (\<Union>c\<in>F. f c) s"
  unfolding closed_down_def by blast

lemma closed_down_Un: "closed_down A s \<Longrightarrow> closed_down B s \<Longrightarrow> closed_down (A \<union> B) s"
  unfolding closed_down_def by blast

lemma expansion_down:
  assumes "tight sd"
  shows "closed_down (span (queues (expandByParentChildDescendants s 0 0 sd))) s"
proof -
  let ?r = "expandByParentChildDescendants s 0 0 sd"
  have cl: "kids s w v p \<subseteq> seen ?r w" if "p \<in> set (seed ?r v)" for v p w
    using expand_closed[of s 0 0 sd] that by (auto simp: done_upto_def)
  have "(w, x) \<in> span (queues ?r)" if "(v, p) \<in> parents s (w, x)" "(v, p) \<in> span (queues ?r)" for w x v p
    using that cl[of p v w] expansion_span(1)[OF assms] by (auto simp: span_queues parents_kids)
  then show ?thesis unfolding closed_down_def by (metis surj_pair)
qed

lemma affected_down:
  "closed_down (span (affected_status w s x)) s" "closed_down (span (affected_dep w s x target t)) s"
proof -
  have z: "tight (add_id w x no_seeds)" by (rule tight_add_id[OF tight_no_seeds])
  show "closed_down (span (affected_status w s x)) s"
    unfolding affected_status_eq by (rule expansion_down, rule tight_grows[OF grows_loads(2) tight_grows[OF grows_load(2) z]])
  have "closed_down (span ([], [])) s" by (simp add: closed_down_def span_def scope_of_def)
  then show "closed_down (span (affected_dep w s x target t)) s"
    unfolding affected_dep_eq using expansion_down[OF z] expansion_down[OF tight_grows[OF grows_loads(1) z]] by simp
qed

subsection \<open>What a merge changes\<close>

text \<open>
  \<^verbatim>\<open>b\<close> before the merge, \<^verbatim>\<open>s\<close> after it: the wisps, which are not versioned, are the same, the
  issues outside \<^verbatim>\<open>C\<close> are the same, and every other dependency row has an edge in \<^verbatim>\<open>E\<close>.
\<close>

definition differs_in :: "db \<Rightarrow> db \<Rightarrow> string set \<Rightarrow> changedDepEdge set \<Rightarrow> bool" where
  "differs_in b s C E = (t_wisps s = t_wisps b \<and> t_wisp_deps s = t_wisp_deps b \<and>
     (\<forall>r. ID r \<notin> C \<longrightarrow> (r \<in> set (t_issues s) \<longleftrightarrow> r \<in> set (t_issues b))) \<and>
     (\<forall>d. (d \<in> set (t_deps s)) \<noteq> (d \<in> set (t_deps b)) \<longrightarrow> (issue_id d, target_of d, dtype d) \<in> E))"

definition named_parents :: "db \<Rightarrow> bool" where
  "named_parents s = (\<forall>w. \<forall>d\<in>set (dep_table w s). dtype d = DepParentChild \<longrightarrow> target_of d \<noteq> '''')"

lemma differs_rows:
  assumes "differs_in b s C E" "w \<or> x \<notin> C"
  shows "(\<exists>r\<in>set (issue_table w s). ID r = x \<and> P r) \<longleftrightarrow> (\<exists>r\<in>set (issue_table w b). ID r = x \<and> P r)"
  using assms unfolding differs_in_def by (cases w) (auto simp: issue_table_def)

lemma differs_deps:
  assumes "differs_in b s C E" "(d \<in> set (dep_table w s)) \<noteq> (d \<in> set (dep_table w b))"
  shows "\<not> w \<and> (issue_id d, target_of d, dtype d) \<in> E"
  using assms unfolding differs_in_def by (cases w) (auto simp: dep_table_def)

lemma target_column_of: "one_target d \<Longrightarrow> targets d v x \<Longrightarrow> target_of d = x"
  by (auto simp: one_target_def targets_def target_of_def dep_target_def split: if_splits option.splits)

lemma same_target_column: "same_target d cd \<Longrightarrow> \<exists>u x. targets d u x \<and> targets cd u x"
  unfolding same_target_def targets_def by (metis option.exhaust)

definition merged :: "db \<Rightarrow> db \<Rightarrow> string set \<Rightarrow> changedDepEdge set \<Rightarrow> node set \<Rightarrow> bool" where
  "merged b s C E S = (differs_in b s C E \<and> dep_keys b \<and> dep_keys s \<and> named_parents b \<and> named_parents s \<and>
     (\<forall>x\<in>C. span (affected_status False s x) \<subseteq> S) \<and>
     (\<forall>(x, y, t)\<in>E. span (affected_dep False s x y t) \<subseteq> S) \<and> closed_down S s)"

lemma merged_status: "merged b s C E S \<Longrightarrow> x \<in> C \<Longrightarrow> span (affected_status False s x) \<subseteq> S"
  by (simp add: merged_def)

lemma merged_dep: "merged b s C E S \<Longrightarrow> (x, y, t) \<in> E \<Longrightarrow> span (affected_dep False s x y t) \<subseteq> S"
  unfolding merged_def by blast

lemma merged_facts:
  assumes "merged b s C E S"
  shows "differs_in b s C E" "dep_keys b" "dep_keys s" "named_parents b" "named_parents s" "closed_down S s"
  using assms by (simp_all add: merged_def)


lemma changed_in: "merged b s C E S \<Longrightarrow> x \<in> C \<Longrightarrow> (False, x) \<in> S"
  using merged_status affected_status_span(1) by blast

lemma own_rows:
  assumes m: "merged b s C E S" and a: "(w, issue_id d) \<notin> S" "dtype d \<in> {DepBlocks, DepConditionalBlocks, DepWaitsFor, DepParentChild}"
  shows "d \<in> set (dep_table w s) \<longleftrightarrow> d \<in> set (dep_table w b)"
proof (rule ccontr)
  assume "\<not> ?thesis"
  then have n: "w = False" "(issue_id d, target_of d, dtype d) \<in> E" using differs_deps[OF merged_facts(1)[OF m], of d w] by simp_all
  then have "(False, issue_id d) \<in> S"
    using merged_dep[OF m n(2)] affected_dep_span(1)[OF a(2)] by blast
  then show False using a(1) n(1) by simp
qed

lemma same_rows:
  assumes m: "merged b s C E S" and a: "(w, x) \<notin> S"
  shows "(\<exists>r\<in>set (issue_table w s). ID r = x \<and> P r) \<longleftrightarrow> (\<exists>r\<in>set (issue_table w b). ID r = x \<and> P r)"
  by (rule differs_rows[OF merged_facts(1)[OF m]]) (use a changed_in[OF m] in \<open>cases w; auto\<close>)

lemma hard_same:
  assumes m: "merged b s C E S" and a: "(w, y) \<notin> S"
  shows "hard_blocked s (dep_table w s) y = hard_blocked b (dep_table w b) y"
proof -
  have j: "joined_target s d p = joined_target b d p"
    if d: "d \<in> set (dep_table w s)" "issue_id d = y" "dtype d = DepBlocks \<or> dtype d = DepConditionalBlocks" for d p
  proof -
    have "(\<exists>t\<in>set (issue_table v s). ID t = x \<and> p t) \<longleftrightarrow> (\<exists>t\<in>set (issue_table v b). ID t = x \<and> p t)" if "targets d v x" for v x
    proof (rule differs_rows[OF merged_facts(1)[OF m]], rule ccontr)
      assume "\<not> (v \<or> x \<notin> C)"
      then have "(w, issue_id d) \<in> S" using that d affected_status_span(2)[of d w s False x] merged_status[OF m] by auto
      then show False using a d(2) by simp
    qed
    then have "(\<exists>t\<in>set (issue_table v s). targets d v (ID t) \<and> p t) \<longleftrightarrow> (\<exists>t\<in>set (issue_table v b). targets d v (ID t) \<and> p t)" for v
      by metis
    then show ?thesis by (simp add: joined_target_table)
  qed
  have "d \<in> set (dep_table w s) \<longleftrightarrow> d \<in> set (dep_table w b)"
    if "issue_id d = y" "dtype d = DepBlocks \<or> dtype d = DepConditionalBlocks" for d
    by (rule own_rows[OF m]) (use that a in auto)
  then show ?thesis using j unfolding hard_blocked_def by blast
qed

lemma spawned_same:
  assumes m: "merged b s C E S" and a: "(w, y) \<notin> S" and d: "d \<in> set (dep_table w s)" "issue_id d = y" "dtype d = DepWaitsFor"
  shows "spawned_child s d p = spawned_child b d p"
proof -
  have cd: "cd \<in> set (dep_table v s) \<longleftrightarrow> cd \<in> set (dep_table v b)" if c: "dtype cd = DepParentChild" "same_target d cd" for cd v
  proof (rule ccontr)
    assume n: "\<not> ?thesis"
    then have E: "(issue_id cd, target_of cd, DepParentChild) \<in> E" using differs_deps[OF merged_facts(1)[OF m], of cd v] c(1) by metis
    have "cd \<in> set (dep_table v s) \<or> cd \<in> set (dep_table v b)" using n by blast
    then have o: "one_target cd" "target_of cd \<noteq> ''''" using merged_facts(2-5)[OF m] c(1) unfolding dep_keys_def named_parents_def by blast+
    obtain u x where x: "targets d u x" "targets cd u x" using same_target_column[OF c(2)] by blast
    then have "targets d u (target_of cd)" using target_column_of[OF o(1) x(2)] by simp
    then have "(w, issue_id d) \<in> S"
      using affected_dep_span(2)[OF _ _ o(2) d(1,3)] merged_dep[OF m E] by blast
    with a d(2) show False by simp
  qed
  have "(\<exists>child\<in>set (issue_table v s). ID child = issue_id cd \<and> p (Status child)) \<longleftrightarrow>
        (\<exists>child\<in>set (issue_table v b). ID child = issue_id cd \<and> p (Status child))"
    if c: "dtype cd = DepParentChild" "same_target d cd" "cd \<in> set (dep_table v s)" for cd v
  proof (rule differs_rows[OF merged_facts(1)[OF m]], rule ccontr)
    assume "\<not> (v \<or> issue_id cd \<notin> C)"
    then have "(w, issue_id d) \<in> S"
      using affected_status_span(3)[OF d(1,3), of cd False "issue_id cd"] merged_status[OF m] c by auto
    then show False using a d(2) by simp
  qed
  then show ?thesis unfolding spawned_child_table using cd by blast
qed

lemma parent_outside:
  assumes m: "merged b s C E S" and a: "n \<notin> S" "p \<in> parents s n"
  shows "p \<in> flagged s \<longleftrightarrow> p \<in> flagged b"
proof (cases p)
  case (Pair v x)
  have "(\<exists>r\<in>set (issue_table v s). ID r = x \<and> IsBlocked r) \<longleftrightarrow> (\<exists>r\<in>set (issue_table v b). ID r = x \<and> IsBlocked r)"
  proof (cases "v \<or> x \<notin> C")
    case True
    then show ?thesis by (rule differs_rows[OF merged_facts(1)[OF m]])
  next
    case False
    then have "p \<in> S" using changed_in[OF m] Pair by simp
    then show ?thesis using a merged_facts(6)[OF m] unfolding closed_down_def by blast
  qed
  then show ?thesis by (simp add: flagged_def Pair)
qed

lemma wants_same:
  assumes m: "merged b s C E S" and a: "n \<notin> S"
  shows "wants e s (flagged s) n = wants e b (flagged b) n"
proof (cases n)
  case (Pair w y)
  have ny: "(w, y) \<notin> S" using a Pair by simp
  have act: "active_node s n = active_node b n"
    using same_rows[OF m ny, of "\<lambda>r. active_status (Status r)"] by (simp add: active_node_def Pair)
  have wb: "waits_blocked e s (dep_table w s) y = waits_blocked e b (dep_table w b) y"
  proof -
    have "d \<in> set (dep_table w s) \<longleftrightarrow> d \<in> set (dep_table w b)" if "issue_id d = y" "dtype d = DepWaitsFor" for d
      by (rule own_rows[OF m]) (use that ny in auto)
    moreover have "waitsForGateBlocked e s d = waitsForGateBlocked e b d"
      if "d \<in> set (dep_table w s)" "issue_id d = y" "dtype d = DepWaitsFor" for d
      using spawned_same[OF m ny that] by (simp add: waitsForGateBlocked_def)
    ultimately show ?thesis unfolding waits_blocked_def by metis
  qed
  have par: "parents s n = parents b n"
  proof -
    have "d \<in> set (dep_table w s) \<longleftrightarrow> d \<in> set (dep_table w b)" if "issue_id d = y" "dtype d = DepParentChild" for d
      by (rule own_rows[OF m]) (use that ny in auto)
    then show ?thesis unfolding parents_def Pair fst_conv snd_conv by blast
  qed
  have "flagged s \<inter> parents s n = flagged b \<inter> parents b n" using parent_outside[OF m a] par by blast
  then show ?thesis using act wb hard_same[OF m ny] by (simp add: wants_def own_reason_def Pair)
qed

lemma consistent_outside:
  assumes m: "merged b s C E S" and a: "wf_db b" "blocked_consistent e b"
  shows "be.consistent_on e (- S) s"
  unfolding be.consistent_on_def
proof (intro ballI)
  fix n assume n: "n \<in> - S \<inter> nodes s"
  obtain w y where wy: "n = (w, y)" by (cases n)
  have ny: "(w, y) \<notin> S" using n wy by simp
  have "\<exists>r\<in>set (issue_table w b). ID r = y" using same_rows[OF m ny, of "\<lambda>r. True"] n by (auto simp: nodes_def wy)
  then have "n \<in> nodes b" by (force simp: nodes_def wy)
  moreover have "n \<in> flagged s \<longleftrightarrow> n \<in> flagged b" using same_rows[OF m ny, of IsBlocked] by (simp add: flagged_def wy)
  moreover have "be.consistent_on e UNIV b" using blocked_consistent_engine[OF a(1)] a(2) by blast
  ultimately show "(n \<in> flagged s) = wants e s (flagged s) n"
    using wants_same[OF m] n unfolding be.consistent_on_def by blast
qed

subsection \<open>The recompute after a merge\<close>

text \<open>
  What the version control of the database promises for a commit \<^verbatim>\<open>c\<close> with the tables of
  \<^verbatim>\<open>b\<close>: wisps are not versioned, \<^verbatim>\<open>dolt_diff\<close> lists every row of one side that the other side
  lacks, beside the row of the same key if there is one, and an unchanged HEAD with a clean
  status means equal tables.
\<close>

definition lists_changes :: "('a \<Rightarrow> string) \<Rightarrow> ('a option \<times> 'a option) list \<Rightarrow> 'a set \<Rightarrow> 'a set \<Rightarrow> bool" where
  "lists_changes key rows old new =
    ((\<forall>a\<in>old - new. \<exists>t. (Some a, t) \<in> set rows \<and> (\<forall>c. t = Some c \<longrightarrow> key c = key a)) \<and>
     (\<forall>a\<in>new - old. \<exists>f. (f, Some a) \<in> set rows))"

definition committed :: "merge_view \<Rightarrow> string \<Rightarrow> db \<Rightarrow> db \<Rightarrow> bool" where
  "committed m c b s = (t_wisps s = t_wisps b \<and> t_wisp_deps s = t_wisp_deps b \<and>
     (\<forall>rows. diff_issues m c = Some rows \<longrightarrow> lists_changes ID rows (set (t_issues b)) (set (t_issues s))) \<and>
     (\<forall>rows. diff_deps m c = Some rows \<longrightarrow> lists_changes dep_id rows (set (t_deps b)) (set (t_deps s))) \<and>
     (head_commit m = Some c \<and> dirty_tables m = Some 0 \<longrightarrow>
       set (t_issues s) = set (t_issues b) \<and> set (t_deps s) = set (t_deps b)))"

lemma changed_issues:
  assumes "lists_changes ID rows old new" "diff_issues m c = Some rows" "changedIssueIDs m c = Some ids" "ID r \<notin> set ids"
  shows "r \<in> new \<longleftrightarrow> r \<in> old"
proof -
  have ids: "ID x \<in> set ids" if "(f, t) \<in> set rows" "(case t of Some r \<Rightarrow> Some r | None \<Rightarrow> f) = Some x" for f t x
    using assms(2,3) that by (force simp: changedIssueIDs_def the_list_def)
  have "r \<notin> new - old"
  proof
    assume "r \<in> new - old"
    then obtain f where "(f, Some r) \<in> set rows" using assms(1) unfolding lists_changes_def by blast
    then show False using ids[of f "Some r" r] assms(4) by simp
  qed
  moreover have "r \<notin> old - new"
  proof
    assume "r \<in> old - new"
    then obtain t where t: "(Some r, t) \<in> set rows" "\<forall>c. t = Some c \<longrightarrow> ID c = ID r"
      using assms(1) unfolding lists_changes_def by blast
    then show False using ids[OF t(1)] assms(4) by (cases t) force+
  qed
  ultimately show ?thesis by blast
qed

lemma changed_edges:
  assumes "lists_changes dep_id rows old new" "diff_deps m c = Some rows" "changedDependencyEdges m c = Some es"
    and "(d \<in> new) \<noteq> (d \<in> old)"
  shows "(issue_id d, target_of d, dtype d) \<in> set es"
proof -
  have side: "(issue_id d, target_of d, dtype d) \<in> set (edge_side (Some d))" by (simp add: edge_side_def target_of_def)
  have "\<exists>f t. (f, t) \<in> set rows \<and> (f = Some d \<or> t = Some d)"
    using assms(1,4) unfolding lists_changes_def by blast
  then obtain f t where "(f, t) \<in> set rows" "f = Some d \<or> t = Some d" by blast
  then show ?thesis using assms(2,3) side unfolding changedDependencyEdges_def by force
qed

lemma full_recompute:
  assumes "wf_db s" "acyclic_parents s"
  shows "\<exists>r. recomputeIsBlockedForAll e s = Some r \<and> wf_db r \<and> same_but_flags s r \<and> blocked_consistent e r"
proof -
  have all: "n \<in> scope_of (allIDs False s) (allIDs True s)" if "n \<in> nodes s" for n
    using that by (cases n; cases "fst n") (auto simp: nodes_def scope_of_def allIDs_def)
  show ?thesis unfolding recomputeIsBlockedForAll_def
    by (rule recompute_repairs[OF assms])
      (use all in \<open>auto simp: be.child_closed_def be.consistent_on_def\<close>)
qed

lemma merged_sets:
  assumes "mergeAffectedSets m c s = Inr (Some (xs, ws))"
  obtains ids es where "changedIssueIDs m c = Some ids" "changedDependencyEdges m c = Some es"
    "scope_of xs ws = (\<Union>x\<in>set ids. span (affected_status False s x)) \<union> (\<Union>(x, y, t)\<in>set es. span (affected_dep False s x y t))"
proof -
  obtain ids es where ie: "changedIssueIDs m c = Some ids" "changedDependencyEdges m c = Some es"
    using assms by (auto simp: mergeAffectedSets_def split: option.splits if_splits)
  define q where "q = fold (\<lambda>(x, target, t). add_affected (AffectedByDepChange s x target t)) es
    (fold (\<lambda>x. add_affected (AffectedByStatusChange s x)) ids ([], []))"
  have "q = (xs, ws)" using assms ie by (auto simp: mergeAffectedSets_def q_def split: if_splits)
  then have "scope_of xs ws = span q" by (simp add: span_def)
  also have "q = fold (\<lambda>c. add_affected (case c of (x, y, t) \<Rightarrow> affected_dep False s x y t)) es
      (fold (\<lambda>x. add_affected (affected_status False s x)) ids ([], []))"
  proof -
    have "(\<lambda>(x, target, t). add_affected (AffectedByDepChange s x target t)) =
        (\<lambda>c. add_affected (case c of (x, y, t) \<Rightarrow> affected_dep False s x y t))"
      by (rule ext) (simp add: affected_dep_def case_prod_beta)
    then show ?thesis by (simp add: q_def affected_status_def)
  qed
  also have "span \<dots> = (\<Union>x\<in>set ids. span (affected_status False s x)) \<union> (\<Union>(x, y, t)\<in>set es. span (affected_dep False s x y t))"
    unfolding span_fold by (simp add: case_prod_beta) (simp add: span_def scope_of_def)
  finally show thesis by (rule that[OF ie])
qed

lemma scoped_recompute:
  assumes s: "wf_db s" "acyclic_parents s" "dep_keys s" "named_parents s" "\<not> ctx_dead m"
    and c: "c = '''' \<or> doltCommitHashRE c \<and> head_commit m \<noteq> None \<and> committed m c b s \<and>
      wf_db b \<and> blocked_consistent e b \<and> dep_keys b \<and> named_parents b"
  shows "\<exists>r. recomputeIsBlockedAfterMergeScoped e m c s = Some (Inr r) \<and> wf_db r \<and> same_but_flags s r \<and> blocked_consistent e r"
proof -
  have full: "\<exists>r. map_option Inr (recomputeIsBlockedForAll e s) = Some (Inr r) \<and> wf_db r \<and> same_but_flags s r \<and> blocked_consistent e r"
    using full_recompute[OF s(1,2), of e] by auto
  show ?thesis
  proof (cases "c = ''''")
    case True
    then show ?thesis using full by (simp add: recomputeIsBlockedAfterMergeScoped_def)
  next
    case False
    then have c: "doltCommitHashRE c" "head_commit m \<noteq> None" "committed m c b s" "wf_db b" "blocked_consistent e b"
      "dep_keys b" "named_parents b" using c by simp_all
    obtain head where h: "head_commit m = Some head" using c(2) by blast
    have w: "t_wisps s = t_wisps b" "t_wisp_deps s = t_wisp_deps b" using c(3) by (simp_all add: committed_def)
    show ?thesis
    proof (cases "head = c \<and> dirty_tables m = Some 0")
      case True
      then have eq: "set (t_issues s) = set (t_issues b)" "set (t_deps s) = set (t_deps b)"
        using c(3) h by (simp_all add: committed_def)
      have "merged b s {} {} {}" using eq w c s by (simp add: merged_def differs_in_def closed_down_def)
      then have "be.consistent_on e UNIV s" using consistent_outside[OF _ c(4,5)] by fastforce
      then have "blocked_consistent e s" using blocked_consistent_engine[OF s(1)] by blast
      then show ?thesis using True False c(1) h s(1) by (simp add: recomputeIsBlockedAfterMergeScoped_def)
    next
      case nf: False
      show ?thesis
      proof (cases "mergeAffectedSets m c s")
        case (Inl err)
        then show ?thesis using s(5) by (auto simp: mergeAffectedSets_def split: option.splits if_splits)
      next
        case (Inr q)
        show ?thesis
        proof (cases q)
          case None
          then show ?thesis using full Inr nf False c(1) h by (auto simp: recomputeIsBlockedAfterMergeScoped_def)
        next
          case (Some p)
          obtain xs ws where p: "p = (xs, ws)" by (cases p)
          obtain ids es where ie: "changedIssueIDs m c = Some ids" "changedDependencyEdges m c = Some es"
            "scope_of xs ws = (\<Union>x\<in>set ids. span (affected_status False s x)) \<union> (\<Union>(x, y, t)\<in>set es. span (affected_dep False s x y t))"
            using merged_sets[of m c s xs ws] Inr Some p by blast
          obtain ri rd where d: "diff_issues m c = Some ri" "diff_deps m c = Some rd"
            using ie(1,2) by (auto simp: changedIssueIDs_def changedDependencyEdges_def)
          have li: "lists_changes ID ri (set (t_issues b)) (set (t_issues s))" "lists_changes dep_id rd (set (t_deps b)) (set (t_deps s))"
            using c(3) d by (simp_all add: committed_def)
          have df: "differs_in b s (set ids) (set es)"
            using w changed_issues[OF li(1) d(1) ie(1)] changed_edges[OF li(2) d(2) ie(2)] by (simp add: differs_in_def)
          have cl: "closed_down (scope_of xs ws) s"
            unfolding ie(3) by (intro closed_down_Un closed_down_UN) (auto intro: affected_down split: prod.split)
          have mg: "merged b s (set ids) (set es) (scope_of xs ws)"
            unfolding merged_def
          proof (intro conjI)
            show "\<forall>x\<in>set ids. span (affected_status False s x) \<subseteq> scope_of xs ws"
              "\<forall>(x, y, t)\<in>set es. span (affected_dep False s x y t) \<subseteq> scope_of xs ws"
              unfolding ie(3) by blast+
          qed (use df c s cl in simp_all)
          obtain r where "recomputeIsBlocked e xs ws s = Some r" "wf_db r" "same_but_flags s r" "blocked_consistent e r"
            using recompute_repairs[OF s(1,2) closed_down_child[OF cl] consistent_outside[OF mg c(4,5)]] by blast
          then show ?thesis using Inr Some p nf False c(1) h by (auto simp: recomputeIsBlockedAfterMergeScoped_def)
        qed
      qed
    qed
  qed
qed

end
