(* ===== verification/PropsMerge.thy ===== *)
theory PropsMerge
  imports MergeThms PropsBlocked
begin

text \<open>The properties of the recompute after a merge.\<close>

subsection \<open>The metadata table does not matter\<close>

lemma metadata_tables [simp]:
  "issue_table w (s\<lparr>t_metadata := x\<rparr>) = issue_table w s" "dep_table w (s\<lparr>t_metadata := x\<rparr>) = dep_table w s"
  by (simp_all add: issue_table_def dep_table_def)

lemma metadata_views:
  "wf_db (s\<lparr>t_metadata := x\<rparr>) = wf_db s" "acyclic_parents (s\<lparr>t_metadata := x\<rparr>) = acyclic_parents s"
  "rows_closed_at (s\<lparr>t_metadata := x\<rparr>) = rows_closed_at s"
  "blocked_consistent e (s\<lparr>t_metadata := x\<rparr>) = blocked_consistent e s"
proof -
  let ?s = "s\<lparr>t_metadata := x\<rparr>"
  show "wf_db ?s = wf_db s" "rows_closed_at ?s = rows_closed_at s" by (simp_all add: wf_db_def rows_closed_at_def)
  have p: "parents ?s = parents s" "nodes ?s = nodes s" by (simp_all add: fun_eq_iff parents_def nodes_def)
  then show "acyclic_parents ?s = acyclic_parents s" by (simp add: acyclic_parents_def parent_edges_def)
  have j: "joined_target ?s = joined_target s" "spawned_child ?s = spawned_child s"
    by (simp_all add: fun_eq_iff joined_target_table spawned_child_table)
  show "blocked_consistent e ?s = blocked_consistent e s"
    by (simp add: blocked_consistent_def shouldBeBlocked_def hard_blocked_def parent_blocked_def waits_blocked_def
        waitsForGateBlocked_def j)
qed

lemma good_db_metadata: "good_db e (s\<lparr>t_metadata := x\<rparr>) = good_db e s"
  by (simp add: good_db_def metadata_views)

subsection \<open>The window of a recompute\<close>

text \<open>The commit from which a recompute looks for changes: the one of a pending failure comes first.\<close>

definition window :: "db \<Rightarrow> string \<Rightarrow> string" where
  "window s fromCommit = (let p = pendingIsBlockedRecompute s in
     if p = '''' then fromCommit else if doltCommitHashRE p \<and> fromCommit \<noteq> '''' then p else '''')"

lemma kv_get_removed: "kv_get k (filter (\<lambda>p. fst p \<noteq> k) t) = ''''"
proof -
  have "map_of (filter (\<lambda>p. fst p \<noteq> k) t) k = None" by (induction t) auto
  then show ?thesis by (simp add: kv_get_def)
qed

lemma recompute_window:
  assumes "recomputeIsBlockedAfterMergeScoped e m (window s c) s = Some (Inr r)"
  shows "\<exists>x. RecomputeIsBlockedAfterMerge e m c s = Some (Inr (r\<lparr>t_metadata := x\<rparr>)) \<and>
    (t_metadata r = t_metadata s \<longrightarrow> pendingIsBlockedRecompute (r\<lparr>t_metadata := x\<rparr>) = '''')"
proof (cases "pendingIsBlockedRecompute s = ''''")
  case True
  then show ?thesis using assms
    by (intro exI[of _ "t_metadata r"])
      (simp add: RecomputeIsBlockedAfterMerge_def window_def pendingIsBlockedRecompute_def GetMetadata_def)
next
  case False
  then show ?thesis using assms
    by (intro exI[of _ "filter (\<lambda>p. fst p \<noteq> isBlockedRecomputePendingKey) (t_metadata r)"])
      (simp add: RecomputeIsBlockedAfterMerge_def window_def pendingIsBlockedRecompute_def GetMetadata_def kv_get_removed Let_def)
qed

text \<open>
  (C13) The recompute after a merge, on an engine that accepts its statements.  The merged
  tables have unique keys, correct \<^verbatim>\<open>closed_at\<close> columns, a target in every parent-child row
  and no cycle of parents, which a merge of two good databases can introduce
  (\<^verbatim>\<open>merged_ring_diverges\<close>: then it never returns); the flags are whatever the merge left.  If
  it starts from a commit, the whole database of that commit satisfied the invariant, and the
  rows of \<^verbatim>\<open>dolt_diff\<close>, when they can be read, list what changed since; the context lasts.
  Then the recompute returns, makes every flag exact,
  touches nothing but the flags and the marker of a failed attempt, and leaves the
  invariant of the store: the seeds of the row differences are enough, the cap, a failing
  difference and an unknown commit fall back to the full recompute, and the skip for an
  unchanged HEAD is taken only when nothing was merged.
\<close>

theorem merge_recompute_complete:
  assumes "wf_db s" "acyclic_parents s" "rows_closed_at s" "dep_keys s" "named_parents s" "\<not> ctx_dead m"
    and "window s fromCommit = '''' \<or> doltCommitHashRE (window s fromCommit) \<and> head_commit m \<noteq> None \<and>
      committed m (window s fromCommit) b s \<and> good_db e b \<and> dep_keys b \<and> named_parents b"
  shows "\<exists>s'. RecomputeIsBlockedAfterMerge e m fromCommit s = Some (Inr s') \<and> good_db e s' \<and>
    same_but_flags s (s'\<lparr>t_metadata := t_metadata s\<rparr>) \<and> pendingIsBlockedRecompute s' = '''' \<and>
    (\<forall>n. must_block e s' n = must_block e s n)"
proof -
  obtain r where r: "recomputeIsBlockedAfterMergeScoped e m (window s fromCommit) s = Some (Inr r)" "wf_db r"
    "same_but_flags s r" "blocked_consistent e r"
    using scoped_recompute[OF assms(1,2,4,5,6), of "window s fromCommit" b e] assms(7) by (auto simp: good_db_def)
  have md: "t_metadata r = t_metadata s"
    using arg_cong[OF r(3)[unfolded same_but_flags_def], of t_metadata] by (simp add: erase_def)
  obtain x where x: "RecomputeIsBlockedAfterMerge e m fromCommit s = Some (Inr (r\<lparr>t_metadata := x\<rparr>))"
    "pendingIsBlockedRecompute (r\<lparr>t_metadata := x\<rparr>) = ''''"
    using recompute_window[OF r(1)] md by blast
  have g: "good_db e r"
    using r acyclic_parents_same[OF r(3)] rows_closed_at_same[OF r(3)] assms(2,3) by (simp add: good_db_def)
  have "r\<lparr>t_metadata := t_metadata s\<rparr> = r" using md by simp
  then have sb: "same_but_flags s ((r\<lparr>t_metadata := x\<rparr>)\<lparr>t_metadata := t_metadata s\<rparr>)" using r(3) by simp
  have gx: "good_db e (r\<lparr>t_metadata := x\<rparr>)" using g by (simp add: good_db_metadata)
  have "must_block e (r\<lparr>t_metadata := x\<rparr>) n = must_block e s n" for n
  proof -
    have "flagged (r\<lparr>t_metadata := x\<rparr>) = flagged r" by (simp add: flagged_def)
    moreover have "flagged r = {n. must_block e r n}" "flagged (r\<lparr>t_metadata := x\<rparr>) = {n. must_block e (r\<lparr>t_metadata := x\<rparr>) n}"
      using g gx by (simp_all only: good_db_def flagged_must_block)
    ultimately show ?thesis using must_block_same[OF r(3)] by (metis mem_Collect_eq)
  qed
  then show ?thesis using x gx sb by blast
qed

subsection \<open>Example\<close>

text \<open>
  One clone closed \<^verbatim>\<open>bd-1\<close>, the other added an issue that \<^verbatim>\<open>bd-2\<close> blocks: the merged tables
  carry two stale flags.
\<close>

definition before_merge :: db where
  "before_merge = ex_db [ex_row ''bd-1'' ''open'' False, ex_row ''bd-2'' ''open'' True]
     [ex_dep ''bd-2'' ''bd-1'' ''blocks'' '''']"

definition after_merge :: db where
  "after_merge = ex_db [ex_row ''bd-1'' ''closed'' False, ex_row ''bd-2'' ''open'' True, ex_row ''bd-3'' ''open'' False]
     [ex_dep ''bd-2'' ''bd-1'' ''blocks'' '''', ex_dep ''bd-3'' ''bd-2'' ''blocks'' '''']"

definition base_commit :: string where
  "base_commit = replicate 32 CHR ''a''"

definition ex_merge :: merge_view where
  "ex_merge = \<lparr>head_commit = Some (replicate 32 CHR ''b''), dirty_tables = Some 0,
     diff_issues = (\<lambda>c. Some [(Some (ex_row ''bd-1'' ''open'' False), Some (ex_row ''bd-1'' ''closed'' False)),
       (None, Some (ex_row ''bd-3'' ''open'' False))]),
     diff_deps = (\<lambda>c. Some [(None, Some (ex_dep ''bd-3'' ''bd-2'' ''blocks'' ''''))]), ctx_dead = False\<rparr>"

lemma merge_acyclic: "acyclic_parents before_merge" "acyclic_parents after_merge"
  unfolding acyclic_parents_def
  by (rule acyclic_by_rank[where rank = "\<lambda>n. 0"],
      auto simp: parent_edges_def parents_def dep_table_def before_merge_def after_merge_def ex_db_def ex_dep_def const_defs
        split: if_splits)+

lemma merge_facts:
  "wf_db after_merge" "rows_closed_at after_merge" "dep_keys after_merge" "named_parents after_merge"
  "dep_keys before_merge" "named_parents before_merge" "good_db ex_env before_merge"
proof -
  show "wf_db after_merge" unfolding wf_db_def all_bool_eq by (simp add: after_merge_def)
  show "rows_closed_at after_merge" by code_simp
  show "dep_keys after_merge" "named_parents after_merge" "dep_keys before_merge" "named_parents before_merge"
    unfolding dep_keys_def named_parents_def all_bool_eq by code_simp+
  have "wf_db before_merge" unfolding wf_db_def all_bool_eq by (simp add: before_merge_def)
  moreover have "blocked_consistent ex_env before_merge" "rows_closed_at before_merge" by code_simp+
  ultimately show "good_db ex_env before_merge" using merge_acyclic(1) by (simp add: good_db_def)
qed

lemma ex_committed: "committed ex_merge base_commit before_merge after_merge"
  unfolding committed_def lists_changes_def
  by (auto simp: ex_merge_def before_merge_def after_merge_def ex_db_def base_commit_def)

lemma ex_window: "window after_merge base_commit = base_commit"
  by (simp add: window_def pendingIsBlockedRecompute_def GetMetadata_def kv_get_def after_merge_def ex_db_def)

theorem merge_recompute_complete_witness:
  "\<exists>s'. RecomputeIsBlockedAfterMerge ex_env ex_merge base_commit after_merge = Some (Inr s') \<and> good_db ex_env s' \<and>
     \<not> blocked_consistent ex_env after_merge"
proof -
  have "\<not> ctx_dead ex_merge" "head_commit ex_merge \<noteq> None" by (simp_all add: ex_merge_def)
  moreover have "doltCommitHashRE base_commit" by code_simp
  ultimately have "\<exists>s'. RecomputeIsBlockedAfterMerge ex_env ex_merge base_commit after_merge = Some (Inr s') \<and> good_db ex_env s'"
    using merge_recompute_complete[OF merge_facts(1) merge_acyclic(2) merge_facts(2-4), of ex_merge base_commit before_merge ex_env]
      merge_facts(5-7) ex_committed unfolding ex_window by blast
  moreover have "\<not> blocked_consistent ex_env after_merge" by code_simp
  ultimately show ?thesis by blast
qed

text \<open>A failed recompute is not lost: its marker keeps the oldest window until an attempt succeeds.\<close>

lemma marker_keeps_oldest:
  assumes "isBlockedRecomputePendingKey \<notin> fst ` set (t_metadata s)" "doltCommitHashRE c" "later \<noteq> ''''"
  shows "window (MarkIsBlockedRecomputePending d (MarkIsBlockedRecomputePending c s)) later = c"
proof -
  have "map_of (t_metadata s) isBlockedRecomputePendingKey = None" using assms(1) by (simp add: map_of_eq_None_iff)
  moreover have "c \<noteq> ''''" using assms(2) by (auto simp: doltCommitHashRE_def)
  ultimately show ?thesis
    using assms by (simp add: window_def pendingIsBlockedRecompute_def GetMetadata_def kv_get_def
        MarkIsBlockedRecomputePending_def Let_def map_add_def)
qed

text \<open>Two clones may merge into a cycle of parents; then the recompute never returns.\<close>

lemma merged_ring_diverges:
  "RecomputeIsBlockedAfterMerge ex_env m '''' (parent_ring ''bd-1'') = None"
proof -
  have ids: "allIDs False (parent_ring ''bd-1'') = [''bd-1'', ''bd-2'', ''bd-3'']" "allIDs True (parent_ring ''bd-1'') = []"
    "pendingIsBlockedRecompute (parent_ring ''bd-1'') = ''''"
    by (simp_all add: allIDs_def parent_ring_def ex_row_def issue.defs pendingIsBlockedRecompute_def GetMetadata_def kv_get_def)
      (simp add: ex_db_def)
  have "repeat_until_stable (recompute_pass ex_env [''bd-1'', ''bd-2'', ''bd-3''] []) 0 (parent_ring ''bd-1'') = None"
    by (rule loop_diverges[where C = "{parent_ring ''bd-1'', parent_ring ''bd-2'', parent_ring ''bd-3''}"])
      (auto simp: parent_ring_pass numeral_2_eq_2)
  then show ?thesis
    by (simp add: RecomputeIsBlockedAfterMerge_def recomputeIsBlockedAfterMergeScoped_def recomputeIsBlockedForAll_def
        recomputeIsBlocked_def ids)
qed
end
