(* ===== verification/Tx.thy ===== *)
theory Tx
  imports StoreCreate Lifecycle Deps Update Delete Labels Rename
begin

text \<open>
  The transactions of the doltlite store (\<^verbatim>\<open>withConn\<close>, \<^verbatim>\<open>withRetryAfter\<close>, \<^verbatim>\<open>activeDB\<close> of
  \<^verbatim>\<open>internal/storage/doltlite/store.go\<close>) and the operations it runs in them.  The driver is
  a parameter: the record \<^verbatim>\<open>driver\<close> says for one attempt which of its calls fail, with which
  message.  A failed commit leaves the database as it was, and the lock file keeps other
  writers out between two attempts.
\<close>

datatype conn_error =
    Closed
  | Driver string
  | Op store_error
  | Join conn_error conn_error

text \<open>\<^verbatim>\<open>Error()\<close>; the texts of the errors of the operations are a parameter.\<close>

fun message :: "(store_error \<Rightarrow> string) \<Rightarrow> conn_error \<Rightarrow> string" where
  "message text Closed = ''doltlite: store is closed''"
| "message text (Driver m) = m"
| "message text (Op err) = text err"
| "message text (Join a b) = message text a @ [CHR 10] @ message text b"

definition isRetryableConcurrencyError :: "(store_error \<Rightarrow> string) \<Rightarrow> conn_error \<Rightarrow> bool" where
  "isRetryableConcurrencyError text err =
    (let msg = to_lower (message text err)
     in str_contains msg ''sqlite_busy'' \<or> str_contains msg ''database is locked'' \<or>
        str_contains msg ''another connection committed'' \<or> str_contains msg ''please retry your transaction'' \<or>
        str_contains msg ''failed to prepare catalog'')"

text \<open>\<^verbatim>\<open>errors.Join\<close> of an error and a call that may fail.\<close>

definition join_err :: "conn_error \<Rightarrow> string option \<Rightarrow> conn_error" where
  "join_err err m = (case m of None \<Rightarrow> err | Some t \<Rightarrow> Join err (Driver t))"

record driver =
  open_err :: "nat \<Rightarrow> string option"
  begin_err :: "string option"
  exec_err :: "string option"
  rollback_err :: "string option"
  commit_err :: "string option"
  cleanup_err :: "string option"

text \<open>One call: the lock, the attempts, and whether the context ends while waiting after one.\<close>

record calls =
  lock_err :: "string option"
  attempts :: "nat \<Rightarrow> driver"
  ctx_ends :: "nat \<Rightarrow> bool"
  error_text :: "store_error \<Rightarrow> string"

record session =
  persistent :: bool
  closed :: bool
  data :: db

subsection \<open>Retries\<close>

definition maxAttempts :: nat where
  "maxAttempts = 5"

text \<open>\<^verbatim>\<open>left\<close> attempts may follow the attempt \<^verbatim>\<open>attempt\<close>; \<^verbatim>\<open>None\<close> is an attempt that never returns.\<close>

fun retry_loop ::
  "calls \<Rightarrow> ('s \<Rightarrow> 's) \<Rightarrow> (nat \<Rightarrow> 's \<Rightarrow> ((conn_error + 'a) \<times> 's) option) \<Rightarrow> nat \<Rightarrow> nat \<Rightarrow> 's \<Rightarrow>
   ((conn_error + 'a) \<times> 's) option" where
  "retry_loop o' after fn left attempt st =
    (case fn attempt st of
       None \<Rightarrow> None
     | Some (Inr a, st1) \<Rightarrow> Some (Inr a, st1)
     | Some (Inl err, st1) \<Rightarrow>
         if \<not> isRetryableConcurrencyError (error_text o') err then Some (Inl err, st1)
         else if ctx_ends o' attempt then Some (Inl (Join err (Driver ''context canceled'')), after st1)
         else (case left of
             0 \<Rightarrow> Some (Inl err, after st1)
           | Suc n \<Rightarrow> retry_loop o' after fn n (Suc attempt) (after st1)))"

definition withRetryAfter ::
  "calls \<Rightarrow> (nat \<Rightarrow> 's \<Rightarrow> ((conn_error + 'a) \<times> 's) option) \<Rightarrow> ('s \<Rightarrow> 's) \<Rightarrow> 's \<Rightarrow> ((conn_error + 'a) \<times> 's) option" where
  "withRetryAfter o' fn after st = retry_loop o' after fn (maxAttempts - 1) 0 st"

definition resetPersistentDB :: "session \<Rightarrow> session" where
  "resetPersistentDB st = st\<lparr>persistent := False\<rparr>"

subsection \<open>Connections\<close>

text \<open>The persistent connection, or a new one: \<^verbatim>\<open>True\<close> if it has to be closed again.\<close>

definition activeDB :: "calls \<Rightarrow> driver \<Rightarrow> session \<Rightarrow> conn_error + bool" where
  "activeDB o' d st =
    (if persistent st then Inr False
     else (case withRetryAfter o' (\<lambda>k u. Some (case open_err d k of Some m \<Rightarrow> Inl (Driver m) | None \<Rightarrow> Inr True, u)) id () of
         Some (r, u) \<Rightarrow> r
       | None \<Rightarrow> Inl Closed))"

definition run_tx ::
  "driver \<Rightarrow> bool \<Rightarrow> (db \<Rightarrow> (store_error + 'a \<times> db) option) \<Rightarrow> db \<Rightarrow> ((conn_error + 'a) \<times> db) option" where
  "run_tx d commit fn s =
    (case begin_err d of
       Some m \<Rightarrow> Some (Inl (Driver (''doltlite: begin tx: '' @ m)), s)
     | None \<Rightarrow> (case exec_err d of
         Some m \<Rightarrow> Some (Inl (join_err (Driver m) (rollback_err d)), s)
       | None \<Rightarrow> (case fn s of
           None \<Rightarrow> None
         | Some (Inl err) \<Rightarrow> Some (Inl (join_err (Op err) (rollback_err d)), s)
         | Some (Inr (a, s')) \<Rightarrow>
             if \<not> commit then Some (case rollback_err d of None \<Rightarrow> Inr a | Some m \<Rightarrow> Inl (Driver m), s)
             else Some (case commit_err d of None \<Rightarrow> (Inr a, s') | Some m \<Rightarrow> (Inl (Driver m), s)))))"

definition withConnOnce ::
  "calls \<Rightarrow> driver \<Rightarrow> bool \<Rightarrow> (db \<Rightarrow> (store_error + 'a \<times> db) option) \<Rightarrow> session \<Rightarrow> ((conn_error + 'a) \<times> session) option" where
  "withConnOnce o' d commit fn st =
    (if closed st then Some (Inl Closed, st)
     else (case activeDB o' d st of
         Inl err \<Rightarrow> Some (Inl err, st)
       | Inr fresh \<Rightarrow> map_option (\<lambda>(r, s').
           (if fresh then (case (cleanup_err d, r) of
                (None, _) \<Rightarrow> r
              | (Some m, Inl err) \<Rightarrow> Inl (Join err (Driver m))
              | (Some m, Inr a) \<Rightarrow> Inl (Driver m))
            else r, st\<lparr>data := s'\<rparr>)) (run_tx d commit fn (data st))))"

definition withExclusiveLock ::
  "calls \<Rightarrow> (session \<Rightarrow> ((conn_error + 'a) \<times> session) option) \<Rightarrow> session \<Rightarrow> ((conn_error + 'a) \<times> session) option" where
  "withExclusiveLock o' fn st = (case lock_err o' of Some m \<Rightarrow> Some (Inl (Driver m), st) | None \<Rightarrow> fn st)"

definition withConn ::
  "calls \<Rightarrow> bool \<Rightarrow> (db \<Rightarrow> (store_error + 'a \<times> db) option) \<Rightarrow> session \<Rightarrow> ((conn_error + 'a) \<times> session) option" where
  "withConn o' commit fn st =
    (if commit then withExclusiveLock o'
        (withRetryAfter o' (\<lambda>k. withConnOnce o' (attempts o' k) commit fn) resetPersistentDB) st
     else withConnOnce o' (attempts o' 0) commit fn st)"

definition close_session :: "session \<Rightarrow> session" where
  "close_session st = st\<lparr>closed := True, persistent := False\<rparr>"

definition DB :: "session \<Rightarrow> bool" where
  "DB st = persistent st"

end
