(* ===== verification/StoreOps.thy ===== *)
theory StoreOps
  imports Tx ReadyWork
begin

text \<open>
  The operations of the doltlite store as its clients call them: each runs one function of
  \<^verbatim>\<open>issueops\<close> in a transaction of \<^verbatim>\<open>Tx\<close> (\<^verbatim>\<open>issues.go\<close>, \<^verbatim>\<open>dependencies.go\<close>, \<^verbatim>\<open>labels.go\<close>,
  \<^verbatim>\<open>config_metadata.go\<close>, \<^verbatim>\<open>slots.go\<close> and \<^verbatim>\<open>store.go\<close> of \<^verbatim>\<open>internal/storage/doltlite\<close>), and the
  operations of a client's own transaction (\<^verbatim>\<open>transaction.go\<close>).
\<close>

type_synonym 'a call = "calls \<Rightarrow> session \<Rightarrow> ((conn_error + 'a) \<times> session) option"

text \<open>The three shapes of the functions that run in a transaction.\<close>

definition runs :: "(db \<Rightarrow> (store_error + db) option) \<Rightarrow> db \<Rightarrow> (store_error + unit \<times> db) option" where
  "runs f s = map_option (map_sum id (\<lambda>s'. ((), s'))) (f s)"

definition runs_res :: "(db \<Rightarrow> (store_error + 'a \<times> db) option) \<Rightarrow> db \<Rightarrow> (store_error + unit \<times> db) option" where
  "runs_res f s = map_option (map_sum id (\<lambda>(r, s'). ((), s'))) (f s)"

definition reads :: "(db \<Rightarrow> store_error + 'a) \<Rightarrow> db \<Rightarrow> (store_error + 'a \<times> db) option" where
  "reads f s = Some (map_sum id (\<lambda>r. (r, s)) (f s))"

subsection \<open>Issues\<close>

definition Store_GetIssue :: "string \<Rightarrow> issue_row call" where
  "Store_GetIssue x c = withConn c False (reads (\<lambda>s. GetIssue s x))"

definition Store_ClaimIssue :: "env \<Rightarrow> string \<Rightarrow> string \<Rightarrow> unit call" where
  "Store_ClaimIssue e x actor c = withConn c True (runs_res (\<lambda>s. Some (ClaimIssue e x actor s)))"

definition Store_ClaimReadyIssue :: "env \<Rightarrow> sql_env \<Rightarrow> work_filter \<Rightarrow> string \<Rightarrow> issue_row option call" where
  "Store_ClaimReadyIssue e q f actor c = withConn c True (\<lambda>s. Some (ClaimReadyIssue e q f actor s))"

definition Store_UpdateIssue :: "env \<Rightarrow> string \<Rightarrow> updates \<Rightarrow> string \<Rightarrow> unit call" where
  "Store_UpdateIssue e x updates actor c st =
    (let call = withConn c True (runs_res (UpdateIssue e x updates actor)) st in
     case map_of updates ''metadata'' of
       None \<Rightarrow> call
     | Some rawMeta \<Rightarrow> (case NormalizeMetadataValue e rawMeta of
         None \<Rightarrow> Some (Inl (Op InvalidMetadata), st)
       | Some metadataStr \<Rightarrow> if metadata_violation e metadataStr then Some (Inl (Op InvalidMetadata), st) else call))"

definition Store_HeartbeatIssue :: "env \<Rightarrow> string \<Rightarrow> string \<Rightarrow> unit call" where
  "Store_HeartbeatIssue e x actor c = withConn c True (runs (\<lambda>s. Some (HeartbeatIssue e x actor s)))"

definition Store_ReclaimExpiredLeases :: "env \<Rightarrow> int \<Rightarrow> string \<Rightarrow> (string \<times> string) list call" where
  "Store_ReclaimExpiredLeases e olderThan actor c =
     withConn c True (\<lambda>s. let (s', rs) = ReclaimExpiredLeases e (now e - olderThan) actor s in Some (Inr (rs, s')))"

definition Store_AddComment :: "string \<Rightarrow> string \<Rightarrow> string \<Rightarrow> unit call" where
  "Store_AddComment x actor txt c = withConn c True (runs (\<lambda>s. Some (Inr (AddCommentEvent x actor txt s))))"

text \<open>Two transactions: the second may fail when the first has committed.\<close>

definition Store_ReopenIssue :: "env \<Rightarrow> string \<Rightarrow> string \<Rightarrow> string \<Rightarrow> calls \<Rightarrow> unit call" where
  "Store_ReopenIssue e x reason actor c2 c st =
    (case Store_UpdateIssue e x [(''status'', UString StatusOpen), (''defer_until'', UNil)] actor c st of
       None \<Rightarrow> None
     | Some (Inl err, st1) \<Rightarrow> Some (Inl err, st1)
     | Some (Inr u, st1) \<Rightarrow> if reason \<noteq> '''' then Store_AddComment x actor reason c2 st1 else Some (Inr (), st1))"

definition Store_UpdateIssueType :: "env \<Rightarrow> string \<Rightarrow> string \<Rightarrow> string \<Rightarrow> unit call" where
  "Store_UpdateIssueType e x t actor c st = Store_UpdateIssue e x [(''issue_type'', UString t)] actor c st"

definition Store_CloseIssue :: "env \<Rightarrow> string \<Rightarrow> string \<Rightarrow> string \<Rightarrow> string \<Rightarrow> unit call" where
  "Store_CloseIssue e x reason actor sess c = withConn c True (runs_res (CloseIssue e x reason actor sess))"

definition Store_DeleteIssue :: "env \<Rightarrow> string \<Rightarrow> unit call" where
  "Store_DeleteIssue e x c = withConn c True (runs (DeleteIssue e x))"

text \<open>
  The counts that the code returns together with an error are left out.  The store's
  engine is SQLite, which rejects the MySQL recompute of the batch deletions.
\<close>

definition Store_DeleteIssues ::
  "(string set \<Rightarrow> string list) \<Rightarrow> env \<Rightarrow> string list \<Rightarrow> bool \<Rightarrow> bool \<Rightarrow> bool \<Rightarrow> delete_result call" where
  "Store_DeleteIssues ord e ids cascade force dryRun c =
     withConn c (\<not> dryRun) (\<lambda>s. map_option (map_sum fst id) (DeleteIssues False ord e ids cascade force dryRun s))"

definition Store_DeleteIssuesBySourceRepo :: "env \<Rightarrow> string \<Rightarrow> nat call" where
  "Store_DeleteIssuesBySourceRepo e repo c = withConn c True (DeleteIssuesBySourceRepo False e repo)"

definition Store_UpdateIssueID :: "env \<Rightarrow> string \<Rightarrow> string \<Rightarrow> issue \<Rightarrow> string \<Rightarrow> unit call" where
  "Store_UpdateIssueID e old new i actor c = withConn c True (runs (\<lambda>s. Some (UpdateIssueID e old new i actor s)))"

definition Store_PromoteFromEphemeral :: "env \<Rightarrow> string \<Rightarrow> unit call" where
  "Store_PromoteFromEphemeral e x c = withConn c True (runs (PromoteFromEphemeral e x))"

definition Store_RenameDependencyPrefix :: "string \<Rightarrow> string \<Rightarrow> unit call" where
  "Store_RenameDependencyPrefix old new c = withConn c True (runs (\<lambda>s. Some (RenameDependencyPrefix old new s)))"

subsection \<open>Dependencies, labels, comments, configuration\<close>

definition Store_AddDependency :: "env \<Rightarrow> dependency \<Rightarrow> string \<Rightarrow> unit call" where
  "Store_AddDependency e dep actor c = withConn c True (runs (StoreAddDependency e dep actor))"

definition Store_RemoveDependency :: "env \<Rightarrow> string \<Rightarrow> string \<Rightarrow> unit call" where
  "Store_RemoveDependency e x y c = withConn c True (runs (\<lambda>s. map_option Inr (removeDependency e x y s)))"

definition Store_AddLabel :: "string \<Rightarrow> string \<Rightarrow> string \<Rightarrow> unit call" where
  "Store_AddLabel x label actor c = withConn c True (runs (\<lambda>s. Some (Inr (AddLabel x label actor s))))"

definition Store_RemoveLabel :: "string \<Rightarrow> string \<Rightarrow> string \<Rightarrow> unit call" where
  "Store_RemoveLabel x label actor c = withConn c True (runs (\<lambda>s. Some (Inr (RemoveLabel x label actor s))))"

definition Store_AddIssueComment :: "env \<Rightarrow> string \<Rightarrow> string \<Rightarrow> string \<Rightarrow> comment call" where
  "Store_AddIssueComment e x author txt c = withConn c True (\<lambda>s. Some (AddIssueComment e x author txt s))"

definition Store_ImportIssueComment :: "env \<Rightarrow> string \<Rightarrow> string \<Rightarrow> string \<Rightarrow> time \<Rightarrow> comment call" where
  "Store_ImportIssueComment e x author txt createdAt c = withConn c True (\<lambda>s. Some (ImportIssueComment e x author txt createdAt s))"

definition Store_SetConfig :: "env \<Rightarrow> string \<Rightarrow> string \<Rightarrow> unit call" where
  "Store_SetConfig e key value c = withConn c True (runs (\<lambda>s. Some (SetConfig e key value s)))"

definition Store_DeleteConfig :: "string \<Rightarrow> unit call" where
  "Store_DeleteConfig key c = withConn c True (runs (\<lambda>s. Some (Inr (DeleteConfig key s))))"

definition Store_SetMetadata :: "string \<Rightarrow> string \<Rightarrow> unit call" where
  "Store_SetMetadata key value c = withConn c True (runs (\<lambda>s. Some (Inr (SetMetadata key value s))))"

definition Store_SetLocalMetadata :: "string \<Rightarrow> string \<Rightarrow> unit call" where
  "Store_SetLocalMetadata key value c = withConn c True (runs (\<lambda>s. Some (Inr (SetLocalMetadata key value s))))"

subsection \<open>Slots\<close>

text \<open>
  A slot is a key of the metadata object of an issue.  The JSON codec of the library is a
  parameter: reading a text into a map (\<^verbatim>\<open>None\<close> for one that is no object), the text of the
  JSON null, writing a map, and the text of one value, with its string if it is one.
\<close>

record 'j json_codec =
  json_object :: "string \<Rightarrow> (string \<rightharpoonup> 'j) option"
  json_null :: "string \<Rightarrow> bool"
  json_text :: "(string \<rightharpoonup> 'j) \<Rightarrow> string"
  json_string :: "string \<Rightarrow> 'j"
  json_string_of :: "'j \<Rightarrow> string option"
  json_value_text :: "'j \<Rightarrow> string"

text \<open>
  \<^verbatim>\<open>json.Unmarshal\<close> into a new map: an empty column leaves the empty map, the JSON null makes
  the map nil, here \<^verbatim>\<open>None\<close>.
\<close>

definition slots_of :: "'j json_codec \<Rightarrow> string \<Rightarrow> conn_error + (string \<rightharpoonup> 'j) option" where
  "slots_of jc txt = (if txt = '''' then Inr (Some Map.empty)
     else if json_null jc txt then Inr None
     else (case json_object jc txt of None \<Rightarrow> Inl (Op (OpFailed ''parsing metadata'')) | Some m \<Rightarrow> Inr (Some m)))"

text \<open>The lookup in a map that may be nil.\<close>

definition slot_lookup :: "(string \<rightharpoonup> 'j) option \<Rightarrow> string \<Rightarrow> 'j option" where
  "slot_lookup m key = (case m of None \<Rightarrow> None | Some f \<Rightarrow> f key)"

text \<open>
  The part of \<^verbatim>\<open>SlotSet\<close> after it has read the issue.  The assignment to a nil map panics; no
  transaction is open then.
\<close>

definition slot_write :: "env \<Rightarrow> 'j json_codec \<Rightarrow> string \<Rightarrow> string \<Rightarrow> string \<Rightarrow> string \<Rightarrow> issue_row \<Rightarrow> unit call" where
  "slot_write e jc x key value actor i c st =
    (case slots_of jc (Metadata i) of
       Inl err \<Rightarrow> Some (Inl err, st)
     | Inr None \<Rightarrow> Some (Inl (Driver ''panic: assignment to entry in nil map''), st)
     | Inr (Some m) \<Rightarrow>
         Store_UpdateIssue e x [(''metadata'', UString (json_text jc (m(key \<mapsto> json_string jc value))))] actor c st)"

definition SlotSet :: "env \<Rightarrow> 'j json_codec \<Rightarrow> string \<Rightarrow> string \<Rightarrow> string \<Rightarrow> string \<Rightarrow> calls \<Rightarrow> unit call" where
  "SlotSet e jc x key value actor c2 c st =
    (case Store_GetIssue x c st of
       None \<Rightarrow> None
     | Some (Inl err, st1) \<Rightarrow> Some (Inl err, st1)
     | Some (Inr i, st1) \<Rightarrow> slot_write e jc x key value actor i c2 st1)"

definition SlotGet :: "'j json_codec \<Rightarrow> string \<Rightarrow> string \<Rightarrow> string call" where
  "SlotGet jc x key c st =
    (case Store_GetIssue x c st of
       None \<Rightarrow> None
     | Some (Inl err, st1) \<Rightarrow> Some (Inl err, st1)
     | Some (Inr i, st1) \<Rightarrow>
         if Metadata i = '''' then Some (Inl (Op (OpFailed ''no metadata'')), st1)
         else (case slots_of jc (Metadata i) of
             Inl err \<Rightarrow> Some (Inl err, st1)
           | Inr m \<Rightarrow> (case slot_lookup m key of
               None \<Rightarrow> Some (Inl (Op (OpFailed ''key not found'')), st1)
             | Some v \<Rightarrow> Some (Inr (case json_string_of jc v of Some t \<Rightarrow> t | None \<Rightarrow> json_value_text jc v), st1))))"

definition SlotClear :: "env \<Rightarrow> 'j json_codec \<Rightarrow> string \<Rightarrow> string \<Rightarrow> string \<Rightarrow> calls \<Rightarrow> unit call" where
  "SlotClear e jc x key actor c2 c st =
    (case Store_GetIssue x c st of
       None \<Rightarrow> None
     | Some (Inl err, st1) \<Rightarrow> Some (Inl err, st1)
     | Some (Inr i, st1) \<Rightarrow>
         if Metadata i = '''' then Some (Inr (), st1)
         else (case slots_of jc (Metadata i) of
             Inl err \<Rightarrow> Some (Inl err, st1)
           | Inr m \<Rightarrow> (case m of
               None \<Rightarrow> Some (Inr (), st1)
             | Some f \<Rightarrow>
                 if f key = None then Some (Inr (), st1)
                 else Store_UpdateIssue e x [(''metadata'', UString (json_text jc (f(key := None))))] actor c2 st1)))"

subsection \<open>Transactions of a client\<close>

text \<open>
  The state of an \<^verbatim>\<open>embeddedTransaction\<close>: the tables marked dirty and the database.  A client
  returns the first error, which ends the transaction.
\<close>

type_synonym txn = "string set \<times> db"

definition MarkDirty :: "string \<Rightarrow> string set \<Rightarrow> string set" where
  "MarkDirty table tables = (if table = ''wisps'' \<or> has_prefix table ''wisp_'' then tables else insert table tables)"

definition mark_all :: "string list \<Rightarrow> string set \<Rightarrow> string set" where
  "mark_all ts tables = fold MarkDirty ts tables"

definition create_tables :: "string list" where
  "create_tables = [''issues'', ''wisps'', ''events'', ''wisp_events'', ''labels'', ''wisp_labels'', ''comments'', ''wisp_comments'']"

definition Txn_CreateIssue :: "env \<Rightarrow> issue \<Rightarrow> string \<Rightarrow> txn \<Rightarrow> store_error + (issue \<times> txn)" where
  "Txn_CreateIssue e i actor t = (let (d, s) = t in
     bind_res (NewBatchContext e create_opts s) (\<lambda>bc.
     bind_res (createIssueSQLite e bc i actor s) (\<lambda>(i', s'). Inr (i', (mark_all create_tables d, s')))))"

definition Txn_CreateIssues :: "env \<Rightarrow> issue list \<Rightarrow> string \<Rightarrow> txn \<Rightarrow> store_error + (issue list \<times> txn)" where
  "Txn_CreateIssues e issues actor t = (let (d, s) = t in
     bind_res (NewBatchContext e (create_opts\<lparr>OrphanHandling := ''allow''\<rparr>) s) (\<lambda>bc.
     bind_res (fold_res (create_step_sqlite e bc actor) issues ([], s)) (\<lambda>(is, s').
       Inr (is, (mark_all create_tables d, s')))))"

definition in_txn :: "string list \<Rightarrow> txn \<Rightarrow> (store_error + db) option \<Rightarrow> (store_error + txn) option" where
  "in_txn ts t r = map_option (map_sum id (\<lambda>s'. (mark_all ts (fst t), s'))) r"

definition Txn_UpdateIssue :: "env \<Rightarrow> string \<Rightarrow> updates \<Rightarrow> string \<Rightarrow> txn \<Rightarrow> (store_error + txn) option" where
  "Txn_UpdateIssue e x u actor t =
     in_txn [''issues'', ''events''] t (map_option (map_sum id snd) (UpdateIssue e x u actor (snd t)))"

definition Txn_CloseIssue :: "env \<Rightarrow> string \<Rightarrow> string \<Rightarrow> string \<Rightarrow> string \<Rightarrow> txn \<Rightarrow> (store_error + txn) option" where
  "Txn_CloseIssue e x reason actor sess t =
     in_txn [''issues'', ''events''] t (map_option (map_sum id snd) (CloseIssue e x reason actor sess (snd t)))"

definition Txn_DeleteIssue :: "env \<Rightarrow> string \<Rightarrow> txn \<Rightarrow> (store_error + txn) option" where
  "Txn_DeleteIssue e x t =
     in_txn [''issues'', ''dependencies'', ''labels'', ''comments'', ''events''] t (DeleteIssue e x (snd t))"

definition dep_table_name :: "bool \<Rightarrow> string" where
  "dep_table_name w = (if w then ''wisp_dependencies'' else ''dependencies'')"

definition Txn_AddDependency :: "env \<Rightarrow> dependency \<Rightarrow> string \<Rightarrow> bool \<Rightarrow> txn \<Rightarrow> (store_error + txn) option" where
  "Txn_AddDependency e dep actor skipCycleCheck t =
     in_txn [dep_table_name (IsActiveWisp (snd t) (IssueID dep))] t
       (AddDependency e dep actor (default_opts\<lparr>IsCrossPrefix := (ExtractPrefix (IssueID dep) \<noteq> ExtractPrefix (DependsOnID dep)),
          SkipCycleCheck := skipCycleCheck\<rparr>) (snd t))"

definition Txn_RemoveDependency :: "env \<Rightarrow> string \<Rightarrow> string \<Rightarrow> txn \<Rightarrow> (store_error + txn) option" where
  "Txn_RemoveDependency e x y t = in_txn [''dependencies''] t (map_option Inr (removeDependency e x y (snd t)))"

definition Txn_AddLabel :: "string \<Rightarrow> string \<Rightarrow> string \<Rightarrow> txn \<Rightarrow> (store_error + txn) option" where
  "Txn_AddLabel x label actor t =
     in_txn (if IsActiveWisp (snd t) x then [''wisp_labels'', ''wisp_events''] else [''labels'', ''events'']) t
       (Some (Inr (AddLabel x label actor (snd t))))"

definition Txn_RemoveLabel :: "string \<Rightarrow> string \<Rightarrow> string \<Rightarrow> txn \<Rightarrow> (store_error + txn) option" where
  "Txn_RemoveLabel x label actor t = in_txn [''labels''] t (Some (Inr (RemoveLabel x label actor (snd t))))"

definition Txn_SetConfig :: "env \<Rightarrow> string \<Rightarrow> string \<Rightarrow> txn \<Rightarrow> (store_error + txn) option" where
  "Txn_SetConfig e key value t =
     in_txn (''config'' # (if key = ''status.custom'' then [''custom_statuses''] else if key = ''types.custom'' then [''custom_types''] else []))
       t (Some (SetConfig e key value (snd t)))"

definition Txn_SetMetadata :: "string \<Rightarrow> string \<Rightarrow> txn \<Rightarrow> (store_error + txn) option" where
  "Txn_SetMetadata key value t = in_txn [''metadata''] t (Some (Inr (SetMetadata key value (snd t))))"

definition Txn_SetLocalMetadata :: "string \<Rightarrow> string \<Rightarrow> txn \<Rightarrow> (store_error + txn) option" where
  "Txn_SetLocalMetadata key value t = in_txn [] t (Some (Inr (SetLocalMetadata key value (snd t))))"

text \<open>The import of one issue; \<^verbatim>\<open>reservation\<close> is the child counter the context carries.\<close>

definition CreateIssueDirtyTables :: "(string \<times> int) option \<Rightarrow> issue \<Rightarrow> create_result \<Rightarrow> string set" where
  "CreateIssueDirtyTables reservation i result =
     stageableChangedTables (ChangedTables result) \<union>
     (case ParseHierarchicalID_ops (ID i) of
        None \<Rightarrow> {}
      | Some (parentID, childNum) \<Rightarrow>
          if HasReservedChildCounter reservation parentID childNum then {''child_counters''} else {})"

definition Txn_CreateIssueImport ::
  "env \<Rightarrow> (string \<times> int) option \<Rightarrow> issue \<Rightarrow> string \<Rightarrow> bool \<Rightarrow> txn \<Rightarrow> store_error + (issue \<times> txn)" where
  "Txn_CreateIssueImport e reservation i actor skipPrefixValidation t = (let (d, s) = t in
     bind_res (NewBatchContext e (default_batch_opts\<lparr>SkipPrefixValidation := skipPrefixValidation\<rparr>) s) (\<lambda>bc.
     bind_res (CreateIssueInTxWithResult e bc i actor s) (\<lambda>(result, i', s').
       Inr (i', (d \<union> CreateIssueDirtyTables reservation i' result, s')))))"

definition Txn_AddComment :: "string \<Rightarrow> string \<Rightarrow> string \<Rightarrow> txn \<Rightarrow> (store_error + txn) option" where
  "Txn_AddComment x actor txt t = Some (Inl (OpFailed ''embeddedTransaction: AddComment not implemented''))"

text \<open>
  \<^verbatim>\<open>commit_version\<close> is the version commit after the transaction (\<^verbatim>\<open>DoltliteStore.Commit\<close>),
  \<^verbatim>\<open>Some\<close> of a message when it fails.
\<close>

datatype run_error = TxnFailed conn_error | PostTransactionCommitError string string

definition RunInTransaction ::
  "(string \<Rightarrow> string option) \<Rightarrow> string \<Rightarrow> (txn \<Rightarrow> (store_error + txn) option) \<Rightarrow> calls \<Rightarrow> session \<Rightarrow>
   ((run_error + unit) \<times> session) option" where
  "RunInTransaction commit_version commitMsg fn c st =
    (case withConn c True (\<lambda>s. fn ({}, s)) st of
       None \<Rightarrow> None
     | Some (Inl err, st1) \<Rightarrow> Some (Inl (TxnFailed err), st1)
     | Some (Inr dirty, st1) \<Rightarrow>
         if commitMsg \<noteq> '''' \<and> dirty \<noteq> {} then
           (case commit_version commitMsg of
              Some m \<Rightarrow> Some (Inl (PostTransactionCommitError commitMsg m), st1)
            | None \<Rightarrow> Some (Inr (), st1))
         else Some (Inr (), st1))"

end
