(* ===== verification/TxThms.thy ===== *)
theory TxThms
  imports StoreOps
begin

text \<open>
  What a transaction of the store guarantees: if no connection fails to close it applies its
  function once or not at all; an error of closing a connection may hide a commit.
\<close>

subsection \<open>One attempt\<close>

definition tidy :: "driver \<Rightarrow> bool" where
  "tidy d = (cleanup_err d = None)"

lemma run_tx_result:
  assumes "run_tx d commit fn s = Some (r, s')"
  shows "case r of Inl _ \<Rightarrow> s' = s | Inr a \<Rightarrow> \<exists>t. fn s = Some (Inr (a, t)) \<and> s' = (if commit then t else s)"
  using assms by (auto simp: run_tx_def split: option.splits sum.splits if_splits)

lemma withConnOnce_result:
  assumes "withConnOnce c d commit fn st = Some (r, st')" "tidy d"
  shows "closed st' = closed st \<and> persistent st' = persistent st \<and> (case r of Inl _ \<Rightarrow> data st' = data st
    | Inr a \<Rightarrow> \<exists>t. fn (data st) = Some (Inr (a, t)) \<and> data st' = (if commit then t else data st))"
proof (cases "closed st")
  case True
  then show ?thesis using assms(1) by (auto simp: withConnOnce_def)
next
  case False
  show ?thesis
  proof (cases "activeDB c d st")
    case (Inl err)
    then show ?thesis using assms(1) False by (auto simp: withConnOnce_def)
  next
    case (Inr fresh)
    then obtain s' where s': "run_tx d commit fn (data st) = Some (r, s')" "st' = st\<lparr>data := s'\<rparr>"
      using assms False by (auto simp: withConnOnce_def tidy_def split: if_splits)
    then show ?thesis using run_tx_result[OF s'(1)] by (auto split: sum.splits)
  qed
qed

subsection \<open>The retries\<close>

lemma retry_loop_invariant:
  assumes "retry_loop c after fn left k st = Some (r, st')" "P st"
    and step: "\<And>k st r st'. P st \<Longrightarrow> fn k st = Some (r, st') \<Longrightarrow> (case r of Inl _ \<Rightarrow> P st' | Inr a \<Rightarrow> Q a st')"
    and aft: "\<And>st. P st \<Longrightarrow> P (after st)"
  shows "case r of Inl _ \<Rightarrow> P st' | Inr a \<Rightarrow> Q a st'"
  using assms(1,2)
proof (induction left arbitrary: k st)
  case 0
  then show ?case using step[of st k] aft by (auto split: option.splits sum.splits if_splits)
next
  case (Suc n)
  obtain r1 st1 where r1: "fn k st = Some (r1, st1)" using Suc.prems(1) by (auto split: option.splits)
  show ?case
  proof (cases r1)
    case (Inr a)
    then show ?thesis using Suc.prems r1 step[of st k r1 st1] by auto
  next
    case (Inl err)
    have "P st1" using step[OF Suc.prems(2) r1] Inl by simp
    then show ?thesis using Suc.prems(1) Suc.IH[of "Suc k" "after st1"] r1 Inl aft by (auto split: if_splits)
  qed
qed

theorem withConn_result:
  assumes "withConn c commit fn st = Some (r, st')" "\<And>k. tidy (attempts c k)"
  shows "closed st' = closed st \<and> (case r of Inl _ \<Rightarrow> data st' = data st
    | Inr a \<Rightarrow> \<exists>t. fn (data st) = Some (Inr (a, t)) \<and> data st' = (if commit then t else data st))"
proof (cases "commit \<and> lock_err c = None")
  case True
  let ?P = "\<lambda>u. closed u = closed st \<and> data u = data st"
  let ?Q = "\<lambda>a u. closed u = closed st \<and> (\<exists>t. fn (data st) = Some (Inr (a, t)) \<and> data u = t)"
  have l: "retry_loop c resetPersistentDB (\<lambda>k. withConnOnce c (attempts c k) True fn) (maxAttempts - 1) 0 st = Some (r, st')"
    using assms(1) True by (simp add: withConn_def withExclusiveLock_def withRetryAfter_def)
  have "case r of Inl _ \<Rightarrow> ?P st' | Inr a \<Rightarrow> ?Q a st'"
    by (rule retry_loop_invariant[OF l])
      (use withConnOnce_result[OF _ assms(2)] in \<open>auto simp: resetPersistentDB_def split: sum.splits\<close>, (force split: sum.splits)+)
  then show ?thesis using True by (auto split: sum.splits)
next
  case False
  show ?thesis
  proof (cases commit)
    case True
    then show ?thesis using assms(1) False by (auto simp: withConn_def withExclusiveLock_def split: option.splits)
  next
    case no: False
    then have "withConnOnce c (attempts c 0) commit fn st = Some (r, st')" using assms(1) by (simp add: withConn_def)
    then show ?thesis using withConnOnce_result assms(2) by blast
  qed
qed

subsection \<open>Errors of closing a connection\<close>

text \<open>\<^verbatim>\<open>applied fn n s u\<close>: from \<^verbatim>\<open>s\<close>, \<^verbatim>\<open>n\<close> successful runs of the function lead to \<^verbatim>\<open>u\<close>.\<close>

fun applied :: "(db \<Rightarrow> (store_error + 'a \<times> db) option) \<Rightarrow> nat \<Rightarrow> db \<Rightarrow> db \<Rightarrow> bool" where
  "applied fn 0 s u = (u = s)"
| "applied fn (Suc n) s u = (case fn s of Some (Inr (a, t)) \<Rightarrow> applied fn n t u | _ \<Rightarrow> False)"

definition untidy_between :: "calls \<Rightarrow> nat \<Rightarrow> nat \<Rightarrow> nat set" where
  "untidy_between c i k = {j. i \<le> j \<and> j < k \<and> \<not> tidy (attempts c j)}"

lemma untidy_step:
  assumes "i < k"
  shows "card (untidy_between c i k) = (if tidy (attempts c i) then 0 else 1) + card (untidy_between c (Suc i) k)"
proof -
  have "untidy_between c i k = (if tidy (attempts c i) then {} else {i}) \<union> untidy_between c (Suc i) k"
    using assms by (auto simp: untidy_between_def not_less_eq_eq le_less Suc_le_eq split: if_splits)
  moreover have "i \<notin> untidy_between c (Suc i) k" "finite (untidy_between c (Suc i) k)"
    by (auto simp: untidy_between_def)
  ultimately show ?thesis by simp
qed

lemma withConnOnce_any:
  assumes "withConnOnce c d commit fn st = Some (r, st')"
  shows "closed st' = closed st \<and> (case r of
      Inl _ \<Rightarrow> data st' = data st \<or> commit \<and> \<not> tidy d \<and> (\<exists>a. fn (data st) = Some (Inr (a, data st')))
    | Inr a \<Rightarrow> \<exists>t. fn (data st) = Some (Inr (a, t)) \<and> data st' = (if commit then t else data st))"
proof (cases "closed st")
  case True
  then show ?thesis using assms(1) by (auto simp: withConnOnce_def)
next
  case False
  show ?thesis
  proof (cases "activeDB c d st")
    case (Inl err)
    then show ?thesis using assms(1) False by (auto simp: withConnOnce_def)
  next
    case (Inr fresh)
    obtain q s' where q: "run_tx d commit fn (data st) = Some (q, s')" "st' = st\<lparr>data := s'\<rparr>"
      "r = q \<or> \<not> tidy d \<and> (\<exists>err. r = Inl err)"
      using assms False Inr by (auto simp: withConnOnce_def tidy_def split: if_splits option.splits sum.splits)
    show ?thesis
      using run_tx_result[OF q(1)] q(2,3) by (cases q) (auto split: sum.splits if_splits)
  qed
qed

text \<open>What a call leaves after \<^verbatim>\<open>n\<close> hidden commits.\<close>

definition outcome ::
  "bool \<Rightarrow> (db \<Rightarrow> (store_error + 'a \<times> db) option) \<Rightarrow> conn_error + 'a \<Rightarrow> db \<Rightarrow> db \<Rightarrow> bool" where
  "outcome commit fn r u s' = (case r of Inl _ \<Rightarrow> s' = u
     | Inr a \<Rightarrow> (case fn u of Some (Inr (b, t)) \<Rightarrow> b = a \<and> s' = (if commit then t else u) | _ \<Rightarrow> False))"

lemma retry_loop_applied:
  assumes "retry_loop c resetPersistentDB (\<lambda>k. withConnOnce c (attempts c k) True fn) left k st = Some (r, st')"
  shows "closed st' = closed st \<and> (\<exists>n u. n \<le> card (untidy_between c k (Suc (k + left))) \<and> applied fn n (data st) u \<and>
    outcome True fn r u (data st'))"
  using assms
proof (induction left arbitrary: k st)
  case (0 k st)
  obtain r1 st1 where r1: "withConnOnce c (attempts c k) True fn st = Some (r1, st1)"
    using 0 by (auto split: option.splits)
  have e: "closed st' = closed st1" "data st' = data st1" "(\<exists>err. r1 = Inl err \<and> (\<exists>err'. r = Inl err')) \<or> r1 = r"
    using 0 r1 by (auto simp: resetPersistentDB_def split: sum.splits if_splits)
  have cl: "closed st' = closed st" using withConnOnce_any[OF r1] e by simp
  show ?case
  proof (cases r1)
    case (Inr a)
    then show ?thesis
      using withConnOnce_any[OF r1] e cl by (intro conjI exI[of _ 0] exI[of _ "data st"]) (auto simp: outcome_def)
  next
    case (Inl err)
    then obtain err' where r: "r = Inl err'" using e(3) by auto
    consider "data st1 = data st" | a where "\<not> tidy (attempts c k)" "fn (data st) = Some (Inr (a, data st1))"
      using withConnOnce_any[OF r1] Inl by auto
    then show ?thesis
    proof cases
      case 1
      then show ?thesis using e cl r by (intro conjI exI[of _ 0] exI[of _ "data st"]) (auto simp: outcome_def)
    next
      case 2
      have "(1::nat) \<le> card (untidy_between c k (Suc (k + 0)))" using untidy_step[of k "Suc k" c] 2(1) by simp
      then show ?thesis using e cl r 2 by (intro conjI exI[of _ 1] exI[of _ "data st1"]) (auto simp: outcome_def)
    qed
  qed
next
  case (Suc m k st)
  obtain r1 st1 where r1: "withConnOnce c (attempts c k) True fn st = Some (r1, st1)"
    using Suc.prems by (auto split: option.splits)
  let ?one = "if tidy (attempts c k) then 0 else (1::nat)"
  have cd: "card (untidy_between c k (Suc (k + Suc m))) = ?one + card (untidy_between c (Suc k) (Suc (Suc k + m)))"
    using untidy_step[of k "Suc (k + Suc m)" c] by simp
  show ?case
  proof (cases r1)
    case (Inr a)
    then have "r = Inr a" "st' = st1" using Suc.prems r1 by auto
    then show ?thesis
      using withConnOnce_any[OF r1] Inr by (intro conjI exI[of _ 0] exI[of _ "data st"]) (auto simp: outcome_def)
  next
    case (Inl err)
    obtain l where l: "l \<le> ?one" "applied fn l (data st) (data st1)"
    proof -
      consider "data st1 = data st" | a where "\<not> tidy (attempts c k)" "fn (data st) = Some (Inr (a, data st1))"
        using withConnOnce_any[OF r1] Inl by auto
      then show thesis
      proof cases
        case 1
        then show ?thesis by (intro that[of 0]) auto
      next
        case 2
        then show ?thesis by (intro that[of 1]) auto
      qed
    qed
    have cl: "closed st1 = closed st" using withConnOnce_any[OF r1] by simp
    consider (stop) err' where "r = Inl err'" "data st' = data st1" "closed st' = closed st1"
      | (go) "retry_loop c resetPersistentDB (\<lambda>k. withConnOnce c (attempts c k) True fn) m (Suc k) (resetPersistentDB st1) = Some (r, st')"
    proof -
      have "retry_loop c resetPersistentDB (\<lambda>k. withConnOnce c (attempts c k) True fn) (Suc m) k st =
          (if \<not> isRetryableConcurrencyError (error_text c) err then Some (Inl err, st1)
           else if ctx_ends c k then Some (Inl (Join err (Driver ''context canceled'')), resetPersistentDB st1)
           else retry_loop c resetPersistentDB (\<lambda>k. withConnOnce c (attempts c k) True fn) m (Suc k) (resetPersistentDB st1))"
        by (subst retry_loop.simps) (simp add: r1 Inl del: retry_loop.simps)
      then show thesis
        using Suc.prems stop[of err] stop[of "Join err (Driver ''context canceled'')"] go
        by (simp add: resetPersistentDB_def del: retry_loop.simps split: if_splits)
    qed
    then show ?thesis
    proof cases
      case stop
      then show ?thesis using l cl cd by (intro conjI exI[of _ l] exI[of _ "data st1"]) (auto simp: outcome_def)
    next
      case go
      from Suc.IH[OF go] obtain n u where n: "closed st' = closed st1" "n \<le> card (untidy_between c (Suc k) (Suc (Suc k + m)))"
        "applied fn n (data st1) u" "outcome True fn r u (data st')" by (auto simp: resetPersistentDB_def)
      have "applied fn (l + n) (data st) u"
      proof (cases l)
        case (Suc l')
        then have "l = 1" using l(1) by (auto split: if_splits)
        then show ?thesis using l(2) n(3) by (auto split: option.splits sum.splits)
      qed (use l(2) n(3) in simp)
      then show ?thesis using n cl l(1) cd by (intro conjI exI[of _ "l + n"] exI[of _ u]) auto
    qed
  qed
qed

theorem withConn_applied:
  assumes "withConn c commit fn st = Some (r, st')"
  shows "closed st' = closed st \<and> (\<exists>n u. n \<le> card (untidy_between c 0 maxAttempts) \<and> (commit \<or> n = 0) \<and>
    applied fn n (data st) u \<and> outcome commit fn r u (data st'))"
proof (cases "commit \<and> lock_err c = None")
  case True
  then have "retry_loop c resetPersistentDB (\<lambda>k. withConnOnce c (attempts c k) True fn) (maxAttempts - 1) 0 st = Some (r, st')"
    using assms by (simp add: withConn_def withExclusiveLock_def withRetryAfter_def)
  from retry_loop_applied[OF this] show ?thesis using True by (simp add: maxAttempts_def)
next
  case False
  have "closed st' = closed st \<and> outcome commit fn r (data st) (data st')"
  proof (cases commit)
    case True
    then show ?thesis using assms(1) False by (auto simp: withConn_def withExclusiveLock_def outcome_def split: option.splits)
  next
    case no: False
    then have "withConnOnce c (attempts c 0) commit fn st = Some (r, st')" using assms(1) by (simp add: withConn_def)
    from withConnOnce_any[OF this] no show ?thesis by (auto simp: outcome_def split: sum.splits)
  qed
  then show ?thesis by (intro conjI exI[of _ 0] exI[of _ "data st"]) auto
qed

subsection \<open>Calls without failures\<close>

definition healthy :: "driver \<Rightarrow> bool" where
  "healthy d = (open_err d 0 = None \<and> begin_err d = None \<and> exec_err d = None \<and> rollback_err d = None \<and>
     commit_err d = None \<and> cleanup_err d = None)"

definition quiet :: "calls \<Rightarrow> bool" where
  "quiet c = (lock_err c = None \<and> healthy (attempts c 0) \<and> (\<forall>err. \<not> isRetryableConcurrencyError (error_text c) (Op err)))"

lemma healthy_active: "open_err d 0 = None \<Longrightarrow> activeDB c d st = Inr (\<not> persistent st)"
  by (simp add: activeDB_def withRetryAfter_def)

lemma healthy_once:
  assumes "healthy d" "\<not> closed st"
  shows "withConnOnce c d commit fn st = map_option (\<lambda>r. case r of
    Inl err \<Rightarrow> (Inl (Op err), st) | Inr (a, t) \<Rightarrow> (Inr a, st\<lparr>data := if commit then t else data st\<rparr>)) (fn (data st))"
proof -
  have h: "activeDB c d st = Inr (\<not> persistent st)" "begin_err d = None" "exec_err d = None" "rollback_err d = None"
    "commit_err d = None" "cleanup_err d = None"
    using assms(1) healthy_active by (auto simp: healthy_def)
  show ?thesis
  proof (cases "fn (data st)")
    case None
    then show ?thesis using h assms(2) by (simp add: withConnOnce_def run_tx_def)
  next
    case (Some r)
    then show ?thesis using h assms(2)
      by (cases r) (auto simp: withConnOnce_def run_tx_def join_err_def split: prod.split)
  qed
qed

lemma quiet_conn:
  assumes "quiet c" "\<not> closed st"
  shows "withConn c commit fn st = map_option (\<lambda>r. case r of
    Inl err \<Rightarrow> (Inl (Op err), st) | Inr (a, t) \<Rightarrow> (Inr a, st\<lparr>data := if commit then t else data st\<rparr>)) (fn (data st))"
proof -
  have q: "lock_err c = None" "healthy (attempts c 0)" "\<And>err. \<not> isRetryableConcurrencyError (error_text c) (Op err)"
    using assms(1) by (simp_all add: quiet_def)
  note once = healthy_once[OF q(2) assms(2), of c]
  show ?thesis
  proof (cases commit)
    case True
    show ?thesis
    proof (cases "fn (data st)")
      case None
      then show ?thesis using True q(1) by (simp add: withConn_def withExclusiveLock_def withRetryAfter_def once)
    next
      case (Some r)
      then show ?thesis using True q(1,3)
        by (cases r) (auto simp: withConn_def withExclusiveLock_def withRetryAfter_def once split: prod.split)
    qed
  next
    case False
    then have no: "commit = False" by simp
    show ?thesis unfolding no by (simp add: withConn_def once)
  qed
qed

end
