(* ===== verification/PropsTx.thy ===== *)
theory PropsTx
  imports TxThms UpdateThms CreateThms Examples
begin

text \<open>The properties of the transactions of the store.\<close>

subsection \<open>Atomicity\<close>

text \<open>
  (C14) A call to the store, with any failures of the driver: its function runs from the
  database the call found, on the result of at most as many earlier runs as attempts ended
  with an error of closing a connection, because such an error replaces the success of a
  commit.  A call that succeeds returns the result of its last run, and the database is what
  that run made, or for a reading call unchanged; a call that fails leaves the database as
  the earlier runs made it.  So if every connection closes without an error, a failing call
  leaves the database it found and a succeeding one has applied its function exactly once,
  however often it was retried.
\<close>

theorem with_conn_atomic:
  assumes "withConn c commit fn st = Some (r, st')"
  shows "closed st' = closed st \<and>
    (\<exists>n u. n \<le> card {k. k < maxAttempts \<and> cleanup_err (attempts c k) \<noteq> None} \<and> (commit \<or> n = 0) \<and>
       applied fn n (data st) u \<and>
       (case r of Inl _ \<Rightarrow> data st' = u
        | Inr a \<Rightarrow> \<exists>t. fn u = Some (Inr (a, t)) \<and> data st' = (if commit then t else u))) \<and>
    ((\<forall>k. cleanup_err (attempts c k) = None) \<longrightarrow>
       (case r of Inl _ \<Rightarrow> data st' = data st
        | Inr a \<Rightarrow> \<exists>t. fn (data st) = Some (Inr (a, t)) \<and> data st' = (if commit then t else data st)))"
proof -
  have card: "untidy_between c 0 maxAttempts = {k. k < maxAttempts \<and> cleanup_err (attempts c k) \<noteq> None}"
    by (auto simp: untidy_between_def tidy_def)
  from withConn_applied[OF assms] obtain n u where n: "closed st' = closed st"
    "n \<le> card {k. k < maxAttempts \<and> cleanup_err (attempts c k) \<noteq> None}" "commit \<or> n = 0"
    "applied fn n (data st) u" "outcome commit fn r u (data st')" unfolding card by blast
  have o: "case r of Inl _ \<Rightarrow> data st' = u | Inr a \<Rightarrow> \<exists>t. fn u = Some (Inr (a, t)) \<and> data st' = (if commit then t else u)"
    using n(5) by (cases r; cases "fn u"; cases "the (fn u)") (auto simp: outcome_def)
  have "u = data st" if "\<forall>k. cleanup_err (attempts c k) = None" using n(2,4) that by simp
  then show ?thesis using n o by blast
qed

definition calm :: driver where
  "calm = \<lparr>open_err = (\<lambda>k. None), begin_err = None, exec_err = None, rollback_err = None, commit_err = None, cleanup_err = None\<rparr>"

definition calls_of :: "(nat \<Rightarrow> driver) \<Rightarrow> calls" where
  "calls_of d = \<lparr>lock_err = None, attempts = d, ctx_ends = (\<lambda>k. False), error_text = (\<lambda>e. ''failed'')\<rparr>"

definition commit_fails :: "nat \<Rightarrow> driver" where
  "commit_fails k = (if k = 0 then calm\<lparr>commit_err := Some ''SQLITE_BUSY: database is locked''\<rparr> else calm)"

definition ex_session :: "db \<Rightarrow> session" where
  "ex_session s = \<lparr>persistent = True, closed = False, data = s\<rparr>"

lemma calm_simps [simp]:
  "open_err calm k = None" "begin_err calm = None" "exec_err calm = None" "rollback_err calm = None"
  "commit_err calm = None" "cleanup_err calm = None"
  by (simp_all add: calm_def)

lemma calls_of_simps [simp]:
  "lock_err (calls_of d) = None" "attempts (calls_of d) = d" "ctx_ends (calls_of d) k = False"
  "error_text (calls_of d) = (\<lambda>e. ''failed'')"
  by (simp_all add: calls_of_def)

lemma failed_is_final: "\<not> isRetryableConcurrencyError (\<lambda>e. ''failed'') (Op err)"
  unfolding isRetryableConcurrencyError_def message.simps by code_simp

lemma quiet_calm: "quiet (calls_of (\<lambda>k. calm))"
  using failed_is_final by (simp add: quiet_def healthy_def)

theorem with_conn_atomic_witness:
  "\<exists>st'. withConn (calls_of commit_fails) True (runs (\<lambda>s. Some (Inr (SetMetadata ''k'' ''v'' s)))) (ex_session (ex_db [] [])) =
       Some (Inr (), st') \<and> data st' = SetMetadata ''k'' ''v'' (ex_db [] []) \<and> \<not> closed st'"
proof -
  have "case withConn (calls_of commit_fails) True (runs (\<lambda>s. Some (Inr (SetMetadata ''k'' ''v'' s)))) (ex_session (ex_db [] [])) of
      Some (Inr u, st') \<Rightarrow> True | _ \<Rightarrow> False"
    by code_simp
  then obtain st' where w: "withConn (calls_of commit_fails) True (runs (\<lambda>s. Some (Inr (SetMetadata ''k'' ''v'' s)))) (ex_session (ex_db [] [])) =
      Some (Inr (), st')"
    by (auto split: option.splits sum.splits)
  show ?thesis
    using with_conn_atomic[OF w] w by (auto simp: runs_def ex_session_def commit_fails_def)
qed

text \<open>
  The bound is reached: the error of closing a connection that was opened for the call
  replaces the success of a transaction that has committed.  The call reports a failure with
  the change in the database, and if the message is one of those that are retried the function
  runs again on its own result.
\<close>

definition close_fails :: "string \<Rightarrow> nat \<Rightarrow> driver" where
  "close_fails m k = (if k = 0 then calm\<lparr>cleanup_err := Some m\<rparr> else calm)"

definition comment_twice :: "db \<Rightarrow> (store_error + unit \<times> db) option" where
  "comment_twice = runs (\<lambda>s. Some (Inr (AddCommentEvent ''bd-1'' ''amy'' ''hi'' s)))"

theorem cleanup_error_after_commit:
  "withConn (calls_of (close_fails ''unmount'')) True comment_twice ((ex_session s)\<lparr>persistent := False\<rparr>) =
     Some (Inl (Driver ''unmount''), (ex_session (AddCommentEvent ''bd-1'' ''amy'' ''hi'' s))\<lparr>persistent := False\<rparr>)"
  "withConn (calls_of (close_fails ''SQLITE_BUSY'')) True comment_twice ((ex_session s)\<lparr>persistent := False\<rparr>) =
     Some (Inr (), (ex_session (AddCommentEvent ''bd-1'' ''amy'' ''hi'' (AddCommentEvent ''bd-1'' ''amy'' ''hi'' s)))\<lparr>persistent := False\<rparr>)"
proof -
  have r: "\<not> isRetryableConcurrencyError (\<lambda>e. ''failed'') (Driver ''unmount'')"
    "isRetryableConcurrencyError (\<lambda>e. ''failed'') (Driver ''SQLITE_BUSY'')" by code_simp+
  have m: "maxAttempts - Suc 0 = Suc (Suc (Suc (Suc 0)))" by (simp add: maxAttempts_def)
  show "withConn (calls_of (close_fails ''unmount'')) True comment_twice ((ex_session s)\<lparr>persistent := False\<rparr>) =
     Some (Inl (Driver ''unmount''), (ex_session (AddCommentEvent ''bd-1'' ''amy'' ''hi'' s))\<lparr>persistent := False\<rparr>)"
    "withConn (calls_of (close_fails ''SQLITE_BUSY'')) True comment_twice ((ex_session s)\<lparr>persistent := False\<rparr>) =
     Some (Inr (), (ex_session (AddCommentEvent ''bd-1'' ''amy'' ''hi'' (AddCommentEvent ''bd-1'' ''amy'' ''hi'' s)))\<lparr>persistent := False\<rparr>)"
    by (simp_all add: withConn_def withExclusiveLock_def withRetryAfter_def m withConnOnce_def run_tx_def
        healthy_active close_fails_def comment_twice_def runs_def ex_session_def resetPersistentDB_def r)
qed

subsection \<open>Progress\<close>

text \<open>An attempt that fails to begin or to commit with an error that is retried.\<close>

definition stumbles :: "calls \<Rightarrow> driver \<Rightarrow> bool" where
  "stumbles c d = (open_err d 0 = None \<and> tidy d \<and>
     (case begin_err d of
        Some m \<Rightarrow> isRetryableConcurrencyError (error_text c) (Driver (''doltlite: begin tx: '' @ m))
      | None \<Rightarrow> exec_err d = None \<and>
          (case commit_err d of Some m \<Rightarrow> isRetryableConcurrencyError (error_text c) (Driver m) | None \<Rightarrow> False)))"

lemma stumbles_once:
  assumes "stumbles c d" "\<not> closed st" "fn (data st) = Some (Inr (a, t))"
  shows "\<exists>err. withConnOnce c d True fn st = Some (Inl err, st) \<and> isRetryableConcurrencyError (error_text c) err"
  using assms healthy_active[of d c st]
  by (auto simp: stumbles_def withConnOnce_def run_tx_def tidy_def split: option.splits)

lemma reset_session:
  "persistent (resetPersistentDB st) = False" "closed (resetPersistentDB st) = closed st"
  "data (resetPersistentDB st) = data st"
  "(resetPersistentDB st)\<lparr>persistent := b, data := t\<rparr> = st\<lparr>persistent := b, data := t\<rparr>"
  by (simp_all add: resetPersistentDB_def)

lemma retry_loop_progress:
  assumes "k \<le> left" "\<And>j. j < k \<Longrightarrow> stumbles c (attempts c (i + j)) \<and> \<not> ctx_ends c (i + j)"
    and "healthy (attempts c (i + k))" "\<not> closed st" "fn (data st) = Some (Inr (a, t))"
  shows "retry_loop c resetPersistentDB (\<lambda>k. withConnOnce c (attempts c k) True fn) left i st =
    Some (Inr a, st\<lparr>persistent := (k = 0 \<and> persistent st), data := t\<rparr>)"
  using assms
proof (induction k arbitrary: left i st)
  case 0
  then show ?case by (simp add: healthy_once)
next
  case (Suc k)
  obtain n where n: "left = Suc n" "k \<le> n" using Suc.prems(1) by (cases left) auto
  obtain err where once: "withConnOnce c (attempts c i) True fn st = Some (Inl err, st)"
    "isRetryableConcurrencyError (error_text c) err"
    using stumbles_once[of c "attempts c i" st fn a t] Suc.prems(2)[of 0] Suc.prems(4,5) by auto
  have go: "\<not> ctx_ends c i" using Suc.prems(2)[of 0] by simp
  have later: "stumbles c (attempts c (Suc i + j)) \<and> \<not> ctx_ends c (Suc i + j)" if "j < k" for j
    using Suc.prems(2)[of "Suc j"] that by simp
  have rest: "retry_loop c resetPersistentDB (\<lambda>k. withConnOnce c (attempts c k) True fn) n (Suc i) (resetPersistentDB st) =
    Some (Inr a, st\<lparr>persistent := False, data := t\<rparr>)"
    using Suc.IH[OF n(2) later, of "resetPersistentDB st"] Suc.prems
    by (simp add: reset_session del: retry_loop.simps)
  show ?case by (subst retry_loop.simps) (use once go rest n(1) in \<open>simp del: retry_loop.simps\<close>)
qed

text \<open>
  (C15) A writing call succeeds if one of its five attempts meets no failure of the driver and
  each before it fails to begin or to commit with an error that is retried (\<^verbatim>\<open>SQLITE_BUSY\<close> and
  the like), as long as the context lasts: it returns the result of its function and the
  database is the one the function made.  The persistent connection survives only if the
  first attempt succeeded.
\<close>

theorem with_conn_progress:
  assumes "lock_err c = None" "\<not> closed st" "fn (data st) = Some (Inr (a, t))" "k < maxAttempts"
    and "\<And>j. j < k \<Longrightarrow> stumbles c (attempts c j) \<and> \<not> ctx_ends c j" "healthy (attempts c k)"
  shows "withConn c True fn st = Some (Inr a, st\<lparr>persistent := (k = 0 \<and> persistent st), data := t\<rparr>)"
  using retry_loop_progress[of k "maxAttempts - 1" c 0 st fn a t] assms
  by (simp add: withConn_def withExclusiveLock_def withRetryAfter_def)

theorem with_conn_progress_witness:
  "withConn (calls_of commit_fails) True (runs (\<lambda>s. Some (Inr (SetMetadata ''k'' ''v'' s)))) (ex_session (ex_db [] [])) =
     Some (Inr (), \<lparr>persistent = False, closed = False, data = SetMetadata ''k'' ''v'' (ex_db [] [])\<rparr>) \<and>
   DB (ex_session (ex_db [] []))"
proof -
  have "isRetryableConcurrencyError (\<lambda>e. ''failed'') (Driver ''SQLITE_BUSY: database is locked'')" by code_simp
  then have s: "stumbles (calls_of commit_fails) (commit_fails 0)"
    by (simp add: stumbles_def tidy_def commit_fails_def)
  show ?thesis
    using with_conn_progress[of "calls_of commit_fails" "ex_session (ex_db [] [])"
      "runs (\<lambda>s. Some (Inr (SetMetadata ''k'' ''v'' s)))" "()" "SetMetadata ''k'' ''v'' (ex_db [] [])" 1] s
    by (simp add: maxAttempts_def healthy_def runs_def ex_session_def commit_fails_def DB_def)
qed

subsection \<open>Transactions of a client\<close>

text \<open>
  A transaction of a client is all or nothing; only the version commit after it may fail with
  its changes in the tables, and then says so.
\<close>

theorem run_in_transaction_atomic:
  assumes "RunInTransaction cv msg fn c st = Some (r, st')" "\<And>k. tidy (attempts c k)"
  shows "case r of
      Inl (TxnFailed err) \<Rightarrow> data st' = data st
    | Inl (PostTransactionCommitError m err) \<Rightarrow>
        m = msg \<and> cv msg = Some err \<and> (\<exists>dirty. dirty \<noteq> {} \<and> fn ({}, data st) = Some (Inr (dirty, data st')))
    | Inr u \<Rightarrow> \<exists>dirty. fn ({}, data st) = Some (Inr (dirty, data st')) \<and> (msg = '''' \<or> dirty = {} \<or> cv msg = None)"
proof -
  obtain q st1 where w: "withConn c True (\<lambda>s. fn ({}, s)) st = Some (q, st1)"
    using assms(1) by (auto simp: RunInTransaction_def split: option.splits)
  have "case q of Inl _ \<Rightarrow> data st1 = data st | Inr a \<Rightarrow> \<exists>t. fn ({}, data st) = Some (Inr (a, t)) \<and> data st1 = t"
    using withConn_result[OF w assms(2)] by (simp split: sum.splits)
  then show ?thesis
    using assms(1) w by (cases q) (auto simp: RunInTransaction_def split: option.splits if_splits)
qed

text \<open>
  Creating an issue in a transaction stores no dependency of it, unlike every other way to
  create one, and no flag is recomputed.
\<close>

theorem txn_create_drops_dependencies:
  assumes "Txn_CreateIssue e i actor (d, s) = Inr (i', (d', s'))"
  shows "Dependencies i' = Dependencies i \<and> (\<forall>w. dep_table w s' = dep_table w s) \<and>
    issue_table (\<not> IsWisp i') s' = issue_table (\<not> IsWisp i') s"
proof -
  obtain bc where bc: "NewBatchContext e create_opts s = Inr bc" "createIssueSQLite e bc i actor s = Inr (i', s')"
    using assms by (auto simp: Txn_CreateIssue_def)
  then have "OrphanHandling (Opts bc) \<noteq> ''skip''"
    by (auto simp: NewBatchContext_def create_opts_def default_batch_opts_def Let_def)
  then show ?thesis using createIssueSQLite_spec[OF bc(2)] by simp
qed

text \<open>
  The reopening of the store is an update and does not ask whether the issue is closed: one
  that is claimed is opened again and keeps its assignee, so that nobody else can claim it.
\<close>

definition claimed_session :: session where
  "claimed_session = ex_session (ex_db [(ex_row ''bd-1'' ''in_progress'' False)\<lparr>Assignee := ''bob'', AssigneeNull := False\<rparr>] [])"

theorem store_reopen_opens_claimed:
  "\<exists>st' r. Store_ReopenIssue ex_env ''bd-1'' '''' ''amy'' (calls_of (\<lambda>k. calm)) (calls_of (\<lambda>k. calm)) claimed_session =
       Some (Inr (), st') \<and>
     GetIssue (data st') ''bd-1'' = Inr r \<and> Status r = StatusOpen \<and> Assignee r = ''bob'' \<and>
     ClaimIssue ex_env ''bd-1'' ''cid'' (data st') = Inl (AlreadyClaimed ''bob'')"
proof -
  let ?call = "Store_ReopenIssue ex_env ''bd-1'' '''' ''amy'' (calls_of (\<lambda>k. calm)) (calls_of (\<lambda>k. calm)) claimed_session"
  have a: "case ?call of Some (Inr u, st') \<Rightarrow> True | _ \<Rightarrow> False" by code_simp
  have b: "case ?call of Some (q, st') \<Rightarrow> (case GetIssue (data st') ''bd-1'' of Inl err \<Rightarrow> False
      | Inr r \<Rightarrow> Status r = StatusOpen \<and> Assignee r = ''bob'') | None \<Rightarrow> False" by code_simp
  have c: "case ?call of Some (q, st') \<Rightarrow> (case ClaimIssue ex_env ''bd-1'' ''cid'' (data st') of
      Inl err \<Rightarrow> err = AlreadyClaimed ''bob'' | Inr p \<Rightarrow> False) | None \<Rightarrow> False" by code_simp
  obtain st' where st': "?call = Some (Inr (), st')" using a by (auto split: option.splits sum.splits)
  show ?thesis using b c unfolding st' by (auto split: sum.splits)
qed

end
