(* ===== verification/Utf8.thy ===== *)
theory Utf8
  imports Prelude
begin

text \<open>
  Valid UTF-8, as \<^verbatim>\<open>unicode/utf8\<close> has it: no overlong form, no surrogate and nothing above
  U+10FFFF.  \<^verbatim>\<open>encoding/json\<close> replaces every other byte by U+FFFD, both when it writes and when
  it reads a string, so only valid texts are read back as they were written.
\<close>

definition continuation :: "nat \<Rightarrow> bool" where
  "continuation b = (128 \<le> b \<and> b \<le> 191)"

text \<open>The bytes that may follow the first byte of a sequence of three or four.\<close>

definition second_byte :: "nat \<Rightarrow> nat \<Rightarrow> bool" where
  "second_byte b0 b =
    (if b0 = 224 then 160 \<le> b \<and> b \<le> 191
     else if b0 = 237 then 128 \<le> b \<and> b \<le> 159
     else if b0 = 240 then 144 \<le> b \<and> b \<le> 191
     else if b0 = 244 then 128 \<le> b \<and> b \<le> 143
     else continuation b)"

fun valid_bytes :: "nat list \<Rightarrow> bool" where
  "valid_bytes [] = True"
| "valid_bytes (b0 # bs) =
    (if b0 < 128 then valid_bytes bs
     else if 194 \<le> b0 \<and> b0 \<le> 223 then
       (case bs of b1 # rest \<Rightarrow> continuation b1 \<and> valid_bytes rest | _ \<Rightarrow> False)
     else if 224 \<le> b0 \<and> b0 \<le> 239 then
       (case bs of b1 # b2 # rest \<Rightarrow> second_byte b0 b1 \<and> continuation b2 \<and> valid_bytes rest | _ \<Rightarrow> False)
     else if 240 \<le> b0 \<and> b0 \<le> 244 then
       (case bs of b1 # b2 # b3 # rest \<Rightarrow>
          second_byte b0 b1 \<and> continuation b2 \<and> continuation b3 \<and> valid_bytes rest | _ \<Rightarrow> False)
     else False)"

definition valid_utf8 :: "string \<Rightarrow> bool" where
  "valid_utf8 t = valid_bytes (map of_char t)"

lemma valid_utf8_empty [simp]: "valid_utf8 ''''"
  by (simp add: valid_utf8_def)

text \<open>An e with an acute accent, the euro sign, and U+FFFD are valid; the byte 255 alone is not.\<close>

lemma valid_utf8_examples:
  "valid_bytes [195, 169] \<and> valid_bytes [226, 130, 172] \<and> valid_bytes [239, 191, 189] \<and> \<not> valid_bytes [255] \<and>
   \<not> valid_bytes [192, 128] \<and> \<not> valid_bytes [237, 160, 128] \<and> \<not> valid_bytes [244, 144, 128, 128]"
  by code_simp

end
