(* ===== verification/PropsSlots.thy ===== *)
theory PropsSlots
  imports PropsTx Utf8 "HOL-Library.Countable"
begin

text \<open>The slots of the metadata of an issue: what a client reads after it has written.\<close>

subsection \<open>The update of the metadata column\<close>

definition new_metadata :: "env \<Rightarrow> string \<Rightarrow> string \<Rightarrow> issue_row \<Rightarrow> issue_row" where
  "new_metadata e x t r =
     r\<lparr>Metadata := (if t = ''{}'' then '''' else t), UpdatedAt := now e, RowLock := freshRowLock e x\<rparr>"

text \<open>An issue whose row is the one that both the reads and the updates find.\<close>

definition stored :: "db \<Rightarrow> string \<Rightarrow> issue_row \<Rightarrow> bool" where
  "stored s x i = (GetIssue s x = Inr i \<and> select_row x (issue_table (IsActiveWisp s x) s) = Some i \<and>
     select_row x (issue_table (\<not> IsActiveWisp s x) s) = None)"

lemma metadata_UpdateIssue:
  assumes i: "stored s x i" and ok: "json_ok e t"
  shows "\<exists>s'. UpdateIssue e x [(''metadata'', UString t)] a s = Some (Inr (\<lparr>UpdOldIssue = i, UpdIsWisp = IsActiveWisp s x\<rparr>, s')) \<and>
    row_change (IsActiveWisp s x) x (new_metadata e x t) s s'"
proof -
  let ?u = "[(''metadata'', UString t)]" and ?w = "IsActiveWisp s x"
  have g: "GetIssue s x = Inr i" using i by (simp add: stored_def)
  have te: "type_error e ?u s = None" by (simp add: type_error_def)
  have fc: "field_clauses e ?u = Inr ?u" using ok by (simp add: IsAllowedUpdateField_def NormalizeMetadataValue_def)
  have cl: "clauses e i ?u ?u = [(''updated_at'', UTime (now e)), (''metadata'', UString t)]"
    by (simp add: clauses_def ManageStartedAt_def ManageClosedAt_def pinned_clause_def)
  have sc: "set_columns e (clauses e i ?u ?u) =
      Some (\<lambda>r. r\<lparr>UpdatedAt := now e, Metadata := (if t = ''{}'' then '''' else t)\<rparr>)"
    unfolding cl by (auto simp: set_columns_def column_setter_def setter_defs fun_eq_iff)
  show ?thesis
    using g
  proof (cases rule: update_cases[of s x i e ?u a True])
    case (ok cs f rows n s2)
    have f: "f = (\<lambda>r. r\<lparr>UpdatedAt := now e, Metadata := (if t = ''{}'' then '''' else t)\<rparr>)"
      using ok(2,3) fc sc by simp
    have fr: "(\<lambda>r. (f r)\<lparr>RowLock := freshRowLock e x\<rparr>) = new_metadata e x t"
      by (simp add: fun_eq_iff f new_metadata_def)
    have uw: "update_where (\<lambda>r. ID r = x) (new_metadata e x t) (issue_table ?w s) = (rows, n)"
      using ok(4) unfolding fr .
    have "row_change ?w x (\<lambda>r. if ID r = x then new_metadata e x t r else r) s (set_issue_table ?w rows s)"
      by (rule set_table_update[OF uw]) (simp_all add: new_metadata_def)
    then have "row_change ?w x (new_metadata e x t) s s2"
      unfolding ok(5) by (simp add: row_change_def new_metadata_def RecordFullEvent_def cong: if_cong map_cong)
    moreover have "after_update e ?w x i ?u s2 = Some s2" by (simp add: after_update_def)
    ultimately show ?thesis using ok(6) by (simp add: UpdateIssue_def)
  qed (use te fc sc in auto)
qed

lemma stored_change:
  assumes "stored s x i" "row_change (IsActiveWisp s x) x f s s'"
  shows "stored s' x (f i)" "IsActiveWisp s' x = IsActiveWisp s x"
proof -
  have f: "\<And>r. ID (f r) = ID r" using assms(2) by (simp add: row_change_def)
  have ids: "ID ` set (issue_table v s') = ID ` set (issue_table v s)" for v
    using row_change_ids[OF assms(2), of v] by (metis set_map)
  show w: "IsActiveWisp s' x = IsActiveWisp s x"
    using ids[of True] unfolding IsActiveWisp_def issue_table_def by (metis (no_types, lifting) image_iff)
  have sel: "select_row x (issue_table v s') =
      (if v = IsActiveWisp s x then map_option f (select_row x (issue_table v s)) else select_row x (issue_table v s))" for v
    using row_change_select[OF assms(2), of x v] by simp
  show "stored s' x (f i)"
    using assms(1) sel[of True] sel[of False] unfolding stored_def w GetIssue_def
    by (cases "IsActiveWisp s x") (auto simp: issue_table_def split: option.splits)
qed

subsection \<open>Reads and writes of slots\<close>

text \<open>
  What the code relies on of \<^verbatim>\<open>encoding/json\<close>: a map whose keys are valid UTF-8 and whose
  values are such strings or were read by it is read back as it was written; no object is
  written as the JSON null or as nothing, the empty one as \<^verbatim>\<open>{}\<close>; a string of valid UTF-8 is
  read back as that string; and a text that is read has finitely many keys, all valid.
  Nothing is said of texts that are not valid UTF-8, whose bytes it replaces by U+FFFD.
\<close>

definition decoded :: "'j json_codec \<Rightarrow> 'j \<Rightarrow> bool" where
  "decoded jc v = ((\<exists>s. valid_utf8 s \<and> v = json_string jc s) \<or> (\<exists>t m. json_object jc t = Some m \<and> v \<in> ran m))"

definition encodable :: "'j json_codec \<Rightarrow> (string \<rightharpoonup> 'j) \<Rightarrow> bool" where
  "encodable jc m = (finite (dom m) \<and> (\<forall>k\<in>dom m. valid_utf8 k) \<and> (\<forall>v\<in>ran m. decoded jc v))"

definition codec_laws :: "'j json_codec \<Rightarrow> bool" where
  "codec_laws jc = ((\<forall>m. encodable jc m \<longrightarrow> json_object jc (json_text jc m) = Some m \<and>
       \<not> json_null jc (json_text jc m) \<and> json_text jc m \<noteq> '''') \<and>
     json_text jc Map.empty = ''{}'' \<and> (\<forall>v. valid_utf8 v \<longrightarrow> json_string_of jc (json_string jc v) = Some v) \<and>
     (\<forall>t m. json_object jc t = Some m \<longrightarrow> finite (dom m) \<and> (\<forall>k\<in>dom m. valid_utf8 k)))"

lemma encodable_empty [simp]: "encodable jc Map.empty"
  by (simp add: encodable_def)

lemma encodable_upd: "encodable jc m \<Longrightarrow> valid_utf8 k \<Longrightarrow> valid_utf8 v \<Longrightarrow> encodable jc (m(k \<mapsto> json_string jc v))"
  by (auto simp: encodable_def decoded_def ran_def)

lemma encodable_del: "encodable jc m \<Longrightarrow> encodable jc (m(k := None))"
  by (auto simp: encodable_def ran_def)

lemma slots_written:
  assumes l: "codec_laws jc" and m: "encodable jc m"
  shows "slots_of jc (Metadata (new_metadata e x (json_text jc m) i)) = Inr (Some m)"
proof (cases "json_text jc m = ''{}''")
  case True
  have "json_object jc (json_text jc m) = Some m" "json_object jc (json_text jc Map.empty) = Some Map.empty"
    using l m encodable_empty unfolding codec_laws_def by blast+
  moreover have "json_text jc Map.empty = ''{}''" using l by (simp add: codec_laws_def)
  ultimately have "m = Map.empty" using True by simp
  then show ?thesis using True by (simp add: new_metadata_def slots_of_def)
next
  case False
  then show ?thesis using l m by (simp add: new_metadata_def slots_of_def codec_laws_def)
qed

lemma slots_encodable: "codec_laws jc \<Longrightarrow> slots_of jc t = Inr (Some m) \<Longrightarrow> encodable jc m"
  by (auto simp: slots_of_def codec_laws_def encodable_def decoded_def split: if_splits option.splits)

lemma quiet_GetIssue:
  assumes "quiet c" "\<not> closed st" "stored (data st) x i"
  shows "Store_GetIssue x c st = Some (Inr i, st)"
  using quiet_conn[OF assms(1,2), of False "reads (\<lambda>s. GetIssue s x)"] assms(3)
  by (simp add: Store_GetIssue_def reads_def stored_def)

definition slot_result :: "'j json_codec \<Rightarrow> issue_row \<Rightarrow> (string \<rightharpoonup> 'j) \<Rightarrow> string \<Rightarrow> conn_error + string" where
  "slot_result jc i m k = (case m k of
     None \<Rightarrow> Inl (Op (OpFailed (if Metadata i = '''' then ''no metadata'' else ''key not found'')))
   | Some v \<Rightarrow> Inr (case json_string_of jc v of Some t \<Rightarrow> t | None \<Rightarrow> json_value_text jc v))"

lemma SlotGet_result:
  assumes "quiet c" "\<not> closed st" "stored (data st) x i" "slots_of jc (Metadata i) = Inr (Some m)"
  shows "SlotGet jc x k c st = Some (slot_result jc i m k, st)"
proof (cases "Metadata i = ''''")
  case True
  then have "m = Map.empty" using assms(4) by (simp add: slots_of_def)
  then show ?thesis using True by (simp add: SlotGet_def quiet_GetIssue[OF assms(1-3)] slot_result_def)
next
  case False
  then show ?thesis
    by (auto simp: SlotGet_def quiet_GetIssue[OF assms(1-3)] slot_result_def assms(4) slot_lookup_def split: option.splits)
qed

lemma metadata_written:
  assumes q: "quiet c" "\<not> closed st" and i: "stored (data st) x i" and l: "codec_laws jc" and m: "encodable jc m"
    and ok: "json_ok e (json_text jc m)" "\<not> metadata_violation e (json_text jc m)"
  shows "\<exists>s'. Store_UpdateIssue e x [(''metadata'', UString (json_text jc m))] a c st = Some (Inr (), st\<lparr>data := s'\<rparr>) \<and>
    stored s' x (new_metadata e x (json_text jc m) i) \<and>
    slots_of jc (Metadata (new_metadata e x (json_text jc m) i)) = Inr (Some m) \<and>
    (\<forall>y. y \<noteq> x \<longrightarrow> GetIssue s' y = GetIssue (data st) y)"
proof -
  let ?u = "[(''metadata'', UString (json_text jc m))]"
  obtain s' where s': "UpdateIssue e x ?u a (data st) = Some (Inr (\<lparr>UpdOldIssue = i, UpdIsWisp = IsActiveWisp (data st) x\<rparr>, s'))"
    "row_change (IsActiveWisp (data st) x) x (new_metadata e x (json_text jc m)) (data st) s'"
    using metadata_UpdateIssue[OF i ok(1)] by blast
  have "Store_UpdateIssue e x ?u a c st = Some (Inr (), st\<lparr>data := s'\<rparr>)"
    using ok quiet_conn[OF q, of True "runs_res (UpdateIssue e x ?u a)"] s'(1)
    by (simp add: Store_UpdateIssue_def NormalizeMetadataValue_def runs_res_def)
  moreover have "GetIssue s' y = GetIssue (data st) y" if "y \<noteq> x" for y
    using row_change_select[OF s'(2), of y False] row_change_select[OF s'(2), of y True] that
    by (simp add: GetIssue_def issue_table_def cong: option.case_cong)
  ultimately show ?thesis using stored_change(1)[OF i s'(2)] slots_written[OF l m] by blast
qed

text \<open>
  (C16) On an issue with a metadata object, and with no failure of the driver, setting a slot
  succeeds, and getting it then returns the value; a slot of another key is read as before,
  and so is any other issue; clearing the slot succeeds, and getting it then fails.  The key
  and the value are valid UTF-8, and the two texts written, with the slot and without it, are
  valid JSON and pass the metadata schema.
\<close>

theorem slot_roundtrip:
  assumes q: "quiet c" "\<not> closed st" and i: "stored (data st) x i" and l: "codec_laws jc"
    and u: "valid_utf8 key" "valid_utf8 v"
    and m: "slots_of jc (Metadata i) = Inr (Some m)"
    and ok: "\<And>m'. m' \<in> {m(key \<mapsto> json_string jc v), m(key := None)} \<Longrightarrow>
      json_ok e (json_text jc m') \<and> \<not> metadata_violation e (json_text jc m')"
  shows "\<exists>st1 st2 err. SlotSet e jc x key v a c c st = Some (Inr (), st1) \<and> SlotGet jc x key c st1 = Some (Inr v, st1) \<and>
    SlotClear e jc x key a c c st1 = Some (Inr (), st2) \<and> SlotGet jc x key c st2 = Some (Inl err, st2) \<and>
    (\<forall>k u. k \<noteq> key \<longrightarrow> SlotGet jc x k c st = Some (Inr u, st) \<longleftrightarrow> SlotGet jc x k c st1 = Some (Inr u, st1)) \<and>
    (\<forall>k u. k \<noteq> key \<longrightarrow> SlotGet jc x k c st1 = Some (Inr u, st1) \<longleftrightarrow> SlotGet jc x k c st2 = Some (Inr u, st2)) \<and>
    (\<forall>y. y \<noteq> x \<longrightarrow> GetIssue (data st1) y = GetIssue (data st) y \<and> GetIssue (data st2) y = GetIssue (data st) y)"
proof -
  let ?m1 = "m(key \<mapsto> json_string jc v)" and ?m2 = "(m(key \<mapsto> json_string jc v))(key := None)"
  have enc: "encodable jc m" by (rule slots_encodable[OF l m])
  note enc1 = encodable_upd[OF enc u]
  note enc2 = encodable_del[OF enc1, of key]
  have ok2: "json_ok e (json_text jc ?m2)" "\<not> metadata_violation e (json_text jc ?m2)" using ok[of "m(key := None)"] by simp_all
  have js: "json_string_of jc (json_string jc v) = Some v" using l u by (simp add: codec_laws_def)
  obtain s1 where s1: "Store_UpdateIssue e x [(''metadata'', UString (json_text jc ?m1))] a c st = Some (Inr (), st\<lparr>data := s1\<rparr>)"
    "stored s1 x (new_metadata e x (json_text jc ?m1) i)"
    "slots_of jc (Metadata (new_metadata e x (json_text jc ?m1) i)) = Inr (Some ?m1)"
    "\<forall>y. y \<noteq> x \<longrightarrow> GetIssue s1 y = GetIssue (data st) y"
    using metadata_written[OF q i l enc1] ok[of ?m1] by blast
  define st1 i1 where "st1 = st\<lparr>data := s1\<rparr>" and "i1 = new_metadata e x (json_text jc ?m1) i"
  have q1: "\<not> closed st1" "stored (data st1) x i1" "slots_of jc (Metadata i1) = Inr (Some ?m1)"
    using q s1 by (simp_all add: st1_def i1_def)
  obtain s2 where s2: "Store_UpdateIssue e x [(''metadata'', UString (json_text jc ?m2))] a c st1 = Some (Inr (), st1\<lparr>data := s2\<rparr>)"
    "stored s2 x (new_metadata e x (json_text jc ?m2) i1)"
    "slots_of jc (Metadata (new_metadata e x (json_text jc ?m2) i1)) = Inr (Some ?m2)"
    "\<forall>y. y \<noteq> x \<longrightarrow> GetIssue s2 y = GetIssue (data st1) y"
    using metadata_written[OF q(1) q1(1,2) l enc2] ok2 by blast
  define st2 i2 where "st2 = st1\<lparr>data := s2\<rparr>" and "i2 = new_metadata e x (json_text jc ?m2) i1"
  have q2: "\<not> closed st2" "stored (data st2) x i2" "slots_of jc (Metadata i2) = Inr (Some ?m2)"
    using q1 s2 by (simp_all add: st2_def i2_def)
  note gets = SlotGet_result[OF q i m] SlotGet_result[OF q(1) q1] SlotGet_result[OF q(1) q2]
  have "SlotSet e jc x key v a c c st = Some (Inr (), st1)"
    using s1(1) by (simp add: SlotSet_def slot_write_def quiet_GetIssue[OF q i] m st1_def)
  moreover have "Metadata i1 \<noteq> ''''" using q1(3) by (auto simp: slots_of_def fun_eq_iff split: if_splits)
  then have "SlotClear e jc x key a c c st1 = Some (Inr (), st2)"
    using s2(1) by (simp add: SlotClear_def quiet_GetIssue[OF q(1) q1(1,2)] q1(3) st2_def)
  moreover have "SlotGet jc x key c st1 = Some (Inr v, st1)" "\<exists>err. SlotGet jc x key c st2 = Some (Inl err, st2)"
    by (simp_all add: gets slot_result_def js)
  moreover have "SlotGet jc x k c st = Some (Inr u, st) \<longleftrightarrow> SlotGet jc x k c st1 = Some (Inr u, st1)"
    "SlotGet jc x k c st1 = Some (Inr u, st1) \<longleftrightarrow> SlotGet jc x k c st2 = Some (Inr u, st2)" if "k \<noteq> key" for k u
    using that by (simp_all add: gets slot_result_def split: option.split)
  moreover have "\<forall>y. y \<noteq> x \<longrightarrow> GetIssue (data st1) y = GetIssue (data st) y \<and> GetIssue (data st2) y = GetIssue (data st) y"
    using s1(4) s2(4) by (simp add: st1_def st2_def)
  ultimately show ?thesis by blast
qed

text \<open>A codec with these laws whose values are strings, with a unary numbering of the objects.\<close>

definition entries :: "(string \<rightharpoonup> string) \<Rightarrow> (string \<times> string) list" where
  "entries m = map (\<lambda>k. (k, the (m k))) (sorted_list_of_set (dom m))"

definition ex_codec :: "string json_codec" where
  "ex_codec = \<lparr>json_object = (\<lambda>t. if t = ''{}'' then Some Map.empty else if t = '''' then None
       else Some (map_of (from_nat (length t - 1)) |` {k. valid_utf8 k})),
     json_null = (\<lambda>t. t = ''null''),
     json_text = (\<lambda>m. if m = Map.empty then ''{}'' else replicate (Suc (to_nat (entries m))) (CHR ''x'')),
     json_string = (\<lambda>v. v), json_string_of = Some, json_value_text = (\<lambda>v. v)\<rparr>"

lemma entries_map: "finite (dom m) \<Longrightarrow> map_of (entries m) = m"
proof (rule ext)
  fix k assume "finite (dom m)"
  then show "map_of (entries m) k = m k"
    by (cases "m k") (auto simp: entries_def map_of_map_restrict restrict_map_def)
qed

lemma ex_codec_laws: "codec_laws ex_codec"
proof -
  have ne: "replicate (Suc n) (CHR ''x'') \<noteq> ''{}''" "replicate (Suc n) (CHR ''x'') \<noteq> ''null''" for n by simp_all
  have keys: "finite (dom m) \<and> (\<forall>k\<in>dom m. valid_utf8 k)" if "json_object ex_codec t = Some m" for t m
    using that by (auto simp: ex_codec_def finite_dom_map_of split: if_splits) (auto simp: restrict_map_def split: if_splits)
  have id: "m |` {k. valid_utf8 k} = m" if "encodable ex_codec m" for m
    using that by (force simp: encodable_def restrict_map_def fun_eq_iff dom_def)
  have rt: "json_object ex_codec (json_text ex_codec m) = Some m \<and> \<not> json_null ex_codec (json_text ex_codec m) \<and>
      json_text ex_codec m \<noteq> ''''" if "encodable ex_codec m" for m
    using ne entries_map[of m] id[OF that] that by (simp add: ex_codec_def encodable_def del: replicate_Suc)
  show ?thesis unfolding codec_laws_def using rt keys by (simp add: ex_codec_def)
qed

theorem slot_roundtrip_witness:
  "\<exists>st1 st2 err. SlotSet ex_env ex_codec ''bd-1'' ''k'' ''v'' ''amy'' (calls_of (\<lambda>k. calm)) (calls_of (\<lambda>k. calm)) (ex_session (chain True)) = Some (Inr (), st1) \<and>
    SlotGet ex_codec ''bd-1'' ''k'' (calls_of (\<lambda>k. calm)) st1 = Some (Inr ''v'', st1) \<and>
    SlotClear ex_env ex_codec ''bd-1'' ''k'' ''amy'' (calls_of (\<lambda>k. calm)) (calls_of (\<lambda>k. calm)) st1 = Some (Inr (), st2) \<and>
    SlotGet ex_codec ''bd-1'' ''k'' (calls_of (\<lambda>k. calm)) st2 = Some (Inl err, st2)"
proof -
  let ?o = "ex_row ''bd-1'' ''open'' False"
  have w: "\<not> IsActiveWisp (chain True) ''bd-1''" by (simp add: IsActiveWisp_def chain_def ex_db_def)
  have o: "stored (chain True) ''bd-1'' ?o"
    using w by (simp_all add: stored_def GetIssue_def issue_table_def select_row_def chain_def ex_db_def ex_row_def issue.defs)
  have st: "\<not> closed (ex_session (chain True))" "data (ex_session (chain True)) = chain True" by (simp_all add: ex_session_def)
  have m: "slots_of ex_codec (Metadata ?o) = Inr (Some Map.empty)" by (simp add: slots_of_def ex_row_def issue.defs blank_issue_def)
  have ok: "json_ok ex_env t \<and> \<not> metadata_violation ex_env t" for t by (simp add: ex_env_def)
  have u: "valid_utf8 ''k''" "valid_utf8 ''v''" by code_simp+
  show ?thesis
    using slot_roundtrip[OF quiet_calm st(1) _ ex_codec_laws u m ok, where x = "''bd-1''" and a = "''amy''"] o st(2) by auto
qed

subsection \<open>Two writers\<close>

text \<open>
  \<^verbatim>\<open>SlotSet\<close> reads and writes in two transactions.  A slot that another client sets between
  the two is lost, although both calls succeed.
\<close>

theorem slot_lost_update:
  assumes q: "quiet c" "\<not> closed st" and i: "stored (data st) x i" and l: "codec_laws jc"
    and u: "valid_utf8 k1" "valid_utf8 k2" "valid_utf8 v1" "valid_utf8 v2"
    and m: "slots_of jc (Metadata i) = Inr (Some m)" "m k2 = None" "k2 \<noteq> k1"
    and ok: "\<And>m'. m' \<in> {m(k1 \<mapsto> json_string jc v1), m(k2 \<mapsto> json_string jc v2)} \<Longrightarrow>
      json_ok e (json_text jc m') \<and> \<not> metadata_violation e (json_text jc m')"
  shows "\<exists>st1 st2 err. Store_GetIssue x c st = Some (Inr i, st) \<and> SlotSet e jc x k2 v2 b c c st = Some (Inr (), st1) \<and>
    slot_write e jc x k1 v1 a i c st1 = Some (Inr (), st2) \<and> SlotGet jc x k2 c st2 = Some (Inl err, st2)"
proof -
  let ?m1 = "m(k2 \<mapsto> json_string jc v2)" and ?m2 = "m(k1 \<mapsto> json_string jc v1)"
  have enc: "encodable jc m" by (rule slots_encodable[OF l m(1)])
  note enc1 = encodable_upd[OF enc u(2,4)] and enc2 = encodable_upd[OF enc u(1,3)]
  obtain s1 where s1: "Store_UpdateIssue e x [(''metadata'', UString (json_text jc ?m1))] b c st = Some (Inr (), st\<lparr>data := s1\<rparr>)"
    "stored s1 x (new_metadata e x (json_text jc ?m1) i)"
    using metadata_written[OF q i l enc1] ok[of ?m1] by blast
  define st1 i1 where "st1 = st\<lparr>data := s1\<rparr>" and "i1 = new_metadata e x (json_text jc ?m1) i"
  have q1: "\<not> closed st1" "stored (data st1) x i1" using q s1 by (simp_all add: st1_def i1_def)
  obtain s2 where s2: "Store_UpdateIssue e x [(''metadata'', UString (json_text jc ?m2))] a c st1 = Some (Inr (), st1\<lparr>data := s2\<rparr>)"
    "stored s2 x (new_metadata e x (json_text jc ?m2) i1)"
    "slots_of jc (Metadata (new_metadata e x (json_text jc ?m2) i1)) = Inr (Some ?m2)"
    using metadata_written[OF q(1) q1 l enc2] ok[of ?m2] by blast
  define st2 i2 where "st2 = st1\<lparr>data := s2\<rparr>" and "i2 = new_metadata e x (json_text jc ?m2) i1"
  have q2: "\<not> closed st2" "stored (data st2) x i2" "slots_of jc (Metadata i2) = Inr (Some ?m2)"
    using q1 s2 by (simp_all add: st2_def i2_def)
  have "SlotGet jc x k2 c st2 = Some (slot_result jc i2 ?m2 k2, st2)" by (rule SlotGet_result[OF q(1) q2])
  moreover have "SlotSet e jc x k2 v2 b c c st = Some (Inr (), st1)"
    using s1(1) by (simp add: SlotSet_def slot_write_def quiet_GetIssue[OF q i] m(1) st1_def)
  moreover have "slot_write e jc x k1 v1 a i c st1 = Some (Inr (), st2)"
    using s2(1) by (simp add: slot_write_def m(1) st2_def)
  ultimately show ?thesis using quiet_GetIssue[OF q i] m(2,3) by (auto simp: slot_result_def)
qed

text \<open>On an issue whose metadata is the JSON null, which an update accepts, it panics.\<close>

lemma slot_null_panics:
  assumes "quiet c" "\<not> closed st" "stored (data st) x i" "Metadata i \<noteq> ''''" "json_null jc (Metadata i)"
  shows "SlotSet e jc x k v a c2 c st = Some (Inl (Driver ''panic: assignment to entry in nil map''), st)"
  using assms(4,5) by (simp add: SlotSet_def slot_write_def quiet_GetIssue[OF assms(1-3)] slots_of_def)

end
