(* ===== verification/MergeSettle.thy ===== *)
theory MergeSettle
  imports Store
begin

text \<open>
  The settlement of a merge (\<^verbatim>\<open>internal/storage/versioncontrolops/mergesettle.go\<close>): conflicts
  that need no operator are resolved, rows whose issue was deleted on the other side are
  removed, and everything else aborts the merge.  The tables are the record \<^verbatim>\<open>db\<close>; the version
  control state of the engine is the type variable \<^verbatim>\<open>'v\<close>.  Its system tables and stored
  procedures are a parameter, the record \<^verbatim>\<open>engine\<close>: a query returns rows or the message of an
  error, a statement an optional error and the new state, for it may fail with an effect.  Where
  the code reads a system table twice the query takes the number of the read, from 0, because
  the second read may fail or differ although the first one succeeded.
\<close>

subsection \<open>The engine\<close>

datatype statement =
    AllowCommitConflicts
  | ForceTransactionCommit
  | DoltMerge string
  | DoltFetch string string string
  | ResolveTheirs string
  | ResolveOurs string
  | StageTable string
  | SetContentHash int string
  | ClearViolations string
  | CommitResolved
  | MergeAbort
  | ResetHard

record dep_conflict =
  our_id :: "string option"
  their_id :: "string option"
  our_issue_id :: "string option"
  their_issue_id :: "string option"
  our_depends_on_issue_id :: "string option"
  their_depends_on_issue_id :: "string option"
  our_depends_on_wisp_id :: "string option"
  their_depends_on_wisp_id :: "string option"
  our_depends_on_external :: "string option"
  their_depends_on_external :: "string option"
  our_type :: "string option"
  their_type :: "string option"

record config_conflict =
  our_key :: "string option"
  their_key :: "string option"

record migration_conflict =
  our_version :: "int option"
  their_version :: "int option"
  our_content_hash :: "string option"
  their_content_hash :: "string option"

text \<open>A violation: its type and the \<^verbatim>\<open>ReferencedTable\<close> of its descriptor, \<^verbatim>\<open>None\<close> if it has no readable one.\<close>

type_synonym violation = "string \<times> string option"

record 'v repo =
  version_state :: 'v
  repo_tables :: db

record 'v engine =
  dolt_status :: "'v repo \<Rightarrow> string + nat"
  dolt_conflicts :: "nat \<Rightarrow> 'v repo \<Rightarrow> string + (string \<times> nat) list"
  dolt_conflicts_dependencies :: "'v repo \<Rightarrow> string + dep_conflict list"
  dolt_conflicts_config :: "'v repo \<Rightarrow> string + config_conflict list"
  dolt_conflicts_schema_migrations :: "nat \<Rightarrow> 'v repo \<Rightarrow> string + migration_conflict list"
  dolt_constraint_violations :: "nat \<Rightarrow> 'v repo \<Rightarrow> string + string list"
  table_violations :: "string \<Rightarrow> 'v repo \<Rightarrow> string + violation list"
  run :: "statement \<Rightarrow> 'v repo \<Rightarrow> string option \<times> 'v repo"
  delete_err :: "string \<Rightarrow> 'v repo \<Rightarrow> string option"

text \<open>Statements in sequence: the first error ends it.\<close>

definition and_then :: "(string option \<times> 'v repo) \<Rightarrow> ('v repo \<Rightarrow> string option \<times> 'v repo) \<Rightarrow> string option \<times> 'v repo" where
  "and_then r f = (case r of (Some m, st) \<Rightarrow> (Some m, st) | (None, st) \<Rightarrow> f st)"

fun run_all :: "('a \<Rightarrow> 'v repo \<Rightarrow> string option \<times> 'v repo) \<Rightarrow> 'a list \<Rightarrow> 'v repo \<Rightarrow> string option \<times> 'v repo" where
  "run_all f [] st = (None, st)"
| "run_all f (x # xs) st = and_then (f x st) (run_all f xs)"

subsection \<open>Conflicts that need no operator\<close>

definition memoryConfigKeyPrefix :: string where
  "memoryConfigKeyPrefix = ''kv.memory.''"

definition resolveConflictDepTarget :: "string option \<Rightarrow> string option \<Rightarrow> string option \<Rightarrow> string option" where
  "resolveConflictDepTarget issueTarget wispTarget external =
    (case issueTarget of Some t \<Rightarrow> Some t
     | None \<Rightarrow> (case wispTarget of Some t \<Rightarrow> Some t | None \<Rightarrow> external))"

definition audit_only :: "dep_conflict \<Rightarrow> bool" where
  "audit_only r = (our_id r \<noteq> None \<and> their_id r \<noteq> None \<and> our_issue_id r = their_issue_id r \<and>
     resolveConflictDepTarget (our_depends_on_issue_id r) (our_depends_on_wisp_id r) (our_depends_on_external r) =
     resolveConflictDepTarget (their_depends_on_issue_id r) (their_depends_on_wisp_id r) (their_depends_on_external r) \<and>
     our_type r = their_type r)"

definition dependencyConflictsAreAuditOnly :: "'v engine \<Rightarrow> 'v repo \<Rightarrow> string + bool" where
  "dependencyConflictsAreAuditOnly g st = map_sum id (list_all audit_only) (dolt_conflicts_dependencies g st)"

definition memory_key :: "string option \<Rightarrow> bool" where
  "memory_key k = (case k of None \<Rightarrow> True | Some t \<Rightarrow> has_prefix t memoryConfigKeyPrefix)"

definition configConflictsAreMemoryConvergent :: "'v engine \<Rightarrow> 'v repo \<Rightarrow> string + bool" where
  "configConflictsAreMemoryConvergent g st =
     map_sum id (list_all (\<lambda>r. memory_key (our_key r) \<and> memory_key (their_key r))) (dolt_conflicts_config g st)"

definition text_or_empty :: "string option \<Rightarrow> string" where
  "text_or_empty t = (case t of None \<Rightarrow> '''' | Some x \<Rightarrow> x)"

definition vintage_only :: "migration_conflict \<Rightarrow> bool" where
  "vintage_only r = (our_version r \<noteq> None \<and> their_version r \<noteq> None \<and> our_version r = their_version r \<and>
     (let ours = text_or_empty (our_content_hash r); theirs = text_or_empty (their_content_hash r)
      in ours = '''' \<or> theirs = '''' \<or> ours = theirs))"

definition schemaMigrationsConflictsAreVintageOnly :: "'v engine \<Rightarrow> 'v repo \<Rightarrow> string + bool" where
  "schemaMigrationsConflictsAreVintageOnly g st =
     map_sum id (list_all vintage_only) (dolt_conflicts_schema_migrations g 0 st)"

text \<open>A NULL version would be written as version 0.\<close>

definition hash_fixes :: "migration_conflict list \<Rightarrow> (int \<times> string) list" where
  "hash_fixes rows = map (\<lambda>r. (case our_version r of None \<Rightarrow> 0 | Some v \<Rightarrow> v, text_or_empty (their_content_hash r)))
     (filter (\<lambda>r. text_or_empty (our_content_hash r) = '''' \<and> text_or_empty (their_content_hash r) \<noteq> '''') rows)"

definition resolveSchemaMigrationsVintageConflicts :: "'v engine \<Rightarrow> 'v repo \<Rightarrow> string option \<times> 'v repo" where
  "resolveSchemaMigrationsVintageConflicts g st =
    (case dolt_conflicts_schema_migrations g 1 st of
       Inl m \<Rightarrow> (Some m, st)
     | Inr rows \<Rightarrow> and_then (run_all (\<lambda>(v, h). run g (SetContentHash v h)) (hash_fixes rows) st)
         (run g (ResolveOurs ''schema_migrations'')))"

text \<open>The check of one conflicted table; \<^verbatim>\<open>Inr False\<close> leaves the merge to the operator.\<close>

definition table_resolvable :: "'v engine \<Rightarrow> 'v repo \<Rightarrow> string \<Rightarrow> string + bool" where
  "table_resolvable g st t =
    (if t = ''metadata'' then Inr True
     else if t = ''dependencies'' then dependencyConflictsAreAuditOnly g st
     else if t = ''schema_migrations'' then schemaMigrationsConflictsAreVintageOnly g st
     else if t = ''config'' then configConflictsAreMemoryConvergent g st
     else Inr False)"

fun all_resolvable :: "'v engine \<Rightarrow> 'v repo \<Rightarrow> string list \<Rightarrow> string + bool" where
  "all_resolvable g st [] = Inr True"
| "all_resolvable g st (t # ts) =
    (case table_resolvable g st t of
       Inl m \<Rightarrow> Inl m
     | Inr ok \<Rightarrow> if ok then all_resolvable g st ts else Inr False)"

definition resolve_table :: "'v engine \<Rightarrow> string \<Rightarrow> 'v repo \<Rightarrow> string option \<times> 'v repo" where
  "resolve_table g t st =
     and_then (if t = ''schema_migrations'' then resolveSchemaMigrationsVintageConflicts g st
               else run g (ResolveTheirs t) st)
       (run g (StageTable t))"

definition TryAutoResolveMergeConflicts :: "'v engine \<Rightarrow> 'v repo \<Rightarrow> (string + bool) \<times> 'v repo" where
  "TryAutoResolveMergeConflicts g st =
    (case dolt_conflicts g 0 st of
       Inl m \<Rightarrow> (Inl m, st)
     | Inr conflicts \<Rightarrow>
         if conflicts = [] then (Inr False, st)
         else (case all_resolvable g st (map fst conflicts) of
             Inl m \<Rightarrow> (Inl m, st)
           | Inr ok \<Rightarrow>
               if \<not> ok then (Inr False, st)
               else (case run_all (resolve_table g) (map fst conflicts) st of
                   (Some m, st1) \<Rightarrow> (Inl m, st1)
                 | (None, st1) \<Rightarrow> (Inr True, st1))))"

subsection \<open>Rows whose issue is gone\<close>

text \<open>
  The DELETE of each table.  The two tables of compaction snapshots are no part of \<^verbatim>\<open>db\<close>, and
  their DELETE leaves it as it is.
\<close>

definition fkCascadeRepairTables :: "string list" where
  "fkCascadeRepairTables = [''dependencies'', ''labels'', ''comments'', ''events'', ''issue_snapshots'',
     ''compaction_snapshots'', ''child_counters'']"

definition issue_exists :: "db \<Rightarrow> string \<Rightarrow> bool" where
  "issue_exists s x = (x \<in> ID ` set (t_issues s))"

definition dep_attached :: "db \<Rightarrow> dep_row \<Rightarrow> bool" where
  "dep_attached s d = (issue_exists s (issue_id d) \<and>
     (case depends_on_issue_id d of None \<Rightarrow> True | Some t \<Rightarrow> issue_exists s t))"

definition cascade_delete :: "string \<Rightarrow> db \<Rightarrow> db" where
  "cascade_delete t s =
    (if t = ''dependencies'' then s\<lparr>t_deps := filter (dep_attached s) (t_deps s)\<rparr>
     else if t = ''labels'' then s\<lparr>t_labels := filter (\<lambda>(x, l). issue_exists s x) (t_labels s)\<rparr>
     else if t = ''comments'' then s\<lparr>t_comments := filter (\<lambda>c. issue_exists s (CommentIssueID c)) (t_comments s)\<rparr>
     else if t = ''events'' then s\<lparr>t_events := filter (\<lambda>v. issue_exists s (ev_issue v)) (t_events s)\<rparr>
     else if t = ''child_counters'' then s\<lparr>t_child_counters := filter (\<lambda>(x, n). issue_exists s x) (t_child_counters s)\<rparr>
     else s)"

definition violationsAreIssueFKOnly :: "'v engine \<Rightarrow> 'v repo \<Rightarrow> string \<Rightarrow> string + bool" where
  "violationsAreIssueFKOnly g st t =
     map_sum id (list_all (\<lambda>(vtype, referenced). vtype = ''foreign key'' \<and> referenced = Some ''issues'')) (table_violations g t st)"

fun all_repairable :: "'v engine \<Rightarrow> 'v repo \<Rightarrow> string list \<Rightarrow> string + bool" where
  "all_repairable g st [] = Inr True"
| "all_repairable g st (t # ts) =
    (if t \<notin> set fkCascadeRepairTables then Inr False
     else (case violationsAreIssueFKOnly g st t of
         Inl m \<Rightarrow> Inl m
       | Inr ok \<Rightarrow> if ok then all_repairable g st ts else Inr False))"

definition repair_table :: "'v engine \<Rightarrow> string \<Rightarrow> 'v repo \<Rightarrow> string option \<times> 'v repo" where
  "repair_table g t st =
    (case delete_err g t st of
       Some m \<Rightarrow> (Some m, st)
     | None \<Rightarrow> and_then (run g (ClearViolations t) (st\<lparr>repo_tables := cascade_delete t (repo_tables st)\<rparr>)) (run g (StageTable t)))"

text \<open>The results are an error, or whether everything was repaired and whether there was something to repair.\<close>

definition TryRepairFKCascadeViolations :: "'v engine \<Rightarrow> 'v repo \<Rightarrow> (string + (bool \<times> bool)) \<times> 'v repo" where
  "TryRepairFKCascadeViolations g st =
    (case dolt_constraint_violations g 0 st of
       Inl m \<Rightarrow> (Inl m, st)
     | Inr tables \<Rightarrow>
         if tables = [] then (Inr (False, False), st)
         else (case all_repairable g st tables of
             Inl m \<Rightarrow> (Inl m, st)
           | Inr ok \<Rightarrow>
               if \<not> ok then (Inr (False, True), st)
               else (case run_all (repair_table g) tables st of
                   (Some m, st1) \<Rightarrow> (Inl m, st1)
                 | (None, st1) \<Rightarrow> (case dolt_constraint_violations g 1 st1 of
                     Inl m \<Rightarrow> (Inl m, st1)
                   | Inr remaining \<Rightarrow> (Inr (remaining = [], True), st1)))))"

subsection \<open>Settling\<close>

datatype settle_error =
    SettleFailed string
  | MergeConflictsError "string list" "string option"
  | Unrepairable

definition GetConflicts :: "'v engine \<Rightarrow> nat \<Rightarrow> 'v repo \<Rightarrow> string + string list" where
  "GetConflicts g n st = map_sum id (map fst) (dolt_conflicts g n st)"

definition workingSetClean :: "'v engine \<Rightarrow> 'v repo \<Rightarrow> bool" where
  "workingSetClean g st = (dolt_status g st = Inr 0)"

definition abortMerge :: "'v engine \<Rightarrow> bool \<Rightarrow> 'v repo \<Rightarrow> 'v repo" where
  "abortMerge g preMergeClean st =
    (case run g MergeAbort st of
       (None, st1) \<Rightarrow> st1
     | (Some m, st1) \<Rightarrow> if preMergeClean then snd (run g ResetHard st1) else st1)"

definition CommitResolvedConflicts :: "'v engine \<Rightarrow> 'v repo \<Rightarrow> string option \<times> 'v repo" where
  "CommitResolvedConflicts g st = run g CommitResolved st"

text \<open>The error of the merge statement, or else the one of the step that failed.\<close>

definition first_error :: "string option \<Rightarrow> settle_error \<Rightarrow> settle_error" where
  "first_error mergeErr err = (case mergeErr of Some m \<Rightarrow> SettleFailed m | None \<Rightarrow> err)"

definition settle_rest ::
  "'v engine \<Rightarrow> string option \<Rightarrow> bool \<Rightarrow> bool \<Rightarrow> 'v repo \<Rightarrow> settle_error option \<times> 'v repo" where
  "settle_rest g mergeErr preMergeClean resolved st =
    (case TryRepairFKCascadeViolations g st of
       (Inl m, st2) \<Rightarrow> (Some (first_error mergeErr (SettleFailed m)), abortMerge g preMergeClean st2)
     | (Inr (repairedViol, hadViol), st2) \<Rightarrow>
         if hadViol \<and> \<not> repairedViol then
           (Some (first_error mergeErr Unrepairable), abortMerge g preMergeClean st2)
         else if mergeErr \<noteq> None \<and> \<not> resolved \<and> \<not> repairedViol then
           (map_option SettleFailed mergeErr, abortMerge g preMergeClean st2)
         else if resolved then
           (case CommitResolvedConflicts g st2 of
              (Some m, st3) \<Rightarrow> (Some (first_error mergeErr (SettleFailed m)), abortMerge g preMergeClean st3)
            | (None, st3) \<Rightarrow> (None, st3))
         else (None, st2))"

definition SettleMerge ::
  "'v engine \<Rightarrow> string option \<Rightarrow> bool \<Rightarrow> 'v repo \<Rightarrow> settle_error option \<times> 'v repo" where
  "SettleMerge g mergeErr preMergeClean st =
    (case TryAutoResolveMergeConflicts g st of
       (Inl m, st1) \<Rightarrow> (Some (first_error mergeErr (SettleFailed m)), abortMerge g preMergeClean st1)
     | (Inr resolved, st1) \<Rightarrow>
         (case (resolved, GetConflicts g 1 st1) of
            (False, Inr (t # ts)) \<Rightarrow> (Some (MergeConflictsError (t # ts) mergeErr), abortMerge g preMergeClean st1)
          | _ \<Rightarrow> settle_rest g mergeErr preMergeClean resolved st1))"

definition MergeAndSettle :: "'v engine \<Rightarrow> string \<Rightarrow> 'v repo \<Rightarrow> settle_error option \<times> 'v repo" where
  "MergeAndSettle g ref st =
    (let preMergeClean = workingSetClean g st in
     case and_then (run g AllowCommitConflicts st) (run g ForceTransactionCommit) of
       (Some m, st1) \<Rightarrow> (Some (SettleFailed m), st1)
     | (None, st1) \<Rightarrow>
         (let (mergeErr, st2) = run g (DoltMerge ref) st1;
              err = (case mergeErr of None \<Rightarrow> None | Some m \<Rightarrow> if str_contains m ''up to date'' then None else Some m)
          in SettleMerge g err preMergeClean st2))"

definition Pull :: "'v engine \<Rightarrow> string \<Rightarrow> string \<Rightarrow> string \<Rightarrow> 'v repo \<Rightarrow> settle_error option \<times> 'v repo" where
  "Pull g remote branch user st =
    (case run g (DoltFetch user remote branch) st of
       (Some m, st1) \<Rightarrow> (Some (SettleFailed m), st1)
     | (None, st1) \<Rightarrow> MergeAndSettle g (remote @ ''/'' @ branch) st1)"

end
