(* ===== verification/PropsSettle.thy ===== *)
theory PropsSettle
  imports MergeSettle Examples
begin

text \<open>The properties of the settlement of a merge: what is kept, and what is aborted.\<close>

subsection \<open>Conflicts\<close>

lemma all_resolvable_True: "all_resolvable g st ts = Inr True \<longleftrightarrow> (\<forall>t\<in>set ts. table_resolvable g st t = Inr True)"
  by (induction ts) (auto split: sum.splits)

lemma resolve_cases:
  assumes "TryAutoResolveMergeConflicts g st = (r, st1)"
  shows "case r of
      Inl m \<Rightarrow> True
    | Inr True \<Rightarrow> \<exists>cs. dolt_conflicts g 0 st = Inr cs \<and> cs \<noteq> [] \<and> (\<forall>p\<in>set cs. table_resolvable g st (fst p) = Inr True) \<and>
        run_all (resolve_table g) (map fst cs) st = (None, st1)
    | Inr False \<Rightarrow> st1 = st \<and> (\<exists>cs. dolt_conflicts g 0 st = Inr cs \<and>
        (cs \<noteq> [] \<longrightarrow> (\<exists>p\<in>set cs. table_resolvable g st (fst p) \<noteq> Inr True)))"
proof (cases "dolt_conflicts g 0 st")
  case (Inl m)
  then show ?thesis using assms by (auto simp: TryAutoResolveMergeConflicts_def)
next
  case cs: (Inr cs)
  show ?thesis
  proof (cases "cs = [] \<or> (\<exists>m. all_resolvable g st (map fst cs) = Inl m)")
    case True
    then consider "cs = []" | m where "all_resolvable g st (map fst cs) = Inl m" "cs \<noteq> []" by auto
    then show ?thesis
    proof cases
      case 1
      then show ?thesis using assms cs by (auto simp: TryAutoResolveMergeConflicts_def)
    next
      case (2 m)
      then have "r = Inl m" using assms cs by (simp add: TryAutoResolveMergeConflicts_def)
      then show ?thesis by simp
    qed
  next
    case False
    then obtain ok where ok: "all_resolvable g st (map fst cs) = Inr ok" by (cases "all_resolvable g st (map fst cs)") auto
    obtain e st2 where run: "run_all (resolve_table g) (map fst cs) st = (e, st2)" by (cases "run_all (resolve_table g) (map fst cs) st") blast
    have iff: "ok \<longleftrightarrow> (\<forall>p\<in>set cs. table_resolvable g st (fst p) = Inr True)"
      using all_resolvable_True[of g st "map fst cs"] ok by auto
    show ?thesis
    proof (cases ok)
      case True
      then have "r = (case e of None \<Rightarrow> Inr True | Some m \<Rightarrow> Inl m)" "st1 = st2"
        using assms cs ok run False by (cases e; simp add: TryAutoResolveMergeConflicts_def)+
      then show ?thesis using cs run False iff True by (cases e) auto
    next
      case no: False
      then have "r = Inr False" "st1 = st" using assms cs ok False by (simp_all add: TryAutoResolveMergeConflicts_def)
      then show ?thesis using cs iff no by auto
    qed
  qed
qed

subsection \<open>Violations\<close>

lemma repair_cases:
  assumes "TryRepairFKCascadeViolations g st = (Inr (repaired, had), st1)" "\<not> (had \<and> \<not> repaired)"
  shows "(\<exists>n. dolt_constraint_violations g n st1 = Inr []) \<and> (repaired \<longrightarrow> dolt_constraint_violations g 0 st \<noteq> Inr [])"
proof (cases "dolt_constraint_violations g 0 st")
  case (Inl m)
  then show ?thesis using assms(1) by (auto simp: TryRepairFKCascadeViolations_def)
next
  case (Inr ts)
  then show ?thesis using assms
    by (auto simp: TryRepairFKCascadeViolations_def split: if_splits sum.splits prod.splits option.splits)
qed

lemma settle_rest_result:
  assumes "settle_rest g mergeErr clean resolved st = (res, st')"
  shows "case res of
      Some err \<Rightarrow> st' \<in> range (abortMerge g clean) \<and> (\<forall>ts m. err \<noteq> MergeConflictsError ts m)
    | None \<Rightarrow> \<exists>st1 n. dolt_constraint_violations g n st1 = Inr [] \<and>
        (if resolved then run g CommitResolved st1 = (None, st') else st' = st1) \<and>
        (mergeErr \<noteq> None \<longrightarrow> resolved \<or> dolt_constraint_violations g 0 st \<noteq> Inr [])"
proof -
  obtain r st2 where r: "TryRepairFKCascadeViolations g st = (r, st2)" by (cases "TryRepairFKCascadeViolations g st") blast
  show ?thesis
  proof (cases r)
    case (Inl m)
    then show ?thesis using assms r by (auto simp: settle_rest_def first_error_def split: option.splits)
  next
    case (Inr p)
    obtain rp had where p: "p = (rp, had)" by fastforce
    show ?thesis
    proof (cases "had \<and> \<not> rp \<or> mergeErr \<noteq> None \<and> \<not> resolved \<and> \<not> rp")
      case True
      then show ?thesis using assms r Inr p by (auto simp: settle_rest_def first_error_def split: option.splits if_splits)
    next
      case False
      then obtain n where v: "dolt_constraint_violations g n st2 = Inr []" "rp \<longrightarrow> dolt_constraint_violations g 0 st \<noteq> Inr []"
        using repair_cases[of g st rp had st2] r Inr p by blast
      obtain e st3 where c: "run g CommitResolved st2 = (e, st3)" by (cases "run g CommitResolved st2") blast
      show ?thesis
        using assms r Inr p False v c
        by (cases e; cases resolved) (auto simp: settle_rest_def CommitResolvedConflicts_def first_error_def split: option.splits)
    qed
  qed
qed

subsection \<open>What needs no operator\<close>

text \<open>
  The specification of the conflicts that are settled without an operator, after the comment
  of \<^verbatim>\<open>TryAutoResolveMergeConflicts\<close>: machine-local metadata; the same edge on both sides, that
  is the same source, target and type; the same migration with at most one recorded hash;
  and persistent memories.
\<close>

definition coalesce :: "'a option list \<Rightarrow> 'a option" where
  "coalesce xs = (case filter (\<lambda>x. x \<noteq> None) xs of [] \<Rightarrow> None | x # _ \<Rightarrow> x)"

definition our_edge :: "dep_conflict \<Rightarrow> string option \<times> string option \<times> string option" where
  "our_edge r = (our_issue_id r, coalesce [our_depends_on_issue_id r, our_depends_on_wisp_id r, our_depends_on_external r], our_type r)"

definition their_edge :: "dep_conflict \<Rightarrow> string option \<times> string option \<times> string option" where
  "their_edge r = (their_issue_id r, coalesce [their_depends_on_issue_id r, their_depends_on_wisp_id r, their_depends_on_external r], their_type r)"

definition recorded_hashes :: "migration_conflict \<Rightarrow> string set" where
  "recorded_hashes r = (set_option (our_content_hash r) \<union> set_option (their_content_hash r)) - {''''}"

definition same_edges :: "dep_conflict list \<Rightarrow> bool" where
  "same_edges rows \<longleftrightarrow> (\<forall>r\<in>set rows. our_id r \<noteq> None \<and> their_id r \<noteq> None \<and> our_edge r = their_edge r)"

definition same_migrations :: "migration_conflict list \<Rightarrow> bool" where
  "same_migrations rows \<longleftrightarrow> (\<forall>r\<in>set rows. (\<exists>v. our_version r = Some v \<and> their_version r = Some v) \<and>
     (\<forall>h\<in>recorded_hashes r. \<forall>h'\<in>recorded_hashes r. h = h'))"

definition memories_only :: "config_conflict list \<Rightarrow> bool" where
  "memories_only rows \<longleftrightarrow> (\<forall>r\<in>set rows. \<forall>k\<in>set_option (our_key r) \<union> set_option (their_key r).
     \<exists>name. k = ''kv.memory.'' @ name)"

definition needs_no_operator :: "'v engine \<Rightarrow> 'v repo \<Rightarrow> string \<Rightarrow> bool" where
  "needs_no_operator g st t \<longleftrightarrow> t = ''metadata'' \<or>
     t = ''dependencies'' \<and> (\<exists>rows. dolt_conflicts_dependencies g st = Inr rows \<and> same_edges rows) \<or>
     t = ''schema_migrations'' \<and> (\<exists>rows. dolt_conflicts_schema_migrations g 0 st = Inr rows \<and> same_migrations rows) \<or>
     t = ''config'' \<and> (\<exists>rows. dolt_conflicts_config g st = Inr rows \<and> memories_only rows)"

lemma resolveConflictDepTarget_coalesce: "resolveConflictDepTarget a b c = coalesce [a, b, c]"
  by (cases a; cases b; cases c) (simp_all add: resolveConflictDepTarget_def coalesce_def)

lemma audit_only_same_edge: "audit_only r \<longleftrightarrow> our_id r \<noteq> None \<and> their_id r \<noteq> None \<and> our_edge r = their_edge r"
  by (auto simp: audit_only_def our_edge_def their_edge_def resolveConflictDepTarget_coalesce)

lemma vintage_only_same_migration:
  "vintage_only r \<longleftrightarrow> (\<exists>v. our_version r = Some v \<and> their_version r = Some v) \<and>
     (\<forall>h\<in>recorded_hashes r. \<forall>h'\<in>recorded_hashes r. h = h')"
  by (cases "our_content_hash r"; cases "their_content_hash r")
    (auto simp: vintage_only_def recorded_hashes_def text_or_empty_def)

lemma memory_key_prefix: "memory_key k \<longleftrightarrow> (\<forall>x\<in>set_option k. \<exists>name. x = ''kv.memory.'' @ name)"
  by (cases k) (auto simp: memory_key_def memoryConfigKeyPrefix_def has_prefix_def prefix_def)

lemma table_resolvable_iff: "table_resolvable g st t = Inr True \<longleftrightarrow> needs_no_operator g st t"
proof -
  have "dependencyConflictsAreAuditOnly g st = Inr True \<longleftrightarrow>
      (\<exists>rows. dolt_conflicts_dependencies g st = Inr rows \<and> same_edges rows)"
    by (cases "dolt_conflicts_dependencies g st")
      (auto simp: dependencyConflictsAreAuditOnly_def list_all_iff audit_only_same_edge same_edges_def)
  moreover have "schemaMigrationsConflictsAreVintageOnly g st = Inr True \<longleftrightarrow>
      (\<exists>rows. dolt_conflicts_schema_migrations g 0 st = Inr rows \<and> same_migrations rows)"
    by (cases "dolt_conflicts_schema_migrations g 0 st")
      (auto simp: schemaMigrationsConflictsAreVintageOnly_def list_all_iff vintage_only_same_migration same_migrations_def)
  moreover have "configConflictsAreMemoryConvergent g st = Inr True \<longleftrightarrow>
      (\<exists>rows. dolt_conflicts_config g st = Inr rows \<and> memories_only rows)"
    by (cases "dolt_conflicts_config g st")
      (auto simp: configConflictsAreMemoryConvergent_def list_all_iff memory_key_prefix memories_only_def)
  ultimately show ?thesis by (auto simp: table_resolvable_def needs_no_operator_def)
qed

text \<open>
  (C17) When a merge is kept, every conflicted table it left was one whose conflicts need no
  operator, the last read of the violations found none, and if conflicts were resolved their
  commit succeeded; a merge statement that failed is only forgiven when there was something
  to resolve or repair.  In every other case an error is returned after the merge was aborted;
  if it reports conflicts, they are all those the second read of \<^verbatim>\<open>dolt_conflicts\<close> found, at
  least one table the first read found needs the operator if it found any, and the abort
  found the tables as the merge left them.  There is one exception, and the last disjunct says
  exactly when: some conflict needs the operator but the second read of \<^verbatim>\<open>dolt_conflicts\<close> failed
  or found nothing; then the merge is kept, not committed, with the conflict unresolved.
\<close>

theorem settle_merge_safe:
  assumes "SettleMerge g mergeErr clean st = (res, st')"
  shows "case res of
      Some err \<Rightarrow> st' \<in> range (abortMerge g clean) \<and>
        (\<forall>ts m. err = MergeConflictsError ts m \<longrightarrow>
           ts \<noteq> [] \<and> GetConflicts g 1 st = Inr ts \<and> m = mergeErr \<and> st' = abortMerge g clean st \<and>
           (\<exists>cs. dolt_conflicts g 0 st = Inr cs \<and> (cs \<noteq> [] \<longrightarrow> (\<exists>p\<in>set cs. \<not> needs_no_operator g st (fst p)))))
    | None \<Rightarrow> \<exists>cs st1 n. dolt_conflicts g 0 st = Inr cs \<and> dolt_constraint_violations g n st1 = Inr [] \<and>
        ((\<forall>p\<in>set cs. needs_no_operator g st (fst p)) \<and>
           (if cs = [] then st' = st1 else run g CommitResolved st1 = (None, st')) \<and>
           (mergeErr \<noteq> None \<longrightarrow> cs \<noteq> [] \<or> dolt_constraint_violations g 0 st \<noteq> Inr [])
         \<or> (\<exists>p\<in>set cs. \<not> needs_no_operator g st (fst p)) \<and> (\<forall>ts. GetConflicts g 1 st = Inr ts \<longrightarrow> ts = []) \<and> st' = st1 \<and>
           (mergeErr \<noteq> None \<longrightarrow> dolt_constraint_violations g 0 st \<noteq> Inr []))"
proof -
  obtain r st1 where r: "TryAutoResolveMergeConflicts g st = (r, st1)" by (cases "TryAutoResolveMergeConflicts g st") blast
  note rc = resolve_cases[OF r, unfolded table_resolvable_iff]
  consider (err) m where "r = Inl m" | (yes) "r = Inr True" | (no) "r = Inr False" by (cases r) auto
  then show ?thesis
  proof cases
    case err
    then show ?thesis using assms r by (auto simp: SettleMerge_def first_error_def split: option.splits)
  next
    case yes
    have "settle_rest g mergeErr clean True st1 = (res, st')" using assms r yes by (simp add: SettleMerge_def)
    then show ?thesis using settle_rest_result[of g mergeErr clean True st1 res st'] rc yes
      by (cases res) (simp_all, blast)
  next
    case no
    then obtain cs where cs: "st1 = st" "dolt_conflicts g 0 st = Inr cs"
      "cs \<noteq> [] \<longrightarrow> (\<exists>p\<in>set cs. \<not> needs_no_operator g st (fst p))"
      using rc by auto
    show ?thesis
    proof (cases "\<exists>c cs'. GetConflicts g 1 st = Inr (c # cs')")
      case False
      then have again: "\<forall>ts. GetConflicts g 1 st = Inr ts \<longrightarrow> ts = []" by (metis neq_Nil_conv)
      have "settle_rest g mergeErr clean False st = (res, st')"
        using assms r no cs(1) False by (auto simp: SettleMerge_def split: sum.splits list.splits)
      then show ?thesis
        using settle_rest_result[of g mergeErr clean False st res st'] cs again
        by (cases res; cases "cs = []") (simp_all, blast+)
    next
      case True
      then obtain c cs' where c: "GetConflicts g 1 st = Inr (c # cs')" by blast
      have "res = Some (MergeConflictsError (c # cs') mergeErr)" "st' = abortMerge g clean st"
        using assms r no cs(1) c by (simp_all add: SettleMerge_def)
      then show ?thesis using cs c by auto
    qed
  qed
qed

text \<open>A merge with a conflict in \<^verbatim>\<open>metadata\<close> and a label of an issue the other side deleted.\<close>

record ex_state =
  ex_conflicts :: "string list"
  ex_violations :: "string list"

definition ex_run :: "statement \<Rightarrow> ex_state repo \<Rightarrow> string option \<times> ex_state repo" where
  "ex_run q st = (let v = version_state st in case q of
     ResolveTheirs t \<Rightarrow> (None, st\<lparr>version_state := v\<lparr>ex_conflicts := filter (\<lambda>u. u \<noteq> t) (ex_conflicts v)\<rparr>\<rparr>)
   | ClearViolations t \<Rightarrow> (None, st\<lparr>version_state := v\<lparr>ex_violations := filter (\<lambda>u. u \<noteq> t) (ex_violations v)\<rparr>\<rparr>)
   | CommitResolved \<Rightarrow> (if ex_violations v = [] then (None, st) else (Some ''constraint violations'', st))
   | _ \<Rightarrow> (None, st))"

definition ex_engine :: "ex_state engine" where
  "ex_engine = \<lparr>dolt_status = (\<lambda>st. Inr 0),
     dolt_conflicts = (\<lambda>n st. Inr (map (\<lambda>t. (t, 1)) (ex_conflicts (version_state st)))),
     dolt_conflicts_dependencies = (\<lambda>st. Inr []), dolt_conflicts_config = (\<lambda>st. Inr []),
     dolt_conflicts_schema_migrations = (\<lambda>n st. Inr []),
     dolt_constraint_violations = (\<lambda>n st. Inr (ex_violations (version_state st))),
     table_violations = (\<lambda>t st. Inr [(''foreign key'', Some ''issues'')]), run = ex_run, delete_err = (\<lambda>t st. None)\<rparr>"

definition ex_merged :: "ex_state repo" where
  "ex_merged = \<lparr>version_state = \<lparr>ex_conflicts = [''metadata''], ex_violations = [''labels'']\<rparr>,
     repo_tables = (ex_db [ex_row ''bd-1'' ''open'' False] [])\<lparr>t_labels := [(''bd-1'', ''a''), (''bd-2'', ''b'')]\<rparr>\<rparr>"

definition ex_engine_deps :: "string option \<Rightarrow> ex_state engine" where
  "ex_engine_deps ty = ex_engine\<lparr>dolt_conflicts_dependencies := (\<lambda>st. Inr [\<lparr>our_id = Some ''d'', their_id = Some ''d'',
     our_issue_id = Some ''bd-1'', their_issue_id = Some ''bd-1'', our_depends_on_issue_id = Some ''bd-2'',
     their_depends_on_issue_id = None, our_depends_on_wisp_id = None, their_depends_on_wisp_id = Some ''bd-2'',
     our_depends_on_external = None, their_depends_on_external = None, our_type = Some ''blocks'', their_type = ty\<rparr>])\<rparr>"

definition ex_merged_deps :: "ex_state repo" where
  "ex_merged_deps = ex_merged\<lparr>version_state := \<lparr>ex_conflicts = [''metadata'', ''dependencies''], ex_violations = [''labels'']\<rparr>\<rparr>"

text \<open>
  The conflict in \<^verbatim>\<open>dependencies\<close> is one of the same edge, and the merge is kept; with another
  type on the other side it is reported.
\<close>

theorem settle_merge_safe_witness:
  "(\<exists>st1 st' n. SettleMerge (ex_engine_deps (Some ''blocks'')) (Some ''conflicts'') True ex_merged_deps = (None, st') \<and>
     t_labels (repo_tables st') = [(''bd-1'', ''a'')] \<and>
     needs_no_operator (ex_engine_deps (Some ''blocks'')) ex_merged_deps ''dependencies'' \<and>
     dolt_constraint_violations (ex_engine_deps (Some ''blocks'')) n st1 = Inr [] \<and>
     run (ex_engine_deps (Some ''blocks'')) CommitResolved st1 = (None, st')) \<and>
   fst (SettleMerge (ex_engine_deps (Some ''related'')) (Some ''conflicts'') True ex_merged_deps) =
     Some (MergeConflictsError [''metadata'', ''dependencies''] (Some ''conflicts''))"
proof -
  let ?g = "ex_engine_deps (Some ''blocks'')"
  have e: "case SettleMerge ?g (Some ''conflicts'') True ex_merged_deps of
      (r, st') \<Rightarrow> r = None \<and> t_labels (repo_tables st') = [(''bd-1'', ''a'')]"
    by code_simp
  obtain st' where st': "SettleMerge ?g (Some ''conflicts'') True ex_merged_deps = (None, st')"
    "t_labels (repo_tables st') = [(''bd-1'', ''a'')]"
    using e by (auto split: prod.splits)
  have c: "\<forall>n. dolt_conflicts ?g n ex_merged_deps = Inr [(''metadata'', 1), (''dependencies'', 1)]"
    by (simp add: ex_engine_deps_def ex_engine_def ex_merged_deps_def)
  have no: "needs_no_operator ?g ex_merged_deps ''dependencies''"
    unfolding table_resolvable_iff[symmetric] by code_simp
  have two: "fst (SettleMerge (ex_engine_deps (Some ''related'')) (Some ''conflicts'') True ex_merged_deps) =
     Some (MergeConflictsError [''metadata'', ''dependencies''] (Some ''conflicts''))"
    by code_simp
  from settle_merge_safe[OF st'(1)] obtain st1 n where
    "dolt_constraint_violations ?g n st1 = Inr []" "run ?g CommitResolved st1 = (None, st')"
    using c by (auto simp: GetConflicts_def)
  then show ?thesis using st' no two by blast
qed

text \<open>
  The exception is reached: a conflict in \<^verbatim>\<open>issues\<close>, which no rule resolves, survives a merge
  that reports success when the second read of \<^verbatim>\<open>dolt_conflicts\<close> fails.
\<close>

definition ex_flaky :: "ex_state engine" where
  "ex_flaky = ex_engine\<lparr>dolt_conflicts := (\<lambda>n st. if n = 0 then dolt_conflicts ex_engine 0 st else Inl ''connection lost'')\<rparr>"

lemma conflicted_merge_kept:
  "case SettleMerge ex_flaky None True (ex_merged\<lparr>version_state := \<lparr>ex_conflicts = [''issues''], ex_violations = []\<rparr>\<rparr>) of
     (res, st') \<Rightarrow> res = None \<and> ex_conflicts (version_state st') = [''issues'']"
  by code_simp

subsection \<open>What the repair removes\<close>

text \<open>
  The repair of a table removes the rows whose issue is gone and no other, and the repairs of
  several tables do not disturb each other.
\<close>

definition attached :: "string \<Rightarrow> db \<Rightarrow> bool" where
  "attached t s = (cascade_delete t s = s)"

lemma cascade_delete_lookup [simp]:
  "issue_exists (cascade_delete t s) = issue_exists s" "dep_attached (cascade_delete t s) = dep_attached s"
proof -
  show e: "issue_exists (cascade_delete t s) = issue_exists s"
    by (simp add: fun_eq_iff issue_exists_def cascade_delete_def)
  show "dep_attached (cascade_delete t s) = dep_attached s" unfolding dep_attached_def e by simp
qed

lemma table_update_id:
  "(s\<lparr>t_deps := ds\<rparr> = s) = (ds = t_deps s)" "(s\<lparr>t_labels := ls\<rparr> = s) = (ls = t_labels s)"
  "(s\<lparr>t_comments := cs\<rparr> = s) = (cs = t_comments s)" "(s\<lparr>t_events := es\<rparr> = s) = (es = t_events s)"
  "(s\<lparr>t_child_counters := ns\<rparr> = s) = (ns = t_child_counters s)"
  by (cases s; auto)+

lemma attached_iff:
  "attached t s \<longleftrightarrow>
    (t = ''dependencies'' \<longrightarrow> (\<forall>d\<in>set (t_deps s). dep_attached s d)) \<and>
    (t = ''labels'' \<longrightarrow> (\<forall>(x, l)\<in>set (t_labels s). issue_exists s x)) \<and>
    (t = ''comments'' \<longrightarrow> (\<forall>c\<in>set (t_comments s). issue_exists s (CommentIssueID c))) \<and>
    (t = ''events'' \<longrightarrow> (\<forall>v\<in>set (t_events s). issue_exists s (ev_issue v))) \<and>
    (t = ''child_counters'' \<longrightarrow> (\<forall>(x, n)\<in>set (t_child_counters s). issue_exists s x))"
  by (simp add: attached_def cascade_delete_def table_update_id filter_id_conv)

lemma cascade_delete_subset:
  "set (t_deps (cascade_delete u s)) \<subseteq> set (t_deps s)" "set (t_labels (cascade_delete u s)) \<subseteq> set (t_labels s)"
  "set (t_comments (cascade_delete u s)) \<subseteq> set (t_comments s)" "set (t_events (cascade_delete u s)) \<subseteq> set (t_events s)"
  "set (t_child_counters (cascade_delete u s)) \<subseteq> set (t_child_counters s)"
  by (simp_all add: cascade_delete_def)

lemma cascade_delete_attaches: "attached t (cascade_delete t s)"
  unfolding attached_iff cascade_delete_lookup by (simp add: cascade_delete_def)

lemma imp_ball_mono: "A \<longrightarrow> (\<forall>x\<in>X. P x) \<Longrightarrow> Y \<subseteq> X \<Longrightarrow> A \<longrightarrow> (\<forall>x\<in>Y. P x)"
  by blast

lemma cascade_delete_keeps: "attached t s \<Longrightarrow> attached t (cascade_delete u s)"
  unfolding attached_iff cascade_delete_lookup
  by (elim conjE, intro conjI; erule imp_ball_mono, rule cascade_delete_subset)

theorem repair_attaches:
  assumes "run_all (repair_table g) ts st = (None, st')"
    and keep: "\<And>q st. q \<in> {ClearViolations t |t. True} \<union> {StageTable t |t. True} \<Longrightarrow> repo_tables (snd (run g q st)) = repo_tables st"
  shows "\<forall>t\<in>set ts. attached t (repo_tables st')"
proof -
  have one: "repo_tables st2 = cascade_delete t (repo_tables st1)" if "repair_table g t st1 = (None, st2)" for t st1 st2
  proof -
    let ?s = "st1\<lparr>repo_tables := cascade_delete t (repo_tables st1)\<rparr>"
    obtain e s2 where c: "run g (ClearViolations t) ?s = (e, s2)" by (cases "run g (ClearViolations t) ?s") blast
    then have "repo_tables s2 = cascade_delete t (repo_tables st1)" using keep[of "ClearViolations t" ?s] by simp
    moreover have "run g (StageTable t) s2 = (None, st2)"
      using that c by (auto simp: repair_table_def and_then_def split: option.splits)
    ultimately show ?thesis using keep[of "StageTable t" s2] by simp
  qed
  have "(\<forall>t\<in>U. attached t (repo_tables st)) \<Longrightarrow> (\<forall>t\<in>U \<union> set ts. attached t (repo_tables st'))" for U
    using assms(1)
  proof (induction ts arbitrary: st U)
    case (Cons t ts)
    obtain st1 where st1: "repair_table g t st = (None, st1)" "run_all (repair_table g) ts st1 = (None, st')"
      using Cons.prems(2) by (auto simp: and_then_def split: prod.splits option.splits)
    have "\<forall>u\<in>insert t U. attached u (repo_tables st1)"
      using one[OF st1(1)] Cons.prems(1) cascade_delete_attaches cascade_delete_keeps by auto
    from Cons.IH[OF this st1(2)] show ?case by auto
  qed simp
  from this[of "{}"] show ?thesis by simp
qed

end
