(* ===== verification/Compaction.thy ===== *)
theory Compaction
  imports Config Ids Lifecycle
begin

text \<open>
  Compaction of closed issues (\<^verbatim>\<open>internal/storage/issueops/compaction.go\<close>): the check whether
  an issue is eligible, the snapshot of the texts that a compaction overwrites, and its
  restoration.  The table \<^verbatim>\<open>compaction_snapshots\<close> is kept beside the record \<^verbatim>\<open>db\<close>.  The JSON
  functions of a snapshot are a parameter.  The age of an issue is compared exactly and not in
  floating-point hours.  The two queries that list candidates are not modelled: they call
  \<^verbatim>\<open>CHAR_LENGTH\<close>, a function neither SQLite nor \<^verbatim>\<open>open.go\<close> defines, so in this store they
  return an error.
\<close>

record issue_snapshot =
  SnapLevel :: int
  SnapTitle :: string
  SnapDescription :: string
  SnapDesign :: string
  SnapNotes :: string
  SnapAcceptance :: string

record snapshot_row =
  snap_issue :: string
  snap_tier :: int
  snap_json :: string
  snap_at :: time

record snapshot_db =
  base :: db
  snapshots :: "snapshot_row list"

record compaction_env =
  marshal_snap :: "issue_snapshot \<Rightarrow> string"
  unmarshal_snap :: "string \<Rightarrow> issue_snapshot option"

definition defaultTier1Days :: int where
  "defaultTier1Days = 30"

definition defaultTier2Days :: int where
  "defaultTier2Days = 90"

definition day :: int where
  "day = 24 * 60 * 60 * 10 ^ 9"

definition getCompactDays :: "int \<Rightarrow> db \<Rightarrow> int" where
  "getCompactDays tier s =
    (let (key, dflt) = (if tier = 2 then (''compact_tier2_days'', defaultTier2Days) else (''compact_tier1_days'', defaultTier1Days));
         val = kv_get key (t_config s)
     in if val = '''' then dflt
        else (case Atoi val of None \<Rightarrow> dflt | Some n \<Rightarrow> if n \<le> 0 then dflt else n))"

subsection \<open>Eligibility\<close>

datatype ineligible =
    NoSuchIssue string
  | NotClosed status
  | NoClosedAt
  | AlreadyCompacted int
  | NeedsTier1
  | TooYoung int
  | UnsupportedTier int

text \<open>\<^verbatim>\<open>None\<close> is eligible, otherwise the reason.\<close>

definition CheckEligibility :: "env \<Rightarrow> string \<Rightarrow> int \<Rightarrow> db \<Rightarrow> ineligible option" where
  "CheckEligibility e x tier s =
    (case select_row x (t_issues s) of
       None \<Rightarrow> Some (NoSuchIssue x)
     | Some r \<Rightarrow>
         if Status r \<noteq> StatusClosed then Some (NotClosed (Status r))
         else (case ClosedAt r of
             None \<Rightarrow> Some NoClosedAt
           | Some closedAt \<Rightarrow>
               let threshold = getCompactDays tier s;
                   young = (now e - closedAt < threshold * day)
               in if tier = 1 then
                    (if CompactionLevel r \<ge> 1 then Some (AlreadyCompacted 1)
                     else if young then Some (TooYoung threshold) else None)
                  else if tier = 2 then
                    (if CompactionLevel r \<ge> 2 then Some (AlreadyCompacted 2)
                     else if CompactionLevel r < 1 then Some NeedsTier1
                     else if young then Some (TooYoung threshold) else None)
                  else Some (UnsupportedTier tier)))"

subsection \<open>Compaction and snapshots\<close>

definition update_issue_row :: "string \<Rightarrow> (issue_row \<Rightarrow> issue_row) \<Rightarrow> snapshot_db \<Rightarrow> snapshot_db" where
  "update_issue_row x f st =
     st\<lparr>base := (base st)\<lparr>t_issues := fst (update_where (\<lambda>r. ID r = x) f (t_issues (base st)))\<rparr>\<rparr>"

definition ApplyCompaction :: "env \<Rightarrow> string \<Rightarrow> int \<Rightarrow> int \<Rightarrow> string \<Rightarrow> snapshot_db \<Rightarrow> snapshot_db" where
  "ApplyCompaction e x tier originalSize commitHash =
     update_issue_row x (\<lambda>r. r\<lparr>UpdatedAt := now e, CompactionLevel := tier, CompactedAt := Some (now e),
       CompactedAtCommit := Some commitHash, OriginalSize := originalSize\<rparr>)"

definition SnapshotIssue :: "env \<Rightarrow> compaction_env \<Rightarrow> string \<Rightarrow> int \<Rightarrow> snapshot_db \<Rightarrow> store_error + snapshot_db" where
  "SnapshotIssue e c x tier st =
    (case select_row x (t_issues (base st)) of
       None \<Rightarrow> Inl (NotFound x)
     | Some r \<Rightarrow>
         let snap = \<lparr>SnapLevel = tier, SnapTitle = Title r, SnapDescription = Description r, SnapDesign = Design r,
               SnapNotes = Notes r, SnapAcceptance = AcceptanceCriteria r\<rparr>
         in Inr (st\<lparr>snapshots := snapshots st @
              [\<lparr>snap_issue = x, snap_tier = tier, snap_json = marshal_snap c snap, snap_at = now e\<rparr>]\<rparr>))"

text \<open>
  \<^verbatim>\<open>ORDER BY created_at DESC LIMIT 1\<close>; of rows of the same instant the one inserted first.  The
  column holds texts of UTC times, whose order is that of the instants.
\<close>

fun latest :: "snapshot_row list \<Rightarrow> snapshot_row option" where
  "latest [] = None"
| "latest (p # ps) = (case latest ps of None \<Rightarrow> Some p | Some q \<Rightarrow> Some (if snap_at q > snap_at p then q else p))"

definition GetLatestSnapshot :: "compaction_env \<Rightarrow> string \<Rightarrow> snapshot_db \<Rightarrow> store_error + issue_snapshot option" where
  "GetLatestSnapshot c x st =
    (case latest (filter (\<lambda>p. snap_issue p = x) (snapshots st)) of
       None \<Rightarrow> Inr None
     | Some p \<Rightarrow> (case unmarshal_snap c (snap_json p) of
         None \<Rightarrow> Inl (OpFailed ''unmarshal'')
       | Some snap \<Rightarrow> Inr (Some (snap\<lparr>SnapLevel := snap_tier p\<rparr>))))"

definition restore_texts :: "env \<Rightarrow> issue_snapshot \<Rightarrow> issue_row \<Rightarrow> issue_row" where
  "restore_texts e snap r = r\<lparr>Description := SnapDescription snap, Design := SnapDesign snap,
     AcceptanceCriteria := SnapAcceptance snap, Notes := SnapNotes snap, UpdatedAt := now e\<rparr>"

definition RestoreFromSnapshot ::
  "env \<Rightarrow> compaction_env \<Rightarrow> string \<Rightarrow> snapshot_db \<Rightarrow> store_error + (issue_snapshot option \<times> snapshot_db)" where
  "RestoreFromSnapshot e c x st =
    (case GetLatestSnapshot c x st of
       Inl err \<Rightarrow> Inl err
     | Inr None \<Rightarrow> Inr (None, st)
     | Inr (Some snap) \<Rightarrow>
         let newLevel = max (SnapLevel snap - 1) 0
         in Inr (Some snap, update_issue_row x (\<lambda>r. let r1 = restore_texts e snap r in
              if newLevel = 0 then r1\<lparr>CompactionLevel := 0, CompactedAt := None, CompactedAtCommit := Some '''', OriginalSize := 0\<rparr>
              else r1\<lparr>CompactionLevel := newLevel\<rparr>) st))"

end
