(* ===== verification/PropsCompaction.thy ===== *)
theory PropsCompaction
  imports Compaction LifecycleThms Examples Utf8
begin

text \<open>The properties of compaction: what restoring a snapshot brings back.\<close>

subsection \<open>Snapshots\<close>

text \<open>
  What the code relies on of \<^verbatim>\<open>encoding/json\<close>: texts of valid UTF-8 are read back; the level is
  not written.
\<close>

definition clean_texts :: "issue_snapshot \<Rightarrow> bool" where
  "clean_texts p = (valid_utf8 (SnapTitle p) \<and> valid_utf8 (SnapDescription p) \<and> valid_utf8 (SnapDesign p) \<and>
     valid_utf8 (SnapNotes p) \<and> valid_utf8 (SnapAcceptance p))"

definition snapshot_codec :: "compaction_env \<Rightarrow> bool" where
  "snapshot_codec c = (\<forall>p. clean_texts p \<longrightarrow> unmarshal_snap c (marshal_snap c p) = Some (p\<lparr>SnapLevel := 0\<rparr>))"

lemma latest_append_newer:
  assumes "\<forall>q\<in>set ps. snap_at q < snap_at p"
  shows "latest (ps @ [p]) = Some p"
  using assms by (induction ps) auto

lemma select_row_update:
  assumes "\<And>r. ID (f r) = ID r"
  shows "select_row y (fst (update_where (\<lambda>r. ID r = x) f rows)) =
    (if y = x then map_option f (select_row x rows) else select_row y rows)"
  using assms by (induction rows) (auto simp: update_where_def select_row_def)

definition snapshot_of :: "int \<Rightarrow> issue_row \<Rightarrow> issue_snapshot" where
  "snapshot_of tier r = \<lparr>SnapLevel = tier, SnapTitle = Title r, SnapDescription = Description r, SnapDesign = Design r,
     SnapNotes = Notes r, SnapAcceptance = AcceptanceCriteria r\<rparr>"

text \<open>
  The row that a restoration of the texts of \<^verbatim>\<open>r\<close> makes of \<^verbatim>\<open>cur\<close>, given in full: four texts,
  the time of the update, the level, and at level 0 no trace of a compaction.
\<close>

definition restored_row :: "time \<Rightarrow> int \<Rightarrow> issue_row \<Rightarrow> issue_row \<Rightarrow> issue_row" where
  "restored_row at tier r cur =
     cur\<lparr>Description := Description r, Design := Design r, Notes := Notes r, AcceptanceCriteria := AcceptanceCriteria r,
       UpdatedAt := at, CompactionLevel := (if tier \<le> 1 then 0 else tier - 1),
       CompactedAt := (if tier \<le> 1 then None else CompactedAt cur),
       CompactedAtCommit := (if tier \<le> 1 then Some '''' else CompactedAtCommit cur),
       OriginalSize := (if tier \<le> 1 then 0 else OriginalSize cur)\<rparr>"

text \<open>
  (C18) A snapshot taken of an issue whose texts are valid UTF-8, newer than its other
  snapshots, is what a restoration brings back whatever became of the rows since.  The
  restored row is the current one with exactly these columns changed: the description, the
  design, the notes and the acceptance criteria are those of the issue when the snapshot was
  taken, the time of the update is new, the compaction level is one below the tier of the
  snapshot but not below 0, whatever it was before, and at level 0 the marks of a compaction
  are cleared.  No other row, no other table and no snapshot changes, and the snapshot
  returned is the one that was taken.
\<close>

theorem snapshot_restores:
  assumes c: "snapshot_codec c" and r: "select_row x (t_issues (base st)) = Some r"
    and clean: "clean_texts (snapshot_of tier r)"
    and new: "\<And>p. p \<in> set (snapshots st) \<Longrightarrow> snap_at p < now e"
    and snap: "SnapshotIssue e c x tier st = Inr st1"
    and later: "snapshots st2 = snapshots st1" "select_row x (t_issues (base st2)) = Some cur"
  shows "\<exists>rows. RestoreFromSnapshot e2 c x st2 =
      Inr (Some (snapshot_of tier r), st2\<lparr>base := (base st2)\<lparr>t_issues := rows\<rparr>\<rparr>) \<and>
    select_row x rows = Some (restored_row (now e2) tier r cur) \<and> map ID rows = map ID (t_issues (base st2)) \<and>
    (\<forall>y. y \<noteq> x \<longrightarrow> select_row y rows = select_row y (t_issues (base st2)))"
proof -
  let ?snap = "snapshot_of tier r"
  let ?p = "\<lparr>snap_issue = x, snap_tier = tier, snap_json = marshal_snap c ?snap, snap_at = now e\<rparr>"
  have s1: "snapshots st2 = snapshots st @ [?p]" using snap r later(1) by (auto simp: SnapshotIssue_def snapshot_of_def)
  have "latest (filter (\<lambda>p. snap_issue p = x) (snapshots st) @ [?p]) = Some ?p"
    by (rule latest_append_newer) (use new in auto)
  then have "GetLatestSnapshot c x st2 = Inr (Some (?snap\<lparr>SnapLevel := 0, SnapLevel := tier\<rparr>))"
    using c clean by (simp add: GetLatestSnapshot_def s1 snapshot_codec_def)
  then have g: "GetLatestSnapshot c x st2 = Inr (Some ?snap)" by (simp add: snapshot_of_def)
  define f where "f = (\<lambda>r. let r1 = restore_texts e2 ?snap r in
    if max (tier - 1) 0 = 0 then r1\<lparr>CompactionLevel := 0, CompactedAt := None, CompactedAtCommit := Some '''', OriginalSize := 0\<rparr>
    else r1\<lparr>CompactionLevel := max (tier - 1) 0\<rparr>)"
  let ?rows = "fst (update_where (\<lambda>r. ID r = x) f (t_issues (base st2)))"
  have f: "f cur = restored_row (now e2) tier r cur"
    by (simp add: f_def restore_texts_def snapshot_of_def restored_row_def Let_def)
  have ids: "ID (f q) = ID q" for q by (simp add: f_def restore_texts_def Let_def)
  have "RestoreFromSnapshot e2 c x st2 = Inr (Some ?snap, st2\<lparr>base := (base st2)\<lparr>t_issues := ?rows\<rparr>\<rparr>)"
    by (simp add: RestoreFromSnapshot_def g f_def Let_def update_issue_row_def snapshot_of_def)
  moreover have "select_row y ?rows = (if y = x then Some (restored_row (now e2) tier r cur) else select_row y (t_issues (base st2)))" for y
    using later(2) select_row_update[of f y x "t_issues (base st2)", OF ids] f by simp
  moreover have "map ID ?rows = map ID (t_issues (base st2))" using ids by (simp add: update_where_def)
  ultimately show ?thesis by auto
qed

definition ex_compaction :: compaction_env where
  "ex_compaction = \<lparr>marshal_snap = (\<lambda>p. concat (map (\<lambda>t. replicate (length t) (CHR ''1'') @ ''0'' @ t)
       [SnapTitle p, SnapDescription p, SnapDesign p, SnapNotes p, SnapAcceptance p])),
     unmarshal_snap = (\<lambda>t. let field = (\<lambda>u. let n = length (takeWhile (\<lambda>c. c = CHR ''1'') u) in
           (take n (drop (Suc n) u), drop (Suc (2 * n)) u));
         (a, t1) = field t; (b, t2) = field t1; (c, t3) = field t2; (d, t4) = field t3; (e, t5) = field t4
       in Some \<lparr>SnapLevel = 0, SnapTitle = a, SnapDescription = b, SnapDesign = c, SnapNotes = d, SnapAcceptance = e\<rparr>)\<rparr>"

lemma ex_compaction_codec: "snapshot_codec ex_compaction"
proof -
  have w: "takeWhile (\<lambda>c. c = CHR ''1'') (replicate n (CHR ''1'') @ CHR ''0'' # v) = replicate n (CHR ''1'')" for n v
    by (simp add: takeWhile_append)
  have d: "drop (Suc (2 * length t)) (replicate (length t) (CHR ''1'') @ CHR ''0'' # t @ v) = v" for t v
    by (simp add: drop_Cons split: nat.split)
  show ?thesis by (simp add: snapshot_codec_def ex_compaction_def w d)
qed

definition wordy_row :: issue_row where
  "wordy_row = (ex_row ''bd-1'' ''closed'' False)\<lparr>Description := ''long'', Notes := ''notes'', ClosedAt := Some 0\<rparr>"

definition wordy :: snapshot_db where
  "wordy = \<lparr>base = ex_db [wordy_row] [], snapshots = []\<rparr>"

theorem snapshot_restores_witness:
  "\<exists>st1 snap st3 r3. SnapshotIssue ex_env ex_compaction ''bd-1'' 1 wordy = Inr st1 \<and>
     RestoreFromSnapshot ex_env ex_compaction ''bd-1''
       (ApplyCompaction ex_env ''bd-1'' 1 9 ''abc'' (update_issue_row ''bd-1'' (\<lambda>r. r\<lparr>Description := ''short'', Notes := ''''\<rparr>) st1)) =
       Inr (Some snap, st3) \<and>
     select_row ''bd-1'' (t_issues (base st3)) = Some r3 \<and> Description r3 = ''long'' \<and> Notes r3 = ''notes'' \<and>
     CompactionLevel r3 = 0 \<and> CompactedAtCommit r3 = Some '''' \<and> Status r3 = ''closed''"
proof -
  let ?f = "\<lambda>r. r\<lparr>Description := ''short'', Notes := ''''\<rparr>"
  have row: "select_row ''bd-1'' (t_issues (base wordy)) = Some wordy_row"
    by (simp add: wordy_def ex_db_def wordy_row_def ex_row_def issue.defs select_row_def)
  have clean: "clean_texts (snapshot_of 1 wordy_row)" by code_simp
  have new: "snap_at p < now ex_env" if "p \<in> set (snapshots wordy)" for p using that by (simp add: wordy_def)
  obtain st1 where s: "SnapshotIssue ex_env ex_compaction ''bd-1'' 1 wordy = Inr st1" "base st1 = base wordy"
    using row by (simp add: SnapshotIssue_def)
  let ?st1 = "update_issue_row ''bd-1'' ?f st1"
  let ?st = "ApplyCompaction ex_env ''bd-1'' 1 9 ''abc'' ?st1"
  have later: "snapshots ?st = snapshots st1" by (simp add: ApplyCompaction_def update_issue_row_def)
  have "\<exists>cur. select_row ''bd-1'' (t_issues (base ?st)) = Some cur \<and> Status cur = Status wordy_row"
    using row s(2) by (simp add: ApplyCompaction_def update_issue_row_def select_row_update)
  then obtain cur where cur: "select_row ''bd-1'' (t_issues (base ?st)) = Some cur" "Status cur = Status wordy_row" by blast
  have w: "Description wordy_row = ''long''" "Notes wordy_row = ''notes''" "Status wordy_row = ''closed''"
    by (simp_all add: wordy_row_def ex_row_def issue.defs)
  show ?thesis
    using snapshot_restores[OF ex_compaction_codec row clean new s(1) later cur(1), of ex_env] s(1) w cur(2)
    by (auto simp: restored_row_def)
qed

text \<open>
  A restoration leaves its snapshot in place, so the next one finds the same snapshot again:
  an issue compacted twice never gets back to the texts before its first compaction.
\<close>

theorem restore_twice_same:
  assumes "RestoreFromSnapshot e c x st = Inr (Some snap, st1)"
  shows "\<exists>st2. RestoreFromSnapshot e2 c x st1 = Inr (Some snap, st2)"
proof -
  have "snapshots st1 = snapshots st" "GetLatestSnapshot c x st = Inr (Some snap)"
    using assms by (auto simp: RestoreFromSnapshot_def Let_def update_issue_row_def split: sum.splits option.splits)
  then have "GetLatestSnapshot c x st1 = Inr (Some snap)" by (simp add: GetLatestSnapshot_def)
  then show ?thesis by (simp add: RestoreFromSnapshot_def Let_def)
qed

end
