(* ===== verification/DepTree.thy ===== *)
theory DepTree
  imports Readers
begin

text \<open>
  The dependency tree of an issue (\<^verbatim>\<open>internal/storage/issueops/dependency_tree.go\<close>): a
  depth-first walk with one set of visited issues, cut at \<^verbatim>\<open>maxDepth\<close>.  The recursion
  counts the levels that are left.
\<close>

record tree_node =
  NodeIssue :: issue_row
  Depth :: nat
  ParentID :: string
  EdgeFromParent :: dep_type

definition DepRelatesTo :: dep_type where
  "DepRelatesTo = ''relates-to''"

definition isDependencyTreeEdge :: "dep_type \<Rightarrow> bool" where
  "isDependencyTreeEdge depType = (depType \<noteq> DepRelatesTo)"

definition tree_related :: "db \<Rightarrow> bool \<Rightarrow> string \<Rightarrow> store_error + (issue_row \<times> dep_type) list" where
  "tree_related s reverse x =
     (if reverse then Inr (GetDependentsWithMetadata s x) else GetDependenciesWithMetadata s x)"

text \<open>\<^verbatim>\<open>buildDependencyTreeInTx\<close> and its loop over the related issues, with the visited set threaded through.\<close>

fun build_tree ::
    "db \<Rightarrow> bool \<Rightarrow> nat \<Rightarrow> nat \<Rightarrow> string set \<Rightarrow> string \<Rightarrow> string \<Rightarrow> dep_type \<Rightarrow> store_error + (tree_node list \<times> string set)"
  and build_children ::
    "db \<Rightarrow> bool \<Rightarrow> nat \<Rightarrow> nat \<Rightarrow> string set \<Rightarrow> string \<Rightarrow> (issue_row \<times> dep_type) list \<Rightarrow>
     store_error + (tree_node list \<times> string set)" where
  "build_tree s reverse 0 depth visited x parent edge = Inr ([], visited)"
| "build_tree s reverse (Suc left) depth visited x parent edge =
    (if x \<in> visited then Inr ([], visited)
     else (case GetIssue s x of
         Inl err \<Rightarrow> Inl err
       | Inr i \<Rightarrow> (case tree_related s reverse x of
           Inl err \<Rightarrow> Inl err
         | Inr related \<Rightarrow> (case build_children s reverse left (Suc depth) (insert x visited) x related of
             Inl err \<Rightarrow> Inl err
           | Inr (ns, v) \<Rightarrow>
               Inr (\<lparr>NodeIssue = i, Depth = depth, ParentID = parent, EdgeFromParent = edge\<rparr> # ns, v)))))"
| "build_children s reverse left depth visited x [] = Inr ([], visited)"
| "build_children s reverse left depth visited x ((r, t) # related) =
    (if \<not> isDependencyTreeEdge t then build_children s reverse left depth visited x related
     else (case build_tree s reverse left depth visited (ID r) x t of
         Inl err \<Rightarrow> Inl err
       | Inr (ns, v) \<Rightarrow> (case build_children s reverse left depth v x related of
           Inl err \<Rightarrow> Inl err
         | Inr (rest, v') \<Rightarrow> Inr (ns @ rest, v'))))"

text \<open>The argument \<^verbatim>\<open>showAllPaths\<close> is not read; a negative depth is an empty answer.\<close>

definition GetDependencyTree :: "db \<Rightarrow> string \<Rightarrow> int \<Rightarrow> bool \<Rightarrow> bool \<Rightarrow> store_error + tree_node list" where
  "GetDependencyTree s x maxDepth showAllPaths reverse =
     map_sum id fst (build_tree s reverse (nat maxDepth) 0 {} x '''' '''')"

end
