(* ===== verification/PropsTree.thy ===== *)
theory PropsTree
  imports DepTree Examples
begin

text \<open>The properties of the dependency tree.\<close>

subsection \<open>What one walk adds\<close>

definition tree_edge :: "db \<Rightarrow> bool \<Rightarrow> string \<Rightarrow> string \<Rightarrow> bool" where
  "tree_edge s reverse x y = (\<exists>related r t. tree_related s reverse x = Inr related \<and> (r, t) \<in> set related \<and>
     isDependencyTreeEdge t \<and> ID r = y)"

abbreviation node_id :: "tree_node \<Rightarrow> string" where
  "node_id n \<equiv> ID (NodeIssue n)"

text \<open>
  The nodes a walk with \<^verbatim>\<open>left\<close> levels from \<^verbatim>\<open>depth\<close> adds to the visited set: new issues within
  the levels, and with each that is not on the last level all its successors.
\<close>

definition walk :: "db \<Rightarrow> bool \<Rightarrow> nat \<Rightarrow> nat \<Rightarrow> string set \<Rightarrow> tree_node list \<Rightarrow> string set \<Rightarrow> bool" where
  "walk s reverse left depth v ns v' = (v' = v \<union> node_id ` set ns \<and> distinct (map node_id ns) \<and>
     node_id ` set ns \<inter> v = {} \<and> (\<forall>n\<in>set ns. depth \<le> Depth n \<and> Depth n < depth + left) \<and>
     (\<forall>n\<in>set ns. Suc (Depth n) < depth + left \<longrightarrow> (\<forall>y. tree_edge s reverse (node_id n) y \<longrightarrow> y \<in> v')))"

lemma walk_append:
  assumes "walk s b left depth v ns v1" "walk s b left depth v1 ms v2"
  shows "walk s b left depth v (ns @ ms) v2"
  using assms by (auto simp: walk_def)

text \<open>Every node but the first hangs under a node one level above it.\<close>

definition hangs :: "db \<Rightarrow> bool \<Rightarrow> nat \<Rightarrow> string \<Rightarrow> tree_node set \<Rightarrow> tree_node \<Rightarrow> bool" where
  "hangs s reverse depth parent ns n =
     (if Depth n = depth then ParentID n = parent
      else (\<exists>m\<in>ns. ParentID n = node_id m \<and> Depth n = Suc (Depth m)))"

lemma build_walk:
  "build_tree s b left depth v x parent edge = Inr (ns, v') \<Longrightarrow>
     walk s b left depth v ns v' \<and> (0 < left \<longrightarrow> x \<in> v') \<and>
     (\<forall>n\<in>set ns. hangs s b depth parent (set ns) n \<and>
       (if Depth n = depth then node_id n = x else tree_edge s b (ParentID n) (node_id n)))"
  "build_children s b left depth v x related = Inr (ns, v') \<Longrightarrow> tree_related s b x = Inr all \<Longrightarrow> set related \<subseteq> set all \<Longrightarrow>
     walk s b left depth v ns v' \<and> (0 < left \<longrightarrow> (\<forall>(r, t)\<in>set related. isDependencyTreeEdge t \<longrightarrow> ID r \<in> v')) \<and>
     (\<forall>n\<in>set ns. hangs s b depth x (set ns) n \<and> tree_edge s b (ParentID n) (node_id n))"
proof (induction s b left depth v x parent edge and s b left depth v x related
    arbitrary: ns v' and ns v' all rule: build_tree_build_children.induct)
  case (1 s b depth v x parent edge)
  then show ?case by (simp add: walk_def)
next
  case (2 s b left depth v x parent edge)
  show ?case
  proof (cases "x \<in> v")
    case True
    then show ?thesis using 2(2) by (auto simp: walk_def)
  next
    case False
    obtain i related ms where r: "GetIssue s x = Inr i" "tree_related s b x = Inr related"
      "build_children s b left (Suc depth) (insert x v) x related = Inr (ms, v')"
      "ns = \<lparr>NodeIssue = i, Depth = depth, ParentID = parent, EdgeFromParent = edge\<rparr> # ms"
      using 2(2) False by (auto split: sum.splits prod.splits)
    have id: "ID i = x" using GetIssue_ok[OF r(1)] by simp
    note ih = 2(1)[OF False r(1,2,3) r(2) subset_refl]
    have succ: "y \<in> v'" if "tree_edge s b x y" "0 < left" for y
      using ih that r(2) by (auto simp: tree_edge_def)
    have "walk s b (Suc left) depth v ns v'"
      using ih succ False unfolding r(4) walk_def by (auto simp: id)
    moreover have "x \<in> v'" using ih by (auto simp: walk_def)
    moreover have "hangs s b depth parent (set ns) n \<and>
      (if Depth n = depth then node_id n = x else tree_edge s b (ParentID n) (node_id n))" if "n \<in> set ns" for n
    proof (cases "n \<in> set ms")
      case True
      have "Suc depth \<le> Depth n" using ih True by (simp add: walk_def)
      moreover have "hangs s b (Suc depth) x (set ms) n" "tree_edge s b (ParentID n) (node_id n)" using ih True by blast+
      ultimately show ?thesis unfolding r(4) hangs_def by (auto simp: id split: if_splits)
    next
      case False
      then show ?thesis using that id unfolding r(4) hangs_def by simp
    qed
    ultimately show ?thesis by blast
  qed
next
  case (3 s b left depth v x)
  then show ?case by (simp add: walk_def)
next
  case (4 s b left depth v x r t related)
  show ?case
  proof (cases "isDependencyTreeEdge t")
    case False
    then show ?thesis using 4(1)[of ns v' all] 4(4-6) by auto
  next
    case True
    obtain ns1 v1 ns2 where r: "build_tree s b left depth v (ID r) x t = Inr (ns1, v1)"
      "build_children s b left depth v1 x related = Inr (ns2, v')" "ns = ns1 @ ns2"
      using 4(4) True by (auto split: sum.splits prod.splits)
    have t1: "walk s b left depth v ns1 v1 \<and> (0 < left \<longrightarrow> ID r \<in> v1) \<and>
      (\<forall>n\<in>set ns1. hangs s b depth x (set ns1) n \<and>
        (if Depth n = depth then node_id n = ID r else tree_edge s b (ParentID n) (node_id n)))"
      using 4(2) True r(1) by simp
    have t2: "walk s b left depth v1 ns2 v' \<and> (0 < left \<longrightarrow> (\<forall>(r, t)\<in>set related. isDependencyTreeEdge t \<longrightarrow> ID r \<in> v')) \<and>
      (\<forall>n\<in>set ns2. hangs s b depth x (set ns2) n \<and> tree_edge s b (ParentID n) (node_id n))"
      using 4(3)[of "(ns1, v1)" ns1 v1 ns2 v' all] True r(1,2) 4(5,6) by simp
    have w: "walk s b left depth v ns v'" using t1 t2 walk_append r(3) by blast
    have "v1 \<subseteq> v'" using t2 by (auto simp: walk_def)
    then have a: "0 < left \<longrightarrow> (\<forall>(r', t')\<in>set ((r, t) # related). isDependencyTreeEdge t' \<longrightarrow> ID r' \<in> v')"
      using t1 t2 by auto
    have root: "tree_edge s b x (ID r)" using 4(5,6) True by (auto simp: tree_edge_def)
    have "hangs s b depth x (set ns) n \<and> tree_edge s b (ParentID n) (node_id n)" if "n \<in> set ns" for n
    proof (cases "n \<in> set ns1")
      case True
      then have h: "hangs s b depth x (set ns1) n" "if Depth n = depth then node_id n = ID r else tree_edge s b (ParentID n) (node_id n)"
        using t1 by blast+
      then show ?thesis using root r(3) by (auto simp: hangs_def split: if_splits)
    next
      case False
      then have "hangs s b depth x (set ns2) n" "tree_edge s b (ParentID n) (node_id n)" using that t2 r(3) by auto
      then show ?thesis using r(3) by (auto simp: hangs_def split: if_splits)
    qed
    with w a show ?thesis by blast
  qed
qed

subsection \<open>The tree\<close>

lemma node_reached:
  assumes "\<forall>n\<in>set ns. hangs s b 0 parent (set ns) n \<and>
      (if Depth n = 0 then node_id n = x else tree_edge s b (ParentID n) (node_id n))"
  shows "n \<in> set ns \<Longrightarrow> (tree_edge s b)\<^sup>*\<^sup>* x (node_id n)"
proof (induction "Depth n" arbitrary: n)
  case 0
  then have "node_id n = x" using assms by (metis (full_types))
  then show ?case by simp
next
  case (Suc d)
  then have "hangs s b 0 parent (set ns) n" "tree_edge s b (ParentID n) (node_id n)" using assms by (metis nat.distinct(1))+
  then obtain m where m: "m \<in> set ns" "ParentID n = node_id m" "Depth n = Suc (Depth m)"
    using Suc.hyps(2) by (auto simp: hangs_def split: if_splits)
  then have "(tree_edge s b)\<^sup>*\<^sup>* x (node_id m)" using Suc by simp
  then show ?case using m(2) \<open>tree_edge s b (ParentID n) (node_id n)\<close> by simp
qed

lemma closed_reached:
  assumes "x \<in> A" "\<And>y z. y \<in> A \<Longrightarrow> tree_edge s b y z \<Longrightarrow> z \<in> A" "(tree_edge s b)\<^sup>*\<^sup>* x y"
  shows "y \<in> A"
  using assms(3,1,2) by (induction rule: rtranclp_induct) auto

text \<open>
  (C19) The dependency tree starts at the issue itself, names no issue twice, stays below the
  maximal depth, and hangs every other node under a node one level above, over an edge that
  is no \<^verbatim>\<open>relates-to\<close>.  If it was not cut at the maximal depth, it contains exactly the
  issues that can be reached over such edges.
\<close>

theorem dependency_tree_exact:
  assumes t: "GetDependencyTree s x maxDepth a reverse = Inr ns" and pos: "0 < maxDepth"
  shows "distinct (map node_id ns) \<and> x \<in> node_id ` set ns \<and>
    (\<forall>n\<in>set ns. int (Depth n) < maxDepth \<and> (tree_edge s reverse)\<^sup>*\<^sup>* x (node_id n) \<and>
       (if Depth n = 0 then node_id n = x
        else tree_edge s reverse (ParentID n) (node_id n) \<and>
          (\<exists>m\<in>set ns. ParentID n = node_id m \<and> Depth n = Suc (Depth m)))) \<and>
    ((\<forall>n\<in>set ns. int (Depth n) + 1 < maxDepth) \<longrightarrow> node_id ` set ns = {y. (tree_edge s reverse)\<^sup>*\<^sup>* x y})"
proof -
  obtain v where b: "build_tree s reverse (nat maxDepth) 0 {} x '''' '''' = Inr (ns, v)"
    using t by (cases "build_tree s reverse (nat maxDepth) 0 {} x '''' ''''") (auto simp: GetDependencyTree_def)
  note bw = build_walk(1)[OF b]
  have v: "v = node_id ` set ns" "x \<in> v" using bw pos by (auto simp: walk_def)
  have h: "\<forall>n\<in>set ns. hangs s reverse 0 '''' (set ns) n \<and>
      (if Depth n = 0 then node_id n = x else tree_edge s reverse (ParentID n) (node_id n))"
    using bw by blast
  have nodes: "int (Depth n) < maxDepth \<and> (tree_edge s reverse)\<^sup>*\<^sup>* x (node_id n) \<and>
       (if Depth n = 0 then node_id n = x
        else tree_edge s reverse (ParentID n) (node_id n) \<and>
          (\<exists>m\<in>set ns. ParentID n = node_id m \<and> Depth n = Suc (Depth m)))" if n: "n \<in> set ns" for n
  proof -
    have "Depth n < nat maxDepth" using bw n by (simp add: walk_def)
    then show ?thesis using node_reached[OF h n] bspec[OF h n] by (auto simp: hangs_def split: if_splits)
  qed
  have "y \<in> node_id ` set ns" if short: "\<forall>n\<in>set ns. int (Depth n) + 1 < maxDepth" and r: "(tree_edge s reverse)\<^sup>*\<^sup>* x y" for y
  proof (rule closed_reached[OF _ _ r])
    show "x \<in> node_id ` set ns" using v by simp
    fix y z assume "y \<in> node_id ` set ns" "tree_edge s reverse y z"
    moreover have "Suc (Depth n) < nat maxDepth" if "n \<in> set ns" for n using short that by fastforce
    ultimately show "z \<in> node_id ` set ns" using bw v(1) by (auto simp: walk_def)
  qed
  then have "(\<forall>n\<in>set ns. int (Depth n) + 1 < maxDepth) \<longrightarrow> node_id ` set ns = {y. (tree_edge s reverse)\<^sup>*\<^sup>* x y}"
    using nodes by blast
  moreover have "distinct (map node_id ns)" using bw by (simp add: walk_def)
  ultimately show ?thesis using nodes v by blast
qed

definition diamond :: db where
  "diamond = ex_db [ex_row ''bd-1'' ''open'' False, ex_row ''bd-2'' ''open'' False, ex_row ''bd-3'' ''open'' False, ex_row ''bd-4'' ''open'' False]
     [ex_dep ''bd-1'' ''bd-2'' ''blocks'' '''', ex_dep ''bd-2'' ''bd-3'' ''blocks'' '''',
      ex_dep ''bd-1'' ''bd-3'' ''blocks'' '''', ex_dep ''bd-3'' ''bd-4'' ''blocks'' '''']"

theorem dependency_tree_exact_witness:
  "\<exists>ns. GetDependencyTree diamond ''bd-1'' 5 False False = Inr ns \<and>
     map (\<lambda>n. (node_id n, Depth n)) ns = [(''bd-1'', 0), (''bd-2'', 1), (''bd-3'', 2), (''bd-4'', 3)] \<and>
     {y. (tree_edge diamond False)\<^sup>*\<^sup>* ''bd-1'' y} = {''bd-1'', ''bd-2'', ''bd-3'', ''bd-4''}"
proof -
  have "case GetDependencyTree diamond ''bd-1'' 5 False False of Inl err \<Rightarrow> False
      | Inr ns \<Rightarrow> map (\<lambda>n. (node_id n, Depth n)) ns = [(''bd-1'', 0), (''bd-2'', 1), (''bd-3'', 2), (''bd-4'', 3)]"
    by code_simp
  then obtain ns where ns: "GetDependencyTree diamond ''bd-1'' 5 False False = Inr ns"
    "map (\<lambda>n. (node_id n, Depth n)) ns = [(''bd-1'', 0), (''bd-2'', 1), (''bd-3'', 2), (''bd-4'', 3)]"
    by (auto split: sum.splits)
  have m: "(\<lambda>n. (node_id n, Depth n)) ` set ns = {(''bd-1'', 0), (''bd-2'', 1), (''bd-3'', 2), (''bd-4'', 3)}"
    using arg_cong[OF ns(2), of set] by simp
  have "Depth n \<le> 3" if "n \<in> set ns" for n
  proof -
    have "(node_id n, Depth n) \<in> {(''bd-1'', 0), (''bd-2'', 1), (''bd-3'', 2), (''bd-4'', 3)}" using m that by blast
    then show ?thesis by auto
  qed
  then have "\<forall>n\<in>set ns. int (Depth n) + 1 < 5" by fastforce
  moreover have "node_id ` set ns = fst ` (\<lambda>n. (node_id n, Depth n)) ` set ns" by (simp add: image_image)
  then have "node_id ` set ns = {''bd-1'', ''bd-2'', ''bd-3'', ''bd-4''}" unfolding m by simp
  ultimately show ?thesis using dependency_tree_exact[OF ns(1)] ns by auto
qed

text \<open>
  With a smaller depth the walk misses issues that are near: \<^verbatim>\<open>bd-3\<close> is first met on the last
  level, below \<^verbatim>\<open>bd-2\<close>, and then not followed from \<^verbatim>\<open>bd-1\<close> either, so \<^verbatim>\<open>bd-4\<close>, two edges from the
  root, is missing.
\<close>

theorem depth_limit_misses_near:
  "case GetDependencyTree diamond ''bd-1'' 3 True False of Inl err \<Rightarrow> False
     | Inr ns \<Rightarrow> map node_id ns = [''bd-1'', ''bd-2'', ''bd-3'']"
  by code_simp

end
