(* ===== verification/Spec2Isabelle.thy ===== *)
theory Spec2Isabelle
  imports PropsCore PropsBlocked PropsLifecycle PropsDeps PropsConfig PropsUpdate PropsIds PropsCreate PropsLabels PropsMergeSlot PropsTraces PropsReaders PropsReady PropsRename PropsMerge PropsSlots PropsSettle PropsCompaction PropsTree
begin

text \<open>
  A verification development of the beads storage backend on DoltLite, a Go program
  that keeps an issue tracker for agents in one SQLite-compatible database file.

  \<^bold>\<open>The program.\<close>  The packages under \<^verbatim>\<open>internal/types\<close> and \<^verbatim>\<open>internal/idgen\<close> hold the
  data model: issues, statuses, dependency types, validation, the content hash and
  the identifiers.  \<^verbatim>\<open>internal/storage/issueops\<close> holds the operations, each a function
  of a database transaction; \<^verbatim>\<open>internal/storage/sqlbuild\<close> builds the clauses of their
  queries.  \<^verbatim>\<open>internal/storage/doltlite\<close> opens the database, runs the operations in
  transactions and adds its own insert path.  \<^verbatim>\<open>cmd\<close> and \<^verbatim>\<open>internal/provider\<close> expose
  the store as a process that speaks JSON.  Issues live in two families of tables of
  the same shape, permanent issues (\<^verbatim>\<open>issues\<close>, \<^verbatim>\<open>dependencies\<close>, \<^verbatim>\<open>labels\<close>, \<^verbatim>\<open>comments\<close>,
  \<^verbatim>\<open>events\<close>) and ephemeral ones (\<^verbatim>\<open>wisps\<close>, \<^verbatim>\<open>wisp_dependencies\<close>, ...), and every operation
  routes an id to its family.  The column \<^verbatim>\<open>is_blocked\<close> is derived data: each operation
  that changes a status, a gate or a dependency computes the affected rows and
  repairs their flags, so that the queries for ready and blocked work only read it.

  \<^bold>\<open>The model.\<close>  The state is the record \<^verbatim>\<open>db\<close> of \<^verbatim>\<open>Store\<close>: one list of rows per table.
  The functions \<^verbatim>\<open>issue_table\<close>, \<^verbatim>\<open>dep_table\<close>, ... take the family as a boolean, \<^verbatim>\<open>True\<close> for
  wisps.  A statement is a filter, an update or an append on these lists, an operation
  a function from the state to an error of the datatype \<^verbatim>\<open>store_error\<close> or a result
  with the new state; a transaction that fails leaves the old state, because the
  error carries none.  Loops that repeat until nothing changes may not end, and are
  \<^verbatim>\<open>partial_function (option)\<close>: \<^verbatim>\<open>None\<close> is a loop that never returns, and the results
  prove \<^verbatim>\<open>Some\<close>.

  What a theory models, with the Go files under \<^verbatim>\<open>internal\<close>:

  \<^item> \<^verbatim>\<open>Prelude\<close>, \<^verbatim>\<open>GoStrings\<close>, \<^verbatim>\<open>Utf8\<close>: results, generic lemmas, the functions of Go's strings,
    strconv and fmt packages on byte strings, and the valid UTF-8 texts.
  \<^item> \<^verbatim>\<open>Types\<close>, \<^verbatim>\<open>Validate\<close>, \<^verbatim>\<open>ContentHash\<close>, \<^verbatim>\<open>StatusConfig\<close>: \<^verbatim>\<open>types/types.go\<close>;
    \<^verbatim>\<open>IdGen\<close>: \<^verbatim>\<open>idgen/hash.go\<close>, \<^verbatim>\<open>types/id_generator.go\<close>.
  \<^item> \<^verbatim>\<open>Store\<close>: the tables and routing (\<^verbatim>\<open>wisp_routing.go\<close>, \<^verbatim>\<open>get_issue.go\<close>, \<^verbatim>\<open>scan.go\<close>,
    \<^verbatim>\<open>events.go\<close>); \<^verbatim>\<open>Blocked\<close>, \<^verbatim>\<open>Affected\<close>: \<^verbatim>\<open>blocked_state.go\<close>, \<^verbatim>\<open>blocked_consistency.go\<close>.
  \<^item> \<^verbatim>\<open>Lifecycle\<close>: \<^verbatim>\<open>claim.go\<close>, \<^verbatim>\<open>lease.go\<close>, \<^verbatim>\<open>close.go\<close>, \<^verbatim>\<open>reopen.go\<close>; \<^verbatim>\<open>Update\<close>:
    \<^verbatim>\<open>update.go\<close>; \<^verbatim>\<open>Delete\<close>: \<^verbatim>\<open>delete.go\<close>.
  \<^item> \<^verbatim>\<open>Cycles\<close>, \<^verbatim>\<open>Deps\<close>: \<^verbatim>\<open>cycles.go\<close>, \<^verbatim>\<open>dependencies.go\<close>; \<^verbatim>\<open>DepQueries\<close>, \<^verbatim>\<open>Readers\<close>:
    \<^verbatim>\<open>dependency_queries.go\<close>, \<^verbatim>\<open>blocked.go\<close>, \<^verbatim>\<open>epic_closure.go\<close>.
  \<^item> \<^verbatim>\<open>Config\<close>, \<^verbatim>\<open>Ids\<close>, \<^verbatim>\<open>Create\<close>, \<^verbatim>\<open>StoreCreate\<close>: \<^verbatim>\<open>config_helpers.go\<close>, \<^verbatim>\<open>helpers.go\<close>,
    \<^verbatim>\<open>child_id.go\<close>, \<^verbatim>\<open>create.go\<close> and \<^verbatim>\<open>doltlite/create_issue.go\<close>.
  \<^item> \<^verbatim>\<open>Labels\<close>: \<^verbatim>\<open>labels.go\<close>, \<^verbatim>\<open>comments.go\<close>; \<^verbatim>\<open>MergeSlot\<close>: \<^verbatim>\<open>storage/merge_slot.go\<close>.
  \<^item> \<^verbatim>\<open>Filters\<close>, \<^verbatim>\<open>ReadyWork\<close>: \<^verbatim>\<open>sqlbuild\<close>, \<^verbatim>\<open>search.go\<close>, \<^verbatim>\<open>ready_work.go\<close>, \<^verbatim>\<open>statistics.go\<close>.
  \<^item> \<^verbatim>\<open>Rename\<close>: the renaming of issues and dependency rows (\<^verbatim>\<open>bulk_ops.go\<close>, \<^verbatim>\<open>dependencies.go\<close>),
    \<^verbatim>\<open>promote.go\<close> and the prefix rename of \<^verbatim>\<open>doltlite/store.go\<close>.
  \<^item> \<^verbatim>\<open>Merge\<close>: the repair of flags after a merge of two clones (\<^verbatim>\<open>blocked_merge.go\<close>);
    \<^verbatim>\<open>MergeSettle\<close>: the settlement of its conflicts and violations
    (\<^verbatim>\<open>storage/versioncontrolops/mergesettle.go\<close>).
  \<^item> \<^verbatim>\<open>Compaction\<close>: \<^verbatim>\<open>compaction.go\<close>; \<^verbatim>\<open>DepTree\<close>: \<^verbatim>\<open>dependency_tree.go\<close>.
  \<^item> \<^verbatim>\<open>Tx\<close>, \<^verbatim>\<open>StoreOps\<close>: the transactions, retries and operations of the store as its clients
    call them (\<^verbatim>\<open>store.go\<close>, \<^verbatim>\<open>issues.go\<close>, \<^verbatim>\<open>dependencies.go\<close>, \<^verbatim>\<open>config_metadata.go\<close>,
    \<^verbatim>\<open>slots.go\<close>, \<^verbatim>\<open>transaction.go\<close> of \<^verbatim>\<open>doltlite\<close>).

  \<^bold>\<open>The results.\<close>  \<^verbatim>\<open>BlockedSpec\<close> defines what being blocked means (the inductive
  \<^verbatim>\<open>must_block\<close>).  \<^verbatim>\<open>FlagEngine\<close> states the contract of the repair loops as a locale and
  proves once that they end and establish it; \<^verbatim>\<open>BlockedThms\<close> and \<^verbatim>\<open>RepairThms\<close> interpret
  it on the statements of the store and show that the affected sets of \<^verbatim>\<open>Affected\<close> suffice.
  \<^verbatim>\<open>LifecycleOps\<close>, \<^verbatim>\<open>UpdateThms\<close>, \<^verbatim>\<open>UpdateSpec\<close> (what each column of an updated row holds), \<^verbatim>\<open>DepsThms\<close>, \<^verbatim>\<open>CreateThms\<close>, \<^verbatim>\<open>DeleteThms\<close> then show for each
  operation what it does on every branch and that it keeps the invariant
  \<^verbatim>\<open>good_db\<close> (unique keys, acyclic parents, exact flags); \<^verbatim>\<open>Traces\<close> composes them into a
  step relation whose reachable databases all satisfy it; a call that can break it is no step,
  and \<^verbatim>\<open>PropsTraces\<close> names these calls.  \<^verbatim>\<open>CyclesThms\<close> and \<^verbatim>\<open>CycleScan\<close>
  prove the searches for cycles exact, \<^verbatim>\<open>MergeSlotThms\<close> refines the merge slot to an
  abstract lock, \<^verbatim>\<open>DepQueriesThms\<close>, \<^verbatim>\<open>ReadersThms\<close> and \<^verbatim>\<open>ReadyThms\<close> compare the queries
  with the specification of blocked work.  \<^verbatim>\<open>Moves\<close> shows that a bijection of nodes carries
  the flags along, and \<^verbatim>\<open>RenameThms\<close> that renaming and promotion are such moves.  \<^verbatim>\<open>MergeThms\<close> shows
  that the rows of a diff seed all flags a merge can change.  \<^verbatim>\<open>TxThms\<close> lifts the results to the
  calls of the store: a call applies its function once or not at all when its connections
  close without an error, and each such error after a commit allows one more run.  The
  theories \<^verbatim>\<open>Props...\<close> hold the properties and the concrete databases (\<^verbatim>\<open>Examples\<close>) on which
  the witnesses evaluate them.

  \<^bold>\<open>Bounds and parameters.\<close>  The limits of the code are kept: batches of 50 (deletion) and
  200 (queries), 10000 results of a recursive deletion, 50 custom statuses, hierarchy
  depth 3, 64-bit counters, whose wrap-around is written out.  The record \<^verbatim>\<open>env\<close> holds what an
  operation reads from outside: one clock value per operation, the context's lease
  time, random bytes, the hash of dependency ids, and the JSON reader of a gate;
  \<^verbatim>\<open>sql_env\<close> holds the texts of times and the JSON functions of the database.  SHA-256,
  the JSON codec of the merge slot, UUIDs and the floating-point collision
  probability are parameters where they are used.  The order in which Go ranges over
  a map is an argument, and the properties hold for each.  Foreign keys are not
  enforced by this store, so a deletion removes only what its statements name.  A call is
  tried five times, each attempt with its own record \<^verbatim>\<open>driver\<close> of the calls that fail; a
  statement that fails is one error of the attempt, before its function.  The diff of two
  commits, the head commit and the status of the database are the record \<^verbatim>\<open>merge_view\<close>;
  the system tables and stored procedures that a settlement uses are the record \<^verbatim>\<open>engine\<close>, whose
  queries may answer differently the second time.  The laws of the JSON codec are stated for
  valid UTF-8 only, since \<^verbatim>\<open>encoding/json\<close> replaces other bytes.

  \<^bold>\<open>The dialect.\<close>  The repair of flags exists in a MySQL and an SQLite wording of the same
  statements.  The single operations of the store use the SQLite one; the batch deletions
  and the repair after a merge use the MySQL one, which this store's SQLite engine refuses.
  \<^verbatim>\<open>Delete\<close> takes the engine as a flag, so a batch deletion with a row to recompute fails on
  SQLite; the theorem on the repair after a merge, which nothing calls, is about an engine
  that accepts its statements.

  \<^bold>\<open>Not modelled.\<close>  The opening of the database, file locks, telemetry and missing
  tables; the version control of the database (commits, branches, the merging of rows,
  federation), which is a set of stored procedures outside this repository; the
  execution of schema migrations; configuration files, hook programs and the JSON
  protocol of the commands; the counting variants of the readers; the queries for
  candidates of a compaction, which call a function the engine does not have and always fail
  in this store.  The manifest
  lists each of them with its files.

  \<^bold>\<open>What the model showed.\<close>  Beside the properties, lemmas next to them exhibit behaviour
  that differs from the comments or the intention of the code, for instance: a cycle
  of parents makes the repair run for ever; creating a child of an awaited issue,
  replacing a gate, or closing a pinned issue by a generic update leaves a stale
  flag; a counter id can replace an existing issue; the list of blocked issues misses
  those blocked by a gate whose spawner is closed; a limit on ready work can keep the
  newer of two issues of the same second; the merged search exceeds its limit; renaming an
  issue leaves its labels behind, and promoting a claimed wisp drops its lease; the repair
  after a merge is never called; a batch deletion fails on SQLite when a flag may change; a
  merge with conflicts is kept when their second reading fails; an error of closing a connection hides a commit; two
  concurrent settings of slots can lose one; an issue compacted twice never gets its
  first texts back; the dependency tree misses near issues at its depth limit.
\<close>

end
